(* ===== verification/Prelude.thy ===== *)
theory Prelude
  imports Main "HOL-Library.Word" "HOL-Library.Signed_Division" "HOL-Library.Monad_Syntax"
begin

section \<open>Prelude: machine integers, failure, error numbers\<close>

text \<open>
  What every component of the kernel shares.

  \<^item> Machine integers. Addresses, sizes and counters of the 32-bit target are naturals with
    the wrap-around of \<^verbatim>\<open>uint32_t\<close> written out (\<open>add32\<close>, \<open>sub32\<close>, \<open>mul32\<close>); bit fields
    and bitmaps are \<open>32 word\<close> and the like.
  \<^item> Failure. Code that can panic (the \<^verbatim>\<open>ASSERT\<close> macro of common.h ends in \<^verbatim>\<open>panic\<close>, which
    never returns), that reads through a bad pointer, or that loops for ever has an
    \<open>option\<close> result, and \<open>None\<close> stands for \<open>it does not come back with a value\<close>. Error codes
    such as \<^verbatim>\<open>-ENOMEM\<close> are ordinary results.
  \<^item> The error numbers of errno.h that the modelled code returns.
\<close>

subsection \<open>Machine integers\<close>

type_synonym addr = nat

abbreviation (input) NULL :: addr where
  "NULL \<equiv> 0"

definition two32 :: nat where
  "two32 = 4294967296"

definition add32 :: "nat \<Rightarrow> nat \<Rightarrow> nat" where
  "add32 a b = (a + b) mod two32"

definition sub32 :: "nat \<Rightarrow> nat \<Rightarrow> nat" where
  "sub32 a b = (a + (two32 - b mod two32)) mod two32"

definition mul32 :: "nat \<Rightarrow> nat \<Rightarrow> nat" where
  "mul32 a b = (a * b) mod two32"

named_theorems u32_simps \<open>32-bit arithmetic where it does not wrap around\<close>

lemma add32_small [u32_simps]: "a + b < two32 \<Longrightarrow> add32 a b = a + b"
  by (simp add: add32_def)

lemma sub32_small [u32_simps]: "b \<le> a \<Longrightarrow> a < two32 \<Longrightarrow> sub32 a b = a - b"
  by (simp add: sub32_def mod_if)

lemma mul32_small [u32_simps]: "a * b < two32 \<Longrightarrow> mul32 a b = a * b"
  by (simp add: mul32_def)

lemma add32_lt [simp]: "add32 a b < two32"
  by (simp add: add32_def two32_def)

lemma sub32_lt [simp]: "sub32 a b < two32"
  by (simp add: sub32_def two32_def)

lemma mul32_lt [simp]: "mul32 a b < two32"
  by (simp add: mul32_def two32_def)

text \<open>C's division truncates towards zero; on non-negative operands it is \<open>div\<close> and \<open>mod\<close>.\<close>

lemma sdiv_nonneg: "0 \<le> (a::int) \<Longrightarrow> 0 < b \<Longrightarrow> a sdiv b = a div b"
  by (cases "a = 0") (simp_all add: signed_divide_int_def)

lemma smod_nonneg: "0 \<le> (a::int) \<Longrightarrow> 0 < b \<Longrightarrow> a smod b = a mod b"
  by (cases "a = 0") (simp_all add: signed_modulo_int_def)

text \<open>Searching a range from its first element on.\<close>

lemma ex_from_split: "j < n \<Longrightarrow> (\<exists>i. j \<le> i \<and> i < n \<and> P i) \<longleftrightarrow> P j \<or> (\<exists>i. j + 1 \<le> i \<and> i < n \<and> P i)"
  for j n :: nat
proof -
  assume "j < n"
  have "(j \<le> i) = (i = j \<or> j + 1 \<le> i)" for i by auto
  with \<open>j < n\<close> show ?thesis by auto
qed

subsection \<open>Failure\<close>

text \<open>The \<^verbatim>\<open>ASSERT\<close> macro: the kernel panics unless the condition holds.\<close>

definition ASSERT :: "bool \<Rightarrow> unit option" where
  "ASSERT b = (if b then Some () else None)"

lemma ASSERT_eq_Some [simp]: "ASSERT b = Some u \<longleftrightarrow> b"
  by (simp add: ASSERT_def)

lemma ASSERT_True [simp]: "ASSERT True = Some ()"
  by (simp add: ASSERT_def)

lemma ASSERT_False [simp]: "ASSERT False = None"
  by (simp add: ASSERT_def)

lemma bind_ASSERT [simp]: "Option.bind (ASSERT b) f = (if b then f () else None)"
  by (simp add: ASSERT_def)

subsection \<open>Error numbers (errno.h)\<close>

definition EPERM :: int where "EPERM = 1"
definition ENOENT :: int where "ENOENT = 2"
definition ESRCH :: int where "ESRCH = 3"
definition EINTR :: int where "EINTR = 4"
definition EBADF :: int where "EBADF = 9"
definition EAGAIN :: int where "EAGAIN = 11"
definition ENOMEM :: int where "ENOMEM = 12"
definition EACCES :: int where "EACCES = 13"
definition EFAULT :: int where "EFAULT = 14"
definition ENOTBLK :: int where "ENOTBLK = 15"
definition EBUSY :: int where "EBUSY = 16"
definition EEXIST :: int where "EEXIST = 17"
definition EXDEV :: int where "EXDEV = 18"
definition ENODEV :: int where "ENODEV = 19"
definition ENOTDIR :: int where "ENOTDIR = 20"
definition EINVAL :: int where "EINVAL = 22"
definition ENFILE :: int where "ENFILE = 23"
definition ENOTTY :: int where "ENOTTY = 25"
definition EROFS :: int where "EROFS = 30"

lemmas errno_defs =
  EPERM_def ENOENT_def ESRCH_def EINTR_def EBADF_def EAGAIN_def ENOMEM_def EACCES_def
  EFAULT_def ENOTBLK_def EBUSY_def EEXIST_def EXDEV_def ENODEV_def ENOTDIR_def EINVAL_def
  ENFILE_def ENOTTY_def EROFS_def

end
