(* ===== verification/Time.thy ===== *)
theory Time
  imports Prelude
begin

section \<open>Calendar time (kernel/time.c)\<close>

text \<open>
  \<^verbatim>\<open>mktime\<close> turns a broken-down date into seconds since 1970, \<^verbatim>\<open>gmtime\<close> turns seconds into a
  date. \<^verbatim>\<open>time_t\<close> is a 32-bit unsigned integer, here a natural below \<open>two32\<close>; the fields of
  \<^verbatim>\<open>struct tm\<close> are \<^verbatim>\<open>int\<close>s. In \<^verbatim>\<open>mktime\<close> the products are computed in \<^verbatim>\<open>int\<close> and overflow from
  2038 on; the model lets them wrap, which is what the target machine does, and takes the
  result modulo \<open>two32\<close>. A month outside 0..11 reads outside the table \<^verbatim>\<open>month\<close>: \<open>None\<close>.
\<close>

record tm =
  tm_sec :: int
  tm_min :: int
  tm_hour :: int
  tm_mday :: int
  tm_mon :: int
  tm_year :: int
  tm_wday :: int
  tm_yday :: int
  tm_isdst :: int

definition MINUTE :: int where "MINUTE = 60"
definition HOUR :: int where "HOUR = 60 * MINUTE"
definition DAY :: int where "DAY = 24 * HOUR"
definition YEAR :: int where "YEAR = 365 * DAY"
definition YEAR0 :: int where "YEAR0 = 1900"
definition EPOCH_YR :: int where "EPOCH_YR = 1970"

definition LEAPYEAR :: "int \<Rightarrow> bool" where
  "LEAPYEAR year \<longleftrightarrow> year smod 4 = 0 \<and> (year smod 100 \<noteq> 0 \<or> year smod 400 = 0)"

definition YEARSIZE :: "int \<Rightarrow> nat" where
  "YEARSIZE year = (if LEAPYEAR year then 366 else 365)"

text \<open>The table \<^verbatim>\<open>month\<close> (seconds before each month of a leap year) and \<^verbatim>\<open>_ytab\<close>.\<close>

definition month :: "int list" where
  "month =
    [0,
     DAY*(31),
     DAY*(31+29),
     DAY*(31+29+31),
     DAY*(31+29+31+30),
     DAY*(31+29+31+30+31),
     DAY*(31+29+31+30+31+30),
     DAY*(31+29+31+30+31+30+31),
     DAY*(31+29+31+30+31+30+31+31),
     DAY*(31+29+31+30+31+30+31+31+30),
     DAY*(31+29+31+30+31+30+31+31+30+31),
     DAY*(31+29+31+30+31+30+31+31+30+31+30)]"

definition ytab :: "bool \<Rightarrow> nat list" where
  "ytab leap =
    (if leap then [31, 29, 31, 30, 31, 30, 31, 31, 30, 31, 30, 31]
     else [31, 28, 31, 30, 31, 30, 31, 31, 30, 31, 30, 31])"

definition mktime :: "tm \<Rightarrow> nat option" where
  "mktime tp =
    (if 0 \<le> tm_mon tp \<and> tm_mon tp < 12 then
       (let year = tm_year tp - 70;
            res = YEAR * year + DAY * ((year + 1) sdiv 4);
            res = res + month ! nat (tm_mon tp);
            res = (if tm_mon tp > 1 \<and> (year + 2) smod 4 \<noteq> 0 then res - DAY else res);
            res = res + DAY * (tm_mday tp - 1);
            res = res + HOUR * tm_hour tp;
            res = res + MINUTE * tm_min tp;
            res = res + tm_sec tp
        in Some (nat (res mod int two32)))
     else None)"

text \<open>The two loops of \<^verbatim>\<open>gmtime\<close>: over the years, then over the months of the year reached.\<close>

lemma YEARSIZE_pos [simp]: "0 < YEARSIZE y"
  by (simp add: YEARSIZE_def)

function gmtime_years :: "nat \<Rightarrow> int \<Rightarrow> nat \<times> int" where
  "gmtime_years dayno year =
    (if dayno \<ge> YEARSIZE year then gmtime_years (dayno - YEARSIZE year) (year + 1)
     else (dayno, year))"
  by pat_completeness auto
termination
  by (relation "measure fst") (auto simp: YEARSIZE_def)

function gmtime_months :: "bool \<Rightarrow> nat \<Rightarrow> nat \<Rightarrow> (nat \<times> nat) option" where
  "gmtime_months leap dayno mon =
    (if mon \<ge> 12 then None
     else if dayno \<ge> ytab leap ! mon then gmtime_months leap (dayno - ytab leap ! mon) (mon + 1)
     else Some (dayno, mon))"
  by pat_completeness auto
termination
  by (relation "measure (\<lambda>(leap, dayno, mon). 12 - mon)") auto

declare gmtime_years.simps [simp del] gmtime_months.simps [simp del]

definition gmtime :: "nat \<Rightarrow> tm option" where
  "gmtime time =
    (let clock = time mod nat DAY;
         dayno = time div nat DAY;
         wday = (dayno + 4) mod 7;
         (yday, year) = gmtime_years dayno EPOCH_YR
     in do {
       (mday, mon) \<leftarrow> gmtime_months (LEAPYEAR year) yday 0;
       Some \<lparr>tm_sec = int (clock mod nat MINUTE),
             tm_min = int ((clock mod nat HOUR) div nat MINUTE),
             tm_hour = int (clock div nat HOUR),
             tm_mday = int mday + 1,
             tm_mon = int mon,
             tm_year = year - YEAR0,
             tm_wday = int wday,
             tm_yday = int yday,
             tm_isdst = 0\<rparr>
     })"

text \<open>
  \<^verbatim>\<open>init_time\<close> reads the real-time clock. A reading of its registers is a record of bytes; the
  loop reads all of them, then the seconds again, until the two readings of the seconds agree.
  The readings the hardware gives are a list of pairs; \<open>None\<close> when none of them is consistent.
\<close>

record rtc =
  rtc_sec :: int
  rtc_min :: int
  rtc_hour :: int
  rtc_dom :: int
  rtc_month :: int
  rtc_year :: int
  rtc_cent :: int

fun read_rtc :: "(rtc \<times> int) list \<Rightarrow> rtc option" where
  "read_rtc [] = None"
| "read_rtc ((r, sec) # rs) = (if rtc_sec r \<noteq> sec then read_rtc rs else Some r)"

definition BCD2HEX :: "int \<Rightarrow> int" where
  "BCD2HEX bcd = drop_bit 1 (and bcd 0xF0) + drop_bit 3 (and bcd 0xF0) + and bcd 0xF"

definition CMOS_RTC_24HR :: int where "CMOS_RTC_24HR = 0x02"
definition CMOS_RTC_BIN :: int where "CMOS_RTC_BIN = 0x04"

definition rtc_hour24 :: "int \<Rightarrow> int \<Rightarrow> int" where
  "rtc_hour24 stat_b hour =
    (if and stat_b CMOS_RTC_24HR = 0 then
       let pm = and hour 0x80;
           hour = and hour (not 0x80);
           hour = (if hour = 0x12 \<or> hour = 12 then 0 else hour)
       in hour + (if pm \<noteq> 0 then (if and stat_b CMOS_RTC_BIN \<noteq> 0 then 12 else 0x12) else 0)
     else hour)"

text \<open>The register \<open>stat_b\<close> does not change; the fields of \<^verbatim>\<open>time\<close> that are not set are not read.\<close>

definition init_time :: "int \<Rightarrow> (rtc \<times> int) list \<Rightarrow> nat option" where
  "init_time stat_b readings = do {
     r \<leftarrow> read_rtc readings;
     let hour = rtc_hour24 stat_b (rtc_hour r);
     let dec = (if and stat_b CMOS_RTC_BIN = 0 then BCD2HEX else id);
     let century = dec (rtc_cent r) * 100 - 1900;
     mktime \<lparr>tm_sec = dec (rtc_sec r), tm_min = dec (rtc_min r), tm_hour = dec hour,
             tm_mday = dec (rtc_dom r), tm_mon = dec (rtc_month r) - 1,
             tm_year = dec (rtc_year r) + century,
             tm_wday = 0, tm_yday = 0, tm_isdst = 0\<rparr>
   }"

lemmas time_consts = MINUTE_def HOUR_def DAY_def YEAR_def YEAR0_def EPOCH_YR_def


subsection \<open>The loops in closed form\<close>

text \<open>Leap days between 1970 and the start of \<open>y\<close>, for the years a 32-bit clock reaches.\<close>

lemma LEAPYEAR_nonneg:
  "0 \<le> y \<Longrightarrow> LEAPYEAR y \<longleftrightarrow> y mod 4 = 0 \<and> (y mod 100 \<noteq> 0 \<or> y mod 400 = 0)"
  by (simp add: LEAPYEAR_def smod_nonneg)

definition days_before :: "int \<Rightarrow> int" where
  "days_before y = 365 * (y - 1970) + (y - 1969) div 4 - (if y > 2100 then 1 else 0)"

lemma LEAPYEAR_range:
  assumes "1970 \<le> y" "y \<le> 2106"
  shows "LEAPYEAR y \<longleftrightarrow> y mod 4 = 0 \<and> y \<noteq> 2100"
proof -
  from assms have "y mod 100 = 0 \<Longrightarrow> y = 2000 \<or> y = 2100" by presburger
  moreover from assms have "LEAPYEAR y \<longleftrightarrow> y mod 4 = 0 \<and> (y mod 100 \<noteq> 0 \<or> y mod 400 = 0)"
    by (simp add: LEAPYEAR_nonneg)
  ultimately show ?thesis by auto
qed

lemma days_before_Suc:
  assumes "1970 \<le> y" "y \<le> 2106"
  shows "days_before (y + 1) = days_before y + int (YEARSIZE y)"
proof -
  note leap = LEAPYEAR_range [OF assms]
  have "(y + 1 - 1969) div 4 = (y - 1969) div 4 + (if y mod 4 = 0 then 1 else 0)"
    by presburger
  then show ?thesis
    using assms by (auto simp: days_before_def YEARSIZE_def leap)
qed

lemma gmtime_years_spec:
  assumes "gmtime_years dayno year = (d, y)" "1970 \<le> year"
    and "int dayno + days_before year < days_before 2107" "year \<le> 2106"
  shows "year \<le> y \<and> y \<le> 2106 \<and> int dayno + days_before year = int d + days_before y \<and> d < YEARSIZE y"
  using assms
proof (induction dayno year rule: gmtime_years.induct)
  case (1 dayno year)
  show ?case
  proof (cases "YEARSIZE year \<le> dayno")
    case True
    have step: "days_before (year + 1) = days_before year + int (YEARSIZE year)"
      using 1(3,5) by (rule days_before_Suc)
    have "year \<noteq> 2106"
    proof
      assume "year = 2106"
      with step True 1(4) show False by simp
    qed
    with True step 1 show ?thesis
      by (simp add: gmtime_years.simps [of dayno year])
  next
    case False
    with 1 show ?thesis by (simp add: gmtime_years.simps [of dayno year])
  qed
qed

fun month_days :: "bool \<Rightarrow> nat \<Rightarrow> nat" where
  "month_days leap 0 = 0"
| "month_days leap (Suc m) = month_days leap m + ytab leap ! m"

lemma gmtime_months_spec:
  assumes "dayno + month_days leap mon < month_days leap 12" "mon \<le> 11"
  shows "\<exists>d m. gmtime_months leap dayno mon = Some (d, m) \<and> m < 12 \<and> mon \<le> m
    \<and> dayno + month_days leap mon = d + month_days leap m \<and> d < ytab leap ! m"
  using assms
proof (induction leap dayno mon rule: gmtime_months.induct)
  case (1 leap dayno mon)
  show ?case
  proof (cases "ytab leap ! mon \<le> dayno")
    case True
    have "mon \<noteq> 11"
    proof
      assume "mon = 11"
      with 1(2) True show False by (simp add: eval_nat_numeral)
    qed
    with True 1(2,3) have "\<exists>d m. gmtime_months leap (dayno - ytab leap ! mon) (mon + 1) = Some (d, m)
      \<and> m < 12 \<and> mon + 1 \<le> m
      \<and> dayno - ytab leap ! mon + month_days leap (mon + 1) = d + month_days leap m
      \<and> d < ytab leap ! m"
      by (intro "1.IH") auto
    with True 1(3) show ?thesis
      by (auto simp: gmtime_months.simps [of leap dayno mon])
  next
    case False
    with 1(3) show ?thesis by (auto simp: gmtime_months.simps [of leap dayno mon])
  qed
qed

lemma month_days_12: "month_days (LEAPYEAR y) 12 = YEARSIZE y"
  by (simp add: eval_nat_numeral ytab_def YEARSIZE_def)

text \<open>The table of \<^verbatim>\<open>mktime\<close> agrees with the month lengths once the leap-day correction is made.\<close>

lemma month_table:
  assumes "m < 12"
  shows "month ! m - (if m > 1 \<and> \<not> leap then DAY else 0) = DAY * int (month_days leap m)"
proof -
  from assms have "m \<in> set [0..<12]" by simp
  then show ?thesis
    by (cases leap; simp add: upt_rec; elim disjE; simp add: month_def ytab_def eval_nat_numeral algebra_simps)
qed

text \<open>
  The seconds \<^verbatim>\<open>mktime\<close> computes, from the year, month, day and clock of a date after 1970:
  its calendar has a leap year every four years.
\<close>

lemma mktime_closed:
  assumes "1970 \<le> y" "m < 12" "tm_year x = y - 1900" "tm_mon x = int m"
  shows "mktime x = Some (nat ((DAY * (365 * (y - 1970) + (y - 1969) div 4
            + int (month_days (y mod 4 = 0) m) + (tm_mday x - 1))
          + HOUR * tm_hour x + MINUTE * tm_min x + tm_sec x) mod int two32))"
proof -
  have y: "y = tm_year x + 1900" using assms(3) by simp
  have corr: "(tm_year x - 68) smod 4 = 0 \<longleftrightarrow> y mod 4 = 0"
    using assms(1) by (simp add: smod_nonneg y) presburger
  have quarter: "(tm_year x - 69) sdiv 4 = (y - 1969) div 4"
    using assms(1) by (simp add: sdiv_nonneg y)
  have mon: "month ! m = DAY * int (month_days (y mod 4 = 0) m) + (if m > 1 \<and> \<not> y mod 4 = 0 then DAY else 0)"
    using month_table [OF assms(2), of "y mod 4 = 0"] by simp
  show ?thesis
    using assms(2)
    by (simp add: mktime_def Let_def corr quarter assms(4) mon YEAR_def)
      (simp add: y algebra_simps)
qed

lemma clock_split:
  "int (t mod nat DAY) = HOUR * int (t mod nat DAY div nat HOUR)
     + MINUTE * int (t mod nat DAY mod nat HOUR div nat MINUTE)
     + int (t mod nat DAY mod nat MINUTE)"
proof -
  have "c = 3600 * (c div 3600) + 60 * (c mod 3600 div 60) + c mod 60" for c :: nat
  proof -
    have "c mod 3600 = 60 * (c mod 3600 div 60) + c mod 3600 mod 60" by simp
    moreover have "c mod 3600 mod 60 = c mod 60" by (simp add: mod_mod_cancel)
    moreover have "c = 3600 * (c div 3600) + c mod 3600" by simp
    ultimately show ?thesis by linarith
  qed
  from this [of "t mod nat DAY"] show ?thesis
    unfolding time_consts by (simp flip: of_nat_mult of_nat_add)
qed

definition mktime_horizon :: nat where
  "mktime_horizon = 4107542400"

lemma linear_bound:
  "n = 365 * (y - 1970) + q + r \<Longrightarrow> q \<le> 32 \<Longrightarrow> y \<le> 2099 \<Longrightarrow> r < 366 \<Longrightarrow> n < (47541 :: int)"
  by simp

lemma linear_bound_lower:
  "n = 365 * (y - 1970) + q - 1 + r \<Longrightarrow> 33 \<le> q \<Longrightarrow> 2101 \<le> y \<Longrightarrow> 0 \<le> r \<Longrightarrow> (47541 :: int) \<le> n"
  by simp

lemma days_2100:
  assumes "1970 \<le> y" "y \<le> 2106" "m < 12" "d < ytab (LEAPYEAR y) ! m"
    and "int dayno = days_before y + int (month_days (LEAPYEAR y) m) + int d"
  shows "365 * (y - 1970) + (y - 1969) div 4 + int (month_days (y mod 4 = 0) m) + int d
    = int dayno + (if 47541 \<le> dayno then 1 else 0)"
proof -
  note leap = LEAPYEAR_range [OF assms(1,2)]
  have bound: "d + month_days (LEAPYEAR y) m < 366"
  proof -
    have "m \<in> set [0..<12]" using assms(3) by simp
    then show ?thesis using assms(4)
      by (cases "LEAPYEAR y"; simp add: upt_rec; elim disjE; simp add: ytab_def eval_nat_numeral)
  qed
  have feb: "month_days True m = month_days False m + (if 1 < m then 1 else 0)"
    and feb2: "d < ytab False ! m \<Longrightarrow> (1 < m \<longleftrightarrow> 59 \<le> month_days False m + d)"
  proof -
    have "m \<in> set [0..<12]" using assms(3) by simp
    then show "month_days True m = month_days False m + (if 1 < m then 1 else 0)"
      and "d < ytab False ! m \<Longrightarrow> (1 < m \<longleftrightarrow> 59 \<le> month_days False m + d)"
      by (simp add: upt_rec; elim disjE; simp add: ytab_def eval_nat_numeral)+
  qed
  consider "y < 2100" | "y = 2100" | "2100 < y" by linarith
  then show ?thesis
  proof cases
    case 1
    then have eq: "LEAPYEAR y = (y mod 4 = 0)" by (simp add: leap)
    have "int dayno = 365 * (y - 1970) + (y - 1969) div 4 + int (d + month_days (LEAPYEAR y) m)"
      using 1 assms(5) by (simp add: days_before_def)
    moreover have "(y - 1969) div 4 \<le> 32" "y \<le> 2099" using 1 by presburger+
    moreover have "int (d + month_days (LEAPYEAR y) m) < 366" using bound by linarith
    ultimately have "int dayno < 47541"
      using linear_bound [of "int dayno" "y" "(y - 1969) div 4" "int (d + month_days (LEAPYEAR y) m)"] by simp
    then have "dayno < 47541" by simp
    with 1 assms(5) show ?thesis by (simp add: days_before_def eq)
  next
    case 2
    then have "\<not> LEAPYEAR y" unfolding leap by simp
    with 2 assms(4,5) feb feb2 show ?thesis
      by (auto simp: days_before_def)
  next
    case 3
    then have eq: "LEAPYEAR y = (y mod 4 = 0)" by (simp add: leap)
    have "int dayno = 365 * (y - 1970) + (y - 1969) div 4 - 1 + int (d + month_days (LEAPYEAR y) m)"
      using 3 assms(5) by (simp add: days_before_def)
    moreover have "33 \<le> (y - 1969) div 4" "2101 \<le> y" using 3 by presburger+
    ultimately have "47541 \<le> int dayno"
      using linear_bound_lower [of "int dayno" "y" "(y - 1969) div 4" "int (d + month_days (LEAPYEAR y) m)"] by simp
    then have "47541 \<le> dayno" by simp
    with 3 assms(5) show ?thesis by (simp add: days_before_def eq)
  qed
qed

text \<open>\<^verbatim>\<open>gmtime\<close> always returns a date, within the ranges of \<^verbatim>\<open>struct tm\<close>.\<close>

lemma gmtime_fields:
  assumes "t < two32"
  obtains x y m d where "gmtime t = Some x" "1970 \<le> y" "y \<le> 2106" "m < 12"
    "d < ytab (LEAPYEAR y) ! m"
    "int (t div nat DAY) = days_before y + int (month_days (LEAPYEAR y) m) + int d"
    "tm_year x = y - 1900" "tm_mon x = int m" "tm_mday x = int d + 1"
    "tm_hour x = int (t mod nat DAY div nat HOUR)"
    "tm_min x = int (t mod nat DAY mod nat HOUR div nat MINUTE)"
    "tm_sec x = int (t mod nat DAY mod nat MINUTE)"
    "tm_yday x = int (month_days (LEAPYEAR y) m) + int d"
    "tm_wday x = int ((t div nat DAY + 4) mod 7)"
proof -
  obtain yd y where loop: "gmtime_years (t div nat DAY) EPOCH_YR = (yd, y)" by fastforce
  have dayno: "t div nat DAY \<le> 49710"
    using assms by (simp add: two32_def time_consts)
  have yr: "1970 \<le> y \<and> y \<le> 2106 \<and> int (t div nat DAY) + days_before 1970 = int yd + days_before y
      \<and> yd < YEARSIZE y"
    using gmtime_years_spec [OF loop] dayno by (simp add: EPOCH_YR_def days_before_def)
  from yr have "yd + month_days (LEAPYEAR y) 0 < month_days (LEAPYEAR y) 12"
    unfolding month_days_12 by simp
  from gmtime_months_spec [OF this] obtain d m where
    months: "gmtime_months (LEAPYEAR y) yd 0 = Some (d, m)" "m < 12" "yd = d + month_days (LEAPYEAR y) m"
      "d < ytab (LEAPYEAR y) ! m"
    by auto
  have "int (t div nat DAY) = days_before y + int (month_days (LEAPYEAR y) m) + int d"
    using yr months(3) by (simp add: days_before_def)
  with yr months show thesis
    by - (rule that [of _ y m d], simp add: gmtime_def Let_def loop YEAR0_def, simp_all add: YEAR0_def)
qed

text \<open>
  C24. Reading a clock value with \<^verbatim>\<open>gmtime\<close> and turning the date back with \<^verbatim>\<open>mktime\<close> is exact for
  every time before 1 March 2100 (\<open>mktime_horizon\<close>); from then on the result is one day late,
  because \<^verbatim>\<open>mktime\<close> takes 2100 for a leap year.
\<close>

theorem mktime_gmtime:
  assumes "t < two32"
  shows "Option.bind (gmtime t) mktime =
    Some (if t < mktime_horizon then t else (t + nat DAY) mod two32)"
proof -
  from assms obtain x y m d where g: "gmtime t = Some x" "1970 \<le> y" "y \<le> 2106" "m < 12"
    "d < ytab (LEAPYEAR y) ! m"
    "int (t div nat DAY) = days_before y + int (month_days (LEAPYEAR y) m) + int d"
    "tm_year x = y - 1900" "tm_mon x = int m" "tm_mday x = int d + 1"
    "tm_hour x = int (t mod nat DAY div nat HOUR)"
    "tm_min x = int (t mod nat DAY mod nat HOUR div nat MINUTE)"
    "tm_sec x = int (t mod nat DAY mod nat MINUTE)"
    by (rule gmtime_fields) blast
  define late where "late = (if mktime_horizon \<le> t then nat DAY else 0)"
  have whole: "int t = DAY * int (t div nat DAY) + int (t mod nat DAY)"
  proof -
    have "t = 86400 * (t div 86400) + t mod 86400" by simp
    then show ?thesis by (simp add: time_consts zdiv_int zmod_int)
  qed
  have cut: "47541 \<le> t div nat DAY \<longleftrightarrow> mktime_horizon \<le> t"
    by (simp add: time_consts mktime_horizon_def less_eq_div_iff_mult_less_eq)
  define days where "days = 365 * (y - 1970) + (y - 1969) div 4 + int (month_days (y mod 4 = 0) m) + int d"
  have "days = int (t div nat DAY) + (if mktime_horizon \<le> t then 1 else 0)"
    using days_2100 [OF g(2-6)] cut by (simp add: days_def)
  then have "DAY * days = int t - int (t mod nat DAY) + int late"
    using whole by (simp add: late_def distrib_left) (simp add: time_consts)
  then have total: "DAY * days + HOUR * tm_hour x + MINUTE * tm_min x + tm_sec x = int t + int late"
    using clock_split [of t] unfolding g(10-12) by linarith
  have "tm_mday x - 1 = int d" using g(9) by simp
  then have "mktime x = Some (nat ((int t + int late) mod int two32))"
    unfolding mktime_closed [OF g(2,4,7,8)] total [symmetric] days_def by simp
  also have "nat ((int t + int late) mod int two32) = (t + late) mod two32"
    by (simp add: nat_mod_distrib flip: of_nat_add of_nat_mod)
  finally show ?thesis
    using assms by (simp add: g(1) late_def)
qed

theorem mktime_gmtime_witness:
  "(951782400 :: nat) < two32 \<and> Option.bind (gmtime 951782400) mktime = Some 951782400"
  using mktime_gmtime [of 951782400] by (simp add: two32_def mktime_horizon_def)


subsection \<open>The real-time clock\<close>

text \<open>
  How a clock stores a date: each field in binary or as two decimal digits, the hour counted to
  24, or to 12 with bit 7 for the afternoon (midnight and noon are 12).
\<close>

definition rtc_digits :: "int \<Rightarrow> int \<Rightarrow> int" where
  "rtc_digits stat_b n = (if and stat_b CMOS_RTC_BIN = 0 then 16 * (n div 10) + n mod 10 else n)"

definition rtc_store_hour :: "int \<Rightarrow> int \<Rightarrow> int" where
  "rtc_store_hour stat_b h =
    (if and stat_b CMOS_RTC_24HR \<noteq> 0 then rtc_digits stat_b h
     else rtc_digits stat_b (if h mod 12 = 0 then 12 else h mod 12) + (if h \<ge> 12 then 0x80 else 0))"

definition rtc_store :: "int \<Rightarrow> tm \<Rightarrow> rtc" where
  "rtc_store stat_b d =
    \<lparr>rtc_sec = rtc_digits stat_b (tm_sec d), rtc_min = rtc_digits stat_b (tm_min d),
     rtc_hour = rtc_store_hour stat_b (tm_hour d), rtc_dom = rtc_digits stat_b (tm_mday d),
     rtc_month = rtc_digits stat_b (tm_mon d + 1),
     rtc_year = rtc_digits stat_b ((tm_year d + 1900) mod 100),
     rtc_cent = rtc_digits stat_b ((tm_year d + 1900) div 100)\<rparr>"

definition rtc_decode :: "int \<Rightarrow> int \<Rightarrow> int" where
  "rtc_decode stat_b = (if and stat_b CMOS_RTC_BIN = 0 then BCD2HEX else id)"

lemma BCD2HEX_all: "\<forall>n\<in>set [0..99]. BCD2HEX (16 * (n div 10) + n mod 10) = n"
  by code_simp

lemma rtc_decode_digits: "0 \<le> n \<Longrightarrow> n < 100 \<Longrightarrow> rtc_decode stat_b (rtc_digits stat_b n) = n"
  using BCD2HEX_all by (simp add: rtc_decode_def rtc_digits_def)

text \<open>The hour depends on two bits of \<open>stat_b\<close> only: the four modes are checked hour by hour.\<close>

lemma rtc_hour_modes:
  "\<forall>h\<in>set [0..23]. \<forall>b\<in>set [0, 2, 4, 6]. rtc_decode b (rtc_hour24 b (rtc_store_hour b h)) = h"
  by code_simp

lemma rtc_mode:
  obtains b where "b \<in> set [0, 2, 4, 6]" "rtc_decode stat_b = rtc_decode b"
    "rtc_hour24 stat_b = rtc_hour24 b" "rtc_store_hour stat_b = rtc_store_hour b"
proof -
  define b :: int where "b = (if and stat_b CMOS_RTC_24HR = 0 then 0 else 2) + (if and stat_b CMOS_RTC_BIN = 0 then 0 else 4)"
  have "and b CMOS_RTC_24HR = 0 \<longleftrightarrow> and stat_b CMOS_RTC_24HR = 0" "and b CMOS_RTC_BIN = 0 \<longleftrightarrow> and stat_b CMOS_RTC_BIN = 0"
    by (auto simp: b_def CMOS_RTC_24HR_def CMOS_RTC_BIN_def)
  moreover have "b \<in> set [0, 2, 4, 6]" by (auto simp: b_def)
  ultimately show thesis
    by (intro that [of b]) (auto simp: fun_eq_iff rtc_decode_def rtc_hour24_def rtc_store_hour_def rtc_digits_def Let_def)
qed

lemma rtc_hour_decode: "0 \<le> h \<Longrightarrow> h < 24 \<Longrightarrow> rtc_decode b (rtc_hour24 b (rtc_store_hour b h)) = h"
proof -
  assume "0 \<le> h" "h < 24"
  then have "h \<in> set [0..23]" by simp
  with rtc_hour_modes have modes: "\<forall>b\<in>set [0, 2, 4, 6]. rtc_decode b (rtc_hour24 b (rtc_store_hour b h)) = h"
    by blast
  obtain b' where "b' \<in> set [0, 2, 4, 6]" "rtc_decode b = rtc_decode b'"
    "rtc_hour24 b = rtc_hour24 b'" "rtc_store_hour b = rtc_store_hour b'"
    by (rule rtc_mode)
  with modes show ?thesis by metis
qed

lemma mktime_cong:
  assumes "tm_sec x = tm_sec y" "tm_min x = tm_min y" "tm_hour x = tm_hour y" "tm_mday x = tm_mday y"
    "tm_mon x = tm_mon y" "tm_year x = tm_year y"
  shows "mktime x = mktime y"
  using assms by (simp add: mktime_def)

text \<open>
  \<^verbatim>\<open>init_time\<close> sets the clock to the date the hardware holds, in each of the four modes of the
  chip (binary or decimal digits, 12-hour or 24-hour), whatever other bits its status register
  has, as soon as one reading is consistent.
\<close>

theorem init_time_rtc:
  assumes "0 \<le> tm_sec d" "tm_sec d < 60" "0 \<le> tm_min d" "tm_min d < 60" "0 \<le> tm_hour d" "tm_hour d < 24"
    and "0 < tm_mday d" "tm_mday d < 32" "0 \<le> tm_mon d" "tm_mon d < 12" "0 \<le> tm_year d" "tm_year d < 8100"
    and "\<forall>(r, sec)\<in>set torn. rtc_sec r \<noteq> sec"
  shows "init_time stat_b (torn @ (rtc_store stat_b d, rtc_digits stat_b (tm_sec d)) # later) = mktime d"
proof -
  have "read_rtc (torn @ (rtc_store stat_b d, rtc_digits stat_b (tm_sec d)) # later) = Some (rtc_store stat_b d)"
    using assms(13) by (induction torn) (auto simp: rtc_store_def)
  moreover have "(tm_year d + 1900) mod 100 + ((tm_year d + 1900) div 100 * 100 - 1900) = tm_year d"
    using mult_div_mod_eq [of 100 "tm_year d + 1900"] by linarith
  moreover have "(tm_year d + 1900) div 100 < 100" "0 \<le> (tm_year d + 1900) div 100"
    using assms(11,12) by linarith+
  moreover have "rtc_decode stat_b = (if and stat_b CMOS_RTC_BIN = 0 then BCD2HEX else id)"
    by (simp add: rtc_decode_def)
  ultimately show ?thesis
    unfolding init_time_def Let_def
    by (simp flip: rtc_decode_def)
      (rule mktime_cong; use assms in \<open>simp add: rtc_store_def rtc_decode_digits rtc_hour_decode\<close>)
qed

theorem init_time_rtc_witness:
  "init_time 0 [(\<lparr>rtc_sec = 0x59, rtc_min = 0x30, rtc_hour = 0x92, rtc_dom = 0x29, rtc_month = 0x02,
       rtc_year = 0x00, rtc_cent = 0x20\<rparr>, 0x59)]
   = mktime \<lparr>tm_sec = 59, tm_min = 30, tm_hour = 12, tm_mday = 29, tm_mon = 1, tm_year = 100,
       tm_wday = 0, tm_yday = 0, tm_isdst = 0\<rparr>"
  using init_time_rtc [of "\<lparr>tm_sec = 59, tm_min = 30, tm_hour = 12, tm_mday = 29, tm_mon = 1, tm_year = 100,
       tm_wday = 0, tm_yday = 0, tm_isdst = 0\<rparr>" "[]" 0 "[]"]
  by (simp add: rtc_store_def rtc_store_hour_def rtc_digits_def)

end
