(* ===== verification/Bitmap.thy ===== *)
theory Bitmap
  imports Prelude
begin

section \<open>Frame bitmaps\<close>

text \<open>
  paging.c and kmalloc.c each keep an array \<^verbatim>\<open>frames\<close> of 32-bit words with one bit per page
  frame, addressed with the same two macros. The array is a function from the index of a word
  to the word; the code that uses it checks the index against the length of its array. The
  interface \<open>bitset\<close> says what the three accesses of such an array promise, and is met by the
  shift-and-mask code of the two files.
\<close>

unbundle bit_operations_syntax

definition INDEX_FROM_BIT :: "nat \<Rightarrow> nat" where
  "INDEX_FROM_BIT a = drop_bit 5 a"

definition OFFSET_FROM_BIT :: "nat \<Rightarrow> nat" where
  "OFFSET_FROM_BIT a = a AND 31"

type_synonym bitmap = "nat \<Rightarrow> 32 word"

text \<open>\<^verbatim>\<open>frames[i] |= (0x01 << off)\<close>, \<^verbatim>\<open>frames[i] &= ~(0x01 << off)\<close>, \<^verbatim>\<open>frames[i] & (0x01 << off)\<close>.\<close>

definition bm_set :: "nat \<Rightarrow> bitmap \<Rightarrow> bitmap" where
  "bm_set k w = (let i = INDEX_FROM_BIT k; off = OFFSET_FROM_BIT k in w(i := w i OR push_bit off 1))"

definition bm_clear :: "nat \<Rightarrow> bitmap \<Rightarrow> bitmap" where
  "bm_clear k w = (let i = INDEX_FROM_BIT k; off = OFFSET_FROM_BIT k in w(i := w i AND NOT (push_bit off 1)))"

definition bm_test :: "nat \<Rightarrow> bitmap \<Rightarrow> bool" where
  "bm_test k w = (let i = INDEX_FROM_BIT k; off = OFFSET_FROM_BIT k in w i AND push_bit off 1 \<noteq> 0)"

lemma INDEX_FROM_BIT_div: "INDEX_FROM_BIT a = a div 32"
  by (simp add: INDEX_FROM_BIT_def drop_bit_eq_div)

lemma OFFSET_FROM_BIT_mod: "OFFSET_FROM_BIT a = a mod 32"
proof -
  have "a AND 31 = a AND mask 5" by (simp add: mask_eq_exp_minus_1)
  also have "\<dots> = a mod 32" unfolding take_bit_eq_mask [symmetric] by (simp add: take_bit_eq_mod)
  finally show ?thesis by (simp add: OFFSET_FROM_BIT_def)
qed

lemma OFFSET_lt: "OFFSET_FROM_BIT a < 32"
  by (simp add: OFFSET_FROM_BIT_mod)

lemma index_offset_inj:
  "INDEX_FROM_BIT j = INDEX_FROM_BIT k \<Longrightarrow> OFFSET_FROM_BIT j = OFFSET_FROM_BIT k \<Longrightarrow> j = k"
  unfolding INDEX_FROM_BIT_div OFFSET_FROM_BIT_mod by (metis mod_div_mult_eq)

lemma word_and_exp:
  fixes w :: "32 word"
  assumes "n < 32"
  shows "w AND 2 ^ n \<noteq> 0 \<longleftrightarrow> bit w n"
proof
  assume "w AND 2 ^ n \<noteq> 0"
  then obtain m where "bit (w AND 2 ^ n) m"
    using bit_eq_iff [of "w AND 2 ^ n" 0] by auto
  then show "bit w n"
    by (auto simp: bit_simps)
next
  assume "bit w n"
  then have "bit (w AND 2 ^ n) n"
    using assms by (simp add: bit_simps)
  then show "w AND 2 ^ n \<noteq> 0" by force
qed

lemma bm_test_bit: "bm_test k w \<longleftrightarrow> bit (w (INDEX_FROM_BIT k)) (OFFSET_FROM_BIT k)"
  using OFFSET_lt by (simp add: bm_test_def Let_def word_and_exp)

lemma bit_or_exp: "n < 32 \<Longrightarrow> bit ((w :: 32 word) OR 2 ^ n) m \<longleftrightarrow> m = n \<or> bit w m"
  by (auto simp: bit_simps)

lemma bit_and_not_exp: "n < 32 \<Longrightarrow> bit ((w :: 32 word) AND NOT (2 ^ n)) m \<longleftrightarrow> m \<noteq> n \<and> bit w m"
  by (auto simp: bit_simps dest: bit_imp_le_length)

lemma bm_test_set [simp]: "bm_test j (bm_set k w) \<longleftrightarrow> j = k \<or> bm_test j w"
  using index_offset_inj [of j k] OFFSET_lt [of k]
  by (auto simp: bm_test_bit bm_set_def Let_def bit_or_exp)

lemma bm_test_clear [simp]: "bm_test j (bm_clear k w) \<longleftrightarrow> j \<noteq> k \<and> bm_test j w"
  using index_offset_inj [of j k] OFFSET_lt [of k]
  by (auto simp: bm_test_bit bm_clear_def Let_def bit_and_not_exp)

lemma bm_test_zero [simp]: "\<not> bm_test k (\<lambda>_. 0)"
  by (simp add: bm_test_bit)

text \<open>A bit set of which the clients only know how membership changes.\<close>

locale bitset =
  fixes bs_test :: "nat \<Rightarrow> 'b \<Rightarrow> bool"
    and bs_set :: "nat \<Rightarrow> 'b \<Rightarrow> 'b"
    and bs_clear :: "nat \<Rightarrow> 'b \<Rightarrow> 'b"
  assumes test_set: "bs_test j (bs_set k w) \<longleftrightarrow> j = k \<or> bs_test j w"
    and test_clear: "bs_test j (bs_clear k w) \<longleftrightarrow> j \<noteq> k \<and> bs_test j w"
begin

lemma test_set_range: "bs_test j (fold bs_set ks w) \<longleftrightarrow> j \<in> set ks \<or> bs_test j w"
  by (induction ks arbitrary: w) (auto simp: test_set)

lemma test_clear_range: "bs_test j (fold bs_clear ks w) \<longleftrightarrow> j \<notin> set ks \<and> bs_test j w"
  by (induction ks arbitrary: w) (auto simp: test_clear)

lemma set_then_clear: "bs_test j (bs_clear k (bs_set k w)) \<longleftrightarrow> j \<noteq> k \<and> bs_test j w"
  by (auto simp: test_clear test_set)

end

interpretation bm: bitset bm_test bm_set bm_clear
  by unfold_locales simp_all

end
