(* ===== verification/Paging.thy ===== *)
theory Paging
  imports Bitmap
begin

section \<open>Physical frames and page directories (kernel/paging.c)\<close>

text \<open>
  The state of paging.c, one definition per function, and what the functions guarantee.

  \<^item> Page tables and page directories live in typed stores indexed by their address. A
    \<^verbatim>\<open>page_t *\<close> is a pair of a table and an index. A C bit field of one bit is a \<open>bool\<close>.
  \<^item> \<^verbatim>\<open>paging_memalign\<close> calls \<^verbatim>\<open>kmemalign\<close> once the heap is up. kmalloc.c in turn calls
    \<^verbatim>\<open>get_page\<close>, so the allocator is an argument \<open>ma\<close> of the functions that need it, and the
    state is a record scheme that the allocator extends with its own fields.
  \<^item> Spinlocks: the model follows one thread of control, for which taking a lock that is
    already held never returns (\<open>None\<close>).
  \<^item> \<open>phys\<close> is the contents of physical memory, byte by byte, as \<^verbatim>\<open>copy_page_physical\<close> of
    process.s changes it; \<open>cr3\<close> the register that \<^verbatim>\<open>switch_page_dir\<close> loads.
  \<^item> The buffer of \<^verbatim>\<open>frames\<close> is taken to have the \<^verbatim>\<open>nframes >> 5\<close> words that the code addresses;
    an index outside it is \<open>None\<close>.
\<close>

record page =
  pg_present :: bool
  pg_rw :: bool
  pg_user :: bool
  pg_unused :: nat
  pg_accessed :: bool
  pg_dirty :: bool
  pg_zero :: bool
  pg_global :: bool
  pg_avail :: nat
  pg_frame :: nat

definition zero_page :: page where
  "zero_page = \<lparr>pg_present = False, pg_rw = False, pg_user = False, pg_unused = 0,
     pg_accessed = False, pg_dirty = False, pg_zero = False, pg_global = False,
     pg_avail = 0, pg_frame = 0\<rparr>"

type_synonym page_table = "nat \<Rightarrow> page"

record page_directory_entry =
  pde_present :: bool
  pde_rw :: bool
  pde_user :: bool
  pde_table :: nat

definition zero_pde :: page_directory_entry where
  "zero_pde = \<lparr>pde_present = False, pde_rw = False, pde_user = False, pde_table = 0\<rparr>"

record page_directory =
  tables_phys :: "nat \<Rightarrow> page_directory_entry"
  dir_tables :: "nat \<Rightarrow> addr"
  physical_address :: nat

definition zero_dir :: page_directory where
  "zero_dir = \<lparr>tables_phys = \<lambda>_. zero_pde, dir_tables = \<lambda>_. NULL, physical_address = 0\<rparr>"

record paging =
  frames :: bitmap
  nframes :: nat
  frame_lock :: bool
  kernel_dir :: addr
  current_dir :: addr
  page_tables :: "addr \<rightharpoonup> page_table"
  page_dirs :: "addr \<rightharpoonup> page_directory"
  kheap :: bool
  placement_address :: nat
  phys :: "nat \<Rightarrow> 8 word"
  cr3 :: nat

type_synonym page_ptr = "(addr \<times> nat) option"
type_synonym 's memalign = "nat \<Rightarrow> nat \<Rightarrow> 's \<Rightarrow> (addr \<times> 's) option"

definition PAGE_SIZE :: nat where "PAGE_SIZE = 4096"
definition KERNEL_BASE :: nat where "KERNEL_BASE = 0xC0000000"
definition FREE_MAP_BASE :: nat where "FREE_MAP_BASE = 0xF0000000"
definition FREE_MAP_MAX :: nat where "FREE_MAP_MAX = 0x00010000"
definition KHEAP_START :: nat where "KHEAP_START = 0xD0000000"
definition KHEAP_MAX :: nat where "KHEAP_MAX = 0xDFFFFFFF"

lemmas paging_consts = PAGE_SIZE_def KERNEL_BASE_def FREE_MAP_BASE_def FREE_MAP_MAX_def
  KHEAP_START_def KHEAP_MAX_def

subsection \<open>The frame bitmap\<close>

text \<open>\<^verbatim>\<open>spin_lock\<close> and \<^verbatim>\<open>spin_unlock\<close> of common.c on \<^verbatim>\<open>frame_lock\<close>.\<close>

definition lock_frames :: "'z paging_scheme \<Rightarrow> 'z paging_scheme option" where
  "lock_frames s = (if frame_lock s then None else Some (s\<lparr>frame_lock := True\<rparr>))"

definition unlock_frames :: "'z paging_scheme \<Rightarrow> 'z paging_scheme" where
  "unlock_frames s = s\<lparr>frame_lock := False\<rparr>"

definition set_frame :: "nat \<Rightarrow> 'z paging_scheme \<Rightarrow> 'z paging_scheme option" where
  "set_frame a s =
    (let frame = a div PAGE_SIZE in
     if INDEX_FROM_BIT frame < INDEX_FROM_BIT (nframes s)
     then Some (s\<lparr>frames := bm_set frame (frames s)\<rparr>) else None)"

definition clear_frame :: "nat \<Rightarrow> 'z paging_scheme \<Rightarrow> 'z paging_scheme option" where
  "clear_frame a s =
    (let frame = a div PAGE_SIZE in
     if INDEX_FROM_BIT frame < INDEX_FROM_BIT (nframes s)
     then Some (s\<lparr>frames := bm_clear frame (frames s)\<rparr>) else None)"

text \<open>The two loops of \<^verbatim>\<open>first_frame\<close>: over the bits of a word that is not full, over the words.\<close>

function first_frame_bit :: "32 word \<Rightarrow> nat \<Rightarrow> nat option" where
  "first_frame_bit w j =
    (if j < 32 then (if w AND push_bit j 1 = 0 then Some j else first_frame_bit w (j + 1)) else None)"
  by pat_completeness auto
termination by (relation "measure (\<lambda>(w, j). 32 - j)") auto

function first_frame_word :: "bitmap \<Rightarrow> nat \<Rightarrow> nat \<Rightarrow> nat" where
  "first_frame_word fr n i =
    (if i < n then
       (if fr i \<noteq> 0xFFFFFFFF then
          (case first_frame_bit (fr i) 0 of
             Some j \<Rightarrow> i * 32 + j
           | None \<Rightarrow> first_frame_word fr n (i + 1))
        else first_frame_word fr n (i + 1))
     else 0xFFFFFFFF)"
  by pat_completeness auto
termination by (relation "measure (\<lambda>(fr, n, i). n - i)") auto

declare first_frame_bit.simps [simp del] first_frame_word.simps [simp del]

definition first_frame :: "'z paging_scheme \<Rightarrow> nat" where
  "first_frame s = first_frame_word (frames s) (INDEX_FROM_BIT (nframes s)) 0"

subsection \<open>Page entries\<close>

definition read_page :: "addr \<times> nat \<Rightarrow> 'z paging_scheme \<Rightarrow> page option" where
  "read_page pp s = map_option (\<lambda>t. t (snd pp)) (page_tables s (fst pp))"

definition put_page :: "addr \<times> nat \<Rightarrow> (page \<Rightarrow> page) \<Rightarrow> 'z paging_scheme \<Rightarrow> 'z paging_scheme option" where
  "put_page pp f s =
    (case page_tables s (fst pp) of
       None \<Rightarrow> None
     | Some t \<Rightarrow> Some (s\<lparr>page_tables := (page_tables s)(fst pp \<mapsto> t(snd pp := f (t (snd pp))))\<rparr>))"

definition alloc_frame :: "addr \<times> nat \<Rightarrow> bool \<Rightarrow> bool \<Rightarrow> 'z paging_scheme \<Rightarrow> 'z paging_scheme option" where
  "alloc_frame pp kern rw s = do {
     pg \<leftarrow> read_page pp s;
     if pg_frame pg \<noteq> 0 then Some s
     else do {
       s \<leftarrow> lock_frames s;
       let i = first_frame s;
       ASSERT (i \<noteq> 0xFFFFFFFF);
       s \<leftarrow> set_frame (mul32 i PAGE_SIZE) s;
       s \<leftarrow> put_page pp (\<lambda>p. p\<lparr>pg_present := True, pg_rw := rw, pg_user := \<not> kern,
                             pg_global := False, pg_frame := i mod 2 ^ 20\<rparr>) s;
       Some (unlock_frames s)
     }
   }"

definition dm_frame :: "addr \<times> nat \<Rightarrow> bool \<Rightarrow> bool \<Rightarrow> nat \<Rightarrow> 'z paging_scheme \<Rightarrow> 'z paging_scheme option" where
  "dm_frame pp kern rw a s = do {
     s \<leftarrow> lock_frames s;
     s \<leftarrow> (if a div PAGE_SIZE < nframes s then set_frame a s else Some s);
     s \<leftarrow> put_page pp (\<lambda>p. p\<lparr>pg_present := True, pg_rw := rw, pg_user := \<not> kern,
                           pg_global := False, pg_frame := a div PAGE_SIZE\<rparr>) s;
     Some (unlock_frames s)
   }"

definition du_frame :: "page_ptr \<Rightarrow> bool \<Rightarrow> 'z paging_scheme \<Rightarrow> 'z paging_scheme option" where
  "du_frame pp fr s =
    (case pp of
       None \<Rightarrow> Some s
     | Some pp \<Rightarrow> do {
         s \<leftarrow> lock_frames s;
         pg \<leftarrow> read_page pp s;
         s \<leftarrow> (if pg_frame pg < nframes s \<and> fr then clear_frame (pg_frame pg * 4096) s else Some s);
         s \<leftarrow> put_page pp (\<lambda>p. p\<lparr>pg_present := False\<rparr>) s;
         Some (unlock_frames s)
       })"

text \<open>\<^verbatim>\<open>free_frame\<close> dereferences its argument without a check: the null pointer is \<open>None\<close>.\<close>

definition free_frame :: "page_ptr \<Rightarrow> 'z paging_scheme \<Rightarrow> 'z paging_scheme option" where
  "free_frame pp s = do {
     pp \<leftarrow> pp;
     pg \<leftarrow> read_page pp s;
     let frame = pg_frame pg;
     if frame = 0 then Some s
     else do {
       s \<leftarrow> clear_frame (mul32 frame PAGE_SIZE) s;
       put_page pp (\<lambda>p. p\<lparr>pg_present := False, pg_frame := 0\<rparr>) s
     }
   }"

subsection \<open>Page directories\<close>

definition paging_memalign :: "'z paging_scheme memalign \<Rightarrow> 'z paging_scheme memalign" where
  "paging_memalign ma alignment sz s =
    (if kheap s then ma alignment sz s
     else
       let diff = placement_address s AND (alignment - 1);
           placement = (if diff \<noteq> 0 then add32 (placement_address s) (alignment - diff) else placement_address s)
       in Some (placement, s\<lparr>placement_address := add32 placement sz\<rparr>))"

text \<open>
  \<^verbatim>\<open>resolve_physical\<close> looks its page up with \<^verbatim>\<open>get_page(addr, 0, current_dir)\<close>: with \<^verbatim>\<open>make\<close> equal to
  zero \<^verbatim>\<open>get_page\<close> never allocates, so the lookup is a function of its own.
\<close>

definition lookup_page :: "nat \<Rightarrow> addr \<Rightarrow> 'z paging_scheme \<Rightarrow> page_ptr option" where
  "lookup_page address dir s = do {
     d \<leftarrow> page_dirs s dir;
     let pageno = address div PAGE_SIZE;
     let t = dir_tables d (pageno div 1024);
     if t \<noteq> NULL then Some (Some (t, pageno mod 1024)) else Some None
   }"

definition resolve_physical :: "nat \<Rightarrow> 'z paging_scheme \<Rightarrow> nat option" where
  "resolve_physical a s =
    (if kheap s then do {
       pp \<leftarrow> lookup_page a (current_dir s) s;
       pp \<leftarrow> pp;
       pg \<leftarrow> read_page pp s;
       Some (pg_frame pg * PAGE_SIZE + a mod PAGE_SIZE)
     } else Some (sub32 a KERNEL_BASE))"

definition put_dir :: "addr \<Rightarrow> (page_directory \<Rightarrow> page_directory) \<Rightarrow> 'z paging_scheme \<Rightarrow> 'z paging_scheme option" where
  "put_dir dir f s =
    (case page_dirs s dir of
       None \<Rightarrow> None
     | Some d \<Rightarrow> Some (s\<lparr>page_dirs := (page_dirs s)(dir \<mapsto> f d)\<rparr>))"

definition sizeof_page_table :: nat where "sizeof_page_table = 4096"
definition sizeof_page_directory :: nat where "sizeof_page_directory = 8196"

definition get_page ::
  "'z paging_scheme memalign \<Rightarrow> nat \<Rightarrow> bool \<Rightarrow> addr \<Rightarrow> 'z paging_scheme \<Rightarrow> (page_ptr \<times> 'z paging_scheme) option" where
  "get_page ma address mk dir s = do {
     pp \<leftarrow> lookup_page address dir s;
     let pageno = address div PAGE_SIZE;
     let i = pageno div 1024;
     if pp \<noteq> None then Some (pp, s)
     else if mk then do {
       (t, s) \<leftarrow> paging_memalign ma PAGE_SIZE sizeof_page_table s;
       s \<leftarrow> put_dir dir (\<lambda>d. d\<lparr>dir_tables := (dir_tables d)(i := t)\<rparr>) s;
       let s = s\<lparr>page_tables := (page_tables s)(t \<mapsto> (\<lambda>_. zero_page))\<rparr>;
       ph \<leftarrow> resolve_physical t s;
       s \<leftarrow> put_dir dir (\<lambda>d. d\<lparr>tables_phys := (tables_phys d)(i :=
              (tables_phys d i)\<lparr>pde_present := True, pde_rw := True, pde_user := True,
                                pde_table := ph div 4096\<rparr>)\<rparr>) s;
       Some (Some (t, pageno mod 1024), s)
     }
     else Some (None, s)
   }"

text \<open>The loop of \<^verbatim>\<open>kernel_map\<close> over the sixteen pages of the free window.\<close>

function kernel_map_loop ::
  "'z paging_scheme memalign \<Rightarrow> nat \<Rightarrow> nat \<Rightarrow> 'z paging_scheme \<Rightarrow> (nat \<times> 'z paging_scheme) option" where
  "kernel_map_loop ma a virtaddr s =
    (if virtaddr < FREE_MAP_BASE + FREE_MAP_MAX then do {
       (pp, s) \<leftarrow> get_page ma virtaddr True (current_dir s) s;
       pp \<leftarrow> pp;
       pg \<leftarrow> read_page pp s;
       if pg_present pg then kernel_map_loop ma a (virtaddr + PAGE_SIZE) s
       else do {
         s \<leftarrow> dm_frame pp True True a s;
         Some (virtaddr, s)
       }
     } else Some (NULL, s))"
  by pat_completeness auto
termination
  by (relation "measure (\<lambda>(ma, a, v, s). FREE_MAP_BASE + FREE_MAP_MAX - v)") (auto simp: PAGE_SIZE_def)

declare kernel_map_loop.simps [simp del]

definition kernel_map ::
  "'z paging_scheme memalign \<Rightarrow> nat \<Rightarrow> 'z paging_scheme \<Rightarrow> (nat \<times> 'z paging_scheme) option" where
  "kernel_map ma a s = kernel_map_loop ma a FREE_MAP_BASE s"

definition kernel_unmap ::
  "'z paging_scheme memalign \<Rightarrow> nat \<Rightarrow> 'z paging_scheme \<Rightarrow> 'z paging_scheme option" where
  "kernel_unmap ma a s = do {
     ASSERT (FREE_MAP_BASE \<le> a \<and> a < FREE_MAP_BASE + FREE_MAP_MAX);
     (pp, s) \<leftarrow> get_page ma a False (current_dir s) s;
     du_frame pp False s
   }"

definition switch_page_dir :: "addr \<Rightarrow> 'z paging_scheme \<Rightarrow> 'z paging_scheme option" where
  "switch_page_dir dir s = do {
     let s = s\<lparr>current_dir := dir\<rparr>;
     d \<leftarrow> page_dirs s dir;
     Some (s\<lparr>cr3 := physical_address d\<rparr>)
   }"

subsection \<open>Cloning and freeing an address space\<close>

text \<open>\<^verbatim>\<open>copy_page_physical\<close> (process.s): 1024 double words from one physical address to another.\<close>

definition copy_page_physical :: "nat \<Rightarrow> nat \<Rightarrow> 'z paging_scheme \<Rightarrow> 'z paging_scheme" where
  "copy_page_physical src dest s =
    s\<lparr>phys := (\<lambda>a. if dest \<le> a \<and> a < dest + 4096 then phys s (src + (a - dest)) else phys s a)\<rparr>"

text \<open>One round of the loop of \<^verbatim>\<open>clone_table\<close>, for entry \<open>i\<close>.\<close>

definition clone_table_entry :: "addr \<Rightarrow> addr \<Rightarrow> nat \<Rightarrow> 'z paging_scheme \<Rightarrow> 'z paging_scheme option" where
  "clone_table_entry src table i s = do {
     sp \<leftarrow> read_page (src, i) s;
     if pg_frame sp \<noteq> 0 then do {
       s \<leftarrow> put_page (table, i) (\<lambda>p. p\<lparr>pg_frame := 0\<rparr>) s;
       s \<leftarrow> alloc_frame (table, i) False False s;
       sp \<leftarrow> read_page (src, i) s;
       s \<leftarrow> put_page (table, i) (\<lambda>p. p\<lparr>pg_present := pg_present sp, pg_rw := pg_rw sp,
              pg_user := pg_user sp, pg_global := pg_global sp, pg_avail := pg_avail sp\<rparr>) s;
       tp \<leftarrow> read_page (table, i) s;
       Some (copy_page_physical (mul32 (pg_frame sp) PAGE_SIZE) (mul32 (pg_frame tp) PAGE_SIZE) s)
     } else Some s
   }"

fun clone_table_loop :: "addr \<Rightarrow> addr \<Rightarrow> nat list \<Rightarrow> 'z paging_scheme \<Rightarrow> 'z paging_scheme option" where
  "clone_table_loop src table [] s = Some s"
| "clone_table_loop src table (i # is) s = do {
     s \<leftarrow> clone_table_entry src table i s;
     clone_table_loop src table is s
   }"

definition clone_table ::
  "'z paging_scheme memalign \<Rightarrow> addr \<Rightarrow> 'z paging_scheme \<Rightarrow> ((addr \<times> nat) \<times> 'z paging_scheme) option" where
  "clone_table ma src s = do {
     (table, s) \<leftarrow> paging_memalign ma PAGE_SIZE sizeof_page_table s;
     physAddr \<leftarrow> resolve_physical table s;
     let s = s\<lparr>page_tables := (page_tables s)(table \<mapsto> (\<lambda>_. zero_page))\<rparr>;
     s \<leftarrow> clone_table_loop src table [0..<1024] s;
     Some ((table, physAddr), s)
   }"

definition clone_directory_entry ::
  "'z paging_scheme memalign \<Rightarrow> addr \<Rightarrow> addr \<Rightarrow> nat \<Rightarrow> 'z paging_scheme \<Rightarrow> 'z paging_scheme option" where
  "clone_directory_entry ma src dir i s = do {
     sd \<leftarrow> page_dirs s src;
     if dir_tables sd i \<noteq> NULL then do {
       kd \<leftarrow> page_dirs s (kernel_dir s);
       if dir_tables kd i = dir_tables sd i then
         put_dir dir (\<lambda>d. d\<lparr>dir_tables := (dir_tables d)(i := dir_tables sd i),
                           tables_phys := (tables_phys d)(i := tables_phys sd i)\<rparr>) s
       else do {
         ((table, ph), s) \<leftarrow> clone_table ma (dir_tables sd i) s;
         put_dir dir (\<lambda>d. d\<lparr>dir_tables := (dir_tables d)(i := table),
           tables_phys := (tables_phys d)(i := (tables_phys d i)\<lparr>pde_present := True, pde_rw := True,
             pde_user := True, pde_table := ph div 4096\<rparr>)\<rparr>) s
       }
     } else Some s
   }"

fun clone_directory_loop ::
  "'z paging_scheme memalign \<Rightarrow> addr \<Rightarrow> addr \<Rightarrow> nat list \<Rightarrow> 'z paging_scheme \<Rightarrow> 'z paging_scheme option" where
  "clone_directory_loop ma src dir [] s = Some s"
| "clone_directory_loop ma src dir (i # is) s = do {
     s \<leftarrow> clone_directory_entry ma src dir i s;
     clone_directory_loop ma src dir is s
   }"

definition clone_directory ::
  "'z paging_scheme memalign \<Rightarrow> addr \<Rightarrow> 'z paging_scheme \<Rightarrow> (addr \<times> 'z paging_scheme) option" where
  "clone_directory ma src s = do {
     (dir, s) \<leftarrow> paging_memalign ma PAGE_SIZE sizeof_page_directory s;
     ph \<leftarrow> resolve_physical dir s;
     let s = s\<lparr>page_dirs := (page_dirs s)(dir \<mapsto> zero_dir\<lparr>physical_address := ph\<rparr>)\<rparr>;
     s \<leftarrow> clone_directory_loop ma src dir [0..<1024] s;
     Some (dir, s)
   }"

fun free_table_loop :: "addr \<Rightarrow> nat list \<Rightarrow> 'z paging_scheme \<Rightarrow> 'z paging_scheme option" where
  "free_table_loop table [] s = Some s"
| "free_table_loop table (i # is) s = do {
     s \<leftarrow> free_frame (Some (table, i)) s;
     free_table_loop table is s
   }"

text \<open>\<^verbatim>\<open>kfree\<close> is the argument \<open>kf\<close>; the table or directory is gone from the store with its block.\<close>

definition free_table ::
  "(addr \<Rightarrow> 'z paging_scheme \<Rightarrow> 'z paging_scheme option) \<Rightarrow> addr \<Rightarrow> 'z paging_scheme \<Rightarrow> 'z paging_scheme option" where
  "free_table kf table s = do {
     s \<leftarrow> free_table_loop table [0..<1024] s;
     s \<leftarrow> kf table s;
     Some (s\<lparr>page_tables := (page_tables s)(table := None)\<rparr>)
   }"

fun free_dir_loop ::
  "(addr \<Rightarrow> 'z paging_scheme \<Rightarrow> 'z paging_scheme option) \<Rightarrow> addr \<Rightarrow> nat list \<Rightarrow> 'z paging_scheme \<Rightarrow> 'z paging_scheme option" where
  "free_dir_loop kf dir [] s = Some s"
| "free_dir_loop kf dir (i # is) s = do {
     d \<leftarrow> page_dirs s dir;
     s \<leftarrow> (if dir_tables d i \<noteq> NULL then do {
             kd \<leftarrow> page_dirs s (kernel_dir s);
             if dir_tables kd i \<noteq> dir_tables d i then free_table kf (dir_tables d i) s else Some s
           } else Some s);
     free_dir_loop kf dir is s
   }"

definition free_dir ::
  "(addr \<Rightarrow> 'z paging_scheme \<Rightarrow> 'z paging_scheme option) \<Rightarrow> addr \<Rightarrow> 'z paging_scheme \<Rightarrow> 'z paging_scheme option" where
  "free_dir kf dir s = do {
     s \<leftarrow> free_dir_loop kf dir [0..<1024] s;
     s \<leftarrow> kf dir s;
     Some (s\<lparr>page_dirs := (page_dirs s)(dir := None)\<rparr>)
   }"

subsection \<open>Start-up\<close>

text \<open>An entry of the multiboot memory map, as far as \<^verbatim>\<open>init_paging\<close> reads it.\<close>

record mmap_entry =
  mm_addr_low :: nat
  mm_len_low :: nat
  mm_type :: nat

definition MULTIBOOT_MEMORY_AVAILABLE :: nat where "MULTIBOOT_MEMORY_AVAILABLE = 1"

text \<open>
  \<^verbatim>\<open>for (i = 0; i < mmap->len_low; i += PAGE_SIZE)\<close>. The sums are 32-bit. A region so long that
  \<^verbatim>\<open>i += PAGE_SIZE\<close> wraps around would never end; the break on \<^verbatim>\<open>nframes\<close> comes first or the model
  stops at the wrap with \<open>None\<close>.
\<close>

function reserve_region :: "nat \<Rightarrow> nat \<Rightarrow> nat \<Rightarrow> 'z paging_scheme \<Rightarrow> 'z paging_scheme option" where
  "reserve_region lo len i s =
    (if i < len then
       if add32 lo i div PAGE_SIZE > nframes s then Some s
       else if i + PAGE_SIZE \<ge> two32 then None
       else do {
         s \<leftarrow> set_frame (add32 lo i) s;
         reserve_region lo len (i + PAGE_SIZE) s
       }
     else Some s)"
  by pat_completeness auto
termination by (relation "measure (\<lambda>(lo, len, i, s). len - i)") (auto simp: PAGE_SIZE_def)

fun reserve_mmap :: "mmap_entry list \<Rightarrow> 'z paging_scheme \<Rightarrow> 'z paging_scheme option" where
  "reserve_mmap [] s = Some s"
| "reserve_mmap (m # ms) s = do {
     s \<leftarrow> (if mm_type m \<noteq> MULTIBOOT_MEMORY_AVAILABLE
           then reserve_region (mm_addr_low m) (mm_len_low m) 0 s else Some s);
     reserve_mmap ms s
   }"

text \<open>
  The three loops of \<^verbatim>\<open>init_paging\<close> over page addresses: make the page tables of the heap, map
  the lowest megabyte to itself, map the kernel image at \<^verbatim>\<open>KERNEL_BASE\<close>.
\<close>

fun make_pages :: "'z paging_scheme memalign \<Rightarrow> nat list \<Rightarrow> 'z paging_scheme \<Rightarrow> 'z paging_scheme option" where
  "make_pages ma [] s = Some s"
| "make_pages ma (i # is) s = do {
     (pp, s) \<leftarrow> get_page ma i True (kernel_dir s) s;
     make_pages ma is s
   }"

function map_range ::
  "'z paging_scheme memalign \<Rightarrow> nat \<Rightarrow> ('z paging_scheme \<Rightarrow> nat) \<Rightarrow> nat \<Rightarrow> 'z paging_scheme \<Rightarrow> 'z paging_scheme option" where
  "map_range ma off lim i s =
    (if i < two32 \<and> i < lim s then do {
       (pp, s) \<leftarrow> get_page ma i True (kernel_dir s) s;
       pp \<leftarrow> pp;
       s \<leftarrow> dm_frame pp True True (i - off) s;
       map_range ma off lim (i + PAGE_SIZE) s
     } else Some s)"
  by pat_completeness auto
termination by (relation "measure (\<lambda>(ma, off, lim, i, s). two32 - i)") (auto simp: PAGE_SIZE_def)

declare reserve_region.simps [simp del] map_range.simps [simp del]

text \<open>
  \<^verbatim>\<open>init_paging\<close> up to the first \<^verbatim>\<open>switch_page_dir\<close>, then the switch to a clone of the kernel's
  directory once the heap may be used. Registering the handler of interrupt 14 is left to the
  interrupt tables.
\<close>

definition init_paging ::
  "'z paging_scheme memalign \<Rightarrow> nat \<Rightarrow> mmap_entry list \<Rightarrow> 'z paging_scheme \<Rightarrow> 'z paging_scheme option" where
  "init_paging ma memlength mmap s = do {
     let s = s\<lparr>nframes := memlength div 4\<rparr>;
     (_, s) \<leftarrow> paging_memalign ma 16 (INDEX_FROM_BIT (nframes s)) s;
     let s = s\<lparr>frames := (\<lambda>_. 0)\<rparr>;
     (kd, s) \<leftarrow> paging_memalign ma PAGE_SIZE sizeof_page_directory s;
     let s = s\<lparr>kernel_dir := kd\<rparr>;
     ph \<leftarrow> resolve_physical kd s;
     let s = s\<lparr>page_dirs := (page_dirs s)(kd \<mapsto> zero_dir\<lparr>physical_address := ph\<rparr>)\<rparr>;
     s \<leftarrow> reserve_mmap mmap s;
     s \<leftarrow> make_pages ma (map (\<lambda>k. KHEAP_START + k * PAGE_SIZE) [0..<65536]) s;
     s \<leftarrow> map_range ma 0 (\<lambda>_. 0x100000) 0 s;
     s \<leftarrow> map_range ma KERNEL_BASE (\<lambda>s. placement_address s + PAGE_SIZE) 0xC0100000 s;
     s \<leftarrow> switch_page_dir (kernel_dir s) s;
     let s = s\<lparr>kheap := True\<rparr>;
     (cd, s) \<leftarrow> clone_directory ma (kernel_dir s) s;
     switch_page_dir cd s
   }"


subsection \<open>The search for a free frame\<close>

definition frame_limit :: "'z paging_scheme \<Rightarrow> nat" where
  "frame_limit s = 32 * INDEX_FROM_BIT (nframes s)"

definition free_frames :: "'z paging_scheme \<Rightarrow> nat set" where
  "free_frames s = {k. k < frame_limit s \<and> \<not> bm_test k (frames s)}"

lemma finite_free_frames [simp]: "finite (free_frames s)"
  by (simp add: free_frames_def)

lemma first_frame_bit_step:
  "first_frame_bit w j =
    (if j < 32 then (if bit w j then first_frame_bit w (j + 1) else Some j) else None)"
  using word_and_exp [of j w] by (cases "bit w j") (simp_all add: first_frame_bit.simps [of w j])

lemma first_frame_bit_Some:
  "first_frame_bit w j = Some k \<Longrightarrow> j \<le> k \<and> k < 32 \<and> \<not> bit w k \<and> (\<forall>m. j \<le> m \<and> m < k \<longrightarrow> bit w m)"
proof (induction "32 - j" arbitrary: j)
  case 0
  then show ?case by (simp add: first_frame_bit_step [of w j])
next
  case (Suc d)
  show ?case
  proof (cases "bit w j")
    case True
    then have "j + 1 \<le> k \<and> k < 32 \<and> \<not> bit w k \<and> (\<forall>m. j + 1 \<le> m \<and> m < k \<longrightarrow> bit w m)"
      using Suc by (intro Suc.hyps(1)) (auto simp: first_frame_bit_step [of w j] split: if_splits)
    moreover have "bit w m" if "j \<le> m" "m < k" for m
      using True calculation that by (cases "m = j") auto
    ultimately show ?thesis by auto
  next
    case False
    with Suc show ?thesis by (auto simp: first_frame_bit_step [of w j] split: if_splits)
  qed
qed

lemma first_frame_bit_None:
  "first_frame_bit w j = None \<Longrightarrow> j \<le> m \<Longrightarrow> m < 32 \<Longrightarrow> bit w m"
proof (induction "32 - j" arbitrary: j)
  case 0
  then show ?case by simp
next
  case (Suc d)
  then have "j < 32" by simp
  with Suc(3) have "bit w j" "first_frame_bit w (j + 1) = None"
    by (auto simp: first_frame_bit_step [of w j] split: if_splits)
  with Suc(1)[of "j + 1"] Suc(2,4,5) show ?case
    by (cases "m = j") auto
qed

lemma bm_test_word: "j < 32 \<Longrightarrow> bm_test (i * 32 + j) fr \<longleftrightarrow> bit (fr i) j"
  by (simp add: bm_test_bit INDEX_FROM_BIT_div OFFSET_FROM_BIT_mod)

lemma bm_test_div: "bm_test k fr \<longleftrightarrow> bit (fr (k div 32)) (k mod 32)"
  by (simp add: bm_test_bit INDEX_FROM_BIT_div OFFSET_FROM_BIT_mod)

lemma full_word: "bit (0xFFFFFFFF :: 32 word) j \<longleftrightarrow> j < 32"
proof -
  have "bit (0xFFFFFFFF :: 32 word) j \<longleftrightarrow> bit (mask 32 :: 32 word) j" by (simp add: mask_eq_exp_minus_1)
  then show ?thesis unfolding bit_mask_iff by simp
qed

definition is_first_free :: "bitmap \<Rightarrow> nat \<Rightarrow> nat \<Rightarrow> nat \<Rightarrow> bool" where
  "is_first_free fr lo hi k \<longleftrightarrow>
     lo \<le> k \<and> k < hi \<and> \<not> bm_test k fr \<and> (\<forall>m. lo \<le> m \<and> m < k \<longrightarrow> bm_test m fr)"

text \<open>A word without a free bit is passed over, so the search goes on behind it.\<close>

lemma first_frame_word_cases:
  assumes "i < n"
  shows "first_frame_word fr n i =
    (case first_frame_bit (fr i) 0 of Some j \<Rightarrow> i * 32 + j | None \<Rightarrow> first_frame_word fr n (i + 1))"
proof (cases "fr i = 0xFFFFFFFF")
  case True
  then have "first_frame_bit (fr i) 0 = None"
    using first_frame_bit_Some [of "fr i" 0] full_word by (cases "first_frame_bit (fr i) 0") auto
  with True assms show ?thesis by (simp add: first_frame_word.simps [of fr n i])
next
  case False
  with assms show ?thesis by (simp add: first_frame_word.simps [of fr n i])
qed

lemma first_frame_word_spec:
  assumes "i \<le> n" "32 * n \<le> 0xFFFFFFFF"
  shows "(first_frame_word fr n i = 0xFFFFFFFF \<and> (\<forall>m. 32 * i \<le> m \<and> m < 32 * n \<longrightarrow> bm_test m fr))
    \<or> is_first_free fr (32 * i) (32 * n) (first_frame_word fr n i)"
  using assms
proof (induction "n - i" arbitrary: i)
  case 0
  then have "n = i" by simp
  then show ?case by (auto simp: first_frame_word.simps [of fr i i])
next
  case (Suc d)
  then have "i < n" by simp
  note step = first_frame_word_cases [OF this, of fr]
  show ?case
  proof (cases "first_frame_bit (fr i) 0")
    case (Some j)
    from first_frame_bit_Some [OF Some]
    have "j < 32" "\<not> bm_test (i * 32 + j) fr" and below: "\<And>m. m < j \<Longrightarrow> bm_test (i * 32 + m) fr"
      by (auto simp: bm_test_word)
    moreover have "bm_test m fr" if "32 * i \<le> m" "m < i * 32 + j" for m
      using below [of "m - i * 32"] that by simp
    ultimately show ?thesis
      using step Some \<open>i < n\<close> by (auto simp: is_first_free_def)
  next
    case None
    have skipped: "bm_test m fr" if "32 * i \<le> m" "m < 32 * (i + 1)" for m
      using first_frame_bit_None [OF None, of "m - i * 32"] bm_test_word [of "m - i * 32" i fr] that
      by simp
    have split: "32 * i \<le> m \<Longrightarrow> bm_test m fr \<or> 32 * (i + 1) \<le> m" for m
      using skipped [of m] by linarith
    have "first_frame_word fr n i = first_frame_word fr n (i + 1)"
      using step None by simp
    moreover have "(first_frame_word fr n (i + 1) = 0xFFFFFFFF
        \<and> (\<forall>m. 32 * (i + 1) \<le> m \<and> m < 32 * n \<longrightarrow> bm_test m fr))
      \<or> is_first_free fr (32 * (i + 1)) (32 * n) (first_frame_word fr n (i + 1))"
      using Suc by (intro Suc.hyps(1)) auto
    moreover have "is_first_free fr (32 * (i + 1)) (32 * n) k \<Longrightarrow> is_first_free fr (32 * i) (32 * n) k" for k
      using split by (auto simp: is_first_free_def)
    ultimately show ?thesis
      using split by auto
  qed
qed

lemma first_frame_cases:
  assumes "nframes s < two32"
  obtains "first_frame s = 0xFFFFFFFF" "free_frames s = {}"
  | "first_frame s \<in> free_frames s" "\<And>k. k < first_frame s \<Longrightarrow> bm_test k (frames s)"
proof -
  have "32 * INDEX_FROM_BIT (nframes s) \<le> 0xFFFFFFFF"
    using assms by (simp add: INDEX_FROM_BIT_div two32_def)
  from first_frame_word_spec [OF _ this, of 0 "frames s"] show thesis
    using that by (auto simp: first_frame_def free_frames_def frame_limit_def is_first_free_def)
qed


subsection \<open>Allocating and freeing a frame\<close>

definition frames_ok :: "'z paging_scheme \<Rightarrow> bool" where
  "frames_ok s \<longleftrightarrow> \<not> frame_lock s \<and> nframes s \<le> 2 ^ 20 \<and> bm_test 0 (frames s)"

text \<open>
  \<open>frames_ok\<close> is what holds between two calls: the lock is free, the machine has at most 4 GB,
  and frame 0 is taken (\<^verbatim>\<open>init_paging\<close> maps the lowest megabyte), so 0 can mean \<open>no frame\<close>.
\<close>

lemma frame_limit_le: "frame_limit s \<le> nframes s"
  by (simp add: frame_limit_def INDEX_FROM_BIT_div)

lemma free_frame_bounds:
  assumes "frames_ok s" "k \<in> free_frames s"
  shows "k < 2 ^ 20" "k \<noteq> 0" "k < nframes s" "mul32 k PAGE_SIZE = k * PAGE_SIZE"
    "k * PAGE_SIZE div PAGE_SIZE = k" "INDEX_FROM_BIT k < INDEX_FROM_BIT (nframes s)" "k \<noteq> 0xFFFFFFFF"
proof -
  have "k < frame_limit s" "\<not> bm_test k (frames s)"
    using assms(2) by (simp_all add: free_frames_def)
  with assms(1) frame_limit_le [of s]
  show less: "k < 2 ^ 20" "k \<noteq> 0" "k < nframes s" "k \<noteq> 0xFFFFFFFF"
    by (auto simp: frames_ok_def intro!: Suc_leI gr0I)
  then show "mul32 k PAGE_SIZE = k * PAGE_SIZE" "k * PAGE_SIZE div PAGE_SIZE = k"
    by (simp_all add: mul32_def two32_def PAGE_SIZE_def)
  show "INDEX_FROM_BIT k < INDEX_FROM_BIT (nframes s)"
    using \<open>k < frame_limit s\<close> unfolding frame_limit_def INDEX_FROM_BIT_div by simp
qed

text \<open>The state after a frame was given to the page entry \<open>(t, i)\<close> of the table \<open>pt\<close>.\<close>

definition frame_given :: "nat \<Rightarrow> addr \<Rightarrow> nat \<Rightarrow> page \<Rightarrow> page_table \<Rightarrow> 'z paging_scheme \<Rightarrow> 'z paging_scheme" where
  "frame_given k t i pg pt s =
    s\<lparr>frames := bm_set k (frames s), page_tables := (page_tables s)(t \<mapsto> pt(i := pg))\<rparr>"

lemma alloc_frame_new:
  assumes "frames_ok s" "page_tables s t = Some pt" "pg_frame (pt i) = 0" "free_frames s \<noteq> {}"
  shows "alloc_frame (t, i) kern rw s =
      Some (frame_given (first_frame s) t i ((pt i)\<lparr>pg_present := True, pg_rw := rw, pg_user := \<not> kern,
              pg_global := False, pg_frame := first_frame s\<rparr>) pt s)"
    and "first_frame s \<in> free_frames s"
proof -
  from assms(1) have "nframes s < two32" by (simp add: frames_ok_def two32_def)
  then show k: "first_frame s \<in> free_frames s"
    by (rule first_frame_cases) (use assms(4) in auto)
  note b = free_frame_bounds [OF assms(1) k]
  have locked: "first_frame (s\<lparr>frame_lock := True\<rparr>) = first_frame s" by (simp add: first_frame_def)
  have free: "\<not> frame_lock s" using assms(1) by (simp add: frames_ok_def)
  then have same: "s\<lparr>frame_lock := False\<rparr> = s" by simp
  show "alloc_frame (t, i) kern rw s = Some (frame_given (first_frame s) t i ((pt i)\<lparr>pg_present := True,
      pg_rw := rw, pg_user := \<not> kern, pg_global := False, pg_frame := first_frame s\<rparr>) pt s)"
    using assms(2,3) b free same
    by (simp add: alloc_frame_def read_page_def lock_frames_def unlock_frames_def set_frame_def
        put_page_def locked frame_given_def Let_def)
qed

lemma alloc_frame_none:
  assumes "frames_ok s" "page_tables s t = Some pt" "pg_frame (pt i) = 0" "free_frames s = {}"
  shows "alloc_frame (t, i) kern rw s = None"
proof -
  from assms(1) have "nframes s < two32" by (simp add: frames_ok_def two32_def)
  then have "first_frame s = 0xFFFFFFFF"
    by (rule first_frame_cases) (use assms(4) in auto)
  then have "first_frame (s\<lparr>frame_lock := True\<rparr>) = 0xFFFFFFFF" by (simp add: first_frame_def)
  with assms(1-3) show ?thesis
    by (simp add: alloc_frame_def read_page_def lock_frames_def frames_ok_def Let_def)
qed

lemma frame_given_simps [simp]:
  "frame_lock (frame_given k t i pg pt s) = frame_lock s"
  "nframes (frame_given k t i pg pt s) = nframes s"
  "bm_test j (frames (frame_given k t i pg pt s)) \<longleftrightarrow> j = k \<or> bm_test j (frames s)"
  "page_tables (frame_given k t i pg pt s) = (page_tables s)(t \<mapsto> pt(i := pg))"
  "phys (frame_given k t i pg pt s) = phys s"
  "page_dirs (frame_given k t i pg pt s) = page_dirs s"
  "kernel_dir (frame_given k t i pg pt s) = kernel_dir s"
  "kheap (frame_given k t i pg pt s) = kheap s"
  by (simp_all add: frame_given_def)

lemma frame_given_ok: "frames_ok s \<Longrightarrow> frames_ok (frame_given k t i pg pt s)"
  by (simp add: frames_ok_def)

lemma free_frames_given: "free_frames (frame_given k t i pg pt s) = free_frames s - {k}"
  by (auto simp: free_frames_def frame_limit_def)

lemma free_frame_entry:
  assumes "page_tables s t = Some pt" "pg_frame (pt i) \<noteq> 0" "pg_frame (pt i) < frame_limit s" "nframes s \<le> 2 ^ 20"
  shows "free_frame (Some (t, i)) s =
    Some (s\<lparr>frames := bm_clear (pg_frame (pt i)) (frames s),
            page_tables := (page_tables s)(t \<mapsto> pt(i := (pt i)\<lparr>pg_present := False, pg_frame := 0\<rparr>))\<rparr>)"
proof -
  have "pg_frame (pt i) < 2 ^ 20" using assms(3,4) frame_limit_le [of s] by linarith
  then have "mul32 (pg_frame (pt i)) PAGE_SIZE div PAGE_SIZE = pg_frame (pt i)"
    by (simp add: mul32_def two32_def PAGE_SIZE_def)
  moreover have "INDEX_FROM_BIT (pg_frame (pt i)) < INDEX_FROM_BIT (nframes s)"
    using assms(3) unfolding frame_limit_def INDEX_FROM_BIT_div by simp
  ultimately show ?thesis
    using assms(1,2) by (simp add: free_frame_def read_page_def clear_frame_def put_page_def Let_def)
qed


subsection \<open>A cloned page table shares no frame with its source\<close>

definition page_contents :: "nat \<Rightarrow> 'z paging_scheme \<Rightarrow> 8 word list" where
  "page_contents k s = map (\<lambda>off. phys s (k * PAGE_SIZE + off)) [0..<PAGE_SIZE]"

definition same_flags :: "page \<Rightarrow> page \<Rightarrow> bool" where
  "same_flags p q \<longleftrightarrow> pg_present p = pg_present q \<and> pg_rw p = pg_rw q \<and> pg_user p = pg_user q
     \<and> pg_global p = pg_global q \<and> pg_avail p = pg_avail q"

definition used_entries :: "nat set \<Rightarrow> page_table \<Rightarrow> nat set" where
  "used_entries I st = {i \<in> I. pg_frame (st i) \<noteq> 0}"

text \<open>Every frame a table maps is marked in the bitmap.\<close>

definition table_marked :: "nat set \<Rightarrow> page_table \<Rightarrow> 'z paging_scheme \<Rightarrow> bool" where
  "table_marked I st s \<longleftrightarrow>
    (\<forall>i\<in>used_entries I st. bm_test (pg_frame (st i)) (frames s) \<and> pg_frame (st i) < 2 ^ 20)"

text \<open>
  What \<^verbatim>\<open>clone_table\<close> promises of the entries \<open>I\<close>, for the source table \<open>st\<close>, the new table
  \<open>pt\<close>, and the states before and after.
\<close>

definition table_cloned ::
  "nat set \<Rightarrow> page_table \<Rightarrow> page_table \<Rightarrow> 'z paging_scheme \<Rightarrow> 'z paging_scheme \<Rightarrow> bool" where
  "table_cloned I st pt s s' \<longleftrightarrow>
     (\<forall>i\<in>used_entries I st. same_flags (pt i) (st i) \<and> pg_frame (pt i) \<in> free_frames s
        \<and> page_contents (pg_frame (pt i)) s' = page_contents (pg_frame (st i)) s)
   \<and> inj_on (\<lambda>i. pg_frame (pt i)) (used_entries I st)
   \<and> (\<forall>k. bm_test k (frames s') \<longleftrightarrow> bm_test k (frames s) \<or> k \<in> (\<lambda>i. pg_frame (pt i)) ` used_entries I st)
   \<and> (\<forall>k. bm_test k (frames s) \<longrightarrow> page_contents k s' = page_contents k s)"

lemma page_contents_eq:
  "page_contents k s = page_contents j s' \<longleftrightarrow> (\<forall>off < 4096. phys s (k * 4096 + off) = phys s' (j * 4096 + off))"
  by (auto simp: page_contents_def PAGE_SIZE_def)

lemma page_contents_copy:
  "page_contents j (copy_page_physical (m * PAGE_SIZE) (k * PAGE_SIZE) s) = page_contents (if j = k then m else j) s"
proof (cases "j = k")
  case True
  then show ?thesis by (simp add: page_contents_eq copy_page_physical_def PAGE_SIZE_def)
next
  case False
  then have "\<not> (k * 4096 \<le> j * 4096 + off \<and> j * 4096 + off < k * 4096 + 4096)" if "off < 4096" for off
    using that by linarith
  with False show ?thesis by (simp add: page_contents_eq copy_page_physical_def PAGE_SIZE_def)
qed

definition clone_page :: "page \<Rightarrow> nat \<Rightarrow> page \<Rightarrow> page" where
  "clone_page sp k p = p\<lparr>pg_frame := k, pg_present := pg_present sp, pg_rw := pg_rw sp, pg_user := pg_user sp,
     pg_global := pg_global sp, pg_avail := pg_avail sp\<rparr>"

lemma clone_page_simps [simp]: "pg_frame (clone_page sp k p) = k" "same_flags (clone_page sp k p) sp"
  by (simp_all add: clone_page_def same_flags_def)

definition entry_cloned :: "addr \<Rightarrow> nat \<Rightarrow> page \<Rightarrow> page_table \<Rightarrow> 'z paging_scheme \<Rightarrow> 'z paging_scheme" where
  "entry_cloned t i sp pt s =
    copy_page_physical (pg_frame sp * PAGE_SIZE) (first_frame s * PAGE_SIZE)
      (frame_given (first_frame s) t i (clone_page sp (first_frame s) (pt i)) pt s)"

lemma clone_table_entry_used:
  assumes "frames_ok s" "page_tables s src = Some st" "page_tables s t = Some pt" "src \<noteq> t"
    and "pg_frame (st i) \<noteq> 0" "pg_frame (st i) < 2 ^ 20" "free_frames s \<noteq> {}"
  shows "clone_table_entry src t i s = Some (entry_cloned t i (st i) pt s)"
proof -
  define s0 where "s0 = s\<lparr>page_tables := (page_tables s)(t \<mapsto> pt(i := (pt i)\<lparr>pg_frame := 0\<rparr>))\<rparr>"
  have first: "first_frame s0 = first_frame s" by (simp add: s0_def first_frame_def)
  have ok: "frames_ok s0" and free: "free_frames s0 = free_frames s"
    using assms(1) by (simp_all add: s0_def frames_ok_def free_frames_def frame_limit_def)
  have tab: "page_tables s0 t = Some (pt(i := (pt i)\<lparr>pg_frame := 0\<rparr>))" by (simp add: s0_def)
  have new: "alloc_frame (t, i) False False s0 = Some (frame_given (first_frame s) t i
      ((pt i)\<lparr>pg_present := True, pg_rw := False, pg_user := True, pg_global := False,
         pg_frame := first_frame s\<rparr>) (pt(i := (pt i)\<lparr>pg_frame := 0\<rparr>)) s0)"
    "first_frame s \<in> free_frames s"
    using alloc_frame_new [OF ok tab, of i] assms(7) by (simp_all add: free first)
  have "mul32 (first_frame s) PAGE_SIZE = first_frame s * PAGE_SIZE"
    using free_frame_bounds(4) [OF assms(1)] new(2) by simp
  moreover have "mul32 (pg_frame (st i)) PAGE_SIZE = pg_frame (st i) * PAGE_SIZE"
    using assms(6) by (simp add: mul32_def two32_def PAGE_SIZE_def)
  moreover have "put_page (t, i) (\<lambda>p. p\<lparr>pg_frame := 0\<rparr>) s = Some s0"
    using assms(3) by (simp add: put_page_def s0_def)
  ultimately show ?thesis
    using assms(2,4,5) new(1)
    by (simp add: clone_table_entry_def read_page_def put_page_def entry_cloned_def)
      (simp add: frame_given_def s0_def clone_page_def)
qed

lemma clone_table_entry_unused:
  "page_tables s src = Some st \<Longrightarrow> pg_frame (st i) = 0 \<Longrightarrow> clone_table_entry src t i s = Some s"
  by (simp add: clone_table_entry_def read_page_def)

lemma entry_cloned_simps [simp]:
  "frames_ok (entry_cloned t i sp pt s) = frames_ok (frame_given (first_frame s) t i undefined pt s)"
  "free_frames (entry_cloned t i sp pt s) = free_frames s - {first_frame s}"
  "bm_test j (frames (entry_cloned t i sp pt s)) \<longleftrightarrow> j = first_frame s \<or> bm_test j (frames s)"
  "page_contents j (entry_cloned t i sp pt s) = page_contents (if j = first_frame s then pg_frame sp else j) s"
proof -
  show "frames_ok (entry_cloned t i sp pt s) = frames_ok (frame_given (first_frame s) t i undefined pt s)"
    by (simp add: entry_cloned_def frames_ok_def copy_page_physical_def)
  show "free_frames (entry_cloned t i sp pt s) = free_frames s - {first_frame s}"
    by (auto simp: entry_cloned_def free_frames_def frame_limit_def copy_page_physical_def)
  show "bm_test j (frames (entry_cloned t i sp pt s)) \<longleftrightarrow> j = first_frame s \<or> bm_test j (frames s)"
    by (simp add: entry_cloned_def copy_page_physical_def)
  show "page_contents j (entry_cloned t i sp pt s) = page_contents (if j = first_frame s then pg_frame sp else j) s"
    unfolding entry_cloned_def page_contents_copy by (simp add: page_contents_def)
qed

lemma entry_cloned_tables:
  "page_tables (entry_cloned t i sp pt s) = (page_tables s)(t \<mapsto> pt(i := clone_page sp (first_frame s) (pt i)))"
  by (simp add: entry_cloned_def copy_page_physical_def)

lemma table_cloned_step:
  assumes "table_cloned I st pt' (entry_cloned t i (st i) pt s) s'" "i \<notin> I" "pg_frame (st i) \<noteq> 0"
    and "bm_test (pg_frame (st i)) (frames s)" "first_frame s \<in> free_frames s" "table_marked I st s"
    and "pt' i = clone_page (st i) (first_frame s) (pt i)"
  shows "table_cloned (insert i I) st pt' s s'"
proof -
  have used: "used_entries (insert i I) st = insert i (used_entries I st)" "i \<notin> used_entries I st"
    using assms(2,3) by (auto simp: used_entries_def)
  have new: "\<not> bm_test (first_frame s) (frames s)" using assms(5) by (simp add: free_frames_def)
  have marked: "pg_frame (st j) \<noteq> first_frame s" if "j \<in> used_entries I st" for j
    using assms(6) that new by (auto simp: table_marked_def)
  have kept: "page_contents k s' = page_contents (if k = first_frame s then pg_frame (st i) else k) s"
    if "k = first_frame s \<or> bm_test k (frames s)" for k
    using assms(1) that unfolding table_cloned_def by auto
  have old: "page_contents k s' = page_contents k s" if "bm_test k (frames s)" for k
    using kept [of k] that new by auto
  from assms(1) have rest:
    "same_flags (pt' j) (st j)" "pg_frame (pt' j) \<in> free_frames s" "pg_frame (pt' j) \<noteq> first_frame s"
    "page_contents (pg_frame (pt' j)) s' = page_contents (pg_frame (st j)) s"
    if "j \<in> used_entries I st" for j
    using that marked [OF that] by (auto simp: table_cloned_def)
  show ?thesis
    unfolding table_cloned_def used
  proof (intro conjI)
    show "inj_on (\<lambda>i. pg_frame (pt' i)) (insert i (used_entries I st))"
      using assms(1,7) used(2) rest(3) by (fastforce simp: table_cloned_def)
    show "\<forall>k. bm_test k (frames s) \<longrightarrow> page_contents k s' = page_contents k s"
      using old by simp
    show "\<forall>k. bm_test k (frames s') \<longleftrightarrow> bm_test k (frames s)
        \<or> k \<in> (\<lambda>i. pg_frame (pt' i)) ` insert i (used_entries I st)"
      using assms(1,7) by (auto simp: table_cloned_def)
  qed (use assms(5,7) kept rest in auto)
qed

lemma clone_table_loop_ok:
  assumes "frames_ok s" "page_tables s src = Some st" "page_tables s t = Some pt" "src \<noteq> t" "distinct is"
    and "table_marked (set is) st s" "card (used_entries (set is) st) \<le> card (free_frames s)"
  shows "\<exists>pt' s'. clone_table_loop src t is s = Some s' \<and> page_tables s' = (page_tables s)(t \<mapsto> pt')
    \<and> (\<forall>i. i \<notin> used_entries (set is) st \<longrightarrow> pt' i = pt i) \<and> table_cloned (set is) st pt' s s'"
  using assms
proof (induction "is" arbitrary: s pt)
  case Nil
  then show ?case by (intro exI [of _ pt] exI [of _ s]) (auto simp: table_cloned_def used_entries_def)
next
  case (Cons i "is")
  have marked: "table_marked (set is) st s"
    using Cons.prems(6) by (auto simp: table_marked_def used_entries_def)
  show ?case
  proof (cases "pg_frame (st i) = 0")
    case True
    then have same: "used_entries (set (i # is)) st = used_entries (set is) st"
      by (auto simp: used_entries_def)
    have "table_cloned (set (i # is)) st pt' s s' \<longleftrightarrow> table_cloned (set is) st pt' s s'" for pt' s'
      unfolding table_cloned_def same ..
    with Cons same marked show ?thesis
      by (simp add: clone_table_entry_unused [OF Cons.prems(2) True])
  next
    case False
    define k where "k = first_frame s"
    define s1 where "s1 = entry_cloned t i (st i) pt s"
    have used: "used_entries (set (i # is)) st = insert i (used_entries (set is) st)"
      "i \<notin> used_entries (set is) st"
      using False Cons.prems(5) by (auto simp: used_entries_def)
    have fin: "finite (used_entries (set is) st)" by (simp add: used_entries_def)
    have some: "free_frames s \<noteq> {}" using Cons.prems(7) used fin by auto
    from Cons.prems(6) used(1) have mi: "bm_test (pg_frame (st i)) (frames s)" "pg_frame (st i) < 2 ^ 20"
      by (auto simp: table_marked_def)
    have "nframes s < two32" using Cons.prems(1) by (simp add: frames_ok_def two32_def)
    then have k: "k \<in> free_frames s"
      unfolding k_def by (rule first_frame_cases) (use some in auto)
    have entry: "clone_table_entry src t i s = Some s1"
      unfolding s1_def using Cons.prems False mi(2) some by (intro clone_table_entry_used) auto
    have ok: "frames_ok s1" using Cons.prems(1) by (simp add: s1_def frame_given_ok)
    have tabs: "page_tables s1 src = Some st" "page_tables s1 t = Some (pt(i := clone_page (st i) (first_frame s) (pt i)))"
      using Cons.prems(2,4) by (simp_all add: s1_def entry_cloned_tables)
    have m1: "table_marked (set is) st s1" using marked by (auto simp: table_marked_def s1_def)
    have "card (used_entries (set is) st) \<le> card (free_frames s1)"
      using Cons.prems(7) k unfolding used by (simp add: s1_def used(2) fin k_def)
    moreover have "distinct is" using Cons.prems(5) by simp
    ultimately obtain pt' s' where loop: "clone_table_loop src t is s1 = Some s'"
      "page_tables s' = (page_tables s1)(t \<mapsto> pt')"
      "\<And>j. j \<notin> used_entries (set is) st \<Longrightarrow> pt' j = (pt(i := clone_page (st i) (first_frame s) (pt i))) j"
      "table_cloned (set is) st pt' s1 s'"
      using Cons.IH [OF ok tabs Cons.prems(4) _ m1] by blast
    have "table_cloned (insert i (set is)) st pt' s s'"
      using loop(4) Cons.prems(5) False mi(1) k marked loop(3) [OF used(2)]
      unfolding s1_def k_def by (intro table_cloned_step) auto
    with entry loop(1-3) used show ?thesis
      by (intro exI [of _ pt'] exI [of _ s']) (auto simp: s1_def entry_cloned_tables)
  qed
qed


subsection \<open>Freeing a table\<close>

lemma free_table_loop_ok:
  assumes "page_tables s t = Some pt" "nframes s \<le> 2 ^ 20"
    and "\<forall>i\<in>set is. pg_frame (pt i) \<noteq> 0 \<longrightarrow> pg_frame (pt i) < frame_limit s"
  shows "\<exists>pt' s'. free_table_loop t is s = Some s' \<and> page_tables s' = (page_tables s)(t \<mapsto> pt')
    \<and> (\<forall>i\<in>set is. pg_frame (pt' i) = 0)
    \<and> (\<forall>k. bm_test k (frames s') \<longleftrightarrow> bm_test k (frames s) \<and> k \<notin> (\<lambda>i. pg_frame (pt i)) ` used_entries (set is) pt)
    \<and> nframes s' = nframes s \<and> (\<forall>i. pg_frame (pt i) = 0 \<longrightarrow> pg_frame (pt' i) = 0)"
  using assms
proof (induction "is" arbitrary: s pt)
  case Nil
  then show ?case by (intro exI [of _ pt] exI [of _ s]) (auto simp: used_entries_def)
next
  case (Cons i "is")
  show ?case
  proof (cases "pg_frame (pt i) = 0")
    case True
    then have "free_frame (Some (t, i)) s = Some s"
      using Cons.prems(1) by (simp add: free_frame_def read_page_def)
    moreover obtain pt' s' where "free_table_loop t is s = Some s'" "page_tables s' = (page_tables s)(t \<mapsto> pt')"
      "\<forall>i\<in>set is. pg_frame (pt' i) = 0" "nframes s' = nframes s"
      "\<forall>k. bm_test k (frames s') \<longleftrightarrow> bm_test k (frames s) \<and> k \<notin> (\<lambda>i. pg_frame (pt i)) ` used_entries (set is) pt"
      "\<forall>i. pg_frame (pt i) = 0 \<longrightarrow> pg_frame (pt' i) = 0"
      using Cons.IH [OF Cons.prems(1,2)] Cons.prems(3) unfolding list.set by blast
    moreover have "used_entries (set (i # is)) pt = used_entries (set is) pt"
      using True by (auto simp: used_entries_def)
    ultimately show ?thesis
      using True by (intro exI [of _ pt'] exI [of _ s']) auto
  next
    case False
    define pt1 where "pt1 = pt(i := (pt i)\<lparr>pg_present := False, pg_frame := 0\<rparr>)"
    define s1 where "s1 = s\<lparr>frames := bm_clear (pg_frame (pt i)) (frames s), page_tables := (page_tables s)(t \<mapsto> pt1)\<rparr>"
    have "free_frame (Some (t, i)) s = Some s1"
      unfolding s1_def pt1_def using Cons.prems False by (intro free_frame_entry) auto
    moreover have lim: "frame_limit s1 = frame_limit s" by (simp add: s1_def frame_limit_def)
    have "page_tables s1 t = Some pt1" "nframes s1 \<le> 2 ^ 20"
      "\<forall>i\<in>set is. pg_frame (pt1 i) \<noteq> 0 \<longrightarrow> pg_frame (pt1 i) < frame_limit s1"
      using Cons.prems by (auto simp: s1_def pt1_def frame_limit_def)
    from Cons.IH [OF this] obtain pt' s' where "free_table_loop t is s1 = Some s'"
      "page_tables s' = (page_tables s1)(t \<mapsto> pt')" "\<forall>i\<in>set is. pg_frame (pt' i) = 0" "nframes s' = nframes s1"
      "\<forall>k. bm_test k (frames s') \<longleftrightarrow> bm_test k (frames s1) \<and> k \<notin> (\<lambda>i. pg_frame (pt1 i)) ` used_entries (set is) pt1"
      "\<forall>i. pg_frame (pt1 i) = 0 \<longrightarrow> pg_frame (pt' i) = 0"
      by blast
    moreover have "(\<lambda>i. pg_frame (pt i)) ` used_entries (set (i # is)) pt =
        insert (pg_frame (pt i)) ((\<lambda>i. pg_frame (pt1 i)) ` used_entries (set is) pt1)"
      using False by (auto simp: used_entries_def pt1_def image_iff)
    ultimately show ?thesis
      by (intro exI [of _ pt'] exI [of _ s']) (auto simp: s1_def pt1_def)
  qed
qed

lemma clone_table_entry_nframes:
  "clone_table_entry src t i s = Some s' \<Longrightarrow> nframes s' = nframes s"
  by (auto simp: clone_table_entry_def alloc_frame_def put_page_def lock_frames_def unlock_frames_def
      set_frame_def copy_page_physical_def Let_def split: bind_splits if_splits option.splits)

lemma clone_table_loop_nframes:
  "clone_table_loop src t is s = Some s' \<Longrightarrow> nframes s' = nframes s"
  by (induction "is" arbitrary: s) (auto simp: clone_table_entry_nframes split: bind_splits)

lemma clone_table_cases:
  assumes "paging_memalign ma PAGE_SIZE sizeof_page_table s = Some (t, s1)" "resolve_physical t s1 = Some ph"
    and "frames_ok s1" "page_tables s1 src = Some st" "src \<noteq> t"
    and "\<forall>i<1024. pg_frame (st i) \<noteq> 0 \<longrightarrow> bm_test (pg_frame (st i)) (frames s1) \<and> pg_frame (st i) < 2 ^ 20"
    and "card {i. i < 1024 \<and> pg_frame (st i) \<noteq> 0} \<le> card (free_frames s1)"
  obtains pt s' where "clone_table ma src s = Some ((t, ph), s')" "page_tables s' = (page_tables s1)(t \<mapsto> pt)"
    "\<forall>i. i \<notin> used_entries {0..<1024} st \<longrightarrow> pt i = zero_page"
    "table_cloned {0..<1024} st pt s1 s'" "nframes s' = nframes s1"
proof -
  define s2 where "s2 = s1\<lparr>page_tables := (page_tables s1)(t \<mapsto> (\<lambda>_. zero_page))\<rparr>"
  have used: "used_entries (set [0..<1024]) st = {i. i < 1024 \<and> pg_frame (st i) \<noteq> 0}"
    by (auto simp: used_entries_def)
  have frames: "frames s2 = frames s1" "free_frames s2 = free_frames s1" "page_contents k s2 = page_contents k s1" for k
    by (simp_all add: s2_def free_frames_def frame_limit_def page_contents_def)
  have "frames_ok s2" "page_tables s2 src = Some st" "page_tables s2 t = Some (\<lambda>_. zero_page)"
    using assms(3-5) by (simp_all add: s2_def frames_ok_def)
  moreover have "table_marked (set [0..<1024]) st s2"
    using assms(6) unfolding table_marked_def used frames by simp
  moreover have "card (used_entries (set [0..<1024]) st) \<le> card (free_frames s2)"
    using assms(7) unfolding used frames .
  ultimately obtain pt s' where
    loop: "clone_table_loop src t [0..<1024] s2 = Some s'" "page_tables s' = (page_tables s2)(t \<mapsto> pt)"
    and rest: "\<forall>i. i \<notin> used_entries (set [0..<1024]) st \<longrightarrow> pt i = zero_page"
    and cloned: "table_cloned (set [0..<1024]) st pt s2 s'"
    using clone_table_loop_ok [of s2 src st t "\<lambda>_. zero_page" "[0..<1024]"] assms(5) distinct_upt by blast
  have "clone_table ma src s = Some ((t, ph), s')"
    using assms(1,2) loop(1) unfolding s2_def by (simp add: clone_table_def Let_def del: upt.simps)
  moreover have "page_tables s' = (page_tables s1)(t \<mapsto> pt)"
    using loop(2) by (simp add: s2_def)
  moreover have "table_cloned {0..<1024} st pt s1 s'"
    using cloned unfolding table_cloned_def set_upt frames .
  moreover have "nframes s' = nframes s1"
    using clone_table_loop_nframes [OF loop(1)] by (simp add: s2_def)
  ultimately show thesis
    using rest that unfolding set_upt by blast
qed

text \<open>
  A small machine for the examples below: 64 frames of which the first three are in use, one page
  table at 8192 with one page (entry 5, frame 2), and the heap not yet up.
\<close>

definition demo_table :: page_table where
  "demo_table = (\<lambda>_. zero_page)(5 := zero_page\<lparr>pg_present := True, pg_rw := True, pg_user := True, pg_frame := 2\<rparr>)"

definition demo_paging :: paging where
  "demo_paging = \<lparr>frames = (\<lambda>_. 0)(0 := 7), nframes = 64, frame_lock = False, kernel_dir = 0, current_dir = 0,
     page_tables = [8192 \<mapsto> demo_table], page_dirs = Map.empty, kheap = False,
     placement_address = 0xC0200000, phys = (\<lambda>_. 0), cr3 = 0\<rparr>"

definition no_heap :: "'s memalign" where
  "no_heap _ _ _ = None"

lemma demo_alloc:
  "paging_memalign no_heap PAGE_SIZE sizeof_page_table demo_paging =
    Some (0xC0200000, demo_paging\<lparr>placement_address := 0xC0201000\<rparr>)"
  by (simp add: paging_memalign_def demo_paging_def PAGE_SIZE_def sizeof_page_table_def add32_def two32_def)

lemma demo_bits: "bm_test k (frames demo_paging) \<longleftrightarrow> k < 3"
proof -
  have "bit (7 :: 32 word) j \<longleftrightarrow> j < 3" for j
  proof -
    have "bit (7 :: 32 word) j \<longleftrightarrow> bit (mask 3 :: 32 word) j" by (simp add: mask_eq_exp_minus_1)
    then show ?thesis unfolding bit_mask_iff by auto
  qed
  then show ?thesis by (auto simp: demo_paging_def bm_test_div div_eq_0_iff)
qed

lemma demo_ok: "frames_ok (demo_paging\<lparr>placement_address := a\<rparr>)"
  by (simp add: frames_ok_def demo_bits) (simp add: demo_paging_def)

lemma demo_free: "free_frames (demo_paging\<lparr>placement_address := a\<rparr>) = {3..<64}"
  by (auto simp: free_frames_def demo_bits frame_limit_def INDEX_FROM_BIT_div) (auto simp: demo_paging_def)

lemma demo_used: "{i. i < 1024 \<and> pg_frame (demo_table i) \<noteq> 0} = {5}"
  by (auto simp: demo_table_def zero_page_def split: if_splits)

lemma demo_marked:
  "\<forall>i<1024. pg_frame (demo_table i) \<noteq> 0 \<longrightarrow>
     bm_test (pg_frame (demo_table i)) (frames (demo_paging\<lparr>placement_address := a\<rparr>)) \<and> pg_frame (demo_table i) < 2 ^ 20"
  by (simp add: demo_bits) (simp add: demo_table_def zero_page_def)

lemma demo_resolve: "resolve_physical 0xC0200000 (demo_paging\<lparr>placement_address := a\<rparr>) = Some 0x200000"
  by (simp add: resolve_physical_def demo_paging_def sub32_def two32_def KERNEL_BASE_def)

lemma demo_src: "page_tables (demo_paging\<lparr>placement_address := a\<rparr>) 8192 = Some demo_table"
  by (simp add: demo_paging_def)

lemmas demo_facts = demo_alloc demo_resolve demo_ok demo_src



text \<open>
  C8. \<^verbatim>\<open>clone_table\<close>, given a fresh block for the new table and as many free frames as the source
  table maps pages, returns; the new table maps exactly the pages the source maps, with the same
  flags, each in a frame of its own that was free before, holding a copy of the source page; no
  page in use before changes, and the bitmap gains exactly the new frames.
\<close>

theorem clone_table_isolates:
  assumes "paging_memalign ma PAGE_SIZE sizeof_page_table s = Some (t, s1)" "resolve_physical t s1 = Some ph"
    and "frames_ok s1" "page_tables s1 src = Some st" "src \<noteq> t"
    and "\<forall>i<1024. pg_frame (st i) \<noteq> 0 \<longrightarrow> bm_test (pg_frame (st i)) (frames s1) \<and> pg_frame (st i) < 2 ^ 20"
    and "card {i. i < 1024 \<and> pg_frame (st i) \<noteq> 0} \<le> card (free_frames s1)"
  shows "\<exists>pt s'. clone_table ma src s = Some ((t, ph), s') \<and> page_tables s' = (page_tables s1)(t \<mapsto> pt)
    \<and> (\<forall>i<1024. if pg_frame (st i) = 0 then pt i = zero_page
        else same_flags (pt i) (st i) \<and> pg_frame (pt i) \<in> free_frames s1
          \<and> page_contents (pg_frame (pt i)) s' = page_contents (pg_frame (st i)) s1)
    \<and> inj_on (\<lambda>i. pg_frame (pt i)) {i. i < 1024 \<and> pg_frame (st i) \<noteq> 0}
    \<and> (\<forall>k. bm_test k (frames s1) \<longrightarrow> page_contents k s' = page_contents k s1)
    \<and> (\<forall>k. bm_test k (frames s') \<longleftrightarrow> bm_test k (frames s1)
        \<or> (\<exists>i<1024. pg_frame (st i) \<noteq> 0 \<and> pg_frame (pt i) = k))"
proof -
  from assms obtain pt s' where "clone_table ma src s = Some ((t, ph), s')"
    "page_tables s' = (page_tables s1)(t \<mapsto> pt)"
    "\<forall>i. i \<notin> used_entries {0..<1024} st \<longrightarrow> pt i = zero_page" "table_cloned {0..<1024} st pt s1 s'"
    by (rule clone_table_cases) blast
  moreover have used: "used_entries {0..<1024} st = {i. i < 1024 \<and> pg_frame (st i) \<noteq> 0}"
    by (auto simp: used_entries_def)
  ultimately show ?thesis
    unfolding table_cloned_def used by (intro exI [of _ pt] exI [of _ s']) auto
qed


theorem clone_table_isolates_witness:
  "\<exists>pt s'. clone_table no_heap 8192 demo_paging = Some ((0xC0200000, 0x200000), s')
    \<and> page_tables s' 0xC0200000 = Some pt \<and> same_flags (pt 5) (demo_table 5) \<and> pg_frame (pt 5) \<in> {3..<64}
    \<and> pt 6 = zero_page"
proof -
  have "(8192 :: nat) \<noteq> 0xC0200000" by simp
  from clone_table_isolates [OF demo_facts this demo_marked]
  obtain pt s' where "clone_table no_heap 8192 demo_paging = Some ((0xC0200000, 0x200000), s')"
    and tab: "page_tables s' = (page_tables (demo_paging\<lparr>placement_address := 0xC0201000\<rparr>))(0xC0200000 \<mapsto> pt)"
    and each: "\<forall>i<1024. if pg_frame (demo_table i) = 0 then pt i = zero_page
        else same_flags (pt i) (demo_table i) \<and> pg_frame (pt i) \<in> {3..<64}
          \<and> page_contents (pg_frame (pt i)) s' = page_contents (pg_frame (demo_table i))
              (demo_paging\<lparr>placement_address := 0xC0201000\<rparr>)"
    unfolding demo_used demo_free by auto
  moreover have "pg_frame (demo_table 5) = 2" "pg_frame (demo_table 6) = 0"
    by (simp_all add: demo_table_def zero_page_def)
  ultimately show ?thesis
    using each [rule_format, of 5] each [rule_format, of 6] tab by auto
qed

text \<open>
  C25. Freeing the entries of a cloned table gives back exactly the frames the clone took: the
  frames that are free afterwards are those that were free before, and the table is empty.
\<close>

theorem clone_free_table:
  assumes "paging_memalign ma PAGE_SIZE sizeof_page_table s = Some (t, s1)" "resolve_physical t s1 = Some ph"
    and "frames_ok s1" "page_tables s1 src = Some st" "src \<noteq> t"
    and "\<forall>i<1024. pg_frame (st i) \<noteq> 0 \<longrightarrow> bm_test (pg_frame (st i)) (frames s1) \<and> pg_frame (st i) < 2 ^ 20"
    and "card {i. i < 1024 \<and> pg_frame (st i) \<noteq> 0} \<le> card (free_frames s1)"
  shows "\<exists>s' s'' pt. clone_table ma src s = Some ((t, ph), s') \<and> free_table_loop t [0..<1024] s' = Some s''
    \<and> free_frames s'' = free_frames s1 \<and> page_tables s'' t = Some pt \<and> (\<forall>i<1024. pg_frame (pt i) = 0)"
proof -
  from assms obtain pt s' where c: "clone_table ma src s = Some ((t, ph), s')"
    "page_tables s' = (page_tables s1)(t \<mapsto> pt)"
    "\<forall>i. i \<notin> used_entries {0..<1024} st \<longrightarrow> pt i = zero_page"
    "table_cloned {0..<1024} st pt s1 s'" "nframes s' = nframes s1"
    by (rule clone_table_cases)
  have frame: "pg_frame (pt i) \<in> free_frames s1 \<and> i \<in> used_entries {0..<1024} st" if "pg_frame (pt i) \<noteq> 0" for i
    using that c(3,4) by (cases "i \<in> used_entries {0..<1024} st") (auto simp: table_cloned_def zero_page_def)
  have zero: "pg_frame (pt i) \<noteq> 0" if "i \<in> used_entries {0..<1024} st" for i
    using that c(4) free_frame_bounds(2) [OF assms(3)] by (auto simp: table_cloned_def)
  have lim: "frame_limit s' = frame_limit s1" using c(5) by (simp add: frame_limit_def)
  have "\<forall>i\<in>set [0..<1024]. pg_frame (pt i) \<noteq> 0 \<longrightarrow> pg_frame (pt i) < frame_limit s'"
    using frame lim by (auto simp: free_frames_def)
  moreover have "page_tables s' t = Some pt" "nframes s' \<le> 2 ^ 20"
    using c(2,5) assms(3) by (simp_all add: frames_ok_def)
  ultimately obtain pt' s'' where f: "free_table_loop t [0..<1024] s' = Some s''"
    "page_tables s'' = (page_tables s')(t \<mapsto> pt')" "\<forall>i\<in>set [0..<1024]. pg_frame (pt' i) = 0"
    "\<forall>k. bm_test k (frames s'') \<longleftrightarrow> bm_test k (frames s') \<and> k \<notin> (\<lambda>i. pg_frame (pt i)) ` used_entries (set [0..<1024]) pt"
    "nframes s'' = nframes s'"
    using free_table_loop_ok by blast
  have "i \<in> used_entries {0..<1024} pt \<longleftrightarrow> i \<in> used_entries {0..<1024} st" for i
    using frame [of i] zero [of i] unfolding used_entries_def mem_Collect_eq by blast
  then have used: "used_entries (set [0..<1024]) pt = used_entries {0..<1024} st"
    unfolding set_upt by blast
  have "bm_test k (frames s'') \<longleftrightarrow> bm_test k (frames s1)" for k
    using f(4) c(4) unfolding used table_cloned_def free_frames_def by auto
  then have "free_frames s'' = free_frames s1"
    using f(5) c(5) by (simp add: free_frames_def frame_limit_def)
  moreover have "page_tables s'' t = Some pt'" "\<forall>i<1024. pg_frame (pt' i) = 0"
    using f(2,3) by auto
  ultimately show ?thesis using c(1) f(1) by blast
qed

theorem clone_free_table_witness:
  "\<exists>s' s''. clone_table no_heap 8192 demo_paging = Some ((0xC0200000, 0x200000), s')
    \<and> free_table_loop 0xC0200000 [0..<1024] s' = Some s'' \<and> free_frames s'' = {3..<64}"
proof -
  have "(8192 :: nat) \<noteq> 0xC0200000" by simp
  from clone_free_table [OF demo_facts this demo_marked] show ?thesis
    unfolding demo_used demo_free by auto
qed

end
