(* ===== verification/Kmalloc.thy ===== *)
theory Kmalloc
  imports Paging
begin

section \<open>The kernel heap (kernel/kmalloc.c)\<close>

text \<open>
  The model of the allocator, function by function. Its state extends that of paging.c with the
  static variables of kmalloc.c and with what its headers hold in memory:

  \<^item> \<open>majors\<close> and \<open>minors\<close>: the headers \<^verbatim>\<open>struct liballoc_major\<close> and \<^verbatim>\<open>struct liballoc_minor\<close>, by
    address. Reading an address that holds no header is \<open>None\<close>.
  \<^item> \<open>aligns\<close>: the two \<^verbatim>\<open>unsigned short\<close>s that the macro \<^verbatim>\<open>ALIGN\<close> writes sixteen bytes before a
    pointer, indexed by the pointer.
  \<^item> \<open>kbytes\<close>: the bytes of the memory handed out, for \<^verbatim>\<open>calloc\<close> and \<^verbatim>\<open>realloc\<close>.

  A header or alignment word that lies in a range handed out to a caller is forgotten (\<open>retype\<close>):
  from then on these bytes belong to the caller.

  The lock \<^verbatim>\<open>kmalloc_lock\<close> is held while pages are taken from the system. \<^verbatim>\<open>get_page\<close> could then
  only call \<^verbatim>\<open>kmemalign\<close> again, which waits for that lock for ever, so its argument \<open>ma\<close> is the
  function that never returns. The theorem \<open>kmemalign_locked\<close> shows this of the model.

  The debug build's printing is left out. Sizes are 32-bit: the \<^verbatim>\<open>size_t\<close> arguments, 64 bits wide
  in this kernel, are cut to \<^verbatim>\<open>unsigned long\<close> at the start of \<^verbatim>\<open>kmemalign\<close>.
\<close>

record major =
  mj_prev :: addr
  mj_next :: addr
  mj_pages :: nat
  mj_size :: nat
  mj_usage :: nat
  mj_first :: addr

record minor =
  mn_prev :: addr
  mn_next :: addr
  mn_block :: addr
  mn_magic :: nat
  mn_size :: nat
  mn_req_size :: nat

record liballoc = paging +
  heap_frames :: bitmap
  l_memRoot :: addr
  l_bestBet :: addr
  l_allocated :: nat
  l_inuse :: nat
  l_warningCount :: nat
  l_errorCount :: nat
  l_possibleOverruns :: nat
  kmalloc_lock :: bool
  majors :: "addr \<rightharpoonup> major"
  minors :: "addr \<rightharpoonup> minor"
  aligns :: "addr \<rightharpoonup> nat \<times> nat"
  kbytes :: "addr \<Rightarrow> 8 word"

definition DEFAULT_ALIGNMENT :: nat where "DEFAULT_ALIGNMENT = 16"
definition ALIGN_INFO :: nat where "ALIGN_INFO = 16"
definition LIBALLOC_MAGIC :: nat where "LIBALLOC_MAGIC = 0xc001c0de"
definition LIBALLOC_DEAD :: nat where "LIBALLOC_DEAD = 0xdeaddead"
definition PAGE_COUNT :: nat where "PAGE_COUNT = 16"
definition NFRAMES :: nat where "NFRAMES = ((KHEAP_MAX - KHEAP_START + 1) div PAGE_SIZE) div 4"
definition sizeof_major :: nat where "sizeof_major = 24"
definition sizeof_minor :: nat where "sizeof_minor = 24"
definition two64 :: nat where "two64 = 2 ^ 64"

lemmas kmalloc_consts = DEFAULT_ALIGNMENT_def ALIGN_INFO_def LIBALLOC_MAGIC_def LIBALLOC_DEAD_def
  PAGE_COUNT_def sizeof_major_def sizeof_minor_def

subsection \<open>Memory\<close>

definition upd_major :: "addr \<Rightarrow> (major \<Rightarrow> major) \<Rightarrow> 'z liballoc_scheme \<Rightarrow> 'z liballoc_scheme option" where
  "upd_major a f s =
    (case majors s a of None \<Rightarrow> None | Some m \<Rightarrow> Some (s\<lparr>majors := (majors s)(a \<mapsto> f m)\<rparr>))"

definition upd_minor :: "addr \<Rightarrow> (minor \<Rightarrow> minor) \<Rightarrow> 'z liballoc_scheme \<Rightarrow> 'z liballoc_scheme option" where
  "upd_minor a f s =
    (case minors s a of None \<Rightarrow> None | Some m \<Rightarrow> Some (s\<lparr>minors := (minors s)(a \<mapsto> f m)\<rparr>))"

definition retype :: "addr \<Rightarrow> addr \<Rightarrow> 'z liballoc_scheme \<Rightarrow> 'z liballoc_scheme" where
  "retype lo hi s =
    s\<lparr>minors := (\<lambda>a. if lo < a + sizeof_minor \<and> a < hi then None else minors s a),
      aligns := (\<lambda>p. if lo + ALIGN_INFO < p + 4 \<and> p < hi + ALIGN_INFO then None else aligns s p)\<rparr>"

text \<open>The macros \<^verbatim>\<open>ALIGN\<close> and \<^verbatim>\<open>UNALIGN\<close>.\<close>

definition ALIGN :: "addr \<Rightarrow> nat \<Rightarrow> 'z liballoc_scheme \<Rightarrow> addr \<times> 'z liballoc_scheme" where
  "ALIGN ptr aln s =
    (let ptr = add32 ptr ALIGN_INFO;
         diff = ptr AND (if aln = 0 then two32 - 1 else (aln - 1) mod two32);
         (ptr, diff) = (if diff \<noteq> 0 then
                          let diff = sub32 aln diff in (add32 ptr diff, diff)
                        else (ptr, diff))
     in (ptr, s\<lparr>aligns := (aligns s)(ptr \<mapsto> ((diff + ALIGN_INFO) mod 2 ^ 16, aln mod 2 ^ 16))\<rparr>))"

definition UNALIGN :: "addr \<Rightarrow> 'z liballoc_scheme \<Rightarrow> addr option" where
  "UNALIGN ptr s = do {
     (diff, aln) \<leftarrow> aligns s ptr;
     if diff < aln + ALIGN_INFO then Some (sub32 ptr diff) else Some ptr
   }"

text \<open>\<^verbatim>\<open>liballoc_memset\<close> and \<^verbatim>\<open>liballoc_memcpy\<close>: words first, then the bytes that are left.\<close>

fun liballoc_memset :: "addr \<Rightarrow> 8 word \<Rightarrow> nat \<Rightarrow> (addr \<Rightarrow> 8 word) \<Rightarrow> (addr \<Rightarrow> 8 word)" where
  "liballoc_memset p c 0 m = m"
| "liballoc_memset p c (Suc n) m = liballoc_memset (p + 1) c n (m(p := c))"

fun memcpy_bytes :: "addr \<Rightarrow> addr \<Rightarrow> nat \<Rightarrow> (addr \<Rightarrow> 8 word) \<Rightarrow> (addr \<Rightarrow> 8 word)" where
  "memcpy_bytes cdest csrc 0 m = m"
| "memcpy_bytes cdest csrc (Suc n) m = memcpy_bytes (cdest + 1) (csrc + 1) n (m(cdest := m csrc))"

function liballoc_memcpy :: "addr \<Rightarrow> addr \<Rightarrow> nat \<Rightarrow> (addr \<Rightarrow> 8 word) \<Rightarrow> (addr \<Rightarrow> 8 word)" where
  "liballoc_memcpy ldest lsrc n m =
    (if n \<ge> 4 then
       liballoc_memcpy (ldest + 4) (lsrc + 4) (n - 4)
         (m(ldest := m lsrc, ldest + 1 := m (lsrc + 1), ldest + 2 := m (lsrc + 2), ldest + 3 := m (lsrc + 3)))
     else memcpy_bytes ldest lsrc n m)"
  by pat_completeness auto
termination by (relation "measure (\<lambda>(d, s, n, m). n)") auto

declare liballoc_memcpy.simps [simp del]

subsection \<open>Heap frames\<close>

definition heap_frame :: "nat \<Rightarrow> nat" where
  "heap_frame a = sub32 a KHEAP_START div PAGE_SIZE"

definition set_heap_frame :: "nat \<Rightarrow> 'z liballoc_scheme \<Rightarrow> 'z liballoc_scheme option" where
  "set_heap_frame a s =
    (if INDEX_FROM_BIT (heap_frame a) < NFRAMES
     then Some (s\<lparr>heap_frames := bm_set (heap_frame a) (heap_frames s)\<rparr>) else None)"

definition clear_heap_frame :: "nat \<Rightarrow> 'z liballoc_scheme \<Rightarrow> 'z liballoc_scheme option" where
  "clear_heap_frame a s =
    (if INDEX_FROM_BIT (heap_frame a) < NFRAMES
     then Some (s\<lparr>heap_frames := bm_clear (heap_frame a) (heap_frames s)\<rparr>) else None)"

definition test_heap_frame :: "nat \<Rightarrow> 'z liballoc_scheme \<Rightarrow> bool option" where
  "test_heap_frame a s =
    (if INDEX_FROM_BIT (heap_frame a) < NFRAMES
     then Some (bm_test (heap_frame a) (heap_frames s)) else None)"

text \<open>The loops of \<^verbatim>\<open>first_n_frames\<close>: the inner one tells whether one of the pages is taken.\<close>

function frames_bad :: "nat \<Rightarrow> nat \<Rightarrow> nat \<Rightarrow> 'z liballoc_scheme \<Rightarrow> bool option" where
  "frames_bad i n j s =
    (if j < n then do {
       used \<leftarrow> test_heap_frame (add32 i (PAGE_SIZE * j)) s;
       if used then Some True else frames_bad i n (j + 1) s
     } else Some False)"
  by pat_completeness auto
termination by (relation "measure (\<lambda>(i, n, j, s). n - j)") auto

function first_n_frames_from :: "nat \<Rightarrow> nat \<Rightarrow> 'z liballoc_scheme \<Rightarrow> nat option" where
  "first_n_frames_from i n s =
    (if i < KHEAP_MAX then do {
       bad \<leftarrow> frames_bad i n 0 s;
       if \<not> bad then Some i else first_n_frames_from (i + PAGE_SIZE) n s
     } else Some 0xFFFFFFFF)"
  by pat_completeness auto
termination by (relation "measure (\<lambda>(i, n, s). KHEAP_MAX - i)") (auto simp: PAGE_SIZE_def)

declare frames_bad.simps [simp del] first_n_frames_from.simps [simp del]

definition first_n_frames :: "nat \<Rightarrow> 'z liballoc_scheme \<Rightarrow> nat option" where
  "first_n_frames n s = first_n_frames_from KHEAP_START n s"

subsection \<open>Pages from the system\<close>

definition liballoc_lock :: "'z liballoc_scheme \<Rightarrow> 'z liballoc_scheme option" where
  "liballoc_lock s = (if kmalloc_lock s then None else Some (s\<lparr>kmalloc_lock := True\<rparr>))"

definition liballoc_unlock :: "'z liballoc_scheme \<Rightarrow> 'z liballoc_scheme" where
  "liballoc_unlock s = s\<lparr>kmalloc_lock := False\<rparr>"

text \<open>The loop of \<^verbatim>\<open>liballoc_alloc\<close> over the pages that are left, from page \<open>i\<close> on.\<close>

fun liballoc_map :: "addr \<Rightarrow> nat list \<Rightarrow> 'z liballoc_scheme \<Rightarrow> 'z liballoc_scheme option" where
  "liballoc_map address [] s = Some s"
| "liballoc_map address (i # is) s = do {
     (pp, s) \<leftarrow> get_page no_heap (add32 address (i * PAGE_SIZE)) True (kernel_dir s) s;
     pp \<leftarrow> pp;
     s \<leftarrow> alloc_frame pp True True s;
     s \<leftarrow> set_heap_frame (add32 address (i * PAGE_SIZE)) s;
     liballoc_map address is s
   }"

definition liballoc_alloc :: "nat \<Rightarrow> 'z liballoc_scheme \<Rightarrow> (addr \<times> 'z liballoc_scheme) option" where
  "liballoc_alloc npages s = do {
     address \<leftarrow> first_n_frames npages s;
     ASSERT (address \<noteq> 0xFFFFFFFF);
     s \<leftarrow> liballoc_map address [0..<npages] s;
     Some (address, s)
   }"

text \<open>Each round of the loop of \<^verbatim>\<open>liballoc_free\<close> frees the page \<^verbatim>\<open>addr + npages * PAGE_SIZE\<close>.\<close>

fun liballoc_unmap :: "addr \<Rightarrow> nat \<Rightarrow> nat list \<Rightarrow> 'z liballoc_scheme \<Rightarrow> 'z liballoc_scheme option" where
  "liballoc_unmap a npages [] s = Some s"
| "liballoc_unmap a npages (i # is) s = do {
     (pp, s) \<leftarrow> get_page no_heap (add32 a (npages * PAGE_SIZE)) False (kernel_dir s) s;
     s \<leftarrow> free_frame pp s;
     s \<leftarrow> clear_heap_frame (add32 a (npages * PAGE_SIZE)) s;
     liballoc_unmap a npages is s
   }"

definition liballoc_free :: "addr \<Rightarrow> nat \<Rightarrow> 'z liballoc_scheme \<Rightarrow> 'z liballoc_scheme option" where
  "liballoc_free a npages s = liballoc_unmap a npages [0..<npages] s"

definition pages_needed :: "nat \<Rightarrow> nat" where
  "pages_needed sz =
    (let st = add32 sz sizeof_major;
         st = add32 st sizeof_minor;
         st = (if st mod PAGE_SIZE = 0 then st div PAGE_SIZE else st div PAGE_SIZE + 1)
     in if st < PAGE_COUNT then PAGE_COUNT else st)"

definition allocate_new_page :: "nat \<Rightarrow> 'z liballoc_scheme \<Rightarrow> (addr \<times> 'z liballoc_scheme) option" where
  "allocate_new_page sz s = do {
     let st = pages_needed sz;
     (maj, s) \<leftarrow> liballoc_alloc st s;
     if maj = NULL then Some (NULL, s\<lparr>l_warningCount := l_warningCount s + 1\<rparr>)
     else
       let m = \<lparr>mj_prev = NULL, mj_next = NULL, mj_pages = st, mj_size = mul32 st PAGE_SIZE,
                mj_usage = sizeof_major, mj_first = NULL\<rparr>
       in Some (maj, s\<lparr>majors := (majors s)(maj \<mapsto> m), l_allocated := (l_allocated s + mj_size m) mod two64\<rparr>)
   }"

subsection \<open>Allocation\<close>

text \<open>
  The header of a new minor, and its place in memory: the bytes of the new section stop being
  whatever they were. \<^verbatim>\<open>finish_minor\<close> is what all four cases do at the end: the usage of the
  block, the running total, and the alignment of the pointer behind the header.
\<close>

definition put_minor :: "addr \<Rightarrow> minor \<Rightarrow> 'z liballoc_scheme \<Rightarrow> 'z liballoc_scheme" where
  "put_minor a m s =
    (let s = retype a (a + sizeof_minor + mn_size m) s in s\<lparr>minors := (minors s)(a \<mapsto> m)\<rparr>)"

definition finish_minor ::
  "nat \<Rightarrow> nat \<Rightarrow> addr \<Rightarrow> addr \<Rightarrow> 'z liballoc_scheme \<Rightarrow> (addr \<times> 'z liballoc_scheme) option" where
  "finish_minor alignment sz maj minp s = do {
     s \<leftarrow> upd_major maj (\<lambda>m. m\<lparr>mj_usage := add32 (mj_usage m) (add32 sz sizeof_minor)\<rparr>) s;
     let s = s\<lparr>l_inuse := (l_inuse s + sz) mod two64\<rparr>;
     Some (ALIGN (add32 minp sizeof_minor) alignment s)
   }"

definition memalign_case2 ::
  "nat \<Rightarrow> nat \<Rightarrow> nat \<Rightarrow> addr \<Rightarrow> 'z liballoc_scheme \<Rightarrow> (addr \<times> 'z liballoc_scheme) option" where
  "memalign_case2 alignment req_size sz maj s = do {
     let first = add32 maj sizeof_major;
     s \<leftarrow> upd_major maj (\<lambda>m. m\<lparr>mj_first := first\<rparr>) s;
     let s = put_minor first \<lparr>mn_prev = NULL, mn_next = NULL, mn_block = maj, mn_magic = LIBALLOC_MAGIC,
                              mn_size = sz, mn_req_size = req_size\<rparr> s;
     finish_minor alignment sz maj first s
   }"

definition memalign_case3 ::
  "nat \<Rightarrow> nat \<Rightarrow> nat \<Rightarrow> addr \<Rightarrow> addr \<Rightarrow> 'z liballoc_scheme \<Rightarrow> (addr \<times> 'z liballoc_scheme) option" where
  "memalign_case3 alignment req_size sz maj first s = do {
     let new = add32 maj sizeof_major;
     s \<leftarrow> upd_minor first (\<lambda>m. m\<lparr>mn_prev := new\<rparr>) s;
     let s = put_minor new \<lparr>mn_prev = NULL, mn_next = first, mn_block = maj, mn_magic = LIBALLOC_MAGIC,
                            mn_size = sz, mn_req_size = req_size\<rparr> s;
     s \<leftarrow> upd_major maj (\<lambda>m. m\<lparr>mj_first := new\<rparr>) s;
     finish_minor alignment sz maj new s
   }"

definition memalign_case41 ::
  "nat \<Rightarrow> nat \<Rightarrow> nat \<Rightarrow> addr \<Rightarrow> addr \<Rightarrow> 'z liballoc_scheme \<Rightarrow> (addr \<times> 'z liballoc_scheme) option" where
  "memalign_case41 alignment req_size sz maj minp s = do {
     mn \<leftarrow> minors s minp;
     let new = add32 (add32 minp sizeof_minor) (mn_size mn);
     s \<leftarrow> upd_minor minp (\<lambda>m. m\<lparr>mn_next := new\<rparr>) s;
     let s = put_minor new \<lparr>mn_prev = minp, mn_next = NULL, mn_block = maj, mn_magic = LIBALLOC_MAGIC,
                            mn_size = sz, mn_req_size = req_size\<rparr> s;
     finish_minor alignment sz maj new s
   }"

definition memalign_case42 ::
  "nat \<Rightarrow> nat \<Rightarrow> nat \<Rightarrow> addr \<Rightarrow> addr \<Rightarrow> 'z liballoc_scheme \<Rightarrow> (addr \<times> 'z liballoc_scheme) option" where
  "memalign_case42 alignment req_size sz maj minp s = do {
     mn \<leftarrow> minors s minp;
     let new = add32 (add32 minp sizeof_minor) (mn_size mn);
     let s = put_minor new \<lparr>mn_prev = minp, mn_next = mn_next mn, mn_block = maj, mn_magic = LIBALLOC_MAGIC,
                            mn_size = sz, mn_req_size = req_size\<rparr> s;
     s \<leftarrow> upd_minor (mn_next mn) (\<lambda>m. m\<lparr>mn_prev := new\<rparr>) s;
     s \<leftarrow> upd_minor minp (\<lambda>m. m\<lparr>mn_next := new\<rparr>) s;
     finish_minor alignment sz maj new s
   }"

text \<open>Case 4, the loop over the minors of a block: \<open>Some None\<close> when no gap is large enough.\<close>

partial_function (option) memalign_case4 ::
  "nat \<Rightarrow> nat \<Rightarrow> nat \<Rightarrow> addr \<Rightarrow> addr \<Rightarrow> 'z liballoc_scheme \<Rightarrow> (addr \<times> 'z liballoc_scheme) option option" where
  "memalign_case4 alignment req_size sz maj minp s =
    (if minp = NULL then Some None
     else do {
       mj \<leftarrow> majors s maj;
       mn \<leftarrow> minors s minp;
       if mn_next mn = NULL then
         let diff = sub32 (sub32 (sub32 (add32 maj (mj_size mj)) minp) sizeof_minor) (mn_size mn) in
         if diff \<ge> add32 sz sizeof_minor
         then do { r \<leftarrow> memalign_case41 alignment req_size sz maj minp s; Some (Some r) }
         else Some None
       else
         let diff = sub32 (sub32 (sub32 (mn_next mn) minp) sizeof_minor) (mn_size mn) in
         if diff \<ge> add32 sz sizeof_minor
         then do { r \<leftarrow> memalign_case42 alignment req_size sz maj minp s; Some (Some r) }
         else memalign_case4 alignment req_size sz maj (mn_next mn) s
     })"

text \<open>Cases 2, 3 and 4: try to place the section in the block \<open>maj\<close>.\<close>

definition memalign_place ::
  "nat \<Rightarrow> nat \<Rightarrow> nat \<Rightarrow> addr \<Rightarrow> 'z liballoc_scheme \<Rightarrow> (addr \<times> 'z liballoc_scheme) option option" where
  "memalign_place alignment req_size sz maj s = do {
     mj \<leftarrow> majors s maj;
     if mj_first mj = NULL
     then do { r \<leftarrow> memalign_case2 alignment req_size sz maj s; Some (Some r) }
     else if sub32 (sub32 (mj_first mj) maj) sizeof_major \<ge> add32 sz sizeof_minor
     then do { r \<leftarrow> memalign_case3 alignment req_size sz maj (mj_first mj) s; Some (Some r) }
     else memalign_case4 alignment req_size sz maj (mj_first mj) s
   }"

text \<open>Where the loop over the blocks goes next.\<close>

datatype hop = Hop addr bool | Fall addr | Out

definition memalign_grow :: "nat \<Rightarrow> addr \<Rightarrow> 'z liballoc_scheme \<Rightarrow> (addr \<times> 'z liballoc_scheme) option" where
  "memalign_grow sz maj s = do {
     (new, s) \<leftarrow> allocate_new_page sz s;
     s \<leftarrow> upd_major maj (\<lambda>m. m\<lparr>mj_next := new\<rparr>) s;
     s \<leftarrow> (if new = NULL then Some s else upd_major new (\<lambda>m. m\<lparr>mj_prev := maj\<rparr>) s);
     Some (new, s)
   }"

definition memalign_case1 ::
  "nat \<Rightarrow> bool \<Rightarrow> addr \<Rightarrow> 'z liballoc_scheme \<Rightarrow> (hop \<times> 'z liballoc_scheme) option" where
  "memalign_case1 sz startedBet maj s = do {
     mj \<leftarrow> majors s maj;
     if sub32 (mj_size mj) (mj_usage mj) < add32 sz sizeof_minor then
       if mj_next mj \<noteq> NULL then Some (Hop (mj_next mj) startedBet, s)
       else if startedBet then Some (Hop (l_memRoot s) False, s)
       else do {
         (new, s) \<leftarrow> memalign_grow sz maj s;
         Some (if new = NULL then Out else Fall new, s)
       }
     else Some (Fall maj, s)
   }"

definition memalign_case5 ::
  "nat \<Rightarrow> bool \<Rightarrow> addr \<Rightarrow> 'z liballoc_scheme \<Rightarrow> (hop \<times> 'z liballoc_scheme) option" where
  "memalign_case5 sz startedBet maj s = do {
     mj \<leftarrow> majors s maj;
     if mj_next mj = NULL then
       if startedBet then Some (Hop (l_memRoot s) False, s)
       else do {
         (new, s) \<leftarrow> memalign_grow sz maj s;
         Some (if new = NULL then Out else Hop new startedBet, s)
       }
     else Some (Hop (mj_next mj) startedBet, s)
   }"

partial_function (option) memalign_loop ::
  "nat \<Rightarrow> nat \<Rightarrow> nat \<Rightarrow> addr \<Rightarrow> bool \<Rightarrow> nat \<Rightarrow> 'z liballoc_scheme \<Rightarrow> (addr \<times> 'z liballoc_scheme) option" where
  "memalign_loop alignment req_size sz maj startedBet bestSize s =
    (if maj = NULL then Some (NULL, liballoc_unlock s)
     else do {
       mj \<leftarrow> majors s maj;
       let diff = sub32 (mj_size mj) (mj_usage mj);
       let s = (if bestSize < diff then s\<lparr>l_bestBet := maj\<rparr> else s);
       let bestSize = (if bestSize < diff then diff else bestSize);
       (h, s) \<leftarrow> memalign_case1 sz startedBet maj s;
       case h of
         Hop maj startedBet \<Rightarrow> memalign_loop alignment req_size sz maj startedBet bestSize s
       | Out \<Rightarrow> Some (NULL, liballoc_unlock s)
       | Fall maj \<Rightarrow> do {
           r \<leftarrow> memalign_place alignment req_size sz maj s;
           case r of
             Some (p, s) \<Rightarrow> Some (p, liballoc_unlock s)
           | None \<Rightarrow> do {
               (h, s) \<leftarrow> memalign_case5 sz startedBet maj s;
               case h of
                 Hop maj startedBet \<Rightarrow> memalign_loop alignment req_size sz maj startedBet bestSize s
               | _ \<Rightarrow> Some (NULL, liballoc_unlock s)
             }
         }
     })"

text \<open>The part of \<^verbatim>\<open>kmemalign\<close> behind the test for a size of zero, with the lock held.\<close>

definition memalign_locked ::
  "nat \<Rightarrow> nat \<Rightarrow> nat \<Rightarrow> 'z liballoc_scheme \<Rightarrow> (addr \<times> 'z liballoc_scheme) option" where
  "memalign_locked alignment req_size sz s = do {
     (failed, s) \<leftarrow> (if l_memRoot s = NULL then do {
         (root, s) \<leftarrow> allocate_new_page sz s;
         Some (root = NULL, s\<lparr>l_memRoot := root\<rparr>)
       } else Some (False, s));
     if failed then Some (NULL, liballoc_unlock s)
     else do {
       bestSize \<leftarrow> (if l_bestBet s \<noteq> NULL then do {
           b \<leftarrow> majors s (l_bestBet s);
           Some (sub32 (mj_size b) (mj_usage b))
         } else Some 0);
       let start = l_bestBet s \<noteq> NULL \<and> bestSize > add32 sz sizeof_minor;
       memalign_loop alignment req_size sz (if start then l_bestBet s else l_memRoot s) start bestSize s
     }
   }"

definition memalign_size :: "nat \<Rightarrow> nat \<Rightarrow> nat" where
  "memalign_size alignment req_size =
    (if alignment > 1 then (req_size + alignment + ALIGN_INFO) mod two32 else req_size mod two32)"

definition kmemalign :: "nat \<Rightarrow> nat \<Rightarrow> 'z liballoc_scheme \<Rightarrow> (addr \<times> 'z liballoc_scheme) option" where
  "kmemalign alignment req_size s = do {
     let sz = memalign_size alignment req_size;
     s \<leftarrow> liballoc_lock s;
     if sz = 0 then do {
       let s = liballoc_unlock (s\<lparr>l_warningCount := l_warningCount s + 1\<rparr>);
       s \<leftarrow> liballoc_lock s;
       memalign_locked DEFAULT_ALIGNMENT 1 (memalign_size DEFAULT_ALIGNMENT 1) s
     }
     else memalign_locked alignment req_size sz s
   }"

definition kmalloc :: "nat \<Rightarrow> 'z liballoc_scheme \<Rightarrow> (addr \<times> 'z liballoc_scheme) option" where
  "kmalloc req_size s = kmemalign DEFAULT_ALIGNMENT req_size s"

definition kvalloc :: "nat \<Rightarrow> 'z liballoc_scheme \<Rightarrow> (addr \<times> 'z liballoc_scheme) option" where
  "kvalloc req_size s = kmemalign PAGE_SIZE req_size s"

subsection \<open>Release\<close>

definition int32 :: "nat \<Rightarrow> int" where
  "int32 n = (if n < 2 ^ 31 then int n else int n - 2 ^ 32)"

text \<open>The test for overruns that \<^verbatim>\<open>kfree\<close> and \<^verbatim>\<open>krealloc\<close> make on a header with the wrong magic.\<close>

definition bad_magic :: "nat \<Rightarrow> 'z liballoc_scheme \<Rightarrow> 'z liballoc_scheme" where
  "bad_magic magic s =
    (let s = s\<lparr>l_errorCount := l_errorCount s + 1\<rparr> in
     if (magic AND 0xFFFFFF) = (LIBALLOC_MAGIC AND 0xFFFFFF) \<or>
        (magic AND 0xFFFF) = (LIBALLOC_MAGIC AND 0xFFFF) \<or>
        (magic AND 0xFF) = (LIBALLOC_MAGIC AND 0xFF)
     then s\<lparr>l_possibleOverruns := l_possibleOverruns s + 1\<rparr> else s)"

text \<open>Taking the minor \<open>minp\<close> out of the list of its block.\<close>

definition unlink_minor :: "addr \<Rightarrow> 'z liballoc_scheme \<Rightarrow> 'z liballoc_scheme option" where
  "unlink_minor minp s = do {
     mn \<leftarrow> minors s minp;
     let maj = mn_block mn;
     let s = s\<lparr>l_inuse := (l_inuse s + (two64 - mn_size mn)) mod two64\<rparr>;
     s \<leftarrow> upd_major maj (\<lambda>m. m\<lparr>mj_usage := sub32 (mj_usage m) (add32 (mn_size mn) sizeof_minor)\<rparr>) s;
     s \<leftarrow> upd_minor minp (\<lambda>m. m\<lparr>mn_magic := LIBALLOC_DEAD\<rparr>) s;
     s \<leftarrow> (if mn_next mn \<noteq> NULL then upd_minor (mn_next mn) (\<lambda>m. m\<lparr>mn_prev := mn_prev mn\<rparr>) s else Some s);
     s \<leftarrow> (if mn_prev mn \<noteq> NULL then upd_minor (mn_prev mn) (\<lambda>m. m\<lparr>mn_next := mn_next mn\<rparr>) s else Some s);
     if mn_prev mn = NULL then upd_major maj (\<lambda>m. m\<lparr>mj_first := mn_next mn\<rparr>) s else Some s
   }"

text \<open>Cleaning up after the majors: an empty block is unlinked and given back.\<close>

definition release_major :: "addr \<Rightarrow> 'z liballoc_scheme \<Rightarrow> 'z liballoc_scheme option" where
  "release_major maj s = do {
     mj \<leftarrow> majors s maj;
     let s = (if l_memRoot s = maj then s\<lparr>l_memRoot := mj_next mj\<rparr> else s);
     let s = (if l_bestBet s = maj then s\<lparr>l_bestBet := NULL\<rparr> else s);
     s \<leftarrow> (if mj_prev mj \<noteq> NULL then upd_major (mj_prev mj) (\<lambda>m. m\<lparr>mj_next := mj_next mj\<rparr>) s else Some s);
     s \<leftarrow> (if mj_next mj \<noteq> NULL then upd_major (mj_next mj) (\<lambda>m. m\<lparr>mj_prev := mj_prev mj\<rparr>) s else Some s);
     let s = s\<lparr>l_allocated := (l_allocated s + (two64 - mj_size mj)) mod two64\<rparr>;
     liballoc_free maj (mj_pages mj) s
   }"

definition update_bestBet :: "addr \<Rightarrow> 'z liballoc_scheme \<Rightarrow> 'z liballoc_scheme option" where
  "update_bestBet maj s = do {
     mj \<leftarrow> majors s maj;
     if l_bestBet s \<noteq> NULL then do {
       b \<leftarrow> majors s (l_bestBet s);
       let bestSize = int32 (sub32 (mj_size b) (mj_usage b));
       let majSize = int32 (sub32 (mj_size mj) (mj_usage mj));
       Some (if majSize > bestSize then s\<lparr>l_bestBet := maj\<rparr> else s)
     } else Some s
   }"

definition kfree :: "addr \<Rightarrow> 'z liballoc_scheme \<Rightarrow> 'z liballoc_scheme option" where
  "kfree ptr s =
    (if ptr = NULL then Some (s\<lparr>l_warningCount := l_warningCount s + 1\<rparr>)
     else do {
       ptr \<leftarrow> UNALIGN ptr s;
       s \<leftarrow> liballoc_lock s;
       let minp = sub32 ptr sizeof_minor;
       mn \<leftarrow> minors s minp;
       if mn_magic mn \<noteq> LIBALLOC_MAGIC then Some (liballoc_unlock (bad_magic (mn_magic mn) s))
       else do {
         let maj = mn_block mn;
         s \<leftarrow> unlink_minor minp s;
         mj \<leftarrow> majors s maj;
         s \<leftarrow> (if mj_first mj = NULL then release_major maj s else update_bestBet maj s);
         Some (liballoc_unlock s)
       }
     })"

text \<open>
  A product of 2 GB and more is negative as an \<^verbatim>\<open>int\<close>, and a \<^verbatim>\<open>size_t\<close> far above 32 bits in the loop of
  \<^verbatim>\<open>liballoc_memset\<close>, whose 32-bit counter never reaches it: \<open>None\<close>.
\<close>

definition kcalloc :: "nat \<Rightarrow> nat \<Rightarrow> 'z liballoc_scheme \<Rightarrow> (addr \<times> 'z liballoc_scheme) option" where
  "kcalloc nobj sz s = do {
     let real_size = int32 (mul32 nobj sz);
     (p, s) \<leftarrow> kmalloc (nat (real_size mod int two64)) s;
     if real_size < 0 then None
     else Some (p, s\<lparr>kbytes := liballoc_memset p 0 (nat real_size) (kbytes s)\<rparr>)
   }"

definition krealloc :: "addr \<Rightarrow> nat \<Rightarrow> 'z liballoc_scheme \<Rightarrow> (addr \<times> 'z liballoc_scheme) option" where
  "krealloc p sz s =
    (if sz = 0 then do { s \<leftarrow> kfree p s; Some (NULL, s) }
     else if p = NULL then kmalloc sz s
     else do {
       ptr \<leftarrow> UNALIGN p s;
       s \<leftarrow> liballoc_lock s;
       let minp = sub32 ptr sizeof_minor;
       mn \<leftarrow> minors s minp;
       if mn_magic mn \<noteq> LIBALLOC_MAGIC then Some (NULL, liballoc_unlock (bad_magic (mn_magic mn) s))
       else if mn_req_size mn \<ge> sz then do {
         s \<leftarrow> upd_minor minp (\<lambda>m. m\<lparr>mn_req_size := sz\<rparr>) s;
         Some (p, liballoc_unlock s)
       }
       else do {
         let s = liballoc_unlock s;
         (new, s) \<leftarrow> kmalloc sz s;
         let s = s\<lparr>kbytes := liballoc_memcpy new p (mn_req_size mn) (kbytes s)\<rparr>;
         s \<leftarrow> kfree p s;
         Some (new, s)
       }
     })"

end
