(* ===== verification/Kmalloc_Inv.thy ===== *)
theory Kmalloc_Inv
  imports Kmalloc
begin

section \<open>The kernel heap: representation and invariant\<close>

text \<open>
  The heap as a list of blocks, each with the list of its sections in the order of their
  addresses (\<open>gblk\<close>, \<open>gmin\<close>), and the relation \<open>heap_rep\<close> between such a list and the headers in
  memory. The list says everything the headers say: the sizes, the pointers handed out, the
  links. \<open>heap_wf\<close> is the geometry: sections do not overlap, nothing lies outside its block,
  every pointer handed out is aligned and its bytes lie inside its section. \<open>frames_inv\<close>
  relates the blocks to the bitmap of heap pages.
\<close>

record gmin =
  g_addr :: addr
  g_size :: nat
  g_req :: nat
  g_ptr :: addr
  g_aln :: nat

record gblk =
  b_addr :: addr
  b_pages :: nat
  b_mins :: "gmin list"

definition g_end :: "gmin \<Rightarrow> nat" where
  "g_end g = g_addr g + 24 + g_size g"

definition b_end :: "gblk \<Rightarrow> nat" where
  "b_end b = b_addr b + b_pages b * 4096"

definition b_usage :: "gblk \<Rightarrow> nat" where
  "b_usage b = 24 + sum_list (map (\<lambda>g. g_size g + 24) (b_mins b))"

subsection \<open>Geometry\<close>

fun laid :: "nat \<Rightarrow> gmin list \<Rightarrow> nat \<Rightarrow> bool" where
  "laid lo [] hi \<longleftrightarrow> lo \<le> hi"
| "laid lo (g # gs) hi \<longleftrightarrow> lo \<le> g_addr g \<and> laid (g_end g) gs hi"

fun end_of :: "nat \<Rightarrow> gmin list \<Rightarrow> nat" where
  "end_of lo [] = lo"
| "end_of lo (g # gs) = end_of (g_end g) gs"

lemma laid_append:
  "laid lo (xs @ ys) hi \<longleftrightarrow> laid lo xs (end_of lo xs) \<and> laid (end_of lo xs) ys hi"
proof (induction xs arbitrary: lo)
  case (Cons g gs)
  then show ?case by auto
qed simp

lemma laid_end: "laid lo xs hi \<longleftrightarrow> laid lo xs (end_of lo xs) \<and> end_of lo xs \<le> hi"
  using laid_append [of lo xs "[]" hi] by simp

lemma laid_le: "laid lo gs hi \<Longrightarrow> lo \<le> hi"
  by (induction gs arbitrary: lo) (auto simp: g_end_def dest: le_trans, fastforce)

lemma laid_mem: "laid lo gs hi \<Longrightarrow> g \<in> set gs \<Longrightarrow> lo \<le> g_addr g \<and> g_end g \<le> hi"
proof (induction gs arbitrary: lo)
  case (Cons x gs)
  then have "g = x \<or> g_end x \<le> g_addr g \<and> g_end g \<le> hi" by auto
  with Cons.prems(1) laid_le [of "g_end x" gs hi] show ?case
    by (auto simp: g_end_def)
qed simp

lemma end_of_last: "xs \<noteq> [] \<Longrightarrow> end_of lo xs = g_end (last xs)"
  by (induction xs arbitrary: lo) auto

lemma laid_before:
  assumes "laid lo (xs @ ys) hi" "x \<in> set xs"
  shows "g_end x \<le> end_of lo xs"
  using assms laid_append laid_mem by blast

lemma laid_usage: "laid lo gs hi \<Longrightarrow> lo + sum_list (map (\<lambda>g. g_size g + 24) gs) \<le> hi"
  by (induction gs arbitrary: lo) (auto simp: g_end_def, fastforce)

lemma laid_insert:
  assumes "laid lo (xs @ ys) hi" "g_addr g = end_of lo xs"
    and "ys = [] \<Longrightarrow> g_end g \<le> hi" "ys \<noteq> [] \<Longrightarrow> g_end g \<le> g_addr (hd ys)"
  shows "laid lo (xs @ g # ys) hi"
  using assms laid_end [of lo xs hi] by (cases ys) (auto simp: laid_append)

lemma laid_remove: "laid lo (xs @ g # ys) hi \<Longrightarrow> laid lo (xs @ ys) hi"
  using laid_end [of lo xs hi] by (cases ys) (auto simp: laid_append g_end_def dest: laid_le)

text \<open>A section holds an aligned pointer with room for the bytes that were asked for.\<close>

definition g_wf :: "gmin \<Rightarrow> bool" where
  "g_wf g \<longleftrightarrow> 1 < g_aln g \<and> g_aln g < 2 ^ 15 \<and> g_ptr g mod g_aln g = 0
     \<and> g_addr g + 40 \<le> g_ptr g \<and> g_ptr g < g_addr g + 40 + g_aln g \<and> g_ptr g + g_req g \<le> g_end g"

definition b_wf :: "gblk \<Rightarrow> bool" where
  "b_wf b \<longleftrightarrow> 0 < b_addr b \<and> 0 < b_pages b \<and> b_end b < two32
     \<and> laid (b_addr b + 24) (b_mins b) (b_end b) \<and> (\<forall>g\<in>set (b_mins b). g_wf g)"

definition b_disjoint :: "gblk \<Rightarrow> gblk \<Rightarrow> bool" where
  "b_disjoint b c \<longleftrightarrow> b_end b \<le> b_addr c \<or> b_end c \<le> b_addr b"

definition heap_wf :: "gblk list \<Rightarrow> bool" where
  "heap_wf bs \<longleftrightarrow> (\<forall>b\<in>set bs. b_wf b) \<and> sorted_wrt b_disjoint bs"

lemma b_disjoint_sym: "b_disjoint b c \<longleftrightarrow> b_disjoint c b"
  by (auto simp: b_disjoint_def)

lemma heap_wf_middle:
  "heap_wf (B1 @ b # B2) \<longleftrightarrow> b_wf b \<and> heap_wf (B1 @ B2) \<and> (\<forall>c\<in>set (B1 @ B2). b_disjoint b c)"
  unfolding heap_wf_def by (auto simp: sorted_wrt_append b_disjoint_sym)

lemma b_wf_mem:
  assumes "b_wf b" "g \<in> set (b_mins b)"
  shows "b_addr b + 24 \<le> g_addr g" "g_end g \<le> b_end b" "g_wf g" "g_end g < two32"
  using assms laid_mem [of "b_addr b + 24" "b_mins b" "b_end b" g] by (auto simp: b_wf_def)

lemma b_usage_le: "b_wf b \<Longrightarrow> b_usage b \<le> b_pages b * 4096"
  using laid_usage [of "b_addr b + 24" "b_mins b" "b_end b"]
  by (auto simp: b_wf_def b_usage_def b_end_def)

subsection \<open>Headers in memory\<close>

fun g_first :: "gmin list \<Rightarrow> addr \<Rightarrow> addr" where
  "g_first [] q = q"
| "g_first (g # gs) q = g_addr g"

fun minors_rep :: "(addr \<rightharpoonup> minor) \<Rightarrow> addr \<Rightarrow> addr \<Rightarrow> gmin list \<Rightarrow> addr \<Rightarrow> bool" where
  "minors_rep mm M prv [] q \<longleftrightarrow> True"
| "minors_rep mm M prv (g # gs) q \<longleftrightarrow>
     mm (g_addr g) = Some \<lparr>mn_prev = prv, mn_next = g_first gs q, mn_block = M, mn_magic = LIBALLOC_MAGIC,
                           mn_size = g_size g, mn_req_size = g_req g\<rparr>
     \<and> minors_rep mm M (g_addr g) gs q"

fun g_last :: "addr \<Rightarrow> gmin list \<Rightarrow> addr" where
  "g_last prv [] = prv"
| "g_last prv (g # gs) = g_last (g_addr g) gs"

lemma g_first_append: "g_first (xs @ ys) q = g_first xs (g_first ys q)"
  by (cases xs) auto

lemma g_last_append [simp]: "g_last prv (xs @ g # ys) = g_last (g_addr g) ys"
  by (induction xs arbitrary: prv) auto

lemma minors_rep_append:
  "minors_rep mm M prv (xs @ ys) q \<longleftrightarrow>
     minors_rep mm M prv xs (g_first ys q) \<and> minors_rep mm M (g_last prv xs) ys q"
  by (induction xs arbitrary: prv) (auto simp: g_first_append)

lemma minors_rep_cong:
  "(\<And>g. g \<in> set gs \<Longrightarrow> mm' (g_addr g) = mm (g_addr g)) \<Longrightarrow> minors_rep mm' M prv gs q = minors_rep mm M prv gs q"
  by (induction gs arbitrary: prv) auto

fun b_first :: "gblk list \<Rightarrow> addr" where
  "b_first [] = NULL"
| "b_first (b # bs) = b_addr b"

fun b_last :: "addr \<Rightarrow> gblk list \<Rightarrow> addr" where
  "b_last prv [] = prv"
| "b_last prv (b # bs) = b_last (b_addr b) bs"

definition major_of :: "addr \<Rightarrow> gblk \<Rightarrow> addr \<Rightarrow> major" where
  "major_of prv b nxt = \<lparr>mj_prev = prv, mj_next = nxt, mj_pages = b_pages b, mj_size = b_pages b * 4096,
     mj_usage = b_usage b, mj_first = g_first (b_mins b) NULL\<rparr>"

fun majors_rep :: "(addr \<rightharpoonup> major) \<Rightarrow> addr \<Rightarrow> gblk list \<Rightarrow> addr \<Rightarrow> bool" where
  "majors_rep mm prv [] q \<longleftrightarrow> True"
| "majors_rep mm prv (b # bs) q \<longleftrightarrow>
     mm (b_addr b) = Some (major_of prv b (if bs = [] then q else b_first bs)) \<and> majors_rep mm (b_addr b) bs q"

lemma majors_rep_append:
  "majors_rep mm prv (xs @ ys) q \<longleftrightarrow>
     majors_rep mm prv xs (if ys = [] then q else b_first ys) \<and> majors_rep mm (b_last prv xs) ys q"
proof (induction xs arbitrary: prv)
  case (Cons b xs)
  then show ?case by (cases xs) auto
qed simp

lemma majors_rep_cong:
  "(\<And>b. b \<in> set bs \<Longrightarrow> mm' (b_addr b) = mm (b_addr b)) \<Longrightarrow> majors_rep mm' prv bs q = majors_rep mm prv bs q"
  by (induction bs arbitrary: prv) auto

definition aligns_rep :: "(addr \<rightharpoonup> nat \<times> nat) \<Rightarrow> gmin \<Rightarrow> bool" where
  "aligns_rep al g \<longleftrightarrow> al (g_ptr g) = Some (g_ptr g - (g_addr g + 24), g_aln g)"

definition heap_rep :: "'z liballoc_scheme \<Rightarrow> gblk list \<Rightarrow> bool" where
  "heap_rep s bs \<longleftrightarrow> l_memRoot s = b_first bs \<and> majors_rep (majors s) NULL bs NULL
     \<and> (\<forall>b\<in>set bs. minors_rep (minors s) (b_addr b) NULL (b_mins b) NULL \<and> (\<forall>g\<in>set (b_mins b). aligns_rep (aligns s) g))
     \<and> (l_bestBet s = NULL \<or> l_bestBet s \<in> b_addr ` set bs)"

lemma heap_wf_mem_cases:
  assumes "heap_wf (B1 @ b # B2)" "c \<in> set (B1 @ B2)" "g \<in> set (b_mins c)"
  shows "g_end g \<le> b_addr b \<or> b_end b \<le> g_addr g" "b_addr c \<noteq> b_addr b"
proof -
  have wf: "b_wf c" "b_wf b" "b_disjoint b c"
    using assms(1,2) unfolding heap_wf_middle by (auto simp: heap_wf_def)
  from b_wf_mem [OF wf(1) assms(3)] wf(3) show "g_end g \<le> b_addr b \<or> b_end b \<le> g_addr g"
    by (auto simp: b_disjoint_def)
  from wf show "b_addr c \<noteq> b_addr b"
    by (auto simp: b_disjoint_def b_wf_def b_end_def)
qed

lemma heap_wf_addr_neq:
  assumes "heap_wf (B1 @ b # B2)" "c \<in> set (B1 @ B2)"
  shows "b_addr c \<noteq> b_addr b"
proof -
  have "b_wf c" "b_wf b" "b_disjoint b c"
    using assms unfolding heap_wf_middle by (auto simp: heap_wf_def)
  then show ?thesis by (auto simp: b_disjoint_def b_wf_def b_end_def)
qed


subsection \<open>Placing a section\<close>

lemma and_pow2_minus_1: "(p :: nat) AND (2 ^ k - Suc 0) = p mod 2 ^ k"
  using take_bit_eq_mask [of k p] by (simp add: take_bit_eq_mod mask_eq_exp_minus_1)

lemma ALIGN_ok:
  assumes "aln = 2 ^ k" "1 < aln" "aln < 2 ^ 15" "ptr + 16 + aln < two32"
  obtains p where "ALIGN ptr aln s = (p, s\<lparr>aligns := (aligns s)(p \<mapsto> (p - ptr, aln))\<rparr>)"
    "p mod aln = 0" "ptr + 16 \<le> p" "p < ptr + 16 + aln"
proof -
  let ?q = "ptr + 16"
  define d where "d = ?q mod aln"
  define p where "p = (if d = 0 then ?q else ?q + (aln - d))"
  have d: "d < aln" using assms(2) by (simp add: d_def)
  have "?q + (aln - d) = aln * (?q div aln) + aln"
    using d mult_div_mod_eq [of aln ?q] unfolding d_def by linarith
  then have "p mod aln = 0" by (simp add: p_def d_def)
  moreover have "ptr + 16 \<le> p" "p < ptr + 16 + aln" using d assms(2) by (auto simp: p_def)
  moreover have "ALIGN ptr aln s = (p, s\<lparr>aligns := (aligns s)(p \<mapsto> (p - ptr, aln))\<rparr>)"
  proof -
    have q: "add32 ptr ALIGN_INFO = ?q" using assms(4) by (simp add: add32_small ALIGN_INFO_def)
    have "aln - 1 < two32" using assms(3) by (simp add: two32_def)
    then have and_d: "?q AND ((aln - Suc 0) mod two32) = d"
      unfolding d_def assms(1) by (simp add: and_pow2_minus_1)
    have sub: "sub32 aln d = aln - d"
      using d assms(3) by (intro sub32_small) (auto simp: two32_def)
    have add: "add32 ?q (aln - d) = ?q + (aln - d)"
      using assms(4) by (intro add32_small) linarith
    have small: "(aln - d + ALIGN_INFO) mod 65536 = 16 + (aln - d)" "aln mod 65536 = aln" "aln \<noteq> 0"
      using assms(2,3) by (simp_all add: ALIGN_INFO_def)
    have "ALIGN_INFO = 16" by (simp add: ALIGN_INFO_def)
    then have info: "ALIGN_INFO mod 65536 = 16" by simp
    show ?thesis
      by (cases "d = 0") (simp_all add: ALIGN_def Let_def q and_d sub add small info p_def)
  qed
  ultimately show thesis by (intro that)
qed

lemma UNALIGN_ok:
  assumes "aligns_rep (aligns s) g" "g_wf g" "g_ptr g < two32"
  shows "UNALIGN (g_ptr g) s = Some (g_addr g + 24)"
proof -
  have "sub32 (g_ptr g) (g_ptr g - (g_addr g + 24)) = g_addr g + 24"
    using assms(2,3) by (subst sub32_small) (auto simp: g_wf_def)
  then show ?thesis
    using assms(1,2) by (auto simp: UNALIGN_def aligns_rep_def g_wf_def ALIGN_INFO_def)
qed

lemma laid_distinct: "laid lo gs hi \<Longrightarrow> distinct (map g_addr gs)"
proof (induction gs arbitrary: lo)
  case (Cons g gs)
  then have "\<forall>h\<in>set gs. g_addr g < g_addr h"
    using laid_mem [of "g_end g" gs hi] by (fastforce simp: g_end_def)
  with Cons show ?case by auto
qed simp

text \<open>Sections of the other lists keep their headers when the bytes of a free range are retyped.\<close>

definition apart :: "gmin \<Rightarrow> nat \<Rightarrow> nat \<Rightarrow> bool" where
  "apart h lo hi \<longleftrightarrow> g_end h \<le> lo \<or> hi \<le> g_addr h"

lemma retype_apart:
  assumes "apart h lo hi" "g_wf h"
  shows "minors (retype lo hi s) (g_addr h) = minors s (g_addr h)"
    "aligns (retype lo hi s) (g_ptr h) = aligns s (g_ptr h)"
  using assms by (auto simp: retype_def apart_def g_wf_def g_end_def sizeof_minor_def ALIGN_INFO_def)

lemma apart_neq: "apart h lo hi \<Longrightarrow> lo < hi \<Longrightarrow> g_addr h \<noteq> lo"
  by (auto simp: apart_def g_end_def)

text \<open>
  \<open>insert_rep\<close>: if the links around the new section were set, the usage of its block updated and
  everything else of the headers kept, then memory represents the longer list.
\<close>

lemma insert_rep:
  assumes rep: "heap_rep s (B1 @ b # B2)" and wf: "heap_wf (B1 @ b # B2)"
    and b': "b' = b\<lparr>b_mins := gs\<rparr>"
    and maj: "majors s (b_addr b) = Some m0"
      "majors s' = (majors s)(b_addr b \<mapsto> m0\<lparr>mj_first := g_first gs NULL, mj_usage := b_usage b'\<rparr>)"
    and own: "minors_rep (minors s') (b_addr b) NULL gs NULL" "\<forall>g\<in>set gs. aligns_rep (aligns s') g"
    and other: "\<And>c h. c \<in> set (B1 @ B2) \<Longrightarrow> h \<in> set (b_mins c) \<Longrightarrow>
      minors s' (g_addr h) = minors s (g_addr h) \<and> aligns s' (g_ptr h) = aligns s (g_ptr h)"
    and rest: "l_memRoot s' = l_memRoot s" "l_bestBet s' = l_bestBet s"
  shows "heap_rep s' (B1 @ b' # B2)"
proof -
  have addr [simp]: "b_addr b' = b_addr b" by (simp add: b')
  have neq: "b_addr c \<noteq> b_addr b" if "c \<in> set (B1 @ B2)" for c
    using heap_wf_addr_neq [OF wf that] .
  have first: "b_first (B1 @ b' # B2) = b_first (B1 @ b # B2)" by (cases B1) auto
  from rep have mjs: "majors_rep (majors s) NULL (B1 @ b # B2) NULL" by (simp add: heap_rep_def)
  then have m0: "m0 = major_of (b_last NULL B1) b (if B2 = [] then NULL else b_first B2)"
    using maj(1) by (simp add: majors_rep_append)
  have keep: "majors_rep (majors s') prv B q = majors_rep (majors s) prv B q" if "set B \<subseteq> set (B1 @ B2)" for prv B q
    using neq that by (intro majors_rep_cong) (auto simp: maj(2) subset_iff)
  have "majors_rep (majors s') NULL (B1 @ b' # B2) NULL"
    using mjs by (simp add: majors_rep_append keep) (simp add: maj(2) m0 major_of_def b' b_usage_def)
  moreover have "minors_rep (minors s') (b_addr c) NULL (b_mins c) NULL \<and> (\<forall>g\<in>set (b_mins c). aligns_rep (aligns s') g)"
    if "c \<in> set (B1 @ b' # B2)" for c
  proof (cases "c = b'")
    case True
    with own show ?thesis by (simp add: b')
  next
    case False
    with that have c: "c \<in> set (B1 @ B2)" by auto
    then have "minors_rep (minors s') (b_addr c) NULL (b_mins c) NULL = minors_rep (minors s) (b_addr c) NULL (b_mins c) NULL"
      using other by (intro minors_rep_cong) blast
    with rep c other [OF c] show ?thesis by (auto simp: heap_rep_def aligns_rep_def)
  qed
  ultimately show ?thesis
    using rep rest first unfolding heap_rep_def by auto
qed


text \<open>The gap behind the sections \<open>xs\<close> of block \<open>b\<close>, and the sections around it.\<close>

definition gap_fits :: "gblk \<Rightarrow> gmin list \<Rightarrow> gmin list \<Rightarrow> nat \<Rightarrow> bool" where
  "gap_fits b xs ys sz \<longleftrightarrow> b_mins b = xs @ ys \<and>
     end_of (b_addr b + 24) xs + 24 + sz \<le> (if ys = [] then b_end b else g_addr (hd ys))"

lemma gap_bounds:
  assumes "b_wf b" "gap_fits b xs ys sz"
  shows "b_addr b + 24 \<le> end_of (b_addr b + 24) xs" "end_of (b_addr b + 24) xs + 24 + sz \<le> b_end b"
    "end_of (b_addr b + 24) xs + 24 + sz < two32"
proof -
  have l: "laid (b_addr b + 24) (xs @ ys) (b_end b)" "b_end b < two32"
    using assms by (auto simp: b_wf_def gap_fits_def)
  from laid_append l(1) have "laid (b_addr b + 24) xs (end_of (b_addr b + 24) xs)" by blast
  then show "b_addr b + 24 \<le> end_of (b_addr b + 24) xs" by (rule laid_le)
  have "ys \<noteq> [] \<Longrightarrow> g_end (hd ys) \<le> b_end b"
    using laid_mem [OF l(1), of "hd ys"] by simp
  then show "end_of (b_addr b + 24) xs + 24 + sz \<le> b_end b"
    using assms(2) by (auto simp: gap_fits_def g_end_def split: if_splits)
  with l(2) show "end_of (b_addr b + 24) xs + 24 + sz < two32" by simp
qed

lemma gap_apart:
  assumes "heap_wf (B1 @ b # B2)" "gap_fits b xs ys sz" "c \<in> set (B1 @ b # B2)" "h \<in> set (b_mins c)"
  shows "apart h (end_of (b_addr b + 24) xs) (end_of (b_addr b + 24) xs + 24 + sz)" "g_wf h"
proof -
  have wf: "b_wf b" "b_wf c" using assms(1,3) by (auto simp: heap_wf_def)
  note g = gap_bounds [OF wf(1) assms(2)]
  show "g_wf h" using b_wf_mem(3) [OF wf(2) assms(4)] .
  have l: "laid (b_addr b + 24) (xs @ ys) (b_end b)"
    using wf(1) assms(2) by (auto simp: b_wf_def gap_fits_def)
  show "apart h (end_of (b_addr b + 24) xs) (end_of (b_addr b + 24) xs + 24 + sz)"
  proof (cases "c = b")
    case True
    then consider "h \<in> set xs" | "h \<in> set ys" using assms(2,4) by (auto simp: gap_fits_def)
    then show ?thesis
    proof cases
      case 1
      then show ?thesis using laid_before [OF l] by (simp add: apart_def)
    next
      case 2
      then obtain y ys' where y: "ys = y # ys'" by (cases ys) auto
      with l have "g_addr y \<le> g_addr h"
        using 2 laid_mem [of "g_end y" ys' "b_end b" h] by (auto simp: laid_append g_end_def)
      with assms(2) y show ?thesis by (auto simp: apart_def gap_fits_def)
    qed
  next
    case False
    with assms(3) have "c \<in> set (B1 @ B2)" by auto
    from heap_wf_mem_cases(1) [OF assms(1) this assms(4)] g show ?thesis
      by (auto simp: apart_def)
  qed
qed

definition strip :: "'z liballoc_scheme \<Rightarrow> 'z liballoc_scheme" where
  "strip s = s\<lparr>majors := Map.empty, minors := Map.empty, aligns := Map.empty, l_inuse := 0\<rparr>"

text \<open>Two states that differ at most in the headers and in the running total.\<close>

definition frame_same :: "'z liballoc_scheme \<Rightarrow> 'z liballoc_scheme \<Rightarrow> bool" where
  "frame_same s s' \<longleftrightarrow> strip s = strip s'"

lemma frame_same_refl [simp]: "frame_same s s"
  by (simp add: frame_same_def)

lemma frame_same_trans: "frame_same s t \<Longrightarrow> frame_same t u \<Longrightarrow> frame_same s u"
  by (simp add: frame_same_def)

lemma frame_same_upd [simp]:
  "frame_same s (s'\<lparr>majors := a\<rparr>) = frame_same s s'" "frame_same s (s'\<lparr>minors := b\<rparr>) = frame_same s s'"
  "frame_same s (s'\<lparr>aligns := c\<rparr>) = frame_same s s'" "frame_same s (s'\<lparr>l_inuse := d\<rparr>) = frame_same s s'"
  by (simp_all add: frame_same_def strip_def)

lemma frame_same_fields:
  assumes "frame_same s s'"
  shows "l_memRoot s' = l_memRoot s" "l_bestBet s' = l_bestBet s" "heap_frames s' = heap_frames s"
    "kmalloc_lock s' = kmalloc_lock s" "kheap s' = kheap s" "kbytes s' = kbytes s" "l_allocated s' = l_allocated s"
proof -
  have "strip s = strip s'" using assms by (simp add: frame_same_def)
  from arg_cong [OF this, of l_memRoot] arg_cong [OF this, of l_bestBet] arg_cong [OF this, of heap_frames]
    arg_cong [OF this, of kmalloc_lock] arg_cong [OF this, of kheap] arg_cong [OF this, of kbytes]
    arg_cong [OF this, of l_allocated]
  show "l_memRoot s' = l_memRoot s" "l_bestBet s' = l_bestBet s" "heap_frames s' = heap_frames s"
    "kmalloc_lock s' = kmalloc_lock s" "kheap s' = kheap s" "kbytes s' = kbytes s" "l_allocated s' = l_allocated s"
    by (simp_all add: strip_def)
qed

text \<open>What a successful placement means, for a request of \<open>req\<close> bytes in a section of \<open>sz\<close> bytes.\<close>

definition placed_in ::
  "nat \<Rightarrow> nat \<Rightarrow> nat \<Rightarrow> gblk list \<Rightarrow> gblk \<Rightarrow> gblk list \<Rightarrow> addr \<Rightarrow> 'z liballoc_scheme \<Rightarrow> bool" where
  "placed_in aln req sz B1 b B2 p s' \<longleftrightarrow>
    (\<exists>xs ys g. b_mins b = xs @ ys \<and> g_size g = sz \<and> g_req g = req \<and> g_aln g = aln \<and> g_ptr g = p
       \<and> heap_wf (B1 @ b\<lparr>b_mins := xs @ g # ys\<rparr> # B2) \<and> heap_rep s' (B1 @ b\<lparr>b_mins := xs @ g # ys\<rparr> # B2))"

definition alignment_ok :: "nat \<Rightarrow> bool" where
  "alignment_ok aln \<longleftrightarrow> 1 < aln \<and> aln < 2 ^ 15 \<and> (\<exists>k. aln = 2 ^ k)"

lemma finish_minor_ok:
  assumes rep: "heap_rep s (B1 @ b # B2)" and wf: "heap_wf (B1 @ b # B2)" and gap: "gap_fits b xs ys sz"
    and sz: "sz = req + aln + 16" and aln: "alignment_ok aln"
    and new: "new = end_of (b_addr b + 24) xs" "g_addr g0 = new" "g_size g0 = sz" "g_req g0 = req"
    and s1: "majors s (b_addr b) = Some m0" "majors s1 = (majors s)(b_addr b \<mapsto> m0\<lparr>mj_first := g_first (xs @ g0 # ys) NULL\<rparr>)"
      "minors_rep (minors s1) (b_addr b) NULL (xs @ g0 # ys) NULL"
    and keep: "\<And>c h. c \<in> set (B1 @ B2) \<Longrightarrow> h \<in> set (b_mins c) \<Longrightarrow> minors s1 (g_addr h) = minors s (g_addr h)"
      "\<And>c h. c \<in> set (B1 @ b # B2) \<Longrightarrow> h \<in> set (b_mins c) \<Longrightarrow> aligns s1 (g_ptr h) = aligns s (g_ptr h)"
      "frame_same s s1" "l_inuse s1 = l_inuse s"
  shows "\<exists>p s'. finish_minor aln sz (b_addr b) new s1 = Some (p, s') \<and> placed_in aln req sz B1 b B2 p s' \<and> frame_same s s'
    \<and> l_inuse s' = (l_inuse s + sz) mod two64"
proof -
  have bwf: "b_wf b" using wf by (auto simp: heap_wf_def)
  note gb = gap_bounds [OF bwf gap, folded new(1)]
  have same: "l_memRoot s1 = l_memRoot s" "l_bestBet s1 = l_bestBet s"
    using frame_same_fields(1,2) [OF keep(3)] .
  define s2 where "s2 = s1\<lparr>majors := (majors s1)(b_addr b \<mapsto> m0\<lparr>mj_first := g_first (xs @ g0 # ys) NULL,
    mj_usage := add32 (mj_usage m0) (add32 sz sizeof_minor)\<rparr>), l_inuse := (l_inuse s1 + sz) mod two64\<rparr>"
  obtain k where k: "aln = 2 ^ k" "1 < aln" "aln < 2 ^ 15" using aln by (auto simp: alignment_ok_def)
  have room: "new + 24 + 16 + aln < two32" using gb(3) sz by linarith
  obtain p where A: "ALIGN (new + 24) aln s2 = (p, s2\<lparr>aligns := (aligns s2)(p \<mapsto> (p - (new + 24), aln))\<rparr>)"
    and p: "p mod aln = 0" "new + 24 + 16 \<le> p" "p < new + 24 + 16 + aln"
    using ALIGN_ok [OF k room] by metis
  define g where "g = g0\<lparr>g_ptr := p, g_aln := aln\<rparr>"
  define b' where "b' = b\<lparr>b_mins := xs @ g # ys\<rparr>"
  define s' where "s' = s2\<lparr>aligns := (aligns s2)(p \<mapsto> (p - (new + 24), aln))\<rparr>"
  have g: "g_addr g = new" "g_size g = sz" "g_req g = req" "g_ptr g = p" "g_aln g = aln"
    by (simp_all add: g_def new(2-4))
  have gwf: "g_wf g" using p k sz by (simp add: g_wf_def g g_end_def)
  have "laid (b_addr b + 24) (xs @ g # ys) (b_end b)"
    using gap bwf unfolding b_wf_def
    by (intro laid_insert) (auto simp: gap_fits_def g g_end_def new(1) split: if_splits)
  then have bwf': "b_wf b'"
    using bwf gwf gap by (auto simp: b_wf_def b'_def b_end_def gap_fits_def)
  then have wf': "heap_wf (B1 @ b' # B2)"
    using wf unfolding heap_wf_middle by (auto simp: b'_def b_disjoint_def b_end_def)
  have m0: "mj_usage m0 = b_usage b"
    using rep s1(1) by (auto simp: heap_rep_def majors_rep_append major_of_def)
  have "add32 (b_usage b) (add32 sz sizeof_minor) = b_usage b'"
  proof -
    have "b_usage b' = b_usage b + (sz + 24)" using gap by (auto simp: b_usage_def b'_def gap_fits_def g)
    moreover have "b_usage b' < two32"
      using b_usage_le [OF bwf'] bwf' by (simp add: b_wf_def b_end_def)
    ultimately show ?thesis by (simp add: add32_small sizeof_minor_def)
  qed
  then have maj: "majors s' = (majors s)(b_addr b \<mapsto> m0\<lparr>mj_first := g_first (xs @ g # ys) NULL, mj_usage := b_usage b'\<rparr>)"
    by (simp add: s'_def s2_def s1(2) m0 g_first_append g new(2))
  have ptr_neq: "g_ptr h \<noteq> p" if "c \<in> set (B1 @ b # B2)" "h \<in> set (b_mins c)" for c h
    using gap_apart [OF wf gap that] p sz by (auto simp: apart_def g_wf_def g_end_def new(1))
  have al: "aligns s' (g_ptr h) = aligns s (g_ptr h)" if "c \<in> set (B1 @ b # B2)" "h \<in> set (b_mins c)" for c h
    using ptr_neq [OF that] keep(2) [OF that] by (simp add: s'_def s2_def)
  have "heap_rep s' (B1 @ b' # B2)"
  proof (rule insert_rep [OF rep wf b'_def s1(1) maj])
    have "minors_rep mm M q (xs @ g # ys) r = minors_rep mm M q (xs @ g0 # ys) r" for mm M q r
      by (simp add: minors_rep_append g new)
    with s1(3) show "minors_rep (minors s') (b_addr b) NULL (xs @ g # ys) NULL"
      by (simp add: s'_def s2_def)
    show "\<forall>h\<in>set (xs @ g # ys). aligns_rep (aligns s') h"
    proof
      fix h assume "h \<in> set (xs @ g # ys)"
      then consider "h = g" | "h \<in> set (b_mins b)" using gap by (auto simp: gap_fits_def)
      then show "aligns_rep (aligns s') h"
      proof cases
        case 1
        then show ?thesis by (simp add: aligns_rep_def s'_def g)
      next
        case 2
        with rep al [of b h] show ?thesis by (simp add: heap_rep_def aligns_rep_def)
      qed
    qed
    show "minors s' (g_addr h) = minors s (g_addr h) \<and> aligns s' (g_ptr h) = aligns s (g_ptr h)"
      if "c \<in> set (B1 @ B2)" "h \<in> set (b_mins c)" for c h
    proof
      show "aligns s' (g_ptr h) = aligns s (g_ptr h)" using that by (intro al [of c]) auto
      show "minors s' (g_addr h) = minors s (g_addr h)" using keep(1) [OF that] by (simp add: s'_def s2_def)
    qed
  qed (use same in \<open>simp_all add: s'_def s2_def\<close>)
  then have "placed_in aln req sz B1 b B2 p s'"
    unfolding placed_in_def using wf' gap g by (auto simp: b'_def gap_fits_def)
  moreover have "finish_minor aln sz (b_addr b) new s1 = Some (p, s')"
    using A gb(3) by (simp add: finish_minor_def upd_major_def s1(2) s2_def s'_def sizeof_minor_def add32_small Let_def)
  moreover have "frame_same s s'" "l_inuse s' = (l_inuse s + sz) mod two64"
    using keep(3,4) by (simp_all add: s'_def s2_def)
  ultimately show ?thesis by blast
qed


text \<open>
  The state after the header of the new section was written (\<open>put_minor\<close>), with the facts that
  the four cases share. The update of the links around it depends on the case.
\<close>

definition new_minor :: "addr \<Rightarrow> nat \<Rightarrow> nat \<Rightarrow> addr \<Rightarrow> addr \<Rightarrow> minor" where
  "new_minor M sz req prv nxt = \<lparr>mn_prev = prv, mn_next = nxt, mn_block = M, mn_magic = LIBALLOC_MAGIC,
     mn_size = sz, mn_req_size = req\<rparr>"

definition g_new :: "addr \<Rightarrow> nat \<Rightarrow> nat \<Rightarrow> gmin" where
  "g_new a sz req = \<lparr>g_addr = a, g_size = sz, g_req = req, g_ptr = 0, g_aln = 0\<rparr>"

lemma g_new_simps [simp]: "g_addr (g_new a sz req) = a" "g_size (g_new a sz req) = sz" "g_req (g_new a sz req) = req"
  by (simp_all add: g_new_def)

lemma put_minor_keep:
  assumes "apart h a (a + 24 + mn_size m)" "g_wf h"
  shows "minors (put_minor a m s) (g_addr h) = minors s (g_addr h)"
    "aligns (put_minor a m s) (g_ptr h) = aligns s (g_ptr h)"
  using retype_apart [OF assms] apart_neq [OF assms(1)]
  by (simp_all add: put_minor_def Let_def sizeof_minor_def)

lemma put_minor_simps [simp]:
  "minors (put_minor a m s) a = Some m" "majors (put_minor a m s) = majors s"
  "l_inuse (put_minor a m s) = l_inuse s"
  by (simp_all add: put_minor_def Let_def retype_def)

lemma put_minor_frame [simp]: "frame_same s (put_minor a m s') = frame_same s s'"
  by (simp add: frame_same_def put_minor_def Let_def retype_def strip_def)


lemma minors_rep_insert:
  assumes rep: "minors_rep mm M NULL (xs @ ys) NULL"
    and new: "mm' (g_addr g) = Some (new_minor M (g_size g) (g_req g) (g_last NULL xs) (g_first ys NULL))"
    and left: "\<And>h. h \<in> set (butlast xs) \<Longrightarrow> mm' (g_addr h) = mm (g_addr h)"
      "xs \<noteq> [] \<Longrightarrow> mm' (g_addr (last xs)) = map_option (\<lambda>m. m\<lparr>mn_next := g_addr g\<rparr>) (mm (g_addr (last xs)))"
    and right: "\<And>h. h \<in> set (tl ys) \<Longrightarrow> mm' (g_addr h) = mm (g_addr h)"
      "ys \<noteq> [] \<Longrightarrow> mm' (g_addr (hd ys)) = map_option (\<lambda>m. m\<lparr>mn_prev := g_addr g\<rparr>) (mm (g_addr (hd ys)))"
  shows "minors_rep mm' M NULL (xs @ g # ys) NULL"
proof -
  have l: "minors_rep mm' M NULL xs (g_addr g)"
  proof (cases xs rule: rev_cases)
    case (snoc xs' x)
    have "minors_rep mm' M NULL xs' (g_addr x) = minors_rep mm M NULL xs' (g_addr x)"
      using left(1) snoc by (intro minors_rep_cong) auto
    with snoc rep left(2) show ?thesis by (auto simp: minors_rep_append)
  qed simp
  have r: "minors_rep mm' M (g_addr g) ys NULL"
  proof (cases ys)
    case (Cons y ys')
    have "minors_rep mm' M (g_addr y) ys' NULL = minors_rep mm M (g_addr y) ys' NULL"
      using right(1) Cons by (intro minors_rep_cong) auto
    with Cons rep right(2) show ?thesis by (auto simp: minors_rep_append)
  qed simp
  from l r new show ?thesis
    by (simp add: minors_rep_append new_minor_def)
qed

lemma heap_rep_block:
  assumes "heap_rep s (B1 @ b # B2)"
  shows "majors s (b_addr b) = Some (major_of (b_last NULL B1) b (if B2 = [] then NULL else b_first B2))"
    "minors_rep (minors s) (b_addr b) NULL (b_mins b) NULL"
    "\<And>g. g \<in> set (b_mins b) \<Longrightarrow> \<exists>r. minors s (g_addr g) = Some r"
proof -
  show "majors s (b_addr b) = Some (major_of (b_last NULL B1) b (if B2 = [] then NULL else b_first B2))"
    using assms by (simp add: heap_rep_def majors_rep_append)
  show m: "minors_rep (minors s) (b_addr b) NULL (b_mins b) NULL"
    using assms by (simp add: heap_rep_def)
  fix g assume "g \<in> set (b_mins b)"
  then obtain xs ys where "b_mins b = xs @ g # ys" by (meson split_list)
  with m show "\<exists>r. minors s (g_addr g) = Some r" by (simp add: minors_rep_append)
qed

text \<open>The addresses of the sections around a gap are different, and none lies in the gap.\<close>

lemma gap_distinct:
  assumes "heap_wf (B1 @ b # B2)" "gap_fits b xs ys sz"
  shows "distinct (map g_addr (xs @ ys))"
    "\<And>c h g. c \<in> set (B1 @ B2) \<Longrightarrow> h \<in> set (b_mins c) \<Longrightarrow> g \<in> set (xs @ ys) \<Longrightarrow> g_addr h \<noteq> g_addr g"
proof -
  have bwf: "b_wf b" using assms(1) by (auto simp: heap_wf_def)
  then have l: "laid (b_addr b + 24) (xs @ ys) (b_end b)" using assms(2) by (auto simp: b_wf_def gap_fits_def)
  then show "distinct (map g_addr (xs @ ys))" by (rule laid_distinct)
  fix c h g assume c: "c \<in> set (B1 @ B2)" "h \<in> set (b_mins c)" and g: "g \<in> set (xs @ ys)"
  from heap_wf_mem_cases(1) [OF assms(1) c] laid_mem [OF l g] show "g_addr h \<noteq> g_addr g"
    by (auto simp: g_end_def)
qed

lemma distinct_around:
  assumes "distinct (map f (xs @ ys))"
  shows "h \<in> set (butlast xs) \<Longrightarrow> f h \<noteq> f (last xs)" "h \<in> set xs \<Longrightarrow> ys \<noteq> [] \<Longrightarrow> f h \<noteq> f (hd ys)"
    "h \<in> set (tl ys) \<Longrightarrow> f h \<noteq> f (hd ys)" "h \<in> set ys \<Longrightarrow> xs \<noteq> [] \<Longrightarrow> f h \<noteq> f (last xs)"
proof -
  show "h \<in> set (butlast xs) \<Longrightarrow> f h \<noteq> f (last xs)"
    using assms by (cases xs rule: rev_cases) (auto simp: image_iff)
  show "h \<in> set (tl ys) \<Longrightarrow> f h \<noteq> f (hd ys)"
    using assms by (cases ys) (auto simp: image_iff)
  have "f x \<noteq> f y" if "x \<in> set xs" "y \<in> set ys" for x y
    using assms that by (auto simp: image_iff)
  then show "h \<in> set xs \<Longrightarrow> ys \<noteq> [] \<Longrightarrow> f h \<noteq> f (hd ys)" "h \<in> set ys \<Longrightarrow> xs \<noteq> [] \<Longrightarrow> f h \<noteq> f (last xs)"
    by (metis hd_in_set, metis last_in_set)
qed

lemma place_links:
  assumes rep: "heap_rep s (B1 @ b # B2)" and wf: "heap_wf (B1 @ b # B2)" and gap: "gap_fits b xs ys sz"
    and sz: "sz = req + aln + 16" and aln: "alignment_ok aln"
    and new: "new = end_of (b_addr b + 24) xs" "m = new_minor (b_addr b) sz req (g_last NULL xs) (g_first ys NULL)"
    and maj: "majors s1 = (majors s)(b_addr b \<mapsto> (the (majors s (b_addr b)))\<lparr>mj_first := (if xs = [] then new else g_addr (hd xs))\<rparr>)"
    and mn: "minors s1 = (\<lambda>a. if a = new then Some m
        else if xs \<noteq> [] \<and> a = g_addr (last xs) then map_option (\<lambda>m. m\<lparr>mn_next := new\<rparr>) (minors s a)
        else if ys \<noteq> [] \<and> a = g_addr (hd ys) then map_option (\<lambda>m. m\<lparr>mn_prev := new\<rparr>) (minors s a)
        else minors (put_minor new m s) a)"
    and al: "aligns s1 = aligns (put_minor new m s)" and fr: "frame_same s s1" "l_inuse s1 = l_inuse s"
  shows "\<exists>p s'. finish_minor aln sz (b_addr b) new s1 = Some (p, s') \<and> placed_in aln req sz B1 b B2 p s' \<and> frame_same s s'
    \<and> l_inuse s' = (l_inuse s + sz) mod two64"
proof -
  have mins: "b_mins b = xs @ ys" using gap by (simp add: gap_fits_def)
  have ap: "apart h new (new + 24 + mn_size m)" "g_wf h" if "c \<in> set (B1 @ b # B2)" "h \<in> set (b_mins c)" for c h
    using gap_apart [OF wf gap that] by (simp_all add: new new_minor_def)
  have neq: "g_addr h \<noteq> new" if "c \<in> set (B1 @ b # B2)" "h \<in> set (b_mins c)" for c h
    using apart_neq [OF ap(1) [OF that]] by simp
  have keep: "minors (put_minor new m s) (g_addr h) = minors s (g_addr h)"
    "aligns (put_minor new m s) (g_ptr h) = aligns s (g_ptr h)"
    if "c \<in> set (B1 @ b # B2)" "h \<in> set (b_mins c)" for c h
    using put_minor_keep ap [OF that] by blast+
  have dist: "distinct (map g_addr (xs @ ys))" using gap_distinct(1) [OF wf gap] .
  have other: "g_addr h \<noteq> g_addr g" if "c \<in> set (B1 @ B2)" "h \<in> set (b_mins c)" "g \<in> set (xs @ ys)" for c h g
    using gap_distinct(2) [OF wf gap that] .
  have inb: "c \<in> set (B1 @ b # B2)" if "c \<in> set (B1 @ B2)" for c using that by auto
  show ?thesis
  proof (rule finish_minor_ok [OF rep wf gap sz aln new(1), of "g_new new sz req"])
    show "majors s (b_addr b) = Some (the (majors s (b_addr b)))" using heap_rep_block(1) [OF rep] by simp
    show "majors s1 = (majors s)(b_addr b \<mapsto> (the (majors s (b_addr b)))\<lparr>mj_first := g_first (xs @ g_new new sz req # ys) NULL\<rparr>)"
      unfolding maj by (cases xs) simp_all
    show "minors_rep (minors s1) (b_addr b) NULL (xs @ g_new new sz req # ys) NULL"
    proof (rule minors_rep_insert)
      show "minors_rep (minors s) (b_addr b) NULL (xs @ ys) NULL"
        using heap_rep_block(2) [OF rep] mins by simp
      show "minors s1 (g_addr h) = minors s (g_addr h)" if "h \<in> set (butlast xs)" for h
      proof -
        have "h \<in> set (b_mins b)" using that mins by (auto dest: in_set_butlastD)
        moreover have "g_addr h \<noteq> g_addr (last xs)" "ys \<noteq> [] \<Longrightarrow> g_addr h \<noteq> g_addr (hd ys)"
          using that distinct_around(1,2) [OF dist] in_set_butlastD [OF that] by blast+
        ultimately show ?thesis using neq [of b h] keep(1) [of b h] by (auto simp: mn)
      qed
      show "minors s1 (g_addr h) = minors s (g_addr h)" if "h \<in> set (tl ys)" for h
      proof -
        have "h \<in> set (b_mins b)" using that mins by (cases ys) auto
        moreover have "xs \<noteq> [] \<Longrightarrow> g_addr h \<noteq> g_addr (last xs)" "g_addr h \<noteq> g_addr (hd ys)"
          using that distinct_around(3,4) [OF dist] list.set_sel(2) [of ys h] by (cases ys, auto)+
        ultimately show ?thesis using neq [of b h] keep(1) [of b h] by (auto simp: mn)
      qed
      show "minors s1 (g_addr (g_new new sz req)) = Some (new_minor (b_addr b) (g_size (g_new new sz req))
          (g_req (g_new new sz req)) (g_last NULL xs) (g_first ys NULL))"
        by (simp add: mn new(2))
      show "minors s1 (g_addr (last xs)) = map_option (\<lambda>m. m\<lparr>mn_next := g_addr (g_new new sz req)\<rparr>) (minors s (g_addr (last xs)))"
        if "xs \<noteq> []" using that neq [of b "last xs"] mins by (simp add: mn)
      show "minors s1 (g_addr (hd ys)) = map_option (\<lambda>m. m\<lparr>mn_prev := g_addr (g_new new sz req)\<rparr>) (minors s (g_addr (hd ys)))"
        if "ys \<noteq> []"
      proof -
        have "xs \<noteq> [] \<Longrightarrow> g_addr (hd ys) \<noteq> g_addr (last xs)"
          using that distinct_around(4) [OF dist, of "hd ys"] by simp
        with that neq [of b "hd ys"] mins show ?thesis by (auto simp: mn)
      qed
    qed
    show "minors s1 (g_addr h) = minors s (g_addr h)" if "c \<in> set (B1 @ B2)" "h \<in> set (b_mins c)" for c h
      using other [OF that, of "last xs"] other [OF that, of "hd ys"] neq [OF inb [OF that(1)] that(2)]
        keep(1) [OF inb [OF that(1)] that(2)] by (auto simp: mn)
    show "aligns s1 (g_ptr h) = aligns s (g_ptr h)" if "c \<in> set (B1 @ b # B2)" "h \<in> set (b_mins c)" for c h
      using keep(2) [OF that] by (simp add: al)
  qed (use fr in simp_all)
qed


subsection \<open>The cases of kmemalign\<close>

definition placement_ok ::
  "(addr \<times> 'z liballoc_scheme) option \<Rightarrow> nat \<Rightarrow> nat \<Rightarrow> nat \<Rightarrow> gblk list \<Rightarrow> gblk \<Rightarrow> gblk list \<Rightarrow> 'z liballoc_scheme \<Rightarrow> bool" where
  "placement_ok r aln req sz B1 b B2 s \<longleftrightarrow> (\<exists>p s'. r = Some (p, s') \<and> placed_in aln req sz B1 b B2 p s'
     \<and> frame_same s s' \<and> l_inuse s' = (l_inuse s + sz) mod two64)"

lemmas place_ok = place_links [folded placement_ok_def]

lemma minors_put:
  "minors (put_minor a m s) x = (if x = a then Some m
     else if a < x + 24 \<and> x < a + 24 + mn_size m then None else minors s x)"
  by (simp add: put_minor_def Let_def retype_def sizeof_minor_def)

lemma aligns_put_cong: "aligns s = aligns t \<Longrightarrow> mn_size m = mn_size m' \<Longrightarrow> aligns (put_minor a m s) = aligns (put_minor a m' t)"
  by (simp add: put_minor_def Let_def retype_def fun_eq_iff)

lemma new_minor_size [simp]: "mn_size (new_minor M sz req prv nxt) = sz"
  by (simp add: new_minor_def)

lemma add32_addr: "a + 24 + n < two32 \<Longrightarrow> add32 (add32 a sizeof_minor) n = a + 24 + n"
  by (simp add: add32_small sizeof_minor_def)

lemma major_first_addr:
  assumes "b_wf b" shows "add32 (b_addr b) sizeof_major = b_addr b + 24"
proof -
  have "b_addr b + 24 \<le> b_end b" using assms laid_le unfolding b_wf_def by blast
  then have "b_addr b + 24 < two32" using assms by (simp add: b_wf_def)
  then show ?thesis by (simp add: sizeof_major_def add32_small)
qed

lemma memalign_case2_ok:
  assumes "heap_rep s (B1 @ b # B2)" "heap_wf (B1 @ b # B2)" "gap_fits b [] [] sz"
    and "sz = req + aln + 16" "alignment_ok aln"
  shows "placement_ok (memalign_case2 aln req sz (b_addr b) s) aln req sz B1 b B2 s"
proof -
  let ?M = "b_addr b" and ?n = "b_addr b + 24"
  have bwf: "b_wf b" using assms(2) by (simp add: heap_wf_def)
  obtain mj where mj: "majors s ?M = Some mj" using heap_rep_block(1) [OF assms(1)] by simp
  define s1 where "s1 = put_minor ?n (new_minor ?M sz req NULL NULL) (s\<lparr>majors := (majors s)(?M \<mapsto> mj\<lparr>mj_first := ?n\<rparr>)\<rparr>)"
  have "memalign_case2 aln req sz ?M s = finish_minor aln sz ?M ?n s1"
    by (simp add: memalign_case2_def Let_def major_first_addr [OF bwf] upd_major_def mj s1_def new_minor_def)
  moreover have "placement_ok (finish_minor aln sz ?M ?n s1) aln req sz B1 b B2 s"
    by (rule place_ok [OF assms, where m = "new_minor ?M sz req NULL NULL"])
      (auto simp: s1_def mj fun_eq_iff minors_put intro!: aligns_put_cong [THEN fun_cong])
  ultimately show ?thesis by simp
qed

lemma memalign_case3_ok:
  assumes "heap_rep s (B1 @ b # B2)" "heap_wf (B1 @ b # B2)" "gap_fits b [] (y # ys) sz"
    and "sz = req + aln + 16" "alignment_ok aln"
  shows "placement_ok (memalign_case3 aln req sz (b_addr b) (g_addr y) s) aln req sz B1 b B2 s"
proof -
  let ?M = "b_addr b" and ?n = "b_addr b + 24"
  have bwf: "b_wf b" using assms(2) by (simp add: heap_wf_def)
  obtain mj where mj: "majors s ?M = Some mj" using heap_rep_block(1) [OF assms(1)] by simp
  obtain my where my: "minors s (g_addr y) = Some my"
    using heap_rep_block(3) [OF assms(1), of y] assms(3) by (auto simp: gap_fits_def)
  define t where "t = s\<lparr>minors := (minors s)(g_addr y \<mapsto> my\<lparr>mn_prev := ?n\<rparr>)\<rparr>"
  define s1 where "s1 = (put_minor ?n (new_minor ?M sz req NULL (g_addr y)) t)\<lparr>majors := (majors s)(?M \<mapsto> mj\<lparr>mj_first := ?n\<rparr>)\<rparr>"
  have "memalign_case3 aln req sz ?M (g_addr y) s = finish_minor aln sz ?M ?n s1"
    by (simp add: memalign_case3_def Let_def major_first_addr [OF bwf] upd_major_def upd_minor_def mj my
        s1_def t_def new_minor_def)
  moreover have "?n + 24 + sz \<le> g_addr y" using assms(3) by (simp add: gap_fits_def)
  then have "placement_ok (finish_minor aln sz ?M ?n s1) aln req sz B1 b B2 s"
    by (intro place_ok [OF assms, where m = "new_minor ?M sz req NULL (g_addr y)"])
      (auto simp: s1_def t_def mj my fun_eq_iff minors_put intro!: aligns_put_cong [THEN fun_cong])
  ultimately show ?thesis by simp
qed

lemma memalign_case41_ok:
  assumes "heap_rep s (B1 @ b # B2)" "heap_wf (B1 @ b # B2)" "gap_fits b (xs @ [l]) [] sz"
    and "sz = req + aln + 16" "alignment_ok aln"
  shows "placement_ok (memalign_case41 aln req sz (b_addr b) (g_addr l) s) aln req sz B1 b B2 s"
proof -
  let ?M = "b_addr b" and ?n = "g_end l"
  have bwf: "b_wf b" using assms(2) by (simp add: heap_wf_def)
  have n: "end_of (?M + 24) (xs @ [l]) = ?n" by (simp add: end_of_last)
  note gb = gap_bounds [OF bwf assms(3), unfolded n]
  have mins: "b_mins b = xs @ [l]" using assms(3) by (simp add: gap_fits_def)
  obtain mj where mj: "majors s ?M = Some mj" "mj_first mj = g_addr (hd (xs @ [l]))"
    using heap_rep_block(1) [OF assms(1)] mins by (cases xs) (auto simp: major_of_def)
  obtain ml where ml: "minors s (g_addr l) = Some ml" "mn_size ml = g_size l"
    using heap_rep_block(2) [OF assms(1)] mins by (auto simp: minors_rep_append)
  define t where "t = s\<lparr>minors := (minors s)(g_addr l \<mapsto> ml\<lparr>mn_next := ?n\<rparr>)\<rparr>"
  define s1 where "s1 = put_minor ?n (new_minor ?M sz req (g_addr l) NULL) t"
  have new: "add32 (add32 (g_addr l) sizeof_minor) (g_size l) = ?n"
    using gb(3) by (simp add: add32_addr g_end_def)
  have "memalign_case41 aln req sz ?M (g_addr l) s = finish_minor aln sz ?M ?n s1"
    by (simp add: memalign_case41_def Let_def upd_minor_def ml new s1_def t_def new_minor_def)
  moreover have same: "(majors s)(?M \<mapsto> mj\<lparr>mj_first := g_addr (hd (xs @ [l]))\<rparr>) = majors s"
    using mj by (auto simp: fun_eq_iff)
  have "placement_ok (finish_minor aln sz ?M ?n s1) aln req sz B1 b B2 s"
    by (rule place_ok [OF assms n [symmetric], where m = "new_minor ?M sz req (g_addr l) NULL"])
      (auto simp: s1_def t_def mj(1) ml same fun_eq_iff minors_put g_end_def intro!: aligns_put_cong [THEN fun_cong])
  ultimately show ?thesis by simp
qed

lemma memalign_case42_ok:
  assumes "heap_rep s (B1 @ b # B2)" "heap_wf (B1 @ b # B2)" "gap_fits b (xs @ [l]) (y # ys) sz"
    and "sz = req + aln + 16" "alignment_ok aln"
  shows "placement_ok (memalign_case42 aln req sz (b_addr b) (g_addr l) s) aln req sz B1 b B2 s"
proof -
  let ?M = "b_addr b" and ?n = "g_end l"
  have bwf: "b_wf b" using assms(2) by (simp add: heap_wf_def)
  have n: "end_of (?M + 24) (xs @ [l]) = ?n" by (simp add: end_of_last)
  note gb = gap_bounds [OF bwf assms(3), unfolded n]
  have mins: "b_mins b = xs @ l # y # ys" using assms(3) by (simp add: gap_fits_def)
  obtain mj where mj: "majors s ?M = Some mj" "mj_first mj = g_addr (hd (xs @ [l]))"
    using heap_rep_block(1) [OF assms(1)] mins by (cases xs) (auto simp: major_of_def)
  obtain ml my where ml: "minors s (g_addr l) = Some ml" "mn_size ml = g_size l" "mn_next ml = g_addr y"
    and my: "minors s (g_addr y) = Some my"
    using heap_rep_block(2) [OF assms(1)] mins by (auto simp: minors_rep_append)
  have gap: "?n + 24 + sz \<le> g_addr y" using assms(3) n by (simp add: gap_fits_def)
  define t where "t = put_minor ?n (new_minor ?M sz req (g_addr l) (g_addr y)) s"
  have t: "minors t (g_addr y) = Some my" "minors t (g_addr l) = Some ml" "g_addr l \<noteq> g_addr y"
    using gap ml(1) my by (auto simp: t_def minors_put g_end_def)
  define s1 where "s1 = t\<lparr>minors := (minors t)(g_addr y \<mapsto> my\<lparr>mn_prev := ?n\<rparr>, g_addr l \<mapsto> ml\<lparr>mn_next := ?n\<rparr>)\<rparr>"
  have new: "add32 (add32 (g_addr l) sizeof_minor) (g_size l) = ?n"
    using gb(3) by (simp add: add32_addr g_end_def)
  have "memalign_case42 aln req sz ?M (g_addr l) s = finish_minor aln sz ?M ?n s1"
    using t(1) t(2,3) by (simp add: memalign_case42_def Let_def upd_minor_def ml new s1_def t_def new_minor_def)
  moreover have same: "(majors s)(?M \<mapsto> mj\<lparr>mj_first := g_addr (hd (xs @ [l]))\<rparr>) = majors s"
    using mj by (auto simp: fun_eq_iff)
  have "placement_ok (finish_minor aln sz ?M ?n s1) aln req sz B1 b B2 s"
    using gap ml(1) my
    by (intro place_ok [OF assms n [symmetric], where m = "new_minor ?M sz req (g_addr l) (g_addr y)"])
      (auto simp: s1_def t_def mj(1) same fun_eq_iff minors_put g_end_def)
  ultimately show ?thesis by simp
qed


definition tried_ok ::
  "(addr \<times> 'z liballoc_scheme) option option \<Rightarrow> nat \<Rightarrow> nat \<Rightarrow> nat \<Rightarrow> gblk list \<Rightarrow> gblk \<Rightarrow> gblk list \<Rightarrow> 'z liballoc_scheme \<Rightarrow> bool" where
  "tried_ok r aln req sz B1 b B2 s \<longleftrightarrow>
     r = Some None \<or> (\<exists>x. r = Some (Some x) \<and> placement_ok (Some x) aln req sz B1 b B2 s)"

lemma tried_okI: "placement_ok r aln req sz B1 b B2 s \<Longrightarrow> tried_ok (Option.bind r (\<lambda>x. Some (Some x))) aln req sz B1 b B2 s"
  by (auto simp: placement_ok_def tried_ok_def)

lemma sub32_gap:
  "a + 24 + n \<le> e \<Longrightarrow> e < two32 \<Longrightarrow> sub32 (sub32 (sub32 e a) sizeof_minor) n = e - (a + 24 + n)"
  by (simp add: sub32_small sizeof_minor_def)

lemma memalign_case4_ok:
  assumes "heap_rep s (B1 @ b # B2)" "heap_wf (B1 @ b # B2)" "b_mins b = xs @ l # ys"
    and "sz = req + aln + 16" "alignment_ok aln" "sz + 24 < two32"
  shows "tried_ok (memalign_case4 aln req sz (b_addr b) (g_addr l) s) aln req sz B1 b B2 s"
  using assms(3)
proof (induction ys arbitrary: xs l)
  case Nil
  let ?M = "b_addr b"
  have bwf: "b_wf b" using assms(2) by (simp add: heap_wf_def)
  have lb: "?M + 24 \<le> g_addr l" "g_end l \<le> b_end b" "b_end b < two32"
    using b_wf_mem [OF bwf, of l] bwf Nil by (auto simp: b_wf_def)
  obtain mj where mj: "majors s ?M = Some mj" "mj_size mj = b_pages b * 4096"
    using heap_rep_block(1) [OF assms(1)] by (simp add: major_of_def)
  obtain ml where ml: "minors s (g_addr l) = Some ml" "mn_size ml = g_size l" "mn_next ml = NULL"
    using heap_rep_block(2) [OF assms(1)] Nil by (auto simp: minors_rep_append)
  have "add32 ?M (mj_size mj) = b_end b" using lb(3) by (simp add: mj b_end_def add32_small)
  then have diff: "sub32 (sub32 (sub32 (add32 ?M (mj_size mj)) (g_addr l)) sizeof_minor) (g_size l) = b_end b - g_end l"
    using lb by (simp add: sub32_gap g_end_def)
  have step: "memalign_case4 aln req sz ?M (g_addr l) s =
      (if sz + 24 \<le> b_end b - g_end l
       then Option.bind (memalign_case41 aln req sz ?M (g_addr l) s) (\<lambda>r. Some (Some r)) else Some None)"
    using lb(1) assms(6) ml mj diff
    by (subst memalign_case4.simps) (simp add: Let_def sizeof_minor_def add32_small)
  show ?case
  proof (cases "sz + 24 \<le> b_end b - g_end l")
    case True
    then have "gap_fits b (xs @ [l]) [] sz" using Nil lb by (simp add: gap_fits_def end_of_last)
    from memalign_case41_ok [OF assms(1,2) this assms(4,5)] True show ?thesis
      unfolding step by (simp add: tried_okI)
  next
    case False
    then show ?thesis unfolding step by (simp add: tried_ok_def)
  qed
next
  case (Cons y ys)
  let ?M = "b_addr b"
  have bwf: "b_wf b" using assms(2) by (simp add: heap_wf_def)
  have lay: "laid (?M + 24) ((xs @ [l]) @ y # ys) (b_end b)" using bwf Cons.prems by (simp add: b_wf_def)
  have lb: "?M + 24 \<le> g_addr l" "g_end l \<le> g_addr y" "g_addr y < two32"
    using b_wf_mem [OF bwf, of l] b_wf_mem [OF bwf, of y] lay Cons.prems
    by (auto simp: laid_append end_of_last g_end_def)
  obtain mj where mj: "majors s ?M = Some mj" using heap_rep_block(1) [OF assms(1)] by simp
  obtain ml where ml: "minors s (g_addr l) = Some ml" "mn_size ml = g_size l" "mn_next ml = g_addr y"
    using heap_rep_block(2) [OF assms(1)] Cons.prems by (auto simp: minors_rep_append)
  have diff: "sub32 (sub32 (sub32 (g_addr y) (g_addr l)) sizeof_minor) (g_size l) = g_addr y - g_end l"
    using lb by (simp add: sub32_gap g_end_def)
  have step: "memalign_case4 aln req sz ?M (g_addr l) s =
      (if sz + 24 \<le> g_addr y - g_end l
       then Option.bind (memalign_case42 aln req sz ?M (g_addr l) s) (\<lambda>r. Some (Some r))
       else memalign_case4 aln req sz ?M (g_addr y) s)"
    using lb assms(6) ml mj diff
    by (subst memalign_case4.simps) (simp add: Let_def sizeof_minor_def add32_small g_end_def)
  show ?case
  proof (cases "sz + 24 \<le> g_addr y - g_end l")
    case True
    then have "gap_fits b (xs @ [l]) (y # ys) sz" using Cons.prems lb by (simp add: gap_fits_def end_of_last)
    from memalign_case42_ok [OF assms(1,2) this assms(4,5)] True show ?thesis
      unfolding step by (simp add: tried_okI)
  next
    case False
    then show ?thesis unfolding step using Cons.IH [of "xs @ [l]" y] Cons.prems by simp
  qed
qed

lemma memalign_place_ok:
  assumes "heap_rep s (B1 @ b # B2)" "heap_wf (B1 @ b # B2)"
    and "sz = req + aln + 16" "alignment_ok aln" "sz + 24 < two32" "b_mins b = [] \<Longrightarrow> sz + 48 \<le> b_pages b * 4096"
  shows "tried_ok (memalign_place aln req sz (b_addr b) s) aln req sz B1 b B2 s"
proof -
  let ?M = "b_addr b"
  have bwf: "b_wf b" using assms(2) by (simp add: heap_wf_def)
  obtain mj where mj: "majors s ?M = Some mj" "mj_first mj = g_first (b_mins b) NULL"
    using heap_rep_block(1) [OF assms(1)] by (simp add: major_of_def)
  show ?thesis
  proof (cases "b_mins b")
    case Nil
    then have "gap_fits b [] [] sz" using assms(6) by (simp add: gap_fits_def b_end_def)
    from memalign_case2_ok [OF assms(1,2) this assms(3,4)] mj Nil show ?thesis
      by (simp add: memalign_place_def tried_okI)
  next
    case (Cons y ys)
    have yb: "?M + 24 \<le> g_addr y" "g_end y < two32" using b_wf_mem [OF bwf, of y] Cons by auto
    have diff: "sub32 (sub32 (g_addr y) ?M) sizeof_major = g_addr y - (?M + 24)"
      using yb by (simp add: sub32_small sizeof_major_def g_end_def)
    have step: "memalign_place aln req sz ?M s =
        (if sz + 24 \<le> g_addr y - (?M + 24)
         then Option.bind (memalign_case3 aln req sz ?M (g_addr y) s) (\<lambda>r. Some (Some r))
         else memalign_case4 aln req sz ?M (g_addr y) s)"
      using mj Cons yb assms(5) diff
      by (simp add: memalign_place_def sizeof_minor_def add32_small)
    show ?thesis
    proof (cases "sz + 24 \<le> g_addr y - (?M + 24)")
      case True
      then have "gap_fits b [] (y # ys) sz" using Cons yb(1) by (simp add: gap_fits_def)
      from memalign_case3_ok [OF assms(1,2) this assms(3,4)] True show ?thesis
        unfolding step by (simp add: tried_okI)
    next
      case False
      with memalign_case4_ok [OF assms(1,2) _ assms(3-5), of "[]" y ys] Cons show ?thesis
        unfolding step by simp
    qed
  qed
qed

text \<open>A block without sections takes every request that is not larger than its free space.\<close>

lemma memalign_place_fresh:
  assumes "heap_rep s (B1 @ b # B2)" "heap_wf (B1 @ b # B2)"
    and "sz = req + aln + 16" "alignment_ok aln" "b_mins b = []" "sz + 48 \<le> b_pages b * 4096"
  shows "\<exists>x. memalign_place aln req sz (b_addr b) s = Some (Some x) \<and> placement_ok (Some x) aln req sz B1 b B2 s"
proof -
  obtain mj where mj: "majors s (b_addr b) = Some mj" "mj_first mj = NULL"
    using heap_rep_block(1) [OF assms(1)] assms(5) by (simp add: major_of_def)
  have "gap_fits b [] [] sz" using assms(5,6) by (simp add: gap_fits_def b_end_def)
  from memalign_case2_ok [OF assms(1,2) this assms(3,4)] mj show ?thesis
    by (auto simp: memalign_place_def placement_ok_def)
qed

end
