(* ===== verification/Kmalloc_Frames.thy ===== *)
theory Kmalloc_Frames
  imports Kmalloc_Inv
begin

section \<open>The kernel heap: pages\<close>

text \<open>
  The bitmap of heap pages and the blocks made of them. A region is a pair of the number of its
  first page and of its length. \<open>frames_inv\<close> is about every region ever taken, since
  \<^verbatim>\<open>liballoc_free\<close> never clears the bits of the block it is given but the bit of the page behind
  it: the pages of a region stay marked, except perhaps the first one, and that only if another
  region ends right before it. This is just enough to keep new blocks apart from old ones.
\<close>

definition heap_page :: "nat \<Rightarrow> addr" where
  "heap_page k = KHEAP_START + k * 4096"

definition page_limit :: nat where
  "page_limit = 100000"

lemma heap_page_lt: "k \<le> 165536 \<Longrightarrow> heap_page k < two32"
  by (simp add: heap_page_def KHEAP_START_def two32_def)

lemma heap_page_add: "heap_page k + n * 4096 = heap_page (k + n)"
  by (simp add: heap_page_def)

lemma heap_page_add32:
  "k + j \<le> 165536 \<Longrightarrow> add32 (heap_page k) (j * PAGE_SIZE) = heap_page (k + j)"
  using heap_page_lt [of "k + j"]
  by (simp add: add32_small PAGE_SIZE_def heap_page_add)

lemma heap_frame_page: "k \<le> 165536 \<Longrightarrow> heap_frame (heap_page k) = k"
  using heap_page_lt [of k] by (simp add: heap_frame_def sub32_small heap_page_def PAGE_SIZE_def)

lemma heap_frame_index: "k \<le> 165536 \<Longrightarrow> INDEX_FROM_BIT k < NFRAMES"
  by (simp add: INDEX_FROM_BIT_div NFRAMES_def paging_consts)

lemma test_heap_frame_page: "k \<le> 165536 \<Longrightarrow> test_heap_frame (heap_page k) s = Some (bm_test k (heap_frames s))"
  by (simp add: test_heap_frame_def heap_frame_page heap_frame_index)

subsection \<open>The search\<close>

lemma frames_bad_ok:
  assumes "k < 65536" "n \<le> page_limit"
  shows "frames_bad (heap_page k) n j s = Some (\<exists>i. j \<le> i \<and> i < n \<and> bm_test (k + i) (heap_frames s))"
proof (induction "n - j" arbitrary: j)
  case 0
  then show ?case by (auto simp: frames_bad.simps [of _ _ j])
next
  case (Suc d)
  then have j: "j < n" "k + j \<le> 165536" using assms by (auto simp: page_limit_def)
  have "add32 (heap_page k) (PAGE_SIZE * j) = heap_page (k + j)"
    using heap_page_add32 [OF j(2)] by (simp add: mult.commute)
  then have step: "frames_bad (heap_page k) n j s =
      (if bm_test (k + j) (heap_frames s) then Some True else frames_bad (heap_page k) n (j + 1) s)"
    using j by (simp add: frames_bad.simps [of _ _ j] test_heap_frame_page)
  have "frames_bad (heap_page k) n (j + 1) s = Some (\<exists>i. j + 1 \<le> i \<and> i < n \<and> bm_test (k + i) (heap_frames s))"
    using Suc by (intro Suc.hyps(1)) simp
  then show ?case
    unfolding step ex_from_split [OF j(1), of "\<lambda>i. bm_test (k + i) (heap_frames s)"] by auto
qed

definition run_clear :: "bitmap \<Rightarrow> nat \<Rightarrow> nat \<Rightarrow> bool" where
  "run_clear H k n \<longleftrightarrow> (\<forall>j < n. \<not> bm_test (k + j) H)"

lemma first_n_frames_from_ok:
  assumes "k \<le> 65536" "n \<le> page_limit"
  shows "\<exists>r. first_n_frames_from (heap_page k) n s = Some r \<and>
    ((r = 0xFFFFFFFF \<and> (\<forall>m. k \<le> m \<and> m < 65536 \<longrightarrow> \<not> run_clear (heap_frames s) m n))
     \<or> (\<exists>m < 65536. r = heap_page m \<and> run_clear (heap_frames s) m n))"
  using assms(1)
proof (induction "65536 - k" arbitrary: k)
  case 0
  then have k: "k = 65536" by simp
  have "\<not> heap_page 65536 < KHEAP_MAX" by (simp add: heap_page_def paging_consts)
  then have "first_n_frames_from (heap_page k) n s = Some 0xFFFFFFFF"
    by (simp add: k first_n_frames_from.simps [of "heap_page 65536"])
  with k show ?case by auto
next
  case (Suc d)
  then have k: "k < 65536" by simp
  have next_page: "heap_page k + PAGE_SIZE = heap_page (k + 1)" by (simp add: heap_page_def PAGE_SIZE_def)
  have "heap_page k < KHEAP_MAX" using k by (simp add: heap_page_def paging_consts)
  then have step: "first_n_frames_from (heap_page k) n s =
      (if run_clear (heap_frames s) k n then Some (heap_page k) else first_n_frames_from (heap_page (k + 1)) n s)"
    using next_page by (auto simp: first_n_frames_from.simps [of "heap_page k"] frames_bad_ok [OF k assms(2)] run_clear_def)
  show ?case
  proof (cases "run_clear (heap_frames s) k n")
    case True
    with step k show ?thesis by auto
  next
    case False
    have "\<exists>r. first_n_frames_from (heap_page (k + 1)) n s = Some r \<and>
      ((r = 0xFFFFFFFF \<and> (\<forall>m. k + 1 \<le> m \<and> m < 65536 \<longrightarrow> \<not> run_clear (heap_frames s) m n))
       \<or> (\<exists>m < 65536. r = heap_page m \<and> run_clear (heap_frames s) m n))"
      using Suc by (intro Suc.hyps(1)) auto
    moreover have "\<not> run_clear (heap_frames s) m n" if "\<forall>m. k + 1 \<le> m \<and> m < 65536 \<longrightarrow> \<not> run_clear (heap_frames s) m n"
      "k \<le> m" "m < 65536" for m
      using that False by (cases "m = k") auto
    ultimately show ?thesis using step False by auto
  qed
qed

lemma first_n_frames_cases:
  assumes "n \<le> page_limit"
  obtains "first_n_frames n s = Some 0xFFFFFFFF" "\<And>m. m < 65536 \<Longrightarrow> \<not> run_clear (heap_frames s) m n"
  | m where "first_n_frames n s = Some (heap_page m)" "m < 65536" "run_clear (heap_frames s) m n"
proof -
  have "heap_page 0 = KHEAP_START" by (simp add: heap_page_def)
  with first_n_frames_from_ok [of 0 n s] assms that show thesis
    by (auto simp: first_n_frames_def)
qed

subsection \<open>Mapping the pages\<close>

definition headers_same :: "'z liballoc_scheme \<Rightarrow> 'z liballoc_scheme \<Rightarrow> bool" where
  "headers_same s s' \<longleftrightarrow> majors s' = majors s \<and> minors s' = minors s \<and> aligns s' = aligns s
     \<and> l_memRoot s' = l_memRoot s \<and> l_bestBet s' = l_bestBet s \<and> l_inuse s' = l_inuse s
     \<and> l_allocated s' = l_allocated s \<and> kmalloc_lock s' = kmalloc_lock s \<and> kheap s' = kheap s \<and> kbytes s' = kbytes s"

lemma headers_same_refl [simp]: "headers_same s s"
  by (simp add: headers_same_def)

lemma headers_same_trans: "headers_same s t \<Longrightarrow> headers_same t u \<Longrightarrow> headers_same s u"
  by (simp add: headers_same_def)

lemma alloc_frame_same:
  "alloc_frame pp kern rw s = Some s' \<Longrightarrow> headers_same s s' \<and> heap_frames s' = heap_frames s"
  for s :: "'z liballoc_scheme"
  by (auto simp: alloc_frame_def headers_same_def lock_frames_def unlock_frames_def set_frame_def put_page_def
      Let_def split: bind_splits if_splits option.splits)

lemma free_frame_same:
  "free_frame pp s = Some s' \<Longrightarrow> headers_same s s' \<and> heap_frames s' = heap_frames s"
  for s :: "'z liballoc_scheme"
  by (auto simp: free_frame_def headers_same_def clear_frame_def put_page_def
      Let_def split: bind_splits if_splits option.splits)

lemma get_page_no_heap:
  "get_page no_heap a mk d s = Some (pp, s') \<Longrightarrow> kheap s \<Longrightarrow> s' = s"
  by (auto simp: get_page_def paging_memalign_def no_heap_def Let_def split: bind_splits if_splits)

lemma liballoc_map_ok:
  assumes "liballoc_map (heap_page k) is s = Some s'" "kheap s" "\<forall>i\<in>set is. k + i \<le> 165536"
  shows "headers_same s s' \<and> (\<forall>j. bm_test j (heap_frames s') \<longleftrightarrow> bm_test j (heap_frames s) \<or> (\<exists>i\<in>set is. j = k + i))"
  using assms
proof (induction "is" arbitrary: s)
  case (Cons i "is")
  have page: "add32 (heap_page k) (i * PAGE_SIZE) = heap_page (k + i)" "k + i \<le> 165536"
    using Cons.prems(3) by (simp_all add: heap_page_add32)
  from Cons.prems(1) obtain pp s1 s2 where
    "get_page no_heap (heap_page (k + i)) True (kernel_dir s) s = Some (Some pp, s1)"
    and a: "alloc_frame pp True True s1 = Some s2"
    and rest: "liballoc_map (heap_page k) is (s2\<lparr>heap_frames := bm_set (k + i) (heap_frames s2)\<rparr>) = Some s'"
    using page by (auto simp: set_heap_frame_def heap_frame_page heap_frame_index split: bind_splits)
  then have "s1 = s" using get_page_no_heap Cons.prems(2) by blast
  with alloc_frame_same [OF a] have same: "headers_same s s2" "heap_frames s2 = heap_frames s" by simp_all
  define t where "t = s2\<lparr>heap_frames := bm_set (k + i) (heap_frames s2)\<rparr>"
  have t: "headers_same s t" "heap_frames t = bm_set (k + i) (heap_frames s)"
    using same by (simp_all add: t_def headers_same_def)
  then have "kheap t" using Cons.prems(2) by (simp add: headers_same_def)
  with Cons.IH [OF rest [folded t_def]] Cons.prems(3) t show ?case
    by (auto intro: headers_same_trans)
qed simp


subsection \<open>Regions\<close>

type_synonym region = "nat \<times> nat"

definition region_disjoint :: "region \<Rightarrow> region \<Rightarrow> bool" where
  "region_disjoint r q \<longleftrightarrow> fst r + snd r \<le> fst q \<or> fst q + snd q \<le> fst r"

definition region_marked :: "bitmap \<Rightarrow> region set \<Rightarrow> region \<Rightarrow> bool" where
  "region_marked H R r \<longleftrightarrow> 2 \<le> snd r \<and> fst r < 65536 \<and> snd r \<le> page_limit
     \<and> (\<forall>j. 0 < j \<and> j < snd r \<longrightarrow> bm_test (fst r + j) H)
     \<and> (bm_test (fst r) H \<or> (\<exists>q\<in>R. fst q + snd q = fst r))"

definition frames_inv :: "bitmap \<Rightarrow> region set \<Rightarrow> bool" where
  "frames_inv H R \<longleftrightarrow> (\<forall>r\<in>R. region_marked H R r) \<and> (\<forall>r\<in>R. \<forall>q\<in>R. r \<noteq> q \<longrightarrow> region_disjoint r q)"

lemma run_clear_disjoint:
  assumes inv: "frames_inv H R" and run: "run_clear H k n" "2 \<le> n" and r: "r \<in> R"
  shows "region_disjoint (k, n) r"
proof (rule ccontr)
  assume "\<not> region_disjoint (k, n) r"
  then have ov: "fst r < k + n" "k < fst r + snd r" by (auto simp: region_disjoint_def)
  have m: "region_marked H R r" using inv r by (auto simp: frames_inv_def)
  have clear: "\<not> bm_test f H" if "k \<le> f" "f < k + n" for f
    using run(1) that by (auto simp: run_clear_def dest!: spec [of _ "f - k"])
  have marked: "bm_test f H" if "q \<in> R" "fst q < f" "f < fst q + snd q" for f q
    using inv that by (auto simp: frames_inv_def region_marked_def dest!: bspec [of R _ q] spec [of _ "f - fst q"])
  show False
  proof (cases "fst r < k")
    case True
    then show False using clear [of k] marked [OF r, of k] ov run(2) by auto
  next
    case False
    have last: "fst r + 1 = k + n"
    proof (rule ccontr)
      assume "fst r + 1 \<noteq> k + n"
      with ov False m show False
        using clear [of "fst r + 1"] marked [OF r, of "fst r + 1"] by (auto simp: region_marked_def)
    qed
    have "\<not> bm_test (fst r) H" using clear [of "fst r"] False ov by simp
    with m obtain q where q: "q \<in> R" "fst q + snd q = fst r" by (auto simp: region_marked_def)
    then have "2 \<le> snd q" using inv by (auto simp: frames_inv_def region_marked_def)
    with q have "bm_test (fst r - 1) H" by (intro marked [OF q(1)]) auto
    moreover have "\<not> bm_test (fst r - 1) H" using last run(2) by (intro clear) auto
    ultimately show False by simp
  qed
qed

lemma frames_inv_alloc:
  assumes "frames_inv H R" "run_clear H k n" "2 \<le> n" "k < 65536" "n \<le> page_limit"
    and "\<And>j. bm_test j H' \<longleftrightarrow> bm_test j H \<or> (k \<le> j \<and> j < k + n)"
  shows "frames_inv H' (insert (k, n) R)"
proof -
  have "region_marked H' (insert (k, n) R) r" if "r \<in> R" for r
    using assms(1,6) that by (auto simp: frames_inv_def region_marked_def)
  moreover have "region_marked H' (insert (k, n) R) (k, n)"
    using assms(3-6) by (auto simp: region_marked_def)
  ultimately show ?thesis
    using assms(1) run_clear_disjoint [OF assms(1-3)]
    by (auto simp: frames_inv_def region_disjoint_def)
qed

lemma frames_inv_free:
  assumes "frames_inv H R" "(k, n) \<in> R" "\<And>j. bm_test j H' \<longleftrightarrow> bm_test j H \<and> j \<noteq> k + n"
  shows "frames_inv H' R"
proof -
  have "region_marked H' R r" if r: "r \<in> R" for r
  proof -
    have m: "region_marked H R r" using assms(1) r by (auto simp: frames_inv_def)
    have "fst r + j \<noteq> k + n" if "0 < j" "j < snd r" for j
    proof
      assume eq: "fst r + j = k + n"
      have "2 \<le> n" using assms(1,2) by (auto simp: frames_inv_def region_marked_def)
      moreover have "r = (k, n) \<or> region_disjoint r (k, n)" using assms(1,2) r by (auto simp: frames_inv_def)
      ultimately show False using eq that by (auto simp: region_disjoint_def)
    qed
    moreover have "fst r = k + n \<Longrightarrow> \<exists>q\<in>R. fst q + snd q = fst r" using assms(2) by force
    ultimately show ?thesis using m assms(3) by (auto simp: region_marked_def)
  qed
  with assms(1) show ?thesis by (auto simp: frames_inv_def)
qed

subsection \<open>The invariant\<close>

definition blocks_in :: "gblk list \<Rightarrow> region set \<Rightarrow> bool" where
  "blocks_in bs R \<longleftrightarrow> (\<forall>b\<in>set bs. \<exists>k. b_addr b = heap_page k \<and> (k, b_pages b) \<in> R)"

definition heap_inv :: "'z liballoc_scheme \<Rightarrow> gblk list \<Rightarrow> region set \<Rightarrow> bool" where
  "heap_inv s bs R \<longleftrightarrow> heap_rep s bs \<and> heap_wf bs \<and> frames_inv (heap_frames s) R \<and> blocks_in bs R \<and> kheap s"

lemma pages_needed_ok:
  assumes "sz \<le> 2 ^ 28"
  shows "sz + 48 \<le> pages_needed sz * 4096" "16 \<le> pages_needed sz" "pages_needed sz \<le> page_limit"
proof -
  have st: "add32 (add32 sz sizeof_major) sizeof_minor = sz + 48"
    using assms by (simp add: add32_small sizeof_major_def sizeof_minor_def two32_def)
  let ?q = "(sz + 48) div 4096"
  have q: "sz + 48 \<le> (if (sz + 48) mod 4096 = 0 then ?q else ?q + 1) * 4096"
    using div_mult_mod_eq [of "sz + 48" 4096] by auto
  have lim: "(if (sz + 48) mod 4096 = 0 then ?q else ?q + 1) \<le> page_limit"
    using assms by (auto simp: page_limit_def)
  show "16 \<le> pages_needed sz" by (simp add: pages_needed_def Let_def PAGE_COUNT_def)
  show "sz + 48 \<le> pages_needed sz * 4096"
    using q unfolding pages_needed_def Let_def st by (auto simp: PAGE_SIZE_def PAGE_COUNT_def split: if_splits)
  show "pages_needed sz \<le> page_limit"
    using lim unfolding pages_needed_def Let_def st by (auto simp: PAGE_SIZE_def PAGE_COUNT_def page_limit_def split: if_splits)
qed

definition fresh_block :: "addr \<Rightarrow> nat \<Rightarrow> gblk" where
  "fresh_block M n = \<lparr>b_addr = M, b_pages = n, b_mins = []\<rparr>"

lemma fresh_block_simps [simp]: "b_addr (fresh_block M n) = M" "b_pages (fresh_block M n) = n" "b_mins (fresh_block M n) = []"
  by (simp_all add: fresh_block_def)

lemma b_end_page: "b_addr b = heap_page k \<Longrightarrow> b_end b = heap_page (k + b_pages b)"
  by (simp add: b_end_def heap_page_add)

lemma heap_page_le: "heap_page j \<le> heap_page k \<longleftrightarrow> j \<le> k"
  by (simp add: heap_page_def)

lemma allocate_new_page_ok:
  assumes inv: "heap_inv s bs R" and sz: "sz \<le> 2 ^ 28" and call: "allocate_new_page sz s = Some (M, s')"
  obtains k t where "M = heap_page k" "k < 65536" "headers_same s t"
    "s' = t\<lparr>majors := (majors t)(M \<mapsto> major_of NULL (fresh_block M (pages_needed sz)) NULL),
            l_allocated := (l_allocated t + pages_needed sz * 4096) mod two64\<rparr>"
    "frames_inv (heap_frames t) (insert (k, pages_needed sz) R)" "b_wf (fresh_block M (pages_needed sz))"
    "\<And>c. c \<in> set bs \<Longrightarrow> b_disjoint (fresh_block M (pages_needed sz)) c"
proof -
  let ?n = "pages_needed sz"
  note n = pages_needed_ok [OF sz]
  obtain a t where alloc: "liballoc_alloc ?n s = Some (a, t)"
    using call by (auto simp: allocate_new_page_def Let_def split: bind_splits)
  then have "first_n_frames ?n s = Some a" "a \<noteq> 0xFFFFFFFF" and lmap: "liballoc_map a [0..<?n] s = Some t"
    by (auto simp: liballoc_alloc_def split: bind_splits if_splits)
  then obtain k where k: "a = heap_page k" "k < 65536" "run_clear (heap_frames s) k ?n"
    by (rule_tac first_n_frames_cases [OF n(3), of s]) auto
  with lmap have map: "liballoc_map (heap_page k) [0..<?n] s = Some t" by simp
  have "kheap s" using inv by (simp add: heap_inv_def)
  moreover have "\<forall>i\<in>set [0..<?n]. k + i \<le> 165536" using k(2) n(3) by (auto simp: page_limit_def)
  ultimately have t: "headers_same s t"
    "\<And>j. bm_test j (heap_frames t) \<longleftrightarrow> bm_test j (heap_frames s) \<or> (\<exists>i\<in>set [0..<?n]. j = k + i)"
    using liballoc_map_ok [OF map] by auto
  have bits: "bm_test j (heap_frames t) \<longleftrightarrow> bm_test j (heap_frames s) \<or> (k \<le> j \<and> j < k + ?n)" for j
    using t(2) [of j] by (auto simp: Bex_def intro!: exI [of _ "j - k"])
  have nz: "a \<noteq> NULL" by (simp add: k heap_page_def KHEAP_START_def)
  have e: "mul32 ?n PAGE_SIZE = ?n * 4096"
    using n(3) by (simp add: mul32_small PAGE_SIZE_def page_limit_def two32_def)
  have fresh: "major_of NULL (fresh_block a ?n) NULL = \<lparr>mj_prev = NULL, mj_next = NULL, mj_pages = ?n,
      mj_size = ?n * 4096, mj_usage = sizeof_major, mj_first = NULL\<rparr>"
    by (simp add: major_of_def b_usage_def sizeof_major_def)
  have s': "M = a" "s' = t\<lparr>majors := (majors t)(M \<mapsto> major_of NULL (fresh_block M ?n) NULL),
            l_allocated := (l_allocated t + ?n * 4096) mod two64\<rparr>"
    using call alloc nz e fresh by (auto simp: allocate_new_page_def Let_def)
  have fi: "frames_inv (heap_frames s) R" "blocks_in bs R" using inv by (simp_all add: heap_inv_def)
  show thesis
  proof (rule that [OF _ k(2) t(1) s'(2)])
    show "M = heap_page k" using s' k by simp
    show "frames_inv (heap_frames t) (insert (k, ?n) R)"
      using n k bits by (intro frames_inv_alloc [OF fi(1) k(3)]) auto
    have "heap_page (k + ?n) < two32" using k(2) n(3) by (intro heap_page_lt) (simp add: page_limit_def)
    then show "b_wf (fresh_block M ?n)"
      using n s' k nz by (simp add: b_wf_def b_end_page [of _ k] heap_page_def)
    show "b_disjoint (fresh_block M ?n) c" if c: "c \<in> set bs" for c
    proof -
      obtain j where j: "b_addr c = heap_page j" "(j, b_pages c) \<in> R" using fi(2) c by (auto simp: blocks_in_def)
      from run_clear_disjoint [OF fi(1) k(3) _ j(2)] n show ?thesis
        using s' k j(1) by (simp add: b_disjoint_def b_end_page [of _ k] b_end_page [of _ j] region_disjoint_def heap_page_le)
    qed
  qed
qed


subsection \<open>Growing the heap\<close>

lemma heap_rep_grow:
  assumes rep: "heap_rep s (B @ [c])" and wf: "heap_wf (B @ [c])"
    and new: "f = fresh_block M n" "M \<noteq> 0" "\<And>d. d \<in> set (B @ [c]) \<Longrightarrow> b_disjoint f d" "b_wf f"
    and same: "headers_same s t"
    and maj: "majors s' = (majors s)(M \<mapsto> major_of (b_addr c) f NULL,
        b_addr c \<mapsto> (the (majors s (b_addr c)))\<lparr>mj_next := M\<rparr>)"
    and rest: "minors s' = minors t" "aligns s' = aligns t" "l_memRoot s' = l_memRoot t" "l_bestBet s' = l_bestBet t"
  shows "heap_rep s' (B @ [c, f])" "heap_wf (B @ [c, f])"
proof -
  have fM: "b_addr f = M" "b_mins f = []" by (simp_all add: new)
  have wf': "heap_wf ((B @ [c]) @ f # [])"
    unfolding heap_wf_middle using wf new(3,4) by simp
  then show "heap_wf (B @ [c, f])" by simp
  have M: "b_addr d \<noteq> M" if "d \<in> set (B @ [c])" for d
    using heap_wf_addr_neq [OF wf', of d] that fM by simp
  have c: "b_addr d \<noteq> b_addr c" if "d \<in> set B" for d
    using heap_wf_addr_neq [OF wf, of d] that by simp
  have mc: "majors s (b_addr c) = Some (major_of (b_last NULL B) c NULL)"
    using heap_rep_block(1) [OF rep] by simp
  have "majors_rep (majors s') NULL B (b_addr c) = majors_rep (majors s) NULL B (b_addr c)"
    using M c by (intro majors_rep_cong) (auto simp: maj)
  then have "majors_rep (majors s') NULL (B @ [c, f]) NULL"
    using rep M [of c] by (simp add: heap_rep_def majors_rep_append) (simp add: maj mc fM major_of_def)
  moreover have "b_first (B @ [c, f]) = b_first (B @ [c])" by (cases B) auto
  ultimately show "heap_rep s' (B @ [c, f])"
    using rep same fM rest by (auto simp: heap_rep_def headers_same_def)
qed

lemma memalign_grow_ok:
  assumes inv: "heap_inv s (B @ [c]) R" and sz: "sz \<le> 2 ^ 28"
    and call: "memalign_grow sz (b_addr c) s = Some (M, s')"
  shows "M \<noteq> NULL \<and> (\<exists>R'. heap_inv s' (B @ [c, fresh_block M (pages_needed sz)]) R')
    \<and> kmalloc_lock s' = kmalloc_lock s \<and> l_inuse s' = l_inuse s \<and> kbytes s' = kbytes s"
proof -
  let ?f = "fresh_block M (pages_needed sz)"
  from call obtain s1 s2 where alloc: "allocate_new_page sz s = Some (M, s1)"
    and link: "upd_major (b_addr c) (\<lambda>m. m\<lparr>mj_next := M\<rparr>) s1 = Some s2"
      "(if M = NULL then Some s2 else upd_major M (\<lambda>m. m\<lparr>mj_prev := b_addr c\<rparr>) s2) = Some s'"
    by (auto simp: memalign_grow_def split: bind_splits)
  from allocate_new_page_ok [OF inv sz alloc] obtain k t where k: "M = heap_page k" and t: "headers_same s t"
    and s1: "s1 = t\<lparr>majors := (majors t)(M \<mapsto> major_of NULL ?f NULL),
        l_allocated := (l_allocated t + pages_needed sz * 4096) mod two64\<rparr>"
    and fr: "frames_inv (heap_frames t) (insert (k, pages_needed sz) R)"
    and f: "b_wf ?f" "\<And>d. d \<in> set (B @ [c]) \<Longrightarrow> b_disjoint ?f d"
    by blast
  have nz: "M \<noteq> NULL" using f(1) by (simp add: b_wf_def)
  have rep: "heap_rep s (B @ [c])" "heap_wf (B @ [c])" "kheap s" "blocks_in (B @ [c]) R"
    using inv by (simp_all add: heap_inv_def)
  have mc: "majors s (b_addr c) = Some (major_of (b_last NULL B) c NULL)"
    using heap_rep_block(1) [OF rep(1)] by simp
  have neq: "b_addr c \<noteq> M"
    using f(2) [of c] f(1) rep(2) by (auto simp: b_disjoint_def b_wf_def b_end_def heap_wf_def)
  have s': "s' = s1\<lparr>majors := (majors s)(M \<mapsto> major_of (b_addr c) ?f NULL,
        b_addr c \<mapsto> (the (majors s (b_addr c)))\<lparr>mj_next := M\<rparr>)\<rparr>"
    using link nz neq t mc by (auto simp: s1 upd_major_def headers_same_def major_of_def fun_upd_twist)
  have "heap_rep s' (B @ [c, ?f])" "heap_wf (B @ [c, ?f])"
    using heap_rep_grow [OF rep(1,2) refl nz f(2,1) t, of s'] by (simp_all add: s' s1)
  moreover have "frames_inv (heap_frames s') (insert (k, pages_needed sz) R)" "kheap s'"
    using fr t rep(3) by (simp_all add: s' s1 headers_same_def)
  moreover have "blocks_in (B @ [c, ?f]) (insert (k, pages_needed sz) R)"
    using rep(4) k by (auto simp: blocks_in_def)
  ultimately have "heap_inv s' (B @ [c, ?f]) (insert (k, pages_needed sz) R)"
    by (simp add: heap_inv_def)
  with nz t show ?thesis by (auto simp: s' s1 headers_same_def)
qed

end
