(* ===== verification/Kmalloc_Alloc.thy ===== *)
theory Kmalloc_Alloc
  imports Kmalloc_Frames
begin

section \<open>The kernel heap: allocation and release\<close>

text \<open>
  The loop of \<^verbatim>\<open>kmemalign\<close> over the blocks, \<^verbatim>\<open>kmemalign\<close> and \<^verbatim>\<open>kfree\<close> as operations on the set of
  sections that are in use, and the contract of the allocator for the rest of the kernel.
\<close>

definition sections :: "gblk list \<Rightarrow> gmin set" where
  "sections bs = (\<Union>b\<in>set bs. set (b_mins b))"

lemma sections_append [simp]: "sections (xs @ ys) = sections xs \<union> sections ys"
  by (auto simp: sections_def)

lemma sections_Cons [simp]: "sections (b # bs) = set (b_mins b) \<union> sections bs"
  by (auto simp: sections_def)

lemma sections_Nil [simp]: "sections [] = {}"
  by (simp add: sections_def)

definition allocated_ok ::
  "(addr \<times> 'z liballoc_scheme) option \<Rightarrow> nat \<Rightarrow> nat \<Rightarrow> nat \<Rightarrow> gblk list \<Rightarrow> 'z liballoc_scheme \<Rightarrow> bool" where
  "allocated_ok r aln req sz bs s \<longleftrightarrow>
    (\<exists>p s' bs' R g. r = Some (p, s') \<and> heap_inv s' bs' R \<and> sections bs' = insert g (sections bs) \<and> g \<notin> sections bs
       \<and> g_ptr g = p \<and> g_req g = req \<and> g_aln g = aln \<and> g_size g = sz \<and> \<not> kmalloc_lock s' \<and> kbytes s' = kbytes s
       \<and> l_inuse s' = (l_inuse s + sz) mod two64)"

lemma heap_inv_cong:
  assumes "heap_inv s bs R" "majors s' = majors s" "minors s' = minors s" "aligns s' = aligns s"
    "l_memRoot s' = l_memRoot s" "heap_frames s' = heap_frames s" "kheap s' = kheap s"
    "l_bestBet s' = l_bestBet s \<or> l_bestBet s' = NULL \<or> l_bestBet s' \<in> b_addr ` set bs"
  shows "heap_inv s' bs R"
  using assms by (auto simp: heap_inv_def heap_rep_def)

lemma new_section_distinct:
  assumes "heap_wf (B1 @ b\<lparr>b_mins := xs @ g # ys\<rparr> # B2)"
  shows "g \<notin> set xs \<union> set ys" "c \<in> set (B1 @ B2) \<Longrightarrow> g \<notin> set (b_mins c)"
proof -
  let ?b = "b\<lparr>b_mins := xs @ g # ys\<rparr>"
  have wf: "b_wf ?b" using assms by (simp add: heap_wf_def)
  then have "distinct (map g_addr (xs @ g # ys))"
    using laid_distinct [of "b_addr ?b + 24" "b_mins ?b"] by (auto simp: b_wf_def)
  then show "g \<notin> set xs \<union> set ys" by auto
  assume c: "c \<in> set (B1 @ B2)"
  have g: "b_addr ?b + 24 \<le> g_addr g" "g_end g \<le> b_end ?b"
    using b_wf_mem [OF wf, of g] by simp_all
  show "g \<notin> set (b_mins c)"
  proof
    assume "g \<in> set (b_mins c)"
    from heap_wf_mem_cases(1) [OF assms c this] g show False by (auto simp: g_end_def)
  qed
qed

lemma placement_allocated:
  assumes inv: "heap_inv s (B1 @ b # B2) R" and pl: "placement_ok (Some (p, s')) aln req sz B1 b B2 s"
  shows "allocated_ok (Some (p, liballoc_unlock s')) aln req sz (B1 @ b # B2) s"
proof -
  from pl obtain xs ys g where g: "b_mins b = xs @ ys" "g_size g = sz" "g_req g = req" "g_aln g = aln" "g_ptr g = p"
    and wf: "heap_wf (B1 @ b\<lparr>b_mins := xs @ g # ys\<rparr> # B2)" and rep: "heap_rep s' (B1 @ b\<lparr>b_mins := xs @ g # ys\<rparr> # B2)"
    and fr: "frame_same s s'" "l_inuse s' = (l_inuse s + sz) mod two64"
    by (auto simp: placement_ok_def placed_in_def)
  note same = frame_same_fields [OF fr(1)]
  let ?bs = "B1 @ b\<lparr>b_mins := xs @ g # ys\<rparr> # B2"
  have "heap_inv s' ?bs R"
    using inv rep wf same by (auto simp: heap_inv_def blocks_in_def)
  then have "heap_inv (liballoc_unlock s') ?bs R"
    by (rule heap_inv_cong) (simp_all add: liballoc_unlock_def)
  moreover have "sections ?bs = insert g (sections (B1 @ b # B2))" using g(1) by auto
  moreover have "g \<notin> sections (B1 @ b # B2)"
    using new_section_distinct [OF wf] g(1) by (auto simp: sections_def)
  ultimately show ?thesis
    unfolding allocated_ok_def using g same fr(2)
    by (intro exI [of _ p] exI [of _ "liballoc_unlock s'"] exI [of _ ?bs] exI [of _ R] exI [of _ g])
      (simp add: liballoc_unlock_def)
qed

subsection \<open>The loop over the blocks\<close>

text \<open>The only way the loop can fail: no pages for a new block.\<close>

definition grow_fails :: "nat \<Rightarrow> 'z liballoc_scheme \<Rightarrow> bool" where
  "grow_fails sz s \<longleftrightarrow> (\<exists>bb. allocate_new_page sz (s\<lparr>l_bestBet := bb\<rparr>) = None)"

definition loop_ok ::
  "(addr \<times> 'z liballoc_scheme) option \<Rightarrow> nat \<Rightarrow> nat \<Rightarrow> nat \<Rightarrow> gblk list \<Rightarrow> 'z liballoc_scheme \<Rightarrow> bool" where
  "loop_ok r aln req sz bs s \<longleftrightarrow> (r = None \<and> grow_fails sz s) \<or> allocated_ok r aln req sz bs s"

lemma allocated_ok_cong:
  "allocated_ok r aln req sz bs s \<Longrightarrow> sections bs = sections bs' \<Longrightarrow> kbytes s = kbytes s' \<Longrightarrow> l_inuse s = l_inuse s' \<Longrightarrow>
   allocated_ok r aln req sz bs' s'"
  by (simp add: allocated_ok_def)

lemma bestBet_loop_ok: "loop_ok r aln req sz bs (s\<lparr>l_bestBet := x\<rparr>) = loop_ok r aln req sz bs s"
  by (simp add: loop_ok_def grow_fails_def allocated_ok_def)

definition noted :: "addr \<Rightarrow> nat \<Rightarrow> 'z liballoc_scheme \<Rightarrow> 'z liballoc_scheme" where
  "noted maj best s = (case majors s maj of None \<Rightarrow> s
     | Some m \<Rightarrow> if best < sub32 (mj_size m) (mj_usage m) then s\<lparr>l_bestBet := maj\<rparr> else s)"

lemma noted_loop_ok: "loop_ok r aln req sz bs (noted maj best s) = loop_ok r aln req sz bs s"
  by (auto simp: noted_def bestBet_loop_ok split: option.splits)

lemma noted_inv:
  assumes "heap_inv s (B1 @ b # B2) R"
  shows "heap_inv (noted (b_addr b) best s) (B1 @ b # B2) R"
  using assms by (auto simp: noted_def split: option.splits intro!: heap_inv_cong [OF assms])

lemma noted_grow: "allocate_new_page sz (noted maj best s) = None \<Longrightarrow> grow_fails sz s"
proof -
  have "noted maj best s = s\<lparr>l_bestBet := l_bestBet (noted maj best s)\<rparr>"
    by (simp add: noted_def split: option.splits)
  then show "allocate_new_page sz (noted maj best s) = None \<Longrightarrow> grow_fails sz s"
    unfolding grow_fails_def by metis
qed

text \<open>One round of the loop, with the free space of the block spelled out.\<close>

definition free_space :: "gblk \<Rightarrow> nat" where
  "free_space b = b_pages b * 4096 - b_usage b"

lemma memalign_loop_step:
  assumes inv: "heap_inv s (B1 @ b # B2) R" and sz: "sz + 24 < two32"
  shows "memalign_loop aln req sz (b_addr b) st best s =
    (let s1 = noted (b_addr b) best s; best' = max best (free_space b) in
     if free_space b < sz + 24 then
       if B2 \<noteq> [] then memalign_loop aln req sz (b_addr (hd B2)) st best' s1
       else if st then memalign_loop aln req sz (l_memRoot s1) False best' s1
       else do {
         (new, s2) \<leftarrow> memalign_grow sz (b_addr b) s1;
         if new = NULL then Some (NULL, liballoc_unlock s2)
         else do {
           r \<leftarrow> memalign_place aln req sz new s2;
           case r of Some (p, s3) \<Rightarrow> Some (p, liballoc_unlock s3)
           | None \<Rightarrow> do {
               (h, s3) \<leftarrow> memalign_case5 sz st new s2;
               case h of Hop maj st \<Rightarrow> memalign_loop aln req sz maj st best' s3
               | _ \<Rightarrow> Some (NULL, liballoc_unlock s3) }
         }
       }
     else do {
       r \<leftarrow> memalign_place aln req sz (b_addr b) s1;
       case r of Some (p, s2) \<Rightarrow> Some (p, liballoc_unlock s2)
       | None \<Rightarrow>
         if B2 \<noteq> [] then memalign_loop aln req sz (b_addr (hd B2)) st best' s1
         else if st then memalign_loop aln req sz (l_memRoot s1) False best' s1
         else do {
           (new, s2) \<leftarrow> memalign_grow sz (b_addr b) s1;
           if new = NULL then Some (NULL, liballoc_unlock s2)
           else memalign_loop aln req sz new False best' s2
         }
     })"
proof -
  have rep: "heap_rep s (B1 @ b # B2)" and bwf: "b_wf b"
    and wf2: "\<And>c. c \<in> set B2 \<Longrightarrow> b_wf c"
    using inv by (auto simp: heap_inv_def heap_wf_def)
  have usage: "b_usage b \<le> b_pages b * 4096" "b_pages b * 4096 < two32"
    using b_usage_le [OF bwf] bwf by (auto simp: b_wf_def b_end_def)
  then have diff: "sub32 (b_pages b * 4096) (b_usage b) = free_space b" by (simp add: sub32_small free_space_def)
  obtain m where m: "majors s (b_addr b) = Some m" and flds: "mj_size m = b_pages b * 4096" "mj_usage m = b_usage b"
    "mj_next m = (if B2 = [] then NULL else b_first B2)"
    using heap_rep_block(1) [OF rep] by (simp add: major_of_def)
  have nz: "b_addr b \<noteq> 0" using bwf by (simp add: b_wf_def)
  have nx: "B2 = [] \<Longrightarrow> mj_next m = NULL" "B2 \<noteq> [] \<Longrightarrow> mj_next m = b_addr (hd B2)" "B2 \<noteq> [] \<Longrightarrow> b_addr (hd B2) \<noteq> NULL"
    using wf2 flds(3) by (cases B2; force simp: b_wf_def)+
  define s1 where "s1 = noted (b_addr b) best s"
  have s1: "s1 = (if best < free_space b then s\<lparr>l_bestBet := b_addr b\<rparr> else s)"
    by (simp add: s1_def noted_def m flds diff)
  then have m1: "majors s1 (b_addr b) = Some m" using m by simp
  have mx: "(if best < free_space b then free_space b else best) = max best (free_space b)" by simp
  have c1: "memalign_case1 sz st (b_addr b) s1 =
      (if free_space b < sz + 24 then
         if B2 \<noteq> [] then Some (Hop (b_addr (hd B2)) st, s1)
         else if st then Some (Hop (l_memRoot s1) False, s1)
         else Option.bind (memalign_grow sz (b_addr b) s1) (\<lambda>(new, s). Some (if new = NULL then Out else Fall new, s))
       else Some (Fall (b_addr b), s1))"
    using sz nx by (cases "B2 = []") (simp_all add: memalign_case1_def m1 flds(1,2) diff sizeof_minor_def add32_small)
  have c5: "memalign_case5 sz x (b_addr b) s1 =
      (if B2 \<noteq> [] then Some (Hop (b_addr (hd B2)) x, s1)
       else if x then Some (Hop (l_memRoot s1) False, s1)
       else Option.bind (memalign_grow sz (b_addr b) s1) (\<lambda>(new, s). Some (if new = NULL then Out else Hop new x, s)))" for x
    using nx by (cases "B2 = []") (simp_all add: memalign_case5_def m1)
  have unfolded: "memalign_loop aln req sz (b_addr b) st best s =
      Option.bind (memalign_case1 sz st (b_addr b) s1) (\<lambda>(h, s).
       case h of
         Hop maj startedBet \<Rightarrow> memalign_loop aln req sz maj startedBet (max best (free_space b)) s
       | Out \<Rightarrow> Some (NULL, liballoc_unlock s)
       | Fall maj \<Rightarrow> Option.bind (memalign_place aln req sz maj s) (\<lambda>r.
           case r of
             Some (p, s) \<Rightarrow> Some (p, liballoc_unlock s)
           | None \<Rightarrow> Option.bind (memalign_case5 sz st maj s) (\<lambda>(h, s).
               case h of
                 Hop maj startedBet \<Rightarrow> memalign_loop aln req sz maj startedBet (max best (free_space b)) s
               | _ \<Rightarrow> Some (NULL, liballoc_unlock s))))"
    using nz m by (subst memalign_loop.simps) (simp only: flds(1,2) diff Let_def s1 [symmetric] mx bind.bind_lunit if_False)
  show ?thesis
    unfolding s1_def [symmetric] Let_def unfolded c1
    by (cases "free_space b < sz + 24"; cases "B2 = []"; cases st)
      (auto simp: c5 split: bind_splits option.splits hop.splits prod.splits)
qed


definition request_ok :: "nat \<Rightarrow> nat \<Rightarrow> nat \<Rightarrow> bool" where
  "request_ok aln req sz \<longleftrightarrow> sz = req + aln + 16 \<and> alignment_ok aln \<and> sz \<le> 2 ^ 28"

lemma request_bound: "request_ok aln req sz \<Longrightarrow> sz + 24 < two32"
  by (simp add: request_ok_def two32_def)

lemma noted_same [simp]: "l_inuse (noted a x s) = l_inuse s" "kbytes (noted a x s) = kbytes s"
  by (simp_all add: noted_def split: option.splits)

lemma allocated_noted [simp]: "allocated_ok r aln req sz bs (noted a x s) = allocated_ok r aln req sz bs s"
  by (simp add: allocated_ok_def)

lemma place_noted:
  assumes inv: "heap_inv s (B1 @ b # B2) R" and rq: "request_ok aln req sz" and fits: "sz + 24 \<le> free_space b"
  shows "tried_ok (memalign_place aln req sz (b_addr b) s) aln req sz B1 b B2 s"
  using inv rq fits request_bound [OF rq]
  by (intro memalign_place_ok) (auto simp: heap_inv_def request_ok_def free_space_def b_usage_def)

lemma loop_fresh:
  assumes inv: "heap_inv s (B @ [f]) R" and rq: "request_ok aln req sz"
    and f: "b_mins f = []" "sz + 48 \<le> b_pages f * 4096"
  shows "allocated_ok (memalign_loop aln req sz (b_addr f) st best s) aln req sz (B @ [f]) s"
proof -
  define s1 where "s1 = noted (b_addr f) best s"
  have inv1: "heap_inv s1 (B @ f # []) R" unfolding s1_def using noted_inv [of s B f "[]"] inv by simp
  have "\<not> free_space f < sz + 24" using f by (simp add: free_space_def b_usage_def)
  moreover obtain p s2 where "memalign_place aln req sz (b_addr f) s1 = Some (Some (p, s2))"
    and pl: "placement_ok (Some (p, s2)) aln req sz B f [] s1"
    using memalign_place_fresh [of s1 B f "[]" sz req aln] inv1 rq f by (auto simp: heap_inv_def request_ok_def)
  ultimately have "memalign_loop aln req sz (b_addr f) st best s = Some (p, liballoc_unlock s2)"
    using memalign_loop_step [of s B f "[]" R] inv request_bound [OF rq] by (simp add: Let_def s1_def)
  moreover have "allocated_ok (Some (p, liballoc_unlock s2)) aln req sz (B @ [f]) s1"
    using placement_allocated [OF inv1 pl] by simp
  ultimately show ?thesis by (simp add: s1_def)
qed

text \<open>When the last block is reached without success, the new block takes the request.\<close>

lemma grown_ok:
  fixes s :: "'z liballoc_scheme"
  assumes inv: "heap_inv s (B @ [c]) R" and rq: "request_ok aln req sz"
    and r: "r = Option.bind (memalign_grow sz (b_addr c) s) (\<lambda>(new, s2). K new s2)"
    and K: "\<And>new (s2 :: 'z liballoc_scheme) R'. new \<noteq> NULL \<Longrightarrow> heap_inv s2 (B @ [c, fresh_block new (pages_needed sz)]) R' \<Longrightarrow>
      allocated_ok (K new s2) aln req sz (B @ [c, fresh_block new (pages_needed sz)]) s2"
  shows "(r = None \<and> allocate_new_page sz s = None) \<or> allocated_ok r aln req sz (B @ [c]) s"
proof (cases "memalign_grow sz (b_addr c) s")
  case None
  have inv': "heap_rep s (B @ [c])" using inv by (simp add: heap_inv_def)
  have "allocate_new_page sz s = None"
  proof (rule ccontr)
    assume "allocate_new_page sz s \<noteq> None"
    then obtain M s1 where al: "allocate_new_page sz s = Some (M, s1)" by fastforce
    from rq have "sz \<le> 2 ^ 28" by (simp add: request_ok_def)
    from allocate_new_page_ok [OF inv this al] obtain k t where "M = heap_page k" "headers_same s t"
      "s1 = t\<lparr>majors := (majors t)(M \<mapsto> major_of NULL (fresh_block M (pages_needed sz)) NULL),
              l_allocated := (l_allocated t + pages_needed sz * 4096) mod two64\<rparr>"
      "b_wf (fresh_block M (pages_needed sz))"
      by metis
    with None al heap_rep_block(1) [OF inv'] show False
      by (auto simp: memalign_grow_def upd_major_def headers_same_def split: if_splits option.splits)
  qed
  with None r show ?thesis by simp
next
  case (Some x)
  then obtain new s2 where g: "memalign_grow sz (b_addr c) s = Some (new, s2)" by (cases x) auto
  have "sz \<le> 2 ^ 28" using rq by (simp add: request_ok_def)
  from memalign_grow_ok [OF inv this g] obtain R' where n: "new \<noteq> NULL"
    "heap_inv s2 (B @ [c, fresh_block new (pages_needed sz)]) R'" "l_inuse s2 = l_inuse s" "kbytes s2 = kbytes s"
    by auto
  have "allocated_ok (K new s2) aln req sz (B @ [c]) s"
    using K [OF n(1,2)] n(3,4) by (simp add: allocated_ok_def)
  with g r show ?thesis by simp
qed

lemma sz_fresh: "request_ok aln req sz \<Longrightarrow> sz + 48 \<le> b_pages (fresh_block M (pages_needed sz)) * 4096"
  using pages_needed_ok(1) [of sz] by (simp add: request_ok_def)

text \<open>The end of the list of blocks, when the loop did not start at the best bet.\<close>

lemma loop_last_block:
  fixes s :: "'z liballoc_scheme"
  assumes inv: "heap_inv s (B @ [c]) R" and rq: "request_ok aln req sz"
  shows "loop_ok (memalign_loop aln req sz (b_addr c) False best s) aln req sz (B @ [c]) s"
proof -
  define s1 where "s1 = noted (b_addr c) best s"
  have inv1: "heap_inv s1 (B @ c # []) R" unfolding s1_def using noted_inv [of s B c "[]"] inv by simp
  have inv1': "heap_inv s1 (B @ [c]) R" using inv1 by simp
  note step = memalign_loop_step [of s B c "[]" R sz aln req False best, simplified, OF inv request_bound [OF rq], folded s1_def]
  have fresh_inv: "heap_inv t ((B @ [c]) @ [fresh_block new n]) R'" if "heap_inv t (B @ [c, fresh_block new n]) R'" for t :: "'z liballoc_scheme" and new n R'
    using that by simp
  show ?thesis
  proof (cases "free_space c < sz + 24")
    case True
    let ?K = "\<lambda>new s2. if new = NULL then Some (NULL, liballoc_unlock s2)
         else Option.bind (memalign_place aln req sz new s2) (\<lambda>r.
           case r of Some (p, s3) \<Rightarrow> Some (p, liballoc_unlock s3)
           | None \<Rightarrow> Option.bind (memalign_case5 sz False new s2) (\<lambda>(h, s3).
               case h of Hop maj st \<Rightarrow> memalign_loop aln req sz maj st (max best (free_space c)) s3
               | _ \<Rightarrow> Some (NULL, liballoc_unlock s3)))"
    have "allocated_ok (?K new s2) aln req sz (B @ [c, fresh_block new (pages_needed sz)]) s2"
      if new: "new \<noteq> NULL" and i: "heap_inv s2 (B @ [c, fresh_block new (pages_needed sz)]) R'" for new R' and s2 :: "'z liballoc_scheme"
    proof -
      let ?f = "fresh_block new (pages_needed sz)"
      have i': "heap_inv s2 ((B @ [c]) @ ?f # []) R'" using i by simp
      obtain p s3 where "memalign_place aln req sz (b_addr ?f) s2 = Some (Some (p, s3))"
        and pl: "placement_ok (Some (p, s3)) aln req sz (B @ [c]) ?f [] s2"
        using memalign_place_fresh [of s2 "B @ [c]" ?f "[]" sz req aln] i rq sz_fresh [OF rq, of new]
        by (auto simp: heap_inv_def request_ok_def)
      with placement_allocated [OF i' pl] new show ?thesis by simp
    qed
    from grown_ok [OF inv1' rq _ this, of "memalign_loop aln req sz (b_addr c) False best s"] True
    have "(memalign_loop aln req sz (b_addr c) False best s = None \<and> allocate_new_page sz s1 = None)
        \<or> allocated_ok (memalign_loop aln req sz (b_addr c) False best s) aln req sz (B @ [c]) s1"
      unfolding step Let_def by simp
    then show ?thesis
      using noted_grow [of sz "b_addr c" best s] unfolding loop_ok_def s1_def by auto
  next
    case False
    then have fits: "sz + 24 \<le> free_space c" by simp
    from place_noted [OF inv1 rq fits] consider (full) "memalign_place aln req sz (b_addr c) s1 = Some None"
      | (placed) p s2 where "memalign_place aln req sz (b_addr c) s1 = Some (Some (p, s2))"
          "placement_ok (Some (p, s2)) aln req sz B c [] s1"
      by (auto simp: tried_ok_def)
    then show ?thesis
    proof cases
      case placed
      with placement_allocated [OF inv1 placed(2)] False show ?thesis
        unfolding step Let_def loop_ok_def by (simp add: s1_def)
    next
      case full
      let ?K = "\<lambda>new s2. if new = NULL then Some (NULL, liballoc_unlock s2)
         else memalign_loop aln req sz new False (max best (free_space c)) s2"
      have "allocated_ok (?K new s2) aln req sz (B @ [c, fresh_block new (pages_needed sz)]) s2"
        if new: "new \<noteq> NULL" and i: "heap_inv s2 (B @ [c, fresh_block new (pages_needed sz)]) R'" for new R' and s2 :: "'z liballoc_scheme"
        using loop_fresh [OF fresh_inv [OF i] rq _ sz_fresh [OF rq]] new by simp
      from grown_ok [OF inv1' rq _ this, of "memalign_loop aln req sz (b_addr c) False best s"] False full
      have "(memalign_loop aln req sz (b_addr c) False best s = None \<and> allocate_new_page sz s1 = None)
          \<or> allocated_ok (memalign_loop aln req sz (b_addr c) False best s) aln req sz (B @ [c]) s1"
        unfolding step Let_def by simp
      then show ?thesis
        using noted_grow [of sz "b_addr c" best s] unfolding loop_ok_def s1_def by auto
    qed
  qed
qed

text \<open>
  A block that is not the last, or the last one when the loop started at the best bet: the request
  is placed, or the loop goes on at another block of the same heap.
\<close>

lemma loop_other_block:
  fixes s :: "'z liballoc_scheme"
  assumes inv: "heap_inv s (B1 @ b # B2) R" and rq: "request_ok aln req sz" and more: "B2 \<noteq> [] \<or> st"
    and go: "\<And>(s1 :: 'z liballoc_scheme) best'. heap_inv s1 (B1 @ b # B2) R \<Longrightarrow> B2 \<noteq> [] \<Longrightarrow>
        loop_ok (memalign_loop aln req sz (b_addr (hd B2)) st best' s1) aln req sz (B1 @ b # B2) s1"
      "\<And>(s1 :: 'z liballoc_scheme) best'. heap_inv s1 (B1 @ b # B2) R \<Longrightarrow> B2 = [] \<Longrightarrow>
        loop_ok (memalign_loop aln req sz (l_memRoot s1) False best' s1) aln req sz (B1 @ b # B2) s1"
  shows "loop_ok (memalign_loop aln req sz (b_addr b) st best s) aln req sz (B1 @ b # B2) s"
proof -
  define s1 where "s1 = noted (b_addr b) best s"
  have inv1: "heap_inv s1 (B1 @ b # B2) R" unfolding s1_def using noted_inv [OF inv] .
  note step = memalign_loop_step [OF inv request_bound [OF rq], of aln req st best, folded s1_def]
  let ?go = "if B2 \<noteq> [] then memalign_loop aln req sz (b_addr (hd B2)) st (max best (free_space b)) s1
       else memalign_loop aln req sz (l_memRoot s1) False (max best (free_space b)) s1"
  have cont: "loop_ok ?go aln req sz (B1 @ b # B2) s"
    using go(1,2) [OF inv1] by (cases "B2 = []") (simp_all add: s1_def noted_loop_ok)
  show ?thesis
  proof (cases "free_space b < sz + 24")
    case True
    with cont more show ?thesis unfolding step Let_def by auto
  next
    case False
    then have fits: "sz + 24 \<le> free_space b" by simp
    from place_noted [OF inv1 rq fits] show ?thesis
      unfolding tried_ok_def
    proof (elim disjE exE conjE)
      assume "memalign_place aln req sz (b_addr b) s1 = Some None"
      with cont more False show ?thesis unfolding step Let_def by auto
    next
      fix x assume x: "memalign_place aln req sz (b_addr b) s1 = Some (Some x)"
        "placement_ok (Some x) aln req sz B1 b B2 s1"
      obtain p s2 where "x = (p, s2)" by fastforce
      with x placement_allocated [OF inv1, of p s2 aln req sz] False show ?thesis
        unfolding step Let_def loop_ok_def by (simp add: s1_def)
    qed
  qed
qed

lemma loop_False:
  fixes s :: "'z liballoc_scheme"
  assumes "heap_inv s (B1 @ b # B2) R" "request_ok aln req sz"
  shows "loop_ok (memalign_loop aln req sz (b_addr b) False best s) aln req sz (B1 @ b # B2) s"
  using assms(1)
proof (induction B2 arbitrary: B1 b s best)
  case Nil
  show ?case using loop_last_block [OF Nil assms(2)] .
next
  case (Cons c B2)
  show ?case
  proof (rule loop_other_block [OF Cons.prems assms(2)])
    fix s1 :: "'z liballoc_scheme" and best' assume "heap_inv s1 (B1 @ b # c # B2) R"
    then show "loop_ok (memalign_loop aln req sz (b_addr (hd (c # B2))) False best' s1) aln req sz (B1 @ b # c # B2) s1"
      using Cons.IH [of s1 "B1 @ [b]" c best'] by simp
  qed simp_all
qed

lemma loop_any:
  fixes s :: "'z liballoc_scheme"
  assumes "heap_inv s (B1 @ b # B2) R" "request_ok aln req sz"
  shows "loop_ok (memalign_loop aln req sz (b_addr b) st best s) aln req sz (B1 @ b # B2) s"
proof (cases st)
  case False
  then show ?thesis using loop_False [OF assms] by simp
next
  case True
  have restart: "loop_ok (memalign_loop aln req sz (l_memRoot t) False best' t) aln req sz bs t"
    if inv: "heap_inv t bs R" and ne: "bs \<noteq> []" for t :: "'z liballoc_scheme" and bs best'
  proof -
    obtain c cs where bs: "bs = c # cs" using ne by (cases bs) auto
    then have "l_memRoot t = b_addr c" using inv by (simp add: heap_inv_def heap_rep_def)
    with loop_False [of t "[]" c cs R aln req sz best'] inv bs assms(2) show ?thesis by simp
  qed
  have "loop_ok (memalign_loop aln req sz (b_addr b) True best s) aln req sz (B1 @ b # B2) s"
    using assms(1)
  proof (induction B2 arbitrary: B1 b s best)
    case Nil
    show ?case
      by (rule loop_other_block [OF Nil assms(2)]) (simp_all add: restart)
  next
    case (Cons c B2)
    show ?case
    proof (rule loop_other_block [OF Cons.prems assms(2)])
      fix s1 :: "'z liballoc_scheme" and best' assume "heap_inv s1 (B1 @ b # c # B2) R"
      then show "loop_ok (memalign_loop aln req sz (b_addr (hd (c # B2))) True best' s1) aln req sz (B1 @ b # c # B2) s1"
        using Cons.IH [of s1 "B1 @ [b]" c best'] by simp
    qed simp_all
  qed
  with True show ?thesis by simp
qed


subsection \<open>Pages do not depend on the lock or the best bet\<close>

definition with_lock :: "addr \<Rightarrow> bool \<Rightarrow> 'z liballoc_scheme \<Rightarrow> 'z liballoc_scheme" where
  "with_lock bb l s = s\<lparr>l_bestBet := bb, kmalloc_lock := l\<rparr>"

lemma with_lock_simps [simp]:
  "heap_frames (with_lock bb l s) = heap_frames s" "kernel_dir (with_lock bb l s) = kernel_dir s"
  "page_dirs (with_lock bb l s) = page_dirs s" "page_tables (with_lock bb l s) = page_tables s"
  "kheap (with_lock bb l s) = kheap s" "frames (with_lock bb l s) = frames s"
  by (simp_all add: with_lock_def)

lemma alloc_frame_with_lock:
  "alloc_frame pp kern rw (with_lock bb l s) = map_option (with_lock bb l) (alloc_frame pp kern rw s)"
proof (cases s rule: liballoc.cases_scheme)
  case fields: (fields frames nframes frame_lock kernel_dir current_dir page_tables page_dirs kheap placement_address
    phys cr3 heap_frames l_memRoot l_bestBet l_allocated l_inuse l_warningCount l_errorCount l_possibleOverruns
    kmalloc_lock majors minors aligns kbytes more)
  show ?thesis
    by (cases "page_tables (fst pp)")
      (simp_all add: fields alloc_frame_def read_page_def lock_frames_def unlock_frames_def set_frame_def put_page_def
        first_frame_def with_lock_def Let_def)
qed

lemma get_page_with_lock:
  "kheap s \<Longrightarrow> get_page no_heap a mk d (with_lock bb l s) = map_option (map_prod id (with_lock bb l)) (get_page no_heap a mk d s)"
  by (auto simp: get_page_def lookup_page_def paging_memalign_def no_heap_def with_lock_def Let_def split: bind_splits)

lemma liballoc_map_with_lock:
  "kheap s \<Longrightarrow> liballoc_map a is (with_lock bb l s) = map_option (with_lock bb l) (liballoc_map a is s)"
proof (induction "is" arbitrary: s)
  case (Cons i "is")
  let ?a = "add32 a (i * PAGE_SIZE)"
  show ?case
  proof (cases "get_page no_heap ?a True (kernel_dir s) s")
    case (Some x)
    then obtain pp where x: "x = (pp, s)" using get_page_no_heap Cons.prems by (cases x) blast
    show ?thesis
    proof (cases pp)
      case None
      then show ?thesis using Some x Cons.prems by (simp add: get_page_with_lock)
    next
      case (Some pp')
      show ?thesis
      proof (cases "alloc_frame pp' True True s")
        case None
        then show ?thesis
          using Some x \<open>get_page no_heap ?a True (kernel_dir s) s = Some x\<close> Cons.prems
          by (simp add: get_page_with_lock alloc_frame_with_lock)
      next
        case s2: (Some s2)
        have heap: "kheap (s2\<lparr>heap_frames := h\<rparr>)" for h
          using alloc_frame_same [OF s2] Cons.prems by (simp add: headers_same_def)
        have comm: "(with_lock bb l s2)\<lparr>heap_frames := h\<rparr> = with_lock bb l (s2\<lparr>heap_frames := h\<rparr>)" for h
          by (simp add: with_lock_def)
        show ?thesis
          using Some x s2 \<open>get_page no_heap ?a True (kernel_dir s) s = Some x\<close> Cons.prems
          by (simp add: get_page_with_lock alloc_frame_with_lock set_heap_frame_def comm Cons.IH [OF heap])
      qed
    qed
  qed (use Cons.prems in \<open>simp add: get_page_with_lock\<close>)
qed simp

lemma first_n_frames_with_lock: "n \<le> page_limit \<Longrightarrow> first_n_frames n (with_lock bb l s) = first_n_frames n s"
proof -
  have bad: "frames_bad i n j (with_lock bb l s) = frames_bad i n j s" for i n j
  proof (induction "n - j" arbitrary: j)
    case 0
    then show ?case by (simp add: frames_bad.simps [of i n j])
  next
    case (Suc d)
    then have "frames_bad i n (j + 1) (with_lock bb l s) = frames_bad i n (j + 1) s" by (intro Suc.hyps(1)) simp
    then show ?case by (simp add: frames_bad.simps [of i n j] test_heap_frame_def)
  qed
  have "first_n_frames_from i n (with_lock bb l s) = first_n_frames_from i n s" for i
  proof (induction "KHEAP_MAX - i" arbitrary: i rule: less_induct)
    case less
    show ?case
    proof (cases "i < KHEAP_MAX")
      case True
      then have "first_n_frames_from (i + PAGE_SIZE) n (with_lock bb l s) = first_n_frames_from (i + PAGE_SIZE) n s"
        by (intro less) (simp add: PAGE_SIZE_def)
      then show ?thesis
        by (cases "frames_bad i n 0 s") (auto simp: first_n_frames_from.simps [of i] bad)
    qed (simp add: first_n_frames_from.simps [of i])
  qed
  then show ?thesis by (simp add: first_n_frames_def)
qed

lemma liballoc_alloc_with_lock:
  assumes "kheap s" "n \<le> page_limit"
  shows "liballoc_alloc n (with_lock bb l s) = None \<longleftrightarrow> liballoc_alloc n s = None"
  using assms by (auto simp: liballoc_alloc_def first_n_frames_with_lock liballoc_map_with_lock
      split: bind_splits)

lemma allocate_new_page_None: "allocate_new_page sz s = None \<longleftrightarrow> liballoc_alloc (pages_needed sz) s = None"
  by (auto simp: allocate_new_page_def Let_def split: bind_splits)

lemma grow_fails_alloc:
  assumes "kheap s" "sz \<le> 2 ^ 28"
  shows "grow_fails sz (s\<lparr>kmalloc_lock := l\<rparr>) \<longleftrightarrow> liballoc_alloc (pages_needed sz) s = None"
proof -
  have "(s\<lparr>kmalloc_lock := l\<rparr>)\<lparr>l_bestBet := bb\<rparr> = with_lock bb l s" for bb by (simp add: with_lock_def)
  then show ?thesis
    using liballoc_alloc_with_lock [OF assms(1) pages_needed_ok(3) [OF assms(2)]]
    by (simp add: grow_fails_def allocate_new_page_None)
qed

subsection \<open>kmemalign\<close>

lemma first_block_ok:
  assumes inv: "heap_inv s [] R" and sz: "sz \<le> 2 ^ 28" and al: "allocate_new_page sz s = Some (M, s1)"
  shows "M \<noteq> NULL \<and> (\<exists>R'. heap_inv (s1\<lparr>l_memRoot := M\<rparr>) [fresh_block M (pages_needed sz)] R') \<and> l_bestBet s1 = NULL
    \<and> l_inuse s1 = l_inuse s \<and> kbytes s1 = kbytes s"
proof -
  let ?f = "fresh_block M (pages_needed sz)"
  from allocate_new_page_ok [OF inv sz al] obtain k t where k: "M = heap_page k" and t: "headers_same s t"
    and s1: "s1 = t\<lparr>majors := (majors t)(M \<mapsto> major_of NULL ?f NULL),
        l_allocated := (l_allocated t + pages_needed sz * 4096) mod two64\<rparr>"
    and fr: "frames_inv (heap_frames t) (insert (k, pages_needed sz) R)" and wf: "b_wf ?f"
    by metis
  have bb: "l_bestBet s = NULL" "kheap s" using inv by (auto simp: heap_inv_def heap_rep_def)
  have "heap_inv (s1\<lparr>l_memRoot := M\<rparr>) [?f] (insert (k, pages_needed sz) R)"
    using t bb fr wf k by (auto simp: s1 heap_inv_def heap_rep_def heap_wf_def blocks_in_def headers_same_def)
  with wf t bb show ?thesis by (auto simp: s1 b_wf_def headers_same_def)
qed

lemma memalign_locked_ok:
  assumes inv: "heap_inv s bs R" and rq: "request_ok aln req sz"
  shows "loop_ok (memalign_locked aln req sz s) aln req sz bs s"
proof (cases bs)
  case Nil
  then have root: "l_memRoot s = NULL" using inv by (simp add: heap_inv_def heap_rep_def)
  show ?thesis
  proof (cases "allocate_new_page sz s")
    case None
    then have "grow_fails sz s" by (auto simp: grow_fails_def intro!: exI [of _ "l_bestBet s"])
    with None root show ?thesis by (simp add: memalign_locked_def loop_ok_def)
  next
    case (Some x)
    then obtain M s1 where al: "allocate_new_page sz s = Some (M, s1)" by (cases x) auto
    have "sz \<le> 2 ^ 28" using rq by (simp add: request_ok_def)
    from first_block_ok [OF inv [unfolded Nil] this al] obtain R' where M: "M \<noteq> NULL"
      "heap_inv (s1\<lparr>l_memRoot := M\<rparr>) [fresh_block M (pages_needed sz)] R'" "l_bestBet s1 = NULL"
      "l_inuse s1 = l_inuse s" "kbytes s1 = kbytes s"
      by auto
    then have "memalign_locked aln req sz s = memalign_loop aln req sz M False 0 (s1\<lparr>l_memRoot := M\<rparr>)"
      using root al by (simp add: memalign_locked_def)
    moreover have "allocated_ok (memalign_loop aln req sz M False 0 (s1\<lparr>l_memRoot := M\<rparr>)) aln req sz
        [fresh_block M (pages_needed sz)] (s1\<lparr>l_memRoot := M\<rparr>)"
      using loop_fresh [of _ "[]" "fresh_block M (pages_needed sz)" R' aln req sz] M(2) rq sz_fresh [OF rq] by simp
    ultimately show ?thesis using M Nil by (simp add: loop_ok_def allocated_ok_def)
  qed
next
  case (Cons c cs)
  have rep: "heap_rep s bs" and wf: "\<And>b. b \<in> set bs \<Longrightarrow> b_wf b" using inv by (auto simp: heap_inv_def heap_wf_def)
  then have root: "l_memRoot s = b_addr c" "b_addr c \<noteq> NULL" using Cons by (auto simp: heap_rep_def b_wf_def)
  have start: "\<exists>b\<in>set bs. a = b_addr b" if "a = l_memRoot s \<or> a = l_bestBet s \<and> a \<noteq> NULL" for a
    using that rep root(1) Cons by (auto simp: heap_rep_def)
  have best: "\<exists>m. majors s (l_bestBet s) = Some m" if nn: "l_bestBet s \<noteq> NULL"
  proof -
    obtain b where "b \<in> set bs" "l_bestBet s = b_addr b" using start [of "l_bestBet s"] nn by auto
    moreover from this obtain B1 B2 where "bs = B1 @ b # B2" by (meson split_list)
    ultimately show ?thesis using heap_rep_block(1) rep by metis
  qed
  then obtain a st bsz where run: "memalign_locked aln req sz s = memalign_loop aln req sz a st bsz s"
    and a: "a = l_memRoot s \<or> a = l_bestBet s \<and> a \<noteq> NULL"
    using root by (cases "l_bestBet s = NULL") (auto simp: memalign_locked_def Let_def split: if_splits)
  from start [OF a] obtain b where "b \<in> set bs" "a = b_addr b" by auto
  moreover from this obtain B1 B2 where "bs = B1 @ b # B2" by (meson split_list)
  ultimately show ?thesis using loop_any [of s B1 b B2 R aln req sz st bsz] inv rq run by simp
qed

lemma kmemalign_ok:
  assumes inv: "heap_inv s bs R" and lock: "\<not> kmalloc_lock s" and rq: "request_ok aln req (req + aln + 16)"
  shows "(kmemalign aln req s = None \<and> liballoc_alloc (pages_needed (req + aln + 16)) s = None)
    \<or> allocated_ok (kmemalign aln req s) aln req (req + aln + 16) bs s"
proof -
  let ?sz = "req + aln + 16" and ?s = "s\<lparr>kmalloc_lock := True\<rparr>"
  have "memalign_size aln req = ?sz"
    using rq by (auto simp: memalign_size_def request_ok_def alignment_ok_def ALIGN_INFO_def two32_def)
  then have run: "kmemalign aln req s = memalign_locked aln req ?sz ?s"
    using lock by (simp add: kmemalign_def liballoc_lock_def Let_def)
  have "heap_inv ?s bs R" using inv by (rule heap_inv_cong) simp_all
  from memalign_locked_ok [OF this rq] show ?thesis
    unfolding run loop_ok_def
    using grow_fails_alloc [of s ?sz True] inv rq by (auto simp: heap_inv_def request_ok_def allocated_ok_def)
qed

text \<open>Inside the allocator a second call would wait for ever, which is why \<open>no_heap\<close> stands for it.\<close>

lemma kmemalign_locked: "kmalloc_lock s \<Longrightarrow> kmemalign aln req s = None"
  by (simp add: kmemalign_def liballoc_lock_def Let_def)

end
