(* ===== verification/Kmalloc_Free.thy ===== *)
theory Kmalloc_Free
  imports Kmalloc_Alloc
begin

section \<open>The kernel heap: release\<close>

text \<open>
  \<^verbatim>\<open>kfree\<close> takes a section out of the list of its block, and a block without sections out of the
  list of blocks; both lists stay well linked and every other section stays as it was.
\<close>

lemma minors_rep_remove:
  assumes rep: "minors_rep mm M NULL (xs @ g # ys) NULL"
    and left: "\<And>h. h \<in> set (butlast xs) \<Longrightarrow> mm' (g_addr h) = mm (g_addr h)"
      "xs \<noteq> [] \<Longrightarrow> mm' (g_addr (last xs)) = map_option (\<lambda>m. m\<lparr>mn_next := g_first ys NULL\<rparr>) (mm (g_addr (last xs)))"
    and right: "\<And>h. h \<in> set (tl ys) \<Longrightarrow> mm' (g_addr h) = mm (g_addr h)"
      "ys \<noteq> [] \<Longrightarrow> mm' (g_addr (hd ys)) = map_option (\<lambda>m. m\<lparr>mn_prev := g_last NULL xs\<rparr>) (mm (g_addr (hd ys)))"
  shows "minors_rep mm' M NULL (xs @ ys) NULL"
proof -
  have l: "minors_rep mm' M NULL xs (g_first ys NULL)"
  proof (cases xs rule: rev_cases)
    case (snoc xs' x)
    have "minors_rep mm' M NULL xs' (g_addr x) = minors_rep mm M NULL xs' (g_addr x)"
      using left(1) snoc by (intro minors_rep_cong) auto
    with snoc rep left(2) show ?thesis by (auto simp: minors_rep_append)
  qed simp
  have r: "minors_rep mm' M (g_last NULL xs) ys NULL"
  proof (cases ys)
    case (Cons y ys')
    have "minors_rep mm' M (g_addr y) ys' NULL = minors_rep mm M (g_addr y) ys' NULL"
      using right(1) Cons by (intro minors_rep_cong) auto
    with Cons rep right(2) show ?thesis by (auto simp: minors_rep_append)
  qed simp
  from l r show ?thesis by (simp add: minors_rep_append)
qed

lemma majors_rep_remove:
  assumes rep: "majors_rep mm NULL (B1 @ b # B2) NULL"
    and left: "\<And>h. h \<in> set (butlast B1) \<Longrightarrow> mm' (b_addr h) = mm (b_addr h)"
      "B1 \<noteq> [] \<Longrightarrow> mm' (b_addr (last B1)) = map_option (\<lambda>m. m\<lparr>mj_next := b_first B2\<rparr>) (mm (b_addr (last B1)))"
    and right: "\<And>h. h \<in> set (tl B2) \<Longrightarrow> mm' (b_addr h) = mm (b_addr h)"
      "B2 \<noteq> [] \<Longrightarrow> mm' (b_addr (hd B2)) = map_option (\<lambda>m. m\<lparr>mj_prev := b_last NULL B1\<rparr>) (mm (b_addr (hd B2)))"
  shows "majors_rep mm' NULL (B1 @ B2) NULL"
proof -
  have l: "majors_rep mm' NULL B1 (b_first B2)"
  proof (cases B1 rule: rev_cases)
    case (snoc xs' x)
    have "majors_rep mm' NULL xs' (b_addr x) = majors_rep mm NULL xs' (b_addr x)"
      using left(1) snoc by (intro majors_rep_cong) auto
    with snoc rep left(2) show ?thesis by (auto simp: majors_rep_append major_of_def)
  qed simp
  have r: "majors_rep mm' (b_last NULL B1) B2 NULL"
  proof (cases B2)
    case (Cons y ys')
    have "majors_rep mm' (b_addr y) ys' NULL = majors_rep mm (b_addr y) ys' NULL"
      using right(1) Cons by (intro majors_rep_cong) auto
    with Cons rep right(2) show ?thesis by (auto simp: majors_rep_append major_of_def)
  qed simp
  from l r show ?thesis by (cases B2) (simp_all add: majors_rep_append)
qed

subsection \<open>Unlinking a section\<close>

lemma g_last_eq: "g_last prv xs = (if xs = [] then prv else g_addr (last xs))"
  by (induction xs arbitrary: prv) auto

lemma g_first_eq: "g_first ys q = (if ys = [] then q else g_addr (hd ys))"
  by (cases ys) auto

lemma b_last_eq: "b_last prv xs = (if xs = [] then prv else b_addr (last xs))"
  by (induction xs arbitrary: prv) auto

lemma b_first_eq: "b_first bs = (if bs = [] then NULL else b_addr (hd bs))"
  by (cases bs) auto

lemma section_nonzero: "b_wf b \<Longrightarrow> g \<in> set (b_mins b) \<Longrightarrow> g_addr g \<noteq> NULL"
  using b_wf_mem(1) [of b g] by (simp add: b_wf_def)

lemma unlink_minor_ok:
  assumes inv: "heap_inv s (B1 @ b # B2) R" and b: "b_mins b = xs @ g # ys"
  shows "\<exists>s1. unlink_minor (g_addr g) s = Some s1 \<and> heap_inv s1 (B1 @ b\<lparr>b_mins := xs @ ys\<rparr> # B2) R
    \<and> frame_same s s1 \<and> l_inuse s1 = (l_inuse s + (two64 - g_size g)) mod two64"
proof -
  let ?M = "b_addr b" and ?b = "b\<lparr>b_mins := xs @ ys\<rparr>" and ?n = "g_addr g"
  let ?prv = "g_last NULL xs" and ?nxt = "g_first ys NULL"
  have rep: "heap_rep s (B1 @ b # B2)" and wf: "heap_wf (B1 @ b # B2)" and bwf: "b_wf b"
    using inv by (auto simp: heap_inv_def heap_wf_def)
  have mn: "minors s ?n = Some (new_minor ?M (g_size g) (g_req g) ?prv ?nxt)"
    using heap_rep_block(2) [OF rep] b by (simp add: minors_rep_append new_minor_def)
  obtain mj where mj: "majors s ?M = Some mj" "mj_usage mj = b_usage b" "mj_first mj = g_first (xs @ g # ys) NULL"
    using heap_rep_block(1) [OF rep] b by (simp add: major_of_def)
  have dist: "distinct (map g_addr (xs @ g # ys))"
    using laid_distinct [of "?M + 24" "b_mins b"] bwf b by (auto simp: b_wf_def)
  have dxy: "distinct (map g_addr (xs @ ys))" using dist by auto
  have nz: "h \<in> set (xs @ g # ys) \<Longrightarrow> g_addr h \<noteq> NULL" for h using section_nonzero [OF bwf] b by simp
  have neq: "h \<in> set (xs @ ys) \<Longrightarrow> g_addr h \<noteq> ?n" for h using dist by (auto simp: image_iff)
  have live: "\<exists>r. minors s (g_addr h) = Some r" if "h \<in> set (xs @ g # ys)" for h
    using heap_rep_block(3) [OF rep, of h] b that by simp
  define mm where "mm = (\<lambda>a. if a = ?n then map_option (\<lambda>m. m\<lparr>mn_magic := LIBALLOC_DEAD\<rparr>) (minors s a)
      else if xs \<noteq> [] \<and> a = g_addr (last xs) then map_option (\<lambda>m. m\<lparr>mn_next := ?nxt\<rparr>) (minors s a)
      else if ys \<noteq> [] \<and> a = g_addr (hd ys) then map_option (\<lambda>m. m\<lparr>mn_prev := ?prv\<rparr>) (minors s a)
      else minors s a)"
  define s1 where "s1 = s\<lparr>l_inuse := (l_inuse s + (two64 - g_size g)) mod two64, minors := mm,
      majors := (majors s)(?M \<mapsto> mj\<lparr>mj_first := g_first (xs @ ys) NULL, mj_usage := b_usage ?b\<rparr>)\<rparr>"
  have usage: "sub32 (b_usage b) (add32 (g_size g) sizeof_minor) = b_usage ?b"
  proof -
    have "b_usage b = b_usage ?b + (g_size g + 24)" by (simp add: b_usage_def b)
    moreover have "b_usage b < two32" using b_usage_le [OF bwf] bwf by (simp add: b_wf_def b_end_def)
    ultimately show ?thesis by (simp add: sub32_small add32_small sizeof_minor_def)
  qed
  have run: "unlink_minor ?n s = Some s1"
  proof -
    have ly: "xs \<noteq> [] \<Longrightarrow> ys \<noteq> [] \<Longrightarrow> g_addr (last xs) \<noteq> g_addr (hd ys)"
      using distinct_around(4) [OF dxy, of "hd ys"] by force
    consider "xs = []" "ys = []" | "xs = []" "ys \<noteq> []" | "xs \<noteq> []" "ys = []" | "xs \<noteq> []" "ys \<noteq> []" by blast
    then show ?thesis
      by cases (use mn mj usage neq [of "last xs"] neq [of "hd ys"] nz [of "last xs"] nz [of "hd ys"]
          live [of "last xs"] live [of "hd ys"] ly in
          \<open>auto simp: unlink_minor_def Let_def upd_major_def upd_minor_def new_minor_def s1_def mm_def
            g_last_eq g_first_eq g_first_append fun_eq_iff split: if_splits\<close>)
  qed
  have "heap_rep s1 (B1 @ ?b # B2)"
  proof (rule insert_rep [OF rep wf, where gs = "xs @ ys"])
    show "minors_rep (minors s1) ?M NULL (xs @ ys) NULL"
    proof (rule minors_rep_remove)
      show "minors_rep (minors s) ?M NULL (xs @ g # ys) NULL" using heap_rep_block(2) [OF rep] b by simp
      show "minors s1 (g_addr h) = minors s (g_addr h)" if "h \<in> set (butlast xs)" for h
        using neq [of h] distinct_around(1,2) [OF dxy, of h] in_set_butlastD [OF that] that by (auto simp: s1_def mm_def)
      show "minors s1 (g_addr h) = minors s (g_addr h)" if "h \<in> set (tl ys)" for h
        using neq [of h] distinct_around(3,4) [OF dxy, of h] list.set_sel(2) [of ys h] that
        by (cases "ys = []") (auto simp: s1_def mm_def)
      show "minors s1 (g_addr (last xs)) = map_option (\<lambda>m. m\<lparr>mn_next := ?nxt\<rparr>) (minors s (g_addr (last xs)))"
        if "xs \<noteq> []" using that neq [of "last xs"] by (simp add: s1_def mm_def)
      show "minors s1 (g_addr (hd ys)) = map_option (\<lambda>m. m\<lparr>mn_prev := ?prv\<rparr>) (minors s (g_addr (hd ys)))"
        if "ys \<noteq> []"
        using that neq [of "hd ys"] distinct_around(4) [OF dxy, of "hd ys"] by (auto simp: s1_def mm_def)
    qed
    show "\<forall>h\<in>set (xs @ ys). aligns_rep (aligns s1) h"
      using rep b by (auto simp: s1_def heap_rep_def)
    show "minors s1 (g_addr h) = minors s (g_addr h) \<and> aligns s1 (g_ptr h) = aligns s (g_ptr h)"
      if "c \<in> set (B1 @ B2)" "h \<in> set (b_mins c)" for c h
    proof -
      have "g_addr h \<noteq> g_addr k" if "k \<in> set (xs @ g # ys)" for k
        using heap_wf_mem_cases(1) [OF wf \<open>c \<in> set (B1 @ B2)\<close> \<open>h \<in> set (b_mins c)\<close>] b_wf_mem(1,2) [OF bwf, of k] b that
        by (auto simp: g_end_def)
      from this [of g] this [of "last xs"] this [of "hd ys"] show ?thesis by (auto simp: s1_def mm_def)
    qed
  qed (simp_all add: s1_def mj)
  moreover have "heap_wf (B1 @ ?b # B2)"
    using wf bwf b laid_remove [of "?M + 24" xs g ys "b_end b"]
    unfolding heap_wf_middle by (auto simp: b_wf_def b_end_def b_disjoint_def)
  moreover have "blocks_in (B1 @ ?b # B2) R" "frames_inv (heap_frames s1) R" "kheap s1"
    using inv by (auto simp: heap_inv_def blocks_in_def s1_def)
  ultimately have "heap_inv s1 (B1 @ ?b # B2) R" by (simp add: heap_inv_def)
  with run show ?thesis by (auto simp: s1_def)
qed


subsection \<open>Giving back an empty block\<close>

lemma heap_wf_distinct: "heap_wf bs \<Longrightarrow> distinct (map b_addr bs)"
proof (induction bs)
  case (Cons b bs)
  have "b_addr c \<noteq> b_addr b" if "c \<in> set bs" for c
    using heap_wf_addr_neq [of "[]" b bs c] Cons.prems that by simp
  moreover have "heap_wf bs" using Cons.prems heap_wf_middle [of "[]" b bs] by simp
  ultimately show ?case using Cons.IH by force
qed simp

text \<open>Every round of \<^verbatim>\<open>liballoc_free\<close> clears the bit of the page behind the block.\<close>

lemma liballoc_unmap_ok:
  assumes "liballoc_unmap (heap_page k) n is s = Some s'" "kheap s" "k + n \<le> 165536"
  shows "headers_same s s' \<and> (\<forall>j. bm_test j (heap_frames s') \<longleftrightarrow> bm_test j (heap_frames s) \<and> (is = [] \<or> j \<noteq> k + n))"
  using assms
proof (induction "is" arbitrary: s)
  case (Cons i "is")
  have page: "add32 (heap_page k) (n * PAGE_SIZE) = heap_page (k + n)" using assms(3) by (rule heap_page_add32)
  from Cons.prems(1) obtain pp s1 s2 where
    g: "get_page no_heap (heap_page (k + n)) False (kernel_dir s) s = Some (pp, s1)"
    and f: "free_frame pp s1 = Some s2"
    and rest: "liballoc_unmap (heap_page k) n is (s2\<lparr>heap_frames := bm_clear (k + n) (heap_frames s2)\<rparr>) = Some s'"
    using page assms(3) by (auto simp: clear_heap_frame_def heap_frame_page heap_frame_index split: bind_splits)
  have "s1 = s" using get_page_no_heap [OF g] Cons.prems(2) by simp
  with free_frame_same [OF f] have same: "headers_same s s2" "heap_frames s2 = heap_frames s" by simp_all
  define t where "t = s2\<lparr>heap_frames := bm_clear (k + n) (heap_frames s2)\<rparr>"
  have t: "headers_same s t" "heap_frames t = bm_clear (k + n) (heap_frames s)"
    using same by (simp_all add: t_def headers_same_def)
  then have "kheap t" using Cons.prems(2) by (simp add: headers_same_def)
  with Cons.IH [OF rest [folded t_def]] assms(3) t show ?case by (auto intro: headers_same_trans)
qed simp

lemma release_major_ok:
  assumes inv: "heap_inv s (B1 @ b # B2) R" and empty: "b_mins b = []" and run: "release_major (b_addr b) s = Some s'"
  shows "heap_inv s' (B1 @ B2) R \<and> kmalloc_lock s' = kmalloc_lock s \<and> kbytes s' = kbytes s \<and> l_inuse s' = l_inuse s"
proof -
  let ?M = "b_addr b" and ?prv = "b_last NULL B1" and ?nxt = "b_first B2"
  have rep: "heap_rep s (B1 @ b # B2)" and wf: "heap_wf (B1 @ b # B2)" "kheap s" and bwf: "\<And>c. c \<in> set (B1 @ b # B2) \<Longrightarrow> b_wf c"
    using inv by (auto simp: heap_inv_def heap_wf_def)
  have dist: "distinct (map b_addr (B1 @ b # B2))" using heap_wf_distinct [OF wf(1)] .
  then have dxy: "distinct (map b_addr (B1 @ B2))" by auto
  have nz: "c \<in> set (B1 @ b # B2) \<Longrightarrow> b_addr c \<noteq> NULL" for c using bwf [of c] by (simp add: b_wf_def)
  have neq: "c \<in> set (B1 @ B2) \<Longrightarrow> b_addr c \<noteq> ?M" for c using dist by (auto simp: image_iff)
  obtain mj where mj: "majors s ?M = Some mj" "mj_prev mj = ?prv" "mj_next mj = ?nxt" "mj_pages mj = b_pages b" "mj_size mj = b_pages b * 4096"
    using heap_rep_block(1) [OF rep] by (cases B2) (auto simp: major_of_def)
  have live: "\<exists>r. majors s (b_addr c) = Some r" if "c \<in> set (B1 @ b # B2)" for c
  proof -
    from that obtain C1 C2 where "B1 @ b # B2 = C1 @ c # C2" by (meson split_list)
    then show ?thesis using heap_rep_block(1) [of s C1 c C2] rep by simp
  qed
  define mm where "mm = (\<lambda>a. if B1 \<noteq> [] \<and> a = b_addr (last B1) then map_option (\<lambda>m. m\<lparr>mj_next := ?nxt\<rparr>) (majors s a)
      else if B2 \<noteq> [] \<and> a = b_addr (hd B2) then map_option (\<lambda>m. m\<lparr>mj_prev := ?prv\<rparr>) (majors s a)
      else majors s a)"
  define t where "t = s\<lparr>l_memRoot := (if l_memRoot s = ?M then ?nxt else l_memRoot s),
      l_bestBet := (if l_bestBet s = ?M then NULL else l_bestBet s), majors := mm,
      l_allocated := (l_allocated s + (two64 - b_pages b * 4096)) mod two64\<rparr>"
  have ly: "B1 \<noteq> [] \<Longrightarrow> B2 \<noteq> [] \<Longrightarrow> b_addr (last B1) \<noteq> b_addr (hd B2)"
    using distinct_around(4) [OF dxy, of "hd B2"] by force
  have free: "liballoc_free ?M (b_pages b) t = Some s'"
  proof -
    consider "B1 = []" "B2 = []" | "B1 = []" "B2 \<noteq> []" | "B1 \<noteq> []" "B2 = []" | "B1 \<noteq> []" "B2 \<noteq> []" by blast
    then have "release_major ?M s = liballoc_free ?M (b_pages b) t"
      by cases (use mj nz [of "last B1"] nz [of "hd B2"] live [of "last B1"] live [of "hd B2"] ly in
          \<open>auto simp: release_major_def Let_def upd_major_def t_def mm_def b_last_eq b_first_eq fun_eq_iff
            intro!: arg_cong [where f = "liballoc_free ?M (b_pages b)"] split: if_splits\<close>)
    with run show ?thesis by simp
  qed
  have "heap_rep t (B1 @ B2)"
  proof -
    have "majors_rep (majors t) NULL (B1 @ B2) NULL"
    proof (rule majors_rep_remove)
      show "majors_rep (majors s) NULL (B1 @ b # B2) NULL" using rep by (simp add: heap_rep_def)
      show "majors t (b_addr h) = majors s (b_addr h)" if "h \<in> set (butlast B1)" for h
        using distinct_around(1,2) [OF dxy, of h] in_set_butlastD [OF that] that by (auto simp: t_def mm_def)
      show "majors t (b_addr h) = majors s (b_addr h)" if "h \<in> set (tl B2)" for h
        using distinct_around(3,4) [OF dxy, of h] list.set_sel(2) [of B2 h] that
        by (cases "B2 = []") (auto simp: t_def mm_def)
      show "majors t (b_addr (hd B2)) = map_option (\<lambda>m. m\<lparr>mj_prev := ?prv\<rparr>) (majors s (b_addr (hd B2)))" if "B2 \<noteq> []"
        using that ly by (auto simp: t_def mm_def)
    qed (simp add: t_def mm_def)
    moreover have "l_memRoot t = b_first (B1 @ B2)"
      using rep neq [of "hd B1"] by (cases B1) (auto simp: t_def heap_rep_def)
    moreover have "l_bestBet t = NULL \<or> l_bestBet t \<in> b_addr ` set (B1 @ B2)"
      using rep by (auto simp: t_def heap_rep_def)
    ultimately show ?thesis using rep by (simp add: t_def heap_rep_def)
  qed
  moreover have "heap_wf (B1 @ B2)" using wf(1) heap_wf_middle by blast
  ultimately have inv_t: "heap_inv t (B1 @ B2) R"
    using inv by (auto simp: heap_inv_def blocks_in_def t_def)
  obtain k where k: "?M = heap_page k" "(k, b_pages b) \<in> R" using inv by (auto simp: heap_inv_def blocks_in_def)
  have fi: "frames_inv (heap_frames t) R" "kheap t" using inv_t by (simp_all add: heap_inv_def)
  then have bound: "k + b_pages b \<le> 165536" "0 < b_pages b"
    using k(2) by (auto simp: frames_inv_def region_marked_def page_limit_def)
  from liballoc_unmap_ok [OF free [unfolded liballoc_free_def k(1)] fi(2) bound(1)] bound(2)
  have s': "headers_same t s'" "\<And>j. bm_test j (heap_frames s') \<longleftrightarrow> bm_test j (heap_frames t) \<and> j \<noteq> k + b_pages b"
    by auto
  have "frames_inv (heap_frames s') R" using frames_inv_free [OF fi(1) k(2) s'(2)] .
  with inv_t s'(1) have "heap_inv s' (B1 @ B2) R"
    by (auto simp: heap_inv_def heap_rep_def headers_same_def)
  with s'(1) show ?thesis by (simp add: headers_same_def t_def)
qed

subsection \<open>kfree\<close>

lemma update_bestBet_ok:
  assumes inv: "heap_inv s (B1 @ b # B2) R"
  shows "\<exists>s'. update_bestBet (b_addr b) s = Some s' \<and> heap_inv s' (B1 @ b # B2) R
    \<and> kbytes s' = kbytes s \<and> l_inuse s' = l_inuse s"
proof -
  have rep: "heap_rep s (B1 @ b # B2)" using inv by (simp add: heap_inv_def)
  obtain mj where mj: "majors s (b_addr b) = Some mj" using heap_rep_block(1) [OF rep] by simp
  have best: "\<exists>m. majors s (l_bestBet s) = Some m" if "l_bestBet s \<noteq> NULL"
  proof -
    have "l_bestBet s \<in> b_addr ` set (B1 @ b # B2)" using rep that by (simp add: heap_rep_def)
    then obtain c where c: "c \<in> set (B1 @ b # B2)" "l_bestBet s = b_addr c" by blast
    from c(1) obtain C1 C2 where "B1 @ b # B2 = C1 @ c # C2" by (meson split_list)
    then show ?thesis using heap_rep_block(1) [of s C1 c C2] rep c(2) by simp
  qed
  have "heap_inv (s\<lparr>l_bestBet := b_addr b\<rparr>) (B1 @ b # B2) R"
    using inv by (rule heap_inv_cong) simp_all
  with inv mj best show ?thesis
    by (cases "l_bestBet s = NULL") (auto simp: update_bestBet_def Let_def)
qed

definition freed_ok :: "'z liballoc_scheme option \<Rightarrow> gmin \<Rightarrow> gblk list \<Rightarrow> 'z liballoc_scheme \<Rightarrow> bool" where
  "freed_ok r g bs s \<longleftrightarrow> (\<exists>s' bs' R. r = Some s' \<and> heap_inv s' bs' R \<and> sections bs' = sections bs - {g}
     \<and> \<not> kmalloc_lock s' \<and> kbytes s' = kbytes s \<and> l_inuse s' = (l_inuse s + (two64 - g_size g)) mod two64)"

lemma sections_remove:
  assumes "heap_wf (B1 @ b # B2)" "b_mins b = xs @ g # ys"
  shows "sections (B1 @ b\<lparr>b_mins := xs @ ys\<rparr> # B2) = sections (B1 @ b # B2) - {g}"
proof -
  have "b\<lparr>b_mins := xs @ g # ys\<rparr> = b" using assms(2) by simp
  then have "g \<notin> set xs \<union> set ys" "\<And>c. c \<in> set (B1 @ B2) \<Longrightarrow> g \<notin> set (b_mins c)"
    using new_section_distinct [where b = b and xs = xs and g = g and ys = ys] assms(1) by simp_all
  then show ?thesis using assms(2) by (auto simp: sections_def)
qed

lemma kfree_ok:
  assumes inv: "heap_inv s bs R" and lock: "\<not> kmalloc_lock s" and g: "g \<in> sections bs"
  shows "(kfree (g_ptr g) s = None \<and> (\<exists>b\<in>set bs. b_mins b = [g])) \<or> freed_ok (kfree (g_ptr g) s) g bs s"
proof -
  from g obtain b where b: "b \<in> set bs" "g \<in> set (b_mins b)" by (auto simp: sections_def)
  then obtain B1 B2 xs ys where bs: "bs = B1 @ b # B2" and mins: "b_mins b = xs @ g # ys" by (meson split_list)
  let ?M = "b_addr b" and ?b = "b\<lparr>b_mins := xs @ ys\<rparr>" and ?s = "s\<lparr>kmalloc_lock := True\<rparr>"
  have rep: "heap_rep s bs" and wf: "heap_wf bs" and bwf: "b_wf b"
    using inv b(1) by (auto simp: heap_inv_def heap_wf_def)
  note gm = b_wf_mem [OF bwf b(2)]
  have ptr: "g_ptr g < two32" "g_ptr g \<noteq> NULL" using gm(3,4) by (auto simp: g_wf_def)
  have "aligns_rep (aligns s) g" using rep b by (auto simp: heap_rep_def)
  then have un: "UNALIGN (g_ptr g) s = Some (g_addr g + 24)" using UNALIGN_ok gm(3) ptr(1) by blast
  have sub: "sub32 (g_addr g + 24) sizeof_minor = g_addr g"
    using gm(4) by (simp add: sub32_small sizeof_minor_def g_end_def)
  obtain mn where mn: "minors s (g_addr g) = Some mn" "mn_magic mn = LIBALLOC_MAGIC" "mn_block mn = ?M"
    using heap_rep_block(2) [of s B1 b B2] rep bs mins by (auto simp: minors_rep_append)
  have inv1: "heap_inv ?s (B1 @ b # B2) R" unfolding bs [symmetric] using inv by (rule heap_inv_cong) simp_all
  from unlink_minor_ok [OF inv1 mins] obtain s1 where un1: "unlink_minor (g_addr g) ?s = Some s1"
    and inv2: "heap_inv s1 (B1 @ ?b # B2) R" and fr: "frame_same ?s s1"
    and inuse: "l_inuse s1 = (l_inuse s + (two64 - g_size g)) mod two64"
    by auto
  have mj: "\<exists>mj. majors s1 ?M = Some mj \<and> mj_first mj = g_first (xs @ ys) NULL"
    using heap_rep_block(1) [of s1 B1 ?b B2] inv2 by (auto simp: heap_inv_def major_of_def)
  have "h \<in> set (xs @ ys) \<Longrightarrow> g_addr h \<noteq> NULL" for h using section_nonzero [OF bwf, of h] mins by auto
  then have first: "g_first (xs @ ys) NULL = NULL \<longleftrightarrow> xs @ ys = []"
    using hd_in_set [of "xs @ ys"] unfolding g_first_eq by metis
  have run: "kfree (g_ptr g) s = Option.bind
      (if xs @ ys = [] then release_major ?M s1 else update_bestBet ?M s1) (\<lambda>s. Some (liballoc_unlock s))"
    using ptr(2) un lock sub mn un1 mj first by (auto simp: kfree_def liballoc_lock_def Let_def)
  have sec: "sections (B1 @ ?b # B2) = sections bs - {g}"
    using sections_remove [of B1 b B2 xs g ys] wf mins bs by simp
  note same = frame_same_fields [OF fr]
  show ?thesis
  proof (cases "xs @ ys = []")
    case True
    show ?thesis
    proof (cases "release_major ?M s1")
      case None
      with run True mins b(1) show ?thesis by auto
    next
      case (Some s2)
      with release_major_ok [OF inv2, of s2] True have rel: "heap_inv s2 (B1 @ B2) R" "kbytes s2 = kbytes s1" "l_inuse s2 = l_inuse s1"
        by simp_all
      from rel(1) have "heap_inv (liballoc_unlock s2) (B1 @ B2) R"
        by (rule heap_inv_cong) (simp_all add: liballoc_unlock_def)
      moreover have "sections (B1 @ B2) = sections bs - {g}" using sec True by auto
      ultimately have "freed_ok (Some (liballoc_unlock s2)) g bs s"
        unfolding freed_ok_def using rel same(6) inuse
        by (intro exI [of _ "liballoc_unlock s2"] exI [of _ "B1 @ B2"] exI [of _ R]) (simp add: liballoc_unlock_def)
      with run True Some show ?thesis by simp
    qed
  next
    case False
    from update_bestBet_ok [OF inv2] obtain s2 where up: "update_bestBet ?M s1 = Some s2"
      "heap_inv s2 (B1 @ ?b # B2) R" "kbytes s2 = kbytes s1" "l_inuse s2 = l_inuse s1"
      by auto
    have "heap_inv (liballoc_unlock s2) (B1 @ ?b # B2) R"
      using up(2) by (rule heap_inv_cong) (simp_all add: liballoc_unlock_def)
    then have "freed_ok (Some (liballoc_unlock s2)) g bs s"
      unfolding freed_ok_def using sec same(6) up(3,4) inuse
      by (intro exI [of _ "liballoc_unlock s2"] exI [of _ "B1 @ ?b # B2"] exI [of _ R]) (simp add: liballoc_unlock_def)
    with run False up(1) show ?thesis by auto
  qed
qed

end
