(* ===== verification/Kmalloc_Spec.thy ===== *)
theory Kmalloc_Spec
  imports Kmalloc_Free
begin

section \<open>The kernel heap: contract\<close>

text \<open>
  What the rest of the kernel relies on. The abstract state of an allocator is a map from the
  pointers in use to the number of bytes asked for. The locale \<open>allocator\<close> states the laws of
  allocation and release over it; it is interpreted on \<^verbatim>\<open>kmalloc\<close>, \<^verbatim>\<open>kvalloc\<close> and \<^verbatim>\<open>kfree\<close>.
\<close>

definition ranges_apart :: "addr \<Rightarrow> nat \<Rightarrow> addr \<Rightarrow> nat \<Rightarrow> bool" where
  "ranges_apart p n q m \<longleftrightarrow> p + n \<le> q \<or> q + m \<le> p"

locale allocator =
  fixes km :: "nat \<Rightarrow> 'a \<Rightarrow> (addr \<times> 'a) option"
    and kf :: "addr \<Rightarrow> 'a \<Rightarrow> 'a option"
    and live :: "'a \<Rightarrow> (addr \<rightharpoonup> nat) \<Rightarrow> bool"
    and lim :: nat
  assumes malloc_live: "live a L \<Longrightarrow> n \<le> lim \<Longrightarrow> km n a = Some (p, a') \<Longrightarrow> live a' (L(p \<mapsto> n))"
    and malloc_new: "live a L \<Longrightarrow> n \<le> lim \<Longrightarrow> km n a = Some (p, a') \<Longrightarrow> p \<noteq> NULL \<and> L p = None"
    and malloc_apart: "live a L \<Longrightarrow> n \<le> lim \<Longrightarrow> km n a = Some (p, a') \<Longrightarrow> L q = Some m \<Longrightarrow> ranges_apart p n q m"
    and free_live: "live a L \<Longrightarrow> L p = Some n \<Longrightarrow> kf p a = Some a' \<Longrightarrow> live a' (L(p := None))"
begin

lemma malloc_malloc:
  assumes "live a L" "n \<le> lim" "m \<le> lim" "km n a = Some (p, b)" "km m b = Some (q, c)"
  shows "p \<noteq> q" "ranges_apart q m p n" "live c (L(p \<mapsto> n, q \<mapsto> m))"
proof -
  have b: "live b (L(p \<mapsto> n))" using malloc_live assms(1,2,4) by blast
  then show "live c (L(p \<mapsto> n, q \<mapsto> m))" using malloc_live assms(3,5) by blast
  show "p \<noteq> q" using malloc_new [OF b assms(3,5)] by auto
  show "ranges_apart q m p n" using malloc_apart [OF b assms(3,5)] by simp
qed

lemma malloc_free:
  assumes "live a L" "n \<le> lim" "km n a = Some (p, b)" "kf p b = Some c"
  shows "live c L"
proof -
  have "live b (L(p \<mapsto> n))" "L p = None" using malloc_live malloc_new assms(1-3) by blast+
  then have "live c ((L(p \<mapsto> n))(p := None))" using free_live assms(4) by fastforce
  moreover have "(L(p \<mapsto> n))(p := None) = L" using \<open>L p = None\<close> by auto
  ultimately show ?thesis by simp
qed

end

subsection \<open>The sections in use as a map\<close>

lemma sections_wf:
  assumes "heap_wf bs" "g \<in> sections bs"
  shows "g_wf g" "g_end g < two32"
  using assms b_wf_mem(3,4) by (auto simp: sections_def heap_wf_def)

lemma sections_apart:
  assumes "heap_wf bs" "g \<in> sections bs" "h \<in> sections bs" "g \<noteq> h"
  shows "g_end g \<le> g_addr h \<or> g_end h \<le> g_addr g"
proof -
  from assms(2,3) obtain b c where b: "b \<in> set bs" "g \<in> set (b_mins b)" and c: "c \<in> set bs" "h \<in> set (b_mins c)"
    by (auto simp: sections_def)
  have bwf: "b_wf b" "b_wf c" using assms(1) b c by (auto simp: heap_wf_def)
  obtain B1 B2 where bs: "bs = B1 @ b # B2" using b(1) by (meson split_list)
  show ?thesis
  proof (cases "c = b")
    case True
    obtain xs ys where mins: "b_mins b = xs @ g # ys" using b(2) by (meson split_list)
    have l: "laid (b_addr b + 24) (xs @ g # ys) (b_end b)" using bwf mins by (simp add: b_wf_def)
    have "h \<in> set xs \<or> h \<in> set ys" using c(2) True mins assms(4) by auto
    then show ?thesis
    proof
      assume "h \<in> set xs"
      from laid_before [OF l this] l show ?thesis by (auto simp: laid_append)
    next
      assume "h \<in> set ys"
      with l laid_mem [of "g_end g" ys "b_end b" h] show ?thesis by (auto simp: laid_append)
    qed
  next
    case False
    with c(1) bs have "c \<in> set (B1 @ B2)" by auto
    from heap_wf_mem_cases(1) [OF _ this c(2), of b] assms(1) bs b_wf_mem(1,2) [OF bwf(1) b(2)] show ?thesis by auto
  qed
qed

lemma sections_ptr_apart:
  assumes "heap_wf bs" "g \<in> sections bs" "h \<in> sections bs" "g \<noteq> h"
  shows "ranges_apart (g_ptr g) (g_req g) (g_ptr h) (g_req h)" "g_ptr g \<noteq> g_ptr h"
  using sections_apart [OF assms] sections_wf(1) [OF assms(1,2)] sections_wf(1) [OF assms(1,3)]
  by (auto simp: ranges_apart_def g_wf_def)

definition live_map :: "gblk list \<Rightarrow> (addr \<rightharpoonup> nat) \<Rightarrow> bool" where
  "live_map bs L \<longleftrightarrow> (\<forall>p n. L p = Some n \<longleftrightarrow> (\<exists>g\<in>sections bs. g_ptr g = p \<and> g_req g = n))"

text \<open>The heap is in order and \<open>L\<close> is the map of the pointers in use.\<close>

definition kmalloc_live :: "'z liballoc_scheme \<Rightarrow> (addr \<rightharpoonup> nat) \<Rightarrow> bool" where
  "kmalloc_live s L \<longleftrightarrow> (\<exists>bs R. heap_inv s bs R \<and> live_map bs L) \<and> \<not> kmalloc_lock s"

definition heap_limit :: nat where
  "heap_limit = 2 ^ 27"

lemma request_ok_limit: "alignment_ok aln \<Longrightarrow> n \<le> heap_limit \<Longrightarrow> request_ok aln n (n + aln + 16)"
  by (simp add: request_ok_def alignment_ok_def heap_limit_def)

lemma live_map_insert:
  assumes "live_map bs L" "heap_wf bs'" "sections bs' = insert g (sections bs)" "g \<notin> sections bs"
  shows "live_map bs' (L(g_ptr g \<mapsto> g_req g))" "L (g_ptr g) = None"
    "L q = Some m \<Longrightarrow> ranges_apart (g_ptr g) (g_req g) q m"
proof -
  have other: "g_ptr h \<noteq> g_ptr g" "ranges_apart (g_ptr g) (g_req g) (g_ptr h) (g_req h)" if "h \<in> sections bs" for h
  proof -
    have "g \<noteq> h" "g \<in> sections bs'" "h \<in> sections bs'" using that assms(3,4) by auto
    from sections_ptr_apart [OF assms(2) this(2,3,1)]
    show "g_ptr h \<noteq> g_ptr g" "ranges_apart (g_ptr g) (g_req g) (g_ptr h) (g_req h)" by simp_all
  qed
  show "live_map bs' (L(g_ptr g \<mapsto> g_req g))"
    using assms(1) other(1) unfolding live_map_def assms(3) by auto
  show "L (g_ptr g) = None"
  proof (cases "L (g_ptr g)")
    case (Some n)
    with assms(1) obtain h where "h \<in> sections bs" "g_ptr h = g_ptr g" unfolding live_map_def by blast
    with other(1) show ?thesis by blast
  qed simp
  show "ranges_apart (g_ptr g) (g_req g) q m" if Lq: "L q = Some m"
  proof -
    obtain h where "h \<in> sections bs" "g_ptr h = q" "g_req h = m" using assms(1) Lq unfolding live_map_def by blast
    then show ?thesis using other(2) [of h] by simp
  qed
qed

lemma live_map_remove:
  assumes "live_map bs L" "heap_wf bs" "sections bs' = sections bs - {g}" "g \<in> sections bs"
  shows "live_map bs' (L(g_ptr g := None))"
proof -
  have "h \<in> sections bs \<Longrightarrow> h \<noteq> g \<Longrightarrow> g_ptr h \<noteq> g_ptr g" for h
    using sections_ptr_apart(2) [OF assms(2) _ assms(4), of h] by auto
  with assms(1) show ?thesis unfolding live_map_def assms(3) by auto
qed

lemma kmemalign_live:
  assumes "kmalloc_live s L" "alignment_ok aln" "n \<le> heap_limit"
  shows "case kmemalign aln n s of
      None \<Rightarrow> liballoc_alloc (pages_needed (n + aln + 16)) s = None
    | Some (p, s') \<Rightarrow> kmalloc_live s' (L(p \<mapsto> n)) \<and> L p = None \<and> (\<forall>q m. L q = Some m \<longrightarrow> ranges_apart p n q m)
        \<and> p mod aln = 0 \<and> KHEAP_START < p \<and> p + n < two32 \<and> kbytes s' = kbytes s
        \<and> l_inuse s' = (l_inuse s + (n + aln + 16)) mod two64"
proof -
  from assms(1) obtain bs R where inv: "heap_inv s bs R" and L: "live_map bs L" and lock: "\<not> kmalloc_lock s"
    by (auto simp: kmalloc_live_def)
  from kmemalign_ok [OF inv lock request_ok_limit [OF assms(2,3)]] show ?thesis
  proof (elim disjE conjE)
    assume "kmemalign aln n s = None" "liballoc_alloc (pages_needed (n + aln + 16)) s = None"
    then show ?thesis by simp
  next
    assume "allocated_ok (kmemalign aln n s) aln n (n + aln + 16) bs s"
    then obtain p s' bs' R' g where run: "kmemalign aln n s = Some (p, s')" and inv': "heap_inv s' bs' R'"
      and sec: "sections bs' = insert g (sections bs)" "g \<notin> sections bs"
      and g: "g_ptr g = p" "g_req g = n" "g_aln g = aln" and s': "\<not> kmalloc_lock s'" "kbytes s' = kbytes s"
        "l_inuse s' = (l_inuse s + (n + aln + 16)) mod two64"
      by (auto simp: allocated_ok_def)
    have wf': "heap_wf bs'" using inv' by (simp add: heap_inv_def)
    note ins = live_map_insert [OF L wf' sec, unfolded g(1,2)]
    have gwf: "g_wf g" "g_end g < two32" using sections_wf [OF wf', of g] sec(1) by auto
    have "KHEAP_START < p"
    proof -
      obtain b where b: "b \<in> set bs'" "g \<in> set (b_mins b)" using sec(1) by (auto simp: sections_def)
      then have "b_addr b \<le> g_addr g" using b_wf_mem(1) [of b g] wf' by (auto simp: heap_wf_def)
      moreover have "KHEAP_START \<le> b_addr b" using inv' b(1) by (auto simp: heap_inv_def blocks_in_def heap_page_def)
      ultimately show ?thesis using gwf(1) g(1) by (simp add: g_wf_def)
    qed
    moreover have "p mod aln = 0" "p + n < two32" using gwf g by (auto simp: g_wf_def)
    moreover have "kmalloc_live s' (L(p \<mapsto> n))" using inv' ins(1) s'(1) by (auto simp: kmalloc_live_def)
    ultimately show ?thesis using run ins(2,3) s'(2,3) by auto
  qed
qed

lemma kfree_live:
  assumes "kmalloc_live s L" "L p = Some n"
  shows "case kfree p s of
      None \<Rightarrow> \<exists>bs R b g. heap_inv s bs R \<and> b \<in> set bs \<and> b_mins b = [g] \<and> g_ptr g = p
    | Some s' \<Rightarrow> kmalloc_live s' (L(p := None)) \<and> kbytes s' = kbytes s"
proof -
  from assms(1) obtain bs R where inv: "heap_inv s bs R" and L: "live_map bs L" and lock: "\<not> kmalloc_lock s"
    by (auto simp: kmalloc_live_def)
  from L assms(2) obtain g where g: "g \<in> sections bs" "g_ptr g = p" "g_req g = n" unfolding live_map_def by blast
  from kfree_ok [OF inv lock g(1)] show ?thesis
  proof (elim disjE conjE bexE)
    fix b assume "kfree (g_ptr g) s = None" "b \<in> set bs" "b_mins b = [g]"
    with g inv show ?thesis by auto
  next
    assume "freed_ok (kfree (g_ptr g) s) g bs s"
    then obtain s' bs' R' where run: "kfree p s = Some s'" and inv': "heap_inv s' bs' R'"
      and sec: "sections bs' = sections bs - {g}" and s': "\<not> kmalloc_lock s'" "kbytes s' = kbytes s"
      using g(2) by (auto simp: freed_ok_def)
    have "heap_wf bs" using inv by (simp add: heap_inv_def)
    from live_map_remove [OF L this sec g(1)] g(2) inv' s' run show ?thesis
      by (auto simp: kmalloc_live_def)
  qed
qed

lemma alignment_ok_16 [simp]: "alignment_ok DEFAULT_ALIGNMENT"
  unfolding alignment_ok_def DEFAULT_ALIGNMENT_def by (auto intro: exI [of _ 4])

lemma alignment_ok_page [simp]: "alignment_ok PAGE_SIZE"
  unfolding alignment_ok_def PAGE_SIZE_def by (auto intro: exI [of _ 12])

interpretation heap: allocator kmalloc kfree kmalloc_live heap_limit
proof
  fix a :: "'z liballoc_scheme" and L n p a'
  assume "kmalloc_live a L" "n \<le> heap_limit" "kmalloc n a = Some (p, a')"
  with kmemalign_live [of a L DEFAULT_ALIGNMENT n]
  have *: "kmalloc_live a' (L(p \<mapsto> n)) \<and> L p = None \<and> (\<forall>q m. L q = Some m \<longrightarrow> ranges_apart p n q m) \<and> KHEAP_START < p"
    by (simp add: kmalloc_def)
  then show "kmalloc_live a' (L(p \<mapsto> n))" "p \<noteq> NULL \<and> L p = None" by auto
  show "ranges_apart p n q m" if "L q = Some m" for q m using * that by blast
next
  fix a :: "'z liballoc_scheme" and L p n a'
  assume "kmalloc_live a L" "L p = Some n" "kfree p a = Some a'"
  with kfree_live [of a L p n] show "kmalloc_live a' (L(p := None))" by simp
qed

interpretation pages: allocator kvalloc kfree kmalloc_live heap_limit
proof
  fix a :: "'z liballoc_scheme" and L n p a'
  assume "kmalloc_live a L" "n \<le> heap_limit" "kvalloc n a = Some (p, a')"
  with kmemalign_live [of a L PAGE_SIZE n]
  have *: "kmalloc_live a' (L(p \<mapsto> n)) \<and> L p = None \<and> (\<forall>q m. L q = Some m \<longrightarrow> ranges_apart p n q m) \<and> KHEAP_START < p"
    by (simp add: kvalloc_def)
  then show "kmalloc_live a' (L(p \<mapsto> n))" "p \<noteq> NULL \<and> L p = None" by auto
  show "ranges_apart p n q m" if "L q = Some m" for q m using * that by blast
next
  fix a :: "'z liballoc_scheme" and L p n a'
  assume "kmalloc_live a L" "L p = Some n" "kfree p a = Some a'"
  then show "kmalloc_live a' (L(p := None))" by (rule heap.free_live)
qed


subsection \<open>When pages are found\<close>

text \<open>The page tables of the heap exist: \<^verbatim>\<open>init_paging\<close> makes them before the heap is used.\<close>

definition heap_mapped :: "nat \<Rightarrow> nat \<Rightarrow> 'z liballoc_scheme \<Rightarrow> bool" where
  "heap_mapped k n s \<longleftrightarrow> (\<forall>i<n. \<exists>t j. lookup_page (heap_page (k + i)) (kernel_dir s) s = Some (Some (t, j))
     \<and> page_tables s t \<noteq> None)"

lemma alloc_frame_total:
  assumes "frames_ok s" "page_tables s t \<noteq> None" "free_frames s \<noteq> {}"
  obtains s' where "alloc_frame (t, j) kern rw s = Some s'" "frames_ok s'" "card (free_frames s) \<le> card (free_frames s') + 1"
    "page_dirs s' = page_dirs s" "kernel_dir s' = kernel_dir s" "kheap s' = kheap s"
    "\<And>u. page_tables s' u = None \<longleftrightarrow> page_tables s u = None"
proof -
  obtain pt where pt: "page_tables s t = Some pt" using assms(2) by blast
  show thesis
  proof (cases "pg_frame (pt j) = 0")
    case True
    note new = alloc_frame_new [OF assms(1) pt True assms(3)]
    show ?thesis
      by (rule that [OF new(1)])
        (use assms(1) pt new(2) in \<open>auto simp: frame_given_ok free_frames_given card_Diff_singleton\<close>)
  next
    case False
    then have "alloc_frame (t, j) kern rw s = Some s" using pt by (simp add: alloc_frame_def read_page_def)
    then show ?thesis using that assms(1) by simp
  qed
qed

lemma liballoc_map_total:
  assumes "frames_ok s" "kheap s" "length is \<le> card (free_frames s)"
    and "\<forall>i\<in>set is. k + i \<le> 165536 \<and> (\<exists>t j. lookup_page (heap_page (k + i)) (kernel_dir s) s = Some (Some (t, j)) \<and> page_tables s t \<noteq> None)"
  shows "liballoc_map (heap_page k) is s \<noteq> None"
  using assms
proof (induction "is" arbitrary: s)
  case (Cons i "is")
  from Cons.prems(4) obtain t j where l: "lookup_page (heap_page (k + i)) (kernel_dir s) s = Some (Some (t, j))"
    "page_tables s t \<noteq> None" and i: "k + i \<le> 165536"
    by auto
  have g: "get_page no_heap (heap_page (k + i)) True (kernel_dir s) s = Some (Some (t, j), s)"
    using l(1) by (simp add: get_page_def)
  have ff: "free_frames s \<noteq> {}" using Cons.prems(3) by auto
  obtain s1 where s1: "alloc_frame (t, j) True True s = Some s1" "frames_ok s1" "card (free_frames s) \<le> card (free_frames s1) + 1"
    "page_dirs s1 = page_dirs s" "kernel_dir s1 = kernel_dir s" "kheap s1 = kheap s"
    "\<And>u. page_tables s1 u = None \<longleftrightarrow> page_tables s u = None"
    using alloc_frame_total [OF Cons.prems(1) l(2) ff, of j True True] by metis
  define s2 where "s2 = s1\<lparr>heap_frames := bm_set (k + i) (heap_frames s1)\<rparr>"
  have lk: "lookup_page a (kernel_dir s2) s2 = lookup_page a (kernel_dir s) s" for a
    using s1(4,5) by (simp add: s2_def lookup_page_def)
  have tab: "page_tables s2 u = None \<longleftrightarrow> page_tables s u = None" for u using s1(7) by (simp add: s2_def)
  have "liballoc_map (heap_page k) is s2 \<noteq> None"
  proof (rule Cons.IH)
    show "frames_ok s2" "kheap s2" using s1(2,6) Cons.prems(2) by (simp_all add: s2_def frames_ok_def)
    have "free_frames s2 = free_frames s1" by (simp add: s2_def free_frames_def frame_limit_def)
    then show "length is \<le> card (free_frames s2)" using Cons.prems(3) s1(3) by simp
    show "\<forall>i\<in>set is. k + i \<le> 165536 \<and> (\<exists>t j. lookup_page (heap_page (k + i)) (kernel_dir s2) s2 = Some (Some (t, j))
        \<and> page_tables s2 t \<noteq> None)"
      unfolding lk tab using Cons.prems(4) by simp
  qed
  moreover have "liballoc_map (heap_page k) (i # is) s = liballoc_map (heap_page k) is s2"
    using g s1(1) i by (simp add: heap_page_add32 set_heap_frame_def heap_frame_page heap_frame_index s2_def)
  ultimately show ?case by simp
qed simp

lemma liballoc_alloc_total:
  assumes "frames_ok s" "kheap s" "n \<le> card (free_frames s)" "n \<le> page_limit"
    and "\<exists>k<65536. run_clear (heap_frames s) k n" "\<And>k. k < 65536 \<Longrightarrow> run_clear (heap_frames s) k n \<Longrightarrow> heap_mapped k n s"
  shows "liballoc_alloc n s \<noteq> None"
proof (rule first_n_frames_cases [OF assms(4), of s])
  assume "\<And>m. m < 65536 \<Longrightarrow> \<not> run_clear (heap_frames s) m n"
  with assms(5) show ?thesis by auto
next
  fix m assume m: "first_n_frames n s = Some (heap_page m)" "m < 65536" "run_clear (heap_frames s) m n"
  have "heap_mapped m n s" using assms(6) m(2,3) by blast
  moreover have "\<forall>i<n. m + i \<le> 165536" using m(2) assms(4) by (simp add: page_limit_def)
  ultimately have "liballoc_map (heap_page m) [0..<n] s \<noteq> None"
    using assms(1-3) by (intro liballoc_map_total) (auto simp: heap_mapped_def)
  moreover have "heap_page m < 0xFFFFFFFF" using m(2) by (simp add: heap_page_def KHEAP_START_def)
  ultimately show ?thesis using m(1) by (auto simp: liballoc_alloc_def)
qed

end
