(* ===== verification/Kmalloc_Realloc.thy ===== *)
theory Kmalloc_Realloc
  imports Kmalloc_Spec
begin

section \<open>The kernel heap: properties\<close>

text \<open>
  \<^verbatim>\<open>krealloc\<close> and \<^verbatim>\<open>kcalloc\<close>, the page that \<^verbatim>\<open>liballoc_free\<close> gives back, and the properties of the
  allocator as a whole, each with an example on a small machine.
\<close>

subsection \<open>Copying and clearing bytes\<close>

lemma liballoc_memset_ok:
  "liballoc_memset p c n m = (\<lambda>a. if p \<le> a \<and> a < p + n then c else m a)"
proof (induction n arbitrary: p m)
  case (Suc n)
  have "liballoc_memset p c (Suc n) m = (\<lambda>a. if p + 1 \<le> a \<and> a < p + 1 + n then c else (m(p := c)) a)"
    by (simp only: liballoc_memset.simps Suc.IH)
  then show ?case by (auto simp: fun_eq_iff)
qed (auto simp: fun_eq_iff)

lemma memcpy_bytes_ok:
  "d + n \<le> s \<or> s + n \<le> d \<Longrightarrow> memcpy_bytes d s n m = (\<lambda>a. if d \<le> a \<and> a < d + n then m (s + (a - d)) else m a)"
proof (induction n arbitrary: d s m)
  case (Suc n)
  have "memcpy_bytes (d + 1) (s + 1) n (m(d := m s)) =
      (\<lambda>a. if d + 1 \<le> a \<and> a < d + 1 + n then (m(d := m s)) (s + 1 + (a - (d + 1))) else (m(d := m s)) a)"
    using Suc.prems by (intro Suc.IH) auto
  then show ?case
    using Suc.prems by (auto simp: fun_eq_iff le_less Suc_le_eq intro!: arg_cong [where f = m])
qed (auto simp: fun_eq_iff)

lemma liballoc_memcpy_ok:
  "d + n \<le> s \<or> s + n \<le> d \<Longrightarrow> liballoc_memcpy d s n m = (\<lambda>a. if d \<le> a \<and> a < d + n then m (s + (a - d)) else m a)"
proof (induction n arbitrary: d s m rule: less_induct)
  case (less n)
  show ?case
  proof (cases "n \<ge> 4")
    case False
    then show ?thesis using memcpy_bytes_ok [OF less.prems] by (simp add: liballoc_memcpy.simps [of d s n m])
  next
    case True
    let ?m = "m(d := m s, d + 1 := m (s + 1), d + 2 := m (s + 2), d + 3 := m (s + 3))"
    have w: "?m a = (if d \<le> a \<and> a < d + 4 then m (s + (a - d)) else m a)" for a
    proof (cases "d \<le> a \<and> a < d + 4")
      case True
      then have "a - d = 0 \<or> a - d = 1 \<or> a - d = 2 \<or> a - d = 3" by linarith
      with True show ?thesis by auto
    qed auto
    have "liballoc_memcpy (d + 4) (s + 4) (n - 4) ?m =
        (\<lambda>a. if d + 4 \<le> a \<and> a < d + 4 + (n - 4) then ?m (s + 4 + (a - (d + 4))) else ?m a)"
      using less.prems True by (intro less.IH) auto
    also have "\<dots> = (\<lambda>a. if d \<le> a \<and> a < d + n then m (s + (a - d)) else m a)"
      using less.prems True unfolding w by (auto simp: fun_eq_iff)
    finally show ?thesis using True by (simp add: liballoc_memcpy.simps [of d s n m])
  qed
qed

subsection \<open>krealloc\<close>

lemma shrink_ok:
  assumes inv: "heap_inv s (B1 @ b # B2) R" and b: "b_mins b = xs @ g # ys" and r: "r \<le> g_req g"
    and mn: "minors s (g_addr g) = Some mn"
  shows "heap_inv (s\<lparr>minors := (minors s)(g_addr g \<mapsto> mn\<lparr>mn_req_size := r\<rparr>)\<rparr>)
    (B1 @ b\<lparr>b_mins := xs @ g\<lparr>g_req := r\<rparr> # ys\<rparr> # B2) R"
proof -
  let ?g = "g\<lparr>g_req := r\<rparr>" and ?s = "s\<lparr>minors := (minors s)(g_addr g \<mapsto> mn\<lparr>mn_req_size := r\<rparr>)\<rparr>"
  let ?b = "b\<lparr>b_mins := xs @ ?g # ys\<rparr>"
  have rep: "heap_rep s (B1 @ b # B2)" and wf: "heap_wf (B1 @ b # B2)" and bwf: "b_wf b"
    using inv by (auto simp: heap_inv_def heap_wf_def)
  have [simp]: "g_end ?g = g_end g" by (simp add: g_end_def)
  have usage: "b_usage ?b = b_usage b" by (simp add: b_usage_def b)
  have dist: "distinct (map g_addr (xs @ g # ys))" using laid_distinct [of "b_addr b + 24" "b_mins b"] bwf b by (auto simp: b_wf_def)
  then have neq: "h \<in> set (xs @ ys) \<Longrightarrow> g_addr h \<noteq> g_addr g" for h by (auto simp: image_iff)
  obtain m0 where m0: "majors s (b_addr b) = Some m0" "mj_usage m0 = b_usage b" "mj_first m0 = g_first (xs @ g # ys) NULL"
    using heap_rep_block(1) [OF rep] b by (simp add: major_of_def)
  have "heap_rep ?s (B1 @ ?b # B2)"
  proof (rule insert_rep [OF rep wf refl m0(1)])
    show "majors ?s = (majors s)(b_addr b \<mapsto> m0\<lparr>mj_first := g_first (xs @ ?g # ys) NULL, mj_usage := b_usage ?b\<rparr>)"
      using m0 by (auto simp: fun_eq_iff usage g_first_append)
    have "minors_rep (minors ?s) M q zs e = minors_rep (minors s) M q zs e" if "set zs \<subseteq> set (xs @ ys)" for M q zs e
      using neq that by (intro minors_rep_cong) (auto simp: subset_iff)
    then show "minors_rep (minors ?s) (b_addr b) NULL (xs @ ?g # ys) NULL"
      using heap_rep_block(2) [OF rep] b mn by (simp add: minors_rep_append)
    show "\<forall>h\<in>set (xs @ ?g # ys). aligns_rep (aligns ?s) h" using rep b by (auto simp: heap_rep_def aligns_rep_def)
    show "minors ?s (g_addr h) = minors s (g_addr h) \<and> aligns ?s (g_ptr h) = aligns s (g_ptr h)"
      if "c \<in> set (B1 @ B2)" "h \<in> set (b_mins c)" for c h
      using heap_wf_mem_cases(1) [OF wf that] b_wf_mem(1,2) [OF bwf, of g] b by (auto simp: g_end_def)
  qed simp_all
  moreover have "laid lo (xs @ ?g # ys) hi = laid lo (xs @ g # ys) hi" for lo hi by (simp add: laid_append)
  then have "b_wf ?b" using bwf b r by (auto simp: b_wf_def b_end_def g_wf_def)
  then have "heap_wf (B1 @ ?b # B2)"
    using wf unfolding heap_wf_middle by (auto simp: b_disjoint_def b_end_def)
  moreover have "blocks_in (B1 @ ?b # B2) R" using inv by (auto simp: heap_inv_def blocks_in_def)
  ultimately show ?thesis using inv by (simp add: heap_inv_def)
qed

lemma live_section:
  assumes "kmalloc_live s L" "L p = Some n"
  obtains bs R B1 b B2 xs g ys mn where "heap_inv s bs R" "live_map bs L" "bs = B1 @ b # B2" "b_mins b = xs @ g # ys"
    "g_ptr g = p" "g_req g = n" "UNALIGN p s = Some (g_addr g + 24)" "sub32 (g_addr g + 24) sizeof_minor = g_addr g"
    "minors s (g_addr g) = Some mn" "mn_magic mn = LIBALLOC_MAGIC" "mn_req_size mn = n" "p \<noteq> NULL" "g \<in> sections bs"
proof -
  from assms obtain bs R g where inv: "heap_inv s bs R" and L: "live_map bs L" and g: "g \<in> sections bs" "g_ptr g = p" "g_req g = n"
    unfolding kmalloc_live_def live_map_def by blast
  then obtain b where b: "b \<in> set bs" "g \<in> set (b_mins b)" by (auto simp: sections_def)
  then obtain B1 B2 xs ys where bs: "bs = B1 @ b # B2" and mins: "b_mins b = xs @ g # ys" by (meson split_list)
  have rep: "heap_rep s bs" and bwf: "b_wf b" using inv b(1) by (auto simp: heap_inv_def heap_wf_def)
  note gm = b_wf_mem [OF bwf b(2)]
  have ptr: "g_ptr g < two32" "g_ptr g \<noteq> NULL" using gm(3,4) by (auto simp: g_wf_def)
  have "aligns_rep (aligns s) g" using rep b by (auto simp: heap_rep_def)
  then have un: "UNALIGN p s = Some (g_addr g + 24)" using UNALIGN_ok gm(3) ptr(1) g(2) by blast
  have sub: "sub32 (g_addr g + 24) sizeof_minor = g_addr g"
    using gm(4) by (simp add: sub32_small sizeof_minor_def g_end_def)
  obtain mn where "minors s (g_addr g) = Some mn" "mn_magic mn = LIBALLOC_MAGIC" "mn_req_size mn = n"
    using heap_rep_block(2) [of s B1 b B2] rep bs mins g(3) by (auto simp: minors_rep_append)
  then show thesis using that [OF inv L bs mins g(2,3) un sub] ptr(2) g by auto
qed

lemma kmalloc_live_bytes [simp]: "kmalloc_live (s\<lparr>kbytes := m\<rparr>) L \<longleftrightarrow> kmalloc_live s L"
proof -
  have "heap_inv (s\<lparr>kbytes := m\<rparr>) bs R \<longleftrightarrow> heap_inv s bs R" for bs R
    by (simp add: heap_inv_def heap_rep_def)
  then show ?thesis by (simp add: kmalloc_live_def)
qed

lemma krealloc_grow:
  assumes live: "kmalloc_live s L" and p: "L p = Some n" "n < sz" and sz: "sz \<le> heap_limit"
    and run: "krealloc p sz s = Some (q, s')"
  shows "kmalloc_live s' (L(p := None, q \<mapsto> sz)) \<and> L q = None
    \<and> kbytes s' = (\<lambda>a. if q \<le> a \<and> a < q + n then kbytes s (p + (a - q)) else kbytes s a)"
proof -
  from live_section [OF live p(1)] obtain g :: gmin and mn where "UNALIGN p s = Some (g_addr g + 24)"
    "sub32 (g_addr g + 24) sizeof_minor = g_addr g" "minors s (g_addr g) = Some mn" "mn_magic mn = LIBALLOC_MAGIC"
    "mn_req_size mn = n" "p \<noteq> NULL"
    by blast
  moreover have lock: "\<not> kmalloc_lock s" using live by (simp add: kmalloc_live_def)
  then have "liballoc_unlock (s\<lparr>kmalloc_lock := True\<rparr>) = s" by (simp add: liballoc_unlock_def)
  ultimately obtain s1 where m: "kmalloc sz s = Some (q, s1)"
    and f: "kfree p (s1\<lparr>kbytes := liballoc_memcpy q p n (kbytes s1)\<rparr>) = Some s'"
    using run p(2) lock by (auto simp: krealloc_def liballoc_lock_def Let_def split: bind_splits if_splits)
  have live1: "kmalloc_live s1 (L(q \<mapsto> sz))" and new: "L q = None" and ap: "ranges_apart q sz p n"
    using heap.malloc_live [OF live sz m] heap.malloc_new [OF live sz m] heap.malloc_apart [OF live sz m p(1)] by auto
  have kb: "kbytes s1 = kbytes s"
    using kmemalign_live [OF live alignment_ok_16 sz] m by (simp add: kmalloc_def)
  let ?t = "s1\<lparr>kbytes := liballoc_memcpy q p n (kbytes s1)\<rparr>"
  have "p \<noteq> q" using new p(1) by auto
  then have t: "kmalloc_live ?t (L(q \<mapsto> sz))" "(L(q \<mapsto> sz)) p = Some n" using live1 p(1) by simp_all
  from kfree_live [OF t] f have "kmalloc_live s' ((L(q \<mapsto> sz))(p := None))" "kbytes s' = kbytes ?t" by simp_all
  moreover have "(L(q \<mapsto> sz))(p := None) = L(p := None, q \<mapsto> sz)" using \<open>p \<noteq> q\<close> by auto
  moreover have "liballoc_memcpy q p n (kbytes s1) = (\<lambda>a. if q \<le> a \<and> a < q + n then kbytes s (p + (a - q)) else kbytes s a)"
    using ap p(2) unfolding kb ranges_apart_def by (intro liballoc_memcpy_ok) auto
  ultimately show ?thesis using new by simp
qed

lemma krealloc_shrink:
  assumes live: "kmalloc_live s L" and p: "L p = Some n" "sz \<le> n" "0 < sz"
  shows "\<exists>s'. krealloc p sz s = Some (p, s') \<and> kmalloc_live s' (L(p \<mapsto> sz)) \<and> kbytes s' = kbytes s"
proof -
  from live_section [OF live p(1)] obtain bs R B1 b B2 xs g ys mn where inv: "heap_inv s bs R" and L: "live_map bs L"
    and bs: "bs = B1 @ b # B2" and mins: "b_mins b = xs @ g # ys"
    and g: "g_ptr g = p" "g_req g = n" "UNALIGN p s = Some (g_addr g + 24)" "sub32 (g_addr g + 24) sizeof_minor = g_addr g"
      "minors s (g_addr g) = Some mn" "mn_magic mn = LIBALLOC_MAGIC" "mn_req_size mn = n" "p \<noteq> NULL" "g \<in> sections bs" .
  let ?s = "s\<lparr>minors := (minors s)(g_addr g \<mapsto> mn\<lparr>mn_req_size := sz\<rparr>)\<rparr>"
  let ?bs = "B1 @ b\<lparr>b_mins := xs @ g\<lparr>g_req := sz\<rparr> # ys\<rparr> # B2"
  have lock: "\<not> kmalloc_lock s" using live by (simp add: kmalloc_live_def)
  have "liballoc_unlock ((s\<lparr>kmalloc_lock := True\<rparr>)\<lparr>minors := m\<rparr>) = s\<lparr>minors := m\<rparr>" for m
    using lock by (simp add: liballoc_unlock_def)
  then have run: "krealloc p sz s = Some (p, ?s)"
    using g p lock by (simp add: krealloc_def liballoc_lock_def upd_minor_def Let_def)
  have inv': "heap_inv ?s ?bs R" using shrink_ok [of s B1 b B2 R xs g ys sz mn] inv bs mins g p(2) by simp
  have wf: "heap_wf bs" using inv by (simp add: heap_inv_def)
  have "live_map ?bs (L(p \<mapsto> sz))"
  proof -
    have "b\<lparr>b_mins := xs @ g # ys\<rparr> = b" using mins by simp
    with wf bs have "heap_wf (B1 @ b\<lparr>b_mins := xs @ g # ys\<rparr> # B2)" by simp
    note nd = new_section_distinct [OF this]
    have sec: "sections ?bs = insert (g\<lparr>g_req := sz\<rparr>) (sections bs - {g})"
      using bs mins nd by (auto simp: sections_def)
    have other: "h \<in> sections bs \<Longrightarrow> h \<noteq> g \<Longrightarrow> g_ptr h \<noteq> p" for h
      using sections_ptr_apart(2) [OF wf _ g(9), of h] g(1) by auto
    have "(L(p \<mapsto> sz)) q = Some m \<longleftrightarrow> (\<exists>h\<in>insert (g\<lparr>g_req := sz\<rparr>) (sections bs - {g}). g_ptr h = q \<and> g_req h = m)" for q m
    proof (cases "q = p")
      case True
      with other g(1) show ?thesis by auto
    next
      case False
      have "L q = Some m \<longleftrightarrow> (\<exists>h\<in>sections bs. g_ptr h = q \<and> g_req h = m)" using L by (simp add: live_map_def)
      also have "\<dots> \<longleftrightarrow> (\<exists>h\<in>sections bs - {g}. g_ptr h = q \<and> g_req h = m)" using False g(1) by blast
      finally show ?thesis using False g(1) by simp
    qed
    then show ?thesis unfolding live_map_def sec by blast
  qed
  with run inv' lock show ?thesis by (auto simp: kmalloc_live_def)
qed


subsection \<open>The page that liballoc_free frees\<close>

lemma free_frame_page:
  assumes "free_frame (Some (t, j)) s = Some s'" "page_tables s t = Some pt"
  shows "page_tables s' = (page_tables s)(t \<mapsto> pt(j := if pg_frame (pt j) = 0 then pt j
      else (pt j)\<lparr>pg_present := False, pg_frame := 0\<rparr>))" "page_dirs s' = page_dirs s" "kernel_dir s' = kernel_dir s"
proof -
  show "page_tables s' = (page_tables s)(t \<mapsto> pt(j := if pg_frame (pt j) = 0 then pt j
      else (pt j)\<lparr>pg_present := False, pg_frame := 0\<rparr>))"
  proof (cases "pg_frame (pt j) = 0")
    case True
    then have "s' = s" using assms by (simp add: free_frame_def read_page_def)
    with True assms(2) show ?thesis by (simp add: fun_upd_idem)
  next
    case False
    with assms show ?thesis by (auto simp: free_frame_def read_page_def clear_frame_def put_page_def Let_def split: if_splits)
  qed
  show "page_dirs s' = page_dirs s" "kernel_dir s' = kernel_dir s"
    using assms by (auto simp: free_frame_def read_page_def clear_frame_def put_page_def Let_def split: if_splits)
qed

lemma liballoc_unmap_page:
  assumes "liballoc_unmap (heap_page k) n is s = Some s'" "kheap s" "k + n \<le> 165536" "is \<noteq> []"
    and "lookup_page (heap_page (k + n)) (kernel_dir s) s = Some (Some (t, j))" "page_tables s t = Some pt"
  shows "page_tables s' = (page_tables s)(t \<mapsto> pt(j := if pg_frame (pt j) = 0 then pt j
      else (pt j)\<lparr>pg_present := False, pg_frame := 0\<rparr>))"
  using assms
proof (induction "is" arbitrary: s pt)
  case (Cons i "is")
  let ?z = "\<lambda>pt :: page_table. pt(j := if pg_frame (pt j) = 0 then pt j else (pt j)\<lparr>pg_present := False, pg_frame := 0\<rparr>)"
  have page: "add32 (heap_page k) (n * PAGE_SIZE) = heap_page (k + n)" using Cons.prems(3) by (rule heap_page_add32)
  have "get_page no_heap (heap_page (k + n)) False (kernel_dir s) s = Some (Some (t, j), s)"
    using Cons.prems(5) by (simp add: get_page_def)
  with Cons.prems(1,3) page obtain s1 where f: "free_frame (Some (t, j)) s = Some s1"
    and rest: "liballoc_unmap (heap_page k) n is (s1\<lparr>heap_frames := bm_clear (k + n) (heap_frames s1)\<rparr>) = Some s'"
    by (auto simp: clear_heap_frame_def heap_frame_page heap_frame_index split: bind_splits)
  define t1 where "t1 = s1\<lparr>heap_frames := bm_clear (k + n) (heap_frames s1)\<rparr>"
  note fp = free_frame_page [OF f Cons.prems(6)]
  have tab: "page_tables t1 = (page_tables s)(t \<mapsto> ?z pt)" using fp(1) by (simp add: t1_def)
  show ?case
  proof (cases "is = []")
    case True
    then have "s' = t1" using rest by (simp add: t1_def)
    with tab show ?thesis by (simp only:)
  next
    case False
    have "page_tables s' = (page_tables t1)(t \<mapsto> ?z (?z pt))"
    proof (rule Cons.IH [OF rest [folded t1_def] _ Cons.prems(3) False])
      show "kheap t1" using free_frame_same [OF f] Cons.prems(2) by (simp add: t1_def headers_same_def)
      show "lookup_page (heap_page (k + n)) (kernel_dir t1) t1 = Some (Some (t, j))"
        using Cons.prems(5) fp(2,3) by (simp add: t1_def lookup_page_def)
      show "page_tables t1 t = Some (?z pt)" unfolding tab by (rule fun_upd_same)
    qed
    also have "?z (?z pt) = ?z pt" by (rule ext) simp
    also have "(page_tables t1)(t \<mapsto> ?z pt) = (page_tables s)(t \<mapsto> ?z pt)" unfolding tab by (rule fun_upd_upd)
    finally show ?thesis .
  qed
qed simp

subsection \<open>An example machine\<close>

text \<open>
  Sixty-four frames, three of them in use; one page table that every heap page is looked up in;
  an empty heap.
\<close>

definition demo_heap :: liballoc where
  "demo_heap = \<lparr>frames = (\<lambda>_. 0)(0 := 7), nframes = 64, frame_lock = False, kernel_dir = 4096, current_dir = 4096,
     page_tables = [8192 \<mapsto> (\<lambda>_. zero_page)], page_dirs = [4096 \<mapsto> zero_dir\<lparr>dir_tables := (\<lambda>_. 8192)\<rparr>], kheap = True,
     placement_address = 0xC0200000, phys = (\<lambda>_. 0), cr3 = 0,
     heap_frames = (\<lambda>_. 0), l_memRoot = NULL, l_bestBet = NULL, l_allocated = 0, l_inuse = 0,
     l_warningCount = 0, l_errorCount = 0, l_possibleOverruns = 0, kmalloc_lock = False,
     majors = Map.empty, minors = Map.empty, aligns = Map.empty, kbytes = (\<lambda>_. 0)\<rparr>"

definition demo_marked :: liballoc where
  "demo_marked = demo_heap\<lparr>heap_frames := bm_set 0 (bm_set 1 (\<lambda>_. 0)),
     page_tables := [8192 \<mapsto> (\<lambda>_. zero_page\<lparr>pg_present := True, pg_frame := 2\<rparr>)]\<rparr>"

lemma demo_heap_live: "kmalloc_live demo_heap Map.empty"
proof -
  have "heap_inv demo_heap [] {}"
    by (simp add: demo_heap_def heap_inv_def heap_rep_def heap_wf_def frames_inv_def blocks_in_def)
  moreover have "live_map [] Map.empty" by (simp add: live_map_def)
  ultimately show ?thesis by (auto simp: kmalloc_live_def demo_heap_def)
qed

lemma demo_heap_free: "frames_ok demo_heap" "free_frames demo_heap = {3..<64}"
proof -
  have bits: "bm_test k (frames demo_heap) \<longleftrightarrow> k < 3" for k
    using demo_bits [of k] by (simp add: demo_heap_def demo_paging_def)
  show "frames_ok demo_heap" by (simp add: frames_ok_def bits) (simp add: demo_heap_def)
  show "free_frames demo_heap = {3..<64}"
    by (auto simp: free_frames_def bits frame_limit_def INDEX_FROM_BIT_div) (auto simp: demo_heap_def)
qed

lemma demo_heap_pages:
  "\<exists>k<65536. run_clear (heap_frames demo_heap) k n" "heap_mapped k n demo_heap"
proof -
  have "run_clear (heap_frames demo_heap) 0 n" by (simp add: run_clear_def demo_heap_def)
  then show "\<exists>k<65536. run_clear (heap_frames demo_heap) k n" by (intro exI [of _ 0]) simp
  show "heap_mapped k n demo_heap"
    by (simp add: heap_mapped_def lookup_page_def demo_heap_def zero_dir_def Let_def)
qed

lemma pages_needed_small: "sz \<le> 65000 \<Longrightarrow> pages_needed sz = 16"
proof -
  assume sz: "sz \<le> 65000"
  have "(48 + sz) div 4096 \<le> (48 + 65000) div 4096" using sz by (intro div_le_mono) simp
  then show ?thesis using sz
    by (simp add: pages_needed_def Let_def sizeof_major_def sizeof_minor_def add32_small two32_def PAGE_SIZE_def PAGE_COUNT_def)
qed

lemma demo_heap_pages16: "liballoc_alloc 16 demo_heap \<noteq> None"
  by (rule liballoc_alloc_total) (use demo_heap_free demo_heap_pages in \<open>simp_all add: page_limit_def\<close>,
    simp add: demo_heap_def)

lemma demo_heap_alloc: "\<exists>p s. kmalloc 100 demo_heap = Some (p, s) \<and> kmalloc_live s [p \<mapsto> 100]"
  using kmemalign_live [OF demo_heap_live alignment_ok_16, of 100] demo_heap_pages16
  by (auto simp: kmalloc_def heap_limit_def pages_needed_small DEFAULT_ALIGNMENT_def split: option.splits)

subsection \<open>Properties\<close>







lemma wrap_back: "z < M \<Longrightarrow> a < M \<Longrightarrow> ((a + z) mod M + (M - z)) mod M = (a :: nat)"
proof -
  assume z: "z < M" "a < M"
  have "((a + z) mod M + (M - z)) mod M = (a + z + (M - z)) mod M" by (rule mod_add_left_eq)
  also have "a + z + (M - z) = a + M" using z by simp
  finally show ?thesis using z by simp
qed

text \<open>
  Freeing what was just allocated gives back the blocks in use and the running total of the
  bytes in use as they were before.
\<close>

theorem kmalloc_kfree:
  assumes "kmalloc_live s L" "n \<le> heap_limit" "l_inuse s < two64" "kmalloc n s = Some (p, s1)" "kfree p s1 = Some s2"
  shows "kmalloc_live s2 L \<and> l_inuse s2 = l_inuse s"
proof
  show "kmalloc_live s2 L" using heap.malloc_free assms(1,2,4,5) by blast
  from assms(1) obtain bs R where inv: "heap_inv s bs R" "\<not> kmalloc_lock s" by (auto simp: kmalloc_live_def)
  let ?sz = "n + DEFAULT_ALIGNMENT + 16"
  have "allocated_ok (Some (p, s1)) DEFAULT_ALIGNMENT n ?sz bs s"
    using kmemalign_ok [OF inv request_ok_limit [OF alignment_ok_16 assms(2)]] assms(4) by (simp add: kmalloc_def)
  then obtain bs' R' g where g: "heap_inv s1 bs' R'" "\<not> kmalloc_lock s1" "g \<in> sections bs'" "g_ptr g = p" "g_size g = ?sz"
    "l_inuse s1 = (l_inuse s + ?sz) mod two64"
    by (auto simp: allocated_ok_def)
  then have "l_inuse s2 = (l_inuse s1 + (two64 - ?sz)) mod two64"
    using kfree_ok [OF g(1-3)] assms(5) by (auto simp: freed_ok_def)
  moreover have "?sz < two64" using assms(2) by (simp add: heap_limit_def two64_def DEFAULT_ALIGNMENT_def)
  ultimately show "l_inuse s2 = l_inuse s"
    using assms(3) g(6) wrap_back [of ?sz two64 "l_inuse s"] by simp
qed

theorem kmalloc_kfree_witness:
  "\<exists>p s1. kmalloc 100 demo_heap = Some (p, s1) \<and>
    (case kfree p s1 of None \<Rightarrow> True | Some s2 \<Rightarrow> kmalloc_live s2 Map.empty \<and> l_inuse s2 = 0)"
proof -
  from demo_heap_alloc obtain p s where run: "kmalloc 100 demo_heap = Some (p, s)" by blast
  have "l_inuse demo_heap = 0" by (simp add: demo_heap_def)
  with kmalloc_kfree [OF demo_heap_live _ _ run] have "case kfree p s of
      None \<Rightarrow> True | Some s2 \<Rightarrow> kmalloc_live s2 Map.empty \<and> l_inuse s2 = 0"
    by (cases "kfree p s") (simp_all add: heap_limit_def two64_def)
  with run show ?thesis by blast
qed



text \<open>
  \<^verbatim>\<open>liballoc_free\<close> does not free the block it is given. When it returns, the marks and the page
  entries of the pages of the block are unchanged, and the page behind the block has lost its
  mark in the bitmap and, if it had a frame, that frame: it may be the first page, with the
  header, of the next block in use.
\<close>

theorem liballoc_free_next_page:
  assumes "liballoc_free (heap_page k) n s = Some s'" "kheap s" "0 < n" "k + n \<le> 165536"
    and "lookup_page (heap_page (k + n)) (kernel_dir s) s = Some (Some (t, j))" "page_tables s t = Some pt"
  shows "(\<forall>i. bm_test i (heap_frames s') \<longleftrightarrow> bm_test i (heap_frames s) \<and> i \<noteq> k + n)
    \<and> (\<exists>pt'. page_tables s' = (page_tables s)(t \<mapsto> pt') \<and> pg_frame (pt' j) = 0
         \<and> (pg_frame (pt j) \<noteq> 0 \<longrightarrow> \<not> pg_present (pt' j)) \<and> (\<forall>i. i \<noteq> j \<longrightarrow> pt' i = pt i))"
proof -
  have run: "liballoc_unmap (heap_page k) n [0..<n] s = Some s'" "[0..<n] \<noteq> []"
    using assms(1,3) by (simp_all add: liballoc_free_def)
  from liballoc_unmap_ok [OF run(1) assms(2,4)] run(2)
  have "\<forall>i. bm_test i (heap_frames s') \<longleftrightarrow> bm_test i (heap_frames s) \<and> i \<noteq> k + n" by auto
  moreover from liballoc_unmap_page [OF run(1) assms(2,4) run(2) assms(5,6)]
  have "\<exists>pt'. page_tables s' = (page_tables s)(t \<mapsto> pt') \<and> pg_frame (pt' j) = 0
      \<and> (pg_frame (pt j) \<noteq> 0 \<longrightarrow> \<not> pg_present (pt' j)) \<and> (\<forall>i. i \<noteq> j \<longrightarrow> pt' i = pt i)"
    by (intro exI [of _ "pt(j := if pg_frame (pt j) = 0 then pt j else (pt j)\<lparr>pg_present := False, pg_frame := 0\<rparr>)"] conjI)
      (assumption, simp_all)
  ultimately show ?thesis ..
qed

theorem liballoc_free_next_page_witness:
  "\<exists>s'. liballoc_free (heap_page 0) 1 demo_marked = Some s' \<and> bm_test 0 (heap_frames s')
     \<and> bm_test 1 (heap_frames demo_marked) \<and> \<not> bm_test 1 (heap_frames s')"
proof -
  let ?j = "heap_page 1 div PAGE_SIZE mod 1024" and ?pt = "\<lambda>_ :: nat. zero_page\<lparr>pg_present := True, pg_frame := 2\<rparr>"
  have look: "lookup_page (heap_page (0 + 1)) (kernel_dir demo_marked) demo_marked = Some (Some (8192, ?j))"
    and tab: "page_tables demo_marked 8192 = Some ?pt" and kh: "kheap demo_marked"
    by (simp_all add: lookup_page_def demo_marked_def demo_heap_def zero_dir_def Let_def)
  have marks: "bm_test 0 (heap_frames demo_marked)" "bm_test 1 (heap_frames demo_marked)"
    by (simp_all add: demo_marked_def)
  have "add32 (heap_page 0) PAGE_SIZE = heap_page 1" using heap_page_add32 [of 0 1] by simp
  moreover have "\<exists>s1. free_frame (Some (8192, ?j)) demo_marked = Some s1"
    using tab by (auto simp: free_frame_def read_page_def clear_frame_def put_page_def Let_def PAGE_SIZE_def mul32_def two32_def INDEX_FROM_BIT_div
        demo_marked_def demo_heap_def)
  ultimately obtain s' where run: "liballoc_free (heap_page 0) 1 demo_marked = Some s'"
    using look by (auto simp: liballoc_free_def get_page_def clear_heap_frame_def heap_frame_page heap_frame_index)
  with liballoc_free_next_page [OF run kh _ _ look tab] marks show ?thesis by auto
qed

end
