(* ===== verification/Objects.thy ===== *)
theory Objects
  imports Kmalloc_Realloc
begin

section \<open>Objects in the kernel heap\<close>

text \<open>
  The structures that lists, trees and hash maps keep in memory they get from \<^verbatim>\<open>kmalloc\<close>. Their
  code is written over an allocator, the two functions \<open>km\<close> and \<open>kf\<close>, which stand for \<^verbatim>\<open>kmalloc\<close>
  and \<^verbatim>\<open>kfree\<close> and are instantiated by the model of kmalloc.c.

  The memory is a map from addresses to the objects that live there. Allocating a block puts an
  object without contents at its address; freeing a block takes the object away, so that a read
  or a write through a pointer to freed memory has no result. One map for all structures makes
  this hold also for a pointer of type \<^verbatim>\<open>void *\<close> that is freed without its type being known.
\<close>

subsection \<open>The structures (structures/list.h, tree.h, hashmap.h)\<close>

record node_t =
  node_prev :: addr
  node_next :: addr
  node_data :: addr
  node_owner :: addr

record list_t =
  list_head :: addr
  list_tail :: addr

record tree_node_t =
  tn_data :: addr
  tn_children :: addr
  tn_parent :: addr
  tn_owner :: addr

record tree_t =
  tree_root :: addr

record kv_t =
  kv_key :: addr
  kv_value :: addr
  kv_next :: addr

type_synonym hash_t = "8 word list \<Rightarrow> 32 word"

record hashmap_t =
  hm_array :: addr
  hm_hash :: hash_t
  hm_n :: nat

datatype kobj =
  Raw
| List_obj list_t
| Node_obj node_t
| Tree_obj tree_t
| Tree_node_obj tree_node_t
| Kv_obj kv_t
| Hashmap_obj hashmap_t
| Kv_array "addr list"
| Chars "8 word list"

record 'a kmem =
  kheap_of :: 'a
  objs :: "addr \<rightharpoonup> kobj"

type_synonym 'a kmalloc_fn = "nat \<Rightarrow> 'a \<Rightarrow> (addr \<times> 'a) option"
type_synonym 'a kfree_fn = "addr \<Rightarrow> 'a \<Rightarrow> 'a option"

text \<open>The sizes of the structures on the 32-bit target.\<close>

definition sizeof_node_t :: nat where "sizeof_node_t = 16"
definition sizeof_list_t :: nat where "sizeof_list_t = 8"
definition sizeof_tree_node_t :: nat where "sizeof_tree_node_t = 16"
definition sizeof_tree_t :: nat where "sizeof_tree_t = 4"
definition sizeof_kv_t :: nat where "sizeof_kv_t = 12"
definition sizeof_hashmap_t :: nat where "sizeof_hashmap_t = 12"

lemmas sizeof_defs = sizeof_node_t_def sizeof_list_t_def sizeof_tree_node_t_def sizeof_tree_t_def
  sizeof_kv_t_def sizeof_hashmap_t_def

subsection \<open>Access\<close>

definition new_obj :: "'a kmalloc_fn \<Rightarrow> nat \<Rightarrow> 'a kmem \<Rightarrow> (addr \<times> 'a kmem) option" where
  "new_obj km n m = do {
     (p, a) \<leftarrow> km n (kheap_of m);
     if p = NULL then Some (NULL, m\<lparr>kheap_of := a\<rparr>)
     else Some (p, m\<lparr>kheap_of := a, objs := (objs m)(p \<mapsto> Raw)\<rparr>)
   }"

definition free_obj :: "'a kfree_fn \<Rightarrow> addr \<Rightarrow> 'a kmem \<Rightarrow> 'a kmem option" where
  "free_obj kf p m = do {
     a \<leftarrow> kf p (kheap_of m);
     Some (m\<lparr>kheap_of := a, objs := (objs m)(p := None)\<rparr>)
   }"

definition put_obj :: "addr \<Rightarrow> kobj \<Rightarrow> 'a kmem \<Rightarrow> 'a kmem option" where
  "put_obj p ob m = (case objs m p of None \<Rightarrow> None | Some _ \<Rightarrow> Some (m\<lparr>objs := (objs m)(p \<mapsto> ob)\<rparr>))"

definition get_node :: "addr \<Rightarrow> 'a kmem \<Rightarrow> node_t option" where
  "get_node p m = (case objs m p of Some (Node_obj n) \<Rightarrow> Some n | _ \<Rightarrow> None)"

definition upd_node :: "addr \<Rightarrow> (node_t \<Rightarrow> node_t) \<Rightarrow> 'a kmem \<Rightarrow> 'a kmem option" where
  "upd_node p f m = do { n \<leftarrow> get_node p m; put_obj p (Node_obj (f n)) m }"

definition get_list :: "addr \<Rightarrow> 'a kmem \<Rightarrow> list_t option" where
  "get_list p m = (case objs m p of Some (List_obj l) \<Rightarrow> Some l | _ \<Rightarrow> None)"

definition upd_list :: "addr \<Rightarrow> (list_t \<Rightarrow> list_t) \<Rightarrow> 'a kmem \<Rightarrow> 'a kmem option" where
  "upd_list p f m = do { l \<leftarrow> get_list p m; put_obj p (List_obj (f l)) m }"

definition get_tree :: "addr \<Rightarrow> 'a kmem \<Rightarrow> tree_t option" where
  "get_tree p m = (case objs m p of Some (Tree_obj t) \<Rightarrow> Some t | _ \<Rightarrow> None)"

definition get_tree_node :: "addr \<Rightarrow> 'a kmem \<Rightarrow> tree_node_t option" where
  "get_tree_node p m = (case objs m p of Some (Tree_node_obj t) \<Rightarrow> Some t | _ \<Rightarrow> None)"

definition upd_tree_node :: "addr \<Rightarrow> (tree_node_t \<Rightarrow> tree_node_t) \<Rightarrow> 'a kmem \<Rightarrow> 'a kmem option" where
  "upd_tree_node p f m = do { t \<leftarrow> get_tree_node p m; put_obj p (Tree_node_obj (f t)) m }"

definition get_kv :: "addr \<Rightarrow> 'a kmem \<Rightarrow> kv_t option" where
  "get_kv p m = (case objs m p of Some (Kv_obj k) \<Rightarrow> Some k | _ \<Rightarrow> None)"

definition get_hashmap :: "addr \<Rightarrow> 'a kmem \<Rightarrow> hashmap_t option" where
  "get_hashmap p m = (case objs m p of Some (Hashmap_obj h) \<Rightarrow> Some h | _ \<Rightarrow> None)"

definition get_slot :: "addr \<Rightarrow> nat \<Rightarrow> 'a kmem \<Rightarrow> addr option" where
  "get_slot p i m = (case objs m p of Some (Kv_array xs) \<Rightarrow> if i < length xs then Some (xs ! i) else None | _ \<Rightarrow> None)"

definition put_slot :: "addr \<Rightarrow> nat \<Rightarrow> addr \<Rightarrow> 'a kmem \<Rightarrow> 'a kmem option" where
  "put_slot p i x m = (case objs m p of
     Some (Kv_array xs) \<Rightarrow> if i < length xs then put_obj p (Kv_array (xs[i := x])) m else None
   | _ \<Rightarrow> None)"

definition get_chars :: "addr \<Rightarrow> 'a kmem \<Rightarrow> 8 word list option" where
  "get_chars p m = (case objs m p of Some (Chars cs) \<Rightarrow> Some cs | _ \<Rightarrow> None)"

lemmas get_defs = get_node_def get_list_def get_tree_def get_tree_node_def get_kv_def get_hashmap_def
  get_slot_def get_chars_def
lemmas upd_defs = upd_node_def upd_list_def upd_tree_node_def put_slot_def put_obj_def

subsection \<open>Memory in order\<close>

text \<open>
  A memory is in order when the allocator is and every object lives in a
  block in use.
\<close>

definition mem_ok :: "('a \<Rightarrow> (addr \<rightharpoonup> nat) \<Rightarrow> bool) \<Rightarrow> 'a kmem \<Rightarrow> bool" where
  "mem_ok live m \<longleftrightarrow> (\<exists>L. live (kheap_of m) L \<and> dom (objs m) \<subseteq> dom L)"

lemma mem_ok_cong:
  "mem_ok live m \<Longrightarrow> kheap_of m' = kheap_of m \<Longrightarrow> dom (objs m') = dom (objs m) \<Longrightarrow> mem_ok live m'"
  by (simp add: mem_ok_def)

text \<open>A release of a block in use from which the allocator does not return.\<close>

definition kfree_fails :: "('a \<Rightarrow> (addr \<rightharpoonup> nat) \<Rightarrow> bool) \<Rightarrow> 'a kfree_fn \<Rightarrow> bool" where
  "kfree_fails live kf \<longleftrightarrow> (\<exists>a L p. live a L \<and> p \<in> dom L \<and> kf p a = None)"

text \<open>A sequence of allocations, each of which the allocator returns from.\<close>

fun allocs :: "'a kmalloc_fn \<Rightarrow> nat list \<Rightarrow> 'a \<Rightarrow> bool" where
  "allocs km [] a \<longleftrightarrow> True"
| "allocs km (n # ns) a \<longleftrightarrow> (case km n a of None \<Rightarrow> False | Some (p, a') \<Rightarrow> allocs km ns a')"

lemma allocs_step: "allocs km (n # ns) (kheap_of m) \<longleftrightarrow>
    (case new_obj km n m of None \<Rightarrow> False | Some (p, m') \<Rightarrow> allocs km ns (kheap_of m'))"
  by (auto simp: new_obj_def split: option.splits bind_splits)

lemma mem_ok_upd: "mem_ok live m \<Longrightarrow> dom h \<subseteq> dom (objs m) \<Longrightarrow> mem_ok live (m\<lparr>objs := h\<rparr>)"
  unfolding mem_ok_def by (simp, meson subset_trans)

locale object_heap = allocator km kf live lim
  for km :: "'a kmalloc_fn" and kf :: "'a kfree_fn" and live :: "'a \<Rightarrow> (addr \<rightharpoonup> nat) \<Rightarrow> bool" and lim :: nat +
  assumes obj_lim: "16 \<le> lim"
begin

lemma new_obj_ok:
  assumes "mem_ok live m" "n \<le> lim"
  shows "case new_obj km n m of
      None \<Rightarrow> km n (kheap_of m) = None
    | Some (p, m') \<Rightarrow> p \<noteq> NULL \<and> objs m p = None \<and> objs m' = (objs m)(p \<mapsto> Raw) \<and> mem_ok live m'"
proof (cases "km n (kheap_of m)")
  case None
  then show ?thesis by (simp add: new_obj_def)
next
  case (Some r)
  obtain p a where r: "r = (p, a)" by (cases r)
  from assms(1) obtain L where L: "live (kheap_of m) L" "dom (objs m) \<subseteq> dom L" by (auto simp: mem_ok_def)
  from malloc_new [OF L(1) assms(2)] malloc_live [OF L(1) assms(2)] Some r
  have p: "p \<noteq> NULL" "L p = None" "live a (L(p \<mapsto> n))" by auto
  then have "objs m p = None" using L(2) by blast
  moreover have "dom ((objs m)(p \<mapsto> Raw)) \<subseteq> dom (L(p \<mapsto> n))" using L(2) by auto
  ultimately show ?thesis using Some r p by (auto simp: new_obj_def mem_ok_def intro!: exI [of _ "L(p \<mapsto> n)"])
qed

lemma free_obj_ok:
  assumes "mem_ok live m" "objs m p \<noteq> None" "free_obj kf p m = Some m'"
  shows "mem_ok live m'" "objs m' = (objs m)(p := None)"
proof -
  from assms(1) obtain L where L: "live (kheap_of m) L" "dom (objs m) \<subseteq> dom L" by (auto simp: mem_ok_def)
  then obtain n where "L p = Some n" using assms(2) by blast
  moreover from assms(3) obtain a where "kf p (kheap_of m) = Some a" "m' = m\<lparr>kheap_of := a, objs := (objs m)(p := None)\<rparr>"
    by (auto simp: free_obj_def split: bind_splits)
  moreover have "dom ((objs m)(p := None)) \<subseteq> dom (L(p := None))" using L(2) by auto
  ultimately show "mem_ok live m'" "objs m' = (objs m)(p := None)"
    using free_live [OF L(1)] by (auto simp: mem_ok_def intro!: exI [of _ "L(p := None)"])
qed

lemma free_obj_stuck:
  assumes "mem_ok live m" "objs m p \<noteq> None" "free_obj kf p m = None"
  shows "kfree_fails live kf"
proof -
  from assms(1) obtain L where L: "live (kheap_of m) L" "dom (objs m) \<subseteq> dom L" by (auto simp: mem_ok_def)
  moreover have "kf p (kheap_of m) = None" using assms(3) by (auto simp: free_obj_def split: bind_splits)
  ultimately show ?thesis using assms(2) unfolding kfree_fails_def by blast
qed

lemma free_obj_cases:
  assumes "mem_ok live m" "objs m p \<noteq> None"
  obtains "free_obj kf p m = None" "kfree_fails live kf"
  | m' where "free_obj kf p m = Some m'" "mem_ok live m'" "objs m' = (objs m)(p := None)"
proof (cases "free_obj kf p m")
  case None
  then show ?thesis using free_obj_stuck [OF assms] that(1) by simp
next
  case (Some m')
  then show ?thesis using free_obj_ok [OF assms Some] that(2) by simp
qed

end

interpretation kobjects: object_heap kmalloc kfree kmalloc_live heap_limit
  by unfold_locales (simp add: heap_limit_def)

subsection \<open>An example memory\<close>

text \<open>A heap with one block of sixteen pages and six sections of sixteen bytes, and its pointers.\<close>

definition demo_ptr :: "nat \<Rightarrow> addr" where
  "demo_ptr i = KHEAP_START + 64 + 80 * i"

lemma demo_ptr_simps [simp]: "demo_ptr i = demo_ptr j \<longleftrightarrow> i = j" "0 < demo_ptr i"
  by (simp_all add: demo_ptr_def)

definition demo_section :: "nat \<Rightarrow> gmin" where
  "demo_section i = \<lparr>g_addr = KHEAP_START + 24 + 80 * i, g_size = 48, g_req = 16, g_ptr = demo_ptr i, g_aln = 16\<rparr>"

definition demo_block :: gblk where
  "demo_block = \<lparr>b_addr = KHEAP_START, b_pages = 16, b_mins = map demo_section [0, 1, 2, 3, 4, 5]\<rparr>"

definition demo_six :: liballoc where
  "demo_six = demo_heap\<lparr>heap_frames := (\<lambda>_. 0)(0 := mask 16), l_memRoot := KHEAP_START, l_inuse := 288,
     majors := [KHEAP_START \<mapsto> major_of NULL demo_block NULL],
     minors := map_of (map (\<lambda>i. (KHEAP_START + 24 + 80 * i, \<lparr>mn_prev = if i = 0 then NULL else KHEAP_START + 24 + 80 * (i - 1),
        mn_next = if i = 5 then NULL else KHEAP_START + 24 + 80 * (i + 1), mn_block = KHEAP_START, mn_magic = LIBALLOC_MAGIC,
        mn_size = 48, mn_req_size = 16\<rparr>)) [0, 1, 2, 3, 4, 5]),
     aligns := map_of (map (\<lambda>i. (demo_ptr i, (16, 16))) [0, 1, 2, 3, 4, 5])\<rparr>"

definition demo_live :: "addr \<rightharpoonup> nat" where
  "demo_live = map_of (map (\<lambda>i. (demo_ptr i, 16)) [0, 1, 2, 3, 4, 5])"

lemma demo_six_pages: "bm_test j ((\<lambda>_. 0)(0 := mask 16)) \<longleftrightarrow> j < 16"
  by (auto simp: bm_test_bit INDEX_FROM_BIT_div OFFSET_FROM_BIT_mod bit_mask_iff div_eq_0_iff)

lemma demo_six_inv: "heap_inv demo_six [demo_block] {(0, 16)}"
proof -
  have "heap_rep demo_six [demo_block]"
    by (simp add: heap_rep_def demo_six_def demo_heap_def demo_block_def demo_section_def demo_ptr_def aligns_rep_def KHEAP_START_def)
  moreover have "heap_wf [demo_block]"
    by (simp add: heap_wf_def b_wf_def g_wf_def g_end_def b_end_def demo_block_def demo_section_def demo_ptr_def KHEAP_START_def two32_def)
  moreover have "frames_inv (heap_frames demo_six) {(0, 16)}"
    by (simp add: frames_inv_def region_marked_def demo_six_def demo_six_pages page_limit_def)
  moreover have "blocks_in [demo_block] {(0, 16)}"
    by (simp add: blocks_in_def demo_block_def heap_page_def)
  ultimately show ?thesis by (simp add: heap_inv_def demo_six_def demo_heap_def)
qed

lemma demo_six_live: "kmalloc_live demo_six demo_live"
proof -
  have "live_map [demo_block] demo_live"
    by (auto simp: live_map_def sections_def demo_block_def demo_section_def demo_live_def demo_ptr_def)
  moreover have "\<not> kmalloc_lock demo_six" by (simp add: demo_six_def demo_heap_def)
  ultimately show ?thesis using demo_six_inv by (auto simp: kmalloc_live_def)
qed

lemma demo_mem_ok: "dom h \<subseteq> demo_ptr ` {..<6} \<Longrightarrow> mem_ok kmalloc_live \<lparr>kheap_of = demo_six, objs = h\<rparr>"
proof -
  have "{..<6} = set [0, 1, 2, 3, 4, 5 :: nat]" by auto
  then have "dom demo_live = demo_ptr ` {..<6}" by (simp add: demo_live_def)
  moreover assume "dom h \<subseteq> demo_ptr ` {..<6}"
  ultimately show ?thesis using demo_six_live unfolding mem_ok_def by (intro exI [of _ demo_live]) simp
qed

lemma demo_six_alloc:
  assumes "n \<le> 60000"
  shows "kmalloc n demo_six \<noteq> None"
proof -
  have "liballoc_alloc 16 demo_six \<noteq> None"
  proof (rule liballoc_alloc_total)
    show "frames_ok demo_six" using demo_heap_free(1) by (simp add: frames_ok_def demo_six_def)
    have "free_frames demo_six = free_frames demo_heap" by (simp add: free_frames_def frame_limit_def demo_six_def)
    then show "16 \<le> card (free_frames demo_six)" by (simp add: demo_heap_free(2))
    show "\<exists>k<65536. run_clear (heap_frames demo_six) k 16"
      by (rule exI [of _ 16]) (simp add: run_clear_def demo_six_def demo_six_pages)
    show "heap_mapped k 16 demo_six" for k using demo_heap_pages(2) [of k 16] by (simp add: heap_mapped_def lookup_page_def demo_six_def)
  qed (simp_all add: demo_six_def demo_heap_def page_limit_def)
  moreover have "pages_needed (n + 32) = 16" using assms by (intro pages_needed_small) simp
  ultimately show ?thesis
    using kmemalign_live [OF demo_six_live alignment_ok_16, of n] assms
    by (auto simp: kmalloc_def heap_limit_def DEFAULT_ALIGNMENT_def add.commute split: option.splits)
qed

end
