(* ===== verification/Lists.thy ===== *)
theory Lists
  imports Objects
begin

section \<open>Doubly-linked lists (kernel/structures/list.c)\<close>

text \<open>
  The operations of list.c on nodes and list headers in the heap, and the relation \<open>list_rep\<close>
  between a list in memory and the sequence of its nodes with their data.
\<close>

definition list_create :: "'a kmalloc_fn \<Rightarrow> 'a kmem \<Rightarrow> (addr \<times> 'a kmem) option" where
  "list_create km m = do {
     (l, m) \<leftarrow> new_obj km sizeof_list_t m;
     if l = NULL then Some (NULL, m)
     else do {
       m \<leftarrow> put_obj l (List_obj \<lparr>list_head = NULL, list_tail = NULL\<rparr>) m;
       Some (l, m)
     }
   }"

partial_function (option) destroy_nodes :: "'a kfree_fn \<Rightarrow> addr \<Rightarrow> 'a kmem \<Rightarrow> 'a kmem option" where
  "destroy_nodes kf node m =
    (if node = NULL then Some m
     else do {
       n \<leftarrow> get_node node m;
       m \<leftarrow> (if node_data n \<noteq> NULL then free_obj kf (node_data n) m else Some m);
       m \<leftarrow> free_obj kf node m;
       destroy_nodes kf (node_next n) m
     })"

definition list_destroy :: "'a kfree_fn \<Rightarrow> addr \<Rightarrow> 'a kmem \<Rightarrow> 'a kmem option" where
  "list_destroy kf l m =
    (if l = NULL then Some m
     else do {
       li \<leftarrow> get_list l m;
       m \<leftarrow> destroy_nodes kf (list_head li) m;
       free_obj kf l m
     })"

definition list_insert :: "'a kmalloc_fn \<Rightarrow> addr \<Rightarrow> addr \<Rightarrow> 'a kmem \<Rightarrow> (addr \<times> 'a kmem) option" where
  "list_insert km l d m =
    (if l = NULL then Some (NULL, m)
     else do {
       (node, m) \<leftarrow> new_obj km sizeof_node_t m;
       if node = NULL then Some (NULL, m)
       else do {
         li \<leftarrow> get_list l m;
         if list_head li = NULL then do {
           m \<leftarrow> put_obj node (Node_obj \<lparr>node_prev = NULL, node_next = NULL, node_data = d, node_owner = l\<rparr>) m;
           m \<leftarrow> upd_list l (\<lambda>li. li\<lparr>list_head := node, list_tail := node\<rparr>) m;
           Some (node, m)
         } else do {
           m \<leftarrow> upd_node (list_tail li) (\<lambda>n. n\<lparr>node_next := node\<rparr>) m;
           m \<leftarrow> put_obj node (Node_obj \<lparr>node_prev = list_tail li, node_next = NULL, node_data = d, node_owner = l\<rparr>) m;
           m \<leftarrow> upd_list l (\<lambda>li. li\<lparr>list_tail := node\<rparr>) m;
           Some (node, m)
         }
       }
     })"

definition list_push :: "'a kmalloc_fn \<Rightarrow> addr \<Rightarrow> addr \<Rightarrow> 'a kmem \<Rightarrow> (addr \<times> 'a kmem) option" where
  "list_push km l d m =
    (if l = NULL then Some (NULL, m)
     else do {
       (node, m) \<leftarrow> new_obj km sizeof_node_t m;
       if node = NULL then Some (NULL, m)
       else do {
         li \<leftarrow> get_list l m;
         m \<leftarrow> put_obj node (Node_obj \<lparr>node_prev = NULL, node_next = list_head li, node_data = d, node_owner = l\<rparr>) m;
         m \<leftarrow> upd_list l (\<lambda>li. li\<lparr>list_head := node\<rparr>) m;
         if list_tail li = NULL then do {
           m \<leftarrow> upd_list l (\<lambda>li. li\<lparr>list_tail := node\<rparr>) m;
           Some (node, m)
         } else do {
           m \<leftarrow> upd_node (list_head li) (\<lambda>n. n\<lparr>node_prev := node\<rparr>) m;
           Some (node, m)
         }
       }
     })"

definition list_insert_after :: "'a kmalloc_fn \<Rightarrow> addr \<Rightarrow> addr \<Rightarrow> addr \<Rightarrow> 'a kmem \<Rightarrow> (addr \<times> 'a kmem) option" where
  "list_insert_after km l node d m =
    (if l = NULL \<or> node = NULL then Some (NULL, m)
     else do {
       n \<leftarrow> get_node node m;
       ASSERT (node_owner n = l);
       (newnode, m) \<leftarrow> new_obj km sizeof_node_t m;
       if newnode = NULL then Some (NULL, m)
       else do {
         m \<leftarrow> put_obj newnode (Node_obj \<lparr>node_prev = node, node_next = node_next n, node_data = d, node_owner = l\<rparr>) m;
         m \<leftarrow> upd_node node (\<lambda>n. n\<lparr>node_next := newnode\<rparr>) m;
         m \<leftarrow> (if node_next n = NULL then upd_list l (\<lambda>li. li\<lparr>list_tail := newnode\<rparr>) m else Some m);
         Some (newnode, m)
       }
     })"

definition list_insert_before :: "'a kmalloc_fn \<Rightarrow> addr \<Rightarrow> addr \<Rightarrow> addr \<Rightarrow> 'a kmem \<Rightarrow> (addr \<times> 'a kmem) option" where
  "list_insert_before km l node d m =
    (if l = NULL \<or> node = NULL then Some (NULL, m)
     else do {
       n \<leftarrow> get_node node m;
       ASSERT (node_owner n = l);
       (newnode, m) \<leftarrow> new_obj km sizeof_node_t m;
       if newnode = NULL then Some (NULL, m)
       else do {
         m \<leftarrow> put_obj newnode (Node_obj \<lparr>node_prev = node_prev n, node_next = node, node_data = d, node_owner = l\<rparr>) m;
         m \<leftarrow> upd_node node (\<lambda>n. n\<lparr>node_prev := newnode\<rparr>) m;
         m \<leftarrow> (if node_prev n = NULL then upd_list l (\<lambda>li. li\<lparr>list_head := newnode\<rparr>) m else Some m);
         Some (newnode, m)
       }
     })"

definition list_dequeue :: "addr \<Rightarrow> addr \<Rightarrow> 'a kmem \<Rightarrow> (addr \<times> 'a kmem) option" where
  "list_dequeue l node m =
    (if l = NULL \<or> node = NULL then Some (NULL, m)
     else do {
       n \<leftarrow> get_node node m;
       ASSERT (node_owner n = l);
       li \<leftarrow> get_list l m;
       m \<leftarrow> (if list_head li = node then upd_list l (\<lambda>li. li\<lparr>list_head := node_next n\<rparr>) m else Some m);
       m \<leftarrow> (if list_tail li = node then upd_list l (\<lambda>li. li\<lparr>list_tail := node_prev n\<rparr>) m else Some m);
       m \<leftarrow> (if node_prev n \<noteq> NULL then upd_node (node_prev n) (\<lambda>p. p\<lparr>node_next := node_next n\<rparr>) m else Some m);
       m \<leftarrow> (if node_next n \<noteq> NULL then upd_node (node_next n) (\<lambda>p. p\<lparr>node_prev := node_prev n\<rparr>) m else Some m);
       m \<leftarrow> upd_node node (\<lambda>n. n\<lparr>node_prev := NULL, node_next := NULL, node_owner := NULL\<rparr>) m;
       Some (node, m)
     })"

definition list_remove :: "'a kfree_fn \<Rightarrow> addr \<Rightarrow> addr \<Rightarrow> 'a kmem \<Rightarrow> 'a kmem option" where
  "list_remove kf l node m = do {
     (r, m) \<leftarrow> list_dequeue l node m;
     if r = NULL then Some m
     else do {
       n \<leftarrow> get_node node m;
       m \<leftarrow> (if node_data n \<noteq> NULL then free_obj kf (node_data n) m else Some m);
       free_obj kf node m
     }
   }"

partial_function (option) find_node :: "addr \<Rightarrow> addr \<Rightarrow> 'a kmem \<Rightarrow> addr option" where
  "find_node key element m =
    (if element = NULL then Some NULL
     else do {
       n \<leftarrow> get_node element m;
       if node_data n = key then Some element else find_node key (node_next n) m
     })"

definition list_find :: "addr \<Rightarrow> addr \<Rightarrow> 'a kmem \<Rightarrow> addr option" where
  "list_find l key m =
    (if l = NULL \<or> key = NULL then Some NULL
     else do { li \<leftarrow> get_list l m; find_node key (list_head li) m })"

fun skip_nodes :: "nat \<Rightarrow> addr \<Rightarrow> 'a kmem \<Rightarrow> addr option" where
  "skip_nodes 0 node m = Some node"
| "skip_nodes (Suc i) node m =
    (if node = NULL then Some NULL
     else do { n \<leftarrow> get_node node m; skip_nodes i (node_next n) m })"

definition list_get_index :: "addr \<Rightarrow> nat \<Rightarrow> 'a kmem \<Rightarrow> addr option" where
  "list_get_index l index m =
    (if l = NULL then Some NULL
     else do { li \<leftarrow> get_list l m; skip_nodes index (list_head li) m })"

partial_function (option) set_owner :: "addr \<Rightarrow> addr \<Rightarrow> 'a kmem \<Rightarrow> 'a kmem option" where
  "set_owner dest node m =
    (if node = NULL then Some m
     else do {
       m \<leftarrow> upd_node node (\<lambda>n. n\<lparr>node_owner := dest\<rparr>) m;
       n \<leftarrow> get_node node m;
       set_owner dest (node_next n) m
     })"

definition list_merge :: "addr \<Rightarrow> addr \<Rightarrow> 'a kmem \<Rightarrow> 'a kmem option" where
  "list_merge dest src m =
    (if dest = NULL \<or> src = NULL then Some m
     else do {
       sl \<leftarrow> get_list src m;
       m \<leftarrow> set_owner dest (list_head sl) m;
       if list_head sl = NULL then Some m
       else do {
         dl \<leftarrow> get_list dest m;
         m \<leftarrow> (if list_head dl = NULL
           then upd_list dest (\<lambda>li. li\<lparr>list_head := list_head sl, list_tail := list_tail sl\<rparr>) m
           else do {
             m \<leftarrow> upd_node (list_head sl) (\<lambda>n. n\<lparr>node_prev := list_tail dl\<rparr>) m;
             upd_list dest (\<lambda>li. li\<lparr>list_tail := list_tail sl\<rparr>) m
           });
         upd_list src (\<lambda>li. li\<lparr>list_head := NULL, list_tail := NULL\<rparr>) m
       }
     })"

subsection \<open>Lists in memory\<close>

text \<open>
  \<open>chain h l pv xs nx\<close>: from the node after \<open>pv\<close> on, the nodes and data of \<open>xs\<close> are linked in both
  directions, belong to \<open>l\<close> and lead to \<open>nx\<close>.
\<close>

definition node_first :: "addr \<Rightarrow> (addr \<times> addr) list \<Rightarrow> addr" where
  "node_first nx xs = (case xs of [] \<Rightarrow> nx | (n, d) # _ \<Rightarrow> n)"

definition node_last :: "addr \<Rightarrow> (addr \<times> addr) list \<Rightarrow> addr" where
  "node_last pv xs = (if xs = [] then pv else fst (last xs))"

fun chain :: "(addr \<rightharpoonup> kobj) \<Rightarrow> addr \<Rightarrow> addr \<Rightarrow> (addr \<times> addr) list \<Rightarrow> addr \<Rightarrow> bool" where
  "chain h l pv [] nx \<longleftrightarrow> True"
| "chain h l pv ((n, d) # xs) nx \<longleftrightarrow> n \<noteq> NULL
    \<and> h n = Some (Node_obj \<lparr>node_prev = pv, node_next = node_first nx xs, node_data = d, node_owner = l\<rparr>)
    \<and> chain h l n xs nx"

definition list_rep :: "(addr \<rightharpoonup> kobj) \<Rightarrow> addr \<Rightarrow> (addr \<times> addr) list \<Rightarrow> bool" where
  "list_rep h l xs \<longleftrightarrow> l \<noteq> NULL \<and> h l = Some (List_obj \<lparr>list_head = node_first NULL xs, list_tail = node_last NULL xs\<rparr>)
    \<and> chain h l NULL xs NULL \<and> distinct (map fst xs)"

abbreviation nodes_of :: "(addr \<times> addr) list \<Rightarrow> addr set" where
  "nodes_of xs \<equiv> fst ` set xs"

definition data_of :: "(addr \<times> addr) list \<Rightarrow> addr list" where
  "data_of xs = filter (\<lambda>d. d \<noteq> NULL) (map snd xs)"

lemma node_first_simps [simp]:
  "node_first nx [] = nx" "node_first nx ((n, d) # xs) = n" "node_first nx (xs @ ys) = node_first (node_first nx ys) xs"
  by (simp_all add: node_first_def split: list.splits)

lemma node_last_simps [simp]:
  "node_last pv [] = pv" "node_last pv ((n, d) # xs) = node_last n xs" "node_last pv (xs @ ys) = node_last (node_last pv xs) ys"
  by (simp_all add: node_last_def)

lemma node_first_neq [simp]: "n \<noteq> nx \<Longrightarrow> n \<notin> nodes_of xs \<Longrightarrow> node_first nx xs \<noteq> n"
  by (cases xs) auto

lemma node_last_neq [simp]: "n \<noteq> pv \<Longrightarrow> n \<notin> nodes_of xs \<Longrightarrow> node_last pv xs \<noteq> n"
  by (cases xs rule: rev_cases) (auto simp: node_last_def)

lemma chain_append [simp]:
  "chain h l pv (xs @ ys) nx \<longleftrightarrow> chain h l pv xs (node_first nx ys) \<and> chain h l (node_last pv xs) ys nx"
  by (induction xs arbitrary: pv) auto

lemma chain_cong: "(\<And>n. n \<in> nodes_of xs \<Longrightarrow> h' n = h n) \<Longrightarrow> chain h' l pv xs nx \<longleftrightarrow> chain h l pv xs nx"
  by (induction xs arbitrary: pv) auto

lemma chain_frame [simp]: "a \<notin> nodes_of xs \<Longrightarrow> chain (h(a := v)) l pv xs nx \<longleftrightarrow> chain h l pv xs nx"
  by (rule chain_cong) auto

lemma chain_obj: "chain h l pv xs nx \<Longrightarrow> n \<in> nodes_of xs \<Longrightarrow> n \<noteq> NULL \<and> (\<exists>nd. h n = Some (Node_obj nd))"
  by (induction xs arbitrary: pv) force+

lemma chain_first_pos: "chain h l pv xs nx \<Longrightarrow> nx \<noteq> NULL \<Longrightarrow> 0 < node_first nx xs"
  by (cases xs) auto

lemma chain_last_pos: "chain h l pv xs nx \<Longrightarrow> pv \<noteq> NULL \<Longrightarrow> 0 < node_last pv xs"
  by (induction xs arbitrary: pv) auto

lemma list_rep_header: "list_rep h l xs \<Longrightarrow> l \<notin> nodes_of xs"
  using chain_obj [of h l NULL xs NULL l] by (auto simp: list_rep_def)

lemma list_rep_cong:
  "h' l = h l \<Longrightarrow> (\<And>n. n \<in> nodes_of xs \<Longrightarrow> h' n = h n) \<Longrightarrow> list_rep h' l xs \<longleftrightarrow> list_rep h l xs"
  using chain_cong [of xs h' h l NULL NULL] by (simp add: list_rep_def)

lemma list_rep_frame [simp]: "a \<noteq> l \<Longrightarrow> a \<notin> nodes_of xs \<Longrightarrow> list_rep (h(a := v)) l xs \<longleftrightarrow> list_rep h l xs"
  by (rule list_rep_cong) auto

lemma list_rep_dom: "list_rep h l xs \<Longrightarrow> insert l (nodes_of xs) \<subseteq> dom h"
  using chain_obj [of h l NULL xs NULL] by (fastforce simp: list_rep_def)

text \<open>The links in forward direction alone, which is all that \<^verbatim>\<open>foreach\<close> follows.\<close>

fun fwd_chain :: "(addr \<rightharpoonup> kobj) \<Rightarrow> (addr \<times> addr) list \<Rightarrow> bool" where
  "fwd_chain h [] \<longleftrightarrow> True"
| "fwd_chain h ((n, d) # xs) \<longleftrightarrow> n \<noteq> NULL
    \<and> (\<exists>nd. h n = Some (Node_obj nd) \<and> node_next nd = node_first NULL xs \<and> node_data nd = d)
    \<and> fwd_chain h xs"

definition list_fwd :: "(addr \<rightharpoonup> kobj) \<Rightarrow> addr \<Rightarrow> (addr \<times> addr) list \<Rightarrow> bool" where
  "list_fwd h l xs \<longleftrightarrow> l \<noteq> NULL \<and> (\<exists>li. h l = Some (List_obj li) \<and> list_head li = node_first NULL xs) \<and> fwd_chain h xs"

lemma chain_fwd: "chain h l pv xs NULL \<Longrightarrow> fwd_chain h xs"
  by (induction xs arbitrary: pv) auto

lemma list_rep_fwd: "list_rep h l xs \<Longrightarrow> list_fwd h l xs"
  by (auto simp: list_rep_def list_fwd_def dest: chain_fwd)

definition same_fwd :: "kobj option \<Rightarrow> kobj option \<Rightarrow> bool" where
  "same_fwd a b \<longleftrightarrow> (\<forall>nd. a = Some (Node_obj nd) \<longrightarrow>
     (\<exists>nd'. b = Some (Node_obj nd') \<and> node_next nd' = node_next nd \<and> node_data nd' = node_data nd))"

lemma same_fwd_refl [simp]: "same_fwd a a"
  by (simp add: same_fwd_def)

lemma fwd_chain_cong:
  assumes "\<And>n. n \<in> nodes_of xs \<Longrightarrow> same_fwd (h n) (h' n)" "fwd_chain h xs"
  shows "fwd_chain h' xs"
  using assms
proof (induction xs)
  case (Cons x xs)
  obtain n d where x: "x = (n, d)" by (cases x)
  with Cons.prems(2) obtain nd where nd: "h n = Some (Node_obj nd)" "node_next nd = node_first NULL xs" "node_data nd = d"
    by auto
  moreover have "same_fwd (h n) (h' n)" using Cons.prems(1) [of n] x by simp
  ultimately obtain nd' where "h' n = Some (Node_obj nd')" "node_next nd' = node_first NULL xs" "node_data nd' = d"
    by (auto simp: same_fwd_def)
  moreover have "fwd_chain h' xs" using Cons.IH Cons.prems x by simp
  ultimately show ?case using Cons.prems(2) x by simp
qed simp

lemma fwd_chain_frame [simp]: "a \<notin> nodes_of xs \<Longrightarrow> fwd_chain (h(a := v)) xs \<longleftrightarrow> fwd_chain h xs"
  by (induction xs) auto

lemma find_node_fwd:
  "fwd_chain (objs m) xs \<Longrightarrow> find_node key (node_first NULL xs) m =
     Some (case find (\<lambda>x. snd x = key) xs of None \<Rightarrow> NULL | Some x \<Rightarrow> fst x)"
proof (induction xs)
  case Nil
  show ?case by (simp add: find_node.simps)
next
  case (Cons x xs)
  obtain n d where x: "x = (n, d)" by (cases x)
  with Cons show ?case by (auto simp: find_node.simps [of key n m] get_defs)
qed

lemma skip_nodes_fwd:
  "fwd_chain (objs m) xs \<Longrightarrow> skip_nodes i (node_first NULL xs) m = Some (if i < length xs then fst (xs ! i) else NULL)"
proof (induction xs arbitrary: i)
  case Nil
  show ?case by (cases i) simp_all
next
  case (Cons x xs)
  then show ?case by (cases x; cases i) (auto simp: get_defs)
qed

lemma list_find_fwd:
  "list_fwd (objs m) l xs \<Longrightarrow> key \<noteq> NULL \<Longrightarrow>
   list_find l key m = Some (case find (\<lambda>x. snd x = key) xs of None \<Rightarrow> NULL | Some x \<Rightarrow> fst x)"
  using find_node_fwd [of m xs key] by (auto simp: list_find_def list_fwd_def get_defs)

lemma list_get_index_fwd:
  "list_fwd (objs m) l xs \<Longrightarrow> list_get_index l i m = Some (if i < length xs then fst (xs ! i) else NULL)"
  using skip_nodes_fwd [of m xs i] by (auto simp: list_get_index_def list_fwd_def get_defs)

subsection \<open>What the operations do\<close>

text \<open>The parts of memory an operation leaves alone.\<close>

definition same_except :: "addr set \<Rightarrow> 'a kmem \<Rightarrow> 'a kmem \<Rightarrow> bool" where
  "same_except A m m' \<longleftrightarrow> (\<forall>a. a \<notin> A \<longrightarrow> objs m' a = objs m a)"

lemma same_except_rep:
  "same_except A m m' \<Longrightarrow> list_rep (objs m) k ys \<Longrightarrow> insert k (nodes_of ys) \<inter> A = {} \<Longrightarrow> list_rep (objs m') k ys"
  using list_rep_cong [of "objs m'" k "objs m" ys] by (auto simp: same_except_def)

lemmas mem_simps = get_defs upd_defs

lemma set_owner_ok:
  assumes "chain (objs m) l pv xs NULL" "distinct (map fst xs)"
  shows "\<exists>m'. set_owner dest (node_first NULL xs) m = Some m' \<and> chain (objs m') dest pv xs NULL
    \<and> kheap_of m' = kheap_of m \<and> dom (objs m') = dom (objs m) \<and> same_except (nodes_of xs) m m'"
  using assms
proof (induction xs arbitrary: m pv)
  case Nil
  then show ?case by (simp add: set_owner.simps same_except_def)
next
  case (Cons x xs)
  obtain n d where x: "x = (n, d)" by (cases x)
  define m1 where "m1 = m\<lparr>objs := (objs m)(n \<mapsto> Node_obj \<lparr>node_prev = pv, node_next = node_first NULL xs, node_data = d, node_owner = dest\<rparr>)\<rparr>"
  have run: "set_owner dest n m = set_owner dest (node_first NULL xs) m1"
    using Cons.prems x by (simp add: set_owner.simps [of dest n m] mem_simps m1_def)
  have "chain (objs m1) l n xs NULL" using Cons.prems x by (simp add: m1_def)
  with Cons.IH Cons.prems(2) obtain m' where m': "set_owner dest (node_first NULL xs) m1 = Some m'"
    "chain (objs m') dest n xs NULL" "kheap_of m' = kheap_of m1" "dom (objs m') = dom (objs m1)" "same_except (nodes_of xs) m1 m'"
    by fastforce
  moreover have "objs m' n = objs m1 n" using m'(5) Cons.prems(2) x by (simp add: same_except_def)
  ultimately show ?case using run x Cons.prems
    by (intro exI [of _ m']) (auto simp: m1_def same_except_def insert_absorb domI)
qed

lemma list_merge_ok:
  assumes "list_rep (objs m) dest xs" "list_rep (objs m) src ys" "dest \<noteq> src" "nodes_of xs \<inter> nodes_of ys = {}"
  shows "\<exists>m'. list_merge dest src m = Some m' \<and> list_rep (objs m') src []
    \<and> (if xs = [] \<or> ys = [] then list_rep (objs m') dest (xs @ ys) else list_fwd (objs m') dest xs)
    \<and> kheap_of m' = kheap_of m \<and> dom (objs m') = dom (objs m)"
proof -
  have own: "dest \<notin> nodes_of xs" "src \<notin> nodes_of ys" "dest \<notin> nodes_of ys" "src \<notin> nodes_of xs" "dest \<noteq> NULL" "src \<noteq> NULL"
    using list_rep_header [OF assms(1)] list_rep_header [OF assms(2)] assms chain_obj [of "objs m" src NULL ys NULL dest] chain_obj [of "objs m" dest NULL xs NULL src]
    by (auto simp: list_rep_def)
  from set_owner_ok [of m src NULL ys dest] assms(2)
  obtain m1 where m1: "set_owner dest (node_first NULL ys) m = Some m1" "chain (objs m1) dest NULL ys NULL"
    "kheap_of m1 = kheap_of m" "dom (objs m1) = dom (objs m)" "same_except (nodes_of ys) m m1"
    by (auto simp: list_rep_def)
  have rx: "list_rep (objs m1) dest xs"
    by (rule same_except_rep [OF m1(5) assms(1)]) (use own assms(4) in auto)
  have src: "objs m1 src = objs m src" using m1(5) own by (simp add: same_except_def)
  show ?thesis
  proof (cases ys)
    case Nil
    with m1 rx src own assms(2) show ?thesis by (auto simp: list_merge_def get_defs list_rep_def)
  next
    case (Cons y ys')
    moreover obtain v f where y: "y = (v, f)" by (cases y)
    ultimately have v: "v \<noteq> NULL" "v \<notin> nodes_of xs" using m1(2) assms(4) by auto
    show ?thesis
    proof (cases "xs = []")
      case True
      with m1 rx src own assms(2,3) Cons y v show ?thesis
        by (auto simp: list_merge_def mem_simps list_rep_def insert_absorb domI)
    next
      case False
      then have "0 < node_first NULL xs" using rx by (cases xs) (auto simp: list_rep_def)
      moreover have "fwd_chain (objs m1) xs" using list_rep_fwd [OF rx] by (simp add: list_fwd_def)
      ultimately show ?thesis using False m1 rx src own assms(2,3) Cons y v
        by (auto simp: list_merge_def mem_simps list_rep_def list_fwd_def insert_absorb domI)
    qed
  qed
qed

context object_heap
begin

lemma list_create_ok:
  assumes "mem_ok live m"
  shows "case list_create km m of
      None \<Rightarrow> km sizeof_list_t (kheap_of m) = None
    | Some (l, m') \<Rightarrow> objs m l = None \<and> list_rep (objs m') l [] \<and> mem_ok live m' \<and> same_except {l} m m'"
  using new_obj_ok [OF assms, of sizeof_list_t] obj_lim
  by (auto simp: list_create_def sizeof_defs list_rep_def mem_simps same_except_def intro!: mem_ok_upd
      split: option.splits bind_splits if_splits)

lemma list_insert_ok:
  assumes "mem_ok live m" "list_rep (objs m) l xs"
  shows "case list_insert km l d m of
      None \<Rightarrow> km sizeof_node_t (kheap_of m) = None
    | Some (n, m') \<Rightarrow> objs m n = None \<and> list_rep (objs m') l (xs @ [(n, d)]) \<and> mem_ok live m'
        \<and> same_except (insert l (insert n (nodes_of xs))) m m'"
proof (cases "new_obj km sizeof_node_t m")
  case None
  with new_obj_ok [OF assms(1), of sizeof_node_t] obj_lim assms(2) show ?thesis
    by (simp add: list_insert_def sizeof_defs list_rep_def)
next
  case (Some r)
  obtain n m1 where r: "r = (n, m1)" by (cases r)
  from new_obj_ok [OF assms(1), of sizeof_node_t] obj_lim Some r
  have n: "n \<noteq> NULL" "objs m n = None" "objs m1 = (objs m)(n \<mapsto> Raw)" "mem_ok live m1" by (simp_all add: sizeof_defs)
  then have new: "n \<noteq> l" "n \<notin> nodes_of xs" using list_rep_dom [OF assms(2)] by auto
  have l: "l \<noteq> NULL" "l \<notin> nodes_of xs" using assms(2) list_rep_header by (auto simp: list_rep_def)
  show ?thesis
  proof (cases xs rule: rev_cases)
    case Nil
    with Some r n new l assms(2) show ?thesis
      by (auto simp: list_insert_def mem_simps list_rep_def same_except_def intro!: mem_ok_upd chain_first_pos
          split: if_splits)
  next
    case (snoc ys y)
    obtain t dt where y: "y = (t, dt)" by (cases y)
    with Some r n new l snoc assms(2) show ?thesis
      by (auto simp: list_insert_def mem_simps list_rep_def same_except_def intro!: mem_ok_upd chain_first_pos
          split: if_splits)
  qed
qed

lemma list_push_ok:
  assumes "mem_ok live m" "list_rep (objs m) l xs"
  shows "case list_push km l d m of
      None \<Rightarrow> km sizeof_node_t (kheap_of m) = None
    | Some (n, m') \<Rightarrow> objs m n = None \<and> list_rep (objs m') l ((n, d) # xs) \<and> mem_ok live m'
        \<and> same_except (insert l (insert n (nodes_of xs))) m m'"
proof (cases "new_obj km sizeof_node_t m")
  case None
  with new_obj_ok [OF assms(1), of sizeof_node_t] obj_lim assms(2) show ?thesis
    by (simp add: list_push_def sizeof_defs list_rep_def)
next
  case (Some r)
  obtain n m1 where r: "r = (n, m1)" by (cases r)
  from new_obj_ok [OF assms(1), of sizeof_node_t] obj_lim Some r
  have n: "n \<noteq> NULL" "objs m n = None" "objs m1 = (objs m)(n \<mapsto> Raw)" "mem_ok live m1" by (simp_all add: sizeof_defs)
  then have new: "n \<noteq> l" "n \<notin> nodes_of xs" using list_rep_dom [OF assms(2)] by auto
  have l: "l \<noteq> NULL" "l \<notin> nodes_of xs" using assms(2) list_rep_header by (auto simp: list_rep_def)
  show ?thesis
  proof (cases xs)
    case Nil
    with Some r n new l assms(2) show ?thesis
      by (auto simp: list_push_def mem_simps list_rep_def same_except_def intro!: mem_ok_upd split: if_splits)
  next
    case (Cons y ys)
    obtain t dt where y: "y = (t, dt)" by (cases y)
    then have tail: "0 < node_last t ys" using assms(2) Cons by (auto simp: list_rep_def intro!: chain_last_pos)
    from y Some r n new l Cons assms(2) tail show ?thesis
      by (auto simp: list_push_def mem_simps list_rep_def same_except_def intro!: mem_ok_upd split: if_splits)
  qed
qed

lemma list_dequeue_ok:
  assumes "mem_ok live m" "list_rep (objs m) l (xs @ (n, d) # ys)"
  shows "\<exists>m'. list_dequeue l n m = Some (n, m') \<and> list_rep (objs m') l (xs @ ys) \<and> mem_ok live m'
    \<and> objs m' n = Some (Node_obj \<lparr>node_prev = NULL, node_next = NULL, node_data = d, node_owner = NULL\<rparr>)
    \<and> same_except (insert l (insert n (nodes_of (xs @ ys)))) m m' \<and> dom (objs m') = dom (objs m)"
proof -
  have l: "l \<noteq> NULL" "l \<notin> nodes_of xs" "l \<notin> nodes_of ys" "l \<noteq> n"
    using assms(2) list_rep_header [OF assms(2)] by (auto simp: list_rep_def)
  have n: "n \<noteq> NULL" "n \<notin> nodes_of xs" "n \<notin> nodes_of ys" using assms(2) by (auto simp: list_rep_def)
  show ?thesis
  proof (cases xs rule: rev_cases; cases ys)
    assume "xs = []" "ys = []"
    with assms l n show ?thesis
      by (simp add: list_dequeue_def mem_simps list_rep_def same_except_def mem_ok_upd insert_absorb domI)
  next
    fix y ys' assume "xs = []" "ys = y # ys'"
    with assms l n show ?thesis
      by (cases y) (simp add: list_dequeue_def mem_simps list_rep_def same_except_def mem_ok_upd insert_absorb domI)
  next
    fix xs' x assume "xs = xs' @ [x]" "ys = []"
    moreover obtain u e where "x = (u, e)" by (cases x)
    ultimately show ?thesis using assms l n
      by (simp add: list_dequeue_def mem_simps list_rep_def same_except_def mem_ok_upd insert_absorb domI)
  next
    fix xs' x y ys' assume "xs = xs' @ [x]" "ys = y # ys'"
    moreover obtain u e where "x = (u, e)" by (cases x)
    moreover obtain v f where "y = (v, f)" by (cases y)
    ultimately show ?thesis using assms l n
      by (simp add: list_dequeue_def mem_simps list_rep_def same_except_def mem_ok_upd insert_absorb domI)
  qed
qed

lemma list_remove_ok:
  assumes "mem_ok live m" "list_rep (objs m) l (xs @ (n, d) # ys)"
    and "d \<noteq> NULL \<Longrightarrow> objs m d \<noteq> None \<and> d \<notin> insert l (insert n (nodes_of (xs @ ys)))"
    and "list_remove kf l n m = Some m'"
  shows "list_rep (objs m') l (xs @ ys) \<and> mem_ok live m' \<and> objs m' n = None \<and> (d \<noteq> NULL \<longrightarrow> objs m' d = None)
    \<and> same_except (insert d (insert l (insert n (nodes_of (xs @ ys))))) m m'"
proof -
  from list_dequeue_ok [OF assms(1,2)] obtain m1 where m1: "list_dequeue l n m = Some (n, m1)"
    "list_rep (objs m1) l (xs @ ys)" "mem_ok live m1"
    "objs m1 n = Some (Node_obj \<lparr>node_prev = NULL, node_next = NULL, node_data = d, node_owner = NULL\<rparr>)"
    "same_except (insert l (insert n (nodes_of (xs @ ys)))) m m1" "dom (objs m1) = dom (objs m)"
    by blast
  have n: "n \<noteq> NULL" "n \<noteq> l" "n \<notin> nodes_of (xs @ ys)"
    using assms(2) list_rep_header [OF assms(2)] by (auto simp: list_rep_def)
  show ?thesis
  proof (cases "d = NULL")
    case True
    with m1 n assms(4) have f: "free_obj kf n m1 = Some m'" by (simp add: list_remove_def get_defs)
    note o = free_obj_ok [OF m1(3) _ f]
    with m1 n True show ?thesis
      by (auto simp: same_except_def simp del: set_append)
  next
    case False
    with m1 n assms(4) obtain m2 where f: "free_obj kf d m1 = Some m2" "free_obj kf n m2 = Some m'"
      by (auto simp: list_remove_def get_defs split: bind_splits)
    have d: "objs m1 d \<noteq> None" "d \<notin> insert l (insert n (nodes_of (xs @ ys)))" using assms(3) False m1(6) by auto
    note o2 = free_obj_ok [OF m1(3) d(1) f(1)]
    have "objs m2 n \<noteq> None" using o2(2) m1(4) d(2) by auto
    note o3 = free_obj_ok [OF o2(1) this f(2)]
    with o2 m1 n d show ?thesis
      by (auto simp: same_except_def simp del: set_append)
  qed
qed

lemma list_insert_before_ok:
  assumes "mem_ok live m" "list_rep (objs m) l (xs @ (n, d) # ys)"
  shows "case list_insert_before km l n e m of
      None \<Rightarrow> km sizeof_node_t (kheap_of m) = None
    | Some (n', m') \<Rightarrow> n' \<noteq> NULL \<and> objs m n' = None \<and> mem_ok live m'
        \<and> (if xs = [] then list_rep (objs m') l ((n', e) # (n, d) # ys) else list_fwd (objs m') l (xs @ (n, d) # ys))"
proof (cases "new_obj km sizeof_node_t m")
  case None
  with new_obj_ok [OF assms(1), of sizeof_node_t] obj_lim assms(2) show ?thesis
    by (simp add: list_insert_before_def sizeof_defs list_rep_def get_defs)
next
  case (Some r)
  obtain n' m1 where r: "r = (n', m1)" by (cases r)
  from new_obj_ok [OF assms(1), of sizeof_node_t] obj_lim Some r
  have n': "n' \<noteq> NULL" "objs m n' = None" "objs m1 = (objs m)(n' \<mapsto> Raw)" "mem_ok live m1" by (simp_all add: sizeof_defs)
  then have new: "n' \<noteq> l" "n' \<noteq> n" "n' \<notin> nodes_of xs" "n' \<notin> nodes_of ys" using list_rep_dom [OF assms(2)] by auto
  have l: "l \<noteq> NULL" "l \<noteq> n" "l \<notin> nodes_of xs" "l \<notin> nodes_of ys"
    using assms(2) list_rep_header [OF assms(2)] by (auto simp: list_rep_def)
  show ?thesis
  proof (cases xs rule: rev_cases)
    case Nil
    with Some r n' new l assms(2) show ?thesis
      by (auto simp: list_insert_before_def mem_simps list_rep_def intro!: mem_ok_upd split: if_splits)
  next
    case (snoc xs' x)
    moreover obtain u w where x: "x = (u, w)" by (cases x)
    ultimately have u: "u \<noteq> NULL" using assms(2) by (simp add: list_rep_def)
    have fwd: "fwd_chain (objs m) (xs @ (n, d) # ys)" using list_rep_fwd [OF assms(2)] by (simp add: list_fwd_def)
    have "\<exists>m'. list_insert_before km l n e m = Some (n', m') \<and> mem_ok live m' \<and> objs m' l = objs m l
        \<and> (\<forall>k. k \<noteq> n' \<longrightarrow> same_fwd (objs m k) (objs m' k))"
      using snoc x u Some r n' new l assms(2)
      by (auto simp: list_insert_before_def mem_simps list_rep_def same_fwd_def intro!: mem_ok_upd split: if_splits)
    then obtain m' where m': "list_insert_before km l n e m = Some (n', m')" "mem_ok live m'" "objs m' l = objs m l"
      "\<And>k. k \<noteq> n' \<Longrightarrow> same_fwd (objs m k) (objs m' k)" by blast
    have "fwd_chain (objs m') (xs @ (n, d) # ys)"
      using new by (intro fwd_chain_cong [OF m'(4) fwd]) auto
    with m' n' snoc assms(2) show ?thesis by (simp add: list_fwd_def list_rep_def)
  qed
qed

lemma destroy_nodes_ok:
  assumes "mem_ok live m" "chain (objs m) l pv xs NULL" "distinct (map fst xs @ data_of xs)"
    and "\<forall>d \<in> set (data_of xs). objs m d \<noteq> None"
  shows "case destroy_nodes kf (node_first NULL xs) m of
      None \<Rightarrow> kfree_fails live kf
    | Some m' \<Rightarrow> mem_ok live m' \<and> objs m' = objs m |` (- (nodes_of xs \<union> set (data_of xs)))"
  using assms
proof (induction xs arbitrary: m pv)
  case Nil
  then show ?case by (simp add: destroy_nodes.simps data_of_def restrict_map_def)
next
  case (Cons x xs)
  obtain n d where x: "x = (n, d)" by (cases x)
  with Cons.prems have n: "n \<noteq> NULL" "n \<notin> nodes_of xs" "n \<notin> set (data_of xs)" "d = n \<Longrightarrow> d = NULL"
    and nd: "objs m n = Some (Node_obj \<lparr>node_prev = pv, node_next = node_first NULL xs, node_data = d, node_owner = l\<rparr>)"
    and rest: "chain (objs m) l n xs NULL" "distinct (map fst xs @ data_of xs)"
    by (auto simp: data_of_def split: if_splits)
  have step: "destroy_nodes kf n m = (if d \<noteq> NULL then free_obj kf d m else Some m) \<bind>
      (\<lambda>m. free_obj kf n m \<bind> destroy_nodes kf (node_first NULL xs))"
    using n(1) nd by (simp add: destroy_nodes.simps [of kf n m] get_defs)
  have last: "case free_obj kf n m1 \<bind> destroy_nodes kf (node_first NULL xs) of
      None \<Rightarrow> kfree_fails live kf
    | Some m' \<Rightarrow> mem_ok live m' \<and> objs m' = objs m |` (- (nodes_of (x # xs) \<union> set (data_of (x # xs))))"
    if m1: "mem_ok live m1" "objs m1 = objs m |` (- (if d \<noteq> NULL then {d} else {}))" for m1
  proof (rule free_obj_cases [OF m1(1), of n])
    show "objs m1 n \<noteq> None" using m1(2) nd n(1,4) by (auto simp: restrict_map_def)
  next
    fix m2 assume m2: "free_obj kf n m1 = Some m2" "mem_ok live m2" "objs m2 = (objs m1)(n := None)"
    have same: "objs m2 k = objs m k" if "k \<in> nodes_of xs \<union> set (data_of xs)" for k
      using that m2(3) m1(2) n x Cons.prems(3) by (auto simp: restrict_map_def data_of_def split: if_splits)
    then have "chain (objs m2) l n xs NULL" using rest(1) chain_cong [of xs "objs m2" "objs m"] by auto
    moreover have "\<forall>e \<in> set (data_of xs). objs m2 e \<noteq> None"
      using same Cons.prems(4) x by (auto simp: data_of_def)
    ultimately have "case destroy_nodes kf (node_first NULL xs) m2 of
        None \<Rightarrow> kfree_fails live kf
      | Some m' \<Rightarrow> mem_ok live m' \<and> objs m' = objs m2 |` (- (nodes_of xs \<union> set (data_of xs)))"
      using Cons.IH m2(2) rest(2) by blast
    moreover have "objs m2 |` (- (nodes_of xs \<union> set (data_of xs))) = objs m |` (- (nodes_of (x # xs) \<union> set (data_of (x # xs))))"
      using m2(3) m1(2) x by (auto simp: restrict_map_def fun_eq_iff data_of_def)
    ultimately show ?thesis using m2(1) by (auto split: option.splits)
  qed simp
  show ?case
  proof (cases "d = NULL")
    case True
    then have "objs m = objs m |` (- (if d \<noteq> NULL then {d} else {}))" by (simp add: restrict_map_def)
    with step last [OF Cons.prems(1)] x True show ?thesis by simp
  next
    case False
    then have "objs m d \<noteq> None" using Cons.prems(4) x by (simp add: data_of_def)
    from free_obj_cases [OF Cons.prems(1) this] show ?thesis
    proof cases
      case 1
      with step False x show ?thesis by simp
    next
      case (2 m1)
      moreover have "objs m1 = objs m |` (- {d})" using 2(3) by (auto simp: restrict_map_def)
      ultimately show ?thesis using last [of m1] step False x by simp
    qed
  qed
qed

lemma list_destroy_ok:
  assumes "mem_ok live m" "list_rep (objs m) l xs" "distinct (data_of xs)"
    and "set (data_of xs) \<subseteq> dom (objs m)" "set (data_of xs) \<inter> insert l (nodes_of xs) = {}"
  shows "case list_destroy kf l m of
      None \<Rightarrow> kfree_fails live kf
    | Some m' \<Rightarrow> mem_ok live m' \<and> objs m' = objs m |` (- (insert l (nodes_of xs \<union> set (data_of xs))))"
proof -
  let ?B = "nodes_of xs \<union> set (data_of xs)"
  have l: "l \<noteq> NULL" "l \<notin> ?B" "objs m l = Some (List_obj \<lparr>list_head = node_first NULL xs, list_tail = node_last NULL xs\<rparr>)"
    using assms(2,5) list_rep_header [OF assms(2)] by (auto simp: list_rep_def)
  have d: "case destroy_nodes kf (node_first NULL xs) m of
      None \<Rightarrow> kfree_fails live kf | Some m' \<Rightarrow> mem_ok live m' \<and> objs m' = objs m |` (- ?B)"
    by (rule destroy_nodes_ok [OF assms(1)]) (use assms(2-5) in \<open>auto simp: list_rep_def\<close>)
  show ?thesis
  proof (cases "destroy_nodes kf (node_first NULL xs) m")
    case (Some m1)
    with d have m1: "mem_ok live m1" "objs m1 = objs m |` (- ?B)" by simp_all
    then have "objs m1 l \<noteq> None" using l by (simp add: restrict_map_def)
    from free_obj_cases [OF m1(1) this] show ?thesis
    proof cases
      case 1
      with Some l show ?thesis by (simp add: list_destroy_def get_defs)
    next
      case (2 m2)
      with m1 have "objs m2 = objs m |` (- (insert l ?B))" by (auto simp: restrict_map_def)
      with Some l 2 show ?thesis by (simp add: list_destroy_def get_defs)
    qed
  qed (use l d in \<open>simp add: list_destroy_def get_defs\<close>)
qed

lemma list_insert_after_ok:
  assumes "mem_ok live m" "list_rep (objs m) l (xs @ (n, d) # ys)"
  shows "case list_insert_after km l n e m of
      None \<Rightarrow> km sizeof_node_t (kheap_of m) = None
    | Some (n', m') \<Rightarrow> objs m n' = None \<and> mem_ok live m' \<and> list_fwd (objs m') l (xs @ (n, d) # (n', e) # ys)
        \<and> (ys = [] \<longrightarrow> list_rep (objs m') l (xs @ [(n, d), (n', e)]))"
proof (cases "new_obj km sizeof_node_t m")
  case None
  with new_obj_ok [OF assms(1), of sizeof_node_t] obj_lim assms(2) show ?thesis
    by (simp add: list_insert_after_def sizeof_defs list_rep_def get_defs)
next
  case (Some r)
  obtain n' m1 where r: "r = (n', m1)" by (cases r)
  from new_obj_ok [OF assms(1), of sizeof_node_t] obj_lim Some r
  have n': "n' \<noteq> NULL" "objs m n' = None" "objs m1 = (objs m)(n' \<mapsto> Raw)" "mem_ok live m1" by (simp_all add: sizeof_defs)
  then have new: "n' \<noteq> l" "n' \<noteq> n" "n' \<notin> nodes_of xs" "n' \<notin> nodes_of ys" using list_rep_dom [OF assms(2)] by auto
  have l: "l \<noteq> NULL" "l \<noteq> n" "l \<notin> nodes_of xs" "l \<notin> nodes_of ys"
    using assms(2) list_rep_header [OF assms(2)] by (auto simp: list_rep_def)
  show ?thesis
  proof (cases ys)
    case Nil
    have "list_rep h l (xs @ [(n, d), (n', e)]) \<Longrightarrow> list_fwd h l (xs @ (n, d) # (n', e) # ys)" for h
      using list_rep_fwd Nil by blast
    moreover have "\<exists>m'. list_insert_after km l n e m = Some (n', m') \<and> mem_ok live m' \<and> list_rep (objs m') l (xs @ [(n, d), (n', e)])"
      using Nil Some r n' new l assms(2)
      by (auto simp: list_insert_after_def mem_simps list_rep_def intro!: mem_ok_upd split: if_splits)
    ultimately show ?thesis using n' by auto
  next
    case (Cons y ys')
    moreover obtain v f where y: "y = (v, f)" by (cases y)
    ultimately have v: "v \<noteq> NULL" using assms(2) by (simp add: list_rep_def)
    define h where "h = (objs m)(n' \<mapsto> Node_obj \<lparr>node_prev = n, node_next = v, node_data = e, node_owner = l\<rparr>,
      n \<mapsto> Node_obj \<lparr>node_prev = node_last NULL xs, node_next = n', node_data = d, node_owner = l\<rparr>)"
    have "chain h l NULL xs n" "chain h l n ys NULL" "n \<noteq> NULL"
      using assms(2) new by (auto simp: h_def list_rep_def)
    moreover have "fwd_chain h (zs @ ws)" if "chain h l pv zs (node_first NULL ws)" "fwd_chain h ws" for pv zs ws
      using that by (induction zs arbitrary: pv) auto
    ultimately have "fwd_chain h (xs @ (n, d) # (n', e) # ys)"
      using chain_fwd [of h l n ys] n' new Cons y by (auto simp: h_def)
    moreover have "\<exists>m'. list_insert_after km l n e m = Some (n', m') \<and> mem_ok live m' \<and> objs m' = h"
      using Cons y v Some r n' new l assms(2)
      by (auto simp: list_insert_after_def mem_simps list_rep_def h_def intro!: mem_ok_upd split: if_splits)
    moreover have "h l = objs m l" using new l by (simp add: h_def)
    ultimately show ?thesis using n' Cons assms(2) by (auto simp: list_fwd_def list_rep_def)
  qed
qed

end

subsection \<open>An example list\<close>

definition demo_list :: "liballoc kmem" where
  "demo_list = \<lparr>kheap_of = demo_six, objs = [
     demo_ptr 0 \<mapsto> List_obj \<lparr>list_head = demo_ptr 1, list_tail = demo_ptr 2\<rparr>,
     demo_ptr 1 \<mapsto> Node_obj \<lparr>node_prev = NULL, node_next = demo_ptr 2, node_data = demo_ptr 3, node_owner = demo_ptr 0\<rparr>,
     demo_ptr 2 \<mapsto> Node_obj \<lparr>node_prev = demo_ptr 1, node_next = NULL, node_data = demo_ptr 4, node_owner = demo_ptr 0\<rparr>,
     demo_ptr 3 \<mapsto> Raw, demo_ptr 4 \<mapsto> Raw]\<rparr>"

abbreviation demo_nodes :: "(addr \<times> addr) list" where
  "demo_nodes \<equiv> [(demo_ptr 1, demo_ptr 3), (demo_ptr 2, demo_ptr 4)]"

lemma demo_list_ok: "mem_ok kmalloc_live demo_list" "list_rep (objs demo_list) (demo_ptr 0) demo_nodes"
proof -
  show "mem_ok kmalloc_live demo_list" unfolding demo_list_def by (rule demo_mem_ok) auto
  show "list_rep (objs demo_list) (demo_ptr 0) demo_nodes"
    by (simp add: list_rep_def demo_list_def node_last_def)
qed

subsection \<open>Properties\<close>

text \<open>
  C10. \<^verbatim>\<open>list_insert\<close> appends: on a list that holds the nodes \<open>xs\<close>, it returns a new node, the list
  holds \<open>xs\<close> and then this node with the data given, memory is in order and nothing outside the list
  has changed. It fails only if \<^verbatim>\<open>kmalloc\<close> does.
\<close>

theorem list_insert_refines:
  assumes "mem_ok kmalloc_live m" "list_rep (objs m) l xs"
  shows "case list_insert kmalloc l d m of
      None \<Rightarrow> kmalloc sizeof_node_t (kheap_of m) = None
    | Some (n, m') \<Rightarrow> objs m n = None \<and> list_rep (objs m') l (xs @ [(n, d)]) \<and> mem_ok kmalloc_live m'
        \<and> same_except (insert l (insert n (nodes_of xs))) m m'"
  using assms by (rule kobjects.list_insert_ok)

theorem list_insert_refines_witness:
  "\<exists>n m'. list_insert kmalloc (demo_ptr 0) (demo_ptr 5) demo_list = Some (n, m')
     \<and> list_rep (objs m') (demo_ptr 0) (demo_nodes @ [(n, demo_ptr 5)])"
proof -
  have "kmalloc sizeof_node_t (kheap_of demo_list) \<noteq> None"
    using demo_six_alloc by (simp add: demo_list_def sizeof_defs)
  with list_insert_refines [OF demo_list_ok, of "demo_ptr 5"] show ?thesis
    by (auto split: option.splits)
qed

text \<open>
  C9. \<^verbatim>\<open>list_dequeue\<close> takes a node out of the middle of its list: it always returns the node, which
  is then linked to nothing, the list holds the nodes before and after it, no block of memory
  appears or vanishes and nothing outside the list has changed.
\<close>

theorem list_dequeue_refines:
  assumes "mem_ok kmalloc_live m" "list_rep (objs m) l (xs @ (n, d) # ys)"
  shows "\<exists>m'. list_dequeue l n m = Some (n, m') \<and> list_rep (objs m') l (xs @ ys) \<and> mem_ok kmalloc_live m'
    \<and> objs m' n = Some (Node_obj \<lparr>node_prev = NULL, node_next = NULL, node_data = d, node_owner = NULL\<rparr>)
    \<and> same_except (insert l (insert n (nodes_of (xs @ ys)))) m m' \<and> dom (objs m') = dom (objs m)"
  using assms by (rule kobjects.list_dequeue_ok)

theorem list_dequeue_refines_witness:
  "\<exists>m'. list_dequeue (demo_ptr 0) (demo_ptr 1) demo_list = Some (demo_ptr 1, m')
     \<and> list_rep (objs m') (demo_ptr 0) [(demo_ptr 2, demo_ptr 4)]"
proof -
  have "list_rep (objs demo_list) (demo_ptr 0) ([] @ (demo_ptr 1, demo_ptr 3) # [(demo_ptr 2, demo_ptr 4)])"
    using demo_list_ok(2) by simp
  from list_dequeue_refines [OF demo_list_ok(1) this] show ?thesis by auto
qed

text \<open>
  \<^verbatim>\<open>list_destroy\<close> releases every node, every non-null datum and the list itself, each once, and
  nothing else: it returns with exactly these blocks gone, unless the allocator does not return from
  the release of a block in use.
\<close>

theorem list_destroy_frees:
  fixes m :: "liballoc kmem"
  assumes "mem_ok kmalloc_live m" "list_rep (objs m) l xs" "distinct (data_of xs)"
    and "set (data_of xs) \<subseteq> dom (objs m)" "set (data_of xs) \<inter> insert l (nodes_of xs) = {}"
  shows "case list_destroy kfree l m of
      None \<Rightarrow> kfree_fails kmalloc_live (kfree :: liballoc kfree_fn)
    | Some m' \<Rightarrow> mem_ok kmalloc_live m' \<and> objs m' = objs m |` (- (insert l (nodes_of xs \<union> set (data_of xs))))"
  using assms by (rule kobjects.list_destroy_ok)

theorem list_destroy_frees_witness:
  "case list_destroy kfree (demo_ptr 0) demo_list of
     None \<Rightarrow> kfree_fails kmalloc_live (kfree :: liballoc kfree_fn) | Some m' \<Rightarrow> mem_ok kmalloc_live m' \<and> objs m' = Map.empty"
proof -
  have "objs demo_list |` (- (insert (demo_ptr 0) (nodes_of demo_nodes \<union> set (data_of demo_nodes)))) = Map.empty"
    by (auto simp: demo_list_def restrict_map_def data_of_def)
  moreover have "distinct (data_of demo_nodes)" "set (data_of demo_nodes) \<subseteq> dom (objs demo_list)"
    "set (data_of demo_nodes) \<inter> insert (demo_ptr 0) (nodes_of demo_nodes) = {}"
    by (simp_all add: data_of_def demo_list_def)
  ultimately show ?thesis
    using list_destroy_frees [OF demo_list_ok] by (auto split: option.splits)
qed

text \<open>
  \<^verbatim>\<open>list_insert_before\<close> inserts before the head, but nowhere else: before any other node, the new
  node cannot be reached from the head, and a walk by index over the list gives what it gave before.
\<close>

theorem list_insert_before_lost:
  assumes "mem_ok kmalloc_live m" "list_rep (objs m) l (xs @ (n, d) # ys)"
    and "list_insert_before kmalloc l n e m = Some (n', m')"
  shows "if xs = [] then list_rep (objs m') l ((n', e) # (n, d) # ys)
    else objs m n' = None \<and> (\<forall>i. list_get_index l i m' = list_get_index l i m \<and> list_get_index l i m' \<noteq> Some n')"
proof (cases "xs = []")
  case True
  with kobjects.list_insert_before_ok [OF assms(1,2), of e] assms(3) show ?thesis by simp
next
  case False
  with kobjects.list_insert_before_ok [OF assms(1,2), of e] assms(3)
  have f: "objs m n' = None" "list_fwd (objs m') l (xs @ (n, d) # ys)" "n' \<noteq> NULL" by simp_all
  have "n' \<notin> nodes_of (xs @ (n, d) # ys)" using list_rep_dom [OF assms(2)] f(1) by auto
  then have "fst ((xs @ (n, d) # ys) ! i) \<noteq> n'" if "i < length (xs @ (n, d) # ys)" for i
    using nth_mem [OF that] by (metis image_eqI)
  then show ?thesis
    using False f list_get_index_fwd [OF f(2)] list_get_index_fwd [OF list_rep_fwd [OF assms(2)]] by auto
qed

theorem list_insert_before_lost_witness:
  "\<exists>n' m'. list_insert_before kmalloc (demo_ptr 0) (demo_ptr 2) (demo_ptr 5) demo_list = Some (n', m')
     \<and> list_get_index (demo_ptr 0) 1 m' = Some (demo_ptr 2) \<and> list_get_index (demo_ptr 0) 1 m' \<noteq> Some n'"
proof -
  have rep: "list_rep (objs demo_list) (demo_ptr 0) ([(demo_ptr 1, demo_ptr 3)] @ (demo_ptr 2, demo_ptr 4) # [])"
    using demo_list_ok(2) by simp
  have "kmalloc sizeof_node_t (kheap_of demo_list) \<noteq> None"
    using demo_six_alloc by (simp add: demo_list_def sizeof_defs)
  with kobjects.list_insert_before_ok [OF demo_list_ok(1) rep, of "demo_ptr 5"]
  obtain n' m' where run: "list_insert_before kmalloc (demo_ptr 0) (demo_ptr 2) (demo_ptr 5) demo_list = Some (n', m')"
    by (auto split: option.splits)
  have "list_get_index (demo_ptr 0) 1 demo_list = Some (demo_ptr 2)"
    using list_get_index_fwd [OF list_rep_fwd [OF demo_list_ok(2)], of 1] by simp
  moreover have "\<forall>i. list_get_index (demo_ptr 0) i m' = list_get_index (demo_ptr 0) i demo_list
      \<and> list_get_index (demo_ptr 0) i m' \<noteq> Some n'"
    using list_insert_before_lost [OF demo_list_ok(1) rep run] by (metis list.distinct(1))
  ultimately show ?thesis using run by metis
qed

end
