(* ===== verification/Trees.thy ===== *)
theory Trees
  imports Lists
begin

section \<open>Trees (kernel/structures/tree.c)\<close>

text \<open>
  The operations of tree.c. A tree node holds a list of its children; the data of the nodes of
  this list are the child nodes. \<^verbatim>\<open>list_remove\<close> and \<^verbatim>\<open>list_destroy\<close> release the data of the list nodes
  they release, and with it the child, as the theorems at the end show.
\<close>

definition tree_create :: "'a kmalloc_fn \<Rightarrow> 'a kmem \<Rightarrow> (addr \<times> 'a kmem) option" where
  "tree_create km m = do {
     (t, m) \<leftarrow> new_obj km sizeof_tree_t m;
     m \<leftarrow> put_obj t (Tree_obj \<lparr>tree_root = NULL\<rparr>) m;
     Some (t, m)
   }"

definition tree_delete_node :: "'a kfree_fn \<Rightarrow> addr \<Rightarrow> 'a kmem \<Rightarrow> 'a kmem option" where
  "tree_delete_node kf node m =
    (if node = NULL then Some m
     else do {
       tn \<leftarrow> get_tree_node node m;
       ASSERT (tn_parent tn = NULL);
       ASSERT (tn_owner tn = NULL);
       li \<leftarrow> get_list (tn_children tn) m;
       ASSERT (list_head li = NULL);
       m \<leftarrow> list_destroy kf (tn_children tn) m;
       free_obj kf node m
     })"

text \<open>The second half of \<^verbatim>\<open>tree_delete_branch\<close>, after the loop over the children.\<close>

definition tree_delete_finish :: "'a kfree_fn \<Rightarrow> addr \<Rightarrow> addr \<Rightarrow> 'a kmem \<Rightarrow> 'a kmem option" where
  "tree_delete_finish kf tree node m = do {
     tn \<leftarrow> get_tree_node node m;
     m \<leftarrow> list_destroy kf (tn_children tn) m;
     tn \<leftarrow> get_tree_node node m;
     m \<leftarrow> (if tn_parent tn \<noteq> NULL then do {
         pn \<leftarrow> get_tree_node (tn_parent tn) m;
         parent_ptr \<leftarrow> list_find (tn_children pn) node m;
         list_remove kf (tn_children pn) parent_ptr m
       } else do { t \<leftarrow> get_tree tree m; put_obj tree (Tree_obj (t\<lparr>tree_root := NULL\<rparr>)) m });
     tn \<leftarrow> get_tree_node node m;
     m \<leftarrow> (if tn_data tn \<noteq> NULL then free_obj kf (tn_data tn) m else Some m);
     free_obj kf node m
   }"

text \<open>The loop over the children, with the recursive call of \<^verbatim>\<open>tree_delete_branch\<close> written out.\<close>

partial_function (option) tree_delete_children :: "'a kfree_fn \<Rightarrow> addr \<Rightarrow> addr \<Rightarrow> 'a kmem \<Rightarrow> 'a kmem option" where
  "tree_delete_children kf tree child m =
    (if child = NULL then Some m
     else do {
       n \<leftarrow> get_node child m;
       m \<leftarrow> (if tree = NULL \<or> node_data n = NULL then Some m
             else do {
               tn \<leftarrow> get_tree_node (node_data n) m;
               ASSERT (tn_owner tn = tree);
               li \<leftarrow> get_list (tn_children tn) m;
               m \<leftarrow> tree_delete_children kf tree (list_head li) m;
               tree_delete_finish kf tree (node_data n) m
             });
       tree_delete_children kf tree (node_next n) m
     })"

definition tree_delete_branch :: "'a kfree_fn \<Rightarrow> addr \<Rightarrow> addr \<Rightarrow> 'a kmem \<Rightarrow> 'a kmem option" where
  "tree_delete_branch kf tree node m =
    (if tree = NULL \<or> node = NULL then Some m
     else do {
       tn \<leftarrow> get_tree_node node m;
       ASSERT (tn_owner tn = tree);
       li \<leftarrow> get_list (tn_children tn) m;
       m \<leftarrow> tree_delete_children kf tree (list_head li) m;
       tree_delete_finish kf tree node m
     })"

definition tree_detach_branch :: "'a kfree_fn \<Rightarrow> addr \<Rightarrow> addr \<Rightarrow> 'a kmem \<Rightarrow> (addr \<times> 'a kmem) option" where
  "tree_detach_branch kf tree node m =
    (if tree = NULL \<or> node = NULL then Some (NULL, m)
     else do {
       tn \<leftarrow> get_tree_node node m;
       ASSERT (tn_owner tn = tree);
       if tn_parent tn = NULL then do {
         t \<leftarrow> get_tree tree m;
         m \<leftarrow> put_obj tree (Tree_obj (t\<lparr>tree_root := NULL\<rparr>)) m;
         Some (node, m)
       } else do {
         pn \<leftarrow> get_tree_node (tn_parent tn) m;
         parent_ptr \<leftarrow> list_find (tn_children pn) node m;
         m \<leftarrow> list_remove kf (tn_children pn) parent_ptr m;
         m \<leftarrow> upd_tree_node node (\<lambda>tn. tn\<lparr>tn_parent := NULL, tn_owner := NULL\<rparr>) m;
         Some (node, m)
       }
     })"

definition tree_destroy :: "'a kfree_fn \<Rightarrow> addr \<Rightarrow> 'a kmem \<Rightarrow> 'a kmem option" where
  "tree_destroy kf tree m =
    (if tree = NULL then Some m
     else do {
       t \<leftarrow> get_tree tree m;
       m \<leftarrow> tree_delete_branch kf tree (tree_root t) m;
       free_obj kf tree m
     })"

definition tree_set_root :: "'a kmalloc_fn \<Rightarrow> 'a kfree_fn \<Rightarrow> addr \<Rightarrow> addr \<Rightarrow> 'a kmem \<Rightarrow> (addr \<times> 'a kmem) option" where
  "tree_set_root km kf tree d m =
    (if tree = NULL \<or> d = NULL then Some (NULL, m)
     else do {
       (node, m) \<leftarrow> new_obj km sizeof_tree_node_t m;
       if node = NULL then Some (NULL, m)
       else do {
         (ch, m) \<leftarrow> list_create km m;
         if ch = NULL then do { m \<leftarrow> free_obj kf node m; Some (NULL, m) }
         else do {
           m \<leftarrow> put_obj node (Tree_node_obj \<lparr>tn_data = d, tn_children = ch, tn_parent = NULL, tn_owner = tree\<rparr>) m;
           t \<leftarrow> get_tree tree m;
           m \<leftarrow> put_obj tree (Tree_obj (t\<lparr>tree_root := node\<rparr>)) m;
           Some (node, m)
         }
       }
     })"

definition tree_insert_node :: "'a kmalloc_fn \<Rightarrow> 'a kfree_fn \<Rightarrow> addr \<Rightarrow> addr \<Rightarrow> addr \<Rightarrow> 'a kmem \<Rightarrow> (addr \<times> 'a kmem) option" where
  "tree_insert_node km kf tree parent d m =
    (if tree = NULL \<or> parent = NULL then Some (NULL, m)
     else do {
       pn \<leftarrow> get_tree_node parent m;
       ASSERT (tn_owner pn = tree);
       (node, m) \<leftarrow> new_obj km sizeof_tree_node_t m;
       if node = NULL then Some (NULL, m)
       else do {
         (ch, m) \<leftarrow> list_create km m;
         if ch = NULL then do { m \<leftarrow> free_obj kf node m; Some (NULL, m) }
         else do {
           m \<leftarrow> put_obj node (Tree_node_obj \<lparr>tn_data = d, tn_children = ch, tn_parent = parent, tn_owner = tree\<rparr>) m;
           pn \<leftarrow> get_tree_node parent m;
           (_, m) \<leftarrow> list_insert km (tn_children pn) node m;
           Some (node, m)
         }
       }
     })"

definition tree_insert_direct :: "'a kmalloc_fn \<Rightarrow> addr \<Rightarrow> addr \<Rightarrow> addr \<Rightarrow> 'a kmem \<Rightarrow> (addr \<times> 'a kmem) option" where
  "tree_insert_direct km tree parent node m =
    (if tree = NULL \<or> parent = NULL \<or> node = NULL then Some (NULL, m)
     else do {
       pn \<leftarrow> get_tree_node parent m;
       ASSERT (tn_owner pn = tree);
       tn \<leftarrow> get_tree_node node m;
       ASSERT (tn_owner tn = NULL);
       m \<leftarrow> upd_tree_node node (\<lambda>tn. tn\<lparr>tn_parent := parent, tn_owner := tree\<rparr>) m;
       pn \<leftarrow> get_tree_node parent m;
       (_, m) \<leftarrow> list_insert km (tn_children pn) node m;
       Some (node, m)
     })"

definition tree_inherit_children :: "addr \<Rightarrow> addr \<Rightarrow> addr \<Rightarrow> 'a kmem \<Rightarrow> 'a kmem option" where
  "tree_inherit_children tree newparent oldparent m =
    (if tree = NULL \<or> newparent = NULL \<or> oldparent = NULL then Some m
     else do {
       nn \<leftarrow> get_tree_node newparent m;
       ASSERT (tn_owner nn = tree);
       on \<leftarrow> get_tree_node oldparent m;
       list_merge (tn_children nn) (tn_children on) m
     })"

subsection \<open>Insertion\<close>

text \<open>A node of a tree whose children list holds the nodes \<open>xs\<close>.\<close>

definition tree_node_rep :: "(addr \<rightharpoonup> kobj) \<Rightarrow> addr \<Rightarrow> addr \<Rightarrow> addr \<Rightarrow> addr \<Rightarrow> (addr \<times> addr) list \<Rightarrow> bool" where
  "tree_node_rep h tree parent d node xs \<longleftrightarrow> node \<noteq> NULL \<and> tree \<noteq> NULL \<and> (\<exists>ch. list_rep h ch xs
     \<and> h node = Some (Tree_node_obj \<lparr>tn_data = d, tn_children = ch, tn_parent = parent, tn_owner = tree\<rparr>))"

context object_heap
begin

lemma tree_insert_node_ok:
  assumes mem: "mem_ok live m" and rep: "tree_node_rep (objs m) tree grand pd parent xs"
  shows "case tree_insert_node km kf tree parent d m of
      None \<Rightarrow> \<not> allocs km [sizeof_tree_node_t, sizeof_list_t, sizeof_node_t] (kheap_of m)
    | Some (node, m') \<Rightarrow> mem_ok live m' \<and> objs m node = None \<and> tree_node_rep (objs m') tree parent d node []
        \<and> (\<exists>n. tree_node_rep (objs m') tree grand pd parent (xs @ [(n, node)]) \<and> objs m n = None)"
proof (cases "allocs km [sizeof_tree_node_t, sizeof_list_t] (kheap_of m)")
  case False
  then have "tree_insert_node km kf tree parent d m = None" "\<not> allocs km [sizeof_tree_node_t, sizeof_list_t, sizeof_node_t] (kheap_of m)"
    using rep new_obj_ok [OF mem, of sizeof_tree_node_t] obj_lim
    by (auto simp: allocs_step tree_insert_node_def tree_node_rep_def get_defs list_create_def sizeof_defs simp del: allocs.simps(2)
        split: option.splits bind_splits)
  then show ?thesis by simp
next
  case True
  then obtain q m1 c0 m20 where q: "new_obj km sizeof_tree_node_t m = Some (q, m1)" and c0: "new_obj km sizeof_list_t m1 = Some (c0, m20)"
    by (auto simp: allocs_step simp del: allocs.simps(2) split: option.splits)
  obtain ch where p: "parent \<noteq> NULL" "tree \<noteq> NULL" "list_rep (objs m) ch xs"
    "objs m parent = Some (Tree_node_obj \<lparr>tn_data = pd, tn_children = ch, tn_parent = grand, tn_owner = tree\<rparr>)"
    using rep by (auto simp: tree_node_rep_def)
  from q new_obj_ok [OF mem, of sizeof_tree_node_t] obj_lim
  have m1: "q \<noteq> NULL" "objs m q = None" "objs m1 = (objs m)(q \<mapsto> Raw)" "mem_ok live m1" by (simp_all add: sizeof_defs)
  from c0 new_obj_ok [OF m1(4), of sizeof_list_t] obj_lim
  obtain c m2 where c: "list_create km m1 = Some (c, m2)" "kheap_of m2 = kheap_of m20"
    by (auto simp: list_create_def put_obj_def sizeof_defs)
  from c(1) list_create_ok [OF m1(4)]
  have m2: "objs m1 c = None" "list_rep (objs m2) c []" "mem_ok live m2" "same_except {c} m1 m2" by simp_all
  then have "c \<noteq> NULL" by (simp add: list_rep_def)
  define m3 where "m3 = m2\<lparr>objs := (objs m2)(q \<mapsto> Tree_node_obj \<lparr>tn_data = d, tn_children = c, tn_parent = parent, tn_owner = tree\<rparr>)\<rparr>"
  have d: "q \<noteq> c" "parent \<noteq> q" "parent \<noteq> c" "ch \<noteq> q" "ch \<noteq> c" "q \<notin> nodes_of xs" "c \<notin> nodes_of xs"
    using m1 m2(1) p(4) list_rep_dom [OF p(3)] by (auto split: if_splits)
  have q2: "objs m2 q = Some Raw" "objs m2 parent = objs m parent" "objs m2 ch = objs m ch"
    using m2(4) m1(3) d by (simp_all add: same_except_def)
  have put: "put_obj q (Tree_node_obj \<lparr>tn_data = d, tn_children = c, tn_parent = parent, tn_owner = tree\<rparr>) m2 = Some m3"
    using q2(1) by (simp add: put_obj_def m3_def)
  have mem3: "mem_ok live m3" using m2(3) q2(1) unfolding m3_def by (intro mem_ok_upd) auto
  have ch3: "list_rep (objs m3) ch xs"
  proof -
    have "list_rep (objs m3) ch xs \<longleftrightarrow> list_rep (objs m) ch xs"
      using m2(4) m1(3) d by (intro list_rep_cong) (auto simp: m3_def same_except_def)
    with p(3) show ?thesis by simp
  qed
  have run: "tree_insert_node km kf tree parent d m = list_insert km ch q m3 \<bind> (\<lambda>(_, m). Some (q, m))"
    using p q m1 c(1) \<open>c \<noteq> NULL\<close> put q2 d by (auto simp: tree_insert_node_def get_defs m3_def)
  show ?thesis
  proof (cases "list_insert km ch q m3")
    case None
    then have "new_obj km sizeof_node_t m3 = None"
      using list_insert_ok [OF mem3 ch3, of q] by (simp add: new_obj_def)
    moreover have "kheap_of m3 = kheap_of m20" using c(2) by (simp add: m3_def)
    ultimately have "new_obj km sizeof_node_t m20 = None" by (auto simp: new_obj_def split: bind_splits if_splits)
    with q c0 run None show ?thesis by (simp add: allocs_step del: allocs.simps(2))
  next
    case (Some r)
    then obtain n m4 where n: "list_insert km ch q m3 = Some (n, m4)" by (cases r) auto
    with list_insert_ok [OF mem3 ch3, of q]
    have m4: "objs m3 n = None" "list_rep (objs m4) ch (xs @ [(n, q)])" "mem_ok live m4"
      "same_except (insert ch (insert n (nodes_of xs))) m3 m4" by simp_all
    have "parent \<notin> nodes_of xs" "parent \<noteq> ch" using p(3,4) chain_obj [of "objs m" ch NULL xs NULL parent] by (auto simp: list_rep_def)
    moreover have "n \<noteq> parent" "n \<noteq> q" "n \<noteq> c" using m4(1) q2 p(4) m2(2) d by (auto simp: m3_def list_rep_def split: if_splits)
    ultimately have keep: "objs m4 parent = objs m parent" "objs m4 q = objs m3 q" "objs m4 c = objs m2 c"
      using m4(4) q2(2) d by (auto simp: same_except_def m3_def)
    have "objs m n = None" using m4(1) m2(4) m1(3) \<open>n \<noteq> q\<close> \<open>n \<noteq> c\<close> by (simp add: m3_def same_except_def)
    with m4 keep p m1(1,2) m2(2) n d run show ?thesis
      by (auto simp: tree_node_rep_def m3_def list_rep_def)
  qed
qed

text \<open>\<^verbatim>\<open>list_remove\<close> of the list node of a child releases the child.\<close>

lemma tree_detach_uaf:
  assumes mem: "mem_ok live m" and par: "objs m parent = Some (Tree_node_obj pn)" "list_rep (objs m) (tn_children pn) (xs @ (n, node) # ys)"
    and node: "objs m node = Some (Tree_node_obj tn)" "tn_owner tn = tree" "tn_parent tn = parent" "parent \<noteq> NULL" "tree \<noteq> NULL" "node \<noteq> NULL"
    and "node \<notin> snd ` set xs"
  shows "tree_detach_branch kf tree node m = None"
proof -
  let ?l = "tn_children pn"
  have find: "list_find ?l node m = Some n"
  proof -
    have "find (\<lambda>x. snd x = node) (xs @ (n, node) # ys) = Some (n, node)"
      using assms(10) by (induction xs) auto
    then show ?thesis using list_find_fwd [OF list_rep_fwd [OF par(2)] node(6)] by simp
  qed
  have "node \<notin> insert ?l (insert n (nodes_of (xs @ ys)))"
    using node(1) par(2) chain_obj [of "objs m" ?l NULL "xs @ (n, node) # ys" NULL node] by (auto simp: list_rep_def)
  then have "objs m' node = None" if "list_remove kf ?l n m = Some m'" for m'
    using list_remove_ok [OF mem par(2) _ that] node(1,6) by auto
  then show ?thesis
    using node par(1) find
    by (auto simp: tree_detach_branch_def get_defs upd_tree_node_def split: bind_splits)
qed

lemma tree_delete_uaf:
  assumes mem: "mem_ok live m" and par: "objs m parent = Some (Tree_node_obj pn)" "list_rep (objs m) (tn_children pn) (xs @ (n, node) # ys)"
    and node: "objs m node = Some (Tree_node_obj tn)" "tn_owner tn = tree" "tn_parent tn = parent" "parent \<noteq> NULL" "tree \<noteq> NULL" "node \<noteq> NULL"
    and leaf: "list_rep (objs m) (tn_children tn) []" "tn_children tn \<noteq> tn_children pn" and "node \<notin> snd ` set xs"
  shows "tree_delete_branch kf tree node m = None"
proof -
  let ?l = "tn_children pn" and ?c = "tn_children tn"
  have nodes: "node \<notin> insert ?l (insert n (nodes_of (xs @ ys)))" "?c \<notin> insert ?l (insert n (nodes_of (xs @ ys)))"
    using node(1) par(2) leaf chain_obj [of "objs m" ?l NULL "xs @ (n, node) # ys" NULL node]
      chain_obj [of "objs m" ?l NULL "xs @ (n, node) # ys" NULL ?c] by (auto simp: list_rep_def)
  have "tree_delete_finish kf tree node m = None"
  proof (cases "list_destroy kf ?c m")
    case None
    with node(1) show ?thesis by (simp add: tree_delete_finish_def get_defs)
  next
    case (Some m1)
    with list_destroy_ok [OF mem leaf(1)] have m1: "mem_ok live m1" "objs m1 = objs m |` (- {?c})" by (simp_all add: data_of_def)
    have "?c \<noteq> node" "?c \<noteq> parent" using leaf(1) node(1) par(1) by (auto simp: list_rep_def)
    then have same: "objs m1 node = objs m node" "objs m1 parent = objs m parent" using m1(2) by (simp_all add: restrict_map_def)
    have par1: "list_rep (objs m1) ?l (xs @ (n, node) # ys)"
    proof -
      have "list_rep (objs m1) ?l (xs @ (n, node) # ys) \<longleftrightarrow> list_rep (objs m) ?l (xs @ (n, node) # ys)"
        using nodes(2) m1(2) by (intro list_rep_cong) (auto simp: restrict_map_def)
      with par(2) show ?thesis by simp
    qed
    have "find (\<lambda>x. snd x = node) (xs @ (n, node) # ys) = Some (n, node)" using assms(12) by (induction xs) auto
    then have find: "list_find ?l node m1 = Some n" using list_find_fwd [OF list_rep_fwd [OF par1] node(6)] by simp
    have "objs m2 node = None" if "list_remove kf ?l n m1 = Some m2" for m2
      using list_remove_ok [OF m1(1) par1 _ that] nodes(1) same(1) node(1,6) by auto
    with Some same node par(1) find show ?thesis
      by (auto simp: tree_delete_finish_def get_defs split: bind_splits)
  qed
  with node leaf(1) show ?thesis
    by (simp add: tree_delete_branch_def get_defs list_rep_def tree_delete_children.simps)
qed

end

subsection \<open>An example tree\<close>

definition demo_tree :: "liballoc kmem" where
  "demo_tree = \<lparr>kheap_of = demo_six, objs = [
     demo_ptr 0 \<mapsto> Tree_obj \<lparr>tree_root = demo_ptr 1\<rparr>,
     demo_ptr 1 \<mapsto> Tree_node_obj \<lparr>tn_data = NULL, tn_children = demo_ptr 2, tn_parent = NULL, tn_owner = demo_ptr 0\<rparr>,
     demo_ptr 2 \<mapsto> List_obj \<lparr>list_head = demo_ptr 3, list_tail = demo_ptr 3\<rparr>,
     demo_ptr 3 \<mapsto> Node_obj \<lparr>node_prev = NULL, node_next = NULL, node_data = demo_ptr 4, node_owner = demo_ptr 2\<rparr>,
     demo_ptr 4 \<mapsto> Tree_node_obj \<lparr>tn_data = NULL, tn_children = demo_ptr 5, tn_parent = demo_ptr 1, tn_owner = demo_ptr 0\<rparr>,
     demo_ptr 5 \<mapsto> List_obj \<lparr>list_head = NULL, list_tail = NULL\<rparr>]\<rparr>"

lemma demo_tree_ok:
  "mem_ok kmalloc_live demo_tree" "list_rep (objs demo_tree) (demo_ptr 2) [(demo_ptr 3, demo_ptr 4)]" "list_rep (objs demo_tree) (demo_ptr 5) []"
proof -
  show "mem_ok kmalloc_live demo_tree" unfolding demo_tree_def by (rule demo_mem_ok) auto
  show "list_rep (objs demo_tree) (demo_ptr 2) [(demo_ptr 3, demo_ptr 4)]" "list_rep (objs demo_tree) (demo_ptr 5) []"
    by (simp_all add: list_rep_def demo_tree_def node_last_def)
qed

subsection \<open>Properties\<close>

text \<open>
  C28. \<^verbatim>\<open>tree_insert_node\<close> makes a new leaf with the data given, puts it behind the other children of
  the parent and links it to parent and tree; it fails only if one of its three allocations does.
\<close>

theorem tree_insert_node_refines:
  assumes "mem_ok kmalloc_live m" "tree_node_rep (objs m) tree grand pd parent xs"
  shows "case tree_insert_node kmalloc kfree tree parent d m of
      None \<Rightarrow> \<not> allocs kmalloc [sizeof_tree_node_t, sizeof_list_t, sizeof_node_t] (kheap_of m)
    | Some (node, m') \<Rightarrow> mem_ok kmalloc_live m' \<and> objs m node = None \<and> tree_node_rep (objs m') tree parent d node []
        \<and> (\<exists>n. tree_node_rep (objs m') tree grand pd parent (xs @ [(n, node)]) \<and> objs m n = None)"
  using assms by (rule kobjects.tree_insert_node_ok)

theorem tree_insert_node_refines_witness:
  "case tree_insert_node kmalloc kfree (demo_ptr 0) (demo_ptr 4) 77 demo_tree of
     None \<Rightarrow> \<not> allocs kmalloc [16, 8, 16] demo_six
   | Some (node, m') \<Rightarrow> \<exists>n. tree_node_rep (objs m') (demo_ptr 0) (demo_ptr 1) NULL (demo_ptr 4) [(n, node)]"
proof -
  have "tree_node_rep (objs demo_tree) (demo_ptr 0) (demo_ptr 1) NULL (demo_ptr 4) []"
    using demo_tree_ok(3) by (auto simp: tree_node_rep_def) (simp add: demo_tree_def)
  from tree_insert_node_refines [OF demo_tree_ok(1) this, of 77] show ?thesis
    by (cases "tree_insert_node kmalloc kfree (demo_ptr 0) (demo_ptr 4) 77 demo_tree")
      (auto simp: sizeof_defs demo_tree_def simp del: allocs.simps)
qed

text \<open>
  \<^verbatim>\<open>tree_detach_branch\<close> and, for a leaf, \<^verbatim>\<open>tree_delete_branch\<close> cannot do their work on a node that has a
  parent: \<^verbatim>\<open>list_remove\<close> has released the node with the entry of the parent's list, and the next
  access is to memory that is no longer in use.
\<close>

theorem tree_detach_freed:
  fixes m :: "liballoc kmem"
  assumes "mem_ok kmalloc_live m" "objs m parent = Some (Tree_node_obj pn)"
    and "list_rep (objs m) (tn_children pn) (xs @ (n, node) # ys)" "node \<notin> snd ` set xs"
    and "objs m node = Some (Tree_node_obj tn)" "tn_owner tn = tree" "tn_parent tn = parent" "parent \<noteq> NULL" "tree \<noteq> NULL" "node \<noteq> NULL"
  shows "tree_detach_branch kfree tree node m = None
    \<and> (list_rep (objs m) (tn_children tn) [] \<and> tn_children tn \<noteq> tn_children pn \<longrightarrow> tree_delete_branch kfree tree node m = None)"
  using kobjects.tree_detach_uaf [OF assms(1-3,5-10,4)] kobjects.tree_delete_uaf [OF assms(1-3,5-10) _ _ assms(4)] by blast

theorem tree_detach_freed_witness:
  "tree_detach_branch kfree (demo_ptr 0) (demo_ptr 4) demo_tree = None \<and> tree_delete_branch kfree (demo_ptr 0) (demo_ptr 4) demo_tree = None"
proof -
  define pn where "pn = \<lparr>tn_data = NULL, tn_children = demo_ptr 2, tn_parent = NULL, tn_owner = demo_ptr 0\<rparr>"
  define tn where "tn = \<lparr>tn_data = NULL, tn_children = demo_ptr 5, tn_parent = demo_ptr 1, tn_owner = demo_ptr 0\<rparr>"
  have "objs demo_tree (demo_ptr 1) = Some (Tree_node_obj pn)" "objs demo_tree (demo_ptr 4) = Some (Tree_node_obj tn)"
    "list_rep (objs demo_tree) (tn_children pn) ([] @ (demo_ptr 3, demo_ptr 4) # [])"
    using demo_tree_ok(2) by (simp_all add: pn_def tn_def) (simp_all add: demo_tree_def)
  then show ?thesis
    using tree_detach_freed [OF demo_tree_ok(1), of "demo_ptr 1" pn "[]" "demo_ptr 3" "demo_ptr 4" "[]" tn "demo_ptr 0"] demo_tree_ok(3)
    by (simp add: tn_def pn_def)
qed

end
