(* ===== verification/Strings.thy ===== *)
theory Strings
  imports Prelude "HOL-Library.Sublist"
begin

section \<open>Strings (kernel/string.s)\<close>

text \<open>
  The string routines the C code calls, from the assembly of string.s. A C string is the list of
  its bytes without the final zero byte; \<open>c_mem\<close> is what it occupies in memory. Reading beyond
  the bytes given has no result.

  \<^verbatim>\<open>strcmp\<close> asks \<^verbatim>\<open>memcmp\<close> to compare as many bytes as its first argument is long: both branches
  after the comparison of the two lengths push this length, in \<^verbatim>\<open>eax\<close> or in \<^verbatim>\<open>ecx\<close>. With no bytes to
  compare, \<^verbatim>\<open>repe cmpsb\<close> leaves the flags of that comparison in place.
\<close>

type_synonym bytes = "8 word list"

definition c_mem :: "bytes \<Rightarrow> bytes" where
  "c_mem s = s @ [0]"

definition c_string :: "bytes \<Rightarrow> bool" where
  "c_string s \<longleftrightarrow> 0 \<notin> set s"

fun strlen :: "bytes \<Rightarrow> nat option" where
  "strlen [] = None"
| "strlen (x # xs) = (if x = 0 then Some 0 else map_option Suc (strlen xs))"

text \<open>\<^verbatim>\<open>cmpsb\<close> compares the byte at \<^verbatim>\<open>esi\<close>, of the second buffer, with the byte at \<^verbatim>\<open>edi\<close>, of the first.\<close>

fun cmpsb :: "bytes \<Rightarrow> bytes \<Rightarrow> nat \<Rightarrow> int \<Rightarrow> int option" where
  "cmpsb b1 b2 0 flags = Some flags"
| "cmpsb (x # xs) (y # ys) (Suc n) flags =
    (if x = y then cmpsb xs ys n 0 else Some (if x < y then 1 else - 1))"
| "cmpsb _ _ (Suc n) flags = None"

definition strcmp :: "bytes \<Rightarrow> bytes \<Rightarrow> int option" where
  "strcmp str1 str2 = do {
     l2 \<leftarrow> strlen str2;
     l1 \<leftarrow> strlen str1;
     cmpsb str1 str2 l1 (if l1 > l2 then 1 else if l1 < l2 then - 1 else 0)
   }"

definition memcpy :: "bytes \<Rightarrow> bytes \<Rightarrow> nat \<Rightarrow> bytes option" where
  "memcpy dst src n = (if n \<le> length src \<and> n \<le> length dst then Some (take n src @ drop n dst) else None)"

definition strcpy :: "bytes \<Rightarrow> bytes \<Rightarrow> bytes option" where
  "strcpy dst src = do { n \<leftarrow> strlen src; memcpy dst src (n + 1) }"

definition memset :: "bytes \<Rightarrow> 8 word \<Rightarrow> nat \<Rightarrow> bytes option" where
  "memset buf v n = (if n \<le> length buf then Some (replicate n v @ drop n buf) else None)"

lemma strlen_c_mem: "c_string s \<Longrightarrow> strlen (c_mem s @ rest) = Some (length s)"
  by (induction s) (auto simp: c_mem_def c_string_def)

lemma strcpy_c_mem:
  assumes "c_string s" "length s < length dst"
  shows "strcpy dst (c_mem s) = Some (c_mem s @ drop (Suc (length s)) dst)"
  using assms strlen_c_mem [OF assms(1), of "[]"] by (simp add: strcpy_def memcpy_def c_mem_def)

lemma cmpsb_zero:
  "c_string a \<Longrightarrow> c_string b \<Longrightarrow> a \<noteq> [] \<Longrightarrow>
   \<exists>r. cmpsb (c_mem a) (c_mem b) (length a) f = Some r \<and> (r = 0 \<longleftrightarrow> prefix a b)"
proof (induction a arbitrary: b f)
  case (Cons x a)
  show ?case
  proof (cases b)
    case Nil
    with Cons.prems show ?thesis by (auto simp: c_mem_def c_string_def)
  next
    case (Cons y b')
    show ?thesis
    proof (cases "a = []")
      case True
      with Cons show ?thesis by (auto simp: c_mem_def)
    next
      case False
      with Cons Cons.IH [of b' 0] Cons.prems show ?thesis by (auto simp: c_mem_def c_string_def)
    qed
  qed
qed simp

text \<open>What \<^verbatim>\<open>strcmp\<close> takes for equal: a non-empty first string that is a prefix of the second.\<close>

definition str_match :: "bytes \<Rightarrow> bytes \<Rightarrow> bool" where
  "str_match a b \<longleftrightarrow> (if a = [] then b = [] else prefix a b)"

lemma strcmp_match:
  assumes "c_string a" "c_string b"
  shows "\<exists>r. strcmp (c_mem a) (c_mem b) = Some r \<and> (r = 0 \<longleftrightarrow> str_match a b)"
proof -
  have "strlen (c_mem a) = Some (length a)" "strlen (c_mem b) = Some (length b)"
    using strlen_c_mem [OF assms(1), of "[]"] strlen_c_mem [OF assms(2), of "[]"] by simp_all
  then show ?thesis
    using cmpsb_zero [OF assms] by (cases "a = []") (auto simp: strcmp_def str_match_def)
qed

lemma str_match_refl [simp]: "str_match a a"
  by (simp add: str_match_def)

text \<open>
  C26. \<^verbatim>\<open>strcmp\<close> returns on any two C strings. It returns zero exactly if the strings are equal or
  the first one is a non-empty proper prefix of the second; the order it reports is the reverse of
  that of the first bytes that differ.
\<close>

theorem strcmp_prefix:
  assumes "c_string a" "c_string b"
  shows "\<exists>r. strcmp (c_mem a) (c_mem b) = Some r \<and> (r = 0 \<longleftrightarrow> a = b \<or> a \<noteq> [] \<and> strict_prefix a b)
    \<and> (\<forall>u x y v w. a = u @ x # v \<and> b = u @ y # w \<and> x < y \<longrightarrow> r = 1)
    \<and> (\<forall>u x y v w. a = u @ x # v \<and> b = u @ y # w \<and> y < x \<longrightarrow> r = - 1)"
proof -
  from strcmp_match [OF assms] obtain r where r: "strcmp (c_mem a) (c_mem b) = Some r" "r = 0 \<longleftrightarrow> str_match a b" by blast
  have len: "strlen (c_mem a) = Some (length a)" "strlen (c_mem b) = Some (length b)"
    using strlen_c_mem [OF assms(1), of "[]"] strlen_c_mem [OF assms(2), of "[]"] by simp_all
  have diff: "cmpsb (c_mem (u @ x # v)) (c_mem (u @ y # w)) (length (u @ x # v)) f = Some (if x < y then 1 else - 1)"
    if "x \<noteq> y" for u v w x y f
    using that by (induction u arbitrary: f) (auto simp: c_mem_def)
  have d: "r = (if x < y then 1 else - 1)" if "a = u @ x # v" "b = u @ y # w" "x \<noteq> y" for u v w x y
    using r(1) that diff [of x y u v w] len by (auto simp: strcmp_def)
  have "str_match a b \<longleftrightarrow> a = b \<or> a \<noteq> [] \<and> strict_prefix a b"
    by (auto simp: str_match_def strict_prefix_def)
  moreover have "\<forall>u x y v w. a = u @ x # v \<and> b = u @ y # w \<and> x < y \<longrightarrow> r = 1"
  proof (intro allI impI, elim conjE)
    fix u x y v w assume "a = u @ x # v" "b = u @ y # w" "x < y"
    with d [of u x v y w] show "r = 1" by simp
  qed
  moreover have "\<forall>u x y v w. a = u @ x # v \<and> b = u @ y # w \<and> y < x \<longrightarrow> r = - 1"
  proof (intro allI impI, elim conjE)
    fix u x y v w assume "a = u @ x # v" "b = u @ y # w" "y < x"
    with d [of u x v y w] show "r = - 1" by (simp add: not_less_iff_gr_or_eq)
  qed
  ultimately show ?thesis using r by (simp only: simp_thms) metis
qed

theorem strcmp_prefix_witness:
  "strcmp (c_mem [100, 101, 118]) (c_mem [100, 101, 118, 49]) = Some 0"
proof -
  have "c_string [100, 101, 118]" "c_string [100, 101, 118, 49]" by (simp_all add: c_string_def)
  from strcmp_prefix [OF this] show ?thesis by (auto simp: strict_prefix_def)
qed

end
