(* ===== verification/Hashmap.thy ===== *)
theory Hashmap
  imports Objects Strings
begin

section \<open>Hash maps (kernel/structures/hashmap.c)\<close>

text \<open>
  A hash map is a header, an array of buckets and in each bucket a singly-linked chain of entries,
  all in the heap. A key is given as the string it points to, or \<open>None\<close> for the null pointer; the
  map keeps a copy of it. A stored string stands for its bytes and the final zero.
\<close>

definition djb2 :: hash_t where
  "djb2 key = fold (\<lambda>c hash. push_bit 5 hash + hash + word_of_int (sint c)) key 5381"

definition put_kv :: "addr \<Rightarrow> kv_t \<Rightarrow> 'a kmem \<Rightarrow> 'a kmem option" where
  "put_kv p kv m = put_obj p (Kv_obj kv) m"

definition hashmap_create :: "'a kmalloc_fn \<Rightarrow> 'a kfree_fn \<Rightarrow> nat \<Rightarrow> hash_t option \<Rightarrow> 'a kmem \<Rightarrow> (addr \<times> 'a kmem) option" where
  "hashmap_create km kf n hash m =
    (if n = 0 then Some (NULL, m)
     else do {
       (hm, m) \<leftarrow> new_obj km sizeof_hashmap_t m;
       if hm = NULL then Some (NULL, m)
       else do {
         (arr, m) \<leftarrow> new_obj km (mul32 sizeof_kv_t n) m;
         if arr = NULL then do { m \<leftarrow> free_obj kf hm m; Some (NULL, m) }
         else do {
           m \<leftarrow> put_obj arr (Kv_array (replicate n NULL)) m;
           m \<leftarrow> put_obj hm (Hashmap_obj \<lparr>hm_array = arr, hm_hash = (case hash of Some h \<Rightarrow> h | None \<Rightarrow> djb2), hm_n = n\<rparr>) m;
           Some (hm, m)
         }
       }
     })"

partial_function (option) destroy_chain :: "'a kfree_fn \<Rightarrow> addr \<Rightarrow> 'a kmem \<Rightarrow> 'a kmem option" where
  "destroy_chain kf x m =
    (if x = NULL then Some m
     else do {
       kv \<leftarrow> get_kv x m;
       m \<leftarrow> free_obj kf (kv_key kv) m;
       m \<leftarrow> free_obj kf x m;
       destroy_chain kf (kv_next kv) m
     })"

fun destroy_buckets :: "'a kfree_fn \<Rightarrow> addr \<Rightarrow> nat list \<Rightarrow> 'a kmem \<Rightarrow> 'a kmem option" where
  "destroy_buckets kf arr [] m = Some m"
| "destroy_buckets kf arr (i # is) m = do {
     x \<leftarrow> get_slot arr i m;
     m \<leftarrow> destroy_chain kf x m;
     destroy_buckets kf arr is m
   }"

definition hashmap_destroy :: "'a kfree_fn \<Rightarrow> addr \<Rightarrow> 'a kmem \<Rightarrow> 'a kmem option" where
  "hashmap_destroy kf hm m =
    (if hm = NULL then Some m
     else do {
       h \<leftarrow> get_hashmap hm m;
       m \<leftarrow> destroy_buckets kf (hm_array h) [0..<hm_n h] m;
       m \<leftarrow> free_obj kf (hm_array h) m;
       free_obj kf hm m
     })"

text \<open>The loop of \<^verbatim>\<open>hashmap_insert\<close>: \<open>Inl\<close> when the key is there, \<open>Inr\<close> with the last entry otherwise.\<close>

partial_function (option) insert_scan :: "bytes \<Rightarrow> addr \<Rightarrow> addr \<Rightarrow> 'a kmem \<Rightarrow> (unit + addr) option" where
  "insert_scan key x p m =
    (if x = NULL then Some (Inr p)
     else do {
       kv \<leftarrow> get_kv x m;
       k \<leftarrow> get_chars (kv_key kv) m;
       c \<leftarrow> strcmp (c_mem key) (c_mem k);
       if c = 0 then Some (Inl ()) else insert_scan key (kv_next kv) x m
     })"

definition bucket_of :: "hashmap_t \<Rightarrow> bytes \<Rightarrow> nat" where
  "bucket_of h key = unat (hm_hash h key) mod hm_n h"

definition hashmap_insert :: "'a kmalloc_fn \<Rightarrow> 'a kfree_fn \<Rightarrow> addr \<Rightarrow> bytes option \<Rightarrow> addr \<Rightarrow> 'a kmem \<Rightarrow> (int \<times> 'a kmem) option" where
  "hashmap_insert km kf hm keyp v m =
    (case keyp of None \<Rightarrow> Some (- EFAULT, m) | Some key \<Rightarrow>
     if hm = NULL then Some (- EFAULT, m)
     else do {
       (key_cpy, m) \<leftarrow> new_obj km (length key + 1) m;
       if key_cpy = NULL then Some (- ENOMEM, m)
       else do {
         m \<leftarrow> put_obj key_cpy (Chars key) m;
         h \<leftarrow> get_hashmap hm m;
         let i = bucket_of h key;
         x \<leftarrow> get_slot (hm_array h) i m;
         if x = NULL then do {
           (entry, m) \<leftarrow> new_obj km sizeof_kv_t m;
           if entry = NULL then do { m \<leftarrow> free_obj kf key_cpy m; Some (- ENOMEM, m) }
           else do {
             m \<leftarrow> put_kv entry \<lparr>kv_key = key_cpy, kv_value = v, kv_next = NULL\<rparr> m;
             m \<leftarrow> put_slot (hm_array h) i entry m;
             Some (0, m)
           }
         } else do {
           r \<leftarrow> insert_scan key x NULL m;
           case r of
             Inl _ \<Rightarrow> do { m \<leftarrow> free_obj kf key_cpy m; Some (- EEXIST, m) }
           | Inr p \<Rightarrow> do {
               (entry, m) \<leftarrow> new_obj km sizeof_kv_t m;
               if entry = NULL then do { m \<leftarrow> free_obj kf key_cpy m; Some (- ENOMEM, m) }
               else do {
                 m \<leftarrow> put_kv entry \<lparr>kv_key = key_cpy, kv_value = v, kv_next = NULL\<rparr> m;
                 kv \<leftarrow> get_kv p m;
                 m \<leftarrow> put_kv p (kv\<lparr>kv_next := entry\<rparr>) m;
                 Some (0, m)
               }
             }
         }
       }
     })"

partial_function (option) find_scan :: "bytes \<Rightarrow> addr \<Rightarrow> 'a kmem \<Rightarrow> addr option" where
  "find_scan key x m =
    (if x = NULL then Some NULL
     else do {
       kv \<leftarrow> get_kv x m;
       k \<leftarrow> get_chars (kv_key kv) m;
       c \<leftarrow> strcmp (c_mem k) (c_mem key);
       if c = 0 then Some (kv_value kv) else find_scan key (kv_next kv) m
     })"

definition hashmap_find :: "addr \<Rightarrow> bytes option \<Rightarrow> 'a kmem \<Rightarrow> addr option" where
  "hashmap_find hm keyp m =
    (case keyp of None \<Rightarrow> Some NULL | Some key \<Rightarrow>
     if hm = NULL then Some NULL
     else do {
       h \<leftarrow> get_hashmap hm m;
       x \<leftarrow> get_slot (hm_array h) (bucket_of h key) m;
       find_scan key x m
     })"

partial_function (option) remove_scan ::
    "'a kfree_fn \<Rightarrow> addr \<Rightarrow> nat \<Rightarrow> bytes \<Rightarrow> addr \<Rightarrow> addr \<Rightarrow> 'a kmem \<Rightarrow> (addr \<times> 'a kmem) option" where
  "remove_scan kf arr i key x p m =
    (if x = NULL then Some (NULL, m)
     else do {
       kv \<leftarrow> get_kv x m;
       k \<leftarrow> get_chars (kv_key kv) m;
       c \<leftarrow> strcmp (c_mem k) (c_mem key);
       if c = 0 then do {
         m \<leftarrow> free_obj kf (kv_key kv) m;
         m \<leftarrow> (if p \<noteq> NULL then do { pk \<leftarrow> get_kv p m; put_kv p (pk\<lparr>kv_next := kv_next kv\<rparr>) m }
               else put_slot arr i (kv_next kv) m);
         m \<leftarrow> free_obj kf x m;
         Some (kv_value kv, m)
       } else remove_scan kf arr i key (kv_next kv) x m
     })"

definition hashmap_remove :: "'a kfree_fn \<Rightarrow> addr \<Rightarrow> bytes option \<Rightarrow> 'a kmem \<Rightarrow> (addr \<times> 'a kmem) option" where
  "hashmap_remove kf hm keyp m =
    (case keyp of None \<Rightarrow> Some (NULL, m) | Some key \<Rightarrow>
     if hm = NULL then Some (NULL, m)
     else do {
       h \<leftarrow> get_hashmap hm m;
       x \<leftarrow> get_slot (hm_array h) (bucket_of h key) m;
       remove_scan kf (hm_array h) (bucket_of h key) key x NULL m
     })"

subsection \<open>Hash maps in memory\<close>

text \<open>An entry with its address, the address of its key, the key and the value.\<close>

record hentry =
  he_addr :: addr
  he_kaddr :: addr
  he_key :: bytes
  he_value :: addr

definition he_first :: "hentry list \<Rightarrow> addr" where
  "he_first es = (case es of [] \<Rightarrow> NULL | e # _ \<Rightarrow> he_addr e)"

fun kv_chain :: "(addr \<rightharpoonup> kobj) \<Rightarrow> hentry list \<Rightarrow> bool" where
  "kv_chain h [] \<longleftrightarrow> True"
| "kv_chain h (e # es) \<longleftrightarrow> he_addr e \<noteq> NULL \<and> c_string (he_key e) \<and> h (he_kaddr e) = Some (Chars (he_key e))
    \<and> h (he_addr e) = Some (Kv_obj \<lparr>kv_key = he_kaddr e, kv_value = he_value e, kv_next = he_first es\<rparr>)
    \<and> kv_chain h es"

definition he_blocks :: "hentry list \<Rightarrow> addr list" where
  "he_blocks es = concat (map (\<lambda>e. [he_addr e, he_kaddr e]) es)"

fun buckets_ok :: "hashmap_t \<Rightarrow> nat \<Rightarrow> hentry list list \<Rightarrow> bool" where
  "buckets_ok t i [] \<longleftrightarrow> True"
| "buckets_ok t i (es # bs) \<longleftrightarrow> (\<forall>e \<in> set es. bucket_of t (he_key e) = i) \<and> buckets_ok t (Suc i) bs"

definition hashmap_rep :: "(addr \<rightharpoonup> kobj) \<Rightarrow> addr \<Rightarrow> hashmap_t \<Rightarrow> hentry list list \<Rightarrow> bool" where
  "hashmap_rep h hm t bs \<longleftrightarrow> hm \<noteq> NULL \<and> h hm = Some (Hashmap_obj t) \<and> 0 < hm_n t \<and> length bs = hm_n t
     \<and> h (hm_array t) = Some (Kv_array (map he_first bs))
     \<and> (\<forall>es \<in> set bs. kv_chain h es) \<and> distinct (concat (map he_blocks bs))
     \<and> buckets_ok t 0 bs"

lemma he_first_simps [simp]: "he_first [] = NULL" "he_first (e # es) = he_addr e"
  by (simp_all add: he_first_def)

lemma he_blocks_simps [simp]:
  "he_blocks [] = []" "he_blocks (e # es) = he_addr e # he_kaddr e # he_blocks es" "he_blocks (es @ fs) = he_blocks es @ he_blocks fs"
  by (simp_all add: he_blocks_def)

lemma buckets_ok_append [simp]: "buckets_ok t i (bs @ cs) \<longleftrightarrow> buckets_ok t i bs \<and> buckets_ok t (i + length bs) cs"
  by (induction bs arbitrary: i) auto

lemma kv_chain_obj:
  "kv_chain h es \<Longrightarrow> a \<in> set (he_blocks es) \<Longrightarrow> (\<exists>kv. h a = Some (Kv_obj kv)) \<or> (\<exists>k. h a = Some (Chars k))"
  by (induction es) auto

lemma kv_chain_cong: "(\<And>a. a \<in> set (he_blocks es) \<Longrightarrow> h' a = h a) \<Longrightarrow> kv_chain h' es \<longleftrightarrow> kv_chain h es"
  by (induction es) auto

lemma kv_chain_snoc:
  "kv_chain h (es @ [l]) \<Longrightarrow> distinct (he_blocks (es @ [l])) \<Longrightarrow>
   he_addr e \<notin> dom h \<Longrightarrow> he_kaddr e \<notin> dom h \<Longrightarrow> he_addr e \<noteq> he_kaddr e \<Longrightarrow> he_addr e \<noteq> NULL \<Longrightarrow> c_string (he_key e) \<Longrightarrow>
   kv_chain (h(he_kaddr e \<mapsto> Chars (he_key e), he_addr e \<mapsto> Kv_obj \<lparr>kv_key = he_kaddr e, kv_value = he_value e, kv_next = NULL\<rparr>,
     he_addr l \<mapsto> Kv_obj \<lparr>kv_key = he_kaddr l, kv_value = he_value l, kv_next = he_addr e\<rparr>)) (es @ [l, e])"
proof (induction es)
  case Nil
  then show ?case by auto
next
  case (Cons f es)
  have "he_first (es @ [l, e]) = he_first (es @ [l])" by (cases es) auto
  moreover have "he_addr f \<noteq> he_addr l" "he_addr f \<noteq> he_kaddr l" "he_kaddr f \<noteq> he_addr l" using Cons.prems(2) by auto
  moreover have "he_addr f \<in> dom h" "he_kaddr f \<in> dom h" using Cons.prems(1) by auto
  ultimately show ?case using Cons by auto
qed

lemma kv_chain_last:
  "kv_chain h (es @ [l]) \<Longrightarrow> h (he_addr l) = Some (Kv_obj \<lparr>kv_key = he_kaddr l, kv_value = he_value l, kv_next = NULL\<rparr>)"
  by (induction es) auto

lemma kv_chain_frame [simp]: "a \<notin> set (he_blocks es) \<Longrightarrow> kv_chain (h(a := v)) es \<longleftrightarrow> kv_chain h es"
  by (rule kv_chain_cong) auto

text \<open>The entry \<open>hashmap_find\<close> stops at, and whether \<open>hashmap_insert\<close> takes a key as present.\<close>

definition find_entry :: "bytes \<Rightarrow> hentry list \<Rightarrow> hentry option" where
  "find_entry key es = find (\<lambda>e. str_match (he_key e) key) es"

lemma find_scan_ok:
  assumes "kv_chain (objs m) es" "c_string key"
  shows "find_scan key (he_first es) m = Some (case find_entry key es of None \<Rightarrow> NULL | Some e \<Rightarrow> he_value e)"
  using assms(1)
proof (induction es)
  case Nil
  show ?case by (simp add: find_scan.simps find_entry_def)
next
  case (Cons e es)
  then obtain r where "strcmp (c_mem (he_key e)) (c_mem key) = Some r" "r = 0 \<longleftrightarrow> str_match (he_key e) key"
    using strcmp_match assms(2) by fastforce
  with Cons show ?case by (simp add: find_scan.simps [of key "he_addr e" m] get_defs find_entry_def)
qed

lemma insert_scan_ok:
  assumes "kv_chain (objs m) es" "c_string key"
  shows "insert_scan key (he_first es) p m =
    Some (if \<exists>e \<in> set es. str_match key (he_key e) then Inl () else Inr (if es = [] then p else he_addr (last es)))"
  using assms(1)
proof (induction es arbitrary: p)
  case Nil
  show ?case by (simp add: insert_scan.simps)
next
  case (Cons e es)
  then obtain r where "strcmp (c_mem key) (c_mem (he_key e)) = Some r" "r = 0 \<longleftrightarrow> str_match key (he_key e)"
    using strcmp_match assms(2) by fastforce
  with Cons show ?case by (simp add: insert_scan.simps [of key "he_addr e" p m] get_defs)
qed

lemma hashmap_find_ok:
  assumes "hashmap_rep (objs m) hm t bs" "c_string key"
  shows "hashmap_find hm (Some key) m =
    Some (case find_entry key (bs ! bucket_of t key) of None \<Rightarrow> NULL | Some e \<Rightarrow> he_value e)"
proof -
  have i: "bucket_of t key < length bs" using assms(1) by (simp add: hashmap_rep_def bucket_of_def)
  then have "kv_chain (objs m) (bs ! bucket_of t key)" using assms(1) by (simp add: hashmap_rep_def)
  with find_scan_ok [OF this assms(2)] assms(1) i show ?thesis
    by (simp add: hashmap_find_def hashmap_rep_def get_defs)
qed

text \<open>Adding an entry at the end of a bucket.\<close>

lemma hashmap_rep_add:
  assumes rep: "hashmap_rep h hm t (B1 @ es # B2)" and i: "length B1 = bucket_of t (he_key e)"
    and new: "he_addr e \<notin> dom h" "he_kaddr e \<notin> dom h" "he_addr e \<noteq> he_kaddr e" "he_addr e \<noteq> NULL" "c_string (he_key e)"
  shows "es = [] \<Longrightarrow> hashmap_rep (h(he_kaddr e \<mapsto> Chars (he_key e),
      he_addr e \<mapsto> Kv_obj \<lparr>kv_key = he_kaddr e, kv_value = he_value e, kv_next = NULL\<rparr>,
      hm_array t \<mapsto> Kv_array ((map he_first (B1 @ es # B2))[length B1 := he_addr e]))) hm t (B1 @ [e] # B2)"
    and "es = fs @ [l] \<Longrightarrow> hashmap_rep (h(he_kaddr e \<mapsto> Chars (he_key e),
      he_addr e \<mapsto> Kv_obj \<lparr>kv_key = he_kaddr e, kv_value = he_value e, kv_next = NULL\<rparr>,
      he_addr l \<mapsto> Kv_obj \<lparr>kv_key = he_kaddr l, kv_value = he_value l, kv_next = he_addr e\<rparr>)) hm t (B1 @ (es @ [e]) # B2)"
proof -
  have obj: "a \<noteq> he_addr e" "a \<noteq> he_kaddr e" "a \<noteq> hm_array t" "a \<noteq> hm" if "fs \<in> set (B1 @ es # B2)" "a \<in> set (he_blocks fs)" for a fs
    using kv_chain_obj [of h fs a] rep new that by (auto simp: hashmap_rep_def)
  have hdr: "hm \<noteq> hm_array t" "hm \<noteq> he_addr e" "hm \<noteq> he_kaddr e" "hm_array t \<noteq> he_addr e" "hm_array t \<noteq> he_kaddr e"
    using rep new by (auto simp: hashmap_rep_def)
  have fresh: "he_addr e \<notin> set (he_blocks fs)" "he_kaddr e \<notin> set (he_blocks fs)" "hm_array t \<notin> set (he_blocks fs)"
    if "fs \<in> set (B1 @ es # B2)" for fs using obj [OF that] by auto
  {
    assume "es = []"
    with rep new i hdr fresh show "hashmap_rep (h(he_kaddr e \<mapsto> Chars (he_key e),
      he_addr e \<mapsto> Kv_obj \<lparr>kv_key = he_kaddr e, kv_value = he_value e, kv_next = NULL\<rparr>,
      hm_array t \<mapsto> Kv_array ((map he_first (B1 @ es # B2))[length B1 := he_addr e]))) hm t (B1 @ [e] # B2)"
      by (simp add: hashmap_rep_def list_update_append)
  next
    assume es: "es = fs @ [l]"
    have l: "he_addr l \<notin> set (he_blocks gs)" if "gs \<in> set (B1 @ B2)" for gs
      using rep es that by (auto simp: hashmap_rep_def)
    let ?h = "h(he_kaddr e \<mapsto> Chars (he_key e),
      he_addr e \<mapsto> Kv_obj \<lparr>kv_key = he_kaddr e, kv_value = he_value e, kv_next = NULL\<rparr>,
      he_addr l \<mapsto> Kv_obj \<lparr>kv_key = he_kaddr l, kv_value = he_value l, kv_next = he_addr e\<rparr>)"
    have first: "he_first (es @ [e]) = he_first es" using es by (cases fs) auto
    have "he_addr l \<noteq> hm" "he_addr l \<noteq> hm_array t" using obj(3,4) [of es "he_addr l"] es by auto
    then have keep: "?h hm = h hm" "?h (hm_array t) = h (hm_array t)" using hdr by simp_all
    have "kv_chain h (fs @ [l])" "distinct (he_blocks (fs @ [l]))" using rep es by (auto simp: hashmap_rep_def)
    from kv_chain_snoc [OF this new] have "kv_chain ?h (es @ [e])" using es by simp
    moreover have "kv_chain ?h gs" if gs: "gs \<in> set (B1 @ B2)" for gs
    proof -
      have "kv_chain h gs" "gs \<in> set (B1 @ es # B2)" using rep gs by (auto simp: hashmap_rep_def)
      with fresh [of gs] l [OF gs] show ?thesis by simp
    qed
    ultimately have chains: "\<forall>gs \<in> set (B1 @ (es @ [e]) # B2). kv_chain ?h gs" by auto
    have "distinct (concat (map he_blocks (B1 @ (es @ [e]) # B2)))"
      using rep new(3) fresh unfolding hashmap_rep_def by simp
    moreover have "buckets_ok t 0 (B1 @ (es @ [e]) # B2)" using rep i by (simp add: hashmap_rep_def)
    ultimately show "hashmap_rep ?h hm t (B1 @ (es @ [e]) # B2)"
      using rep chains unfolding hashmap_rep_def keep by (simp add: first)
  }
qed

text \<open>Taking an entry out of a bucket.\<close>

lemma kv_chain_remove:
  "kv_chain h (fs @ l # e # ys) \<Longrightarrow> distinct (he_blocks (fs @ l # e # ys)) \<Longrightarrow>
   kv_chain (h(he_kaddr e := None, he_addr l \<mapsto> Kv_obj \<lparr>kv_key = he_kaddr l, kv_value = he_value l, kv_next = he_first ys\<rparr>,
     he_addr e := None)) (fs @ l # ys)"
proof (induction fs)
  case Nil
  let ?h = "h(he_kaddr e := None, he_addr l \<mapsto> Kv_obj \<lparr>kv_key = he_kaddr l, kv_value = he_value l, kv_next = he_first ys\<rparr>,
     he_addr e := None)"
  have "kv_chain ?h ys \<longleftrightarrow> kv_chain h ys" using Nil.prems(2) by (intro kv_chain_cong) auto
  with Nil.prems have "kv_chain ?h ys" "?h (he_kaddr l) = Some (Chars (he_key l))"
    "?h (he_addr l) = Some (Kv_obj \<lparr>kv_key = he_kaddr l, kv_value = he_value l, kv_next = he_first ys\<rparr>)" by auto
  with Nil.prems(1) show ?case unfolding append_Nil kv_chain.simps(2) [of ?h l ys] by simp
next
  case (Cons f fs)
  have "he_first (fs @ l # ys) = he_first (fs @ l # e # ys)" by (cases fs) auto
  moreover have "he_addr f \<noteq> he_addr l" "he_addr f \<noteq> he_addr e" "he_addr f \<noteq> he_kaddr e"
    "he_kaddr f \<noteq> he_addr l" "he_kaddr f \<noteq> he_addr e" "he_kaddr f \<noteq> he_kaddr e" using Cons.prems(2) by auto
  ultimately show ?case using Cons by auto
qed

lemma hashmap_rep_remove:
  assumes rep: "hashmap_rep h hm t (B1 @ (xs @ e # ys) # B2)"
  shows "xs = [] \<Longrightarrow> hashmap_rep (h(he_kaddr e := None,
      hm_array t \<mapsto> Kv_array ((map he_first (B1 @ (xs @ e # ys) # B2))[length B1 := he_first ys]), he_addr e := None)) hm t (B1 @ (xs @ ys) # B2)"
    and "xs = fs @ [l] \<Longrightarrow> hashmap_rep (h(he_kaddr e := None,
      he_addr l \<mapsto> Kv_obj \<lparr>kv_key = he_kaddr l, kv_value = he_value l, kv_next = he_first ys\<rparr>, he_addr e := None)) hm t (B1 @ (xs @ ys) # B2)"
proof -
  let ?es = "xs @ e # ys"
  have obj: "a \<noteq> hm_array t \<and> a \<noteq> hm" if "gs \<in> set (B1 @ ?es # B2)" "a \<in> set (he_blocks gs)" for a gs
    using kv_chain_obj [of h gs a] rep that by (auto simp: hashmap_rep_def)
  then have hdr: "hm \<noteq> he_addr e" "hm \<noteq> he_kaddr e" "hm_array t \<noteq> he_addr e" "hm_array t \<noteq> he_kaddr e" "hm \<noteq> hm_array t"
    using obj [of ?es "he_addr e"] obj [of ?es "he_kaddr e"] rep by (auto simp: hashmap_rep_def)
  have others: "a \<notin> set (he_blocks gs)" if "gs \<in> set (B1 @ B2)" "a \<in> set (he_blocks ?es)" for a gs
  proof -
    have "distinct (concat (map he_blocks B1) @ he_blocks ?es @ concat (map he_blocks B2))"
      using rep unfolding hashmap_rep_def by simp
    then have "set (he_blocks ?es) \<inter> set (concat (map he_blocks (B1 @ B2))) = {}"
      unfolding distinct_append map_append concat_append set_append by blast
    then show ?thesis using that by auto
  qed
  have chains: "kv_chain h gs" if "gs \<in> set (B1 @ ?es # B2)" for gs using rep that unfolding hashmap_rep_def by blast
  have dist: "distinct (concat (map he_blocks (B1 @ (xs @ ys) # B2)))" using rep by (auto simp: hashmap_rep_def)
  have arr: "hm_array t \<notin> set (he_blocks gs)" if "gs \<in> set (B1 @ B2)" for gs
    using obj [of gs "hm_array t"] that by auto
  {
    assume xs: "xs = []"
    let ?h = "h(he_kaddr e := None,
      hm_array t \<mapsto> Kv_array ((map he_first (B1 @ ?es # B2))[length B1 := he_first ys]), he_addr e := None)"
    have "kv_chain h ys" "he_addr e \<notin> set (he_blocks ys)" "he_kaddr e \<notin> set (he_blocks ys)" "hm_array t \<notin> set (he_blocks ys)"
      using chains [of ?es] rep xs obj [of ?es "hm_array t"] by (auto simp: hashmap_rep_def)
    then have "kv_chain ?h ys" by simp
    moreover have "kv_chain ?h gs" if "gs \<in> set (B1 @ B2)" for gs
      using chains [of gs] others [OF that, of "he_addr e"] others [OF that, of "he_kaddr e"] arr [OF that] that by simp
    ultimately have "\<forall>gs \<in> set (B1 @ (xs @ ys) # B2). kv_chain ?h gs" using xs by auto
    with dist rep hdr xs show "hashmap_rep ?h hm t (B1 @ (xs @ ys) # B2)"
      unfolding hashmap_rep_def by (simp add: list_update_append)
  next
    assume xs: "xs = fs @ [l]"
    let ?h = "h(he_kaddr e := None,
      he_addr l \<mapsto> Kv_obj \<lparr>kv_key = he_kaddr l, kv_value = he_value l, kv_next = he_first ys\<rparr>, he_addr e := None)"
    have "distinct (concat (map he_blocks B1) @ he_blocks ?es @ concat (map he_blocks B2))"
      using rep unfolding hashmap_rep_def by simp
    then have "distinct (he_blocks ?es)" unfolding distinct_append by blast
    moreover have "?es = fs @ l # e # ys" using xs by simp
    ultimately have "distinct (he_blocks (fs @ l # e # ys))" by (simp only:)
    then have "kv_chain ?h (xs @ ys)" using kv_chain_remove [of h fs l e ys] chains [of ?es] xs by simp
    moreover have "kv_chain ?h gs" if "gs \<in> set (B1 @ B2)" for gs
      using chains [of gs] others [OF that, of "he_addr e"] others [OF that, of "he_kaddr e"] others [OF that, of "he_addr l"] that xs by simp
    ultimately have "\<forall>gs \<in> set (B1 @ (xs @ ys) # B2). kv_chain ?h gs" by auto
    moreover have "he_first (xs @ ys) = he_first ?es" using xs by (cases fs) auto
    moreover have "he_addr l \<noteq> hm" "he_addr l \<noteq> hm_array t" using obj [of ?es "he_addr l"] xs by auto
    ultimately show "hashmap_rep ?h hm t (B1 @ (xs @ ys) # B2)"
      using dist rep hdr unfolding hashmap_rep_def by simp
  }
qed

definition hm_blocks :: "addr \<Rightarrow> hashmap_t \<Rightarrow> hentry list list \<Rightarrow> addr set" where
  "hm_blocks hm t bs = insert hm (insert (hm_array t) (set (concat (map he_blocks bs))))"

lemma hashmap_rep_frame [simp]:
  assumes "a \<notin> hm_blocks hm t bs"
  shows "hashmap_rep (h(a := v)) hm t bs \<longleftrightarrow> hashmap_rep h hm t bs"
proof -
  have "(\<forall>es \<in> set bs. kv_chain (h(a := v)) es) \<longleftrightarrow> (\<forall>es \<in> set bs. kv_chain h es)"
    using assms by (intro ball_cong refl kv_chain_frame) (auto simp: hm_blocks_def)
  with assms show ?thesis by (simp add: hashmap_rep_def hm_blocks_def)
qed

lemma hashmap_rep_dom: "hashmap_rep h hm t bs \<Longrightarrow> hm_blocks hm t bs \<subseteq> dom h"
  using kv_chain_obj by (fastforce simp: hashmap_rep_def hm_blocks_def)

context object_heap
begin

text \<open>The state of \<^verbatim>\<open>hashmap_insert\<close> once the key is copied.\<close>

lemma key_copied:
  assumes mem: "mem_ok live m" and rep: "hashmap_rep (objs m) hm t (B1 @ es # B2)" and i: "length B1 = bucket_of t key"
    and key: "c_string key" "length key + 1 \<le> lim" and kc: "new_obj km (length key + 1) m = Some (kc, m1)"
  obtains m2 where "put_obj kc (Chars key) m1 = Some m2" "mem_ok live m2" "objs m2 = (objs m)(kc \<mapsto> Chars key)"
    "objs m kc = None" "kc \<noteq> NULL" "kheap_of m2 = kheap_of m1" "get_hashmap hm m2 = Some t"
    "get_slot (hm_array t) (bucket_of t key) m2 = Some (he_first es)"
    "insert_scan key (he_first es) NULL m2 =
      Some (if \<exists>e \<in> set es. str_match key (he_key e) then Inl () else Inr (if es = [] then NULL else he_addr (last es)))"
    "he_first es = NULL \<longleftrightarrow> es = []"
proof -
  from new_obj_ok [OF mem key(2)] kc
  have new: "kc \<noteq> NULL" "objs m kc = None" "objs m1 = (objs m)(kc \<mapsto> Raw)" "mem_ok live m1" by simp_all
  define m2 where "m2 = m1\<lparr>objs := (objs m)(kc \<mapsto> Chars key)\<rparr>"
  have m2: "put_obj kc (Chars key) m1 = Some m2" "mem_ok live m2"
    using new by (auto simp: m2_def put_obj_def intro!: mem_ok_upd)
  have "kc \<notin> hm_blocks hm t (B1 @ es # B2)" using hashmap_rep_dom [OF rep] new(2) by blast
  then have rep2: "hashmap_rep (objs m2) hm t (B1 @ es # B2)" using rep by (simp add: m2_def)
  then have chain: "kv_chain (objs m2) es" by (simp add: hashmap_rep_def)
  then have "he_first es = NULL \<longleftrightarrow> es = []" by (cases es) auto
  moreover have "get_hashmap hm m2 = Some t" "get_slot (hm_array t) (bucket_of t key) m2 = Some (he_first es)"
    using rep2 i by (auto simp: hashmap_rep_def get_defs nth_append)
  ultimately show ?thesis
    using that [OF m2 _ new(2,1)] insert_scan_ok [OF chain key(1), of NULL] by (simp add: m2_def)
qed

lemma hashmap_insert_present:
  assumes mem: "mem_ok live m" and rep: "hashmap_rep (objs m) hm t (B1 @ es # B2)" and i: "length B1 = bucket_of t key"
    and key: "c_string key" "length key + 1 \<le> lim" and old: "\<exists>e \<in> set es. str_match key (he_key e)"
  shows "case hashmap_insert km kf hm (Some key) v m of
      None \<Rightarrow> km (length key + 1) (kheap_of m) = None \<or> kfree_fails live kf
    | Some (r, m') \<Rightarrow> mem_ok live m' \<and> r = - EEXIST \<and> objs m' = objs m"
proof (cases "new_obj km (length key + 1) m")
  case None
  with new_obj_ok [OF mem key(2)] rep show ?thesis by (simp add: hashmap_insert_def hashmap_rep_def)
next
  case (Some r1)
  then obtain kc m1 where kc: "new_obj km (length key + 1) m = Some (kc, m1)" by (cases r1) auto
  obtain m2 where m2: "put_obj kc (Chars key) m1 = Some m2" "mem_ok live m2" "objs m2 = (objs m)(kc \<mapsto> Chars key)"
    "objs m kc = None" "kc \<noteq> NULL" "kheap_of m2 = kheap_of m1" "get_hashmap hm m2 = Some t"
    "get_slot (hm_array t) (bucket_of t key) m2 = Some (he_first es)"
    "insert_scan key (he_first es) NULL m2 = Some (Inl ())" "he_first es \<noteq> NULL"
    by (rule key_copied [OF mem rep i key kc]) (use old in auto)
  have "hm \<noteq> NULL" using rep by (simp add: hashmap_rep_def)
  with kc m2 have run: "hashmap_insert km kf hm (Some key) v m = free_obj kf kc m2 \<bind> (\<lambda>m. Some (- EEXIST, m))"
    by (simp add: hashmap_insert_def)
  have "objs m2 kc \<noteq> None" using m2(3) by simp
  from free_obj_cases [OF m2(2) this] show ?thesis
  proof cases
    case 1
    with run show ?thesis by simp
  next
    case (2 m3)
    moreover have "(objs m2)(kc := None) = objs m" using m2(3,4) by auto
    ultimately show ?thesis using run by simp
  qed
qed

lemma hashmap_insert_absent:
  assumes mem: "mem_ok live m" and rep: "hashmap_rep (objs m) hm t (B1 @ es # B2)" and i: "length B1 = bucket_of t key"
    and key: "c_string key" "length key + 1 \<le> lim" and old: "\<not> (\<exists>e \<in> set es. str_match key (he_key e))"
  shows "case hashmap_insert km kf hm (Some key) v m of
      None \<Rightarrow> km (length key + 1) (kheap_of m) = None
        \<or> (\<exists>p a. km (length key + 1) (kheap_of m) = Some (p, a) \<and> km sizeof_kv_t a = None)
    | Some (r, m') \<Rightarrow> mem_ok live m' \<and> r = 0 \<and> (\<exists>e. he_key e = key \<and> he_value e = v
        \<and> hashmap_rep (objs m') hm t (B1 @ (es @ [e]) # B2) \<and> {he_addr e, he_kaddr e} \<inter> dom (objs m) = {})"
proof (cases "new_obj km (length key + 1) m")
  case None
  with new_obj_ok [OF mem key(2)] rep show ?thesis by (simp add: hashmap_insert_def hashmap_rep_def)
next
  case (Some r1)
  then obtain kc m1 where kc: "new_obj km (length key + 1) m = Some (kc, m1)" by (cases r1) auto
  obtain m2 where m2: "put_obj kc (Chars key) m1 = Some m2" "mem_ok live m2" "objs m2 = (objs m)(kc \<mapsto> Chars key)"
    "objs m kc = None" "kc \<noteq> NULL" "kheap_of m2 = kheap_of m1" "get_hashmap hm m2 = Some t"
    "get_slot (hm_array t) (bucket_of t key) m2 = Some (he_first es)"
    "insert_scan key (he_first es) NULL m2 = Some (Inr (if es = [] then NULL else he_addr (last es)))" "he_first es = NULL \<longleftrightarrow> es = []"
    by (rule key_copied [OF mem rep i key kc]) (use old in auto)
  have hm: "hm \<noteq> NULL" using rep by (simp add: hashmap_rep_def)
  show ?thesis
  proof (cases "new_obj km sizeof_kv_t m2")
    case None
    then have "km sizeof_kv_t (kheap_of m1) = None"
      using new_obj_ok [OF m2(2), of sizeof_kv_t] obj_lim m2(6) by (simp add: sizeof_defs)
    moreover have "km (length key + 1) (kheap_of m) = Some (kc, kheap_of m1)"
      using kc m2(5) by (auto simp: new_obj_def split: bind_splits if_splits)
    moreover have "hashmap_insert km kf hm (Some key) v m = None"
      using kc m2 hm None by (simp add: hashmap_insert_def)
    ultimately show ?thesis by simp
  next
    case (Some r3)
    then obtain ea m3 where m3: "new_obj km sizeof_kv_t m2 = Some (ea, m3)" by (cases r3) auto
    from new_obj_ok [OF m2(2), of sizeof_kv_t] obj_lim m3
    have ea: "ea \<noteq> NULL" "objs m2 ea = None" "objs m3 = (objs m2)(ea \<mapsto> Raw)" "mem_ok live m3" by (simp_all add: sizeof_defs)
    define e where "e = \<lparr>he_addr = ea, he_kaddr = kc, he_key = key, he_value = v\<rparr>"
    have new: "he_addr e \<notin> dom (objs m)" "he_kaddr e \<notin> dom (objs m)" "he_addr e \<noteq> he_kaddr e" "he_addr e \<noteq> NULL" "c_string (he_key e)"
      using ea m2 key by (auto simp: e_def split: if_splits)
    have "\<exists>m'. hashmap_insert km kf hm (Some key) v m = Some (0, m') \<and> mem_ok live m' \<and> hashmap_rep (objs m') hm t (B1 @ (es @ [e]) # B2)"
    proof (cases es rule: rev_cases)
      case Nil
      have "objs m (hm_array t) = Some (Kv_array (map he_first (B1 @ es # B2)))" "hm_array t \<noteq> ea" "hm_array t \<noteq> kc"
        using rep new by (auto simp: hashmap_rep_def e_def)
      with Nil kc m2 m3 hm ea i hashmap_rep_add(1) [OF rep _ new Nil] show ?thesis
        by (auto simp: hashmap_insert_def put_kv_def put_slot_def put_obj_def e_def nth_append list_update_append intro!: mem_ok_upd
            split: if_splits)
    next
      case (snoc fs l)
      have "kv_chain (objs m) es" using rep by (simp add: hashmap_rep_def)
      from kv_chain_last [OF this [unfolded snoc]]
      have l: "objs m (he_addr l) = Some (Kv_obj \<lparr>kv_key = he_kaddr l, kv_value = he_value l, kv_next = NULL\<rparr>)" .
      then have "he_addr l \<noteq> ea" "he_addr l \<noteq> kc" using new by (auto simp: e_def)
      with snoc l kc m2 m3 hm ea i hashmap_rep_add(2) [OF rep _ new snoc] show ?thesis
        by (auto simp: hashmap_insert_def put_kv_def put_obj_def get_defs e_def intro!: mem_ok_upd split: if_splits)
    qed
    moreover have "he_key e = key" "he_value e = v" by (simp_all add: e_def)
    ultimately show ?thesis using new(1,2) by auto
  qed
qed

lemma remove_scan_skip:
  assumes "kv_chain (objs m) (xs @ zs)" "c_string key" "\<forall>e \<in> set xs. \<not> str_match (he_key e) key"
  shows "remove_scan kf arr i key (he_first (xs @ zs)) p m =
    remove_scan kf arr i key (he_first zs) (if xs = [] then p else he_addr (last xs)) m"
  using assms
proof (induction xs arbitrary: p)
  case (Cons e xs)
  then obtain r where "strcmp (c_mem (he_key e)) (c_mem key) = Some r" "r = 0 \<longleftrightarrow> str_match (he_key e) key"
    using strcmp_match assms(2) by fastforce
  with Cons show ?case by (simp add: remove_scan.simps [of kf arr i key "he_addr e" p m] get_defs)
qed simp

lemma hashmap_remove_absent:
  assumes "hashmap_rep (objs m) hm t (B1 @ es # B2)" "length B1 = bucket_of t key" "c_string key"
    and "\<forall>e \<in> set es. \<not> str_match (he_key e) key"
  shows "hashmap_remove kf hm (Some key) m = Some (NULL, m)"
proof -
  have "kv_chain (objs m) (es @ [])" using assms(1) by (simp add: hashmap_rep_def)
  from remove_scan_skip [OF this assms(3,4)] assms(1,2) show ?thesis
    by (auto simp: hashmap_remove_def hashmap_rep_def get_defs nth_append remove_scan.simps)
qed

lemma hashmap_remove_present:
  assumes mem: "mem_ok live m" and rep: "hashmap_rep (objs m) hm t (B1 @ (xs @ e # ys) # B2)" and i: "length B1 = bucket_of t key"
    and key: "c_string key" and first: "\<forall>e \<in> set xs. \<not> str_match (he_key e) key" "str_match (he_key e) key"
  shows "case hashmap_remove kf hm (Some key) m of
      None \<Rightarrow> kfree_fails live kf
    | Some (r, m') \<Rightarrow> r = he_value e \<and> mem_ok live m' \<and> hashmap_rep (objs m') hm t (B1 @ (xs @ ys) # B2)
        \<and> objs m' (he_addr e) = None \<and> objs m' (he_kaddr e) = None"
proof -
  let ?p = "if xs = [] then NULL else he_addr (last xs)"
  have chain: "kv_chain (objs m) (xs @ e # ys)" using rep by (simp add: hashmap_rep_def)
  then have e: "he_addr e \<noteq> NULL" "objs m (he_kaddr e) = Some (Chars (he_key e))" "c_string (he_key e)"
    "objs m (he_addr e) = Some (Kv_obj \<lparr>kv_key = he_kaddr e, kv_value = he_value e, kv_next = he_first ys\<rparr>)"
    by (induction xs) auto
  have d: "he_addr e \<noteq> he_kaddr e" "hm_array t \<noteq> he_kaddr e" "hm_array t \<noteq> he_addr e"
    using rep e by (auto simp: hashmap_rep_def)
  have cmp: "strcmp (c_mem (he_key e)) (c_mem key) = Some 0" using strcmp_match [OF e(3) key] first(2) by auto
  have arr: "objs m (hm_array t) = Some (Kv_array (map he_first (B1 @ (xs @ e # ys) # B2)))" using rep by (simp add: hashmap_rep_def)
  have "hashmap_remove kf hm (Some key) m = remove_scan kf (hm_array t) (length B1) key (he_addr e) ?p m"
    using rep i remove_scan_skip [OF chain key first(1), of "hm_array t" "bucket_of t key" NULL]
    by (auto simp: hashmap_remove_def hashmap_rep_def get_defs nth_append)
  also have "\<dots> = free_obj kf (he_kaddr e) m \<bind> (\<lambda>m. (if ?p \<noteq> NULL
      then get_kv ?p m \<bind> (\<lambda>pk. put_kv ?p (pk\<lparr>kv_next := he_first ys\<rparr>) m)
      else put_slot (hm_array t) (length B1) (he_first ys) m) \<bind> (\<lambda>m. free_obj kf (he_addr e) m \<bind> (\<lambda>m. Some (he_value e, m))))"
    (is "_ = ?run") using e cmp by (simp add: remove_scan.simps [of kf _ _ key "he_addr e"] get_defs cong: if_cong)
  finally have run: "hashmap_remove kf hm (Some key) m = ?run" .
  have "objs m (he_kaddr e) \<noteq> None" using e by simp
  from free_obj_cases [OF mem this] show ?thesis
  proof cases
    case 1
    with run show ?thesis by simp
  next
    case (2 m1)
    obtain m2 where m2: "(if ?p \<noteq> NULL then get_kv ?p m1 \<bind> (\<lambda>pk. put_kv ?p (pk\<lparr>kv_next := he_first ys\<rparr>) m1)
        else put_slot (hm_array t) (length B1) (he_first ys) m1) = Some m2"
      "mem_ok live m2" "objs m2 (he_kaddr e) = None" "objs m2 (he_addr e) \<noteq> None"
      "hashmap_rep ((objs m2)(he_addr e := None)) hm t (B1 @ (xs @ ys) # B2)"
    proof (cases xs rule: rev_cases)
      case Nil
      let ?m2 = "m1\<lparr>objs := (objs m1)(hm_array t \<mapsto> Kv_array ((map he_first (B1 @ (xs @ e # ys) # B2))[length B1 := he_first ys]))\<rparr>"
      have "mem_ok live ?m2" using 2 arr d by (intro mem_ok_upd) auto
      with that [of ?m2] Nil 2 arr d e hashmap_rep_remove(1) [OF rep Nil] show ?thesis
        by (simp add: put_slot_def put_obj_def)
    next
      case (snoc fs l)
      have l: "he_addr l \<noteq> NULL" "objs m (he_addr l) = Some (Kv_obj \<lparr>kv_key = he_kaddr l, kv_value = he_value l, kv_next = he_addr e\<rparr>)"
        using chain unfolding snoc by (induction fs) auto
      then have "he_addr l \<noteq> he_kaddr e" "he_addr l \<noteq> he_addr e" using e rep snoc by (auto simp: hashmap_rep_def)
      let ?m2 = "m1\<lparr>objs := (objs m1)(he_addr l \<mapsto> Kv_obj \<lparr>kv_key = he_kaddr l, kv_value = he_value l, kv_next = he_first ys\<rparr>)\<rparr>"
      have "mem_ok live ?m2" using 2 l \<open>he_addr l \<noteq> he_kaddr e\<close> by (intro mem_ok_upd) auto
      with that [of ?m2] snoc l 2 d e \<open>he_addr l \<noteq> he_kaddr e\<close> \<open>he_addr l \<noteq> he_addr e\<close> hashmap_rep_remove(2) [OF rep snoc]
      show ?thesis by (simp add: put_kv_def put_obj_def get_defs)
    qed
    have "?run = free_obj kf (he_addr e) m2 \<bind> (\<lambda>m. Some (he_value e, m))" using 2(1) m2(1) by simp
    with run have run2: "hashmap_remove kf hm (Some key) m = free_obj kf (he_addr e) m2 \<bind> (\<lambda>m. Some (he_value e, m))" by simp
    from free_obj_cases [OF m2(2,4)] show ?thesis
    proof cases
      case 1
      with run2 show ?thesis by simp
    next
      case (2 m3)
      with run2 m2 d show ?thesis by simp
    qed
  qed
qed

lemma hashmap_create_ok:
  assumes "mem_ok live m" "0 < n" "12 * n \<le> lim" "12 * n < two32"
  shows "case hashmap_create km kf n hash m of
      None \<Rightarrow> km sizeof_hashmap_t (kheap_of m) = None
        \<or> (\<exists>p a. km sizeof_hashmap_t (kheap_of m) = Some (p, a) \<and> km (12 * n) a = None)
    | Some (hm, m') \<Rightarrow> mem_ok live m' \<and> (\<exists>arr. hashmap_rep (objs m') hm
        \<lparr>hm_array = arr, hm_hash = (case hash of Some h \<Rightarrow> h | None \<Rightarrow> djb2), hm_n = n\<rparr> (replicate n []))"
proof (cases "new_obj km sizeof_hashmap_t m")
  case None
  with new_obj_ok [OF assms(1), of sizeof_hashmap_t] obj_lim assms(2) show ?thesis
    by (simp add: hashmap_create_def sizeof_defs)
next
  case (Some r)
  then obtain hm m1 where m1: "new_obj km sizeof_hashmap_t m = Some (hm, m1)" by (cases r) auto
  from new_obj_ok [OF assms(1), of sizeof_hashmap_t] obj_lim m1
  have hm: "hm \<noteq> NULL" "objs m hm = None" "objs m1 = (objs m)(hm \<mapsto> Raw)" "mem_ok live m1" by (simp_all add: sizeof_defs)
  have size: "mul32 sizeof_kv_t n = 12 * n" using assms(4) by (simp add: sizeof_defs mul32_small)
  have buckets: "buckets_ok t i (replicate k [])" for t i k by (induction k arbitrary: i) auto
  show ?thesis
  proof (cases "new_obj km (12 * n) m1")
    case None
    moreover have "km sizeof_hashmap_t (kheap_of m) = Some (hm, kheap_of m1)"
      using m1 hm(1) by (auto simp: new_obj_def split: bind_splits if_splits)
    ultimately show ?thesis using new_obj_ok [OF hm(4) assms(3)] m1 hm assms(2) size by (simp add: hashmap_create_def)
  next
    case (Some r2)
    then obtain arr m2 where m2: "new_obj km (12 * n) m1 = Some (arr, m2)" by (cases r2) auto
    with new_obj_ok [OF hm(4) assms(3)]
    have arr: "arr \<noteq> NULL" "objs m1 arr = None" "objs m2 = (objs m1)(arr \<mapsto> Raw)" "mem_ok live m2" by simp_all
    then have "arr \<noteq> hm" using hm by auto
    with m1 m2 hm arr assms(2) size show ?thesis
      by (auto simp: hashmap_create_def put_obj_def hashmap_rep_def buckets intro!: mem_ok_upd exI [of _ arr] split: if_splits)
  qed
qed

lemma destroy_chain_ok:
  assumes "mem_ok live m" "kv_chain (objs m) es" "distinct (he_blocks es)"
  shows "case destroy_chain kf (he_first es) m of
      None \<Rightarrow> kfree_fails live kf | Some m' \<Rightarrow> mem_ok live m' \<and> objs m' = objs m |` (- set (he_blocks es))"
  using assms
proof (induction es arbitrary: m)
  case Nil
  then show ?case by (simp add: destroy_chain.simps restrict_map_def)
next
  case (Cons e es)
  then have e: "he_addr e \<noteq> NULL" "objs m (he_kaddr e) \<noteq> None" "he_addr e \<noteq> he_kaddr e"
    "objs m (he_addr e) = Some (Kv_obj \<lparr>kv_key = he_kaddr e, kv_value = he_value e, kv_next = he_first es\<rparr>)" by auto
  then have step: "destroy_chain kf (he_addr e) m = free_obj kf (he_kaddr e) m \<bind>
      (\<lambda>m. free_obj kf (he_addr e) m \<bind> destroy_chain kf (he_first es))"
    by (simp add: destroy_chain.simps [of kf "he_addr e" m] get_defs)
  from free_obj_cases [OF Cons.prems(1) e(2)] show ?case
  proof cases
    case 1
    with step show ?thesis by simp
  next
    case (2 m1)
    then have "objs m1 (he_addr e) \<noteq> None" using e by simp
    from free_obj_cases [OF 2(2) this] show ?thesis
    proof cases
      case 1
      with step 2 show ?thesis by simp
    next
      case (2 m2)
      have m2: "objs m2 = (objs m)(he_kaddr e := None, he_addr e := None)" using 2(3) \<open>objs m1 = _\<close> by simp
      have "kv_chain (objs m2) es \<longleftrightarrow> kv_chain (objs m) es" using m2 Cons.prems(3) by (intro kv_chain_cong) auto
      with Cons.IH [OF 2(2)] Cons.prems have "case destroy_chain kf (he_first es) m2 of
        None \<Rightarrow> kfree_fails live kf | Some m' \<Rightarrow> mem_ok live m' \<and> objs m' = objs m2 |` (- set (he_blocks es))" by simp
      moreover have "objs m2 |` (- set (he_blocks es)) = objs m |` (- set (he_blocks (e # es)))"
        using m2 by (auto simp: restrict_map_def)
      ultimately show ?thesis using step 2(1) \<open>free_obj kf (he_kaddr e) m = Some m1\<close> by (auto split: option.splits)
    qed
  qed
qed

lemma destroy_buckets_ok:
  assumes "mem_ok live m" "\<forall>es \<in> set bs. kv_chain (objs m) es" "distinct (concat (map he_blocks bs))"
    and "objs m arr = Some (Kv_array (map he_first (pre @ bs)))"
  shows "case destroy_buckets kf arr [length pre..<length (pre @ bs)] m of
      None \<Rightarrow> kfree_fails live kf
    | Some m' \<Rightarrow> mem_ok live m' \<and> objs m' = objs m |` (- set (concat (map he_blocks bs)))"
  using assms
proof (induction bs arbitrary: m pre)
  case Nil
  then show ?case by (simp add: restrict_map_def)
next
  case (Cons es bs)
  have upt: "[length pre..<length (pre @ es # bs)] = length pre # [length (pre @ [es])..<length ((pre @ [es]) @ bs)]"
    by (simp add: upt_rec)
  have slot: "get_slot arr (length pre) m = Some (he_first es)" using Cons.prems(4) by (simp add: get_defs nth_append)
  have chain: "kv_chain (objs m) es" "distinct (he_blocks es)" using Cons.prems(2,3) by auto
  show ?case
  proof (cases "destroy_chain kf (he_first es) m")
    case None
    with destroy_chain_ok [OF Cons.prems(1) chain] upt slot show ?thesis by simp
  next
    case (Some m1)
    with destroy_chain_ok [OF Cons.prems(1) chain]
    have m1: "mem_ok live m1" "objs m1 = objs m |` (- set (he_blocks es))" by simp_all
    have same: "objs m1 a = objs m a" if "a \<notin> set (he_blocks es)" for a using m1(2) that by (simp add: restrict_map_def)
    have "\<forall>fs \<in> set bs. kv_chain (objs m1) fs"
    proof
      fix fs assume fs: "fs \<in> set bs"
      then have "set (he_blocks fs) \<inter> set (he_blocks es) = {}" using Cons.prems(3) by auto
      then have "kv_chain (objs m1) fs \<longleftrightarrow> kv_chain (objs m) fs" by (intro kv_chain_cong same) auto
      with Cons.prems(2) fs show "kv_chain (objs m1) fs" by simp
    qed
    moreover have "arr \<notin> set (he_blocks es)" using kv_chain_obj [OF chain(1), of arr] Cons.prems(4) by auto
    then have "objs m1 arr = Some (Kv_array (map he_first ((pre @ [es]) @ bs)))" using same Cons.prems(4) by simp
    ultimately have "case destroy_buckets kf arr [length (pre @ [es])..<length ((pre @ [es]) @ bs)] m1 of
        None \<Rightarrow> kfree_fails live kf
      | Some m' \<Rightarrow> mem_ok live m' \<and> objs m' = objs m1 |` (- set (concat (map he_blocks bs)))"
      using Cons.prems(3) by (intro Cons.IH [OF m1(1)]) auto
    moreover have "objs m1 |` (- set (concat (map he_blocks bs))) = objs m |` (- set (concat (map he_blocks (es # bs))))"
      using m1(2) by (auto simp: restrict_map_def fun_eq_iff)
    moreover have "destroy_buckets kf arr [length pre..<length (pre @ es # bs)] m
        = destroy_buckets kf arr [length (pre @ [es])..<length ((pre @ [es]) @ bs)] m1"
      by (simp only: upt destroy_buckets.simps slot Some Option.bind.simps)
    ultimately show ?thesis by (simp only:)
  qed
qed

lemma hashmap_destroy_ok:
  assumes "mem_ok live m" "hashmap_rep (objs m) hm t bs"
  shows "case hashmap_destroy kf hm m of
      None \<Rightarrow> kfree_fails live kf | Some m' \<Rightarrow> mem_ok live m' \<and> objs m' = objs m |` (- hm_blocks hm t bs)"
proof -
  have r: "hm \<noteq> NULL" "get_hashmap hm m = Some t" "hm_n t = length bs" "objs m (hm_array t) = Some (Kv_array (map he_first ([] @ bs)))"
    "\<forall>es \<in> set bs. kv_chain (objs m) es" "distinct (concat (map he_blocks bs))" "hm \<noteq> hm_array t"
    using assms(2) by (auto simp: hashmap_rep_def get_defs)
  have out: "hm \<notin> set (concat (map he_blocks bs))" "hm_array t \<notin> set (concat (map he_blocks bs))"
    using assms(2) kv_chain_obj by (fastforce simp: hashmap_rep_def)+
  note d = destroy_buckets_ok [OF assms(1) r(5,6,4)]
  show ?thesis
  proof (cases "destroy_buckets kf (hm_array t) [0..<length bs] m")
    case None
    with d r show ?thesis by (simp add: hashmap_destroy_def)
  next
    case (Some m1)
    with d have m1: "mem_ok live m1" "objs m1 = objs m |` (- set (concat (map he_blocks bs)))" by simp_all
    have "objs m1 (hm_array t) \<noteq> None" using m1(2) out r(4) by (simp add: restrict_map_def)
    from free_obj_cases [OF m1(1) this] show ?thesis
    proof cases
      case 1
      with Some r show ?thesis by (simp add: hashmap_destroy_def)
    next
      case (2 m2)
      have "objs m2 hm \<noteq> None" using 2(3) m1(2) out r(2,7) by (auto simp: restrict_map_def get_defs split: option.splits)
      from free_obj_cases [OF 2(2) this] show ?thesis
      proof cases
        case 1
        with Some r 2 show ?thesis by (simp add: hashmap_destroy_def)
      next
        case (2 m3)
        moreover have "(objs m2)(hm := None) = objs m |` (- hm_blocks hm t bs)"
          using \<open>objs m2 = _\<close> m1(2) by (auto simp: restrict_map_def hm_blocks_def fun_eq_iff)
        ultimately show ?thesis using Some r \<open>free_obj kf (hm_array t) m1 = Some m2\<close> by (simp add: hashmap_destroy_def)
      qed
    qed
  qed
qed

end

end
