(* ===== verification/Hashmap_Spec.thy ===== *)
theory Hashmap_Spec
  imports Hashmap
begin

section \<open>Hash maps: contract\<close>

text \<open>
  The hash map as a map from strings to pointers, and where it is not one: \<^verbatim>\<open>strcmp\<close> takes a string
  and any longer string that begins with it for equal.
\<close>

subsection \<open>Hash maps as maps\<close>

text \<open>
  The map from keys to values that a hash map stands for. It is the behaviour of the code as long
  as the comparison of \<^verbatim>\<open>strcmp\<close> tells the keys apart.
\<close>

definition hm_map :: "hentry list list \<Rightarrow> bytes \<rightharpoonup> addr" where
  "hm_map bs = map_of (map (\<lambda>e. (he_key e, he_value e)) (concat bs))"

definition keys_apart :: "bytes set \<Rightarrow> bool" where
  "keys_apart K \<longleftrightarrow> (\<forall>a \<in> K. \<forall>b \<in> K. str_match a b \<longrightarrow> a = b)"

abbreviation hm_keys :: "hentry list list \<Rightarrow> bytes set" where
  "hm_keys bs \<equiv> he_key ` set (concat bs)"

definition he_map :: "hentry list \<Rightarrow> bytes \<rightharpoonup> addr" where
  "he_map es = map_of (map (\<lambda>e. (he_key e, he_value e)) es)"

lemma hm_map_split: "hm_map (B1 @ es # B2) = hm_map B2 ++ he_map es ++ hm_map B1"
  by (simp add: hm_map_def he_map_def map_add_assoc)

lemma dom_hm_map: "dom (hm_map bs) = hm_keys bs"
  by (simp add: hm_map_def dom_map_of_conv_image_fst image_image)

lemma dom_he_map: "dom (he_map es) = he_key ` set es"
  by (simp add: he_map_def dom_map_of_conv_image_fst image_image)

lemma he_map_None: "key \<notin> he_key ` set es \<Longrightarrow> he_map es key = None"
  by (metis dom_he_map domIff)

lemma buckets_ok_key: "buckets_ok t i bs \<Longrightarrow> e \<in> set (concat bs) \<Longrightarrow> i \<le> bucket_of t (he_key e) \<and> bucket_of t (he_key e) < i + length bs"
  by (induction bs arbitrary: i) fastforce+

lemma hashmap_split:
  assumes "hashmap_rep h hm t bs"
  obtains B1 es B2 where "bs = B1 @ es # B2" "length B1 = bucket_of t key" "key \<notin> hm_keys B1" "key \<notin> hm_keys B2"
    "es = bs ! bucket_of t key"
proof -
  let ?i = "bucket_of t key"
  have i: "?i < length bs" using assms by (simp add: hashmap_rep_def bucket_of_def)
  have bs: "bs = take ?i bs @ bs ! ?i # drop (Suc ?i) bs" using i by (rule id_take_nth_drop)
  have "buckets_ok t 0 (take ?i bs @ bs ! ?i # drop (Suc ?i) bs)" using assms bs by (simp add: hashmap_rep_def)
  then have ok: "buckets_ok t 0 (take ?i bs)" "buckets_ok t (Suc ?i) (drop (Suc ?i) bs)" using i by (simp_all add: min_def)
  have "key \<notin> hm_keys (take ?i bs)" using buckets_ok_key [OF ok(1)] by (auto simp del: set_concat)
  moreover have "key \<notin> hm_keys (drop (Suc ?i) bs)" using buckets_ok_key [OF ok(2)] by (force simp del: set_concat)
  ultimately show ?thesis using that [OF bs] i by simp
qed

lemma hm_map_bucket:
  assumes "key \<notin> hm_keys B1" "key \<notin> hm_keys B2"
  shows "hm_map (B1 @ es # B2) key = he_map es key"
proof -
  have "hm_map B1 key = None" "hm_map B2 key = None" using assms dom_hm_map [of B1] dom_hm_map [of B2] by blast+
  then show ?thesis unfolding hm_map_split by (auto simp: map_add_def split: option.splits)
qed

lemma hm_map_change:
  assumes "key \<notin> hm_keys B1" "key \<notin> hm_keys B2" "\<And>k. k \<noteq> key \<Longrightarrow> he_map fs k = he_map es k"
  shows "hm_map (B1 @ fs # B2) = (hm_map (B1 @ es # B2))(key := he_map fs key)"
proof
  fix k
  show "hm_map (B1 @ fs # B2) k = ((hm_map (B1 @ es # B2))(key := he_map fs key)) k"
  proof (cases "k = key")
    case True
    with hm_map_bucket [OF assms(1,2)] show ?thesis by simp
  next
    case False
    with assms(3) [OF False] show ?thesis unfolding hm_map_split by (simp add: map_add_def split: option.split)
  qed
qed

lemma find_entry_apart:
  assumes "keys_apart (insert key (he_key ` set es))"
  shows "(case find_entry key es of None \<Rightarrow> NULL | Some e \<Rightarrow> he_value e) = (case he_map es key of None \<Rightarrow> NULL | Some v \<Rightarrow> v)"
  using assms
proof (induction es)
  case Nil
  show ?case by (simp add: find_entry_def he_map_def)
next
  case (Cons e es)
  then have "str_match (he_key e) key \<longleftrightarrow> he_key e = key" by (auto simp: keys_apart_def)
  with Cons show ?case by (auto simp: find_entry_def he_map_def keys_apart_def)
qed

lemma keys_apart_match:
  assumes "keys_apart (insert key K)"
  shows "he_key e \<in> K \<Longrightarrow> str_match (he_key e) key \<longleftrightarrow> he_key e = key"
    and "he_key e \<in> K \<Longrightarrow> str_match key (he_key e) \<longleftrightarrow> key = he_key e"
proof -
  assume k: "he_key e \<in> K"
  show "str_match (he_key e) key \<longleftrightarrow> he_key e = key"
    using assms k str_match_refl [of key] unfolding keys_apart_def by blast
  show "str_match key (he_key e) \<longleftrightarrow> key = he_key e"
    using assms k str_match_refl [of key] unfolding keys_apart_def by blast
qed

lemma he_map_remove:
  assumes "\<forall>e \<in> set xs. he_key e \<noteq> key" "he_key e = key"
  shows "he_map (xs @ e # ys) key = Some (he_value e)" "k \<noteq> key \<Longrightarrow> he_map (xs @ ys) k = he_map (xs @ e # ys) k"
proof -
  have "he_map xs key = None" using assms(1) by (intro he_map_None) auto
  with assms(2) show "he_map (xs @ e # ys) key = Some (he_value e)"
    by (simp add: he_map_def map_add_Some_iff)
  show "k \<noteq> key \<Longrightarrow> he_map (xs @ ys) k = he_map (xs @ e # ys) k"
    using assms(2) by (simp add: he_map_def map_add_def split: option.split)
qed

subsection \<open>An example\<close>

definition demo_hashmap :: "liballoc kmem" where
  "demo_hashmap = \<lparr>kheap_of = demo_six, objs = [
     demo_ptr 0 \<mapsto> Hashmap_obj \<lparr>hm_array = demo_ptr 1, hm_hash = djb2, hm_n = 1\<rparr>,
     demo_ptr 1 \<mapsto> Kv_array [demo_ptr 2],
     demo_ptr 2 \<mapsto> Kv_obj \<lparr>kv_key = demo_ptr 3, kv_value = 7, kv_next = NULL\<rparr>,
     demo_ptr 3 \<mapsto> Chars [97]]\<rparr>"

abbreviation demo_table :: hashmap_t where
  "demo_table \<equiv> \<lparr>hm_array = demo_ptr 1, hm_hash = djb2, hm_n = 1\<rparr>"

abbreviation demo_buckets :: "hentry list list" where
  "demo_buckets \<equiv> [[\<lparr>he_addr = demo_ptr 2, he_kaddr = demo_ptr 3, he_key = [97], he_value = 7\<rparr>]]"

lemma demo_hashmap_ok:
  "mem_ok kmalloc_live demo_hashmap" "hashmap_rep (objs demo_hashmap) (demo_ptr 0) demo_table demo_buckets"
proof -
  show "mem_ok kmalloc_live demo_hashmap" unfolding demo_hashmap_def by (rule demo_mem_ok) auto
  show "hashmap_rep (objs demo_hashmap) (demo_ptr 0) demo_table demo_buckets"
    by (simp add: hashmap_rep_def demo_hashmap_def c_string_def bucket_of_def)
qed

subsection \<open>Properties\<close>





lemma find_after:
  assumes rep: "hashmap_rep (objs m) hm t bs" and k: "c_string k" and bs: "bs = B1 @ es # B2" "length B1 = bucket_of t key"
    and e: "he_key e = key" "he_value e = v" "hashmap_rep (objs m') hm t (B1 @ (es @ [e]) # B2)"
  shows "hashmap_find hm (Some k) m' =
    (if bucket_of t k = bucket_of t key \<and> str_match key k \<and> find_entry k (bs ! bucket_of t k) = None
     then Some v else hashmap_find hm (Some k) m)"
proof -
  have "bucket_of t k < length (B1 @ es # B2)" using rep bs(1) by (simp add: hashmap_rep_def bucket_of_def)
  then have other: "bucket_of t k \<noteq> bucket_of t key \<Longrightarrow> (B1 @ (es @ [e]) # B2) ! bucket_of t k = bs ! bucket_of t k"
    using bs(1,2) by (auto simp: nth_append nth_Cons split: nat.splits)
  have "find_entry k (es @ [e]) = (case find_entry k es of None \<Rightarrow> if str_match key k then Some e else None | Some f \<Rightarrow> Some f)"
    using e(1) by (induction es) (auto simp: find_entry_def)
  moreover have "(B1 @ (es @ [e]) # B2) ! bucket_of t key = es @ [e]" using bs(2) by (metis nth_append_length)
  moreover have bs5: "bs ! bucket_of t key = es" using bs by (metis nth_append_length)
  ultimately show ?thesis
    using hashmap_find_ok [OF e(3) k] hashmap_find_ok [OF rep k] other e(2) bs5
    by (cases "bucket_of t k = bucket_of t key") (auto split: option.splits)
qed

text \<open>
  What \<^verbatim>\<open>hashmap_find\<close> returns after \<^verbatim>\<open>hashmap_insert\<close>, for any key: what it returned before, except
  that a key of the same bucket which begins with the inserted key, and which nothing in the bucket
  matched before, now gives the inserted value, whether or not it is the inserted key.
\<close>

theorem hashmap_insert_find:
  fixes m :: "liballoc kmem"
  assumes "mem_ok kmalloc_live m" "hashmap_rep (objs m) hm t bs" "c_string key" "length key + 1 \<le> heap_limit" "c_string k"
  shows "case hashmap_insert kmalloc kfree hm (Some key) v m of
      None \<Rightarrow> kfree_fails kmalloc_live (kfree :: liballoc kfree_fn) \<or> \<not> allocs kmalloc [length key + 1, sizeof_kv_t] (kheap_of m)
    | Some (r, m') \<Rightarrow> hashmap_find hm (Some k) m' =
        (if r = 0 \<and> bucket_of t k = bucket_of t key \<and> str_match key k \<and> find_entry k (bs ! bucket_of t k) = None
         then Some v else hashmap_find hm (Some k) m)"
proof -
  from hashmap_split [OF assms(2), of key] obtain B1 es B2 where
    bs: "bs = B1 @ es # B2" "length B1 = bucket_of t key" "key \<notin> hm_keys B1" "key \<notin> hm_keys B2" "es = bs ! bucket_of t key" .
  have rep: "hashmap_rep (objs m) hm t (B1 @ es # B2)" using assms(2) bs(1) by simp
  show ?thesis
  proof (cases "\<exists>e \<in> set es. str_match key (he_key e)")
    case True
    have same: "hashmap_find hm (Some k) m' = hashmap_find hm (Some k) m" if "objs m' = objs m" for m' :: "liballoc kmem"
      using hashmap_find_ok [OF _ assms(5), of m' hm t bs] hashmap_find_ok [OF assms(2,5)] assms(2) that by simp
    note ins = kobjects.hashmap_insert_present [OF assms(1) rep bs(2) assms(3,4) True, of v]
    show ?thesis
    proof (cases "hashmap_insert kmalloc kfree hm (Some key) v m")
      case None
      with ins show ?thesis by auto
    next
      case (Some rm)
      then obtain r m' where "rm = (r, m')" "r = - EEXIST" "objs m' = objs m" using ins by (cases rm) auto
      with same [of m'] Some show ?thesis by (simp add: EEXIST_def)
    qed
  next
    case False
    note ins = kobjects.hashmap_insert_absent [OF assms(1) rep bs(2) assms(3,4) False, of v]
    show ?thesis
    proof (cases "hashmap_insert kmalloc kfree hm (Some key) v m")
      case None
      with ins show ?thesis by auto
    next
      case (Some rm)
      then obtain m' where run: "hashmap_insert kmalloc kfree hm (Some key) v m = Some (0, m')" using ins by (cases rm) auto
      with ins obtain e where e: "he_key e = key" "he_value e = v" "hashmap_rep (objs m') hm t (B1 @ (es @ [e]) # B2)" by auto
      with find_after [OF assms(2,5) bs(1,2) e] run show ?thesis by simp
    qed
  qed
qed

theorem hashmap_insert_find_witness:
  "case hashmap_insert kmalloc kfree (demo_ptr 0) (Some [98]) 9 demo_hashmap of
     None \<Rightarrow> kfree_fails kmalloc_live (kfree :: liballoc kfree_fn) \<or> \<not> allocs kmalloc [2, 12] demo_six
   | Some (r, m') \<Rightarrow> r = 0 \<and> hashmap_find (demo_ptr 0) (Some [98, 99]) m' = Some 9"
proof -
  have k: "c_string [98]" "length [98 :: 8 word] + 1 \<le> heap_limit" "c_string [98, 99]" by (simp_all add: c_string_def heap_limit_def)
  have "find_entry [98, 99] (demo_buckets ! bucket_of demo_table [98, 99]) = None" "str_match [98] [98, 99 :: 8 word]"
    "bucket_of demo_table [98, 99] = bucket_of demo_table [98]"
    by (simp_all add: find_entry_def bucket_of_def str_match_def)
  note find = this and hit = hashmap_insert_find [OF demo_hashmap_ok k, of 9]
  have "hashmap_rep (objs demo_hashmap) (demo_ptr 0) demo_table ([] @ hd demo_buckets # [])"
    using demo_hashmap_ok(2) by simp
  note ok = kobjects.hashmap_insert_absent [OF demo_hashmap_ok(1) this _ k(1,2), of 9]
  have "kheap_of demo_hashmap = demo_six" by (simp add: demo_hashmap_def)
  with find hit ok show ?thesis
    by (cases "hashmap_insert kmalloc kfree (demo_ptr 0) (Some [98]) 9 demo_hashmap")
      (auto simp: bucket_of_def str_match_def sizeof_defs numeral_2_eq_2 simp del: allocs.simps)
qed

end
