(* ===== verification/Queues.thy ===== *)
theory Queues
  imports Lists
begin

section \<open>Lists by their contents\<close>

text \<open>
  The other components use a \<^verbatim>\<open>list_t\<close> through the operations of list.c only. Their models keep, for
  each such list, the sequence of its nodes and data that \<^verbatim>\<open>foreach\<close> visits, and the operations below,
  which take the memory of the nodes from \<^verbatim>\<open>kmalloc\<close>. The lemmas relate them to the lists in memory.
  \<open>queue_insert_before\<close> does what list.c does: a node inserted before another node than the head is
  not visited.
\<close>

type_synonym queue = "(addr \<times> addr) list"

definition queue_insert :: "addr \<Rightarrow> queue \<Rightarrow> liballoc \<Rightarrow> (addr \<times> queue \<times> liballoc) option" where
  "queue_insert d q h = do {
     (n, h) \<leftarrow> kmalloc sizeof_node_t h;
     Some (if n = NULL then (NULL, q, h) else (n, q @ [(n, d)], h))
   }"

definition queue_insert_before :: "addr \<Rightarrow> addr \<Rightarrow> queue \<Rightarrow> liballoc \<Rightarrow> (addr \<times> queue \<times> liballoc) option" where
  "queue_insert_before node d q h = do {
     (n, h) \<leftarrow> kmalloc sizeof_node_t h;
     Some (if n = NULL then (NULL, q, h)
           else if q \<noteq> [] \<and> fst (hd q) = node then (n, (n, d) # q, h) else (n, q, h))
   }"

primrec queue_dequeue :: "addr \<Rightarrow> queue \<Rightarrow> queue" where
  "queue_dequeue node [] = []"
| "queue_dequeue node (x # q) = (if fst x = node then q else x # queue_dequeue node q)"

lemma queue_dequeue_split: "node \<notin> nodes_of xs \<Longrightarrow> queue_dequeue node (xs @ (node, d) # ys) = xs @ ys"
  by (induction xs) auto

definition queue_find :: "addr \<Rightarrow> queue \<Rightarrow> addr" where
  "queue_find d q = (case find (\<lambda>x. snd x = d) q of None \<Rightarrow> NULL | Some x \<Rightarrow> fst x)"

text \<open>How the memory of the heap moves along.\<close>

lemma kheap_new_obj: "new_obj km n m = Some (p, m') \<Longrightarrow> km n (kheap_of m) = Some (p, kheap_of m')"
  by (auto simp: new_obj_def split: bind_splits if_splits)

lemma kheap_put [simp]: "put_obj p ob m = Some m' \<Longrightarrow> kheap_of m' = kheap_of m"
  by (auto simp: put_obj_def split: option.splits)

lemma kheap_upd [simp]:
  "upd_node p f m = Some m' \<Longrightarrow> kheap_of m' = kheap_of m" "upd_list p g m = Some m' \<Longrightarrow> kheap_of m' = kheap_of m"
  by (auto simp: upd_node_def upd_list_def split: bind_splits)

lemma list_insert_heap:
  assumes "list_insert km l d m = Some (n, m')" "l \<noteq> NULL"
  shows "km sizeof_node_t (kheap_of m) = Some (n, kheap_of m')"
proof -
  from assms obtain p m1 where "new_obj km sizeof_node_t m = Some (p, m1)" "n = p" "kheap_of m' = kheap_of m1"
    by (auto simp: list_insert_def split: bind_splits if_splits)
  then show ?thesis using kheap_new_obj by fastforce
qed

lemma list_insert_before_heap:
  assumes "list_insert_before km l node d m = Some (n, m')" "l \<noteq> NULL" "node \<noteq> NULL"
  shows "km sizeof_node_t (kheap_of m) = Some (n, kheap_of m')"
proof -
  from assms obtain p m1 where "new_obj km sizeof_node_t m = Some (p, m1)" "n = p" "kheap_of m' = kheap_of m1"
    by (auto simp: list_insert_before_def split: bind_splits if_splits)
  then show ?thesis using kheap_new_obj by fastforce
qed

text \<open>The operations on contents and those in memory.\<close>

lemma queue_insert_list:
  assumes "mem_ok kmalloc_live m" "list_rep (objs m) l q" "list_insert kmalloc l d m = Some (n, m')"
  shows "queue_insert d q (kheap_of m) = Some (n, q @ [(n, d)], kheap_of m')" "list_rep (objs m') l (q @ [(n, d)])"
proof -
  have l: "l \<noteq> NULL" using assms(2) by (simp add: list_rep_def)
  have r: "objs m n = None" "list_rep (objs m') l (q @ [(n, d)])"
    using kobjects.list_insert_ok [OF assms(1,2), of d] assms(3) by simp_all
  then have "n \<noteq> NULL" by (auto simp: list_rep_def)
  with list_insert_heap [OF assms(3) l] r
  show "queue_insert d q (kheap_of m) = Some (n, q @ [(n, d)], kheap_of m')" "list_rep (objs m') l (q @ [(n, d)])"
    by (simp_all add: queue_insert_def)
qed

lemma queue_dequeue_list:
  assumes "mem_ok kmalloc_live m" "list_rep (objs m) l q" "node \<in> nodes_of q"
  shows "\<exists>m'. list_dequeue l node m = Some (node, m') \<and> list_rep (objs m') l (queue_dequeue node q) \<and> mem_ok kmalloc_live m'"
proof -
  from assms(3) obtain d where "(node, d) \<in> set q" by auto
  then obtain xs ys where q: "q = xs @ (node, d) # ys" by (meson split_list)
  have "node \<notin> nodes_of xs" using assms(2) q by (auto simp: list_rep_def)
  then have "queue_dequeue node q = xs @ ys" using q by (simp add: queue_dequeue_split)
  with kobjects.list_dequeue_ok [OF assms(1), of l xs node d ys] assms(2) q show ?thesis by auto
qed

lemma queue_insert_before_list:
  assumes "mem_ok kmalloc_live m" "list_rep (objs m) l q" "node \<in> nodes_of q" "list_insert_before kmalloc l node d m = Some (n, m')"
  shows "\<exists>q'. queue_insert_before node d q (kheap_of m) = Some (n, q', kheap_of m') \<and> list_fwd (objs m') l q'"
proof -
  from assms(3) obtain e where "(node, e) \<in> set q" by auto
  then obtain xs ys where q: "q = xs @ (node, e) # ys" by (meson split_list)
  have l: "l \<noteq> NULL" "node \<noteq> NULL" using assms(2) q by (auto simp: list_rep_def)
  have r: "n \<noteq> NULL" "if xs = [] then list_rep (objs m') l ((n, d) # (node, e) # ys) else list_fwd (objs m') l q"
    using kobjects.list_insert_before_ok [OF assms(1), of l xs node e ys d] assms(2,4) q by simp_all
  have "xs = [] \<longleftrightarrow> q \<noteq> [] \<and> fst (hd q) = node" using q assms(2) by (cases xs) (auto simp: list_rep_def)
  then have "queue_insert_before node d q (kheap_of m) = Some (n, if xs = [] then (n, d) # q else q, kheap_of m')"
    using list_insert_before_heap [OF assms(4) l] r(1) by (simp add: queue_insert_before_def)
  moreover have "list_fwd (objs m') l (if xs = [] then (n, d) # q else q)"
    using r(2) q list_rep_fwd [of "objs m'" l "(n, d) # q"] by (cases "xs = []") simp_all
  ultimately show ?thesis by blast
qed

end
