(* ===== verification/Task.thy ===== *)
theory Task
  imports Queues Strings
begin

section \<open>Processes and scheduling (kernel/task.c)\<close>

text \<open>
  The process table, the run queue, wait queues, tasklets and process identities. A task is known
  by the address of its \<^verbatim>\<open>task_t\<close>; a tasklet begins with its task and has the same address. The
  state holds the heap of the allocator, which every list node and every task comes from, and:

  \<^item> \<open>tasks\<close>, \<open>tasklets\<close>, \<open>strs\<close>: the structures and the C strings (without their final zero) by address;
  \<^item> \<open>processes\<close>, \<open>run_queue\<close>, \<open>wqs\<close>: the lists, by their contents (see Queues);
  \<^item> \<open>tnodes\<close>: the nodes of the process tree with their parents;
  \<^item> \<open>stackw\<close>: the words of the kernel stacks, by address;
  \<^item> \<open>iflag\<close>: whether interrupts are enabled (\<^verbatim>\<open>cli\<close>, \<^verbatim>\<open>sti\<close>);
  \<^item> \<open>t_vfs\<close>: the state of the file system, which only \<^verbatim>\<open>clone_file\<close> and \<^verbatim>\<open>close_vfs\<close> change. These two
    functions of vfs.c are arguments of \<^verbatim>\<open>fork\<close> and \<^verbatim>\<open>exit_task\<close>.

  \<^item> \<open>cpu\<close>: stack pointer, base pointer and instruction pointer that \<^verbatim>\<open>context_switch\<close> loads.

  \<^verbatim>\<open>switch_task\<close> is modelled up to the jump into the new task; the registers that \<^verbatim>\<open>read_eip\<close> and the
  assembly read are its argument.
\<close>

subsection \<open>Data\<close>

definition KERNEL_STACK_SIZE :: nat where "KERNEL_STACK_SIZE = 0x2000"
definition MAX_OF :: nat where "MAX_OF = 32"
definition MAX_PID :: int where "MAX_PID = 32768"
definition SLEEP_ASLEEP :: "32 word" where "SLEEP_ASLEEP = 0x01"
definition SLEEP_INTERRUPTABLE :: "32 word" where "SLEEP_INTERRUPTABLE = 0x02"
definition SLEEP_INTERRUPTED :: "32 word" where "SLEEP_INTERRUPTED = 0x04"

record filep =
  fp_file :: addr
  fp_off :: int

record task_t =
  t_pid :: int
  t_gid :: int
  t_sid :: int
  t_esp :: nat
  t_ebp :: nat
  t_eip :: nat
  t_page_dir :: addr
  t_brk :: nat
  t_brk_actual :: nat
  t_start :: nat
  t_exit :: int
  t_nice :: int
  t_ruid :: nat
  t_euid :: nat
  t_suid :: nat
  t_rgid :: nat
  t_egid :: nat
  t_sgid :: nat
  t_cwd :: addr
  t_cmd :: addr
  t_files :: "nat \<Rightarrow> filep"
  t_treenode :: addr
  t_wq :: addr
  t_sleep_flags :: "32 word"

record tasklet_t =
  tl_stack :: addr
  tl_argp :: addr
  tl_entry :: nat
  tl_scheduled :: bool

record tnode =
  tnode_task :: addr
  tnode_children :: addr
  tnode_kids :: queue
  tnode_parent :: addr
  tnode_owned :: bool

record waitqueue_t =
  wq_list :: addr
  wq_tasks :: queue

record 'v tasking =
  t_heap :: liballoc
  t_vfs :: 'v
  tasks :: "addr \<rightharpoonup> task_t"
  tasklets :: "addr \<rightharpoonup> tasklet_t"
  strs :: "addr \<rightharpoonup> bytes"
  tnodes :: "addr \<rightharpoonup> tnode"
  tree_root_node :: addr
  processes :: queue
  run_queue :: queue
  wqs :: "addr \<rightharpoonup> waitqueue_t"
  current_task :: addr
  kidle :: addr
  stackw :: "addr \<Rightarrow> nat"
  tss_esp0 :: nat
  iflag :: bool
  cpu :: "nat \<times> nat \<times> nat"
  tasklet_finish_eip :: nat

definition sizeof_task_t :: nat where "sizeof_task_t = 476"
definition sizeof_tasklet_t :: nat where "sizeof_tasklet_t = 492"
definition sizeof_waitqueue_t :: nat where "sizeof_waitqueue_t = 4"

definition zero_task :: task_t where
  "zero_task = \<lparr>t_pid = 0, t_gid = 0, t_sid = 0, t_esp = 0, t_ebp = 0, t_eip = 0, t_page_dir = NULL, t_brk = 0,
     t_brk_actual = 0, t_start = 0, t_exit = 0, t_nice = 0, t_ruid = 0, t_euid = 0, t_suid = 0, t_rgid = 0, t_egid = 0,
     t_sgid = 0, t_cwd = NULL, t_cmd = NULL, t_files = (\<lambda>_. \<lparr>fp_file = NULL, fp_off = 0\<rparr>), t_treenode = NULL,
     t_wq = NULL, t_sleep_flags = 0\<rparr>"

subsection \<open>Memory\<close>

definition kma :: "nat \<Rightarrow> 'v tasking \<Rightarrow> (addr \<times> 'v tasking) option" where
  "kma n s = do { (p, h) \<leftarrow> kmalloc n (t_heap s); Some (p, s\<lparr>t_heap := h\<rparr>) }"

definition kfr :: "addr \<Rightarrow> 'v tasking \<Rightarrow> 'v tasking option" where
  "kfr p s = do { h \<leftarrow> kfree p (t_heap s); Some (s\<lparr>t_heap := h\<rparr>) }"

definition upd_task :: "addr \<Rightarrow> (task_t \<Rightarrow> task_t) \<Rightarrow> 'v tasking \<Rightarrow> 'v tasking option" where
  "upd_task t f s = (case tasks s t of None \<Rightarrow> None | Some k \<Rightarrow> Some (s\<lparr>tasks := (tasks s)(t \<mapsto> f k)\<rparr>))"

definition run_queue_insert :: "addr \<Rightarrow> 'v tasking \<Rightarrow> (addr \<times> 'v tasking) option" where
  "run_queue_insert t s = do {
     (n, q, h) \<leftarrow> queue_insert t (run_queue s) (t_heap s);
     Some (n, s\<lparr>t_heap := h, run_queue := q\<rparr>)
   }"

text \<open>\<^verbatim>\<open>tree_insert_node\<close> on the process tree.\<close>

definition proc_tree_insert :: "addr \<Rightarrow> addr \<Rightarrow> 'v tasking \<Rightarrow> (addr \<times> 'v tasking) option" where
  "proc_tree_insert parent t s =
    (if parent = NULL then Some (NULL, s)
     else do {
       pn \<leftarrow> tnodes s parent;
       ASSERT (tnode_owned pn);
       (p, s) \<leftarrow> kma sizeof_tree_node_t s;
       if p = NULL then Some (NULL, s)
       else do {
         (c, s) \<leftarrow> kma sizeof_list_t s;
         if c = NULL then do { s \<leftarrow> kfr p s; Some (NULL, s) }
         else do {
           let nd = \<lparr>tnode_task = t, tnode_children = c, tnode_kids = [], tnode_parent = parent, tnode_owned = True\<rparr>;
           let s = s\<lparr>tnodes := (tnodes s)(p \<mapsto> nd)\<rparr>;
           pn \<leftarrow> tnodes s parent;
           (n, q, h) \<leftarrow> queue_insert p (tnode_kids pn) (t_heap s);
           Some (p, s\<lparr>t_heap := h, tnodes := (tnodes s)(parent \<mapsto> pn\<lparr>tnode_kids := q\<rparr>)\<rparr>)
         }
       }
     })"

text \<open>
  \<^verbatim>\<open>tree_detach_branch\<close> on the process tree. For a node that has a parent it uses memory that
  \<^verbatim>\<open>list_remove\<close> has released (theorem \<open>tree_detach_freed\<close>), so it has no result here.
\<close>

definition proc_tree_detach :: "addr \<Rightarrow> 'v tasking \<Rightarrow> 'v tasking option" where
  "proc_tree_detach tn s =
    (if tn = NULL then Some s
     else do {
       nd \<leftarrow> tnodes s tn;
       ASSERT (tnode_owned nd);
       if tnode_parent nd = NULL then Some (s\<lparr>tree_root_node := NULL\<rparr>) else None
     })"

definition proc_tree_delete :: "addr \<Rightarrow> 'v tasking \<Rightarrow> 'v tasking option" where
  "proc_tree_delete tn s =
    (if tn = NULL then Some s
     else do {
       nd \<leftarrow> tnodes s tn;
       ASSERT (tnode_parent nd = NULL);
       ASSERT (\<not> tnode_owned nd);
       ASSERT (tnode_kids nd = []);
       s \<leftarrow> kfr (tnode_children nd) s;
       s \<leftarrow> kfr tn s;
       Some (s\<lparr>tnodes := (tnodes s)(tn := None)\<rparr>)
     })"

definition proc_tree_insert_direct :: "addr \<Rightarrow> addr \<Rightarrow> 'v tasking \<Rightarrow> 'v tasking option" where
  "proc_tree_insert_direct parent tn s =
    (if parent = NULL \<or> tn = NULL then Some s
     else do {
       pn \<leftarrow> tnodes s parent;
       ASSERT (tnode_owned pn);
       nd \<leftarrow> tnodes s tn;
       ASSERT (\<not> tnode_owned nd);
       let s = s\<lparr>tnodes := (tnodes s)(tn \<mapsto> nd\<lparr>tnode_parent := parent, tnode_owned := True\<rparr>)\<rparr>;
       pn \<leftarrow> tnodes s parent;
       (n, q, h) \<leftarrow> queue_insert tn (tnode_kids pn) (t_heap s);
       Some (s\<lparr>t_heap := h, tnodes := (tnodes s)(parent \<mapsto> pn\<lparr>tnode_kids := q\<rparr>)\<rparr>)
     })"

text \<open>
  \<^verbatim>\<open>tree_inherit_children\<close>: \<^verbatim>\<open>list_merge\<close> appends nothing that \<^verbatim>\<open>foreach\<close> visits when the new parent
  already has children (lemma \<open>list_merge_ok\<close>), and the children keep their parent pointer.
\<close>

definition proc_tree_inherit :: "addr \<Rightarrow> addr \<Rightarrow> 'v tasking \<Rightarrow> 'v tasking option" where
  "proc_tree_inherit newparent oldparent s =
    (if newparent = NULL \<or> oldparent = NULL then Some s
     else do {
       np \<leftarrow> tnodes s newparent;
       ASSERT (tnode_owned np);
       old \<leftarrow> tnodes s oldparent;
       if tnode_kids old = [] then Some s
       else do {
         let s = s\<lparr>tnodes := (tnodes s)(newparent \<mapsto> np\<lparr>tnode_kids := (if tnode_kids np = [] then tnode_kids old else tnode_kids np)\<rparr>)\<rparr>;
         old \<leftarrow> tnodes s oldparent;
         Some (s\<lparr>tnodes := (tnodes s)(oldparent \<mapsto> old\<lparr>tnode_kids := []\<rparr>)\<rparr>)
       }
     })"

text \<open>Releasing a task or a tasklet.\<close>

definition free_task :: "addr \<Rightarrow> 'v tasking \<Rightarrow> 'v tasking option" where
  "free_task t s = do {
     s \<leftarrow> kfr t s;
     Some (s\<lparr>tasks := (tasks s)(t := None), tasklets := (tasklets s)(t := None)\<rparr>)
   }"

subsection \<open>Process identifiers\<close>

fun pid_used :: "int \<Rightarrow> queue \<Rightarrow> 'v tasking \<Rightarrow> bool option" where
  "pid_used pid [] s = Some False"
| "pid_used pid ((n, t) # q) s = do {
     k \<leftarrow> tasks s t;
     if t_pid k = pid then Some True else pid_used pid q s
   }"

function nextpid_from :: "int \<Rightarrow> 'v tasking \<Rightarrow> int option" where
  "nextpid_from pid s =
    (if pid > MAX_PID then Some 0
     else do {
       used \<leftarrow> pid_used pid (processes s) s;
       if used then nextpid_from (pid + 1) s else Some pid
     })"
  by pat_completeness auto
termination by (relation "measure (\<lambda>(pid, s). nat (MAX_PID + 1 - pid))") auto

declare nextpid_from.simps [simp del]

definition nextpid :: "'v tasking \<Rightarrow> int option" where
  "nextpid s = nextpid_from 1 s"

fun find_pid :: "int \<Rightarrow> queue \<Rightarrow> 'v tasking \<Rightarrow> addr option" where
  "find_pid pid [] s = Some NULL"
| "find_pid pid ((n, t) # q) s = do {
     k \<leftarrow> tasks s t;
     if t_pid k = pid then Some t else find_pid pid q s
   }"

definition get_task :: "int \<Rightarrow> 'v tasking \<Rightarrow> addr option" where
  "get_task pid s = (if pid = 0 \<or> pid > MAX_PID then Some NULL else find_pid pid (processes s) s)"

text \<open>The loop with which \<^verbatim>\<open>fork\<close> and \<^verbatim>\<open>create_tasklet\<close> look for the place of a new process.\<close>

fun first_greater :: "int \<Rightarrow> queue \<Rightarrow> 'v tasking \<Rightarrow> addr option" where
  "first_greater pid [] s = Some NULL"
| "first_greater pid ((n, t) # q) s = do {
     k \<leftarrow> tasks s t;
     if t_pid k > pid then Some n else first_greater pid q s
   }"

definition insert_process :: "addr \<Rightarrow> 'v tasking \<Rightarrow> (addr \<times> 'v tasking) option" where
  "insert_process t s = do {
     k \<leftarrow> tasks s t;
     proc \<leftarrow> first_greater (t_pid k) (processes s) s;
     (n, q, h) \<leftarrow> (if proc \<noteq> NULL then queue_insert_before proc t (processes s) (t_heap s)
                    else queue_insert t (processes s) (t_heap s));
     Some (n, s\<lparr>t_heap := h, processes := q\<rparr>)
   }"

subsection \<open>Switching\<close>

definition get_ready_task :: "'v tasking \<Rightarrow> (addr \<times> 'v tasking) option" where
  "get_ready_task s = (case run_queue s of
     [] \<Rightarrow> Some (kidle s, s)
   | (n, t) # q \<Rightarrow> do { s \<leftarrow> kfr n (s\<lparr>run_queue := queue_dequeue n (run_queue s)\<rparr>); Some (t, s) })"

definition set_kernel_stack :: "nat \<Rightarrow> 'v tasking \<Rightarrow> 'v tasking" where
  "set_kernel_stack esp s = s\<lparr>tss_esp0 := esp\<rparr>"

text \<open>The registers and the page directory of the task that is switched to.\<close>

definition context_switch :: "'v tasking \<Rightarrow> 'v tasking option" where
  "context_switch s = do {
     k \<leftarrow> tasks s (current_task s);
     d \<leftarrow> page_dirs (t_heap s) (current_dir (t_heap s));
     Some (s\<lparr>cpu := (t_esp k, t_ebp k, t_eip k), t_heap := (t_heap s)\<lparr>cr3 := physical_address d\<rparr>\<rparr>)
   }"

text \<open>The current task goes to the end of the run queue, unless it is the idle task.\<close>

definition put_back :: "bool \<Rightarrow> 'v tasking \<Rightarrow> 'v tasking option" where
  "put_back resched s = do {
     k \<leftarrow> tasks s (current_task s);
     if resched \<and> t_pid k \<noteq> - 1 then do {
       (n, s) \<leftarrow> run_queue_insert (current_task s) s;
       ASSERT (n \<noteq> NULL);
       Some s
     } else Some s
   }"

definition switch_task :: "bool \<Rightarrow> nat \<times> nat \<times> nat \<Rightarrow> 'v tasking \<Rightarrow> 'v tasking option" where
  "switch_task resched regs s =
    (if current_task s = NULL then Some s
     else do {
       let (esp, ebp, eip) = regs;
       s \<leftarrow> upd_task (current_task s) (\<lambda>k. k\<lparr>t_eip := eip, t_esp := esp, t_ebp := ebp\<rparr>) s;
       s \<leftarrow> put_back resched s;
       (t, s) \<leftarrow> get_ready_task s;
       k \<leftarrow> tasks s t;
       context_switch (set_kernel_stack (t_esp k) (s\<lparr>current_task := t, t_heap := (t_heap s)\<lparr>current_dir := t_page_dir k\<rparr>\<rparr>))
     })"

subsection \<open>Wait queues\<close>

definition create_waitqueue :: "'v tasking \<Rightarrow> (addr \<times> 'v tasking) option" where
  "create_waitqueue s = do {
     (wq, s) \<leftarrow> kma sizeof_waitqueue_t s;
     if wq = NULL then Some (NULL, s)
     else do {
       (l, s) \<leftarrow> kma sizeof_list_t s;
       if l = NULL then do { s \<leftarrow> kfr wq s; Some (NULL, s) }
       else Some (wq, s\<lparr>wqs := (wqs s)(wq \<mapsto> \<lparr>wq_list = l, wq_tasks = []\<rparr>)\<rparr>)
     }
   }"

definition sleep_thread :: "addr \<Rightarrow> 32 word \<Rightarrow> nat \<times> nat \<times> nat \<Rightarrow> 'v tasking \<Rightarrow> 'v tasking option" where
  "sleep_thread wq flags regs s = do {
     ASSERT (wq \<noteq> NULL);
     let s = s\<lparr>iflag := False\<rparr>;
     s \<leftarrow> upd_task (current_task s) (\<lambda>k. k\<lparr>t_sleep_flags := SLEEP_ASLEEP OR flags, t_wq := wq\<rparr>) s;
     w \<leftarrow> wqs s wq;
     (n, q, h) \<leftarrow> queue_insert (current_task s) (wq_tasks w) (t_heap s);
     ASSERT (n \<noteq> NULL);
     let s = s\<lparr>t_heap := h, wqs := (wqs s)(wq \<mapsto> w\<lparr>wq_tasks := q\<rparr>)\<rparr>;
     switch_task False regs s
   }"

text \<open>One round of the loop of \<^verbatim>\<open>wake_queue\<close> for the first node of the queue.\<close>

definition wake_one :: "addr \<Rightarrow> addr \<Rightarrow> addr \<Rightarrow> 'v tasking \<Rightarrow> 'v tasking option" where
  "wake_one wq n t s = do {
     w \<leftarrow> wqs s wq;
     s \<leftarrow> kfr n (s\<lparr>wqs := (wqs s)(wq \<mapsto> w\<lparr>wq_tasks := queue_dequeue n (wq_tasks w)\<rparr>)\<rparr>);
     s \<leftarrow> upd_task t (\<lambda>k. k\<lparr>t_sleep_flags := t_sleep_flags k AND NOT SLEEP_ASLEEP, t_wq := NULL\<rparr>) s;
     (m, s) \<leftarrow> run_queue_insert t s;
     ASSERT (m \<noteq> NULL);
     Some s
   }"

fun wake_all :: "addr \<Rightarrow> queue \<Rightarrow> 'v tasking \<Rightarrow> 'v tasking option" where
  "wake_all wq [] s = Some s"
| "wake_all wq ((n, t) # q) s = do { s \<leftarrow> wake_one wq n t s; wake_all wq q s }"

definition wake_queue :: "addr \<Rightarrow> 'v tasking \<Rightarrow> 'v tasking option" where
  "wake_queue wq s = do {
     ASSERT (wq \<noteq> NULL);
     let s = s\<lparr>iflag := False\<rparr>;
     w \<leftarrow> wqs s wq;
     s \<leftarrow> wake_all wq (wq_tasks w) s;
     Some (s\<lparr>iflag := True\<rparr>)
   }"

definition destroy_waitqueue :: "addr \<Rightarrow> 'v tasking \<Rightarrow> 'v tasking option" where
  "destroy_waitqueue wq s = do {
     w \<leftarrow> wqs s wq;
     ASSERT (wq_tasks w = []);
     s \<leftarrow> kfr (wq_list w) s;
     kfr wq (s\<lparr>wqs := (wqs s)(wq := None)\<rparr>)
   }"

subsection \<open>Tasklets\<close>

definition PUSH :: "nat \<Rightarrow> nat \<Rightarrow> 'v tasking \<Rightarrow> nat \<times> 'v tasking" where
  "PUSH esp x s = (let esp = sub32 esp 4 in (esp, s\<lparr>stackw := (stackw s)(esp := x)\<rparr>))"

text \<open>The stack of a tasklet that is to start at its entry: argument and return address.\<close>

definition tasklet_stack :: "addr \<Rightarrow> 'v tasking \<Rightarrow> 'v tasking option" where
  "tasklet_stack tk s = do {
     l \<leftarrow> tasklets s tk;
     let top = add32 (tl_stack l) KERNEL_STACK_SIZE;
     s \<leftarrow> upd_task tk (\<lambda>k. k\<lparr>t_esp := top, t_ebp := top, t_eip := tl_entry l\<rparr>) s;
     let (esp, s) = PUSH top (tl_argp l) s;
     let (esp, s) = PUSH esp (tasklet_finish_eip s) s;
     upd_task tk (\<lambda>k. k\<lparr>t_esp := esp\<rparr>) s
   }"

definition tasklet_finish :: "nat \<times> nat \<times> nat \<Rightarrow> 'v tasking \<Rightarrow> 'v tasking option" where
  "tasklet_finish regs s = do {
     let s = s\<lparr>iflag := False\<rparr>;
     l \<leftarrow> tasklets s (current_task s);
     let s = s\<lparr>tasklets := (tasklets s)(current_task s \<mapsto> l\<lparr>tl_scheduled := False\<rparr>)\<rparr>;
     switch_task False regs s
   }"

definition create_tasklet :: "nat \<Rightarrow> bytes option \<Rightarrow> addr \<Rightarrow> 'v tasking \<Rightarrow> (addr \<times> 'v tasking) option" where
  "create_tasklet body namep argp s = do {
     name \<leftarrow> namep;
     (tk, s) \<leftarrow> kma sizeof_tasklet_t s;
     if tk = NULL then Some (NULL, s)
     else do {
       let s = s\<lparr>tasks := (tasks s)(tk \<mapsto> zero_task),
                tasklets := (tasklets s)(tk \<mapsto> \<lparr>tl_stack = NULL, tl_argp = NULL, tl_entry = 0, tl_scheduled = False\<rparr>),
                iflag := False\<rparr>;
       pid \<leftarrow> nextpid s;
       s \<leftarrow> upd_task tk (\<lambda>k. k\<lparr>t_pid := pid\<rparr>) s;
       if pid = 0 then do { s \<leftarrow> free_task tk s; Some (NULL, s\<lparr>iflag := True\<rparr>) }
       else do {
         s \<leftarrow> upd_task tk (\<lambda>k. k\<lparr>t_page_dir := kernel_dir (t_heap s)\<rparr>) s;
         (cmd, s) \<leftarrow> kma (length name + 1) s;
         if cmd = NULL then do { s \<leftarrow> free_task tk s; Some (NULL, s\<lparr>iflag := True\<rparr>) }
         else do {
           s \<leftarrow> upd_task tk (\<lambda>k. k\<lparr>t_cmd := cmd\<rparr>) (s\<lparr>strs := (strs s)(cmd \<mapsto> name)\<rparr>);
           (stack, s) \<leftarrow> kma KERNEL_STACK_SIZE s;
           if stack = NULL then do { s \<leftarrow> kfr cmd s; s \<leftarrow> free_task tk s; Some (NULL, s\<lparr>iflag := True\<rparr>) }
           else do {
             let s = s\<lparr>tasklets := (tasklets s)(tk \<mapsto> \<lparr>tl_stack = stack, tl_argp = argp, tl_entry = body, tl_scheduled = False\<rparr>)\<rparr>;
             s \<leftarrow> tasklet_stack tk s;
             (tn, s) \<leftarrow> proc_tree_insert (tree_root_node s) tk s;
             if tn = NULL then do { s \<leftarrow> kfr stack s; s \<leftarrow> kfr cmd s; s \<leftarrow> free_task tk s; Some (NULL, s\<lparr>iflag := True\<rparr>) }
             else do {
               s \<leftarrow> upd_task tk (\<lambda>k. k\<lparr>t_treenode := tn\<rparr>) s;
               (n, s) \<leftarrow> insert_process tk s;
               if n = NULL then do {
                 s \<leftarrow> proc_tree_detach tn s;
                 s \<leftarrow> proc_tree_delete tn s;
                 s \<leftarrow> kfr stack s; s \<leftarrow> kfr cmd s; s \<leftarrow> free_task tk s;
                 Some (NULL, s\<lparr>iflag := True\<rparr>)
               } else Some (tk, s\<lparr>iflag := True\<rparr>)
             }
           }
         }
       }
     }
   }"

definition schedule_tasklet :: "addr \<Rightarrow> 'v tasking \<Rightarrow> (int \<times> 'v tasking) option" where
  "schedule_tasklet tk s = do {
     let s = s\<lparr>iflag := False\<rparr>;
     ASSERT (tk \<noteq> NULL);
     l \<leftarrow> tasklets s tk;
     if tl_scheduled l then Some (0, s\<lparr>iflag := True\<rparr>)
     else do {
       (n, s) \<leftarrow> run_queue_insert tk s;
       if n = NULL then Some (- ENOMEM, s\<lparr>iflag := True\<rparr>)
       else Some (0, s\<lparr>tasklets := (tasklets s)(tk \<mapsto> l\<lparr>tl_scheduled := True\<rparr>), iflag := True\<rparr>)
     }
   }"

definition reset_tasklet :: "addr \<Rightarrow> 'v tasking \<Rightarrow> 'v tasking option" where
  "reset_tasklet tk s = do {
     l \<leftarrow> tasklets s tk;
     ASSERT (\<not> tl_scheduled l);
     tasklet_stack tk s
   }"

definition reset_and_reschedule :: "addr \<Rightarrow> 'v tasking \<Rightarrow> (int \<times> 'v tasking) option" where
  "reset_and_reschedule tk s = do {
     l \<leftarrow> tasklets s tk;
     if tl_scheduled l then Some (0, s)
     else do { s \<leftarrow> reset_tasklet tk s; schedule_tasklet tk s }
   }"

definition destroy_tasklet :: "addr \<Rightarrow> 'v tasking \<Rightarrow> 'v tasking option" where
  "destroy_tasklet tk s =
    (if tk = NULL then Some s
     else do {
       let s = s\<lparr>iflag := False\<rparr>;
       l \<leftarrow> tasklets s tk;
       ASSERT (\<not> tl_scheduled l);
       k \<leftarrow> tasks s tk;
       s \<leftarrow> proc_tree_detach (t_treenode k) s;
       s \<leftarrow> proc_tree_delete (t_treenode k) s;
       let n = queue_find tk (processes s);
       s \<leftarrow> kfr n (s\<lparr>processes := queue_dequeue n (processes s)\<rparr>);
       s \<leftarrow> kfr (t_cmd k) s;
       s \<leftarrow> kfr (tl_stack l) s;
       s \<leftarrow> free_task tk s;
       Some (s\<lparr>iflag := True\<rparr>)
     })"

subsection \<open>Fork and exit\<close>

type_synonym 'v clone_fn = "addr \<Rightarrow> 'v tasking \<Rightarrow> (addr \<times> 'v tasking) option"
type_synonym 'v close_fn = "addr \<Rightarrow> 'v tasking \<Rightarrow> 'v tasking option"

definition set_file :: "addr \<Rightarrow> nat \<Rightarrow> filep \<Rightarrow> 'v tasking \<Rightarrow> 'v tasking option" where
  "set_file t i f s = upd_task t (\<lambda>k. k\<lparr>t_files := (t_files k)(i := f)\<rparr>) s"

fun clone_files :: "'v clone_fn \<Rightarrow> addr \<Rightarrow> nat list \<Rightarrow> 'v tasking \<Rightarrow> 'v tasking option" where
  "clone_files cf nt [] s = Some s"
| "clone_files cf nt (i # is) s = do {
     k \<leftarrow> tasks s (current_task s);
     s \<leftarrow> (if fp_file (t_files k i) \<noteq> NULL then do {
         (f, s) \<leftarrow> cf (fp_file (t_files k i)) s;
         set_file nt i \<lparr>fp_file = f, fp_off = fp_off (t_files k i)\<rparr> s
       } else do {
         nk \<leftarrow> tasks s nt;
         set_file nt i ((t_files nk i)\<lparr>fp_file := NULL\<rparr>) s
       });
     clone_files cf nt is s
   }"

fun close_files :: "'v close_fn \<Rightarrow> addr \<Rightarrow> addr \<Rightarrow> nat list \<Rightarrow> 'v tasking \<Rightarrow> 'v tasking option" where
  "close_files cl guard t [] s = Some s"
| "close_files cl guard t (i # is) s = do {
     g \<leftarrow> tasks s guard;
     k \<leftarrow> tasks s t;
     s \<leftarrow> (if fp_file (t_files g i) \<noteq> NULL then cl (fp_file (t_files k i)) s else Some s);
     close_files cl guard t is s
   }"

text \<open>The error labels of \<^verbatim>\<open>fork\<close>; each falls through to the next lower one.\<close>

definition free_page_dir :: "addr \<Rightarrow> 'v tasking \<Rightarrow> 'v tasking option" where
  "free_page_dir dir s = do { h \<leftarrow> free_dir kfree dir (t_heap s); Some (s\<lparr>t_heap := h\<rparr>) }"

definition fork_error1 :: "addr \<Rightarrow> addr \<Rightarrow> 'v tasking \<Rightarrow> (int \<times> 'v tasking) option" where
  "fork_error1 dir nt s = do {
     s \<leftarrow> free_page_dir dir s;
     s \<leftarrow> free_task nt s;
     Some (- ENOMEM, s\<lparr>iflag := True\<rparr>)
   }"

definition fork_error2 :: "addr \<Rightarrow> addr \<Rightarrow> 'v tasking \<Rightarrow> (int \<times> 'v tasking) option" where
  "fork_error2 dir nt s = do {
     k \<leftarrow> tasks s nt;
     s \<leftarrow> kfr (t_cwd k) s;
     fork_error1 dir nt s
   }"

definition fork_error3 :: "'v close_fn \<Rightarrow> addr \<Rightarrow> addr \<Rightarrow> 'v tasking \<Rightarrow> (int \<times> 'v tasking) option" where
  "fork_error3 cl dir nt s = do {
     s \<leftarrow> close_files cl (current_task s) nt [0..<MAX_OF] s;
     k \<leftarrow> tasks s nt;
     s \<leftarrow> kfr (t_cmd k) s;
     fork_error2 dir nt s
   }"

definition fork_error4 :: "'v close_fn \<Rightarrow> addr \<Rightarrow> addr \<Rightarrow> addr \<Rightarrow> 'v tasking \<Rightarrow> (int \<times> 'v tasking) option" where
  "fork_error4 cl tn dir nt s = do {
     s \<leftarrow> proc_tree_detach tn s;
     s \<leftarrow> proc_tree_delete tn s;
     fork_error3 cl dir nt s
   }"

definition fork_error5 :: "'v close_fn \<Rightarrow> addr \<Rightarrow> addr \<Rightarrow> addr \<Rightarrow> addr \<Rightarrow> 'v tasking \<Rightarrow> (int \<times> 'v tasking) option" where
  "fork_error5 cl pn tn dir nt s = do {
     s \<leftarrow> kfr pn (s\<lparr>processes := queue_dequeue pn (processes s)\<rparr>);
     fork_error4 cl tn dir nt s
   }"

text \<open>The identity of the child.\<close>

definition fork_ids :: "int \<Rightarrow> task_t \<Rightarrow> addr \<Rightarrow> task_t" where
  "fork_ids pid c dir = zero_task
    \<lparr>t_pid := pid,
     t_gid := (if t_pid c = 1 \<or> t_pid c = t_sid c then pid else t_gid c),
     t_sid := (if t_pid c = 1 then pid else t_sid c),
     t_page_dir := dir, t_brk := t_brk c, t_brk_actual := t_brk_actual c, t_start := t_start c,
     t_nice := t_nice c, t_euid := t_euid c, t_ruid := t_ruid c, t_suid := t_suid c,
     t_egid := t_egid c, t_rgid := t_rgid c, t_sgid := t_sgid c\<rparr>"

text \<open>The part of \<^verbatim>\<open>fork\<close> that enters the new task into the tree, the table and the run queue.\<close>

definition fork_enter :: "'v close_fn \<Rightarrow> addr \<Rightarrow> addr \<Rightarrow> nat \<times> nat \<times> nat \<Rightarrow> 'v tasking \<Rightarrow> (int \<times> 'v tasking) option" where
  "fork_enter cl dir nt regs s = do {
     c \<leftarrow> tasks s (current_task s);
     (tn, s) \<leftarrow> proc_tree_insert (t_treenode c) nt s;
     if tn = NULL then fork_error3 cl dir nt s
     else do {
       s \<leftarrow> upd_task nt (\<lambda>k. k\<lparr>t_treenode := tn\<rparr>) s;
       (pn, s) \<leftarrow> insert_process nt s;
       if pn = NULL then fork_error4 cl tn dir nt s
       else do {
         (n, s) \<leftarrow> run_queue_insert nt s;
         if n = NULL then fork_error5 cl pn tn dir nt s
         else do {
           let (esp, ebp, eip) = regs;
           if eip \<noteq> 0x12345 then do {
             s \<leftarrow> upd_task nt (\<lambda>k. k\<lparr>t_esp := esp, t_ebp := ebp, t_eip := eip\<rparr>) s;
             k \<leftarrow> tasks s nt;
             Some (t_pid k, s\<lparr>iflag := True\<rparr>)
           } else Some (0, s)
         }
       }
     }
   }"

definition fork :: "'v clone_fn \<Rightarrow> 'v close_fn \<Rightarrow> nat \<times> nat \<times> nat \<Rightarrow> 'v tasking \<Rightarrow> (int \<times> 'v tasking) option" where
  "fork cf cl regs s = do {
     let s = s\<lparr>iflag := False\<rparr>;
     (dir, h) \<leftarrow> clone_directory kmemalign (current_dir (t_heap s)) (t_heap s);
     let s = s\<lparr>t_heap := h\<rparr>;
     (nt, s) \<leftarrow> kma sizeof_task_t s;
     if nt = NULL then do { s \<leftarrow> free_page_dir dir s; Some (- ENOMEM, s) }
     else do {
       let s = s\<lparr>tasks := (tasks s)(nt \<mapsto> zero_task)\<rparr>;
       pid \<leftarrow> nextpid s;
       if pid = 0 then do {
         s \<leftarrow> free_page_dir dir s;
         s \<leftarrow> free_task nt s;
         Some (- EAGAIN, s\<lparr>iflag := True\<rparr>)
       } else do {
         c \<leftarrow> tasks s (current_task s);
         let s = s\<lparr>tasks := (tasks s)(nt \<mapsto> fork_ids pid c dir)\<rparr>;
         cwd \<leftarrow> strs s (t_cwd c);
         (p, s) \<leftarrow> kma (length cwd + 1) s;
         s \<leftarrow> upd_task nt (\<lambda>k. k\<lparr>t_cwd := p\<rparr>) s;
         if p = NULL then fork_error1 dir nt s
         else do {
           cmd \<leftarrow> strs s (t_cmd c);
           (q, s) \<leftarrow> kma (length cmd + 1) s;
           s \<leftarrow> upd_task nt (\<lambda>k. k\<lparr>t_cmd := q\<rparr>) s;
           if q = NULL then fork_error2 dir nt s
           else do {
             let s = s\<lparr>strs := (strs s)(p \<mapsto> cwd, q \<mapsto> cmd)\<rparr>;
             s \<leftarrow> clone_files cf nt [0..<MAX_OF] s;
             fork_enter cl dir nt regs s
           }
         }
       }
     }
   }"

definition exit_task :: "'v close_fn \<Rightarrow> int \<Rightarrow> 'v tasking \<Rightarrow> 'v tasking option" where
  "exit_task cl status s = do {
     let s = s\<lparr>iflag := False\<rparr>;
     let cache = current_task s;
     k \<leftarrow> tasks s cache;
     ASSERT (t_pid k \<noteq> 1);
     s \<leftarrow> upd_task cache (\<lambda>k. k\<lparr>t_exit := status\<rparr>) s;
     (t, s) \<leftarrow> get_ready_task s;
     let s = s\<lparr>current_task := t\<rparr>;
     s \<leftarrow> proc_tree_inherit (tree_root_node s) (t_treenode k) s;
     nk \<leftarrow> tasks s t;
     let s = set_kernel_stack (t_esp nk) (s\<lparr>t_heap := (t_heap s)\<lparr>current_dir := t_page_dir nk\<rparr>\<rparr>);
     d \<leftarrow> page_dirs (t_heap s) (current_dir (t_heap s));
     let s = s\<lparr>t_heap := (t_heap s)\<lparr>cr3 := physical_address d\<rparr>\<rparr>;
     s \<leftarrow> close_files cl cache cache [0..<MAX_OF] s;
     s \<leftarrow> free_page_dir (t_page_dir k) s;
     s \<leftarrow> kfr (t_cwd k) s;
     context_switch s
   }"

subsection \<open>Process groups, sessions and priorities\<close>

definition getpid :: "'v tasking \<Rightarrow> int option" where
  "getpid s = map_option t_pid (tasks s (current_task s))"

text \<open>The walk of \<^verbatim>\<open>setpgid\<close> from a node of the process tree towards the root.\<close>

partial_function (option) below_node :: "addr \<Rightarrow> addr \<Rightarrow> 'v tasking \<Rightarrow> bool option" where
  "below_node tn anc s =
    (if tn = NULL then Some False
     else if tn = anc then Some True
     else do { nd \<leftarrow> tnodes s tn; below_node (tnode_parent nd) anc s })"

declare below_node.simps [code]

fun find_gid :: "int \<Rightarrow> queue \<Rightarrow> 'v tasking \<Rightarrow> addr option" where
  "find_gid pgid [] s = Some NULL"
| "find_gid pgid ((n, t) # q) s = do {
     k \<leftarrow> tasks s t;
     if t_gid k = pgid then Some t else find_gid pgid q s
   }"

definition set_gid :: "addr \<Rightarrow> int \<Rightarrow> 'v tasking \<Rightarrow> (int \<times> 'v tasking) option" where
  "set_gid t pgid s = do { s \<leftarrow> upd_task t (\<lambda>k. k\<lparr>t_gid := pgid\<rparr>) s; Some (pgid, s) }"

text \<open>\<^verbatim>\<open>setpgid\<close> from the point on where the task is known.\<close>

definition setpgid_of :: "addr \<Rightarrow> int \<Rightarrow> 'v tasking \<Rightarrow> (int \<times> 'v tasking) option" where
  "setpgid_of t pgid s = do {
     k \<leftarrow> tasks s t;
     c \<leftarrow> tasks s (current_task s);
     if t_pid k = t_sid k then Some (- EPERM, s)
     else if t_sid k \<noteq> t_sid c then Some (- EPERM, s)
     else if pgid = 0 \<or> pgid = t_pid k then set_gid t (t_pid k) s
     else do {
       g \<leftarrow> get_task pgid s;
       g \<leftarrow> (if g = NULL then find_gid pgid (processes s) s else Some g);
       if g = NULL then Some (- ESRCH, s)
       else do {
         gk \<leftarrow> tasks s g;
         if t_gid gk \<noteq> pgid then Some (- EPERM, s)
         else if t_sid gk \<noteq> t_sid k then Some (- EPERM, s)
         else set_gid t pgid s
       }
     }
   }"

definition setpgid :: "int \<Rightarrow> int \<Rightarrow> 'v tasking \<Rightarrow> (int \<times> 'v tasking) option" where
  "setpgid pid pgid s =
    (if pid < 0 \<or> pgid < 0 then Some (- EINVAL, s)
     else do {
       let s = s\<lparr>iflag := False\<rparr>;
       if pid = 0 then setpgid_of (current_task s) pgid s
       else do {
         t \<leftarrow> get_task pid s;
         if t = NULL then Some (- ESRCH, s)
         else do {
           k \<leftarrow> tasks s t;
           c \<leftarrow> tasks s (current_task s);
           below \<leftarrow> below_node (t_treenode k) (t_treenode c) s;
           if \<not> below then Some (- ESRCH, s) else setpgid_of t pgid s
         }
       }
     })"

definition getpgid :: "int \<Rightarrow> 'v tasking \<Rightarrow> int option" where
  "getpgid pid s =
    (if pid < 0 then Some (- EINVAL)
     else if pid = 0 then map_option t_gid (tasks s (current_task s))
     else do {
       t \<leftarrow> get_task pid s;
       if t = NULL then Some (- ESRCH) else map_option t_gid (tasks s t)
     })"

definition setsid :: "'v tasking \<Rightarrow> (int \<times> 'v tasking) option" where
  "setsid s = do {
     c \<leftarrow> tasks s (current_task s);
     if t_gid c = t_pid c then Some (- EPERM, s)
     else do {
       let s = s\<lparr>iflag := False\<rparr>;
       s \<leftarrow> proc_tree_detach (t_treenode c) s;
       s \<leftarrow> proc_tree_insert_direct (tree_root_node s) (t_treenode c) s;
       s \<leftarrow> upd_task (current_task s) (\<lambda>k. k\<lparr>t_gid := t_pid k, t_sid := t_pid k\<rparr>) s;
       Some (t_pid c, s)
     }
   }"

definition getsid :: "'v tasking \<Rightarrow> int option" where
  "getsid s = map_option t_sid (tasks s (current_task s))"

text \<open>The sum is one of 32-bit signed integers; its overflow is undefined.\<close>

definition nice :: "int \<Rightarrow> 'v tasking \<Rightarrow> (int \<times> 'v tasking) option" where
  "nice inc s = do {
     c \<leftarrow> tasks s (current_task s);
     if inc < 0 \<and> t_euid c \<noteq> 0 then Some (- 1, s)
     else do {
       let v = t_nice c + inc;
       ASSERT (- (2 ^ 31) \<le> v \<and> v < 2 ^ 31);
       let v = (if v > 19 then 19 else if v < - 20 then - 20 else v);
       s \<leftarrow> upd_task (current_task s) (\<lambda>k. k\<lparr>t_nice := v\<rparr>) s;
       Some (v, s)
     }
   }"

subsection \<open>User and group identities\<close>

text \<open>
  The checks of \<^verbatim>\<open>setresuid\<close> and \<^verbatim>\<open>setresgid\<close>, which are the same: each identity is compared with the
  three as they are then, and those before it have been replaced already.
\<close>

definition one_of :: "nat \<Rightarrow> nat \<times> nat \<times> nat \<Rightarrow> bool" where
  "one_of x ids = (case ids of (r, e, v) \<Rightarrow> x = r \<or> x = e \<or> x = v)"

definition setres :: "nat \<times> nat \<times> nat \<Rightarrow> nat \<times> nat \<times> nat \<Rightarrow> (nat \<times> nat \<times> nat) option" where
  "setres new old =
    (case (new, old) of ((nr, ne, nv), (r, e, v)) \<Rightarrow>
      if e \<noteq> 0 then
        if one_of nr (r, e, v) then
          if one_of ne (nr, e, v) then
            if one_of nv (nr, ne, v) then Some (nr, ne, nv) else None
          else None
        else None
      else Some (nr, ne, nv))"

definition setresuid :: "nat \<Rightarrow> nat \<Rightarrow> nat \<Rightarrow> 'v tasking \<Rightarrow> (int \<times> 'v tasking) option" where
  "setresuid r e v s = do {
     c \<leftarrow> tasks s (current_task s);
     case setres (r, e, v) (t_ruid c, t_euid c, t_suid c) of
       None \<Rightarrow> Some (- EPERM, s)
     | Some (r, e, v) \<Rightarrow> do {
         s \<leftarrow> upd_task (current_task s) (\<lambda>k. k\<lparr>t_ruid := r, t_euid := e, t_suid := v\<rparr>) s;
         Some (0, s)
       }
   }"

definition getresuid :: "'v tasking \<Rightarrow> (nat \<times> nat \<times> nat) option" where
  "getresuid s = map_option (\<lambda>k. (t_ruid k, t_euid k, t_suid k)) (tasks s (current_task s))"

definition setresgid :: "nat \<Rightarrow> nat \<Rightarrow> nat \<Rightarrow> 'v tasking \<Rightarrow> (int \<times> 'v tasking) option" where
  "setresgid r e v s = do {
     c \<leftarrow> tasks s (current_task s);
     case setres (r, e, v) (t_rgid c, t_egid c, t_sgid c) of
       None \<Rightarrow> Some (- EPERM, s)
     | Some (r, e, v) \<Rightarrow> do {
         s \<leftarrow> upd_task (current_task s) (\<lambda>k. k\<lparr>t_rgid := r, t_egid := e, t_sgid := v\<rparr>) s;
         Some (0, s)
       }
   }"

definition getresgid :: "'v tasking \<Rightarrow> (nat \<times> nat \<times> nat) option" where
  "getresgid s = map_option (\<lambda>k. (t_rgid k, t_egid k, t_sgid k)) (tasks s (current_task s))"

subsection \<open>Program break and working directory\<close>

definition map_user_page :: "nat \<Rightarrow> bool \<Rightarrow> 'v tasking \<Rightarrow> 'v tasking option" where
  "map_user_page a kern s = do {
     (pp, h) \<leftarrow> get_page kmemalign a True (current_dir (t_heap s)) (t_heap s);
     pp \<leftarrow> pp;
     h \<leftarrow> alloc_frame pp kern True h;
     Some (s\<lparr>t_heap := h\<rparr>)
   }"

partial_function (option) sbrk_loop :: "nat \<Rightarrow> 'v tasking \<Rightarrow> 'v tasking option" where
  "sbrk_loop inc s = do {
     c \<leftarrow> tasks s (current_task s);
     if t_brk_actual c < add32 (t_brk c) inc then do {
       s \<leftarrow> upd_task (current_task s) (\<lambda>k. k\<lparr>t_brk_actual := add32 (t_brk_actual k) 0x1000\<rparr>) s;
       s \<leftarrow> map_user_page (add32 (t_brk_actual c) 0x1000) False s;
       sbrk_loop inc s
     } else Some s
   }"

declare sbrk_loop.simps [code]

definition sbrk :: "nat \<Rightarrow> 'v tasking \<Rightarrow> (nat \<times> 'v tasking) option" where
  "sbrk inc s = do {
     c \<leftarrow> tasks s (current_task s);
     s \<leftarrow> sbrk_loop inc s;
     s \<leftarrow> upd_task (current_task s) (\<lambda>k. k\<lparr>t_brk := add32 (t_brk k) inc\<rparr>) s;
     Some (t_brk c, s)
   }"

definition chdir :: "(bytes \<Rightarrow> bytes \<Rightarrow> 'v tasking \<Rightarrow> (addr \<times> 'v tasking) option) \<Rightarrow> bytes option \<Rightarrow> 'v tasking \<Rightarrow> (int \<times> 'v tasking) option" where
  "chdir canonicalize path s =
    (case path of None \<Rightarrow> Some (- EFAULT, s)
     | Some path \<Rightarrow> do {
         c \<leftarrow> tasks s (current_task s);
         cwd \<leftarrow> strs s (t_cwd c);
         (new_cwd, s) \<leftarrow> canonicalize cwd path s;
         s \<leftarrow> kfr (t_cwd c) s;
         s \<leftarrow> upd_task (current_task s) (\<lambda>k. k\<lparr>t_cwd := new_cwd\<rparr>) s;
         Some (0, s)
       })"

subsection \<open>Start-up\<close>

definition KERNEL_STACK_TOP :: nat where "KERNEL_STACK_TOP = 0xF0000000"
definition USER_STACK_BOTTOM :: nat where "USER_STACK_BOTTOM = 0x10000000"
definition USER_STACK_TOP :: nat where "USER_STACK_TOP = 0x10004000"

text \<open>The three loops of \<^verbatim>\<open>move_stack\<close>: frames for the new stack, the copy, the saved stack pointers.\<close>

partial_function (option) stack_frames :: "nat \<Rightarrow> nat \<Rightarrow> 'v tasking \<Rightarrow> 'v tasking option" where
  "stack_frames i low s =
    (if i \<ge> low then do { s \<leftarrow> map_user_page i True s; stack_frames (sub32 i PAGE_SIZE) low s } else Some s)"

definition copy_words :: "addr \<Rightarrow> addr \<Rightarrow> nat \<Rightarrow> (addr \<Rightarrow> nat) \<Rightarrow> addr \<Rightarrow> nat" where
  "copy_words dst src n m = (\<lambda>a. if dst \<le> a \<and> a < dst + n then m (src + (a - dst)) else m a)"

partial_function (option) fix_stack :: "nat \<Rightarrow> nat \<Rightarrow> nat \<times> nat \<times> nat \<Rightarrow> (addr \<Rightarrow> nat) \<Rightarrow> (addr \<Rightarrow> nat) option" where
  "fix_stack i low r m =
    (if i > low then
       (case r of (old_esp, old_start, offset) \<Rightarrow>
         fix_stack (sub32 i 4) low r
           (if old_esp < m i \<and> m i < old_start then m(i := add32 (m i) offset) else m))
     else Some m)"

declare stack_frames.simps [code] fix_stack.simps [code]

definition move_stack :: "addr \<Rightarrow> addr \<Rightarrow> nat \<Rightarrow> nat \<times> nat \<Rightarrow> 'v tasking \<Rightarrow> ((nat \<times> nat) \<times> 'v tasking) option" where
  "move_stack new_start old_start sz regs s = do {
     let (old_esp, old_ebp) = regs;
     s \<leftarrow> stack_frames (sub32 new_start 4) (sub32 new_start sz) s;
     let offset = sub32 new_start old_start;
     let new_esp = add32 old_esp offset;
     let new_ebp = add32 old_ebp offset;
     let m = copy_words new_esp old_esp (sub32 old_start old_esp) (stackw s);
     m \<leftarrow> fix_stack (sub32 new_start 4) (sub32 new_start sz) (old_esp, old_start, offset) m;
     Some ((new_esp, new_ebp), s\<lparr>stackw := m\<rparr>)
   }"

fun user_stack :: "nat list \<Rightarrow> 'v tasking \<Rightarrow> 'v tasking option" where
  "user_stack [] s = Some s"
| "user_stack (a # as) s = do { s \<leftarrow> map_user_page a False s; user_stack as s }"

definition kma_assert :: "nat \<Rightarrow> 'v tasking \<Rightarrow> (addr \<times> 'v tasking) option" where
  "kma_assert n s = do { (p, s) \<leftarrow> kma n s; ASSERT (p \<noteq> NULL); Some (p, s) }"

text \<open>\<^verbatim>\<open>memset\<close> clears the task of the idle tasklet only; \<open>junk\<close> is what the rest of its memory holds.\<close>

definition create_kidle :: "nat \<Rightarrow> tasklet_t \<Rightarrow> 'v tasking \<Rightarrow> 'v tasking option" where
  "create_kidle entry junk s = do {
     (tk, s) \<leftarrow> kma_assert sizeof_tasklet_t s;
     (cmd, s) \<leftarrow> kma_assert 8 s;
     (stack, s) \<leftarrow> kma_assert KERNEL_STACK_SIZE s;
     let top = add32 stack KERNEL_STACK_SIZE;
     Some (s\<lparr>kidle := tk,
       strs := (strs s)(cmd \<mapsto> map (word_of_nat \<circ> of_char) ''[kidle]''),
       tasklets := (tasklets s)(tk \<mapsto> junk\<lparr>tl_stack := stack\<rparr>),
       tasks := (tasks s)(tk \<mapsto> zero_task\<lparr>t_pid := - 1, t_page_dir := kernel_dir (t_heap s), t_cmd := cmd,
                                        t_esp := top, t_ebp := top, t_eip := entry\<rparr>)\<rparr>)
   }"

definition init_tasking :: "addr \<Rightarrow> nat \<times> nat \<Rightarrow> nat \<Rightarrow> tasklet_t \<Rightarrow> 'v tasking \<Rightarrow> 'v tasking option" where
  "init_tasking ebp regs kidle_entry junk s = do {
     let s = s\<lparr>iflag := False\<rparr>;
     (_, s) \<leftarrow> move_stack KERNEL_STACK_TOP ebp KERNEL_STACK_SIZE regs s;
     (_, s) \<leftarrow> kma_assert sizeof_list_t s;
     (_, s) \<leftarrow> kma_assert sizeof_list_t s;
     (_, s) \<leftarrow> kma_assert sizeof_tree_t s;
     let s = s\<lparr>run_queue := [], processes := [], tree_root_node := NULL\<rparr>;
     (init, s) \<leftarrow> kma_assert sizeof_task_t s;
     pid \<leftarrow> nextpid s;
     ASSERT (pid \<noteq> 0);
     (cwd, s) \<leftarrow> kma_assert 2 s;
     (cmd, s) \<leftarrow> kma_assert 7 s;
     let s = s\<lparr>strs := (strs s)(cwd \<mapsto> map (word_of_nat \<circ> of_char) ''/'', cmd \<mapsto> map (word_of_nat \<circ> of_char) ''[init]''),
       tasks := (tasks s)(init \<mapsto> zero_task\<lparr>t_pid := pid, t_gid := pid, t_sid := pid,
                   t_page_dir := current_dir (t_heap s), t_cwd := cwd, t_cmd := cmd\<rparr>)\<rparr>;
     s \<leftarrow> create_kidle kidle_entry junk s;
     s \<leftarrow> user_stack (map (\<lambda>i. USER_STACK_BOTTOM + i * PAGE_SIZE) [0..<(USER_STACK_TOP - USER_STACK_BOTTOM) div PAGE_SIZE]) s;
     (tn, s) \<leftarrow> kma_assert sizeof_tree_node_t s;
     (c, s) \<leftarrow> kma_assert sizeof_list_t s;
     let s = s\<lparr>tree_root_node := tn, tnodes := (tnodes s)(tn \<mapsto> \<lparr>tnode_task = init, tnode_children = c, tnode_kids = [],
                tnode_parent = NULL, tnode_owned = True\<rparr>)\<rparr>;
     s \<leftarrow> upd_task init (\<lambda>k. k\<lparr>t_treenode := tn\<rparr>) s;
     (n, q, h) \<leftarrow> queue_insert init (processes s) (t_heap s);
     ASSERT (n \<noteq> NULL);
     Some (s\<lparr>t_heap := h, processes := q, current_task := init, iflag := True\<rparr>)
   }"

end
