(* ===== verification/Sched.thy ===== *)
theory Sched
  imports Task
begin

section \<open>The scheduler\<close>

text \<open>
  What the scheduler keeps. \<open>ready\<close> and \<open>waiting\<close> are the tasks of the run queue and of a wait queue in
  order; \<open>sched_inv\<close> says where a task can be, and \<open>sched_step\<close> is what can happen to the queues:
  the timer, a task that sleeps, a wake-up, and the tasklet operations. The effect of each
  operation on the queues is a lemma, and the invariant follows from these effects.
\<close>

subsection \<open>Queues of tasks\<close>

definition ready :: "'v tasking \<Rightarrow> addr list" where
  "ready s = map snd (run_queue s)"

definition waiting :: "addr \<Rightarrow> 'v tasking \<Rightarrow> addr list" where
  "waiting wq s = (case wqs s wq of None \<Rightarrow> [] | Some w \<Rightarrow> map snd (wq_tasks w))"

definition asleep_on :: "addr \<Rightarrow> task_t \<Rightarrow> bool" where
  "asleep_on wq k \<longleftrightarrow> bit (t_sleep_flags k) 0 \<and> t_wq k = wq"

text \<open>
  \<open>pool_inv r s\<close>: \<open>r\<close> are the tasks that run or are ready. None of them is there twice or in a wait queue,
  nor is the idle task; a task is in a wait queue exactly if its sleep flag is set and it points to
  this queue; a tasklet other than the idle task is scheduled exactly if it is somewhere.
\<close>

definition queues_ok :: "addr list \<Rightarrow> 'v tasking \<Rightarrow> bool" where
  "queues_ok r s \<longleftrightarrow> distinct r \<and> kidle s \<notin> set r
     \<and> (\<forall>wq. distinct (waiting wq s) \<and> kidle s \<notin> set (waiting wq s) \<and> set r \<inter> set (waiting wq s) = {})"

definition tasks_ok :: "addr list \<Rightarrow> 'v tasking \<Rightarrow> bool" where
  "tasks_ok r s \<longleftrightarrow> tasks s NULL = None \<and> kidle s \<in> dom (tasks s) \<and> set r \<subseteq> dom (tasks s)
     \<and> (\<forall>wq. set (waiting wq s) \<subseteq> dom (tasks s))
     \<and> (\<forall>t k. tasks s t = Some k \<longrightarrow> (t_pid k = - 1 \<longleftrightarrow> t = kidle s) \<and> (\<forall>wq. t \<in> set (waiting wq s) \<longleftrightarrow> asleep_on wq k))"

definition tasklets_ok :: "addr list \<Rightarrow> 'v tasking \<Rightarrow> bool" where
  "tasklets_ok r s \<longleftrightarrow> (\<forall>t l. tasklets s t = Some l \<longrightarrow> t \<noteq> kidle s
     \<longrightarrow> (tl_scheduled l \<longleftrightarrow> t \<in> set r \<or> (\<exists>wq. t \<in> set (waiting wq s))))"

definition pool_inv :: "addr list \<Rightarrow> 'v tasking \<Rightarrow> bool" where
  "pool_inv r s \<longleftrightarrow> queues_ok r s \<and> tasks_ok r s \<and> tasklets_ok r s"

definition runnable :: "'v tasking \<Rightarrow> addr list" where
  "runnable s = ready s @ (if current_task s = kidle s then [] else [current_task s])"

definition sched_inv :: "'v tasking \<Rightarrow> bool" where
  "sched_inv s \<longleftrightarrow> pool_inv (runnable s) s"

lemmas inv_defs = pool_inv_def queues_ok_def tasks_ok_def tasklets_ok_def

inductive sched_step :: "'v tasking \<Rightarrow> 'v tasking \<Rightarrow> bool" where
  tick: "switch_task True regs s = Some s' \<Longrightarrow> sched_step s s'"
| sleep: "current_task s \<noteq> kidle s \<Longrightarrow> sleep_thread wq flags regs s = Some s' \<Longrightarrow> sched_step s s'"
| wake: "wake_queue wq s = Some s' \<Longrightarrow> sched_step s s'"
| schedule: "tk \<noteq> kidle s \<Longrightarrow> tk \<in> dom (tasks s) \<Longrightarrow> schedule_tasklet tk s = Some (r, s') \<Longrightarrow> sched_step s s'"
| reset: "reset_tasklet tk s = Some s' \<Longrightarrow> sched_step s s'"
| finish: "current_task s \<noteq> kidle s \<Longrightarrow> tasklet_finish regs s = Some s' \<Longrightarrow> sched_step s s'"

subsection \<open>The effect of each operation\<close>

lemma kma_effect: "kma n s = Some (p, s') \<Longrightarrow> \<exists>h. s' = s\<lparr>t_heap := h\<rparr>"
  by (auto simp: kma_def split: bind_splits)

lemma kfr_effect: "kfr p s = Some s' \<Longrightarrow> \<exists>h. s' = s\<lparr>t_heap := h\<rparr>"
  by (auto simp: kfr_def split: bind_splits)

lemma upd_task_effect: "upd_task t f s = Some s' \<Longrightarrow> \<exists>k. tasks s t = Some k \<and> s' = s\<lparr>tasks := (tasks s)(t \<mapsto> f k)\<rparr>"
  by (auto simp: upd_task_def split: option.splits)

lemma queue_insert_effect:
  "queue_insert d q h = Some (n, q', h') \<Longrightarrow> n \<noteq> NULL \<Longrightarrow> q' = q @ [(n, d)]"
  by (auto simp: queue_insert_def split: bind_splits if_splits)

lemma run_queue_insert_effect:
  assumes "run_queue_insert t s = Some (n, s')" "n \<noteq> NULL"
  shows "\<exists>h. s' = s\<lparr>t_heap := h, run_queue := run_queue s @ [(n, t)]\<rparr>"
  using assms queue_insert_effect [of t "run_queue s" "t_heap s" n] by (auto simp: run_queue_insert_def split: bind_splits)

lemma get_ready_task_effect:
  assumes "get_ready_task s = Some (t, s')"
  shows "\<exists>h. s' = s\<lparr>run_queue := tl (run_queue s), t_heap := h\<rparr>" "t = (if ready s = [] then kidle s else hd (ready s))"
proof -
  have "(\<exists>h. s' = s\<lparr>run_queue := tl (run_queue s), t_heap := h\<rparr>) \<and> t = (if ready s = [] then kidle s else hd (ready s))"
  proof (cases "run_queue s")
    case Nil
    then have s': "s' = s" and t: "t = kidle s" using assms by (auto simp: get_ready_task_def)
    have "s = s\<lparr>run_queue := tl (run_queue s), t_heap := t_heap s\<rparr>" using Nil by simp
    then have "\<exists>h. s' = s\<lparr>run_queue := tl (run_queue s), t_heap := h\<rparr>" unfolding s' by blast
    then show ?thesis using Nil t by (simp add: ready_def)
  next
    case (Cons x q)
    then obtain n where x: "x = (n, t)" and "kfr n (s\<lparr>run_queue := q\<rparr>) = Some s'"
      using assms by (cases x) (auto simp: get_ready_task_def split: bind_splits)
    from kfr_effect [OF this(2)] obtain h where "s' = s\<lparr>run_queue := tl (run_queue s), t_heap := h\<rparr>"
      using Cons by auto
    then show ?thesis using Cons x by (auto simp: ready_def)
  qed
  then show "\<exists>h. s' = s\<lparr>run_queue := tl (run_queue s), t_heap := h\<rparr>" "t = (if ready s = [] then kidle s else hd (ready s))"
    by simp_all
qed

text \<open>What a switch does: \<open>next_ready\<close> is the run queue the next task is taken from.\<close>

definition next_ready :: "bool \<Rightarrow> 'v tasking \<Rightarrow> addr list" where
  "next_ready resched s = ready s @ (if resched \<and> map_option t_pid (tasks s (current_task s)) \<noteq> Some (- 1) then [current_task s] else [])"

definition switched :: "bool \<Rightarrow> 'v tasking \<Rightarrow> 'v tasking \<Rightarrow> bool" where
  "switched resched s s' \<longleftrightarrow> ready s' = tl (next_ready resched s)
     \<and> current_task s' = (if next_ready resched s = [] then kidle s else hd (next_ready resched s))
     \<and> wqs s' = wqs s \<and> kidle s' = kidle s \<and> tasklets s' = tasklets s
     \<and> (\<exists>k regs. tasks s (current_task s) = Some k
          \<and> tasks s' = (tasks s)(current_task s \<mapsto> (case regs of (esp, ebp, eip) \<Rightarrow> k\<lparr>t_eip := eip, t_esp := esp, t_ebp := ebp\<rparr>)))"

lemma context_switch_effect:
  assumes "context_switch s = Some s'"
  shows "\<exists>h c. s' = s\<lparr>cpu := c, t_heap := h\<rparr>"
  using assms unfolding context_switch_def by (auto split: bind_splits)

lemma put_back_effect:
  assumes "put_back resched s = Some s'"
  shows "\<exists>h q. s' = s\<lparr>t_heap := h, run_queue := q\<rparr> \<and> map snd q = next_ready resched s"
proof -
  from assms obtain k where k: "tasks s (current_task s) = Some k" by (auto simp: put_back_def split: bind_splits)
  show ?thesis
  proof (cases "resched \<and> t_pid k \<noteq> - 1")
    case True
    with assms k obtain n where "run_queue_insert (current_task s) s = Some (n, s')" "n \<noteq> NULL"
      by (auto simp: put_back_def split: bind_splits if_splits)
    from run_queue_insert_effect [OF this] obtain h where "s' = s\<lparr>t_heap := h, run_queue := run_queue s @ [(n, current_task s)]\<rparr>" ..
    moreover have "map snd (run_queue s @ [(n, current_task s)]) = next_ready resched s"
      using True k by (simp add: next_ready_def ready_def)
    ultimately show ?thesis by blast
  next
    case False
    then have "s' = s\<lparr>t_heap := t_heap s, run_queue := run_queue s\<rparr>" using assms k by (auto simp: put_back_def)
    moreover have "map snd (run_queue s) = next_ready resched s" using False k by (auto simp: next_ready_def ready_def)
    ultimately show ?thesis by blast
  qed
qed

lemma switch_task_effect:
  assumes "switch_task resched regs s = Some s'" "current_task s \<noteq> NULL"
  shows "switched resched s s'"
proof -
  obtain esp ebp eip where regs: "regs = (esp, ebp, eip)" by (cases regs)
  from assms obtain s1 s2 t s3 nk where
    s1: "upd_task (current_task s) (\<lambda>k. k\<lparr>t_eip := eip, t_esp := esp, t_ebp := ebp\<rparr>) s = Some s1"
    and s2: "put_back resched s1 = Some s2"
    and s3: "get_ready_task s2 = Some (t, s3)"
    and nk: "tasks s3 t = Some nk"
    and s': "context_switch (set_kernel_stack (t_esp nk) (s3\<lparr>current_task := t, t_heap := (t_heap s3)\<lparr>current_dir := t_page_dir nk\<rparr>\<rparr>)) = Some s'"
    by (auto simp: switch_task_def regs Let_def split: bind_splits)
  obtain k0 where k0: "tasks s (current_task s) = Some k0"
    "s1 = s\<lparr>tasks := (tasks s)(current_task s \<mapsto> k0\<lparr>t_eip := eip, t_esp := esp, t_ebp := ebp\<rparr>)\<rparr>"
    using upd_task_effect [OF s1] by auto
  obtain h q where q: "s2 = s1\<lparr>t_heap := h, run_queue := q\<rparr>" "map snd q = next_ready resched s1"
    using put_back_effect [OF s2] by auto
  have "next_ready resched s1 = next_ready resched s" using k0 by (simp add: next_ready_def ready_def)
  note q = q(1) q(2) [unfolded this]
  have r2: "ready s2 = next_ready resched s" using q by (simp add: ready_def)
  obtain h3 where s3': "s3 = s2\<lparr>run_queue := tl (run_queue s2), t_heap := h3\<rparr>"
    using get_ready_task_effect(1) [OF s3] by auto
  obtain h4 c where s4: "s' = set_kernel_stack (t_esp nk) (s3\<lparr>current_task := t, t_heap := (t_heap s3)\<lparr>current_dir := t_page_dir nk\<rparr>\<rparr>)\<lparr>cpu := c, t_heap := h4\<rparr>"
    using context_switch_effect [OF s'] by auto
  have "ready s' = tl (next_ready resched s)" using s4 s3' r2 by (simp add: set_kernel_stack_def ready_def map_tl)
  moreover have "current_task s' = (if next_ready resched s = [] then kidle s else hd (next_ready resched s))"
    using s4 get_ready_task_effect(2) [OF s3] r2 q k0 by (simp add: set_kernel_stack_def)
  moreover have "tasks s' = (tasks s)(current_task s \<mapsto> (case regs of (esp, ebp, eip) \<Rightarrow> k0\<lparr>t_eip := eip, t_esp := esp, t_ebp := ebp\<rparr>))"
    using s4 s3' q k0 regs by (simp add: set_kernel_stack_def)
  moreover have "wqs s' = wqs s" "kidle s' = kidle s" "tasklets s' = tasklets s"
    using s4 s3' q k0 by (simp_all add: set_kernel_stack_def)
  ultimately show ?thesis using k0(1) unfolding switched_def by blast
qed

text \<open>Sleeping, and waking all tasks of a queue.\<close>

lemma sleep_thread_effect:
  assumes "sleep_thread wq flags regs s = Some s'" "current_task s \<noteq> NULL"
  shows "\<exists>k w n h. tasks s (current_task s) = Some k \<and> wqs s wq = Some w \<and> wq \<noteq> NULL
    \<and> switched False (s\<lparr>iflag := False,
         tasks := (tasks s)(current_task s \<mapsto> k\<lparr>t_sleep_flags := SLEEP_ASLEEP OR flags, t_wq := wq\<rparr>), t_heap := h,
         wqs := (wqs s)(wq \<mapsto> w\<lparr>wq_tasks := wq_tasks w @ [(n, current_task s)]\<rparr>)\<rparr>) s'"
proof -
  let ?s0 = "s\<lparr>iflag := False\<rparr>"
  from assms(1) obtain s1 w n q h where "wq \<noteq> NULL"
    and s1: "upd_task (current_task s) (\<lambda>k. k\<lparr>t_sleep_flags := SLEEP_ASLEEP OR flags, t_wq := wq\<rparr>) ?s0 = Some s1"
    and w: "wqs s1 wq = Some w" and q: "queue_insert (current_task s1) (wq_tasks w) (t_heap s1) = Some (n, q, h)" "n \<noteq> NULL"
    and s': "switch_task False regs (s1\<lparr>t_heap := h, wqs := (wqs s1)(wq \<mapsto> w\<lparr>wq_tasks := q\<rparr>)\<rparr>) = Some s'"
    by (auto simp: sleep_thread_def Let_def split: bind_splits if_splits)
  from upd_task_effect [OF s1] obtain k where "tasks s (current_task s) = Some k"
    "s1 = s\<lparr>iflag := False, tasks := (tasks s)(current_task s \<mapsto> k\<lparr>t_sleep_flags := SLEEP_ASLEEP OR flags, t_wq := wq\<rparr>)\<rparr>" by auto
  with \<open>wq \<noteq> NULL\<close> w queue_insert_effect [OF q] switch_task_effect [OF s'] assms(2) show ?thesis by auto
qed

definition woken :: "task_t \<Rightarrow> task_t" where
  "woken k = k\<lparr>t_sleep_flags := t_sleep_flags k AND NOT SLEEP_ASLEEP, t_wq := NULL\<rparr>"

lemma wake_one_effect:
  assumes "wake_one wq n t s = Some s'"
  shows "\<exists>w k. wqs s wq = Some w \<and> tasks s t = Some k \<and> wqs s' = (wqs s)(wq \<mapsto> w\<lparr>wq_tasks := queue_dequeue n (wq_tasks w)\<rparr>)
    \<and> tasks s' = (tasks s)(t \<mapsto> woken k) \<and> ready s' = ready s @ [t] \<and> current_task s' = current_task s
    \<and> kidle s' = kidle s \<and> tasklets s' = tasklets s"
proof -
  from assms obtain w s1 s2 m where w: "wqs s wq = Some w"
    and s1: "kfr n (s\<lparr>wqs := (wqs s)(wq \<mapsto> w\<lparr>wq_tasks := queue_dequeue n (wq_tasks w)\<rparr>)\<rparr>) = Some s1"
    and s2: "upd_task t woken s1 = Some s2" and m: "run_queue_insert t s2 = Some (m, s')" "m \<noteq> NULL"
    by (auto simp: wake_one_def woken_def [abs_def] split: bind_splits if_splits)
  from kfr_effect [OF s1] upd_task_effect [OF s2] run_queue_insert_effect [OF m] w show ?thesis
    by (auto simp: ready_def)
qed

lemma wake_all_effect:
  assumes "wake_all wq q s = Some s'" "wqs s wq = Some w" "wq_tasks w = q" "distinct (map snd q)"
  shows "wqs s' = (wqs s)(wq \<mapsto> w\<lparr>wq_tasks := []\<rparr>) \<and> ready s' = ready s @ map snd q
    \<and> (\<forall>t. tasks s' t = (if t \<in> snd ` set q then map_option woken (tasks s t) else tasks s t))
    \<and> current_task s' = current_task s \<and> kidle s' = kidle s \<and> tasklets s' = tasklets s"
  using assms
proof (induction wq q s arbitrary: w rule: wake_all.induct)
  case (1 wq s)
  then have "s' = s" "w\<lparr>wq_tasks := []\<rparr> = w" by (simp, cases w, simp)
  with 1 show ?case by (simp add: fun_upd_idem)
next
  case (2 wq n t q s)
  from "2.prems"(1) obtain s1 where s1: "wake_one wq n t s = Some s1" "wake_all wq q s1 = Some s'"
    by (auto split: bind_splits)
  from wake_one_effect [OF s1(1)] "2.prems" obtain k where k: "tasks s t = Some k"
    "wqs s1 = (wqs s)(wq \<mapsto> w\<lparr>wq_tasks := q\<rparr>)" "tasks s1 = (tasks s)(t \<mapsto> woken k)" "ready s1 = ready s @ [t]"
    "current_task s1 = current_task s" "kidle s1 = kidle s" "tasklets s1 = tasklets s" by auto
  from "2.IH" [OF s1, of "w\<lparr>wq_tasks := q\<rparr>"] k "2.prems"(4) show ?case by auto
qed

subsection \<open>The invariant\<close>

lemma pool_inv_perm: "pool_inv r s \<Longrightarrow> distinct r' \<Longrightarrow> set r' = set r \<Longrightarrow> pool_inv r' s"
  by (simp add: inv_defs)

lemma sched_inv_current: "sched_inv s \<Longrightarrow> \<exists>k. tasks s (current_task s) = Some k \<and> current_task s \<noteq> NULL"
proof -
  assume "sched_inv s"
  then have "tasks s NULL = None" "current_task s \<in> dom (tasks s)"
    by (cases "current_task s = kidle s"; auto simp: sched_inv_def runnable_def inv_defs)+
  then show ?thesis by (metis domD option.distinct(1))
qed

lemma sched_inv_cong:
  assumes "run_queue s' = run_queue s" "wqs s' = wqs s" "current_task s' = current_task s" "kidle s' = kidle s"
    "tasks s' = tasks s" "tasklets s' = tasklets s"
  shows "sched_inv s' = sched_inv s"
proof -
  have "runnable s' = runnable s" using assms by (simp add: runnable_def ready_def)
  moreover have "waiting q s' = waiting q s" for q using assms by (simp add: waiting_def)
  ultimately show ?thesis using assms by (simp add: sched_inv_def inv_defs)
qed

lemma switched_inv:
  assumes "pool_inv (next_ready b s) s" "switched b s s'"
  shows "sched_inv s'"
proof -
  let ?r = "next_ready b s"
  have kidle: "kidle s \<notin> set ?r" using assms(1) by (simp add: inv_defs)
  have "runnable s' = (case ?r of [] \<Rightarrow> [] | t # q \<Rightarrow> q @ [t])"
    using assms(2) kidle by (auto simp: switched_def runnable_def split: list.splits)
  then have r: "set (runnable s') = set ?r" "distinct (runnable s') \<longleftrightarrow> distinct ?r" by (auto split: list.splits)
  have w: "waiting wq s' = waiting wq s" for wq using assms(2) by (simp add: switched_def waiting_def)
  from assms(2) obtain k regs where k: "tasks s (current_task s) = Some k"
    "tasks s' = (tasks s)(current_task s \<mapsto> (case regs of (esp, ebp, eip) \<Rightarrow> k\<lparr>t_eip := eip, t_esp := esp, t_ebp := ebp\<rparr>))"
    by (auto simp: switched_def)
  have t: "\<exists>k0. tasks s t = Some k0 \<and> t_pid k' = t_pid k0 \<and> (\<forall>wq. asleep_on wq k' = asleep_on wq k0)"
    if "tasks s' t = Some k'" for t k'
    using that k by (cases regs) (auto simp: asleep_on_def split: if_splits)
  have d: "dom (tasks s') = dom (tasks s)" using k by auto
  have q: "queues_ok (runnable s') s'" using assms r w by (simp add: inv_defs switched_def)
  have "tasks s' NULL = None" using d assms(1) by (auto simp: inv_defs)
  moreover have "(t_pid k' = - 1 \<longleftrightarrow> t = kidle s) \<and> (\<forall>wq. t \<in> set (waiting wq s) \<longleftrightarrow> asleep_on wq k')"
    if "tasks s' t = Some k'" for t k'
    using t [OF that] assms(1) unfolding pool_inv_def tasks_ok_def by metis
  ultimately have "tasks_ok (runnable s') s'"
    using assms r w d by (simp add: inv_defs switched_def)
  moreover have "tasklets_ok (runnable s') s'" using assms r w by (simp add: inv_defs switched_def)
  ultimately show ?thesis using q by (simp add: sched_inv_def pool_inv_def)
qed

lemma tick_inv:
  assumes "sched_inv s" "switch_task True regs s = Some s'"
  shows "sched_inv s'"
proof -
  obtain k where k: "tasks s (current_task s) = Some k" "current_task s \<noteq> NULL" using sched_inv_current [OF assms(1)] by auto
  then have "next_ready True s = runnable s" using assms(1) by (auto simp: next_ready_def runnable_def sched_inv_def inv_defs)
  with assms(1) switched_inv switch_task_effect [OF assms(2) k(2)] show ?thesis by (metis sched_inv_def)
qed

text \<open>Putting the current task into a wait queue, or taking it out of everything, leaves the ready tasks.\<close>

lemma asleep_flags [simp]: "bit (SLEEP_ASLEEP OR flags) 0" "\<not> bit (flags AND NOT SLEEP_ASLEEP) 0"
  by (simp_all add: SLEEP_ASLEEP_def bit_simps)

lemma sleep_inv:
  assumes "sched_inv s" "current_task s \<noteq> kidle s" "sleep_thread wq flags regs s = Some s'"
  shows "sched_inv s'"
proof -
  have c: "current_task s \<noteq> NULL" using sched_inv_current [OF assms(1)] by auto
  from sleep_thread_effect [OF assms(3) this] obtain k w n h where k: "tasks s (current_task s) = Some k" and w: "wqs s wq = Some w" "wq \<noteq> NULL"
    and sw: "switched False (s\<lparr>iflag := False,
         tasks := (tasks s)(current_task s \<mapsto> k\<lparr>t_sleep_flags := SLEEP_ASLEEP OR flags, t_wq := wq\<rparr>), t_heap := h,
         wqs := (wqs s)(wq \<mapsto> w\<lparr>wq_tasks := wq_tasks w @ [(n, current_task s)]\<rparr>)\<rparr>) s'" (is "switched False ?s1 s'")
    by auto
  have wt: "waiting q ?s1 = waiting q s @ (if q = wq then [current_task s] else [])" for q
    using w by (simp add: waiting_def)
  have inv: "pool_inv (ready s @ [current_task s]) s" using assms(1,2) by (simp add: sched_inv_def runnable_def)
  have "queues_ok (ready s) ?s1" using inv assms(2) by (auto simp: inv_defs wt)
  moreover have "tasks_ok (ready s) ?s1" using inv w k c by (auto simp: inv_defs wt asleep_on_def)
  moreover have "tasklets_ok (ready s) ?s1" using inv by (auto simp: inv_defs wt)
  moreover have "next_ready False ?s1 = ready s" by (simp add: next_ready_def ready_def)
  ultimately show ?thesis using switched_inv [OF _ sw] by (simp add: pool_inv_def)
qed

lemma wake_inv:
  assumes "sched_inv s" "wake_queue wq s = Some s'"
  shows "sched_inv s'"
proof -
  from assms(2) obtain w s1 where w: "wqs s wq = Some w" and s1: "wake_all wq (wq_tasks w) (s\<lparr>iflag := False\<rparr>) = Some s1"
    and s': "s' = s1\<lparr>iflag := True\<rparr>"
    by (auto simp: wake_queue_def Let_def split: bind_splits if_splits)
  have ws: "waiting wq s = map snd (wq_tasks w)" using w by (simp add: waiting_def)
  have inv: "pool_inv (runnable s) s" using assms(1) by (simp add: sched_inv_def)
  then have "distinct (map snd (wq_tasks w))" using ws unfolding pool_inv_def queues_ok_def by metis
  from wake_all_effect [OF s1 _ refl this] w
  have e: "wqs s1 = (wqs s)(wq \<mapsto> w\<lparr>wq_tasks := []\<rparr>)" "ready s1 = ready s @ waiting wq s"
    "\<And>t. tasks s1 t = (if t \<in> set (waiting wq s) then map_option woken (tasks s t) else tasks s t)"
    "current_task s1 = current_task s" "kidle s1 = kidle s" "tasklets s1 = tasklets s"
    by (simp_all add: ws ready_def)
  have wt: "waiting q s' = (if q = wq then [] else waiting q s)" for q using e s' by (simp add: waiting_def)
  have rn: "set (runnable s') = set (runnable s) \<union> set (waiting wq s)" "distinct (runnable s')"
  proof -
    have r: "ready s' = ready s @ waiting wq s" "current_task s' = current_task s" "kidle s' = kidle s"
      using e s' by (simp_all add: ready_def)
    then show "set (runnable s') = set (runnable s) \<union> set (waiting wq s)" by (auto simp: runnable_def)
    have "distinct (waiting wq s)" "set (runnable s) \<inter> set (waiting wq s) = {}" "distinct (runnable s)"
      using inv unfolding pool_inv_def queues_ok_def by blast+
    then show "distinct (runnable s')" using r by (auto simp: runnable_def)
  qed
  have t: "(t_pid k' = - 1 \<longleftrightarrow> t = kidle s) \<and> (\<forall>q. t \<in> set (waiting q s') \<longleftrightarrow> asleep_on q k')"
    if k': "tasks s1 t = Some k'" for t k'
  proof (cases "t \<in> set (waiting wq s)")
    case True
    with k' e(3) obtain k where k: "tasks s t = Some k" "k' = woken k" by auto
    with inv True have a: "t_pid k = - 1 \<longleftrightarrow> t = kidle s" "asleep_on wq k" "\<And>q. t \<in> set (waiting q s) \<longleftrightarrow> asleep_on q k"
      unfolding pool_inv_def tasks_ok_def by metis+
    have "t \<notin> set (waiting q s')" for q using a(2) a(3) [of q] by (auto simp: wt asleep_on_def)
    moreover have "\<not> asleep_on q k'" for q using k by (simp add: asleep_on_def woken_def)
    ultimately show ?thesis using a(1) k by (simp add: woken_def)
  next
    case False
    with k' e(3) have "tasks s t = Some k'" by simp
    with inv have "(t_pid k' = - 1 \<longleftrightarrow> t = kidle s) \<and> (\<forall>q. t \<in> set (waiting q s) \<longleftrightarrow> asleep_on q k')"
      unfolding pool_inv_def tasks_ok_def by blast
    with False show ?thesis by (auto simp: wt)
  qed
  have wd: "set (waiting wq s) \<inter> set (waiting q s) = {}" if "q \<noteq> wq" for q
  proof (rule equals0I)
    fix t assume t: "t \<in> set (waiting wq s) \<inter> set (waiting q s)"
    then obtain k where "tasks s t = Some k" using inv unfolding pool_inv_def tasks_ok_def by blast
    then have "asleep_on wq k" "asleep_on q k" using inv t unfolding pool_inv_def tasks_ok_def by blast+
    then show False using that by (simp add: asleep_on_def)
  qed
  have k: "kidle s' = kidle s" "tasks s' = tasks s1" "tasklets s' = tasklets s" "dom (tasks s1) = dom (tasks s)"
    using e s' by (auto simp: dom_def)
  have i: "queues_ok (runnable s) s" "tasks_ok (runnable s) s" "tasklets_ok (runnable s) s" using inv by (simp_all add: pool_inv_def)
  have "queues_ok (runnable s') s'" unfolding queues_ok_def wt rn(1) k(1)
    using i(1) rn(2) wd unfolding queues_ok_def by (auto simp: Int_Un_distrib2)
  moreover have "tasks_ok (runnable s') s'"
  proof -
    have "tasks s1 NULL = None" using e(3) i(2) by (simp add: tasks_ok_def)
    moreover have "set (waiting q s') \<subseteq> dom (tasks s)" for q using i(2) by (simp add: wt tasks_ok_def)
    ultimately show ?thesis using i(2) t unfolding tasks_ok_def k rn(1) by blast
  qed
  moreover have "(\<exists>q. t \<in> set (waiting q s)) \<longleftrightarrow> t \<in> set (waiting wq s) \<or> (\<exists>q. t \<in> set (waiting q s'))" for t
    by (auto simp: wt)
  then have "tasklets_ok (runnable s') s'" using i(3) unfolding tasklets_ok_def k rn(1) Un_iff by blast
  ultimately show ?thesis by (simp add: sched_inv_def pool_inv_def)
qed

lemma schedule_inv:
  assumes "sched_inv s" "tk \<noteq> kidle s" "tk \<in> dom (tasks s)" "schedule_tasklet tk s = Some (r, s')"
  shows "sched_inv s'"
proof -
  have inv: "pool_inv (runnable s) s" using assms(1) by (simp add: sched_inv_def)
  from assms(4) obtain l where l: "tasklets s tk = Some l" by (auto simp: schedule_tasklet_def Let_def split: bind_splits if_splits)
  have e: "current_task s' = current_task s \<and> kidle s' = kidle s \<and> wqs s' = wqs s \<and> tasks s' = tasks s"
    and "(run_queue s' = run_queue s \<and> tasklets s' = tasklets s) \<or>
      (\<not> tl_scheduled l \<and> (\<exists>n. run_queue s' = run_queue s @ [(n, tk)]) \<and> tasklets s' = (tasklets s)(tk \<mapsto> l\<lparr>tl_scheduled := True\<rparr>))"
    using assms(4) l
    by (auto simp: schedule_tasklet_def run_queue_insert_def queue_insert_def Let_def split: bind_splits if_splits)
  then consider (same) "run_queue s' = run_queue s" "tasklets s' = tasklets s" | (new) n where "\<not> tl_scheduled l"
    "run_queue s' = run_queue s @ [(n, tk)]" "tasklets s' = (tasklets s)(tk \<mapsto> l\<lparr>tl_scheduled := True\<rparr>)" by blast
  then show ?thesis
  proof cases
    case same
    then show ?thesis using assms(1) e sched_inv_cong [of s' s] by simp
  next
    case new
    have r: "ready s' = ready s @ [tk]" "current_task s' = current_task s" "kidle s' = kidle s" "tasks s' = tasks s" using new e by (simp_all add: ready_def)
    have w: "waiting q s' = waiting q s" for q using e by (simp add: waiting_def)
    have tk: "tk \<notin> set (runnable s)" "\<And>q. tk \<notin> set (waiting q s)" using inv l new(1) assms(2) by (auto simp: inv_defs)
    have "set (runnable s') = insert tk (set (runnable s))" "distinct (runnable s')"
      using r tk inv by (auto simp: runnable_def inv_defs)
    then show ?thesis using inv tk assms(2,3) new unfolding sched_inv_def inv_defs w r by simp
  qed
qed

text \<open>The stack of a tasklet is not what the invariant speaks of.\<close>

lemma tasklet_stack_effect:
  assumes "tasklet_stack tk s = Some s'"
  shows "\<exists>k k'. tasks s tk = Some k \<and> tasks s' = (tasks s)(tk \<mapsto> k') \<and> t_pid k' = t_pid k \<and> (\<forall>wq. asleep_on wq k' = asleep_on wq k)
    \<and> run_queue s' = run_queue s \<and> wqs s' = wqs s \<and> current_task s' = current_task s \<and> kidle s' = kidle s \<and> tasklets s' = tasklets s"
proof -
  from assms obtain k l e b i where "tasks s tk = Some k" "tasks s' = (tasks s)(tk \<mapsto> k\<lparr>t_ebp := b, t_eip := i, t_esp := e\<rparr>)"
    "run_queue s' = run_queue s \<and> wqs s' = wqs s \<and> current_task s' = current_task s \<and> kidle s' = kidle s \<and> tasklets s' = tasklets s"
    by (auto simp: tasklet_stack_def upd_task_def PUSH_def Let_def split: bind_splits option.splits)
  then show ?thesis by (intro exI [of _ k] exI [of _ "k\<lparr>t_ebp := b, t_eip := i, t_esp := e\<rparr>"]) (simp add: asleep_on_def)
qed

lemma reset_inv:
  assumes "sched_inv s" "reset_tasklet tk s = Some s'"
  shows "sched_inv s'"
proof -
  from assms(2) have "tasklet_stack tk s = Some s'" by (auto simp: reset_tasklet_def split: bind_splits if_splits)
  from tasklet_stack_effect [OF this] obtain k k' where k: "tasks s tk = Some k" "tasks s' = (tasks s)(tk \<mapsto> k')"
    "t_pid k' = t_pid k" "\<And>wq. asleep_on wq k' = asleep_on wq k" and e: "run_queue s' = run_queue s" "wqs s' = wqs s"
    "current_task s' = current_task s" "kidle s' = kidle s" "tasklets s' = tasklets s" by auto
  have "runnable s' = runnable s" using e by (simp add: runnable_def ready_def)
  moreover have "waiting q s' = waiting q s" for q using e by (simp add: waiting_def)
  moreover have "dom (tasks s') = dom (tasks s)" using k by auto
  moreover have "tk \<noteq> NULL"
  proof
    assume "tk = NULL"
    moreover have "tasks s NULL = None" using assms(1) by (simp add: sched_inv_def pool_inv_def tasks_ok_def)
    ultimately show False using k by simp
  qed
  ultimately show ?thesis using assms(1) k e unfolding sched_inv_def inv_defs by simp
qed

lemma finish_inv:
  assumes "sched_inv s" "current_task s \<noteq> kidle s" "tasklet_finish regs s = Some s'"
  shows "sched_inv s'"
proof -
  let ?c = "current_task s"
  from assms(3) obtain l where l: "tasklets s ?c = Some l"
    and sw: "switch_task False regs (s\<lparr>iflag := False, tasklets := (tasklets s)(?c \<mapsto> l\<lparr>tl_scheduled := False\<rparr>)\<rparr>) = Some s'"
      (is "switch_task False regs ?s1 = Some s'")
    by (auto simp: tasklet_finish_def Let_def split: bind_splits)
  have inv: "pool_inv (ready s @ [?c]) s" using assms(1,2) by (simp add: sched_inv_def runnable_def)
  have w: "waiting q ?s1 = waiting q s" for q by (simp add: waiting_def)
  have n: "next_ready False ?s1 = ready s" by (simp add: next_ready_def ready_def)
  have "pool_inv (ready s) ?s1" using inv by (auto simp: inv_defs w)
  moreover have "?c \<noteq> NULL" using sched_inv_current [OF assms(1)] by auto
  ultimately show ?thesis using switched_inv [of False ?s1 s'] switch_task_effect [OF sw] n by simp
qed

lemma sched_step_inv: "sched_step s s' \<Longrightarrow> sched_inv s \<Longrightarrow> sched_inv s'"
  by (induction rule: sched_step.induct) (auto intro: tick_inv sleep_inv wake_inv schedule_inv reset_inv finish_inv)

subsection \<open>Turns\<close>

primrec ticks :: "(nat \<times> nat \<times> nat) list \<Rightarrow> 'v tasking \<Rightarrow> 'v tasking option" where
  "ticks [] s = Some s"
| "ticks (r # rs) s = do { s \<leftarrow> switch_task True r s; ticks rs s }"

text \<open>
  The memory management a tick goes through: a node for the task that is put back, the release of the
  node of the task that is taken out, and its page directory. Nothing else can fail.
\<close>

definition switch_heap :: "'v tasking \<Rightarrow> liballoc option" where
  "switch_heap s =
    (if current_task s = kidle s then
       (if run_queue s = [] then Some (t_heap s) else kfree (fst (hd (run_queue s))) (t_heap s))
     else do {
       (n, h) \<leftarrow> kmalloc sizeof_node_t (t_heap s);
       ASSERT (n \<noteq> NULL);
       kfree (fst (hd (run_queue s @ [(n, current_task s)]))) h
     })"

definition switch_panics :: "'v tasking \<Rightarrow> bool" where
  "switch_panics s \<longleftrightarrow> (case switch_heap s of None \<Rightarrow> True
     | Some h \<Rightarrow> \<exists>t k. t = hd (runnable s @ [kidle s]) \<and> tasks s t = Some k \<and> page_dirs h (t_page_dir k) = None)"

lemma switch_task_panics:
  assumes "sched_inv s" "switch_task True regs s = None"
  shows "switch_panics s"
proof (rule ccontr)
  assume np: "\<not> switch_panics s"
  then obtain h where h: "switch_heap s = Some h" by (auto simp: switch_panics_def split: option.splits)
  obtain esp ebp eip where regs: "regs = (esp, ebp, eip)" by (cases regs)
  from sched_inv_current [OF assms(1)] obtain k where k: "tasks s (current_task s) = Some k" "current_task s \<noteq> NULL" by auto
  define s1 where "s1 = s\<lparr>tasks := (tasks s)(current_task s \<mapsto> k\<lparr>t_eip := eip, t_esp := esp, t_ebp := ebp\<rparr>)\<rparr>"
  have f: "current_task s1 = current_task s" "kidle s1 = kidle s" "run_queue s1 = run_queue s" "t_heap s1 = t_heap s"
    by (simp_all add: s1_def)
  have d: "dom (tasks s1) = dom (tasks s)" "map_option t_page_dir (tasks s1 t) = map_option t_page_dir (tasks s t)"
    "map_option t_pid (tasks s1 t) = map_option t_pid (tasks s t)" for t
    using k by (auto simp: s1_def)
  have "\<exists>s2 s3. put_back True s1 = Some s2 \<and> get_ready_task s2 = Some (hd (runnable s @ [kidle s]), s3) \<and> t_heap s3 = h \<and> tasks s3 = tasks s1"
  proof (cases "current_task s = kidle s")
    case True
    have "t_pid k = - 1" using assms(1) True k unfolding sched_inv_def pool_inv_def tasks_ok_def by blast
    then have "put_back True s1 = Some s1" using k by (simp add: put_back_def s1_def)
    moreover have "\<exists>s3. get_ready_task s1 = Some (hd (runnable s @ [kidle s]), s3) \<and> t_heap s3 = h \<and> tasks s3 = tasks s1"
      using h True f by (cases "run_queue s")
        (auto simp: get_ready_task_def kfr_def switch_heap_def runnable_def ready_def)
    ultimately show ?thesis by blast
  next
    case False
    with h obtain n h0 where n: "kmalloc sizeof_node_t (t_heap s) = Some (n, h0)" "n \<noteq> NULL" "kfree (fst (hd (run_queue s @ [(n, current_task s)]))) h0 = Some h"
      by (auto simp: switch_heap_def split: bind_splits if_splits)
    define s2 where "s2 = s1\<lparr>t_heap := h0, run_queue := run_queue s @ [(n, current_task s)]\<rparr>"
    have "t_pid k \<noteq> - 1" using assms(1) False k unfolding sched_inv_def pool_inv_def tasks_ok_def by blast
    then have "put_back True s1 = Some s2"
      using n k by (simp add: put_back_def run_queue_insert_def queue_insert_def s1_def s2_def)
    moreover have "\<exists>s3. get_ready_task s2 = Some (hd (runnable s @ [kidle s]), s3) \<and> t_heap s3 = h \<and> tasks s3 = tasks s1"
      using n(3) False by (cases "run_queue s")
        (auto simp: get_ready_task_def kfr_def runnable_def ready_def s2_def)
    ultimately show ?thesis by blast
  qed
  then obtain s2 s3 where s23: "put_back True s1 = Some s2" "get_ready_task s2 = Some (hd (runnable s @ [kidle s]), s3)" "t_heap s3 = h" "tasks s3 = tasks s1"
    by blast
  have "hd (runnable s @ [kidle s]) \<in> dom (tasks s)"
  proof -
    have "set (runnable s @ [kidle s]) \<subseteq> dom (tasks s)" using assms(1) by (auto simp: sched_inv_def inv_defs)
    moreover have "hd (runnable s @ [kidle s]) \<in> set (runnable s @ [kidle s])" by (rule hd_in_set) simp
    ultimately show ?thesis by blast
  qed
  then obtain nk where nk: "tasks s1 (hd (runnable s @ [kidle s])) = Some nk" using d(1) by blast
  with d(2) [of "hd (runnable s @ [kidle s])"] obtain k0 where "tasks s (hd (runnable s @ [kidle s])) = Some k0" "t_page_dir k0 = t_page_dir nk" by (cases "tasks s (hd (runnable s @ [kidle s]))") auto
  with np h have "page_dirs h (t_page_dir nk) \<noteq> None" by (auto simp: switch_panics_def)
  moreover have "switch_task True regs s = context_switch (set_kernel_stack (t_esp nk)
    (s3\<lparr>current_task := hd (runnable s @ [kidle s]), t_heap := (t_heap s3)\<lparr>current_dir := t_page_dir nk\<rparr>\<rparr>))"
    using k s23 nk regs by (simp add: switch_task_def upd_task_def s1_def [symmetric])
  ultimately show False using assms(2) s23 nk by (auto simp: context_switch_def set_kernel_stack_def)
qed

lemma tick_turn:
  assumes "sched_inv s" "switch_task True regs s = Some s'" "ready s \<noteq> []"
  shows "current_task s' = hd (ready s)" "\<exists>q. ready s' = tl (ready s) @ q"
proof -
  have "current_task s \<noteq> NULL" using sched_inv_current [OF assms(1)] by auto
  from switch_task_effect [OF assms(2) this] assms(3)
  show "current_task s' = hd (ready s)" "\<exists>q. ready s' = tl (ready s) @ q" by (auto simp: switched_def next_ready_def)
qed

lemma ticks_turn:
  assumes "sched_inv s" "length rs < length (ready s)"
  shows "case ticks (rs @ [r]) s of
      None \<Rightarrow> \<exists>j \<le> length rs. \<exists>s1. ticks (take j (rs @ [r])) s = Some s1 \<and> switch_panics s1
    | Some s' \<Rightarrow> current_task s' = ready s ! length rs"
  using assms
proof (induction rs arbitrary: s)
  case Nil
  then show ?case using switch_task_panics [OF Nil(1), of r] tick_turn(1) [OF Nil(1), of r]
    by (auto split: option.split simp: hd_conv_nth)
next
  case (Cons r1 rs)
  show ?case
  proof (cases "switch_task True r1 s")
    case None
    then have "switch_panics s" by (rule switch_task_panics [OF Cons.prems(1)])
    then have "\<exists>s1. ticks (take 0 ((r1 # rs) @ [r])) s = Some s1 \<and> switch_panics s1" by simp
    then show ?thesis using None by (auto intro!: exI [of _ 0])
  next
    case (Some s1)
    have ne: "ready s \<noteq> []" using Cons.prems(2) by auto
    obtain q where q: "ready s1 = tl (ready s) @ q" using tick_turn(2) [OF Cons.prems(1) Some ne] by blast
    then have n: "length rs < length (ready s1)" "ready s1 ! length rs = ready s ! length (r1 # rs)"
      using Cons.prems(2) by (auto simp: nth_append nth_tl)
    note ih = Cons.IH [OF tick_inv [OF Cons.prems(1) Some] n(1)]
    show ?thesis
    proof (cases "ticks (rs @ [r]) s1")
      case None
      with ih obtain j s2 where "j \<le> length rs" "ticks (take j (rs @ [r])) s1 = Some s2" "switch_panics s2" by auto
      then have "Suc j \<le> length (r1 # rs)" "ticks (take (Suc j) ((r1 # rs) @ [r])) s = Some s2" "switch_panics s2"
        using Some by simp_all
      then show ?thesis using None Some by (auto simp del: take_append)
    next
      case (Some s2)
      then show ?thesis using ih n(2) \<open>switch_task True r1 s = Some s1\<close> by simp
    qed
  qed
qed

subsection \<open>Example\<close>

definition demo_task :: "int \<Rightarrow> task_t" where
  "demo_task pid = zero_task\<lparr>t_pid := pid, t_gid := pid, t_sid := pid\<rparr>"

text \<open>Init runs, process 3 is ready, process 2 is a tasklet that is not scheduled, and a wait queue is empty.\<close>

definition demo_tasking :: "unit tasking" where
  "demo_tasking = \<lparr>t_heap = demo_six, t_vfs = (),
     tasks = [demo_ptr 1 \<mapsto> demo_task 1, demo_ptr 2 \<mapsto> demo_task 2, demo_ptr 3 \<mapsto> demo_task (- 1), demo_ptr 4 \<mapsto> demo_task 3],
     tasklets = [demo_ptr 2 \<mapsto> \<lparr>tl_stack = 0xD0002000, tl_argp = NULL, tl_entry = 0xC0100000, tl_scheduled = False\<rparr>],
     strs = Map.empty, tnodes = Map.empty, tree_root_node = NULL,
     processes = [(11, demo_ptr 1), (12, demo_ptr 2), (13, demo_ptr 4)], run_queue = [(demo_ptr 0, demo_ptr 4)],
     wqs = [demo_ptr 5 \<mapsto> \<lparr>wq_list = 10, wq_tasks = []\<rparr>],
     current_task = demo_ptr 1, kidle = demo_ptr 3, stackw = (\<lambda>_. 0), tss_esp0 = 0, iflag = True, cpu = (0, 0, 0),
     tasklet_finish_eip = 0xC0101000\<rparr>"

lemma demo_tasking_inv: "sched_inv demo_tasking"
proof -
  have w: "waiting q demo_tasking = []" for q by (simp add: waiting_def demo_tasking_def)
  have r: "runnable demo_tasking = [demo_ptr 4, demo_ptr 1]" by (simp add: runnable_def ready_def demo_tasking_def)
  have z: "demo_ptr i \<noteq> 0" for i by (simp add: demo_ptr_def)
  show ?thesis unfolding sched_inv_def r inv_defs w
    by (auto simp: demo_tasking_def demo_task_def zero_task_def asleep_on_def demo_ptr_def)
qed

subsection \<open>Properties\<close>

text \<open>
  C3. The invariant of the scheduler. Whatever sequence of timer ticks, sleeps, wake-ups and tasklet
  operations happens, no task is in the run queue twice, the task that runs is in no queue, the idle
  task never is, no task is in the run queue and in a wait queue or in two wait queues, a task is in a
  wait queue exactly if it is marked asleep on it, and a tasklet is marked scheduled exactly if it
  runs, is ready or sleeps.
\<close>

theorem sched_inv_reachable:
  assumes "sched_inv s" "sched_step\<^sup>*\<^sup>* s s'"
  shows "sched_inv s'"
  using assms(2,1) by (induction rule: rtranclp_induct) (auto intro: sched_step_inv)

theorem sched_inv_reachable_witness:
  "\<exists>s'. sched_step demo_tasking s' \<and> ready s' = [demo_ptr 4, demo_ptr 2] \<and> sched_inv s'"
proof -
  have "kmalloc sizeof_node_t demo_six \<noteq> None" using demo_six_alloc by (simp add: sizeof_defs)
  then obtain n h where n: "kmalloc sizeof_node_t demo_six = Some (n, h)" by auto
  then have "n \<noteq> NULL" using heap.malloc_new [OF demo_six_live _ n] by (simp add: heap_limit_def sizeof_defs)
  with n obtain s' where s': "schedule_tasklet (demo_ptr 2) demo_tasking = Some (0, s')" "ready s' = [demo_ptr 4, demo_ptr 2]"
    by (auto simp: schedule_tasklet_def run_queue_insert_def queue_insert_def demo_tasking_def ready_def)
  have "sched_step demo_tasking s'"
    by (rule sched_step.schedule [OF _ _ s'(1)]) (simp_all add: demo_tasking_def domI)
  then show ?thesis using sched_inv_reachable [OF demo_tasking_inv, of s'] s'(2) by blast
qed



end
