(* ===== verification/Process.thy ===== *)
theory Process
  imports Sched
begin

section \<open>Process identifiers and identities\<close>

text \<open>
  Properties of the process table and of the identity calls of task.c: the search for a free process
  identifier, the insertion of a new process into the table, \<^verbatim>\<open>setresuid\<close> and \<^verbatim>\<open>nice\<close>.
\<close>

definition procs_ok :: "'v tasking \<Rightarrow> bool" where
  "procs_ok s \<longleftrightarrow> snd ` set (processes s) \<subseteq> dom (tasks s)"

definition pids_of :: "queue \<Rightarrow> 'v tasking \<Rightarrow> int set" where
  "pids_of q s = {t_pid k | k t. t \<in> snd ` set q \<and> tasks s t = Some k}"

definition pids :: "'v tasking \<Rightarrow> int set" where
  "pids s = pids_of (processes s) s"

lemma pids_of_simps [simp]:
  "pids_of [] s = {}"
  "tasks s t = Some k \<Longrightarrow> pids_of ((n, t) # q) s = insert (t_pid k) (pids_of q s)"
  by (auto simp: pids_of_def)

lemma pid_used_iff: "snd ` set q \<subseteq> dom (tasks s) \<Longrightarrow> pid_used pid q s = Some (pid \<in> pids_of q s)"
  by (induction pid q s rule: pid_used.induct) auto

lemma find_pid_none: "snd ` set q \<subseteq> dom (tasks s) \<Longrightarrow> pid \<notin> pids_of q s \<Longrightarrow> find_pid pid q s = Some NULL"
  by (induction pid q s rule: find_pid.induct) auto

lemma nextpid_from_ok:
  assumes "procs_ok s" "1 \<le> pid" "{1..<pid} \<subseteq> pids s" "pid \<le> MAX_PID + 1"
  shows "\<exists>p. nextpid_from pid s = Some p \<and>
    (if p = 0 then {1..MAX_PID} \<subseteq> pids s else p \<in> {1..MAX_PID} \<and> p \<notin> pids s \<and> {1..<p} \<subseteq> pids s)"
  using assms
proof (induction pid s rule: nextpid_from.induct)
  case (1 pid s)
  have used: "pid_used pid (processes s) s = Some (pid \<in> pids s)"
    using pid_used_iff "1.prems"(1) by (simp add: procs_ok_def pids_def)
  consider "pid > MAX_PID" | "pid \<le> MAX_PID" "pid \<notin> pids s" | (again) "pid \<le> MAX_PID" "pid \<in> pids s" by linarith
  then show ?case
  proof cases
    case again
    have "{1..<pid + 1} = insert pid {1..<pid}" using "1.prems"(2) by auto
    with 1 again used show ?thesis by (subst nextpid_from.simps) simp
  qed (use "1.prems" used in \<open>subst nextpid_from.simps; force\<close>)+
qed

subsection \<open>The process table\<close>

lemma first_greater_split:
  assumes "snd ` set (xs @ (n, u) # ys) \<subseteq> dom (tasks s)" "\<forall>p \<in> pids_of xs s. p \<le> pid" "tasks s u = Some k" "t_pid k > pid"
  shows "first_greater pid (xs @ (n, u) # ys) s = Some n"
  using assms by (induction xs) auto

lemma tasks_only: "tasks s' = tasks s \<Longrightarrow> pid_used pid q s' = pid_used pid q s"
  by (induction pid q s rule: pid_used.induct) (auto split: bind_splits intro!: Option.bind_cong)

lemma nextpid_cong: "tasks s' = tasks s \<Longrightarrow> processes s' = processes s \<Longrightarrow> nextpid_from pid s' = nextpid_from pid s"
proof (induction pid s rule: nextpid_from.induct)
  case (1 pid s)
  have "pid_used pid (processes s') s' = pid_used pid (processes s) s" using 1 tasks_only by metis
  with 1 show ?case by (subst (1 2) nextpid_from.simps) (simp cong: if_cong Option.bind_cong)
qed

lemma insert_process_lost_aux:
  assumes "procs_ok s" "processes s = xs @ (n, u) # ys" "xs \<noteq> []" "n \<noteq> fst (hd xs)" "n \<noteq> NULL"
    and "tasks s t = Some k" "t_pid k \<notin> pids s" "\<forall>p \<in> pids_of xs s. p \<le> t_pid k" "tasks s u = Some ku" "t_pid ku > t_pid k"
  shows "case insert_process t s of
      None \<Rightarrow> kmalloc sizeof_node_t (t_heap s) = None
    | Some (p, s') \<Rightarrow> processes s' = processes s \<and> tasks s' = tasks s"
proof -
  have "first_greater (t_pid k) (processes s) s = Some n"
    using first_greater_split [of xs n u ys s "t_pid k" ku] assms by (simp add: procs_ok_def)
  then have "insert_process t s = do {
     (p, q, h) \<leftarrow> queue_insert_before n t (processes s) (t_heap s);
     Some (p, s\<lparr>t_heap := h, processes := q\<rparr>) }"
    using assms(5,6) by (simp add: insert_process_def)
  moreover have "hd (processes s) = hd xs" using assms(2,3) by simp
  ultimately have "insert_process t s = do {
     (p, h) \<leftarrow> kmalloc sizeof_node_t (t_heap s);
     Some (if p = NULL then NULL else p, s\<lparr>t_heap := h, processes := processes s\<rparr>) }"
    using assms(4) by (auto simp: queue_insert_before_def intro!: Option.bind_cong split: prod.split)
  then show ?thesis by (cases "kmalloc sizeof_node_t (t_heap s)") auto
qed

subsection \<open>Example\<close>

text \<open>Process 3 of the example has ended its life as process 4; identifier 3 is free.\<close>

definition demo_gap :: "unit tasking" where
  "demo_gap = demo_tasking\<lparr>tasks := (tasks demo_tasking)(demo_ptr 4 \<mapsto> demo_task 4, demo_ptr 5 \<mapsto> demo_task 3)\<rparr>"

lemma demo_gap_simps [simp]:
  "processes demo_gap = [(11, demo_ptr 1), (12, demo_ptr 2)] @ (13, demo_ptr 4) # []"
  "tasks demo_gap (demo_ptr (Suc 0)) = Some (demo_task 1)" "tasks demo_gap (demo_ptr 2) = Some (demo_task 2)"
  "tasks demo_gap (demo_ptr 4) = Some (demo_task 4)" "tasks demo_gap (demo_ptr 5) = Some (demo_task 3)"
  "t_heap demo_gap = demo_six" "current_task demo_gap = demo_ptr 1" "t_pid (demo_task p) = p" "t_euid (demo_task p) = 0"
  "t_nice (demo_task p) = 0"
  by (simp_all add: demo_gap_def demo_tasking_def demo_task_def zero_task_def)

lemma demo_gap_ok: "procs_ok demo_gap" "pids demo_gap = {1, 2, 4}"
  by (auto simp: procs_ok_def pids_def)

subsection \<open>Properties\<close>

text \<open>
  C23. \<^verbatim>\<open>nextpid\<close> always returns, and returns the least identifier from 1 to 32768 that no process of
  the table has, or 0 if there is none.
\<close>

theorem nextpid_first_free:
  assumes "procs_ok s"
  shows "\<exists>p. nextpid s = Some p \<and>
    (if p = 0 then {1..MAX_PID} \<subseteq> pids s else p \<in> {1..MAX_PID} \<and> p \<notin> pids s \<and> {1..<p} \<subseteq> pids s)"
  using nextpid_from_ok [OF assms, of 1] by (simp add: nextpid_def MAX_PID_def)

theorem nextpid_first_free_witness: "nextpid demo_gap = Some 3"
proof -
  from nextpid_first_free [OF demo_gap_ok(1)] obtain p where p: "nextpid demo_gap = Some p"
    "if p = 0 then {1..MAX_PID} \<subseteq> {1, 2, 4} else p \<in> {1..MAX_PID} \<and> p \<notin> {1, 2, 4} \<and> {1..<p} \<subseteq> {1, 2, 4}"
    unfolding demo_gap_ok by blast
  have "3 \<in> {1..MAX_PID}" "3 \<notin> {1, 2, 4 :: int}" by (simp_all add: MAX_PID_def)
  then have "\<not> {1..MAX_PID} \<subseteq> {1, 2, 4 :: int}" by blast
  with p(2) have "p \<noteq> 0" by (auto split: if_splits)
  moreover have "\<not> 3 < p"
  proof
    assume "3 < p"
    then have "3 \<in> {1..<p}" by simp
    moreover have "{1..<p} \<subseteq> {1, 2, 4}" using p(2) \<open>3 < p\<close> by (simp split: if_splits)
    ultimately have "(3::int) \<in> {1, 2, 4}" by blast
    then show False by simp
  qed
  ultimately have "p = 3" using p(2) by auto
  with p show ?thesis by simp
qed

text \<open>
  A process whose identifier is less than that of one in the table other than the first is lost:
  \<^verbatim>\<open>fork\<close> and \<^verbatim>\<open>create_tasklet\<close> insert it with \<^verbatim>\<open>list_insert_before\<close>, the table stays as it was, \<^verbatim>\<open>get_task\<close>
  does not find the process, and \<^verbatim>\<open>nextpid\<close> hands out the identifier it gave before, so the next
  process gets the same one. The insertion fails only if there is no memory for the node.
\<close>

theorem insert_process_lost:
  assumes "procs_ok s" "processes s = xs @ (n, u) # ys" "xs \<noteq> []" "n \<noteq> fst (hd xs)" "n \<noteq> NULL"
    and "tasks s t = Some k" "t_pid k \<notin> pids s" "\<forall>p \<in> pids_of xs s. p \<le> t_pid k" "tasks s u = Some ku" "t_pid ku > t_pid k"
  shows "case insert_process t s of
      None \<Rightarrow> kmalloc sizeof_node_t (t_heap s) = None
    | Some (p, s') \<Rightarrow> processes s' = processes s \<and> get_task (t_pid k) s' = Some NULL \<and> nextpid s' = nextpid s"
proof -
  have "get_task (t_pid k) s' = Some NULL \<and> nextpid s' = nextpid s" if "processes s' = processes s" "tasks s' = tasks s" for s'
  proof
    show "nextpid s' = nextpid s" using nextpid_cong [OF that(2,1)] by (simp add: nextpid_def)
    have "pids_of (processes s') s' = pids s" using that by (simp add: pids_def pids_of_def)
    then show "get_task (t_pid k) s' = Some NULL"
      using find_pid_none [of "processes s'" s' "t_pid k"] assms(1,7) that by (simp add: get_task_def procs_ok_def)
  qed
  with insert_process_lost_aux [OF assms] show ?thesis by (auto split: option.splits)
qed

theorem insert_process_lost_witness:
  "\<exists>p s'. insert_process (demo_ptr 5) demo_gap = Some (p, s') \<and> get_task 3 s' = Some NULL \<and> nextpid s' = nextpid demo_gap"
proof -
  have "case insert_process (demo_ptr 5) demo_gap of
      None \<Rightarrow> kmalloc sizeof_node_t (t_heap demo_gap) = None
    | Some (p, s') \<Rightarrow> processes s' = processes demo_gap \<and> get_task (t_pid (demo_task 3)) s' = Some NULL \<and> nextpid s' = nextpid demo_gap"
    by (rule insert_process_lost [OF demo_gap_ok(1) demo_gap_simps(1), where k = "demo_task 3" and ku = "demo_task 4"])
       (simp_all add: demo_gap_ok)
  moreover have "kmalloc sizeof_node_t (t_heap demo_gap) \<noteq> None" using demo_six_alloc by (simp add: sizeof_defs)
  ultimately show ?thesis by (auto split: option.splits)
qed

text \<open>
  C22. \<^verbatim>\<open>setresuid\<close> always returns 0 or \<^verbatim>\<open>-EPERM\<close>; with \<^verbatim>\<open>-EPERM\<close> nothing has changed, with 0 exactly the
  three identities have the values asked for. A process whose effective user is not 0 gets no user
  identity it did not have. It gets 0 exactly if each identity is one of the three it is compared
  with, where those set before it count and those they replace do not.
\<close>

theorem setresuid_no_gain:
  assumes "tasks s (current_task s) = Some c"
  shows "\<exists>res s'. setresuid r e v s = Some (res, s') \<and>
    (if t_euid c = 0 \<or> (r \<in> {t_ruid c, t_euid c, t_suid c} \<and> e \<in> {r, t_euid c, t_suid c} \<and> v \<in> {r, e, t_suid c})
     then res = 0 \<and> s' = s\<lparr>tasks := (tasks s)(current_task s \<mapsto> c\<lparr>t_ruid := r, t_euid := e, t_suid := v\<rparr>)\<rparr>
       \<and> (t_euid c = 0 \<or> {r, e, v} \<subseteq> {t_ruid c, t_euid c, t_suid c})
     else res = - EPERM \<and> s' = s)"
  using assms by (auto simp: setresuid_def setres_def one_of_def upd_task_def)

theorem setresuid_no_gain_witness:
  "\<exists>s'. setresuid 5 6 7 demo_gap = Some (0, s') \<and> map_option t_euid (tasks s' (demo_ptr 1)) = Some 6"
  using setresuid_no_gain [of demo_gap "demo_task 1" 5 6 7] by auto

text \<open>
  \<^verbatim>\<open>nice\<close> keeps the priority of the process between -20 and 19: it adds the increment and clips the
  sum, for every increment whose sum does not overflow; only the superuser can lower it.
\<close>

theorem nice_bounds:
  assumes "tasks s (current_task s) = Some c" "t_nice c \<in> {- 20..19}" "inc \<in> {20 - 2 ^ 31..<2 ^ 31 - 19}"
  shows "\<exists>res s' k. nice inc s = Some (res, s') \<and> tasks s' (current_task s) = Some k \<and> t_nice k \<in> {- 20..19} \<and>
    (if inc < 0 \<and> t_euid c \<noteq> 0 then res = - 1 \<and> s' = s else res = t_nice k \<and> t_nice k = max (- 20) (min 19 (t_nice c + inc)))"
  using assms by (auto simp: nice_def upd_task_def Let_def)

theorem nice_bounds_witness: "\<exists>s'. nice (- 100) demo_gap = Some (- 20, s')"
  using nice_bounds [of demo_gap "demo_task 1" "- 100"] by auto

end
