(* ===== verification/Mutex.thy ===== *)
theory Mutex
  imports Process
begin

section \<open>Mutexes and semaphores (kernel/structures/mutex.c)\<close>

text \<open>
  The operations of mutex.c on a state that holds the tasks and the mutexes, semaphores and
  read-write semaphores by address. \<^verbatim>\<open>acquire_mutex\<close> and \<^verbatim>\<open>acquire_semaphore\<close> are loops that can sleep,
  and other tasks run between any two of their steps; \<open>mutex_try\<close> and \<open>semaphore_try\<close> are the attempt
  of one round. The first part is the operations; the second is the protocol of threads that
  share a mutex, as a step relation in which each thread has a program counter.
\<close>

record mutex_t =
  mx_mutex :: nat
  mx_wq :: addr

record sem_t =
  sem_semaphore :: nat
  sem_max :: nat
  sem_wq :: addr

record rw_sem_t =
  rw_write :: addr
  rw_semaphore :: addr

record 'v sync =
  sy_task :: "'v tasking"
  mutexes :: "addr \<rightharpoonup> mutex_t"
  sems :: "addr \<rightharpoonup> sem_t"
  rw_sems :: "addr \<rightharpoonup> rw_sem_t"

definition sizeof_mutex_t :: nat where "sizeof_mutex_t = 8"
definition sizeof_sem_t :: nat where "sizeof_sem_t = 12"
definition sizeof_rw_sem_t :: nat where "sizeof_rw_sem_t = 8"

definition sy_kma :: "nat \<Rightarrow> 'v sync \<Rightarrow> (addr \<times> 'v sync) option" where
  "sy_kma n s = do { (p, t) \<leftarrow> kma n (sy_task s); Some (p, s\<lparr>sy_task := t\<rparr>) }"

definition sy_kfr :: "addr \<Rightarrow> 'v sync \<Rightarrow> 'v sync option" where
  "sy_kfr p s = do { t \<leftarrow> kfr p (sy_task s); Some (s\<lparr>sy_task := t\<rparr>) }"

subsection \<open>Mutexes\<close>

definition create_mutex :: "nat \<Rightarrow> 'v sync \<Rightarrow> (addr \<times> 'v sync) option" where
  "create_mutex locked s = do {
     (p, s) \<leftarrow> sy_kma sizeof_mutex_t s;
     if p = NULL then Some (NULL, s)
     else do {
       (wq, t) \<leftarrow> create_waitqueue (sy_task s);
       let s = s\<lparr>sy_task := t\<rparr>;
       if wq = NULL then do { s \<leftarrow> sy_kfr p s; Some (NULL, s) }
       else Some (p, s\<lparr>mutexes := (mutexes s)(p \<mapsto> \<lparr>mx_mutex = (if locked \<noteq> 0 then 1 else 0), mx_wq = wq\<rparr>)\<rparr>)
     }
   }"

definition destroy_mutex :: "addr \<Rightarrow> 'v sync \<Rightarrow> 'v sync option" where
  "destroy_mutex p s = do {
     m \<leftarrow> mutexes s p;
     t \<leftarrow> destroy_waitqueue (mx_wq m) (sy_task s);
     s \<leftarrow> sy_kfr p (s\<lparr>sy_task := t\<rparr>);
     Some (s\<lparr>mutexes := (mutexes s)(p := None)\<rparr>)
   }"

text \<open>\<^verbatim>\<open>__sync_lock_test_and_set(&mutex->mutex, 1) != 1\<close>\<close>

definition mutex_try :: "addr \<Rightarrow> 'v sync \<Rightarrow> (bool \<times> 'v sync) option" where
  "mutex_try p s = do {
     m \<leftarrow> mutexes s p;
     Some (mx_mutex m \<noteq> 1, s\<lparr>mutexes := (mutexes s)(p \<mapsto> m\<lparr>mx_mutex := 1\<rparr>)\<rparr>)
   }"

text \<open>One round of \<^verbatim>\<open>acquire_mutex\<close>: true if the mutex is acquired, false if the task has gone to sleep.\<close>

definition acquire_mutex_round :: "addr \<Rightarrow> nat \<times> nat \<times> nat \<Rightarrow> 'v sync \<Rightarrow> (bool \<times> 'v sync) option" where
  "acquire_mutex_round p regs s = do {
     (got, s) \<leftarrow> mutex_try p s;
     if got then Some (True, s)
     else do {
       m \<leftarrow> mutexes s p;
       t \<leftarrow> sleep_thread (mx_wq m) SLEEP_INTERRUPTABLE regs (sy_task s);
       Some (False, s\<lparr>sy_task := t\<rparr>)
     }
   }"

text \<open>The condition on which a task that has been woken leaves the loop.\<close>

definition interrupted :: "'v tasking \<Rightarrow> bool" where
  "interrupted s = (case tasks s (current_task s) of None \<Rightarrow> False | Some k \<Rightarrow> t_sleep_flags k AND SLEEP_INTERRUPTED \<noteq> 0)"

definition mutex_unlock :: "addr \<Rightarrow> 'v sync \<Rightarrow> 'v sync option" where
  "mutex_unlock p s = do { m \<leftarrow> mutexes s p; Some (s\<lparr>mutexes := (mutexes s)(p \<mapsto> m\<lparr>mx_mutex := 0\<rparr>)\<rparr>) }"

definition release_mutex :: "addr \<Rightarrow> 'v sync \<Rightarrow> 'v sync option" where
  "release_mutex p s = do {
     s \<leftarrow> mutex_unlock p s;
     m \<leftarrow> mutexes s p;
     t \<leftarrow> wake_queue (mx_wq m) (sy_task s);
     Some (s\<lparr>sy_task := t\<rparr>)
   }"

subsection \<open>Semaphores\<close>

definition create_semaphore :: "nat \<Rightarrow> 'v sync \<Rightarrow> (addr \<times> 'v sync) option" where
  "create_semaphore mx s = do {
     ASSERT (mx > 0);
     (p, s) \<leftarrow> sy_kma sizeof_sem_t s;
     if p = NULL then Some (NULL, s)
     else do {
       (wq, t) \<leftarrow> create_waitqueue (sy_task s);
       let s = s\<lparr>sy_task := t\<rparr>;
       if wq = NULL then do { s \<leftarrow> sy_kfr p s; Some (NULL, s) }
       else Some (p, s\<lparr>sems := (sems s)(p \<mapsto> \<lparr>sem_semaphore = 0, sem_max = mx, sem_wq = wq\<rparr>)\<rparr>)
     }
   }"

definition destroy_semaphore :: "addr \<Rightarrow> 'v sync \<Rightarrow> 'v sync option" where
  "destroy_semaphore p s = do {
     m \<leftarrow> sems s p;
     t \<leftarrow> destroy_waitqueue (sem_wq m) (sy_task s);
     s \<leftarrow> sy_kfr p (s\<lparr>sy_task := t\<rparr>);
     Some (s\<lparr>sems := (sems s)(p := None)\<rparr>)
   }"

definition put_sem :: "addr \<Rightarrow> (nat \<Rightarrow> nat) \<Rightarrow> 'v sync \<Rightarrow> 'v sync option" where
  "put_sem p f s = do { m \<leftarrow> sems s p; Some (s\<lparr>sems := (sems s)(p \<mapsto> m\<lparr>sem_semaphore := f (sem_semaphore m)\<rparr>)\<rparr>) }"

text \<open>\<^verbatim>\<open>__sync_add_and_fetch(&sem->semaphore, 1) > sem->max\<close>, the test that fails\<close>

definition semaphore_try :: "addr \<Rightarrow> 'v sync \<Rightarrow> (bool \<times> 'v sync) option" where
  "semaphore_try p s = do {
     s \<leftarrow> put_sem p (\<lambda>n. add32 n 1) s;
     m \<leftarrow> sems s p;
     Some (\<not> sem_semaphore m > sem_max m, s)
   }"

text \<open>
  One round of \<^verbatim>\<open>acquire_semaphore\<close>. \<^verbatim>\<open>sem->semaphore--\<close> is a load and a store, not one atomic access;
  here no other task runs between them.
\<close>

definition acquire_semaphore_round :: "addr \<Rightarrow> nat \<times> nat \<times> nat \<Rightarrow> 'v sync \<Rightarrow> (bool \<times> 'v sync) option" where
  "acquire_semaphore_round p regs s = do {
     (got, s) \<leftarrow> semaphore_try p s;
     if got then Some (True, s)
     else do {
       s \<leftarrow> put_sem p (\<lambda>n. sub32 n 1) s;
       m \<leftarrow> sems s p;
       t \<leftarrow> sleep_thread (sem_wq m) SLEEP_INTERRUPTABLE regs (sy_task s);
       Some (False, s\<lparr>sy_task := t\<rparr>)
     }
   }"

definition release_semaphore :: "addr \<Rightarrow> 'v sync \<Rightarrow> 'v sync option" where
  "release_semaphore p s = do {
     s \<leftarrow> put_sem p (\<lambda>n. sub32 n 1) s;
     m \<leftarrow> sems s p;
     t \<leftarrow> wake_queue (sem_wq m) (sy_task s);
     Some (s\<lparr>sy_task := t\<rparr>)
   }"

subsection \<open>Read-write semaphores\<close>

text \<open>\<^verbatim>\<open>kmalloc\<close> is not checked: writing to the null pointer has no result.\<close>

definition create_rw_semaphore :: "nat \<Rightarrow> 'v sync \<Rightarrow> (addr \<times> 'v sync) option" where
  "create_rw_semaphore mx s = do {
     (p, s) \<leftarrow> sy_kma sizeof_rw_sem_t s;
     ASSERT (p \<noteq> NULL);
     (w, s) \<leftarrow> create_mutex 0 s;
     if w = NULL then do { s \<leftarrow> sy_kfr p s; Some (NULL, s) }
     else do {
       (m, s) \<leftarrow> create_semaphore mx s;
       if m = NULL then do {
         s \<leftarrow> destroy_mutex w s;
         s \<leftarrow> sy_kfr p s;
         Some (NULL, s)
       } else Some (p, s\<lparr>rw_sems := (rw_sems s)(p \<mapsto> \<lparr>rw_write = w, rw_semaphore = m\<rparr>)\<rparr>)
     }
   }"

definition destroy_rw_semaphore :: "addr \<Rightarrow> 'v sync \<Rightarrow> 'v sync option" where
  "destroy_rw_semaphore p s = do {
     r \<leftarrow> rw_sems s p;
     s \<leftarrow> destroy_mutex (rw_write r) s;
     s \<leftarrow> destroy_semaphore (rw_semaphore r) s;
     s \<leftarrow> sy_kfr p s;
     Some (s\<lparr>rw_sems := (rw_sems s)(p := None)\<rparr>)
   }"

definition acquire_semaphore_read_round :: "addr \<Rightarrow> nat \<times> nat \<times> nat \<Rightarrow> 'v sync \<Rightarrow> (bool \<times> 'v sync) option" where
  "acquire_semaphore_read_round p regs s = do { r \<leftarrow> rw_sems s p; acquire_semaphore_round (rw_semaphore r) regs s }"

definition release_semaphore_read :: "addr \<Rightarrow> 'v sync \<Rightarrow> 'v sync option" where
  "release_semaphore_read p s = do { r \<leftarrow> rw_sems s p; release_semaphore (rw_semaphore r) s }"

text \<open>
  \<^verbatim>\<open>acquire_semaphore_write\<close> by rounds: the mutex, each of the places of the semaphore, the release. The
  counter says how far it has come.
\<close>

datatype wpc = W_lock | W_sem nat | W_done

definition acquire_semaphore_write_round :: "addr \<Rightarrow> wpc \<Rightarrow> nat \<times> nat \<times> nat \<Rightarrow> 'v sync \<Rightarrow> (wpc \<times> 'v sync) option" where
  "acquire_semaphore_write_round p c regs s = do {
     r \<leftarrow> rw_sems s p;
     case c of
       W_lock \<Rightarrow> do {
         (got, s) \<leftarrow> acquire_mutex_round (rw_write r) regs s;
         Some (if got then W_sem 0 else W_lock, s)
       }
     | W_sem i \<Rightarrow> do {
         m \<leftarrow> sems s (rw_semaphore r);
         if i < sem_max m then do {
           (got, s) \<leftarrow> acquire_semaphore_round (rw_semaphore r) regs s;
           Some (W_sem (if got then i + 1 else i), s)
         } else do {
           s \<leftarrow> release_mutex (rw_write r) s;
           Some (W_done, s)
         }
       }
     | W_done \<Rightarrow> Some (W_done, s)
   }"

text \<open>\<^verbatim>\<open>sem->semaphore->semaphore -= sem->semaphore->max\<close>\<close>

definition release_semaphore_write :: "addr \<Rightarrow> 'v sync \<Rightarrow> 'v sync option" where
  "release_semaphore_write p s = do {
     r \<leftarrow> rw_sems s p;
     m \<leftarrow> sems s (rw_semaphore r);
     s \<leftarrow> put_sem (rw_semaphore r) (\<lambda>n. sub32 n (sem_max m)) s;
     t \<leftarrow> wake_queue (sem_wq m) (sy_task s);
     Some (s\<lparr>sy_task := t\<rparr>)
   }"

subsection \<open>Threads that share a mutex\<close>

text \<open>
  Where a thread is: outside, before the test-and-set of \<^verbatim>\<open>acquire_mutex\<close>, after a failed one and before
  \<^verbatim>\<open>sleep_thread\<close>, asleep in it, inside the critical section, or between the two statements of
  \<^verbatim>\<open>release_mutex\<close>. Only the current task moves; the timer can switch tasks at every point.
\<close>

datatype mpc = Outside | Test | Sleeping | Asleep | Inside | Waking

record 'v mstate =
  ms :: "'v sync"
  pc :: "addr \<Rightarrow> mpc"

abbreviation running :: "'v mstate \<Rightarrow> addr" where
  "running m \<equiv> current_task (sy_task (ms m))"

definition goes :: "'v mstate \<Rightarrow> 'v sync \<Rightarrow> mpc \<Rightarrow> 'v mstate" where
  "goes m s' c = m\<lparr>ms := s', pc := (pc m)(running m := c)\<rparr>"

inductive mutex_step :: "addr \<Rightarrow> 'v mstate \<Rightarrow> 'v mstate \<Rightarrow> bool" for p where
  call: "running m \<noteq> kidle (sy_task (ms m)) \<Longrightarrow> pc m (running m) = Outside \<Longrightarrow> mutex_step p m (goes m (ms m) Test)"
| attempt: "pc m (running m) = Test \<Longrightarrow> mutex_try p (ms m) = Some (got, s')
    \<Longrightarrow> mutex_step p m (goes m s' (if got then Inside else Sleeping))"
| sleep: "running m \<noteq> kidle (sy_task (ms m)) \<Longrightarrow> pc m (running m) = Sleeping \<Longrightarrow> mutexes (ms m) p = Some x
    \<Longrightarrow> sleep_thread (mx_wq x) SLEEP_INTERRUPTABLE regs (sy_task (ms m)) = Some t'
    \<Longrightarrow> mutex_step p m (goes m ((ms m)\<lparr>sy_task := t'\<rparr>) Asleep)"
| resume: "pc m (running m) = Asleep
    \<Longrightarrow> mutex_step p m (goes m (ms m) (if interrupted (sy_task (ms m)) then Inside else Test))"
| unlock: "pc m (running m) = Inside \<Longrightarrow> mutex_unlock p (ms m) = Some s' \<Longrightarrow> mutex_step p m (goes m s' Waking)"
| wake: "pc m (running m) = Waking \<Longrightarrow> mutexes (ms m) p = Some x \<Longrightarrow> wake_queue (mx_wq x) (sy_task (ms m)) = Some t'
    \<Longrightarrow> mutex_step p m (goes m ((ms m)\<lparr>sy_task := t'\<rparr>) Outside)"
| tick: "switch_task True regs (sy_task (ms m)) = Some t' \<Longrightarrow> mutex_step p m (m\<lparr>ms := (ms m)\<lparr>sy_task := t'\<rparr>\<rparr>)"

text \<open>The steps of a thread compose to the operations.\<close>

lemma acquire_round_steps:
  assumes "acquire_mutex_round p regs (ms m) = Some (got, s')" "pc m (running m) = Test" "running m \<noteq> kidle (sy_task (ms m))"
  shows "(mutex_step p)\<^sup>*\<^sup>* m (goes m s' (if got then Inside else Asleep))"
proof -
  from assms(1) obtain got1 s1 where s1: "mutex_try p (ms m) = Some (got1, s1)"
    and r: "if got1 then got \<and> s' = s1 else \<not> got \<and> (\<exists>x t. mutexes s1 p = Some x \<and>
      sleep_thread (mx_wq x) SLEEP_INTERRUPTABLE regs (sy_task s1) = Some t \<and> s' = s1\<lparr>sy_task := t\<rparr>)"
    by (auto simp: acquire_mutex_round_def split: bind_splits if_splits)
  have st: "sy_task s1 = sy_task (ms m)" using s1 by (auto simp: mutex_try_def split: bind_splits)
  have 1: "mutex_step p m (goes m s1 (if got1 then Inside else Sleeping))" by (rule mutex_step.attempt [OF assms(2) s1])
  show ?thesis
  proof (cases got1)
    case True
    then show ?thesis using 1 r by simp
  next
    case False
    with r obtain x t where x: "mutexes s1 p = Some x" "sleep_thread (mx_wq x) SLEEP_INTERRUPTABLE regs (sy_task s1) = Some t"
      "s' = s1\<lparr>sy_task := t\<rparr>" "\<not> got" by auto
    let ?m1 = "goes m s1 Sleeping"
    have "mutex_step p ?m1 (goes ?m1 ((ms ?m1)\<lparr>sy_task := t\<rparr>) Asleep)"
      by (rule mutex_step.sleep [where x = x and regs = regs]) (use x assms(3) st in \<open>simp_all add: goes_def\<close>)
    moreover have "goes ?m1 ((ms ?m1)\<lparr>sy_task := t\<rparr>) Asleep = goes m s' Asleep" using x st by (simp add: goes_def)
    ultimately have 2: "mutex_step p ?m1 (goes m s' Asleep)" by simp
    have "mutex_step p m ?m1" using 1 False by simp
    then have "(mutex_step p)\<^sup>*\<^sup>* m (goes m s' Asleep)" using 2 by (rule converse_rtranclp_into_rtranclp [OF _ r_into_rtranclp])
    then show ?thesis using x(4) by simp
  qed
qed

definition no_intr :: "'v tasking \<Rightarrow> bool" where
  "no_intr s \<longleftrightarrow> (\<forall>t k. tasks s t = Some k \<longrightarrow> \<not> bit (t_sleep_flags k) 2)"

definition mutex_inv :: "addr \<Rightarrow> 'v mstate \<Rightarrow> bool" where
  "mutex_inv p m \<longleftrightarrow> sched_inv (sy_task (ms m)) \<and> no_intr (sy_task (ms m)) \<and> (\<exists>x. mutexes (ms m) p = Some x \<and> mx_mutex x \<in> {0, 1}
     \<and> (\<forall>t u. pc m t = Inside \<longrightarrow> mx_mutex x = 1 \<and> (pc m u = Inside \<longrightarrow> t = u)))"

lemma flag_bits: "x AND SLEEP_INTERRUPTED = 0 \<longleftrightarrow> \<not> bit x 2" for x :: "32 word"
proof -
  have "bit SLEEP_INTERRUPTED n \<longleftrightarrow> n = 2" for n
    using bit_exp_iff [where 'a = "32 word", of 2 n] by (auto simp: SLEEP_INTERRUPTED_def)
  then have "x AND SLEEP_INTERRUPTED = 0 \<longleftrightarrow> (\<forall>n < 32. bit x n \<longrightarrow> n \<noteq> 2)"
    using bit_eq_iff [of "x AND SLEEP_INTERRUPTED" 0] by (simp add: bit_and_iff)
  moreover have "(\<forall>n < 32. bit x n \<longrightarrow> n \<noteq> 2) \<longleftrightarrow> \<not> bit x 2"
  proof
    assume "\<forall>n < 32. bit x n \<longrightarrow> n \<noteq> 2"
    from spec [OF this, of 2] show "\<not> bit x 2" by simp
  qed blast
  ultimately show ?thesis by simp
qed

lemma no_intr_switched: "switched b s s' \<Longrightarrow> no_intr s \<Longrightarrow> no_intr s'"
  by (auto simp: switched_def no_intr_def split: prod.splits if_splits)

lemma no_intr_tick: "sched_inv s \<Longrightarrow> no_intr s \<Longrightarrow> switch_task b regs s = Some s' \<Longrightarrow> no_intr s'"
  using no_intr_switched switch_task_effect sched_inv_current by blast

lemma no_intr_sleep:
  assumes "sched_inv s" "no_intr s" "sleep_thread wq SLEEP_INTERRUPTABLE regs s = Some s'"
  shows "no_intr s'"
proof -
  have "current_task s \<noteq> NULL" using sched_inv_current [OF assms(1)] by auto
  from sleep_thread_effect [OF assms(3) this] obtain k w n h where
    sw: "switched False (s\<lparr>iflag := False, tasks := (tasks s)(current_task s \<mapsto> k\<lparr>t_sleep_flags := SLEEP_ASLEEP OR SLEEP_INTERRUPTABLE, t_wq := wq\<rparr>),
      t_heap := h, wqs := (wqs s)(wq \<mapsto> w\<lparr>wq_tasks := wq_tasks w @ [(n, current_task s)]\<rparr>)\<rparr>) s'" by blast
  have "\<not> bit (SLEEP_ASLEEP OR SLEEP_INTERRUPTABLE) 2"
    using bit_exp_iff [where 'a = "32 word", of 1 2] by (simp add: SLEEP_ASLEEP_def SLEEP_INTERRUPTABLE_def bit_or_iff)
  then have "no_intr (s\<lparr>iflag := False, tasks := (tasks s)(current_task s \<mapsto> k\<lparr>t_sleep_flags := SLEEP_ASLEEP OR SLEEP_INTERRUPTABLE, t_wq := wq\<rparr>),
      t_heap := h, wqs := (wqs s)(wq \<mapsto> w\<lparr>wq_tasks := wq_tasks w @ [(n, current_task s)]\<rparr>)\<rparr>)"
    using assms(2) unfolding no_intr_def by auto
  then show ?thesis by (rule no_intr_switched [OF sw])
qed

lemma no_intr_wake:
  assumes "sched_inv s" "no_intr s" "wake_queue wq s = Some s'"
  shows "no_intr s'"
proof -
  from assms(3) obtain w s1 where w: "wqs s wq = Some w" and s1: "wake_all wq (wq_tasks w) (s\<lparr>iflag := False\<rparr>) = Some s1"
    and s': "s' = s1\<lparr>iflag := True\<rparr>"
    by (auto simp: wake_queue_def Let_def split: bind_splits if_splits)
  have "distinct (map snd (wq_tasks w))"
    using assms(1) w unfolding sched_inv_def pool_inv_def queues_ok_def waiting_def by (metis option.simps(5))
  with wake_all_effect [OF s1 _ refl] w s' assms(2) show ?thesis
    by (auto simp: no_intr_def woken_def bit_simps split: if_splits)
qed

lemma mutex_step_inv: "mutex_step p m m' \<Longrightarrow> mutex_inv p m \<Longrightarrow> mutex_inv p m'"
proof (induction rule: mutex_step.induct)
  case (resume m)
  then have "\<not> interrupted (sy_task (ms m))"
    by (auto simp: mutex_inv_def no_intr_def interrupted_def flag_bits split: option.splits)
  with resume show ?case by (auto simp: mutex_inv_def goes_def)
next
  case (sleep m x regs t')
  then have "sched_inv t'" "no_intr t'" using sleep_inv no_intr_sleep unfolding mutex_inv_def by blast+
  with sleep show ?case by (auto simp: mutex_inv_def goes_def)
next
  case (wake m x t')
  then have "sched_inv t'" "no_intr t'" using wake_inv no_intr_wake unfolding mutex_inv_def by blast+
  with wake show ?case by (auto simp: mutex_inv_def goes_def)
next
  case (tick regs m t')
  then have "sched_inv t'" "no_intr t'" using tick_inv no_intr_tick unfolding mutex_inv_def by blast+
  with tick show ?case by (auto simp: mutex_inv_def)
qed (auto simp: mutex_inv_def goes_def mutex_try_def mutex_unlock_def split: bind_splits)

text \<open>A task in a wait queue stays there while the timer switches tasks.\<close>

definition tick_step :: "'v tasking \<Rightarrow> 'v tasking \<Rightarrow> bool" where
  "tick_step s s' \<longleftrightarrow> (\<exists>regs. switch_task True regs s = Some s')"

lemma ticks_waiting:
  assumes "tick_step\<^sup>*\<^sup>* s s'" "sched_inv s"
  shows "sched_inv s' \<and> waiting wq s' = waiting wq s"
  using assms
proof (induction rule: rtranclp_induct)
  case (step y z)
  then obtain regs where "switch_task True regs y = Some z" by (auto simp: tick_step_def)
  moreover have "current_task y \<noteq> NULL" using step sched_inv_current by blast
  ultimately have "switched True y z" "sched_inv z" using step tick_inv switch_task_effect by blast+
  then show ?case using step by (simp add: switched_def waiting_def)
qed simp

lemma sleep_waiting:
  assumes "sched_inv s" "sleep_thread wq flags regs s = Some s'"
  shows "current_task s \<in> set (waiting wq s')"
proof -
  have "current_task s \<noteq> NULL" using sched_inv_current [OF assms(1)] by auto
  from sleep_thread_effect [OF assms(2) this] show ?thesis by (auto simp: switched_def waiting_def)
qed

text \<open>
  A wake-up can be lost. When a thread whose test-and-set has failed gets to \<^verbatim>\<open>sleep_thread\<close> only
  after the owner has released the mutex, it goes to sleep although the mutex is free, and it stays
  asleep however often the timer ticks: only another release would wake it.
\<close>

lemma lost_wakeup:
  assumes "mutex_inv p m" "running m \<noteq> kidle (sy_task (ms m))" "pc m (running m) = Sleeping" "mutexes (ms m) p = Some x" "mx_mutex x = 0"
    and "sleep_thread (mx_wq x) SLEEP_INTERRUPTABLE regs (sy_task (ms m)) = Some t'"
  shows "mutex_step p m (goes m ((ms m)\<lparr>sy_task := t'\<rparr>) Asleep)"
    and "tick_step\<^sup>*\<^sup>* t' s \<Longrightarrow> running m \<in> set (waiting (mx_wq x) s)"
proof -
  have inv: "sched_inv (sy_task (ms m))" using assms(1) by (simp add: mutex_inv_def)
  show "mutex_step p m (goes m ((ms m)\<lparr>sy_task := t'\<rparr>) Asleep)" using assms(2-4,6) by (rule mutex_step.sleep)
  show "running m \<in> set (waiting (mx_wq x) s)" if "tick_step\<^sup>*\<^sup>* t' s"
    using ticks_waiting [OF that sleep_inv [OF inv assms(2,6)]] sleep_waiting [OF inv assms(6)] by simp
qed

subsection \<open>Example\<close>

text \<open>Init and process 3 of the scheduler's example share a mutex at \<open>0xD0000F00\<close>.\<close>

definition demo_mutex :: "nat \<Rightarrow> unit sync" where
  "demo_mutex v = \<lparr>sy_task = demo_tasking, mutexes = [0xD0000F00 \<mapsto> \<lparr>mx_mutex = v, mx_wq = demo_ptr 5\<rparr>], sems = Map.empty, rw_sems = Map.empty\<rparr>"

lemma demo_mutex_inv:
  assumes "v \<in> {0, 1}" "\<And>t. c t = Inside \<Longrightarrow> v = 1 \<and> t = u"
  shows "mutex_inv 0xD0000F00 \<lparr>ms = demo_mutex v, pc = c\<rparr>"
proof -
  have "no_intr demo_tasking"
    by (auto simp: no_intr_def demo_tasking_def demo_task_def zero_task_def split: if_splits)
  then show ?thesis using assms demo_tasking_inv by (auto simp: mutex_inv_def demo_mutex_def)
qed

subsection \<open>Properties\<close>

text \<open>
  C4. Mutual exclusion. However the threads that use a mutex are interleaved by the timer, two
  threads are never between the end of \<^verbatim>\<open>acquire_mutex\<close> and the release at the same time, and the mutex
  word is 1 while one is. In particular \<^verbatim>\<open>acquire_mutex\<close>, which also returns when the sleep is
  interrupted, never returns for this reason.
\<close>

theorem mutual_exclusion:
  assumes "mutex_inv p m" "(mutex_step p)\<^sup>*\<^sup>* m m'" "pc m' t = Inside"
  shows "(\<forall>u. pc m' u = Inside \<longrightarrow> u = t) \<and> map_option mx_mutex (mutexes (ms m') p) = Some 1"
proof -
  from assms(2,1) have "mutex_inv p m'" by (induction rule: rtranclp_induct) (auto intro: mutex_step_inv)
  with assms(3) show ?thesis by (auto simp: mutex_inv_def)
qed

theorem mutual_exclusion_witness:
  "\<exists>m'. mutex_step 0xD0000F00 \<lparr>ms = demo_mutex 0, pc = \<lambda>_. Test\<rparr> m' \<and> pc m' (demo_ptr 1) = Inside
     \<and> map_option mx_mutex (mutexes (ms m') 0xD0000F00) = Some 1"
proof -
  let ?m = "\<lparr>ms = demo_mutex 0, pc = \<lambda>_. Test\<rparr>"
  obtain s' where "mutex_try 0xD0000F00 (demo_mutex 0) = Some (True, s')"
    by (auto simp: mutex_try_def demo_mutex_def)
  then have st: "mutex_step 0xD0000F00 ?m (goes ?m s' (if True then Inside else Sleeping))"
    by (intro mutex_step.attempt) simp_all
  moreover have "pc (goes ?m s' (if True then Inside else Sleeping)) (demo_ptr 1) = Inside"
    by (simp add: goes_def demo_mutex_def demo_tasking_def)
  moreover have "mutex_inv 0xD0000F00 ?m" by (rule demo_mutex_inv) simp_all
  ultimately show ?thesis using mutual_exclusion [OF _ r_into_rtranclp [of "mutex_step 0xD0000F00"]] by blast
qed

end
