(* ===== verification/Vfs.thy ===== *)
theory Vfs
  imports Mutex
begin

section \<open>The virtual file system (kernel/vfs.c)\<close>

text \<open>
  Path names, file nodes with their reference counts, and the tree of mount points. The state of
  vfs.c is the component \<open>t_vfs\<close> of the tasks' state: file nodes, superblocks and mount points by address, the
  nodes of the tree \<^verbatim>\<open>filesystem\<close>, the two spin locks, and in \<open>v_fs\<close> whatever the mounted file systems keep.

  The functions of a file system (\<^verbatim>\<open>struct file_ops\<close>, \<^verbatim>\<open>get_super\<close>, \<^verbatim>\<open>close_fs\<close>) are called through
  pointers: a file node holds the number of its table, and the tables are the argument \<open>ops\<close> of the
  definitions, where \<open>None\<close> is the null pointer. The look-up of a file system type by name is the
  argument \<open>fs_find\<close> of \<open>mount\<close>. Strings are as in Task: those of paths are lists of bytes, and \<^verbatim>\<open>vfs_tokenize\<close>,
  which overwrites the delimiters of a path with zero bytes, gives the list of the strings in between;
  \<^verbatim>\<open>off += strlen(off) + 1\<close> goes to the next of them.
\<close>

subsection \<open>Data\<close>

record fs_node =
  nd_inode :: nat
  nd_uid :: nat
  nd_gid :: nat
  nd_mode :: "32 word"
  nd_flags :: "32 word"
  nd_len :: nat
  nd_dev :: nat
  nd_atime :: nat
  nd_mtime :: nat
  nd_ctime :: nat
  nd_ops :: nat
  nd_fs_sb :: addr
  nd_private :: addr
  nd_refcount :: int
  nd_nlink :: nat

record superblock =
  sb_dev :: nat
  sb_private :: addr
  sb_root :: addr
  sb_blocksize :: nat
  sb_flags :: "32 word"
  sb_close_fs :: nat

record mountpoint =
  mp_name :: bytes
  mp_sb :: addr

record stat =
  st_dev :: nat
  st_ino :: nat
  st_mode :: "32 word"
  st_nlink :: nat
  st_uid :: nat
  st_gid :: nat
  st_rdev :: nat
  st_size :: nat
  st_atime :: nat
  st_mtime :: nat
  st_ctime :: nat
  st_blksize :: nat
  st_blocks :: nat

text \<open>A node of the tree of mount points; its data is a mount point.\<close>

record mtnode =
  mt_data :: addr
  mt_children :: addr
  mt_kids :: queue
  mt_parent :: addr

record 'x vfs =
  v_fs :: 'x
  fs_nodes :: "addr \<rightharpoonup> fs_node"
  superblocks :: "addr \<rightharpoonup> superblock"
  mountpoints :: "addr \<rightharpoonup> mountpoint"
  mtree :: "addr \<rightharpoonup> mtnode"
  mroot :: addr
  vfs_lock :: bool
  refcount_lock :: bool

type_synonym 'x kst = "'x vfs tasking"

record 's file_ops =
  op_read :: "nat \<Rightarrow> (addr \<Rightarrow> nat \<Rightarrow> int \<Rightarrow> 's \<Rightarrow> ((int \<times> bytes) \<times> 's) option) option"
  op_write :: "nat \<Rightarrow> (addr \<Rightarrow> bytes \<Rightarrow> nat \<Rightarrow> int \<Rightarrow> 's \<Rightarrow> (int \<times> 's) option) option"
  op_open :: "nat \<Rightarrow> (addr \<Rightarrow> 32 word \<Rightarrow> 's \<Rightarrow> (int \<times> 's) option) option"
  op_close :: "nat \<Rightarrow> (addr \<Rightarrow> 's \<Rightarrow> (int \<times> 's) option) option"
  op_readdir :: "nat \<Rightarrow> (addr \<Rightarrow> nat \<Rightarrow> 's \<Rightarrow> ((int \<times> nat \<times> bytes) \<times> 's) option) option"
  op_finddir :: "nat \<Rightarrow> (addr \<Rightarrow> bytes \<Rightarrow> 's \<Rightarrow> (addr \<times> 's) option) option"
  op_chmod :: "nat \<Rightarrow> (addr \<Rightarrow> 32 word \<Rightarrow> 's \<Rightarrow> (int \<times> 's) option) option"
  op_chown :: "nat \<Rightarrow> (addr \<Rightarrow> nat \<Rightarrow> nat \<Rightarrow> 's \<Rightarrow> (int \<times> 's) option) option"
  op_ioctl :: "nat \<Rightarrow> (addr \<Rightarrow> nat \<Rightarrow> addr \<Rightarrow> 's \<Rightarrow> (int \<times> 's) option) option"
  op_create :: "nat \<Rightarrow> (addr \<Rightarrow> bytes \<Rightarrow> nat \<Rightarrow> nat \<Rightarrow> 32 word \<Rightarrow> nat \<Rightarrow> 's \<Rightarrow> (int \<times> 's) option) option"
  op_link :: "nat \<Rightarrow> (addr \<Rightarrow> addr \<Rightarrow> bytes \<Rightarrow> 's \<Rightarrow> (int \<times> 's) option) option"
  op_unlink :: "nat \<Rightarrow> (addr \<Rightarrow> bytes \<Rightarrow> 's \<Rightarrow> (int \<times> 's) option) option"
  op_get_super :: "addr \<Rightarrow> nat \<Rightarrow> 32 word \<Rightarrow> 's \<Rightarrow> (addr \<times> 's) option"
  op_close_fs :: "nat \<Rightarrow> addr \<Rightarrow> 32 word \<Rightarrow> 's \<Rightarrow> (int \<times> 's) option"

definition NAME_MAX :: nat where "NAME_MAX = 256"
definition VFS_FILE :: "32 word" where "VFS_FILE = 0x010000"
definition VFS_DIR :: "32 word" where "VFS_DIR = 0x020000"
definition VFS_CHARDEV :: "32 word" where "VFS_CHARDEV = 0x040000"
definition VFS_BLOCKDEV :: "32 word" where "VFS_BLOCKDEV = 0x080000"
definition O_RDONLY :: "32 word" where "O_RDONLY = 0x01"
definition O_WRONLY :: "32 word" where "O_WRONLY = 0x02"
definition FS_NODEV :: "32 word" where "FS_NODEV = 0x01"
definition MNT_RDONLY :: "32 word" where "MNT_RDONLY = 0x01"
definition MNT_FORCE :: "32 word" where "MNT_FORCE = 0x02"
definition MNT_DETACH :: "32 word" where "MNT_DETACH = 0x04"
definition PATH_DELIMITER :: "8 word" where "PATH_DELIMITER = 0x2F"
definition PATH_THIS_DIR :: bytes where "PATH_THIS_DIR = [0x2E]"
definition PATH_PARENT_DIR :: bytes where "PATH_PARENT_DIR = [0x2E, 0x2E]"

definition sizeof_fs_node_t :: nat where "sizeof_fs_node_t = 108"
definition sizeof_mountpoint :: nat where "sizeof_mountpoint = 8"

definition upd_vfs :: "('x vfs \<Rightarrow> 'x vfs) \<Rightarrow> 'x kst \<Rightarrow> 'x kst" where
  "upd_vfs f s = s\<lparr>t_vfs := f (t_vfs s)\<rparr>"

definition get_fsn :: "addr \<Rightarrow> 'x kst \<Rightarrow> fs_node option" where
  "get_fsn p s = fs_nodes (t_vfs s) p"

definition put_fsn :: "addr \<Rightarrow> fs_node \<Rightarrow> 'x kst \<Rightarrow> 'x kst" where
  "put_fsn p nd s = upd_vfs (\<lambda>v. v\<lparr>fs_nodes := (fs_nodes v)(p \<mapsto> nd)\<rparr>) s"

definition free_fsn :: "addr \<Rightarrow> 'x kst \<Rightarrow> 'x kst option" where
  "free_fsn p s = do { s \<leftarrow> kfr p s; Some (upd_vfs (\<lambda>v. v\<lparr>fs_nodes := (fs_nodes v)(p := None)\<rparr>) s) }"

text \<open>A spin lock that is held when it is to be taken is waited for forever.\<close>

definition lock_vfs :: "'x kst \<Rightarrow> 'x kst option" where
  "lock_vfs s = (if vfs_lock (t_vfs s) then None else Some (upd_vfs (\<lambda>v. v\<lparr>vfs_lock := True\<rparr>) s))"

definition unlock_vfs :: "'x kst \<Rightarrow> 'x kst" where
  "unlock_vfs s = upd_vfs (\<lambda>v. v\<lparr>vfs_lock := False\<rparr>) s"

definition lock_refcount :: "'x kst \<Rightarrow> 'x kst option" where
  "lock_refcount s = (if refcount_lock (t_vfs s) then None else Some (upd_vfs (\<lambda>v. v\<lparr>refcount_lock := True\<rparr>) s))"

definition unlock_refcount :: "'x kst \<Rightarrow> 'x kst" where
  "unlock_refcount s = upd_vfs (\<lambda>v. v\<lparr>refcount_lock := False\<rparr>) s"

subsection \<open>Path names\<close>

fun vfs_tokenize :: "bytes \<Rightarrow> bytes list" where
  "vfs_tokenize [] = [[]]"
| "vfs_tokenize (c # cs) =
    (if c = PATH_DELIMITER then [] # vfs_tokenize cs
     else case vfs_tokenize cs of [] \<Rightarrow> [[c]] | t # ts \<Rightarrow> (c # t) # ts)"

text \<open>The list \<^verbatim>\<open>fifo\<close> by its contents: list nodes, the addresses of the strings and the strings.\<close>

type_synonym fifo = "(addr \<times> addr \<times> bytes) list"

definition fifo_insert :: "addr \<Rightarrow> bytes \<Rightarrow> fifo \<Rightarrow> 'v tasking \<Rightarrow> (addr \<times> fifo \<times> 'v tasking) option" where
  "fifo_insert p t q s = do {
     (n, s) \<leftarrow> kma sizeof_node_t s;
     Some (n, if n = NULL then q else q @ [(n, p, t)], s)
   }"

text \<open>\<^verbatim>\<open>list_remove\<close> of a node that has been removed before uses memory that is released.\<close>

definition fifo_remove :: "addr \<Rightarrow> fifo \<Rightarrow> 'v tasking \<Rightarrow> (fifo \<times> 'v tasking) option" where
  "fifo_remove node q s =
    (if node = NULL then Some (q, s)
     else case find (\<lambda>x. fst x = node) q of
       None \<Rightarrow> None
     | Some (n, p, t) \<Rightarrow> do {
         s \<leftarrow> kfr p s;
         s \<leftarrow> kfr n s;
         Some (remove1 (n, p, t) q, s)
       })"

fun fifo_destroy :: "fifo \<Rightarrow> 'v tasking \<Rightarrow> 'v tasking option" where
  "fifo_destroy [] s = Some s"
| "fifo_destroy ((n, p, t) # q) s = do { s \<leftarrow> kfr p s; s \<leftarrow> kfr n s; fifo_destroy q s }"

text \<open>The two loops over the elements of a path; false when there is no memory for a string.\<close>

fun push_cwd :: "bytes list \<Rightarrow> fifo \<Rightarrow> 'v tasking \<Rightarrow> (bool \<times> fifo \<times> 'v tasking) option" where
  "push_cwd [] q s = Some (True, q, s)"
| "push_cwd (t # ts) q s =
    (if t = [] then push_cwd ts q s
     else do {
       (p, s) \<leftarrow> kma (length t + 1) s;
       if p = NULL then Some (False, q, s)
       else do {
         (_, q, s) \<leftarrow> fifo_insert p t q s;
         push_cwd ts q s
       }
     })"

fun push_path :: "bytes list \<Rightarrow> addr \<Rightarrow> fifo \<Rightarrow> 'v tasking \<Rightarrow> (bool \<times> fifo \<times> 'v tasking) option" where
  "push_path [] prev q s = Some (True, q, s)"
| "push_path (t # ts) prev q s =
    (if t = [] then push_path ts prev q s
     else do {
       this \<leftarrow> strcmp (c_mem t) (c_mem PATH_THIS_DIR);
       parent \<leftarrow> strcmp (c_mem t) (c_mem PATH_PARENT_DIR);
       if this = 0 then push_path ts prev q s
       else if parent = 0 then do {
         (q, s) \<leftarrow> fifo_remove prev q s;
         push_path ts prev q s
       } else do {
         (p, s) \<leftarrow> kma (length t + 1) s;
         if p = NULL then Some (False, q, s)
         else do {
           (prev, q, s) \<leftarrow> fifo_insert p t q s;
           push_path ts prev q s
         }
       }
     })"

definition fifo_path :: "fifo \<Rightarrow> bytes" where
  "fifo_path q = concat (map (\<lambda>(n, p, t). PATH_DELIMITER # t) q)"

definition fifo_fail :: "addr \<Rightarrow> fifo \<Rightarrow> 'v tasking \<Rightarrow> (addr \<times> 'v tasking) option" where
  "fifo_fail l q s = do { s \<leftarrow> fifo_destroy q s; s \<leftarrow> kfr l s; Some (NULL, s) }"

text \<open>
  The string for the result. For the root, \<^verbatim>\<open>krealloc\<close> is called and its result only compared with the
  null pointer: unless the block stays where it is, the two bytes go to memory that is released.
\<close>

definition write_path :: "addr \<Rightarrow> fifo \<Rightarrow> 'v tasking \<Rightarrow> (addr \<times> 'v tasking) option" where
  "write_path l q s = do {
     let sz = length (fifo_path q);
     (can, s) \<leftarrow> kma (sz + 1) s;
     if can = NULL then fifo_fail l q s
     else if sz = 0 then do {
       (r, h) \<leftarrow> krealloc can 2 (t_heap s);
       let s = s\<lparr>t_heap := h\<rparr>;
       if r = NULL then do { s \<leftarrow> kfr can s; fifo_fail l q s }
       else do {
         ASSERT (r = can);
         s \<leftarrow> fifo_destroy q s;
         s \<leftarrow> kfr l s;
         Some (can, s\<lparr>strs := (strs s)(can \<mapsto> [PATH_DELIMITER])\<rparr>)
       }
     } else do {
       let s = s\<lparr>strs := (strs s)(can \<mapsto> fifo_path q)\<rparr>;
       s \<leftarrow> fifo_destroy q s;
       s \<leftarrow> kfr l s;
       Some (can, s)
     }
   }"

definition fifo_tail :: "fifo \<Rightarrow> addr" where
  "fifo_tail q = (if q = [] then NULL else fst (last q))"

definition canonicalize_path :: "bytes \<Rightarrow> bytes \<Rightarrow> 'v tasking \<Rightarrow> (addr \<times> 'v tasking) option" where
  "canonicalize_path cwd relpath s = do {
     (l, s) \<leftarrow> kma sizeof_list_t s;
     if l = NULL then Some (NULL, s)
     else do {
       (ok, q, s) \<leftarrow> (if relpath = [] \<or> hd relpath \<noteq> PATH_DELIMITER then do {
           (cp, s) \<leftarrow> kma (length cwd + 1) s;
           if cp = NULL then Some (False, [], s)
           else do {
             (ok, q, s) \<leftarrow> push_cwd (vfs_tokenize cwd) [] s;
             s \<leftarrow> kfr cp s;
             Some (ok, q, s)
           }
         } else Some (True, [], s));
       if \<not> ok then fifo_fail l q s
       else do {
         (cp, s) \<leftarrow> kma (length relpath + 1) s;
         if cp = NULL then fifo_fail l q s
         else do {
           (ok, q, s) \<leftarrow> push_path (vfs_tokenize relpath) (fifo_tail q) q s;
           s \<leftarrow> kfr cp s;
           if ok then write_path l q s else fifo_fail l q s
         }
       }
     }
   }"

subsection \<open>Operations on file nodes\<close>

definition read_vfs :: "'x kst file_ops \<Rightarrow> addr \<Rightarrow> nat \<Rightarrow> int \<Rightarrow> 'x kst \<Rightarrow> ((int \<times> bytes) \<times> 'x kst) option" where
  "read_vfs ops node count off s =
    (if node = NULL then Some ((- EBADF, []), s)
     else do {
       nd \<leftarrow> get_fsn node s;
       if nd_mode nd AND VFS_DIR \<noteq> 0 then Some ((- EINVAL, []), s)
       else case op_read ops (nd_ops nd) of
         Some f \<Rightarrow> f node count off s
       | None \<Rightarrow> Some ((- 1, []), s)
     })"

definition write_vfs :: "'x kst file_ops \<Rightarrow> addr \<Rightarrow> bytes \<Rightarrow> nat \<Rightarrow> int \<Rightarrow> 'x kst \<Rightarrow> (int \<times> 'x kst) option" where
  "write_vfs ops node buf count off s =
    (if node = NULL then Some (- EBADF, s)
     else do {
       nd \<leftarrow> get_fsn node s;
       if nd_mode nd AND VFS_DIR \<noteq> 0 then Some (- EINVAL, s)
       else case op_write ops (nd_ops nd) of
         Some f \<Rightarrow> f node buf count off s
       | None \<Rightarrow> Some (- 1, s)
     })"

text \<open>The part of \<^verbatim>\<open>open_vfs\<close> that runs with the lock of the reference counts held.\<close>

definition open_locked :: "'x kst file_ops \<Rightarrow> addr \<Rightarrow> 32 word \<Rightarrow> 'x kst \<Rightarrow> (int \<times> 'x kst) option" where
  "open_locked ops node flags s = do {
     s \<leftarrow> lock_refcount s;
     nd \<leftarrow> get_fsn node s;
     (ret, s) \<leftarrow> (case op_open ops (nd_ops nd) of Some f \<Rightarrow> f node flags s | None \<Rightarrow> Some (- EACCES, s));
     nd \<leftarrow> get_fsn node s;
     let s = (if nd_refcount nd \<ge> 0 \<and> ret \<ge> 0 then put_fsn node (nd\<lparr>nd_refcount := nd_refcount nd + 1\<rparr>) s else s);
     Some (ret, unlock_refcount s)
   }"

definition open_vfs :: "'x kst file_ops \<Rightarrow> addr \<Rightarrow> 32 word \<Rightarrow> 'x kst \<Rightarrow> (int \<times> 'x kst) option" where
  "open_vfs ops node flags s =
    (if node = NULL then Some (- EBADF, s)
     else do {
       nd \<leftarrow> get_fsn node s;
       sb \<leftarrow> superblocks (t_vfs s) (nd_fs_sb nd);
       if sb_flags sb AND MNT_RDONLY \<noteq> 0 \<and> flags AND O_WRONLY \<noteq> 0 then Some (- EROFS, s)
       else do {
         let s = put_fsn node (nd\<lparr>nd_flags := flags\<rparr>) s;
         if nd_refcount nd = - 1 then Some (0, s) else open_locked ops node flags s
       }
     })"

definition close_vfs :: "'x kst file_ops \<Rightarrow> addr \<Rightarrow> 'x kst \<Rightarrow> (int \<times> 'x kst) option" where
  "close_vfs ops node s =
    (if node = NULL then Some (- EBADF, s)
     else do {
       nd \<leftarrow> get_fsn node s;
       if nd_refcount nd = - 1 then do { s \<leftarrow> free_fsn node s; Some (0, s) }
       else do {
         s \<leftarrow> lock_refcount s;
         let s = put_fsn node (nd\<lparr>nd_refcount := nd_refcount nd - 1\<rparr>) s;
         (ret, s) \<leftarrow> (if nd_refcount nd - 1 = 0 then do {
             (ret, s) \<leftarrow> (case op_close ops (nd_ops nd) of Some f \<Rightarrow> f node s | None \<Rightarrow> Some (0, s));
             s \<leftarrow> free_fsn node s;
             Some (ret, s)
           } else Some (0, s));
         Some (ret, unlock_refcount s)
       }
     })"

definition readdir_vfs :: "'x kst file_ops \<Rightarrow> addr \<Rightarrow> nat \<Rightarrow> 'x kst \<Rightarrow> ((int \<times> nat \<times> bytes) \<times> 'x kst) option" where
  "readdir_vfs ops node idx s =
    (if node = NULL then Some ((- EBADF, 0, []), s)
     else do {
       nd \<leftarrow> get_fsn node s;
       if nd_mode nd AND VFS_DIR = 0 then Some ((- ENOTDIR, 0, []), s)
       else case op_readdir ops (nd_ops nd) of
         Some f \<Rightarrow> f node idx s
       | None \<Rightarrow> Some ((- 1, 0, []), s)
     })"

definition finddir_vfs :: "'x kst file_ops \<Rightarrow> addr \<Rightarrow> bytes \<Rightarrow> 'x kst \<Rightarrow> (addr \<times> 'x kst) option" where
  "finddir_vfs ops node name s =
    (if node = NULL then Some (NULL, s)
     else do {
       nd \<leftarrow> get_fsn node s;
       if nd_mode nd AND VFS_DIR = 0 then Some (NULL, s)
       else case op_finddir ops (nd_ops nd) of
         Some f \<Rightarrow> f node name s
       | None \<Rightarrow> Some (NULL, s)
     })"

text \<open>A block size of zero is a division by zero.\<close>

definition stat_vfs :: "addr \<Rightarrow> 'x kst \<Rightarrow> (int \<times> stat option) option" where
  "stat_vfs node s =
    (if node = NULL then Some (- EBADF, None)
     else do {
       nd \<leftarrow> get_fsn node s;
       sb \<leftarrow> superblocks (t_vfs s) (nd_fs_sb nd);
       ASSERT (sb_blocksize sb \<noteq> 0);
       Some (0, Some \<lparr>st_dev = sb_dev sb, st_ino = nd_inode nd, st_mode = nd_mode nd, st_nlink = nd_nlink nd,
         st_uid = nd_uid nd, st_gid = nd_gid nd, st_rdev = nd_dev nd, st_size = nd_len nd, st_atime = nd_atime nd,
         st_mtime = nd_mtime nd, st_ctime = nd_ctime nd, st_blksize = sb_blocksize sb,
         st_blocks = nd_len nd div sb_blocksize sb\<rparr>)
     })"

definition chmod_vfs :: "'x kst file_ops \<Rightarrow> addr \<Rightarrow> 32 word \<Rightarrow> 'x kst \<Rightarrow> (int \<times> 'x kst) option" where
  "chmod_vfs ops node mode s =
    (if node = NULL then Some (- EBADF, s)
     else do {
       nd \<leftarrow> get_fsn node s;
       case op_chmod ops (nd_ops nd) of Some f \<Rightarrow> f node mode s | None \<Rightarrow> Some (0, s)
     })"

text \<open>\<^verbatim>\<open>chown_vfs\<close> tests the pointer \<^verbatim>\<open>chmod\<close> and calls \<^verbatim>\<open>chown\<close>, which may be null.\<close>

definition chown_vfs :: "'x kst file_ops \<Rightarrow> addr \<Rightarrow> nat \<Rightarrow> nat \<Rightarrow> 'x kst \<Rightarrow> (int \<times> 'x kst) option" where
  "chown_vfs ops node uid gid s =
    (if node = NULL then Some (- EBADF, s)
     else do {
       nd \<leftarrow> get_fsn node s;
       case op_chmod ops (nd_ops nd) of
         Some _ \<Rightarrow> do { f \<leftarrow> op_chown ops (nd_ops nd); f node uid gid s }
       | None \<Rightarrow> Some (0, s)
     })"

definition ioctl_vfs :: "'x kst file_ops \<Rightarrow> addr \<Rightarrow> nat \<Rightarrow> addr \<Rightarrow> 'x kst \<Rightarrow> (int \<times> 'x kst) option" where
  "ioctl_vfs ops node req d s =
    (if node = NULL then Some (- EBADF, s)
     else do {
       nd \<leftarrow> get_fsn node s;
       if nd_mode nd AND (VFS_CHARDEV OR VFS_BLOCKDEV) = 0 then Some (- ENOTTY, s)
       else case op_ioctl ops (nd_ops nd) of
         Some f \<Rightarrow> f node req d s
       | None \<Rightarrow> Some (- EINVAL, s)
     })"

definition create_vfs :: "'x kst file_ops \<Rightarrow> addr \<Rightarrow> bytes \<Rightarrow> nat \<Rightarrow> nat \<Rightarrow> 32 word \<Rightarrow> nat \<Rightarrow> 'x kst \<Rightarrow> (int \<times> 'x kst) option" where
  "create_vfs ops parent fname uid gid mode dev s =
    (if parent = NULL then Some (- EBADF, s)
     else do {
       nd \<leftarrow> get_fsn parent s;
       if nd_mode nd AND VFS_DIR = 0 then Some (- ENOTDIR, s)
       else do {
         (exist, s) \<leftarrow> finddir_vfs ops parent fname s;
         if exist \<noteq> NULL then do { s \<leftarrow> free_fsn exist s; Some (- EEXIST, s) }
         else case op_create ops (nd_ops nd) of
           Some f \<Rightarrow> f parent fname uid gid mode dev s
         | None \<Rightarrow> Some (- EACCES, s)
       }
     })"

definition link_vfs :: "'x kst file_ops \<Rightarrow> addr \<Rightarrow> addr \<Rightarrow> bytes \<Rightarrow> 'x kst \<Rightarrow> (int \<times> 'x kst) option" where
  "link_vfs ops parent child fname s =
    (if child = NULL \<or> parent = NULL then Some (- EBADF, s)
     else do {
       nd \<leftarrow> get_fsn parent s;
       if nd_mode nd AND VFS_DIR = 0 then Some (- ENOTDIR, s)
       else do {
         cd \<leftarrow> get_fsn child s;
         if nd_fs_sb nd \<noteq> nd_fs_sb cd then Some (- EXDEV, s)
         else do {
           (exist, s) \<leftarrow> finddir_vfs ops parent fname s;
           if exist \<noteq> NULL then do { s \<leftarrow> free_fsn exist s; Some (- EEXIST, s) }
           else case op_link ops (nd_ops nd) of
             Some f \<Rightarrow> f parent child fname s
           | None \<Rightarrow> Some (- EPERM, s)
         }
       }
     })"

definition unlink_vfs :: "'x kst file_ops \<Rightarrow> addr \<Rightarrow> bytes \<Rightarrow> 'x kst \<Rightarrow> (int \<times> 'x kst) option" where
  "unlink_vfs ops parent fname s =
    (if parent = NULL then Some (- EBADF, s)
     else do {
       nd \<leftarrow> get_fsn parent s;
       if nd_mode nd AND VFS_DIR = 0 then Some (- ENOTDIR, s)
       else case op_unlink ops (nd_ops nd) of
         Some f \<Rightarrow> f parent fname s
       | None \<Rightarrow> Some (- EACCES, s)
     })"

text \<open>\<^verbatim>\<open>memcpy\<close> of a file node into a new block; null if there is no memory.\<close>

definition copy_fsn :: "addr \<Rightarrow> 'x kst \<Rightarrow> (addr \<times> 'x kst) option" where
  "copy_fsn node s = do {
     (p, s) \<leftarrow> kma sizeof_fs_node_t s;
     if p = NULL then Some (NULL, s)
     else do {
       nd \<leftarrow> get_fsn node s;
       Some (p, put_fsn p nd s)
     }
   }"

definition clone_file :: "addr \<Rightarrow> 'x kst \<Rightarrow> (addr \<times> 'x kst) option" where
  "clone_file node s =
    (if node = NULL then Some (NULL, s)
     else do {
       nd \<leftarrow> get_fsn node s;
       if nd_refcount nd = - 1 then copy_fsn node s
       else do {
         s \<leftarrow> lock_refcount s;
         let s = (if nd_refcount nd \<ge> 0 then put_fsn node (nd\<lparr>nd_refcount := nd_refcount nd + 1\<rparr>) s else s);
         Some (node, unlock_refcount s)
       }
     })"

subsection \<open>Mount points\<close>

definition get_mp :: "addr \<Rightarrow> 'x kst \<Rightarrow> mountpoint option" where
  "get_mp p s = mountpoints (t_vfs s) p"

definition put_mp :: "addr \<Rightarrow> mountpoint \<Rightarrow> 'x kst \<Rightarrow> 'x kst" where
  "put_mp p m s = upd_vfs (\<lambda>v. v\<lparr>mountpoints := (mountpoints v)(p \<mapsto> m)\<rparr>) s"

text \<open>\<^verbatim>\<open>tree_set_root\<close> and \<^verbatim>\<open>tree_insert_node\<close> on the tree \<^verbatim>\<open>filesystem\<close>.\<close>

definition mt_set_root :: "addr \<Rightarrow> 'x kst \<Rightarrow> (addr \<times> 'x kst) option" where
  "mt_set_root d s = do {
     (p, s) \<leftarrow> kma sizeof_tree_node_t s;
     if p = NULL then Some (NULL, s)
     else do {
       (c, s) \<leftarrow> kma sizeof_list_t s;
       if c = NULL then do { s \<leftarrow> kfr p s; Some (NULL, s) }
       else Some (p, upd_vfs (\<lambda>v. v\<lparr>mroot := p,
         mtree := (mtree v)(p \<mapsto> \<lparr>mt_data = d, mt_children = c, mt_kids = [], mt_parent = NULL\<rparr>)\<rparr>) s)
     }
   }"

definition mt_insert :: "addr \<Rightarrow> addr \<Rightarrow> 'x kst \<Rightarrow> (addr \<times> 'x kst) option" where
  "mt_insert parent d s = do {
     (p, s) \<leftarrow> kma sizeof_tree_node_t s;
     if p = NULL then Some (NULL, s)
     else do {
       (c, s) \<leftarrow> kma sizeof_list_t s;
       if c = NULL then do { s \<leftarrow> kfr p s; Some (NULL, s) }
       else do {
         let s = upd_vfs (\<lambda>v. v\<lparr>mtree := (mtree v)(p \<mapsto> \<lparr>mt_data = d, mt_children = c, mt_kids = [], mt_parent = parent\<rparr>)\<rparr>) s;
         pn \<leftarrow> mtree (t_vfs s) parent;
         (n, q, h) \<leftarrow> queue_insert p (mt_kids pn) (t_heap s);
         Some (p, upd_vfs (\<lambda>v. v\<lparr>mtree := (mtree v)(parent \<mapsto> pn\<lparr>mt_kids := q\<rparr>)\<rparr>) (s\<lparr>t_heap := h\<rparr>))
       }
     }
   }"

text \<open>
  The loops over the children of a node of the tree: the first child whose name compares equal to the
  element of the path. \<^verbatim>\<open>mount\<close> and \<^verbatim>\<open>umount\<close> compare the name with the element, \<^verbatim>\<open>get_local_root\<close> the element
  with the name, and \<^verbatim>\<open>strcmp\<close> is not symmetric. The null pointer stands for none.
\<close>

fun find_kid :: "bool \<Rightarrow> bytes \<Rightarrow> queue \<Rightarrow> 'x kst \<Rightarrow> addr option" where
  "find_kid name_first off [] s = Some NULL"
| "find_kid name_first off ((n, tn) # q) s = do {
     nd \<leftarrow> mtree (t_vfs s) tn;
     mp \<leftarrow> get_mp (mt_data nd) s;
     c \<leftarrow> (if name_first then strcmp (c_mem (mp_name mp)) (c_mem off) else strcmp (c_mem off) (c_mem (mp_name mp)));
     if c = 0 then Some tn else find_kid name_first off q s
   }"

text \<open>
  \<^verbatim>\<open>vfs_prune\<close>: the loop up the tree reads the children of the node before it compares the node with the
  null pointer. \<^verbatim>\<open>tree_delete_branch\<close> of a node below the root uses memory it has released (Trees), so
  there is a result only if there is nothing to delete.
\<close>

partial_function (option) prune_head :: "addr \<Rightarrow> addr \<Rightarrow> 'x kst \<Rightarrow> addr option" where
  "prune_head node branch_head s = do {
     nd \<leftarrow> mtree (t_vfs s) node;
     if length (mt_kids nd) > 1 then Some branch_head
     else do {
       mp \<leftarrow> get_mp (mt_data nd) s;
       if mp_sb mp \<noteq> NULL then Some branch_head else prune_head (mt_parent nd) node s
     }
   }"

declare prune_head.simps [code]

definition vfs_prune :: "addr \<Rightarrow> 'x kst \<Rightarrow> 'x kst option" where
  "vfs_prune node s = do {
     nd \<leftarrow> mtree (t_vfs s) node;
     mp \<leftarrow> get_mp (mt_data nd) s;
     ASSERT (mp_sb mp = NULL);
     branch_head \<leftarrow> prune_head node NULL s;
     if branch_head = NULL then Some s else None
   }"

text \<open>
  The loop of \<^verbatim>\<open>mount\<close> over the elements of the path, which creates the nodes that are missing:
  \<open>Inl\<close> for the error returns. The null pointer \<open>entry\<close> is that of a path without elements.
\<close>

fun mount_walk :: "addr \<Rightarrow> bytes list \<Rightarrow> addr \<Rightarrow> addr \<Rightarrow> 'x kst \<Rightarrow> ((int + addr \<times> addr) \<times> 'x kst) option" where
  "mount_walk path [] node entry s = Some (Inr (node, entry), s)"
| "mount_walk path (t # ts) node entry s =
    (if t = [] then mount_walk path ts node entry s
     else do {
       nd \<leftarrow> mtree (t_vfs s) node;
       kid \<leftarrow> find_kid True t (mt_kids nd) s;
       if kid \<noteq> NULL then do {
         kd \<leftarrow> mtree (t_vfs s) kid;
         mount_walk path ts kid (mt_data kd) s
       } else do {
         (e, s) \<leftarrow> kma sizeof_mountpoint s;
         if e = NULL then do {
           s \<leftarrow> kfr path s;
           s \<leftarrow> vfs_prune node s;
           Some (Inl (- ENOMEM), unlock_vfs s)
         } else do {
           (nm, s) \<leftarrow> kma (length t + 1) s;
           if nm = NULL then do {
             s \<leftarrow> kfr e s;
             s \<leftarrow> kfr path s;
             s \<leftarrow> vfs_prune node s;
             Some (Inl (- ENOMEM), unlock_vfs s)
           } else do {
             (kid, s) \<leftarrow> mt_insert node e (put_mp e \<lparr>mp_name = t, mp_sb = NULL\<rparr> s);
             mount_walk path ts kid e s
           }
         }
       }
     })"

text \<open>The root of the tree, made by the first \<^verbatim>\<open>mount\<close>; false if there is no memory (the lock stays held).\<close>

definition mount_root :: "'x kst \<Rightarrow> (bool \<times> 'x kst) option" where
  "mount_root s =
    (if mroot (t_vfs s) \<noteq> NULL then Some (True, s)
     else do {
       (r, s) \<leftarrow> kma sizeof_mountpoint s;
       if r = NULL then Some (False, s)
       else do {
         (p, s) \<leftarrow> mt_set_root r (put_mp r \<lparr>mp_name = map (word_of_nat \<circ> of_char) ''[root]'', mp_sb = NULL\<rparr> s);
         if p = NULL then do { s \<leftarrow> kfr r s; Some (False, s) } else Some (True, s)
       }
     })"

definition cwd_path :: "bytes \<Rightarrow> 'x kst \<Rightarrow> (addr \<times> 'x kst) option" where
  "cwd_path relpath s = do {
     c \<leftarrow> tasks s (current_task s);
     cwd \<leftarrow> strs s (t_cwd c);
     canonicalize_path cwd relpath s
   }"

text \<open>\<^verbatim>\<open>mount\<close> from the point on where the node of the mount point is known.\<close>

definition mount_at :: "'x kst file_ops \<Rightarrow> addr \<Rightarrow> addr \<Rightarrow> 32 word \<Rightarrow> addr \<Rightarrow> addr \<Rightarrow> 'x kst \<Rightarrow> (int \<times> 'x kst) option" where
  "mount_at ops fs dev flags node entry s = do {
     mp \<leftarrow> get_mp entry s;
     if mp_sb mp \<noteq> NULL then do {
       s \<leftarrow> vfs_prune node s;
       Some (- EBUSY, unlock_vfs s)
     } else do {
       d \<leftarrow> (if dev = NULL then Some 0 else map_option nd_dev (get_fsn dev s));
       (sb, s) \<leftarrow> op_get_super ops fs d flags s;
       if sb = NULL then do {
         s \<leftarrow> vfs_prune node (unlock_vfs s);
         Some (- ENODEV, s)
       } else do {
         b \<leftarrow> superblocks (t_vfs s) sb;
         r \<leftarrow> get_fsn (sb_root b) s;
         let s = put_fsn (sb_root b) (r\<lparr>nd_refcount := - 1\<rparr>) s;
         mp \<leftarrow> get_mp entry s;
         Some (0, unlock_vfs (put_mp entry (mp\<lparr>mp_sb := sb\<rparr>) s))
       }
     }
   }"

definition mount :: "'x kst file_ops \<Rightarrow> (bytes \<Rightarrow> (addr \<times> 32 word) option) \<Rightarrow> addr \<Rightarrow> bytes \<Rightarrow> bytes \<Rightarrow> 32 word \<Rightarrow> 'x kst \<Rightarrow> (int \<times> 'x kst) option" where
  "mount ops fs_find dev relpath fs_name flags s =
    (case fs_find fs_name of
       None \<Rightarrow> Some (- ENODEV, s)
     | Some (fs, fs_flags) \<Rightarrow>
         if dev = NULL \<and> fs_flags AND FS_NODEV = 0 then Some (- ENODEV, s)
         else do {
           blk \<leftarrow> (if dev = NULL then Some True else map_option (\<lambda>nd. nd_mode nd AND VFS_BLOCKDEV \<noteq> 0) (get_fsn dev s));
           if \<not> blk then Some (- ENOTBLK, s)
           else do {
             (p, s) \<leftarrow> cwd_path relpath s;
             if p = NULL then Some (- ENOMEM, unlock_vfs s)
             else do {
               path \<leftarrow> strs s p;
               s \<leftarrow> lock_vfs s;
               (ok, s) \<leftarrow> mount_root s;
               if \<not> ok then Some (- ENOMEM, s)
               else do {
                 (r, s) \<leftarrow> mount_walk p (vfs_tokenize path) (mroot (t_vfs s)) NULL s;
                 case r of
                   Inl e \<Rightarrow> Some (e, s)
                 | Inr (node, entry) \<Rightarrow> do {
                     s \<leftarrow> kfr p s;
                     mount_at ops fs dev flags node entry s
                   }
               }
             }
           }
         })"

text \<open>
  The loop of \<^verbatim>\<open>umount\<close>: \<^verbatim>\<open>off += strlen(off)\<close> goes to the end of the element, where the next round
  finds an empty string and only then goes on to the next element. \<open>None\<close> as entry stands for \<^verbatim>\<open>-ENOENT\<close>.
\<close>

fun umount_walk :: "nat \<Rightarrow> bytes list \<Rightarrow> addr \<Rightarrow> addr \<Rightarrow> 'x kst \<Rightarrow> (addr \<times> addr) option option" where
  "umount_walk 0 ts node entry s = Some (Some (node, entry))"
| "umount_walk (Suc depth) [] node entry s = None"
| "umount_walk (Suc depth) (t # ts) node entry s =
    (if t = [] then umount_walk depth ts node entry s
     else do {
       nd \<leftarrow> mtree (t_vfs s) node;
       kid \<leftarrow> find_kid True t (mt_kids nd) s;
       if kid = NULL then Some None
       else do {
         kd \<leftarrow> mtree (t_vfs s) kid;
         umount_walk depth ([] # ts) kid (mt_data kd) s
       }
     })"

definition umount :: "'x kst file_ops \<Rightarrow> bytes \<Rightarrow> 32 word \<Rightarrow> 'x kst \<Rightarrow> (int \<times> 'x kst) option" where
  "umount ops relpath flags s = do {
     (p, s) \<leftarrow> cwd_path relpath s;
     if p = NULL then Some (- ENOMEM, s)
     else do {
       path \<leftarrow> strs s p;
       s \<leftarrow> lock_vfs s;
       let root = mroot (t_vfs s);
       rn \<leftarrow> mtree (t_vfs s) root;
       r \<leftarrow> umount_walk (length (vfs_tokenize path)) (vfs_tokenize path) root (mt_data rn) s;
       s \<leftarrow> kfr p s;
       case r of
         None \<Rightarrow> Some (- ENOENT, unlock_vfs s)
       | Some (node, entry) \<Rightarrow> do {
           mp \<leftarrow> get_mp entry s;
           nd \<leftarrow> mtree (t_vfs s) node;
           if mp_sb mp = NULL then Some (- EINVAL, unlock_vfs s)
           else if flags AND MNT_DETACH = 0 \<and> length (mt_kids nd) > 1 then Some (- EBUSY, unlock_vfs s)
           else do {
             sb \<leftarrow> superblocks (t_vfs s) (mp_sb mp);
             (ret, s) \<leftarrow> op_close_fs ops (sb_close_fs sb) (mp_sb mp) (flags AND MNT_FORCE) s;
             if ret \<noteq> 0 then Some (- EBUSY, unlock_vfs s)
             else do {
               s \<leftarrow> vfs_prune node (put_mp entry (mp\<lparr>mp_sb := NULL\<rparr>) s);
               Some (0, unlock_vfs s)
             }
           }
         }
     }
   }"

subsection \<open>Opening a path\<close>

text \<open>
  The loop of \<^verbatim>\<open>get_local_root\<close>: the root of the last file system on the way, and the elements of the path
  below it.
\<close>

fun local_root :: "bytes list \<Rightarrow> addr \<Rightarrow> addr \<times> bytes list \<Rightarrow> 'x kst \<Rightarrow> (addr \<times> bytes list) option" where
  "local_root [] node best s = Some best"
| "local_root (t # ts) node best s =
    (if t = [] then local_root ts node best s
     else do {
       nd \<leftarrow> mtree (t_vfs s) node;
       kid \<leftarrow> find_kid False t (mt_kids nd) s;
       if kid = NULL then Some best
       else do {
         kd \<leftarrow> mtree (t_vfs s) kid;
         mp \<leftarrow> get_mp (mt_data kd) s;
         best \<leftarrow> (if mp_sb mp \<noteq> NULL
           then do { sb \<leftarrow> superblocks (t_vfs s) (mp_sb mp); Some (sb_root sb, ts) }
           else Some best);
         local_root ts kid best s
       }
     })"

definition get_local_root :: "bytes list \<Rightarrow> 'x kst \<Rightarrow> (addr \<times> bytes list \<times> 'x kst) option" where
  "get_local_root path s = do {
     let node = mroot (t_vfs s);
     nd \<leftarrow> mtree (t_vfs s) node;
     mp \<leftarrow> get_mp (mt_data nd) s;
     sb \<leftarrow> superblocks (t_vfs s) (mp_sb mp);
     (root, rest) \<leftarrow> local_root path node (sb_root sb, path) s;
     if root = NULL then Some (NULL, rest, s)
     else do {
       (p, s) \<leftarrow> copy_fsn root s;
       Some (p, rest, s)
     }
   }"

text \<open>Opening the node that has been found; the result and the value for \<^verbatim>\<open>openret\<close>.\<close>

definition open_found :: "'x kst file_ops \<Rightarrow> addr \<Rightarrow> 32 word \<Rightarrow> 'x kst \<Rightarrow> ((addr \<times> int) \<times> 'x kst) option" where
  "open_found ops node flags s = do {
     (ret, s) \<leftarrow> open_vfs ops node flags s;
     if ret < 0 then do {
       s \<leftarrow> free_fsn node s;
       Some ((NULL, ret), unlock_vfs s)
     } else Some ((node, ret), unlock_vfs s)
   }"

fun kopen_walk :: "'x kst file_ops \<Rightarrow> addr \<Rightarrow> bytes list \<Rightarrow> addr \<Rightarrow> 32 word \<Rightarrow> 'x kst \<Rightarrow> ((addr \<times> int) \<times> 'x kst) option" where
  "kopen_walk ops path [] cur flags s = None"
| "kopen_walk ops path (t # ts) cur flags s = do {
     (nxt, s) \<leftarrow> finddir_vfs ops cur t s;
     s \<leftarrow> free_fsn cur s;
     if nxt = NULL then do {
       s \<leftarrow> kfr path s;
       Some ((NULL, - ENOENT), unlock_vfs s)
     } else if ts = [] then do {
       s \<leftarrow> kfr path s;
       open_found ops nxt flags s
     } else kopen_walk ops path ts nxt flags s
   }"

text \<open>
  \<^verbatim>\<open>kopen\<close>. Canonical paths begin with the delimiter, so they have at least two elements and the case
  of depth 1, which takes a mount point for a file node, does not arise; it has no result here.
\<close>

definition kopen :: "'x kst file_ops \<Rightarrow> bytes \<Rightarrow> 32 word \<Rightarrow> 'x kst \<Rightarrow> ((addr \<times> int option) \<times> 'x kst) option" where
  "kopen ops relpath flags s = do {
     (p, s) \<leftarrow> cwd_path relpath s;
     if p = NULL then Some ((NULL, None), s)
     else do {
       path \<leftarrow> strs s p;
       s \<leftarrow> lock_vfs s;
       if length (vfs_tokenize path) = 1 then None
       else do {
         (cur, rest, s) \<leftarrow> get_local_root (vfs_tokenize path) s;
         if cur = NULL then do {
           s \<leftarrow> kfr p s;
           Some ((NULL, Some (- ENOENT)), unlock_vfs s)
         } else if rest = [] then do {
           s \<leftarrow> kfr p s;
           ((f, ret), s) \<leftarrow> open_found ops cur flags s;
           Some ((f, Some ret), s)
         } else do {
           ((f, ret), s) \<leftarrow> kopen_walk ops p rest cur flags s;
           Some ((f, Some ret), s)
         }
       }
     }
   }"

subsection \<open>Allocation\<close>

lemma kma_new:
  assumes "kmalloc_live (t_heap s) L" "n \<le> heap_limit" "kma n s = Some (p, s')"
  shows "p \<noteq> NULL" "kmalloc_live (t_heap s') (L(p \<mapsto> n))"
  using assms heap.malloc_new [of "t_heap s" L n p] heap.malloc_live [of "t_heap s" L n p]
  by (auto simp: kma_def split: bind_splits)

end
