(* ===== verification/Vfs_Spec.thy ===== *)
theory Vfs_Spec
  imports Vfs
begin

section \<open>Properties of the virtual file system\<close>

text \<open>
  Paths and their elements, what \<^verbatim>\<open>canonicalize_path\<close> makes of them, reference counts, and the two walks
  through the tree of mount points.
\<close>

subsection \<open>Elements of a path\<close>

definition join_path :: "bytes list \<Rightarrow> bytes" where
  "join_path ts = (case ts of [] \<Rightarrow> [] | t # ts \<Rightarrow> t @ concat (map (\<lambda>u. PATH_DELIMITER # u) ts))"

lemma vfs_tokenize_nonempty [simp]: "vfs_tokenize p \<noteq> []"
  by (induction p) (auto split: list.splits)

lemma join_path_Cons: "ts \<noteq> [] \<Longrightarrow> join_path (t # ts) = t @ PATH_DELIMITER # join_path ts"
  by (cases ts) (auto simp: join_path_def)

lemma join_tokenize: "join_path (vfs_tokenize p) = p"
proof (induction p)
  case (Cons c p)
  then show ?case
    by (cases "vfs_tokenize p") (auto simp: join_path_Cons, auto simp: join_path_def)
qed (simp add: join_path_def)

lemma tokenize_elements: "t \<in> set (vfs_tokenize p) \<Longrightarrow> PATH_DELIMITER \<notin> set t"
  by (induction p arbitrary: t) (auto split: if_splits list.splits)

lemma length_tokenize: "length (vfs_tokenize p) = count_list p PATH_DELIMITER + 1"
  by (induction p) (auto split: list.splits)

lemma tokenize_c_string: "c_string p \<Longrightarrow> t \<in> set (vfs_tokenize p) \<Longrightarrow> c_string t"
  by (induction p arbitrary: t) (fastforce simp: c_string_def split: if_splits list.splits)+

subsection \<open>Elements that go up\<close>

lemma strcmp_this: "c_string t \<Longrightarrow> t \<noteq> [] \<Longrightarrow> \<exists>r. strcmp (c_mem t) (c_mem PATH_THIS_DIR) = Some r \<and> (r = 0 \<longleftrightarrow> t = PATH_THIS_DIR)"
  using strcmp_match [of t PATH_THIS_DIR]
  by (auto simp: str_match_def PATH_THIS_DIR_def c_string_def prefix_Cons)

lemma strcmp_parent:
  "c_string t \<Longrightarrow> t \<noteq> [] \<Longrightarrow> t \<noteq> PATH_THIS_DIR
    \<Longrightarrow> \<exists>r. strcmp (c_mem t) (c_mem PATH_PARENT_DIR) = Some r \<and> (r = 0 \<longleftrightarrow> t = PATH_PARENT_DIR)"
  using strcmp_match [of t PATH_PARENT_DIR]
  by (auto simp: str_match_def PATH_THIS_DIR_def PATH_PARENT_DIR_def c_string_def prefix_Cons)

definition plain_name :: "bytes \<Rightarrow> bool" where
  "plain_name t \<longleftrightarrow> c_string t \<and> PATH_DELIMITER \<notin> set t \<and> t \<notin> {[], PATH_THIS_DIR, PATH_PARENT_DIR}"

lemma strcmp_plain:
  assumes "plain_name t"
  shows "\<exists>r. strcmp (c_mem t) (c_mem PATH_THIS_DIR) = Some r \<and> r \<noteq> 0" "\<exists>r. strcmp (c_mem t) (c_mem PATH_PARENT_DIR) = Some r \<and> r \<noteq> 0"
  using assms strcmp_this [of t] strcmp_parent [of t] by (auto simp: plain_name_def)

lemma strcmp_up:
  "\<exists>r. strcmp (c_mem PATH_PARENT_DIR) (c_mem PATH_THIS_DIR) = Some r \<and> r \<noteq> 0"
  "\<exists>r. strcmp (c_mem PATH_PARENT_DIR) (c_mem PATH_PARENT_DIR) = Some r \<and> r = 0"
  using strcmp_this [of PATH_PARENT_DIR] strcmp_parent [of PATH_PARENT_DIR]
  by (auto simp: PATH_THIS_DIR_def PATH_PARENT_DIR_def c_string_def)

lemma push_up:
  "push_path (PATH_PARENT_DIR # ts) prev q s = do { (q, s) \<leftarrow> fifo_remove prev q s; push_path ts prev q s }"
  using strcmp_up by (auto simp: PATH_PARENT_DIR_def)

lemma double_up:
  assumes "kmalloc_live (t_heap s) L" "length a + 1 \<le> heap_limit" "plain_name a"
  shows "push_path (a # PATH_PARENT_DIR # PATH_PARENT_DIR # ts) NULL [] s = None"
proof -
  have ups: "push_path (PATH_PARENT_DIR # PATH_PARENT_DIR # ts) n [(n, p, a)] s = None" if "n \<noteq> NULL" for n p and s :: "'a tasking"
    using that by (simp add: push_up fifo_remove_def del: push_path.simps split: bind_split)
  obtain r1 r2 where r: "strcmp (c_mem a) (c_mem PATH_THIS_DIR) = Some r1" "r1 \<noteq> 0" "strcmp (c_mem a) (c_mem PATH_PARENT_DIR) = Some r2" "r2 \<noteq> 0"
    using strcmp_plain [OF assms(3)] by blast
  have "a \<noteq> []" using assms(3) by (simp add: plain_name_def)
  moreover have "do {
         (p, s) \<leftarrow> kma (length a + 1) s;
         if p = NULL then Some (False, [], s)
         else do {
           (prev, q, s) \<leftarrow> fifo_insert p a [] s;
           push_path (PATH_PARENT_DIR # PATH_PARENT_DIR # ts) prev q s
         }
       } = None"
  proof (cases "kma (length a + 1) s")
    case (Some ps)
    then obtain p s1 where ps: "kma (length a + 1) s = Some (p, s1)" by (cases ps) auto
    note l1 = kma_new [OF assms(1,2) ps]
    show ?thesis
    proof (cases "kma sizeof_node_t s1")
      case None
      then show ?thesis using ps l1(1) by (simp add: fifo_insert_def)
    next
      case (Some ns)
      then obtain n s2 where ns: "kma sizeof_node_t s1 = Some (n, s2)" by (cases ns) auto
      have "n \<noteq> NULL" using kma_new(1) [OF l1(2) _ ns] by (simp add: heap_limit_def sizeof_defs)
      then show ?thesis using ps l1(1) ns ups by (simp add: fifo_insert_def del: push_path.simps)
    qed
  qed simp
  ultimately show ?thesis using r by (subst push_path.simps) (simp del: push_path.simps)
qed

lemma tokenize_plain: "PATH_DELIMITER \<notin> set a \<Longrightarrow> vfs_tokenize (a @ PATH_DELIMITER # p) = a # vfs_tokenize p"
  by (induction a) auto

lemma push_skip: "push_path ([] # ts) prev q s = push_path ts prev q s"
  by simp

subsection \<open>Example\<close>

text \<open>A device file system mounted on \<open>/dev\<close>; its directory \<open>/dev/pts\<close> is another mount point.\<close>

definition demo_vfs :: "unit vfs" where
  "demo_vfs = \<lparr>v_fs = (),
     fs_nodes = [100 \<mapsto> \<lparr>nd_inode = 1, nd_uid = 0, nd_gid = 0, nd_mode = VFS_DIR, nd_flags = 0, nd_len = 0, nd_dev = 0,
       nd_atime = 0, nd_mtime = 0, nd_ctime = 0, nd_ops = 0, nd_fs_sb = 200, nd_private = NULL, nd_refcount = 1, nd_nlink = 1\<rparr>],
     superblocks = [200 \<mapsto> \<lparr>sb_dev = 0, sb_private = NULL, sb_root = 100, sb_blocksize = 512, sb_flags = 0, sb_close_fs = 0\<rparr>],
     mountpoints = [301 \<mapsto> \<lparr>mp_name = [0x5B, 0x5D], mp_sb = NULL\<rparr>, 302 \<mapsto> \<lparr>mp_name = [0x64, 0x65, 0x76], mp_sb = 200\<rparr>,
       303 \<mapsto> \<lparr>mp_name = [0x70, 0x74, 0x73], mp_sb = 201\<rparr>],
     mtree = [401 \<mapsto> \<lparr>mt_data = 301, mt_children = 501, mt_kids = [(601, 402)], mt_parent = NULL\<rparr>,
       402 \<mapsto> \<lparr>mt_data = 302, mt_children = 502, mt_kids = [(602, 403)], mt_parent = 401\<rparr>,
       403 \<mapsto> \<lparr>mt_data = 303, mt_children = 503, mt_kids = [], mt_parent = 402\<rparr>],
     mroot = 401, vfs_lock = False, refcount_lock = False\<rparr>"

definition demo_kst :: "unit kst" where
  "demo_kst = \<lparr>t_heap = demo_six, t_vfs = demo_vfs, tasks = Map.empty, tasklets = Map.empty, strs = Map.empty,
     tnodes = Map.empty, tree_root_node = NULL, processes = [], run_queue = [], wqs = Map.empty, current_task = NULL,
     kidle = NULL, stackw = (\<lambda>_. 0), tss_esp0 = 0, iflag = True, cpu = (0, 0, 0), tasklet_finish_eip = 0\<rparr>"

definition null_ops :: "'s file_ops" where
  "null_ops = \<lparr>op_read = \<lambda>_. None, op_write = \<lambda>_. None, op_open = \<lambda>_. None, op_close = \<lambda>_. None, op_readdir = \<lambda>_. None,
     op_finddir = \<lambda>_. None, op_chmod = \<lambda>_. None, op_chown = \<lambda>_. None, op_ioctl = \<lambda>_. None, op_create = \<lambda>_. None,
     op_link = \<lambda>_. None, op_unlink = \<lambda>_. None, op_get_super = \<lambda>_ _ _ _. None, op_close_fs = \<lambda>_ _ _ _. None\<rparr>"

lemma demo_mtree:
  "mtree (t_vfs demo_kst) 401 = Some \<lparr>mt_data = 301, mt_children = 501, mt_kids = [(601, 402)], mt_parent = NULL\<rparr>"
  "mtree (t_vfs demo_kst) 402 = Some \<lparr>mt_data = 302, mt_children = 502, mt_kids = [(602, 403)], mt_parent = 401\<rparr>"
  "get_mp 302 demo_kst = Some \<lparr>mp_name = [0x64, 0x65, 0x76], mp_sb = 200\<rparr>"
  "superblocks (t_vfs demo_kst) 200 = Some \<lparr>sb_dev = 0, sb_private = NULL, sb_root = 100, sb_blocksize = 512, sb_flags = 0, sb_close_fs = 0\<rparr>"
  by (simp_all add: demo_kst_def demo_vfs_def get_mp_def)

lemma demo_find: "find_kid True [0x64, 0x65, 0x76] [(601, 402)] demo_kst = Some 402"
  by (simp add: demo_kst_def demo_vfs_def get_mp_def strcmp_def c_mem_def)

subsection \<open>Properties\<close>

text \<open>
  \<^verbatim>\<open>vfs_tokenize\<close> loses nothing: the elements of a path, joined by the delimiter, are the path; no
  element contains the delimiter; and the depth is the number of delimiters plus one.
\<close>

theorem vfs_tokenize_join:
  "join_path (vfs_tokenize p) = p \<and> PATH_DELIMITER \<notin> \<Union> (set ` set (vfs_tokenize p))
    \<and> length (vfs_tokenize p) = count_list p PATH_DELIMITER + 1"
  using join_tokenize tokenize_elements length_tokenize by auto

text \<open>
  \<^verbatim>\<open>canonicalize_path\<close> goes wrong on a path that goes up twice: after the first \<open>..\<close> its pointer to the
  last element points to a list node that \<^verbatim>\<open>list_remove\<close> has released, and the second \<open>..\<close> removes this
  node again. Nothing is returned for \<open>/a/../..\<close> and the paths that begin with it, for any name \<open>a\<close>.
\<close>

theorem canonicalize_double_up:
  assumes "kmalloc_live (t_heap s) L" "length relpath + 1 \<le> heap_limit" "plain_name a"
    and "relpath = PATH_DELIMITER # a @ PATH_DELIMITER # PATH_PARENT_DIR @ PATH_DELIMITER # PATH_PARENT_DIR @ PATH_DELIMITER # rest"
  shows "canonicalize_path cwd relpath s = None"
proof -
  have up: "PATH_DELIMITER \<notin> set PATH_PARENT_DIR" by (simp add: PATH_DELIMITER_def PATH_PARENT_DIR_def)
  have "PATH_DELIMITER \<notin> set a" using assms(3) by (simp add: plain_name_def)
  then have tok: "vfs_tokenize relpath = [] # a # PATH_PARENT_DIR # PATH_PARENT_DIR # vfs_tokenize rest"
    using assms(4) tokenize_plain [OF up] by (simp add: tokenize_plain)
  show ?thesis
  proof (rule ccontr)
    assume "canonicalize_path cwd relpath s \<noteq> None"
    then obtain l s1 where l: "kma sizeof_list_t s = Some (l, s1)" by (auto simp: canonicalize_path_def split: bind_splits)
    note l1 = kma_new [OF assms(1) _ l, unfolded heap_limit_def sizeof_defs, simplified]
    with \<open>canonicalize_path cwd relpath s \<noteq> None\<close> l assms(4) obtain cp s2 where cp: "kma (length relpath + 1) s1 = Some (cp, s2)"
      by (auto simp: canonicalize_path_def split: bind_splits if_splits)
    note l2 = kma_new [OF l1(2) assms(2) cp]
    have "push_path (vfs_tokenize relpath) NULL [] s2 = None"
      unfolding tok push_skip by (rule double_up [OF l2(2) _ assms(3)]) (use assms(2,4) in simp)
    then have "canonicalize_path cwd relpath s = None"
      using l l1(1) cp l2(1) assms(4) by (simp add: canonicalize_path_def fifo_tail_def del: push_path.simps)
    with \<open>canonicalize_path cwd relpath s \<noteq> None\<close> show False by simp
  qed
qed

theorem canonicalize_double_up_witness:
  "canonicalize_path [0x2F] [0x2F, 0x61, 0x2F, 0x2E, 0x2E, 0x2F, 0x2E, 0x2E, 0x2F] demo_kst = None"
proof -
  have live: "kmalloc_live (t_heap demo_kst) demo_live" using demo_six_live by (simp add: demo_kst_def)
  have "plain_name [0x61]" by (simp add: plain_name_def c_string_def PATH_DELIMITER_def PATH_THIS_DIR_def PATH_PARENT_DIR_def)
  show ?thesis by (rule canonicalize_double_up [OF live _ \<open>plain_name [0x61]\<close>, where rest = "[]"])
    (simp_all add: PATH_DELIMITER_def PATH_PARENT_DIR_def heap_limit_def)
qed

text \<open>
  References are counted: \<^verbatim>\<open>clone_file\<close> of an open file that is not the root of a file system always
  returns the same node, with one more reference, and \<^verbatim>\<open>close_vfs\<close> of the clone then always returns 0 and
  restores the state before the clone.
\<close>

theorem clone_close:
  assumes "get_fsn node s = Some nd" "node \<noteq> NULL" "nd_refcount nd > 0" "\<not> refcount_lock (t_vfs s)"
  shows "\<exists>s'. clone_file node s = Some (node, s') \<and> get_fsn node s' = Some (nd\<lparr>nd_refcount := nd_refcount nd + 1\<rparr>)
    \<and> close_vfs ops node s' = Some (0, s)"
proof -
  define v where "v = t_vfs s"
  let ?v = "v\<lparr>fs_nodes := (fs_nodes v)(node \<mapsto> nd\<lparr>nd_refcount := nd_refcount nd + 1\<rparr>)\<rparr>"
  have lock: "w\<lparr>refcount_lock := True, fs_nodes := f, refcount_lock := False\<rparr> = w\<lparr>fs_nodes := f\<rparr>" if "\<not> refcount_lock w" for w :: "'a vfs" and f
    using that by (cases w) simp
  have nl: "\<not> refcount_lock v" "\<not> refcount_lock ?v" "fs_nodes v node = Some nd" using assms by (simp_all add: v_def get_fsn_def)
  have "clone_file node s = Some (node, s\<lparr>t_vfs := ?v\<rparr>)"
    using assms lock [OF nl(1)] by (simp add: clone_file_def lock_refcount_def unlock_refcount_def upd_vfs_def put_fsn_def get_fsn_def flip: v_def)
  moreover have "close_vfs ops node (s\<lparr>t_vfs := ?v\<rparr>) = Some (0, s\<lparr>t_vfs := v\<rparr>)"
  proof -
    have "(fs_nodes v)(node \<mapsto> nd) = fs_nodes v" using nl(3) by (metis fun_upd_triv)
    then have "?v\<lparr>refcount_lock := True, fs_nodes := (fs_nodes ?v)(node \<mapsto> nd), refcount_lock := False\<rparr> = v"
      using lock [OF nl(1), of "fs_nodes v"] nl(1) by (cases v) simp
    then show ?thesis using assms(2,3) nl(2)
      by (simp add: close_vfs_def lock_refcount_def unlock_refcount_def upd_vfs_def put_fsn_def get_fsn_def)
  qed
  ultimately show ?thesis by (intro exI [of _ "s\<lparr>t_vfs := ?v\<rparr>"]) (simp add: get_fsn_def v_def)
qed

theorem clone_close_witness:
  "\<exists>s'. clone_file 100 demo_kst = Some (100, s') \<and> close_vfs null_ops 100 s' = Some (0, demo_kst)"
  using clone_close [of 100 demo_kst] by (fastforce simp: demo_kst_def demo_vfs_def get_fsn_def)

text \<open>
  A path enters a mounted file system under an abbreviated name. When an element of the path is only
  a prefix of the name of the first mount point below a node, \<^verbatim>\<open>get_local_root\<close> continues in the file
  system mounted there, because \<^verbatim>\<open>strcmp\<close> of a prefix with a string is zero.
\<close>

theorem local_root_prefix:
  assumes "mtree (t_vfs s) node = Some nd" "mt_kids nd = (n, kid) # q" "kid \<noteq> NULL" "mtree (t_vfs s) kid = Some kd"
    and "get_mp (mt_data kd) s = Some mp" "c_string (mp_name mp)" "mp_sb mp \<noteq> NULL" "superblocks (t_vfs s) (mp_sb mp) = Some sb"
    and "t \<noteq> []" "prefix t (mp_name mp)"
  shows "local_root (t # ts) node best s = local_root ts kid (sb_root sb, ts) s"
proof -
  have "c_string t" using assms(6,10) by (auto simp: c_string_def dest: set_mono_prefix)
  then obtain r where "strcmp (c_mem t) (c_mem (mp_name mp)) = Some r" "r = 0"
    using strcmp_match [of t "mp_name mp"] assms(6,9,10) by (auto simp: str_match_def)
  with assms show ?thesis by simp
qed

theorem local_root_prefix_witness: "local_root [[0x64], [0x74]] 401 (NULL, []) demo_kst = Some (100, [[0x74]])"
proof -
  have "local_root ([0x64] # [[0x74]]) 401 (NULL, []) demo_kst = local_root [[0x74]] 402 (100, [[0x74]]) demo_kst"
    by (subst local_root_prefix [OF demo_mtree(1) _ _ demo_mtree(2), unfolded mtnode.simps, OF _ _ demo_mtree(3),
          unfolded mountpoint.simps, OF _ _ _ _ demo_mtree(4)]) (simp_all add: c_string_def del: local_root.simps)
  then show ?thesis by (simp add: demo_kst_def demo_vfs_def get_mp_def strcmp_def c_mem_def)
qed

text \<open>
  \<^verbatim>\<open>umount\<close> of a path of two elements works on the mount point of the first: its loop takes two rounds
  for each element, so the second one, whatever it is, is not looked at.
\<close>

theorem umount_walk_parent:
  assumes "mtree (t_vfs s) root = Some nd" "a \<noteq> []" "find_kid True a (mt_kids nd) s = Some kid" "kid \<noteq> NULL" "mtree (t_vfs s) kid = Some kd"
  shows "umount_walk (length [[], a, b]) [[], a, b] root entry s = Some (Some (kid, mt_data kd))"
  using assms by (simp add: numeral_3_eq_3 numeral_2_eq_2)

theorem umount_walk_parent_witness:
  "umount_walk 3 (vfs_tokenize [0x2F, 0x64, 0x65, 0x76, 0x2F, 0x70, 0x74, 0x73]) 401 301 demo_kst = Some (Some (402, 302))"
proof -
  have "vfs_tokenize [0x2F, 0x64, 0x65, 0x76, 0x2F, 0x70, 0x74, 0x73] = [[], [0x64, 0x65, 0x76], [0x70, 0x74, 0x73]]"
    by (simp add: PATH_DELIMITER_def)
  with umount_walk_parent [OF demo_mtree(1) _ _ _ demo_mtree(2), of "[0x64, 0x65, 0x76]" "[0x70, 0x74, 0x73]" 301] demo_find
  show ?thesis by (simp add: numeral_3_eq_3 del: umount_walk.simps find_kid.simps vfs_tokenize.simps)
qed

end
