(* ===== verification/Fileops.thy ===== *)
theory Fileops
  imports Vfs_Spec
begin

section \<open>File operations of user processes (kernel/fileops.c)\<close>

text \<open>
  The system calls on files: descriptors of the current task, access rights, offsets, and the calls
  that go through to vfs.c. Pointers that user programs pass are options, \<open>None\<close> for the null pointer.
  The array \<^verbatim>\<open>files\<close> of a task has 32 elements of a pointer and a 64-bit offset; \<^verbatim>\<open>valid_fd\<close> lets
  descriptor 32 pass, and the three words behind the array are \<^verbatim>\<open>treenode\<close>, \<^verbatim>\<open>wq\<close> and \<^verbatim>\<open>sleep_flags\<close> of the task,
  which \<open>fd_file\<close>, \<open>fd_off\<close> and their updates give for it.
\<close>

definition SEEK_SET :: int where "SEEK_SET = 0"
definition SEEK_CUR :: int where "SEEK_CUR = 1"
definition SEEK_END :: int where "SEEK_END = 2"
definition O_CREAT :: "32 word" where "O_CREAT = 0x08"
definition VFS_O_WRITE :: "32 word" where "VFS_O_WRITE = 0x002"
definition VFS_O_READ :: "32 word" where "VFS_O_READ = 0x004"
definition VFS_G_WRITE :: "32 word" where "VFS_G_WRITE = 0x010"
definition VFS_G_READ :: "32 word" where "VFS_G_READ = 0x020"
definition VFS_U_WRITE :: "32 word" where "VFS_U_WRITE = 0x080"
definition VFS_U_READ :: "32 word" where "VFS_U_READ = 0x100"

text \<open>Offsets are 64-bit signed integers, whose arithmetic wraps around here.\<close>

definition wrap64 :: "int \<Rightarrow> int" where
  "wrap64 x = (x + 2 ^ 63) mod 2 ^ 64 - 2 ^ 63"

subsection \<open>Descriptors\<close>

definition fd_file :: "int \<Rightarrow> task_t \<Rightarrow> addr" where
  "fd_file fd k = (if fd = int MAX_OF then t_treenode k else fp_file (t_files k (nat fd)))"

definition fd_off :: "int \<Rightarrow> task_t \<Rightarrow> int" where
  "fd_off fd k = (if fd = int MAX_OF then wrap64 (int (t_wq k) + uint (t_sleep_flags k) * 2 ^ 32) else fp_off (t_files k (nat fd)))"

definition set_fd_off :: "int \<Rightarrow> int \<Rightarrow> task_t \<Rightarrow> task_t" where
  "set_fd_off fd off k =
    (if fd = int MAX_OF then k\<lparr>t_wq := nat (off mod 2 ^ 32), t_sleep_flags := word_of_int (off div 2 ^ 32)\<rparr>
     else k\<lparr>t_files := (t_files k)(nat fd := (t_files k (nat fd))\<lparr>fp_off := off\<rparr>)\<rparr>)"

definition set_fd_file :: "int \<Rightarrow> addr \<Rightarrow> task_t \<Rightarrow> task_t" where
  "set_fd_file fd f k =
    (if fd = int MAX_OF then k\<lparr>t_treenode := f\<rparr>
     else k\<lparr>t_files := (t_files k)(nat fd := (t_files k (nat fd))\<lparr>fp_file := f\<rparr>)\<rparr>)"

definition valid_fd :: "int \<Rightarrow> 'x kst \<Rightarrow> bool option" where
  "valid_fd fd s =
    (if fd < 0 then Some False
     else if fd > int MAX_OF then Some False
     else map_option (\<lambda>k. fd_file fd k \<noteq> NULL) (tasks s (current_task s)))"

definition lseek :: "int \<Rightarrow> int \<Rightarrow> int \<Rightarrow> 'x kst \<Rightarrow> (int \<times> 'x kst) option" where
  "lseek fd off whence s = do {
     ok \<leftarrow> valid_fd fd s;
     if \<not> ok then Some (- EBADF, s)
     else do {
       k \<leftarrow> tasks s (current_task s);
       if whence = SEEK_SET then do {
         s \<leftarrow> upd_task (current_task s) (set_fd_off fd off) s;
         Some (off, s)
       } else if whence = SEEK_CUR then do {
         let n = wrap64 (fd_off fd k + off);
         s \<leftarrow> upd_task (current_task s) (set_fd_off fd n) s;
         Some (n, s)
       } else if whence = SEEK_END then do {
         nd \<leftarrow> get_fsn (fd_file fd k) s;
         let n = wrap64 (int (nd_len nd) + off);
         s \<leftarrow> upd_task (current_task s) (set_fd_off fd n) s;
         Some (n, s)
       } else Some (- EINVAL, s)
     }
   }"

subsection \<open>Access rights\<close>

definition check_flags :: "fs_node \<Rightarrow> 32 word \<Rightarrow> task_t \<Rightarrow> bool" where
  "check_flags file flags k =
    (if t_euid k = 0 then True
     else
       let acceptable = True;
           acceptable =
             (if flags AND O_RDONLY \<noteq> 0 then
                if nd_mode file AND VFS_O_READ = 0 then
                  if t_euid k = nd_uid file \<and> nd_mode file AND VFS_U_READ \<noteq> 0 then True
                  else if t_egid k = nd_gid file \<and> nd_mode file AND VFS_G_READ \<noteq> 0 then True
                  else False
                else acceptable
              else acceptable);
           acceptable =
             (if flags AND O_WRONLY \<noteq> 0 \<and> acceptable then
                if nd_mode file AND VFS_O_WRITE = 0 then
                  if t_euid k = nd_uid file \<and> nd_mode file AND VFS_U_WRITE \<noteq> 0 then True
                  else if t_egid k = nd_gid file \<and> nd_mode file AND VFS_G_WRITE \<noteq> 0 then True
                  else False
                else acceptable
              else acceptable)
       in acceptable)"

definition check_node :: "addr \<Rightarrow> 32 word \<Rightarrow> 'x kst \<Rightarrow> bool option" where
  "check_node f flags s = do {
     nd \<leftarrow> get_fsn f s;
     k \<leftarrow> tasks s (current_task s);
     Some (check_flags nd flags k)
   }"

subsection \<open>Reading and writing\<close>

text \<open>The checks that the four calls begin with: \<open>Inl\<close> the error, \<open>Inr\<close> the file and its offset.\<close>

definition rw_check :: "int \<Rightarrow> bool \<Rightarrow> 32 word \<Rightarrow> 'x kst \<Rightarrow> (int + addr \<times> int) option" where
  "rw_check fd buf flag s = do {
     ok \<leftarrow> valid_fd fd s;
     if \<not> ok then Some (Inl (- EBADF))
     else if \<not> buf then Some (Inl (- EFAULT))
     else do {
       k \<leftarrow> tasks s (current_task s);
       nd \<leftarrow> get_fsn (fd_file fd k) s;
       if nd_flags nd AND flag = 0 then Some (Inl (- EINVAL)) else Some (Inr (fd_file fd k, fd_off fd k))
     }
   }"

definition advance :: "int \<Rightarrow> int \<Rightarrow> 'x kst \<Rightarrow> 'x kst option" where
  "advance fd ret s = upd_task (current_task s) (\<lambda>k. set_fd_off fd (wrap64 (fd_off fd k + ret)) k) s"

definition user_pread :: "'x kst file_ops \<Rightarrow> int \<Rightarrow> bool \<Rightarrow> nat \<Rightarrow> int \<Rightarrow> 'x kst \<Rightarrow> ((int \<times> bytes) \<times> 'x kst) option" where
  "user_pread ops fd buf nbytes off s = do {
     r \<leftarrow> rw_check fd buf O_RDONLY s;
     case r of Inl e \<Rightarrow> Some ((e, []), s) | Inr (f, _) \<Rightarrow> read_vfs ops f nbytes off s
   }"

definition user_read :: "'x kst file_ops \<Rightarrow> int \<Rightarrow> bool \<Rightarrow> nat \<Rightarrow> 'x kst \<Rightarrow> ((int \<times> bytes) \<times> 'x kst) option" where
  "user_read ops fd buf nbytes s = do {
     r \<leftarrow> rw_check fd buf O_RDONLY s;
     case r of
       Inl e \<Rightarrow> Some ((e, []), s)
     | Inr (f, off) \<Rightarrow> do {
         ((ret, d), s) \<leftarrow> read_vfs ops f nbytes off s;
         s \<leftarrow> advance fd ret s;
         Some ((ret, d), s)
       }
   }"

definition user_pwrite :: "'x kst file_ops \<Rightarrow> int \<Rightarrow> bytes option \<Rightarrow> nat \<Rightarrow> int \<Rightarrow> 'x kst \<Rightarrow> (int \<times> 'x kst) option" where
  "user_pwrite ops fd buf nbytes off s = do {
     r \<leftarrow> rw_check fd (buf \<noteq> None) O_WRONLY s;
     case r of Inl e \<Rightarrow> Some (e, s) | Inr (f, _) \<Rightarrow> write_vfs ops f (the buf) nbytes off s
   }"

text \<open>\<^verbatim>\<open>user_write\<close> keeps the result of \<^verbatim>\<open>write_vfs\<close> in a \<^verbatim>\<open>uint32_t\<close>.\<close>

definition user_write :: "'x kst file_ops \<Rightarrow> int \<Rightarrow> bytes option \<Rightarrow> nat \<Rightarrow> 'x kst \<Rightarrow> (int \<times> 'x kst) option" where
  "user_write ops fd buf nbytes s = do {
     r \<leftarrow> rw_check fd (buf \<noteq> None) O_WRONLY s;
     case r of
       Inl e \<Rightarrow> Some (e, s)
     | Inr (f, off) \<Rightarrow> do {
         (r, s) \<leftarrow> write_vfs ops f (the buf) nbytes off s;
         let ret = r mod 2 ^ 32;
         s \<leftarrow> advance fd ret s;
         Some (ret, s)
       }
   }"

subsection \<open>Opening and closing\<close>

text \<open>
  \<^verbatim>\<open>getparent\<close>: the search for the last delimiter stops before the first character of the path, which the
  following \<^verbatim>\<open>fname++\<close> then skips whatever it is. The first component is what is before the delimiter,
  the current directory when there is none; the second is the name.
\<close>

definition last_delim :: "bytes \<Rightarrow> nat" where
  "last_delim path = (case rev (filter (\<lambda>i. path ! i = PATH_DELIMITER) [1..<length path]) of [] \<Rightarrow> 0 | i # _ \<Rightarrow> i)"

definition split_parent :: "bytes \<Rightarrow> bytes \<times> bytes" where
  "split_parent path =
    (let i = last_delim path in (if i = 0 then PATH_THIS_DIR else take i path, drop (i + 1) path))"

text \<open>
  The null parent means failure; the integer is what \<^verbatim>\<open>kopen\<close> left in \<^verbatim>\<open>ret\<close>, which is not initialised
  when it leaves nothing. A name of 256 bytes does not fit into the caller's buffer. The name of the
  empty path begins behind the end of the string.
\<close>

definition getparent :: "'x kst file_ops \<Rightarrow> bytes \<Rightarrow> 'x kst \<Rightarrow> ((addr \<times> bytes \<times> int) \<times> 'x kst) option" where
  "getparent ops path s = do {
     (p, s) \<leftarrow> kma (length path + 1) s;
     ASSERT (p \<noteq> NULL \<and> path \<noteq> []);
     let (dir, fname) = split_parent path;
     ((parent, openret), s) \<leftarrow> kopen ops dir O_WRONLY s;
     ret \<leftarrow> openret;
     if length fname > NAME_MAX then do { s \<leftarrow> kfr p s; Some ((NULL, [], ret), s) }
     else do {
       ASSERT (length fname < NAME_MAX);
       s \<leftarrow> kfr p s;
       Some ((parent, fname, ret), s)
     }
   }"

definition free_fd :: "task_t \<Rightarrow> nat option" where
  "free_fd k = find (\<lambda>i. fp_file (t_files k i) = NULL) [0..<MAX_OF]"

text \<open>The part of \<^verbatim>\<open>user_open\<close> for \<^verbatim>\<open>O_CREAT\<close>: \<open>Some\<close> the value it returns with, \<open>None\<close> if it goes on.\<close>

definition open_create :: "'x kst file_ops \<Rightarrow> bytes \<Rightarrow> 32 word \<Rightarrow> 'x kst \<Rightarrow> (int option \<times> 'x kst) option" where
  "open_create ops path mode s = do {
     ((parent, fname, ret), s) \<leftarrow> getparent ops path s;
     if parent = NULL then Some (Some ret, s)
     else do {
       ok \<leftarrow> check_node parent O_WRONLY s;
       if \<not> ok then do {
         (_, s) \<leftarrow> close_vfs ops parent s;
         Some (Some (- EACCES), s)
       } else do {
         k \<leftarrow> tasks s (current_task s);
         (ret, s) \<leftarrow> create_vfs ops parent fname (t_euid k) (t_egid k) (mode OR VFS_FILE) 0 s;
         (_, s) \<leftarrow> close_vfs ops parent s;
         Some (if ret < 0 then Some ret else None, s)
       }
     }
   }"

definition user_open :: "'x kst file_ops \<Rightarrow> bytes option \<Rightarrow> 32 word \<Rightarrow> 32 word \<Rightarrow> 'x kst \<Rightarrow> (int \<times> 'x kst) option" where
  "user_open ops path flags mode s =
    (case path of None \<Rightarrow> Some (- EFAULT, s)
     | Some path \<Rightarrow> do {
         k \<leftarrow> tasks s (current_task s);
         case free_fd k of
           None \<Rightarrow> Some (- ENFILE, s)
         | Some i \<Rightarrow> do {
             (early, s) \<leftarrow> (if flags AND O_CREAT \<noteq> 0 then open_create ops path mode s else Some (None, s));
             case early of
               Some ret \<Rightarrow> Some (ret, s)
             | None \<Rightarrow> do {
                 ((file, openret), s) \<leftarrow> kopen ops path flags s;
                 if file = NULL then do { ret \<leftarrow> openret; Some (ret, s) }
                 else do {
                   ok \<leftarrow> check_node file flags s;
                   if ok then do {
                     s \<leftarrow> upd_task (current_task s) (set_fd_file (int i) file) s;
                     Some (int i, s)
                   } else do {
                     (_, s) \<leftarrow> close_vfs ops file s;
                     Some (- EINVAL, s)
                   }
                 }
               }
           }
       })"

definition user_close :: "'x kst file_ops \<Rightarrow> int \<Rightarrow> 'x kst \<Rightarrow> (int \<times> 'x kst) option" where
  "user_close ops fd s = do {
     ok \<leftarrow> valid_fd fd s;
     if \<not> ok then Some (- EBADF, s)
     else do {
       k \<leftarrow> tasks s (current_task s);
       (ret, s) \<leftarrow> close_vfs ops (fd_file fd k) s;
       s \<leftarrow> (if ret = 0 then upd_task (current_task s) (set_fd_file fd NULL) s else Some s);
       Some (ret, s)
     }
   }"

subsection \<open>Other calls\<close>

definition user_readdir :: "'x kst file_ops \<Rightarrow> int \<Rightarrow> bool \<Rightarrow> nat \<Rightarrow> 'x kst \<Rightarrow> ((int \<times> nat \<times> bytes) \<times> 'x kst) option" where
  "user_readdir ops fd dirp idx s = do {
     ok \<leftarrow> valid_fd fd s;
     if \<not> ok then Some ((- EBADF, 0, []), s)
     else if \<not> dirp then Some ((- EFAULT, 0, []), s)
     else do {
       k \<leftarrow> tasks s (current_task s);
       readdir_vfs ops (fd_file fd k) idx s
     }
   }"

definition user_stat :: "'x kst file_ops \<Rightarrow> bytes option \<Rightarrow> bool \<Rightarrow> 'x kst \<Rightarrow> ((int \<times> stat option) \<times> 'x kst) option" where
  "user_stat ops path buff s =
    (case path of None \<Rightarrow> Some ((- EFAULT, None), s)
     | Some path \<Rightarrow>
         if \<not> buff then Some ((- EFAULT, None), s)
         else do {
           ((file, openret), s) \<leftarrow> kopen ops path O_RDONLY s;
           if file = NULL then do { ret \<leftarrow> openret; Some ((ret, None), s) }
           else do {
             r \<leftarrow> stat_vfs file s;
             (_, s) \<leftarrow> close_vfs ops file s;
             Some (r, s)
           }
         })"

text \<open>The owner of the file or the superuser.\<close>

definition owner_or_root :: "int \<Rightarrow> 'x kst \<Rightarrow> (addr \<times> bool) option" where
  "owner_or_root fd s = do {
     k \<leftarrow> tasks s (current_task s);
     nd \<leftarrow> get_fsn (fd_file fd k) s;
     Some (fd_file fd k, t_euid k = nd_uid nd \<or> t_euid k = 0)
   }"

definition user_chmod :: "'x kst file_ops \<Rightarrow> int \<Rightarrow> 32 word \<Rightarrow> 'x kst \<Rightarrow> (int \<times> 'x kst) option" where
  "user_chmod ops fd mode s = do {
     ok \<leftarrow> valid_fd fd s;
     if \<not> ok then Some (- EBADF, s)
     else do {
       (f, may) \<leftarrow> owner_or_root fd s;
       if may then chmod_vfs ops f mode s else Some (- EPERM, s)
     }
   }"

definition user_chown :: "'x kst file_ops \<Rightarrow> int \<Rightarrow> nat \<Rightarrow> nat \<Rightarrow> 'x kst \<Rightarrow> (int \<times> 'x kst) option" where
  "user_chown ops fd uid gid s = do {
     ok \<leftarrow> valid_fd fd s;
     if \<not> ok then Some (- EBADF, s)
     else do {
       (f, may) \<leftarrow> owner_or_root fd s;
       if may then chown_vfs ops f uid gid s else Some (- EPERM, s)
     }
   }"

definition user_ioctl :: "'x kst file_ops \<Rightarrow> int \<Rightarrow> nat \<Rightarrow> addr \<Rightarrow> 'x kst \<Rightarrow> (int \<times> 'x kst) option" where
  "user_ioctl ops fd request ptr s = do {
     ok \<leftarrow> valid_fd fd s;
     if \<not> ok then Some (- EBADF, s)
     else do {
       k \<leftarrow> tasks s (current_task s);
       ioctl_vfs ops (fd_file fd k) request ptr s
     }
   }"

definition user_link :: "'x kst file_ops \<Rightarrow> bytes option \<Rightarrow> bytes option \<Rightarrow> 'x kst \<Rightarrow> (int \<times> 'x kst) option" where
  "user_link ops oldpath newpath s =
    (case (oldpath, newpath) of (Some oldp, Some newp) \<Rightarrow> do {
         ((child, openret), s) \<leftarrow> kopen ops oldp O_WRONLY s;
         if child = NULL then do { ret \<leftarrow> openret; Some (ret, s) }
         else do {
           k \<leftarrow> tasks s (current_task s);
           nd \<leftarrow> get_fsn child s;
           if t_euid k \<noteq> nd_uid nd \<and> t_euid k \<noteq> 0 then do {
             (_, s) \<leftarrow> close_vfs ops child s;
             Some (- EPERM, s)
           } else do {
             ((parent, fname, ret), s) \<leftarrow> getparent ops newp s;
             if parent = NULL then Some (ret, s)
             else do {
               (ret, s) \<leftarrow> link_vfs ops parent child fname s;
               (_, s) \<leftarrow> close_vfs ops parent s;
               (_, s) \<leftarrow> close_vfs ops child s;
               Some (ret, s)
             }
           }
         }
       }
     | _ \<Rightarrow> Some (- EFAULT, s))"

text \<open>\<^verbatim>\<open>user_unlink\<close> and \<^verbatim>\<open>mknod\<close>: the parent directory, the right to write to it, the operation on it.\<close>

definition in_parent :: "'x kst file_ops \<Rightarrow> (addr \<Rightarrow> bytes \<Rightarrow> 'x kst \<Rightarrow> (int \<times> 'x kst) option) \<Rightarrow> bytes option \<Rightarrow> 'x kst \<Rightarrow> (int \<times> 'x kst) option" where
  "in_parent ops act path s =
    (case path of None \<Rightarrow> Some (- EFAULT, s)
     | Some path \<Rightarrow> do {
         ((parent, fname, ret), s) \<leftarrow> getparent ops path s;
         if parent = NULL then Some (ret, s)
         else do {
           ok \<leftarrow> check_node parent O_WRONLY s;
           if \<not> ok then do {
             (_, s) \<leftarrow> close_vfs ops parent s;
             Some (- EACCES, s)
           } else do {
             (ret, s) \<leftarrow> act parent fname s;
             (_, s) \<leftarrow> close_vfs ops parent s;
             Some (ret, s)
           }
         }
       })"

definition user_unlink :: "'x kst file_ops \<Rightarrow> bytes option \<Rightarrow> 'x kst \<Rightarrow> (int \<times> 'x kst) option" where
  "user_unlink ops path s = in_parent ops (unlink_vfs ops) path s"

definition mknod :: "'x kst file_ops \<Rightarrow> bytes option \<Rightarrow> 32 word \<Rightarrow> nat \<Rightarrow> 'x kst \<Rightarrow> (int \<times> 'x kst) option" where
  "mknod ops path mode dev s =
    in_parent ops (\<lambda>parent nname s. do {
      k \<leftarrow> tasks s (current_task s);
      create_vfs ops parent nname (t_euid k) (t_egid k) mode dev s
    }) path s"

definition user_mount :: "'x kst file_ops \<Rightarrow> (bytes \<Rightarrow> (addr \<times> 32 word) option) \<Rightarrow> bytes option \<Rightarrow> bytes option \<Rightarrow> bytes option \<Rightarrow> 32 word \<Rightarrow> 'x kst \<Rightarrow> (int \<times> 'x kst) option" where
  "user_mount ops fs_find src target fs_name flags s = do {
     k \<leftarrow> tasks s (current_task s);
     if t_euid k \<noteq> 0 then Some (- EPERM, s)
     else case (target, fs_name) of (Some target, Some fs_name) \<Rightarrow> do {
         ((dev, openret), s) \<leftarrow> (case src of None \<Rightarrow> Some ((NULL, None), s) | Some src \<Rightarrow> kopen ops src flags s);
         if src \<noteq> None \<and> dev = NULL then do { ret \<leftarrow> openret; Some (ret, s) }
         else do {
           (ret, s) \<leftarrow> mount ops fs_find dev target fs_name flags s;
           s \<leftarrow> (if ret \<noteq> 0 \<and> dev \<noteq> NULL then do { (_, s) \<leftarrow> close_vfs ops dev s; Some s } else Some s);
           Some (ret, s)
         }
       }
     | _ \<Rightarrow> Some (- EFAULT, s)
   }"

definition user_umount :: "'x kst file_ops \<Rightarrow> bytes option \<Rightarrow> 32 word \<Rightarrow> 'x kst \<Rightarrow> (int \<times> 'x kst) option" where
  "user_umount ops target flags s = do {
     k \<leftarrow> tasks s (current_task s);
     if t_euid k \<noteq> 0 then Some (- EPERM, s)
     else case target of None \<Rightarrow> Some (- EFAULT, s) | Some target \<Rightarrow> umount ops target flags s
   }"

subsection \<open>Example\<close>

text \<open>Process 1, which user 5 runs, has the directory of the example open for writing as descriptor 3.\<close>

definition demo_user :: task_t where
  "demo_user = (demo_task 1)\<lparr>t_euid := 5, t_egid := 6, t_treenode := 700,
     t_files := (\<lambda>i. \<lparr>fp_file = (if i = 3 then 100 else NULL), fp_off = 10\<rparr>)\<rparr>"

definition demo_files :: "unit kst" where
  "demo_files = demo_kst\<lparr>current_task := 50, tasks := [50 \<mapsto> demo_user],
     t_vfs := demo_vfs\<lparr>fs_nodes := map_option (\<lambda>nd. nd\<lparr>nd_flags := O_WRONLY\<rparr>) \<circ> fs_nodes demo_vfs\<rparr>\<rparr>"

subsection \<open>Properties\<close>

text \<open>The right to read, or to write, that the mode of a file gives to a task.\<close>

definition mode_allows :: "fs_node \<Rightarrow> task_t \<Rightarrow> 32 word \<Rightarrow> 32 word \<Rightarrow> 32 word \<Rightarrow> bool" where
  "mode_allows file k other usr grp \<longleftrightarrow> nd_mode file AND other \<noteq> 0
     \<or> t_euid k = nd_uid file \<and> nd_mode file AND usr \<noteq> 0 \<or> t_egid k = nd_gid file \<and> nd_mode file AND grp \<noteq> 0"


text \<open>
  \<^verbatim>\<open>lseek\<close> with \<^verbatim>\<open>SEEK_SET\<close> accepts descriptor 32, which is one too many, whenever the task is in the process
  tree: it returns the offset like a success, and what it has overwritten is the task's pointer to its
  wait queue and its sleep flags, with the two halves of the offset the caller chose.
\<close>

theorem lseek_beyond:
  assumes "tasks s (current_task s) = Some k" "t_treenode k \<noteq> NULL"
  shows "lseek 32 off SEEK_SET s = Some (off, s\<lparr>tasks := (tasks s)(current_task s \<mapsto>
    k\<lparr>t_wq := nat (off mod 2 ^ 32), t_sleep_flags := word_of_int (off div 2 ^ 32)\<rparr>)\<rparr>)"
  using assms by (simp add: lseek_def valid_fd_def fd_file_def set_fd_off_def MAX_OF_def upd_task_def)

theorem lseek_beyond_witness:
  "\<exists>s'. lseek 32 0xC0100000 SEEK_SET demo_files = Some (0xC0100000, s') \<and> map_option t_wq (tasks s' 50) = Some 0xC0100000"
  using lseek_beyond [of demo_files demo_user "0xC0100000"] by (simp add: demo_files_def demo_kst_def demo_user_def)

text \<open>
  \<^verbatim>\<open>user_write\<close> reports errors of the file system as success. When \<^verbatim>\<open>write_vfs\<close> returns an error code,
  a negative number, the call returns this number plus \<open>2 ^ 32\<close>, more bytes than any write can have
  written, and moves the offset of the descriptor forward by as much.
\<close>

theorem user_write_error:
  assumes "rw_check fd True O_WRONLY s = Some (Inr (f, off))" "write_vfs ops f buf n off s = Some (- e, s1)" "0 < e" "e < 2 ^ 31"
    and "tasks s1 (current_task s1) = Some k"
  shows "\<exists>s'. user_write ops fd (Some buf) n s = Some (2 ^ 32 - e, s') \<and> 0 < 2 ^ 32 - e
    \<and> tasks s' (current_task s1) = Some (set_fd_off fd (wrap64 (fd_off fd k + (2 ^ 32 - e))) k)"
proof -
  have "(- e) mod 2 ^ 32 = (2 ^ 32 - e) mod 2 ^ 32" using mod_add_self1 [of "2 ^ 32" "- e"] by simp
  also have "\<dots> = 2 ^ 32 - e" using assms(3,4) by (intro mod_pos_pos_trivial) simp_all
  finally have "(- e) mod 2 ^ 32 = 2 ^ 32 - e" .
  with assms show ?thesis by (simp add: user_write_def advance_def upd_task_def Let_def)
qed

theorem user_write_error_witness:
  "\<exists>s'. user_write null_ops 3 (Some [0x41]) 1 demo_files = Some (4294967274, s')"
proof -
  have nd: "get_fsn 100 demo_files = Some \<lparr>nd_inode = 1, nd_uid = 0, nd_gid = 0, nd_mode = VFS_DIR, nd_flags = O_WRONLY,
     nd_len = 0, nd_dev = 0, nd_atime = 0, nd_mtime = 0, nd_ctime = 0, nd_ops = 0, nd_fs_sb = 200, nd_private = NULL,
     nd_refcount = 1, nd_nlink = 1\<rparr>" by (simp add: get_fsn_def demo_files_def demo_vfs_def)
  have k: "tasks demo_files (current_task demo_files) = Some demo_user" by (simp add: demo_files_def)
  have "rw_check 3 True O_WRONLY demo_files = Some (Inr (100, 10))"
    using k nd by (simp add: rw_check_def valid_fd_def fd_file_def fd_off_def demo_user_def MAX_OF_def O_WRONLY_def)
  moreover have "write_vfs null_ops 100 [0x41] 1 10 demo_files = Some (- EINVAL, demo_files)"
    using nd by (simp add: write_vfs_def VFS_DIR_def)
  ultimately show ?thesis using user_write_error [of 3 demo_files 100 10 null_ops "[0x41]" 1 EINVAL demo_files demo_user] k
    by (auto simp: EINVAL_def)
qed

end
