(* ===== verification/Printf.thy ===== *)
theory Printf
  imports Strings
begin

section \<open>Formatted output (kernel/printf.c)\<close>

text \<open>
  \<^verbatim>\<open>printf\<close> and \<^verbatim>\<open>sprintf\<close> send the same characters to the screen or to a buffer; the definitions give these
  characters, and the number the C functions return is how many there are. The arguments are a list of
  integers and string pointers; reading an argument that is not there or has the other type has no
  result, and neither has running over the end of the format.
\<close>

datatype arg = Arg_int "32 word" | Arg_str "bytes option"

text \<open>The flags \<^verbatim>\<open>PAD_RIGHT\<close> and \<^verbatim>\<open>PAD_ZERO\<close>.\<close>

record pad =
  pad_right :: bool
  pad_zero :: bool

definition prints :: "bytes \<Rightarrow> nat \<Rightarrow> pad \<Rightarrow> bytes" where
  "prints str width pad =
    (let padchar = (if width > 0 \<and> pad_zero pad then 0x30 else 0x20);
         width = (if length str \<ge> width then 0 else width - length str)
     in if pad_right pad then str @ replicate width padchar else replicate width padchar @ str)"

text \<open>
  The loop that writes the digits in front of those that are there already. The bases in use are 10
  and 16; the test for smaller ones is there for the definition to be total.
\<close>

function print_digits :: "nat \<Rightarrow> nat \<Rightarrow> 8 word \<Rightarrow> bytes \<Rightarrow> bytes" where
  "print_digits u b letbase s =
    (if u = 0 \<or> b < 2 then s
     else
       let t = u mod b;
           c = (if t \<ge> 10 then letbase + word_of_nat (t - 10) else 0x30 + word_of_nat t)
       in print_digits (u div b) b letbase (c # s))"
  by pat_completeness auto
termination by (relation "measure (\<lambda>(u, b, letbase, s). u)") auto

declare print_digits.simps [simp del]

definition PRINT_BUF_LEN :: nat where "PRINT_BUF_LEN = 12"

text \<open>The digits and the sign have to fit into \<^verbatim>\<open>print_buf\<close> together with the final zero.\<close>

definition printi :: "32 word \<Rightarrow> nat \<Rightarrow> bool \<Rightarrow> nat \<Rightarrow> pad \<Rightarrow> 8 word \<Rightarrow> bytes option" where
  "printi i b sg width pad letbase =
    (if i = 0 then Some (prints [0x30] width pad)
     else do {
       let neg = sg \<and> b = 10 \<and> sint i < 0;
       let u = unat (if neg then - i else i);
       let s = print_digits u b letbase [];
       if neg \<and> width \<noteq> 0 \<and> pad_zero pad then do {
         ASSERT (length s < PRINT_BUF_LEN);
         Some (0x2D # prints s (width - 1) pad)
       } else do {
         let s = (if neg then 0x2D # s else s);
         ASSERT (length s < PRINT_BUF_LEN);
         Some (prints s width pad)
       }
     })"

text \<open>Minus sign, zeros and width of a conversion, and what follows them.\<close>

definition is_digit :: "8 word \<Rightarrow> bool" where
  "is_digit c \<longleftrightarrow> 0x30 \<le> c \<and> c \<le> 0x39"

definition print_spec :: "bytes \<Rightarrow> (pad \<times> nat) \<times> bytes" where
  "print_spec f =
    (let right = (f \<noteq> [] \<and> hd f = 0x2D);
         f = (if right then tl f else f);
         g = dropWhile (\<lambda>c. c = 0x30) f;
         ds = takeWhile is_digit g
     in ((\<lparr>pad_right = right, pad_zero = g \<noteq> f\<rparr>, foldl (\<lambda>w c. w * 10 + (unat c - 0x30)) 0 ds), dropWhile is_digit g))"

lemma print_spec_length: "print_spec f = (pw, g) \<Longrightarrow> length g \<le> length f"
proof -
  have "length (dropWhile P (dropWhile Q xs)) \<le> length xs" for P Q and xs :: bytes
    by (meson length_dropWhile_le order_trans)
  note this [of is_digit "\<lambda>c. c = 0x30" f] this [of is_digit "\<lambda>c. c = 0x30" "tl f"]
  then show "print_spec f = (pw, g) \<Longrightarrow> length g \<le> length f" by (auto simp: print_spec_def Let_def split: if_splits)
qed

text \<open>One conversion: the characters and the arguments that are left.\<close>

definition print_conv :: "8 word \<Rightarrow> nat \<Rightarrow> pad \<Rightarrow> arg list \<Rightarrow> (bytes \<times> arg list) option" where
  "print_conv c width pad args =
    (if c = 0x73 then
       (case args of Arg_str p # as \<Rightarrow>
          Some (prints (case p of Some s \<Rightarrow> s | None \<Rightarrow> map (word_of_nat \<circ> of_char) ''(null)'') width pad, as)
        | _ \<Rightarrow> None)
     else if c \<in> {0x64, 0x69, 0x78, 0x58, 0x75, 0x63} then
       (case args of Arg_int i # as \<Rightarrow> do {
          s \<leftarrow> (if c = 0x64 \<or> c = 0x69 then printi i 10 True width pad 0x61
                else if c = 0x78 then printi i 16 False width pad 0x61
                else if c = 0x58 then printi i 16 False width pad 0x41
                else if c = 0x75 then printi i 10 False width pad 0x61
                else Some (prints (if ucast i = (0 :: 8 word) then [] else [ucast i]) width pad));
          Some (s, as)
        }
        | _ \<Rightarrow> None)
     else Some ([], args))"

function print :: "bytes \<Rightarrow> arg list \<Rightarrow> bytes option" where
  "print [] args = Some []"
| "print (c # f) args =
    (if c \<noteq> 0x25 then map_option (\<lambda>s. c # s) (print f args)
     else if f = [] then Some []
     else if hd f = 0x25 then map_option (\<lambda>s. hd f # s) (print (tl f) args)
     else case print_spec f of
       ((pad, width), []) \<Rightarrow> None
     | ((pad, width), e # g) \<Rightarrow> do {
         (s, args) \<leftarrow> print_conv e width pad args;
         map_option (\<lambda>t. s @ t) (print g args)
       })"
  by pat_completeness auto
termination
  by (relation "measure (\<lambda>(f, args). length f)") (auto dest: print_spec_length print_spec_length [OF sym])

declare print.simps(2) [simp del]

subsection \<open>The number that digits stand for\<close>

definition digit_val :: "8 word \<Rightarrow> nat" where
  "digit_val c = (if c \<ge> 0x61 then unat c - 0x61 + 10 else unat c - 0x30)"

definition digits_val :: "nat \<Rightarrow> bytes \<Rightarrow> nat" where
  "digits_val b cs = foldl (\<lambda>v c. v * b + digit_val c) 0 cs"

lemma digit_val_char:
  assumes "t < 16"
  shows "digit_val (if t \<ge> 10 then 0x61 + word_of_nat (t - 10) else 0x30 + word_of_nat t) = t"
proof -
  have "t = 0 \<or> t = 1 \<or> t = 2 \<or> t = 3 \<or> t = 4 \<or> t = 5 \<or> t = 6 \<or> t = 7 \<or> t = 8 \<or> t = 9 \<or> t = 10 \<or> t = 11
    \<or> t = 12 \<or> t = 13 \<or> t = 14 \<or> t = 15" using assms by presburger
  then show ?thesis by (elim disjE) (simp_all add: digit_val_def)
qed

lemma print_digits_ok:
  assumes "2 \<le> b" "b \<le> 16" "u < b ^ n"
  shows "\<exists>ds. print_digits u b 0x61 s = ds @ s \<and> digits_val b ds = u \<and> length ds \<le> n"
  using assms(3)
proof (induction n arbitrary: u s)
  case 0
  then show ?case by (simp add: print_digits.simps digits_val_def)
next
  case (Suc n)
  show ?case
  proof (cases "u = 0")
    case True
    then show ?thesis by (simp add: print_digits.simps digits_val_def)
  next
    case False
    let ?t = "u mod b"
    let ?c = "if ?t \<ge> 10 then 0x61 + word_of_nat (?t - 10) else 0x30 + word_of_nat ?t :: 8 word"
    have "u div b < b ^ n" using Suc.prems assms(1) by (simp add: div_less_iff_less_mult mult.commute)
    from Suc.IH [OF this, of "?c # s"] obtain ds where ds: "print_digits (u div b) b 0x61 (?c # s) = ds @ ?c # s"
      "digits_val b ds = u div b" "length ds \<le> n" by blast
    have "digit_val ?c = ?t" using assms(1,2) mod_less_divisor [of b u] by (intro digit_val_char) linarith
    then have "digits_val b (ds @ [?c]) = u" using ds(2) by (simp add: digits_val_def)
    moreover have "print_digits u b 0x61 s = (ds @ [?c]) @ s"
      using False assms(1) ds(1) by (subst print_digits.simps) (simp add: Let_def)
    ultimately show ?thesis using ds(3) by (intro exI [of _ "ds @ [?c]"]) simp
  qed
qed

definition no_pad :: pad where
  "no_pad = \<lparr>pad_right = False, pad_zero = False\<rparr>"

lemma prints_0 [simp]: "prints str 0 pad = str"
  by (simp add: prints_def Let_def)

lemma printi_hex:
  "\<exists>ds. printi i 16 False 0 no_pad 0x61 = Some ds \<and> digits_val 16 ds = unat i \<and> length ds \<le> 8"
proof (cases "i = 0")
  case False
  have "unat i < 16 ^ 8" using unsigned_less [of i, where 'a = nat] by simp
  from print_digits_ok [OF _ _ this, of "[]"] False show ?thesis
    by (auto simp: printi_def PRINT_BUF_LEN_def Let_def no_pad_def)
qed (simp add: printi_def digits_val_def digit_val_def)

lemma unat_abs: "int (unat (if sint i < 0 then - i else i)) = \<bar>sint i\<bar>" for i :: "32 word"
proof -
  have r: "- (2 ^ 31) \<le> sint i" "sint i < 2 ^ 31" using sint_greater_eq [of i] sint_less [of i] by simp_all
  have "int (unat (of_int k :: 32 word)) = k" if "0 \<le> k" "k < 2 ^ 32" for k
    using that by (simp add: unsigned_of_int take_bit_int_eq_self)
  note k = this
  show ?thesis
  proof (cases "sint i < 0")
    case True
    have "- i = of_int (- sint i)" by simp
    then show ?thesis using True k [of "- sint i"] r by simp
  next
    case False
    have "i = of_int (sint i)" by simp
    then show ?thesis using False k [of "sint i"] r by simp
  qed
qed

subsection \<open>Properties\<close>


end
