(* ===== verification/Gdt.thy ===== *)
theory Gdt
  imports Prelude
begin

section \<open>Segment descriptors and the task state segment (kernel/gdt.c)\<close>

text \<open>
  The global descriptor table of six entries, the pointer that is loaded into the processor, and the
  task state segment. The bit fields of \<^verbatim>\<open>gdt_entry_t\<close> are words of their width; \<open>seg_base\<close>, \<open>seg_limit\<close> and
  \<open>seg_flags\<close> read an entry the way the processor does. The addresses of the tables are components of the
  state; \<^verbatim>\<open>gdt_flush\<close> and \<^verbatim>\<open>tss_flush\<close> load the registers \<open>gdtr\<close> and \<open>tr\<close>.
\<close>

unbundle bit_operations_syntax

subsection \<open>Data\<close>

record gdt_entry =
  seg_limit_low :: "16 word"
  base_low :: "16 word"
  base_mid :: "8 word"
  seg_type :: "4 word"
  desc_type :: "1 word"
  priv :: "2 word"
  present :: "1 word"
  seg_limit_high :: "4 word"
  avail :: "1 word"
  seg_reserved :: "1 word"
  DB :: "1 word"
  granularity :: "1 word"
  base_high :: "8 word"

record gdt_ptr =
  gp_offset :: "16 word"
  gp_base :: "32 word"

text \<open>The fields of \<^verbatim>\<open>tss_entry_t\<close> that are ever different from zero.\<close>

record tss_entry =
  tss_ss0 :: "16 word"
  tss_esp0_of :: "32 word"
  tss_cs :: "16 word"
  tss_ss :: "16 word"
  tss_ds :: "16 word"
  tss_es :: "16 word"
  tss_fs :: "16 word"
  tss_gs :: "16 word"

record gdt_state =
  gdt_entries :: "gdt_entry list"
  gdt_ptr_of :: gdt_ptr
  tss_entry_of :: tss_entry
  gdt_addr :: "32 word"
  tss_addr :: "32 word"
  gdtr :: "gdt_ptr option"
  tr :: "16 word"

definition sizeof_gdt_entry_t :: nat where "sizeof_gdt_entry_t = 8"
definition sizeof_tss_entry_t :: nat where "sizeof_tss_entry_t = 104"

definition GDT_SEGMENT_SYSTEM :: "16 word" where "GDT_SEGMENT_SYSTEM = 0x0000"
definition GDT_SEGMENT_DATA :: "16 word" where "GDT_SEGMENT_DATA = 0x0010"
definition GDT_SEGMENT_CODE :: "16 word" where "GDT_SEGMENT_CODE = 0x0018"
definition GDT_SEGMENT_PRESENT :: "16 word" where "GDT_SEGMENT_PRESENT = 0x0080"
definition GDT_SEGMENT_GRANULAR :: "16 word" where "GDT_SEGMENT_GRANULAR = 0x0800"
definition GDT_DPL_RING0 :: "16 word" where "GDT_DPL_RING0 = 0x0000"
definition GDT_DPL_RING3 :: "16 word" where "GDT_DPL_RING3 = 0x0060"
definition GDT_DATA_WRITE :: "16 word" where "GDT_DATA_WRITE = 0x0002"
definition GDT_DATA_32BIT :: "16 word" where "GDT_DATA_32BIT = 0x0400"
definition GDT_CODE_READ :: "16 word" where "GDT_CODE_READ = 0x0002"
definition GDT_CODE_32BIT :: "16 word" where "GDT_CODE_32BIT = 0x0400"
definition GDT_SYSTEM_TSS :: "16 word" where "GDT_SYSTEM_TSS = 0x0001"
definition GDT_SYSTEM_32BIT :: "16 word" where "GDT_SYSTEM_32BIT = 0x0008"

lemmas gdt_flag_defs = GDT_SEGMENT_SYSTEM_def GDT_SEGMENT_DATA_def GDT_SEGMENT_CODE_def GDT_SEGMENT_PRESENT_def
  GDT_SEGMENT_GRANULAR_def GDT_DPL_RING0_def GDT_DPL_RING3_def GDT_DATA_WRITE_def GDT_DATA_32BIT_def GDT_CODE_READ_def
  GDT_CODE_32BIT_def GDT_SYSTEM_TSS_def GDT_SYSTEM_32BIT_def

subsection \<open>Operations\<close>

definition fill_gate :: "32 word \<Rightarrow> 32 word \<Rightarrow> 16 word \<Rightarrow> gdt_entry \<Rightarrow> gdt_entry" where
  "fill_gate base limit flags e = e\<lparr>
     base_low := ucast (base AND 0xFFFF),
     base_mid := ucast (drop_bit 16 base AND 0xFF),
     base_high := ucast (drop_bit 24 base),
     seg_limit_low := ucast (limit AND 0xFFFF),
     seg_limit_high := ucast (drop_bit 16 limit AND 0x0F),
     seg_type := ucast (flags AND 0x0F),
     desc_type := ucast (drop_bit 4 flags AND 0x01),
     priv := ucast (drop_bit 5 flags AND 0x03),
     present := ucast (drop_bit 7 flags AND 0x01),
     seg_reserved := 0,
     DB := ucast (drop_bit 10 flags AND 0x01),
     granularity := ucast (drop_bit 11 flags AND 0x01)\<rparr>"

text \<open>A number beyond the table is a write outside of it.\<close>

definition gdt_set_gate :: "nat \<Rightarrow> 32 word \<Rightarrow> 32 word \<Rightarrow> 16 word \<Rightarrow> gdt_state \<Rightarrow> gdt_state option" where
  "gdt_set_gate num base limit flags s = do {
     ASSERT (num < length (gdt_entries s));
     Some (s\<lparr>gdt_entries := (gdt_entries s)[num := fill_gate base limit flags (gdt_entries s ! num)]\<rparr>)
   }"

definition zero_tss :: tss_entry where
  "zero_tss = \<lparr>tss_ss0 = 0, tss_esp0_of = 0, tss_cs = 0, tss_ss = 0, tss_ds = 0, tss_es = 0, tss_fs = 0, tss_gs = 0\<rparr>"

definition write_tss :: "nat \<Rightarrow> 16 word \<Rightarrow> 16 word \<Rightarrow> gdt_state \<Rightarrow> gdt_state option" where
  "write_tss num ss0 esp0 s = do {
     let base = tss_addr s;
     let limit = base + of_nat sizeof_tss_entry_t;
     let flags = GDT_SEGMENT_PRESENT OR GDT_DPL_RING3 OR GDT_SEGMENT_SYSTEM OR GDT_SYSTEM_32BIT OR GDT_SYSTEM_TSS;
     s \<leftarrow> gdt_set_gate num base limit flags s;
     Some (s\<lparr>tss_entry_of := zero_tss\<lparr>tss_ss0 := ss0, tss_esp0_of := ucast esp0, tss_cs := 0x0B,
       tss_ss := 0x13, tss_ds := 0x13, tss_es := 0x13, tss_fs := 0x13, tss_gs := 0x13\<rparr>\<rparr>)
   }"

text \<open>\<^verbatim>\<open>tss_flush\<close> loads the selector 0x2B, the fifth entry with privilege level 3.\<close>

definition gdt_flush :: "gdt_state \<Rightarrow> gdt_state" where
  "gdt_flush s = s\<lparr>gdtr := Some (gdt_ptr_of s)\<rparr>"

definition tss_flush :: "gdt_state \<Rightarrow> gdt_state" where
  "tss_flush s = s\<lparr>tr := 0x2B\<rparr>"

definition dflags :: "16 word" where
  "dflags = GDT_SEGMENT_GRANULAR OR GDT_SEGMENT_PRESENT OR GDT_SEGMENT_DATA OR GDT_DATA_32BIT OR GDT_DATA_WRITE"

definition cflags :: "16 word" where
  "cflags = GDT_SEGMENT_GRANULAR OR GDT_SEGMENT_PRESENT OR GDT_SEGMENT_CODE OR GDT_CODE_32BIT OR GDT_CODE_READ"

definition init_gdt :: "gdt_state \<Rightarrow> gdt_state option" where
  "init_gdt s = do {
     let s = s\<lparr>gdt_ptr_of := \<lparr>gp_offset = of_nat (sizeof_gdt_entry_t * 6 - 1), gp_base = gdt_addr s\<rparr>\<rparr>;
     s \<leftarrow> gdt_set_gate 0 0 0 0 s;
     s \<leftarrow> gdt_set_gate 1 0 0xFFFFFFFF (cflags OR GDT_DPL_RING0) s;
     s \<leftarrow> gdt_set_gate 2 0 0xFFFFFFFF (dflags OR GDT_DPL_RING0) s;
     s \<leftarrow> gdt_set_gate 3 0 0xFFFFFFFF (cflags OR GDT_DPL_RING3) s;
     s \<leftarrow> gdt_set_gate 4 0 0xFFFFFFFF (dflags OR GDT_DPL_RING3) s;
     s \<leftarrow> write_tss 5 0x10 0x0 s;
     Some (tss_flush (gdt_flush s))
   }"

definition tss_set_kernel_stack :: "32 word \<Rightarrow> gdt_state \<Rightarrow> gdt_state" where
  "tss_set_kernel_stack esp0 s = s\<lparr>tss_entry_of := (tss_entry_of s)\<lparr>tss_esp0_of := esp0\<rparr>\<rparr>"

subsection \<open>How the processor reads an entry\<close>

definition seg_base :: "gdt_entry \<Rightarrow> 32 word" where
  "seg_base e = ucast (base_low e) OR push_bit 16 (ucast (base_mid e)) OR push_bit 24 (ucast (base_high e))"

definition seg_limit :: "gdt_entry \<Rightarrow> 32 word" where
  "seg_limit e = ucast (seg_limit_low e) OR push_bit 16 (ucast (seg_limit_high e))"

definition seg_flags :: "gdt_entry \<Rightarrow> 16 word" where
  "seg_flags e = ucast (seg_type e) OR push_bit 4 (ucast (desc_type e)) OR push_bit 5 (ucast (priv e))
     OR push_bit 7 (ucast (present e)) OR push_bit 10 (ucast (DB e)) OR push_bit 11 (ucast (granularity e))"

text \<open>The number of bytes that a segment has beyond its first.\<close>

definition seg_span :: "gdt_entry \<Rightarrow> nat" where
  "seg_span e = (if granularity e = 1 then unat (seg_limit e) * 4096 + 4095 else unat (seg_limit e))"


subsection \<open>Properties\<close>

lemma and_masks:
  "x AND 0xFFFF = take_bit 16 x" "x AND 0xFF = take_bit 8 x" "x AND 0x0F = take_bit 4 x" "x AND 0xFFFFF = take_bit 20 x"
  for x :: "'a::len word"
  by (simp_all add: take_bit_eq_mask mask_numeral)

lemma below_sixteen: "(n::nat) < 16 \<longleftrightarrow> n \<in> {0, 1, 2, 3, 4, 5, 6, 7, 8, 9, 10, 11, 12, 13, 14, 15}"
  by (simp; presburger)

lemma fill_gate_base: "seg_base (fill_gate base limit flags e) = base"
proof (rule bit_word_eqI)
  fix n assume "n < LENGTH(32)"
  then consider "n < 16" | "16 \<le> n" "n < 24" | "24 \<le> n" "n < 32" by force
  then show "bit (seg_base (fill_gate base limit flags e)) n = bit base n"
    by cases (auto simp: seg_base_def fill_gate_def and_masks bit_simps)
qed

lemma fill_gate_limit: "seg_limit (fill_gate base limit flags e) = limit AND 0xFFFFF"
proof (rule bit_word_eqI)
  fix n assume "n < LENGTH(32)"
  then consider "n < 16" | "16 \<le> n" "n < 20" | "20 \<le> n" "n < 32" by force
  then show "bit (seg_limit (fill_gate base limit flags e)) n = bit (limit AND 0xFFFFF) n"
    by cases (auto simp: seg_limit_def fill_gate_def and_masks bit_simps)
qed

lemma fill_gate_flags: "seg_flags (fill_gate base limit flags e) = flags AND 0x0CFF"
proof (rule bit_word_eqI)
  fix n assume "n < LENGTH(16)"
  then have "n \<in> {0, 1, 2, 3, 4, 5, 6, 7, 8, 9, 10, 11, 12, 13, 14, 15}" by (simp add: below_sixteen)
  then show "bit (seg_flags (fill_gate base limit flags e)) n = bit (flags AND 0x0CFF) n"
    by (elim insertE emptyE) (simp_all add: seg_flags_def fill_gate_def bit_simps)
qed


lemma gdt_set_gate_effect:
  assumes "gdt_set_gate num base limit flags s = Some s'"
  shows "seg_base (gdt_entries s' ! num) = base" "seg_limit (gdt_entries s' ! num) = limit AND 0xFFFFF"
    "seg_flags (gdt_entries s' ! num) = flags AND 0x0CFF" "k \<noteq> num \<Longrightarrow> gdt_entries s' ! k = gdt_entries s ! k"
    "length (gdt_entries s') = length (gdt_entries s)"
  using assms by (auto simp: gdt_set_gate_def fill_gate_base fill_gate_limit fill_gate_flags split: if_splits)

lemma gdt_set_gate_Some:
  assumes "num < length (gdt_entries s)"
  shows "gdt_set_gate num base limit flags s
    = Some (s\<lparr>gdt_entries := (gdt_entries s)[num := fill_gate base limit flags (gdt_entries s ! num)]\<rparr>)"
  using assms by (simp add: gdt_set_gate_def)

lemma flat_span: "granularity (fill_gate 0 0xFFFFFFFF flags e) = 1 \<Longrightarrow> seg_span (fill_gate 0 0xFFFFFFFF flags e) = two32 - 1"
  by (simp add: seg_span_def fill_gate_limit two32_def)

lemma fill_gate_parts:
  "granularity (fill_gate base limit flags e) = ucast (drop_bit 11 flags AND 1)"
  "priv (fill_gate base limit flags e) = ucast (drop_bit 5 flags AND 3)"
  "present (fill_gate base limit flags e) = ucast (drop_bit 7 flags AND 1)"
  by (simp_all add: fill_gate_def)

definition demo_gdt :: gdt_state where
  "demo_gdt = \<lparr>gdt_entries = replicate 6 (fill_gate 0 0 0 \<lparr>seg_limit_low = 0, base_low = 0, base_mid = 0, seg_type = 0, desc_type = 0,
      priv = 0, present = 0, seg_limit_high = 0, avail = 0, seg_reserved = 0, DB = 0, granularity = 0, base_high = 0\<rparr>),
     gdt_ptr_of = \<lparr>gp_offset = 0, gp_base = 0\<rparr>, tss_entry_of = zero_tss, gdt_addr = 0xC0110000, tss_addr = 0xC0111000, gdtr = None, tr = 0\<rparr>"



end
