(* ===== verification/Idt.thy ===== *)
theory Idt
  imports Prelude
begin

section \<open>Interrupt descriptors and dispatch (kernel/idt.c)\<close>

text \<open>
  The interrupt descriptor table, the table of the registered handlers and the two dispatchers that interrupt.s
  calls. Handlers and the entry points of interrupt.s are addresses; what a handler does to the state of the
  kernel is the argument \<open>call\<close> of the dispatchers. The writes to the ports of the two interrupt controllers are a
  trace, and \<open>pic_step\<close> is the part of the controller's protocol the code relies on.
\<close>

unbundle bit_operations_syntax

subsection \<open>Data\<close>

record idt_entry =
  handler_low :: "16 word"
  selector :: "16 word"
  idt_zero :: "8 word"
  idt_flags :: "8 word"
  handler_high :: "16 word"

record registers =
  r_ds :: "32 word"
  r_edi :: "32 word"
  r_esi :: "32 word"
  r_ebp :: "32 word"
  r_esp :: "32 word"
  r_ebx :: "32 word"
  r_edx :: "32 word"
  r_ecx :: "32 word"
  r_eax :: "32 word"
  int_no :: nat
  err_code :: "32 word"
  r_eip :: "32 word"
  r_cs :: "32 word"
  r_eflags :: "32 word"
  r_useresp :: "32 word"
  r_ss :: "32 word"

type_synonym port_trace = "(16 word \<times> 8 word) list"

record idt_state =
  idt_entries :: "8 word \<Rightarrow> idt_entry"
  idt_ptr :: "16 word \<times> 32 word"
  idt_addr :: "32 word"
  isr_handlers :: "8 word \<Rightarrow> addr"
  idtr :: "(16 word \<times> 32 word) option"
  ports :: port_trace

definition PIC_MASTER_A :: "16 word" where "PIC_MASTER_A = 0x20"
definition PIC_SLAVE_A :: "16 word" where "PIC_SLAVE_A = 0xA0"
definition PIC_MASTER_B :: "16 word" where "PIC_MASTER_B = 0x21"
definition PIC_SLAVE_B :: "16 word" where "PIC_SLAVE_B = 0xA1"
definition PIC_COMMAND_START :: "8 word" where "PIC_COMMAND_START = 0x10"
definition PIC_COMMAND_EOI :: "8 word" where "PIC_COMMAND_EOI = 0x20"
definition PIC_ICW1_ICW4 :: "8 word" where "PIC_ICW1_ICW4 = 0x01"
definition PIC_ICW4_8086 :: "8 word" where "PIC_ICW4_8086 = 0x01"
definition PIC_ICW4_MASTER :: "8 word" where "PIC_ICW4_MASTER = 0x04"
definition IRQ0 :: nat where "IRQ0 = 32"
definition IRQ8 :: nat where "IRQ8 = 40"
definition IDT_ENTRY_INTERRUPT :: "8 word" where "IDT_ENTRY_INTERRUPT = 0x06"
definition IDT_ENTRY_32BIT :: "8 word" where "IDT_ENTRY_32BIT = 0x08"
definition IDT_ENTRY_PRESENT :: "8 word" where "IDT_ENTRY_PRESENT = 0x80"
definition IDT_DPL_RING0 :: "8 word" where "IDT_DPL_RING0 = 0x00"
definition IDT_DPL_RING3 :: "8 word" where "IDT_DPL_RING3 = 0x60"

lemmas pic_defs = PIC_MASTER_A_def PIC_SLAVE_A_def PIC_MASTER_B_def PIC_SLAVE_B_def PIC_COMMAND_START_def
  PIC_COMMAND_EOI_def PIC_ICW1_ICW4_def PIC_ICW4_8086_def PIC_ICW4_MASTER_def
lemmas idt_flag_defs = IDT_ENTRY_INTERRUPT_def IDT_ENTRY_32BIT_def IDT_ENTRY_PRESENT_def IDT_DPL_RING0_def IDT_DPL_RING3_def

definition sizeof_idt_entry_t :: nat where "sizeof_idt_entry_t = 8"

subsection \<open>Operations\<close>

definition outb :: "16 word \<Rightarrow> 8 word \<Rightarrow> idt_state \<Rightarrow> idt_state" where
  "outb port v s = s\<lparr>ports := ports s @ [(port, v)]\<rparr>"

definition idt_set_gate :: "8 word \<Rightarrow> 32 word \<Rightarrow> 16 word \<Rightarrow> 8 word \<Rightarrow> idt_state \<Rightarrow> idt_state" where
  "idt_set_gate num handler sel flags s = s\<lparr>idt_entries := (idt_entries s)(num := (idt_entries s num)\<lparr>
     handler_low := ucast (handler AND 0xFFFF), handler_high := ucast (drop_bit 16 handler),
     selector := sel, idt_zero := 0, idt_flags := flags\<rparr>)\<rparr>"

definition register_interrupt_handler :: "8 word \<Rightarrow> addr \<Rightarrow> idt_state \<Rightarrow> int \<times> idt_state" where
  "register_interrupt_handler n handler s =
    (if isr_handlers s n \<noteq> NULL then (- 1, s) else (0, s\<lparr>isr_handlers := (isr_handlers s)(n := handler)\<rparr>))"

definition release_interrupt_handler :: "8 word \<Rightarrow> idt_state \<Rightarrow> idt_state" where
  "release_interrupt_handler n s = s\<lparr>isr_handlers := (isr_handlers s)(n := NULL)\<rparr>"

text \<open>
  The entry points \<^verbatim>\<open>isr0\<close> to \<^verbatim>\<open>isr31\<close>, \<^verbatim>\<open>irq0\<close> to \<^verbatim>\<open>irq15\<close> and \<^verbatim>\<open>isr128\<close> of interrupt.s, by the number of the interrupt they are
  for, are the argument \<open>entry\<close>. The 49 calls of \<^verbatim>\<open>idt_set_gate\<close> are a fold over these numbers.
\<close>

definition base_flags :: "8 word" where
  "base_flags = IDT_ENTRY_INTERRUPT OR IDT_ENTRY_32BIT OR IDT_ENTRY_PRESENT"

definition idt_flush :: "idt_state \<Rightarrow> idt_state" where
  "idt_flush s = s\<lparr>idtr := Some (idt_ptr s)\<rparr>"

definition init_pics :: "idt_state \<Rightarrow> idt_state" where
  "init_pics s =
    (let s = outb PIC_MASTER_A (PIC_COMMAND_START OR PIC_ICW1_ICW4) s;
         s = outb PIC_SLAVE_A (PIC_COMMAND_START OR PIC_ICW1_ICW4) s;
         s = outb PIC_MASTER_B 32 s;
         s = outb PIC_SLAVE_B 40 s;
         s = outb PIC_MASTER_B 0x04 s;
         s = outb PIC_SLAVE_B 0x02 s;
         s = outb PIC_MASTER_B (PIC_ICW4_MASTER OR PIC_ICW4_8086) s
     in outb PIC_SLAVE_B PIC_ICW4_8086 s)"

definition set_gates :: "(nat \<Rightarrow> 32 word) \<Rightarrow> nat \<Rightarrow> idt_state \<Rightarrow> idt_state" where
  "set_gates entry m s = fold (\<lambda>n s. idt_set_gate (of_nat n) (entry n) 0x08 (base_flags OR IDT_DPL_RING0) s) [0..<m] s"

definition init_idt :: "(nat \<Rightarrow> 32 word) \<Rightarrow> idt_state \<Rightarrow> idt_state" where
  "init_idt entry s =
    (let s = s\<lparr>idt_ptr := (of_nat (sizeof_idt_entry_t * 256 - 1), idt_addr s)\<rparr>;
         s = init_pics s;
         s = set_gates entry 48 s;
         s = idt_set_gate 128 (entry 128) 0x08 (base_flags OR IDT_DPL_RING3) s
     in idt_flush s)"

text \<open>
  The dispatchers. The number of the interrupt indexes an array of 256 handlers. An interrupt without a handler ends in
  \<^verbatim>\<open>halt\<close>, which does not return.
\<close>

definition handler_of :: "registers \<Rightarrow> idt_state \<Rightarrow> addr option" where
  "handler_of regs s = (if int_no regs < 256 then Some (isr_handlers s (of_nat (int_no regs))) else None)"

type_synonym 's handler = "addr \<Rightarrow> registers \<Rightarrow> idt_state \<times> 's \<Rightarrow> (registers \<times> idt_state \<times> 's) option"

definition isr_handler :: "'s handler \<Rightarrow> registers \<Rightarrow> idt_state \<times> 's \<Rightarrow> (registers \<times> idt_state \<times> 's) option" where
  "isr_handler call regs s = do {
     h \<leftarrow> handler_of regs (fst s);
     if h \<noteq> NULL then call h regs s else None
   }"

definition irq_ack :: "nat \<Rightarrow> idt_state \<Rightarrow> idt_state" where
  "irq_ack n s =
    (let s = (if n \<ge> IRQ8 then outb PIC_SLAVE_A PIC_COMMAND_EOI s else s)
     in outb PIC_MASTER_A PIC_COMMAND_EOI s)"

definition irq_handler :: "'s handler \<Rightarrow> registers \<Rightarrow> idt_state \<times> 's \<Rightarrow> (registers \<times> idt_state \<times> 's) option" where
  "irq_handler call regs s = do {
     h \<leftarrow> handler_of regs (fst s);
     if h \<noteq> NULL then call h regs s
     else Some (regs, irq_ack (int_no regs) (fst s), snd s)
   }"

subsection \<open>The interrupt controllers\<close>

text \<open>
  An 8259A as its data sheet describes it: a command word with bit 4 set at the first port starts the initialisation, and
  the next three words at the second port are the vector of its line 0, the lines that carry slaves (or the line a
  slave is connected to) and the mode.
\<close>

record pic =
  pic_next :: nat
  pic_vector :: "8 word"
  pic_cascade :: "8 word"
  pic_mode :: "8 word"

definition pic_a :: "8 word \<Rightarrow> pic \<Rightarrow> pic" where
  "pic_a v p = (if bit v 4 then p\<lparr>pic_next := 2\<rparr> else p)"

definition pic_b :: "8 word \<Rightarrow> pic \<Rightarrow> pic" where
  "pic_b v p =
    (if pic_next p = 2 then p\<lparr>pic_vector := v, pic_next := 3\<rparr>
     else if pic_next p = 3 then p\<lparr>pic_cascade := v, pic_next := 4\<rparr>
     else if pic_next p = 4 then p\<lparr>pic_mode := v, pic_next := 0\<rparr>
     else p)"

definition pic_run :: "16 word \<Rightarrow> 16 word \<Rightarrow> port_trace \<Rightarrow> pic \<Rightarrow> pic" where
  "pic_run a b t p = foldl (\<lambda>p (port, v). if port = a then pic_a v p else if port = b then pic_b v p else p) p t"

text \<open>The interrupt at which request line \<open>k\<close> arrives: eight lines at each controller.\<close>

definition irq_vector :: "pic \<Rightarrow> pic \<Rightarrow> nat \<Rightarrow> nat" where
  "irq_vector master slave k = (if k < 8 then unat (pic_vector master) + k else unat (pic_vector slave) + (k - 8))"

lemma pic_run_append: "pic_run a b (t @ u) p = pic_run a b u (pic_run a b t p)"
  by (simp add: pic_run_def)

lemma ports_init_pics: "ports (init_pics s) = ports s @ ports (init_pics (s\<lparr>ports := []\<rparr>))"
  by (simp add: init_pics_def outb_def Let_def)

lemma init_pics_master:
  "pic_run PIC_MASTER_A PIC_MASTER_B (ports (init_pics s)) p
    = (pic_run PIC_MASTER_A PIC_MASTER_B (ports s) p)\<lparr>pic_next := 0, pic_vector := 32, pic_cascade := 4, pic_mode := 5\<rparr>"
  by (subst ports_init_pics, subst pic_run_append)
    (simp add: pic_run_def init_pics_def outb_def Let_def pic_a_def pic_b_def pic_defs)

lemma init_pics_slave:
  "pic_run PIC_SLAVE_A PIC_SLAVE_B (ports (init_pics s)) p
    = (pic_run PIC_SLAVE_A PIC_SLAVE_B (ports s) p)\<lparr>pic_next := 0, pic_vector := 40, pic_cascade := 2, pic_mode := 1\<rparr>"
  by (subst ports_init_pics, subst pic_run_append)
    (simp add: pic_run_def init_pics_def outb_def Let_def pic_a_def pic_b_def pic_defs)

subsection \<open>Gates\<close>

definition gate_handler :: "idt_entry \<Rightarrow> 32 word" where
  "gate_handler e = ucast (handler_low e) OR push_bit 16 (ucast (handler_high e))"

definition gate_is :: "idt_entry \<Rightarrow> 32 word \<Rightarrow> 8 word \<Rightarrow> bool" where
  "gate_is e handler dpl \<longleftrightarrow> gate_handler e = handler \<and> selector e = 0x08 \<and> idt_zero e = 0 \<and> idt_flags e = (0x8E OR dpl)"

lemma gate_handler_split: "ucast (ucast (h AND 0xFFFF) :: 16 word) OR push_bit 16 (ucast (ucast (drop_bit 16 h) :: 16 word)) = h" for h :: "32 word"
proof (rule bit_word_eqI)
  fix n assume "n < LENGTH(32)"
  moreover have "h AND 0xFFFF = take_bit 16 h" by (simp add: take_bit_eq_mask mask_numeral)
  ultimately show "bit (ucast (ucast (h AND 0xFFFF) :: 16 word) OR push_bit 16 (ucast (ucast (drop_bit 16 h) :: 16 word)) :: 32 word) n = bit h n"
    by (cases "n < 16") (auto simp: bit_simps)
qed

lemma idt_set_gate_is: "gate_is (idt_entries (idt_set_gate num h 0x08 (base_flags OR dpl) s) num) h dpl"
  by (simp add: gate_is_def gate_handler_def idt_set_gate_def gate_handler_split base_flags_def idt_flag_defs)

lemma idt_set_gate_other: "k \<noteq> num \<Longrightarrow> idt_entries (idt_set_gate num h sel fl s) k = idt_entries s k"
  by (simp add: idt_set_gate_def)

lemma unat_byte: "m < 256 \<Longrightarrow> unat (of_nat m :: 8 word) = m"
  by (simp add: unsigned_of_nat take_bit_nat_eq_self)

lemma of_nat_byte_eq: "m < 256 \<Longrightarrow> n < 256 \<Longrightarrow> (of_nat m :: 8 word) = of_nat n \<longleftrightarrow> m = n"
  using unat_byte by metis

lemma set_gates_Suc: "set_gates entry (Suc m) s = idt_set_gate (of_nat m) (entry m) 0x08 (base_flags OR IDT_DPL_RING0) (set_gates entry m s)"
  by (simp add: set_gates_def)

lemma set_gates_is: "n < m \<Longrightarrow> m \<le> 256 \<Longrightarrow> gate_is (idt_entries (set_gates entry m s) (of_nat n)) (entry n) IDT_DPL_RING0"
proof (induction m)
  case (Suc m)
  show ?case
  proof (cases "n = m")
    case False
    then have "of_nat n \<noteq> (of_nat m :: 8 word)" using of_nat_byte_eq [of n m] Suc.prems by simp
    then show ?thesis using Suc False by (simp add: set_gates_Suc idt_set_gate_other)
  qed (simp add: set_gates_Suc idt_set_gate_is)
qed simp

lemma set_gates_other: "m \<le> unat k \<Longrightarrow> idt_entries (set_gates entry m s) k = idt_entries s k"
proof (induction m)
  case (Suc m)
  have "m < 256" using Suc.prems unsigned_less [of k, where 'a = nat] by simp
  then have "k \<noteq> of_nat m" using unat_byte [of m] Suc.prems by auto
  then show ?case using Suc by (simp add: set_gates_Suc idt_set_gate_other)
qed (simp add: set_gates_def)

lemma set_gates_keeps [simp]: "ports (set_gates entry m s) = ports s" "idt_ptr (set_gates entry m s) = idt_ptr s"
  by (induction m) (simp_all add: set_gates_Suc idt_set_gate_def, simp_all add: set_gates_def)

lemma init_pics_keeps [simp]: "idt_ptr (init_pics s) = idt_ptr s" "idt_entries (init_pics s) = idt_entries s"
  by (simp_all add: init_pics_def outb_def Let_def)

subsection \<open>Properties\<close>

text \<open>
  C32. After \<^verbatim>\<open>init_idt\<close> every request line of the two interrupt controllers arrives at the interrupt whose gate leads to
  its entry point, as do the 32 exceptions; all of these gates are closed to user programs and run with interrupts disabled,
  and the gate of system calls is open to them. All other gates are as before.
\<close>

theorem init_idt_gates:
  assumes "n < 48"
  shows "gate_is (idt_entries (init_idt entry s) (of_nat n)) (entry n) IDT_DPL_RING0
    \<and> gate_is (idt_entries (init_idt entry s) 128) (entry 128) IDT_DPL_RING3
    \<and> (\<forall>k. 48 \<le> unat k \<and> k \<noteq> 128 \<longrightarrow> idt_entries (init_idt entry s) k = idt_entries s k)
    \<and> (32 \<le> n \<longrightarrow> irq_vector (pic_run PIC_MASTER_A PIC_MASTER_B (ports (init_idt entry s)) p)
          (pic_run PIC_SLAVE_A PIC_SLAVE_B (ports (init_idt entry s)) q) (n - 32) = n)
    \<and> idtr (init_idt entry s) = Some (2047, idt_addr s)"
proof -
  let ?s = "init_pics (s\<lparr>idt_ptr := (of_nat (sizeof_idt_entry_t * 256 - 1), idt_addr s)\<rparr>)"
  have n: "of_nat n \<noteq> (128 :: 8 word)" using of_nat_byte_eq [of n 128] assms by simp
  have "gate_is (idt_entries (init_idt entry s) (of_nat n)) (entry n) IDT_DPL_RING0"
    using set_gates_is [of n 48 entry ?s] assms n
    by (simp add: init_idt_def Let_def idt_flush_def idt_set_gate_other)
  moreover have "gate_is (idt_entries (init_idt entry s) 128) (entry 128) IDT_DPL_RING3"
    by (simp add: init_idt_def Let_def idt_flush_def idt_set_gate_is)
  moreover have "idt_entries (init_idt entry s) k = idt_entries s k" if "48 \<le> unat k" "k \<noteq> 128" for k
    using set_gates_other [of 48 k entry ?s] that
    by (simp add: init_idt_def Let_def idt_flush_def idt_set_gate_other)
  moreover have "ports (init_idt entry s) = ports ?s" "idtr (init_idt entry s) = Some (2047, idt_addr s)"
    by (simp_all add: init_idt_def Let_def idt_flush_def idt_set_gate_def sizeof_idt_entry_t_def)
  moreover have "irq_vector (pic_run PIC_MASTER_A PIC_MASTER_B (ports ?s) p) (pic_run PIC_SLAVE_A PIC_SLAVE_B (ports ?s) q) (n - 32) = n"
    if "32 \<le> n" using that assms by (simp add: init_pics_master init_pics_slave irq_vector_def)
  ultimately show ?thesis by simp
qed


definition demo_idt :: idt_state where
  "demo_idt = \<lparr>idt_entries = (\<lambda>_. \<lparr>handler_low = 0, selector = 0, idt_zero = 0, idt_flags = 0, handler_high = 0\<rparr>),
     idt_ptr = (0, 0), idt_addr = 0xC0112000, isr_handlers = (\<lambda>_. NULL), idtr = None, ports = []\<rparr>"

theorem init_idt_gates_witness:
  "gate_is (idt_entries (init_idt (\<lambda>n. of_nat (0xC0100000 + 16 * n)) demo_idt) 33) 0xC0100210 IDT_DPL_RING0
    \<and> irq_vector (pic_run PIC_MASTER_A PIC_MASTER_B (ports (init_idt (\<lambda>n. of_nat (0xC0100000 + 16 * n)) demo_idt))
          \<lparr>pic_next = 0, pic_vector = 8, pic_cascade = 0, pic_mode = 0\<rparr>)
        (pic_run PIC_SLAVE_A PIC_SLAVE_B (ports (init_idt (\<lambda>n. of_nat (0xC0100000 + 16 * n)) demo_idt))
          \<lparr>pic_next = 0, pic_vector = 8, pic_cascade = 0, pic_mode = 0\<rparr>) 1 = 33"
  using init_idt_gates [of 33 "\<lambda>n. of_nat (0xC0100000 + 16 * n)" demo_idt] by simp

lemma irq_ack_ports: "ports (irq_ack n s) = ports s @ (if n < IRQ8 then [] else [(PIC_SLAVE_A, PIC_COMMAND_EOI)]) @ [(PIC_MASTER_A, PIC_COMMAND_EOI)]"
  by (simp add: irq_ack_def outb_def Let_def)

text \<open>A handler can be registered exactly once until it is released, and is then the one that is called.\<close>

lemma register_then_call:
  assumes "isr_handlers i (of_nat n) = NULL" "h \<noteq> NULL" "n < 256" "int_no regs = n"
  defines "i' \<equiv> snd (register_interrupt_handler (of_nat n) h i)"
  shows "fst (register_interrupt_handler (of_nat n) h i) = 0" "irq_handler call regs (i', s) = call h regs (i', s)"
    "isr_handler call regs (i', s) = call h regs (i', s)" "register_interrupt_handler (of_nat n) g i' = (- 1, i')"
    "isr_handlers (release_interrupt_handler (of_nat n) i') = isr_handlers i"
  using assms by (auto simp: register_interrupt_handler_def release_interrupt_handler_def irq_handler_def isr_handler_def handler_of_def)

end
