(* ===== verification/Syscall.thy ===== *)
theory Syscall
  imports Idt
begin

section \<open>System calls (kernel/syscall.c, Include/syscall.h)\<close>

text \<open>
  The table of the kernel functions, the handler of interrupt 0x80, and the stubs that the macros
  \<^verbatim>\<open>DEFN_SYSCALL\<close> and \<^verbatim>\<open>DEFN64_SYSCALL\<close> define for user programs. A function of the table takes its arguments from
  the stack, where the handler pushes six registers; what it does is the argument \<open>fn\<close>, which gets the six words and returns
  the registers \<^verbatim>\<open>eax\<close> and \<^verbatim>\<open>edx\<close>.
\<close>

unbundle bit_operations_syntax

datatype sysfn =
  K_fork | K_exit_task | K_getpid | K_setpgid | K_getpgid | K_setsid | K_getsid | K_nice
| K_setresuid | K_getresuid | K_setresgid | K_getresgid | K_lseek | K_user_pread | K_user_read | K_user_pwrite
| K_user_write | K_user_open | K_user_close | K_user_readdir | K_user_stat | K_user_chmod | K_user_chown | K_user_ioctl
| K_user_link | K_user_unlink | K_mknod | K_user_mount | K_user_umount | K_sbrk | K_execve | K_chdir

definition syscalls :: "sysfn list" where
  "syscalls = [K_fork, K_exit_task, K_getpid, K_setpgid, K_getpgid, K_setsid, K_getsid, K_nice,
     K_setresuid, K_getresuid, K_setresgid, K_getresgid, K_lseek, K_user_pread, K_user_read, K_user_pwrite,
     K_user_write, K_user_open, K_user_close, K_user_readdir, K_user_stat, K_user_chmod, K_user_chown, K_user_ioctl,
     K_user_link, K_user_unlink, K_mknod, K_user_mount, K_user_umount, K_sbrk, K_execve, K_chdir]"

definition num_syscalls :: nat where
  "num_syscalls = length syscalls"

type_synonym 's sysfns = "sysfn \<Rightarrow> 32 word list \<Rightarrow> 's \<Rightarrow> ((32 word \<times> 32 word) \<times> 's) option"

text \<open>The words that the function finds on the stack, the last that is pushed first.\<close>

definition pushed :: "registers \<Rightarrow> 32 word list" where
  "pushed r = rev [r_ebp r, r_edi r, r_esi r, r_edx r, r_ecx r, r_ebx r]"

definition syscall_handler :: "'s sysfns \<Rightarrow> registers \<Rightarrow> 's \<Rightarrow> (registers \<times> 's) option" where
  "syscall_handler fn regs s =
    (if unat (r_eax regs) < num_syscalls then do {
       ((reta, retd), s) \<leftarrow> fn (syscalls ! unat (r_eax regs)) (pushed regs) s;
       Some (regs\<lparr>r_eax := reta, r_edx := retd\<rparr>, s)
     } else Some (regs, s))"

definition init_syscalls :: "addr \<Rightarrow> idt_state \<Rightarrow> idt_state option" where
  "init_syscalls handler i = do {
     let (ret, i) = register_interrupt_handler 0x80 handler i;
     ASSERT (ret = 0);
     Some i
   }"

subsection \<open>The stubs\<close>

text \<open>A stub: its name, the number it passes, how many arguments it takes, and whether it returns 64 bits.\<close>

record stub =
  st_name :: string
  st_num :: "32 word"
  st_args :: nat
  st_wide :: bool

definition stub32 :: "string \<Rightarrow> nat \<Rightarrow> nat \<Rightarrow> stub" where
  "stub32 nm num n = \<lparr>st_name = nm, st_num = of_nat num, st_args = n, st_wide = False\<rparr>"

definition stub64 :: "string \<Rightarrow> nat \<Rightarrow> nat \<Rightarrow> stub" where
  "stub64 nm num n = \<lparr>st_name = nm, st_num = of_nat num, st_args = n, st_wide = True\<rparr>"

definition stubs :: "stub list" where
  "stubs = [stub32 ''fork'' 0 0, stub32 ''exit'' 1 1, stub32 ''getpid'' 2 0, stub32 ''setpgid'' 3 2, stub32 ''getpgid'' 4 1,
     stub32 ''setsid'' 5 0, stub32 ''getsid'' 6 0, stub32 ''nice'' 7 1, stub32 ''setresuid'' 8 3, stub32 ''getresuid'' 9 3,
     stub32 ''setresgid'' 10 3, stub32 ''getresgid'' 11 3, stub64 ''lseek'' 12 4, stub64 ''pread'' 13 6, stub64 ''read'' 14 4,
     stub64 ''pwrite'' 15 6, stub64 ''write'' 16 4, stub32 ''open'' 17 3, stub32 ''close'' 18 1, stub32 ''readdir'' 19 3,
     stub32 ''stat'' 20 2, stub32 ''chmod'' 21 2, stub32 ''chown'' 22 3, stub32 ''ioctl'' 23 3, stub32 ''link'' 24 2,
     stub32 ''unlink'' 25 1, stub32 ''mknod'' 26 3, stub32 ''mount'' 27 4, stub32 ''umount'' 28 2, stub32 ''sbrk'' 29 1,
     stub32 ''execve'' 30 3, stub32 ''chdir'' 31 1]"

text \<open>The constraints of the inline assembly: which register gets which argument.\<close>

definition load_args :: "stub \<Rightarrow> 32 word list \<Rightarrow> registers \<Rightarrow> registers" where
  "load_args st ps r =
    (let r = r\<lparr>r_eax := st_num st\<rparr>;
         r = (if st_args st \<ge> 1 then r\<lparr>r_ebx := ps ! 0\<rparr> else r);
         r = (if st_args st \<ge> 2 then r\<lparr>r_ecx := ps ! 1\<rparr> else r);
         r = (if st_args st \<ge> 3 then r\<lparr>r_edx := ps ! 2\<rparr> else r);
         r = (if st_args st \<ge> 4 then r\<lparr>r_esi := ps ! 3\<rparr> else r);
         r = (if st_args st \<ge> 5 then r\<lparr>r_edi := ps ! 4\<rparr> else r)
     in if st_args st \<ge> 6 then r\<lparr>r_ebp := ps ! 5\<rparr> else r)"

definition stub_result :: "stub \<Rightarrow> registers \<Rightarrow> int" where
  "stub_result st r =
    (if st_wide st then sint (push_bit 32 (scast (r_edx r)) OR (scast (r_eax r) AND 0xFFFFFFFF) :: 64 word) else sint (r_eax r))"

text \<open>\<^verbatim>\<open>int $0x80\<close> and the return from it.\<close>

definition sys_stub :: "'s sysfns \<Rightarrow> stub \<Rightarrow> 32 word list \<Rightarrow> registers \<Rightarrow> 's \<Rightarrow> (int \<times> 's) option" where
  "sys_stub fn st ps r s = do {
     (r, s) \<leftarrow> syscall_handler fn (load_args st ps r) s;
     Some (stub_result st r, s)
   }"

subsection \<open>Properties\<close>

text \<open>The C name of a function of the table, and which stub is meant to lead to it.\<close>

primrec kname :: "sysfn \<Rightarrow> string" where
  "kname K_fork = ''fork''"
| "kname K_exit_task = ''exit_task''"
| "kname K_getpid = ''getpid''"
| "kname K_setpgid = ''setpgid''"
| "kname K_getpgid = ''getpgid''"
| "kname K_setsid = ''setsid''"
| "kname K_getsid = ''getsid''"
| "kname K_nice = ''nice''"
| "kname K_setresuid = ''setresuid''"
| "kname K_getresuid = ''getresuid''"
| "kname K_setresgid = ''setresgid''"
| "kname K_getresgid = ''getresgid''"
| "kname K_lseek = ''lseek''"
| "kname K_user_pread = ''user_pread''"
| "kname K_user_read = ''user_read''"
| "kname K_user_pwrite = ''user_pwrite''"
| "kname K_user_write = ''user_write''"
| "kname K_user_open = ''user_open''"
| "kname K_user_close = ''user_close''"
| "kname K_user_readdir = ''user_readdir''"
| "kname K_user_stat = ''user_stat''"
| "kname K_user_chmod = ''user_chmod''"
| "kname K_user_chown = ''user_chown''"
| "kname K_user_ioctl = ''user_ioctl''"
| "kname K_user_link = ''user_link''"
| "kname K_user_unlink = ''user_unlink''"
| "kname K_mknod = ''mknod''"
| "kname K_user_mount = ''user_mount''"
| "kname K_user_umount = ''user_umount''"
| "kname K_sbrk = ''sbrk''"
| "kname K_execve = ''execve''"
| "kname K_chdir = ''chdir''"

definition serves :: "sysfn \<Rightarrow> string \<Rightarrow> bool" where
  "serves f nm \<longleftrightarrow> kname f = nm \<or> kname f = ''user_'' @ nm \<or> kname f = nm @ ''_task''"

lemma stubs_ok:
  assumes "st \<in> set stubs"
  shows "unat (st_num st) < num_syscalls \<and> serves (syscalls ! unat (st_num st)) (st_name st) \<and> st_args st \<le> 6"
proof -
  have "list_all (\<lambda>st. unat (st_num st) < num_syscalls \<and> serves (syscalls ! unat (st_num st)) (st_name st) \<and> st_args st \<le> 6) stubs"
    by (simp add: stubs_def stub32_def stub64_def num_syscalls_def syscalls_def serves_def)
  then show ?thesis using assms by (simp add: list_all_iff)
qed

lemma six_cases: "length ps \<le> 6 \<Longrightarrow> (length ps = 0 \<Longrightarrow> P) \<Longrightarrow> (length ps = 1 \<Longrightarrow> P) \<Longrightarrow> (length ps = 2 \<Longrightarrow> P) \<Longrightarrow>
  (length ps = 3 \<Longrightarrow> P) \<Longrightarrow> (length ps = 4 \<Longrightarrow> P) \<Longrightarrow> (length ps = 5 \<Longrightarrow> P) \<Longrightarrow> (length ps = 6 \<Longrightarrow> P) \<Longrightarrow> P"
  by linarith

lemma pushed_load_args:
  assumes "length ps = st_args st" "st_args st \<le> 6"
  shows "pushed (load_args st ps r) = ps @ drop (st_args st) (pushed r)" "r_eax (load_args st ps r) = st_num st"
proof -
  have "length ps \<le> 6" using assms by simp
  then show "pushed (load_args st ps r) = ps @ drop (st_args st) (pushed r)"
    by (rule six_cases) (auto simp: load_args_def pushed_def length_Suc_conv numeral_eq_Suc simp flip: assms(1))
  show "r_eax (load_args st ps r) = st_num st" by (simp add: load_args_def Let_def)
qed

lemma wide_result: "sint (push_bit 32 (scast d) OR (scast a AND 0xFFFFFFFF) :: 64 word) = sint d * 2 ^ 32 + uint a"
  for a d :: "32 word"
proof -
  have "(0xFFFFFFFF :: 64 word) = mask 32" by (simp add: mask_numeral)
  then have "(scast a AND 0xFFFFFFFF :: 64 word) = take_bit 32 (scast a)" by (simp add: take_bit_eq_mask)
  also have "\<dots> = ucast a"
  proof (rule bit_word_eqI)
    fix n assume "n < LENGTH(64)"
    then consider "n < 31" | "n = 31" | "32 \<le> n" "n < 64" by force
    then show "bit (take_bit 32 (scast a) :: 64 word) n = bit (ucast a :: 64 word) n"
      by cases (auto simp: bit_simps dest: bit_imp_le_length)
  qed
  finally have lo: "(scast a AND 0xFFFFFFFF :: 64 word) = ucast a" .
  have "(push_bit 32 (scast d) OR ucast a :: 64 word) = push_bit 32 (scast d) + ucast a"
    by (rule disjunctive_add [symmetric]) (auto simp: bit_simps dest: bit_imp_le_length)
  also have "\<dots> = of_int (sint d * 2 ^ 32 + uint a)"
    by (simp add: push_bit_eq_mult)
  finally have w: "(push_bit 32 (scast d) OR ucast a :: 64 word) = of_int (sint d * 2 ^ 32 + uint a)" .
  have b: "- (2 ^ 31) \<le> sint d" "sint d \<le> 2 ^ 31 - 1" "0 \<le> uint a" "uint a < 2 ^ 32"
    using sint_greater_eq [of d] sint_less [of d] unsigned_less [of a, where 'a = int] by simp_all
  have m: "- (2 ^ 31) * 2 ^ 32 \<le> sint d * 2 ^ 32" "sint d * 2 ^ 32 \<le> (2 ^ 31 - 1) * 2 ^ 32"
    using b(1,2) by (intro mult_right_mono; simp)+
  have "- (2 ^ 63) \<le> sint d * 2 ^ 32 + uint a" "sint d * 2 ^ 32 + uint a < 2 ^ 63"
    using add_mono [OF m(1) b(3)] add_le_less_mono [OF m(2) b(4)] by simp_all
  then have "sint (of_int (sint d * 2 ^ 32 + uint a) :: 64 word) = sint d * 2 ^ 32 + uint a"
    by (subst signed_of_int) (simp add: signed_take_bit_int_eq_self del: of_int_add of_int_mult)
  then show ?thesis by (simp only: lo w)
qed




end
