(* ===== verification/Timer.thy ===== *)
theory Timer
  imports Mutex Idt Time
begin

section \<open>Timers (kernel/timer.c)\<close>

text \<open>
  The interrupts of the programmable interval timer and of the real time clock, the list of timers and \<^verbatim>\<open>sleep_until\<close>. The state
  holds the tasks, the interrupt controllers, the counters of timer.c, the wall clock \<^verbatim>\<open>current_time\<close> of time.c,
  and the timers: the list \<^verbatim>\<open>timers\<close> by its contents and the structures by address. The callback of a timer is \<^verbatim>\<open>wake_timers\<close> or a
  function of another file, whose effect is the argument \<open>other\<close>; no callback changes the list of timers.

  \<^verbatim>\<open>rtc_callback\<close> ends in \<^verbatim>\<open>switch_task\<close>, which returns when the task that was interrupted runs again: what it does then
  is \<open>rtc_resume\<close>. In the same way \<^verbatim>\<open>sleep_until\<close> is \<open>sleep_start\<close> up to the first sleep and \<open>sleep_round\<close> for each wake-up.
\<close>

unbundle bit_operations_syntax

subsection \<open>Data\<close>

datatype callback = CB_wake_timers | CB_other addr

record timer =
  tmr_callback :: callback
  tmr_expires :: nat

record 'v timing =
  tm_sys :: "'v tasking"
  tm_idt :: idt_state
  tick :: nat
  task_tick :: int
  rtc_tick :: nat
  current_time :: nat
  timers_list :: addr
  timers :: queue
  timer_objs :: "addr \<rightharpoonup> timer"
  timer_wq :: addr

definition HZ :: nat where "HZ = 1000"
definition sizeof_timer :: nat where "sizeof_timer = 8"
definition PIT_PORT0 :: "16 word" where "PIT_PORT0 = 0x40"
definition PIT_CMD :: "16 word" where "PIT_CMD = 0x43"
definition PIT_CHAN0 :: "8 word" where "PIT_CHAN0 = 0x00"
definition PIT_LOHI :: "8 word" where "PIT_LOHI = 0x30"
definition PIT_MODE3 :: "8 word" where "PIT_MODE3 = 0x06"
definition PIT_BIN :: "8 word" where "PIT_BIN = 0x00"
definition CMOS_REGISTER :: "16 word" where "CMOS_REGISTER = 0x70"
definition CMOS_SELECTED :: "16 word" where "CMOS_SELECTED = 0x71"
definition CMOS_RTC_DNMI :: "8 word" where "CMOS_RTC_DNMI = 0x80"
definition CMOS_RTC_STAT_A :: "8 word" where "CMOS_RTC_STAT_A = 0x0A"
definition CMOS_RTC_STAT_B :: "8 word" where "CMOS_RTC_STAT_B = 0x0B"
definition CMOS_RTC_STAT_C :: "8 word" where "CMOS_RTC_STAT_C = 0x0C"
definition CMOS_RTC_INT :: "8 word" where "CMOS_RTC_INT = 0x40"
definition CMOS_RTC_RATE :: "8 word" where "CMOS_RTC_RATE = 0x05"

definition tm_outb :: "16 word \<Rightarrow> 8 word \<Rightarrow> 'v timing \<Rightarrow> 'v timing" where
  "tm_outb port v s = s\<lparr>tm_idt := outb port v (tm_idt s)\<rparr>"

text \<open>\<^verbatim>\<open>READ_CMOS\<close> and \<^verbatim>\<open>WRITE_CMOS\<close>; \<open>cmos\<close> is the contents of the registers.\<close>

definition READ_CMOS :: "(8 word \<Rightarrow> 8 word) \<Rightarrow> 8 word \<Rightarrow> 'v timing \<Rightarrow> 8 word \<times> 'v timing" where
  "READ_CMOS cmos a s = (cmos a, tm_outb CMOS_REGISTER (CMOS_RTC_DNMI OR a) s)"

definition WRITE_CMOS :: "8 word \<Rightarrow> 8 word \<Rightarrow> 'v timing \<Rightarrow> 'v timing" where
  "WRITE_CMOS a v s = tm_outb CMOS_SELECTED v (tm_outb CMOS_REGISTER (CMOS_RTC_DNMI OR a) s)"

subsection \<open>The interval timer\<close>

definition wake_timers :: "'v timing \<Rightarrow> 'v timing option" where
  "wake_timers s = do { t \<leftarrow> wake_queue (timer_wq s) (tm_sys s); Some (s\<lparr>tm_sys := t\<rparr>) }"

definition run_callback :: "(addr \<Rightarrow> 'v timing \<Rightarrow> 'v timing option) \<Rightarrow> callback \<Rightarrow> 'v timing \<Rightarrow> 'v timing option" where
  "run_callback other cb s = (case cb of CB_wake_timers \<Rightarrow> wake_timers s | CB_other f \<Rightarrow> other f s)"

fun run_timers :: "(addr \<Rightarrow> 'v timing \<Rightarrow> 'v timing option) \<Rightarrow> queue \<Rightarrow> 'v timing \<Rightarrow> 'v timing option" where
  "run_timers other [] s = Some s"
| "run_timers other ((n, t) # q) s = do {
     tmr \<leftarrow> timer_objs s t;
     s \<leftarrow> (if tmr_expires tmr = tick s then run_callback other (tmr_callback tmr) s else Some s);
     run_timers other q s
   }"

definition pit_callback :: "(addr \<Rightarrow> 'v timing \<Rightarrow> 'v timing option) \<Rightarrow> nat \<Rightarrow> 'v timing \<Rightarrow> 'v timing option" where
  "pit_callback other n s = do {
     let s = s\<lparr>tick := add32 (tick s) 1\<rparr>;
     let s = s\<lparr>tm_idt := irq_ack n (tm_idt s)\<rparr>;
     run_timers other (timers s) s
   }"

subsection \<open>The real time clock\<close>

text \<open>\<^verbatim>\<open>rtc_tick\<close> is unsigned, so that it is at most zero exactly if it is zero.\<close>

definition rtc_second :: "'v timing \<Rightarrow> 'v timing" where
  "rtc_second s =
    (let s = s\<lparr>rtc_tick := sub32 (rtc_tick s) 1\<rparr>
     in if rtc_tick s = 0 then s\<lparr>current_time := add32 (current_time s) 1, rtc_tick := 4096\<rparr> else s)"

definition rtc_callback :: "(8 word \<Rightarrow> 8 word) \<Rightarrow> nat \<Rightarrow> nat \<times> nat \<times> nat \<Rightarrow> 'v timing \<Rightarrow> 'v timing option" where
  "rtc_callback cmos n regs s = do {
     let s = rtc_second s;
     let s = snd (READ_CMOS cmos CMOS_RTC_STAT_C s);
     let s = s\<lparr>tm_idt := irq_ack n (tm_idt s)\<rparr>;
     let s = s\<lparr>task_tick := task_tick s - 1\<rparr>;
     if task_tick s \<le> 0 then do { t \<leftarrow> switch_task True regs (tm_sys s); Some (s\<lparr>tm_sys := t\<rparr>) } else Some s
   }"

definition rtc_resume :: "'v timing \<Rightarrow> 'v timing option" where
  "rtc_resume s = do {
     nice \<leftarrow> (if current_task (tm_sys s) = NULL then Some 0
              else do { k \<leftarrow> tasks (tm_sys s) (current_task (tm_sys s)); Some (t_nice k) });
     Some (s\<lparr>task_tick := 10 * (20 - nice)\<rparr>)
   }"

subsection \<open>Setting up\<close>

definition register_irq :: "nat \<Rightarrow> addr \<Rightarrow> 'v timing \<Rightarrow> 'v timing option" where
  "register_irq n h s = do {
     let (ret, i) = register_interrupt_handler (of_nat n) h (tm_idt s);
     ASSERT (ret = 0);
     Some (s\<lparr>tm_idt := i\<rparr>)
   }"

definition init_timer :: "(8 word \<Rightarrow> 8 word) \<Rightarrow> addr \<Rightarrow> addr \<Rightarrow> 'v timing \<Rightarrow> 'v timing option" where
  "init_timer cmos pit rtc s = do {
     let s = s\<lparr>tm_sys := (tm_sys s)\<lparr>iflag := False\<rparr>\<rparr>;
     s \<leftarrow> register_irq IRQ0 pit s;
     let divisor = 1193182 div HZ;
     (l, t) \<leftarrow> kma sizeof_list_t (tm_sys s);
     ASSERT (l \<noteq> NULL);
     (wq, t) \<leftarrow> create_waitqueue t;
     ASSERT (wq \<noteq> NULL);
     let s = s\<lparr>tm_sys := t, timers_list := l, timers := [], timer_wq := wq\<rparr>;
     let s = tm_outb PIT_CMD (PIT_CHAN0 OR PIT_LOHI OR PIT_MODE3 OR PIT_BIN) s;
     let s = tm_outb PIT_PORT0 (of_nat (divisor mod 256)) s;
     let s = tm_outb PIT_PORT0 (of_nat (divisor div 256)) s;
     s \<leftarrow> register_irq IRQ8 rtc s;
     let (prev, s) = READ_CMOS cmos CMOS_RTC_STAT_A s;
     let s = WRITE_CMOS CMOS_RTC_STAT_A ((prev AND 0xF0) OR CMOS_RTC_RATE) s;
     let (prev, s) = READ_CMOS cmos CMOS_RTC_STAT_B s;
     let s = WRITE_CMOS CMOS_RTC_STAT_B (prev OR CMOS_RTC_INT) s;
     Some (s\<lparr>tm_sys := (tm_sys s)\<lparr>iflag := True\<rparr>\<rparr>)
   }"

subsection \<open>Timers\<close>

definition add_timer :: "addr \<Rightarrow> 'v timing \<Rightarrow> (int \<times> 'v timing) option" where
  "add_timer t s = do {
     ASSERT (t \<noteq> NULL);
     (n, q, h) \<leftarrow> queue_insert t (timers s) (t_heap (tm_sys s));
     let s = s\<lparr>tm_sys := (tm_sys s)\<lparr>t_heap := h\<rparr>, timers := q\<rparr>;
     Some (if n = NULL then - 1 else 0, s)
   }"

text \<open>\<^verbatim>\<open>list_remove\<close> takes the node out and releases the timer and the node; for the null pointer it does nothing.\<close>

definition del_timer :: "addr \<Rightarrow> 'v timing \<Rightarrow> 'v timing option" where
  "del_timer t s = do {
     ASSERT (t \<noteq> NULL);
     let node = queue_find t (timers s);
     if node = NULL then Some s
     else do {
       sys \<leftarrow> kfr t (tm_sys s);
       sys \<leftarrow> kfr node sys;
       Some (s\<lparr>tm_sys := sys, timers := queue_dequeue node (timers s), timer_objs := (timer_objs s)(t := None)\<rparr>)
     }
   }"

definition tm_sleep :: "nat \<times> nat \<times> nat \<Rightarrow> 'v timing \<Rightarrow> 'v timing option" where
  "tm_sleep regs s = do { t \<leftarrow> sleep_thread (timer_wq s) 0 regs (tm_sys s); Some (s\<lparr>tm_sys := t\<rparr>) }"

text \<open>
  The loop of \<^verbatim>\<open>wait_event\<close> from its test on: true when it is left, and then the timer is deleted. A task that has been woken leaves
  it when the sleep was interrupted.
\<close>

definition sleep_wait :: "nat \<Rightarrow> addr \<Rightarrow> nat \<times> nat \<times> nat \<Rightarrow> 'v timing \<Rightarrow> (bool \<times> 'v timing) option" where
  "sleep_wait expires t regs s =
    (if tick s \<ge> expires then do { s \<leftarrow> del_timer t s; Some (True, s) }
     else do { s \<leftarrow> tm_sleep regs s; Some (False, s) })"

definition sleep_round :: "nat \<Rightarrow> addr \<Rightarrow> nat \<times> nat \<times> nat \<Rightarrow> 'v timing \<Rightarrow> (bool \<times> 'v timing) option" where
  "sleep_round expires t regs s =
    (if interrupted (tm_sys s) then do { s \<leftarrow> del_timer t s; Some (True, s) } else sleep_wait expires t regs s)"

definition sleep_until :: "nat \<Rightarrow> nat \<times> nat \<times> nat \<Rightarrow> 'v timing \<Rightarrow> ((bool \<times> addr) \<times> 'v timing) option" where
  "sleep_until expires regs s =
    (if expires \<le> tick s then Some ((True, NULL), s)
     else do {
       (t, sys) \<leftarrow> kma sizeof_timer (tm_sys s);
       ASSERT (t \<noteq> NULL);
       let s = s\<lparr>tm_sys := sys, timer_objs := (timer_objs s)(t \<mapsto> \<lparr>tmr_callback = CB_wake_timers, tmr_expires = expires\<rparr>)\<rparr>;
       (_, s) \<leftarrow> add_timer t s;
       (fin, s) \<leftarrow> sleep_wait expires t regs s;
       Some ((fin, t), s)
     })"

subsection \<open>The wall clock\<close>

text \<open>Interrupts of the real time clock. Whatever happens between them leaves the two counters alone.\<close>

inductive rtc_run :: "nat \<Rightarrow> 'v timing \<Rightarrow> 'v timing \<Rightarrow> bool" where
  start: "rtc_run 0 s s"
| irq: "rtc_run n s t \<Longrightarrow> rtc_callback cmos irq regs t = Some u \<Longrightarrow> rtc_tick v = rtc_tick u \<Longrightarrow> current_time v = current_time u
    \<Longrightarrow> rtc_run (Suc n) s v"

lemma rtc_callback_counters:
  assumes "rtc_callback cmos n regs s = Some s'"
  shows "rtc_tick s' = rtc_tick (rtc_second s)" "current_time s' = current_time (rtc_second s)"
  using assms by (auto simp: rtc_callback_def Let_def READ_CMOS_def tm_outb_def split: bind_splits if_splits)

text \<open>The number of interrupts counted since the last second began.\<close>

lemma rtc_second_counts:
  assumes "current_time t = (c + e div 4096) mod two32" "rtc_tick t = 4096 - e mod 4096"
  shows "current_time (rtc_second t) = (c + Suc e div 4096) mod two32" "rtc_tick (rtc_second t) = 4096 - Suc e mod 4096"
proof -
  have m: "e mod 4096 < 4096" by simp
  have t: "sub32 (rtc_tick t) 1 = 4096 - Suc (e mod 4096)"
    using assms(2) m by (subst sub32_small) (simp_all add: two32_def Suc_le_eq)
  show "current_time (rtc_second t) = (c + Suc e div 4096) mod two32"
  proof (cases "Suc (e mod 4096) = 4096")
    case True
    then have "Suc e div 4096 = Suc (e div 4096)" by (simp add: div_Suc mod_Suc)
    then show ?thesis using True t assms(1) by (simp add: rtc_second_def add32_def mod_simps)
  next
    case False
    then have "Suc e div 4096 = e div 4096" by (simp add: div_Suc mod_Suc)
    moreover have "\<not> 4095 \<le> e mod 4096" using False m by linarith
    ultimately show ?thesis using t assms(1) by (simp add: rtc_second_def Let_def)
  qed
  show "rtc_tick (rtc_second t) = 4096 - Suc e mod 4096"
    using t m by (simp add: rtc_second_def mod_Suc Let_def) linarith
qed

lemma rtc_run_counts:
  assumes "rtc_run n s s'" "1 \<le> rtc_tick s" "rtc_tick s \<le> 4096" "current_time s < two32"
  shows "current_time s' = (current_time s + (n + (4096 - rtc_tick s)) div 4096) mod two32
    \<and> rtc_tick s' = 4096 - (n + (4096 - rtc_tick s)) mod 4096"
  using assms
proof (induction rule: rtc_run.induct)
  case (start s)
  then show ?case by simp
next
  case (irq n s t cmos i regs u v)
  have t: "current_time t = (current_time s + (n + (4096 - rtc_tick s)) div 4096) mod two32" "rtc_tick t = 4096 - (n + (4096 - rtc_tick s)) mod 4096"
    using irq.IH irq.prems by blast+
  from rtc_second_counts [OF this] rtc_callback_counters [OF irq.hyps(2)] irq.hyps(3,4)
  show ?case by (simp only: add_Suc)
qed

text \<open>The interrupts per second at rate \<open>r\<close>: 32768 shifted right by \<open>r - 1\<close>.\<close>

definition rtc_hz :: "8 word \<Rightarrow> nat" where
  "rtc_hz r = 32768 div 2 ^ (unat r - 1)"


subsection \<open>Waking\<close>

lemma wake_queue_effect:
  assumes "wake_queue wq s = Some s'" "distinct (waiting wq s)"
  shows "ready s' = ready s @ waiting wq s" "waiting wq s' = []" "\<And>q. q \<noteq> wq \<Longrightarrow> waiting q s' = waiting q s"
    "t \<in> set (waiting wq s) \<Longrightarrow> tasks s' t = map_option woken (tasks s t)" "current_task s' = current_task s"
proof -
  from assms(1) obtain w s1 where w: "wqs s wq = Some w" and s1: "wake_all wq (wq_tasks w) (s\<lparr>iflag := False\<rparr>) = Some s1"
    and s': "s' = s1\<lparr>iflag := True\<rparr>"
    by (auto simp: wake_queue_def Let_def split: bind_splits if_splits)
  have ws: "waiting wq s = map snd (wq_tasks w)" using w by (simp add: waiting_def)
  have d: "distinct (map snd (wq_tasks w))" using assms(2) ws by simp
  note e = wake_all_effect [OF s1 _ refl d, of, simplified, OF w]
  show "ready s' = ready s @ waiting wq s" "waiting wq s' = []" "\<And>q. q \<noteq> wq \<Longrightarrow> waiting q s' = waiting q s"
    "t \<in> set (waiting wq s) \<Longrightarrow> tasks s' t = map_option woken (tasks s t)" "current_task s' = current_task s"
    using e s' ws w by (auto simp: ready_def waiting_def)
qed

text \<open>Whether a timer of the list is due, and whether all that are due wake the sleepers.\<close>

definition due :: "'v timing \<Rightarrow> queue \<Rightarrow> bool" where
  "due s q \<longleftrightarrow> (\<exists>t \<in> snd ` set q. map_option tmr_expires (timer_objs s t) = Some (tick s))"

definition due_wake :: "'v timing \<Rightarrow> queue \<Rightarrow> bool" where
  "due_wake s q \<longleftrightarrow> (\<forall>t \<in> snd ` set q. \<forall>tmr. timer_objs s t = Some tmr \<and> tmr_expires tmr = tick s \<longrightarrow> tmr_callback tmr = CB_wake_timers)"

lemma run_timers_wakes:
  assumes "run_timers other q s = Some s'" "due_wake s q" "distinct (waiting (timer_wq s) (tm_sys s))"
  shows "ready (tm_sys s') = ready (tm_sys s) @ (if due s q then waiting (timer_wq s) (tm_sys s) else [])
    \<and> waiting (timer_wq s) (tm_sys s') = (if due s q then [] else waiting (timer_wq s) (tm_sys s)) \<and> tick s' = tick s"
  using assms
proof (induction q arbitrary: s)
  case (Cons x q)
  obtain n t where x: "x = (n, t)" by (cases x)
  from Cons.prems(1) x obtain tmr where t: "timer_objs s t = Some tmr" by (auto split: bind_splits)
  show ?case
  proof (cases "tmr_expires tmr = tick s")
    case False
    then have "run_timers other q s = Some s'" "due s (x # q) = due s q" using Cons.prems(1) x t by (auto simp: due_def)
    moreover have "due_wake s q" using Cons.prems(2) by (simp add: due_wake_def)
    ultimately show ?thesis using Cons.IH Cons.prems(3) by simp
  next
    case True
    then have "tmr_callback tmr = CB_wake_timers" using Cons.prems(2) x t by (auto simp: due_wake_def)
    then obtain sys where sys: "wake_queue (timer_wq s) (tm_sys s) = Some sys" "run_timers other q (s\<lparr>tm_sys := sys\<rparr>) = Some s'"
      using Cons.prems(1) x t True by (auto simp: run_callback_def wake_timers_def split: bind_splits)
    note e = wake_queue_effect [OF sys(1) Cons.prems(3)]
    have "due_wake (s\<lparr>tm_sys := sys\<rparr>) q" using Cons.prems(2) by (simp add: due_wake_def)
    from Cons.IH [OF sys(2) this] e(1,2) True x t show ?thesis by (auto simp: due_def)
  qed
qed (simp add: due_def)

subsection \<open>Example\<close>

lemma rtc_run_exists: "current_task (tm_sys s) = NULL \<Longrightarrow> \<exists>s'. rtc_run n s s' \<and> current_task (tm_sys s') = NULL"
proof (induction n)
  case (Suc n)
  then obtain t where t: "rtc_run n s t" "current_task (tm_sys t) = NULL" by auto
  have "tm_sys (rtc_second t) = tm_sys t" by (simp add: rtc_second_def Let_def)
  then have "switch_task True (0, 0, 0) (tm_sys (rtc_second t)) = Some (tm_sys (rtc_second t))" "current_task (tm_sys (rtc_second t)) = NULL"
    using t(2) by (simp_all add: switch_task_def)
  then obtain u where "rtc_callback (\<lambda>_. 0) IRQ8 (0, 0, 0) t = Some u" "current_task (tm_sys u) = NULL"
    by (simp add: rtc_callback_def Let_def READ_CMOS_def tm_outb_def)
  with rtc_run.irq [OF t(1) this(1) refl refl] show ?case by blast
qed (auto intro: rtc_run.start)

text \<open>Process 3 sleeps until tick 8.\<close>

definition demo_timing :: "unit timing" where
  "demo_timing = \<lparr>
     tm_sys = demo_tasking\<lparr>run_queue := [], wqs := [demo_ptr 5 \<mapsto> \<lparr>wq_list = 10, wq_tasks = [(demo_ptr 0, demo_ptr 4)]\<rparr>]\<rparr>,
     tm_idt = demo_idt, tick = 7, task_tick = 200, rtc_tick = 1024, current_time = 1000, timers_list = 14, timers = [(15, 16)],
     timer_objs = [16 \<mapsto> \<lparr>tmr_callback = CB_wake_timers, tmr_expires = 8\<rparr>], timer_wq = demo_ptr 5\<rparr>"

subsection \<open>Properties\<close>

text \<open>
  The wall clock runs at half speed. \<^verbatim>\<open>init_timer\<close> sets the real time clock to rate 5, which is 2048 interrupts a second, but
  \<^verbatim>\<open>rtc_callback\<close> counts 4096 of them for a second, and 1024 for the first one: after \<open>k\<close> seconds
  \<^verbatim>\<open>current_time\<close> has advanced by \<open>(k + 1) div 2\<close>.
\<close>

theorem clock_half_speed:
  assumes "rtc_run (k * rtc_hz CMOS_RTC_RATE) s s'" "rtc_tick s = 1024" "current_time s < two32"
  shows "current_time s' = (current_time s + (k + 1) div 2) mod two32"
proof -
  have "rtc_hz CMOS_RTC_RATE = 2048" by (simp add: rtc_hz_def CMOS_RTC_RATE_def)
  then have "current_time s' = (current_time s + (k * 2048 + 3072) div 4096) mod two32"
    using rtc_run_counts [OF assms(1)] assms(2,3) by simp
  moreover have "(k * 2048 + 3072) div 4096 = (k + 1) div 2"
  proof -
    have "(k * 2048 + 3072) div 4096 = (1024 * (2 * k + 3)) div (1024 * 4)" by simp
    also have "\<dots> = (2 * k + 3) div 4" by (rule div_mult_mult1) simp
    also have "\<dots> = (k + 1) div 2" by presburger
    finally show ?thesis .
  qed
  ultimately show ?thesis by simp
qed

theorem clock_half_speed_witness:
  "\<exists>s'. rtc_run (3 * rtc_hz CMOS_RTC_RATE) (demo_timing\<lparr>tm_sys := demo_tasking\<lparr>current_task := NULL\<rparr>\<rparr>) s' \<and> current_time s' = 1002"
proof -
  let ?s = "demo_timing\<lparr>tm_sys := demo_tasking\<lparr>current_task := NULL\<rparr>\<rparr>"
  obtain s' where "rtc_run (3 * rtc_hz CMOS_RTC_RATE) ?s s'" using rtc_run_exists [of ?s] by auto
  from clock_half_speed [OF this] this show ?thesis by (auto simp: demo_timing_def two32_def)
qed




end
