(* ===== verification/Monitor.thy ===== *)
theory Monitor
  imports Prelude
begin

section \<open>The text screen (kernel/monitor.c)\<close>

text \<open>
  The screen memory at \<^verbatim>\<open>0xB8000\<close>, by cell number, the colours, the cursor, and the location that the
  cursor registers of the display controller hold. The screen has 25 lines of 80 cells. A \<^verbatim>\<open>char\<close> is a
  signed byte.
\<close>

unbundle bit_operations_syntax

record monitor =
  attrByte :: "8 word"
  cursor_x :: nat
  cursor_y :: nat
  vmem :: "nat \<Rightarrow> 16 word"
  cursor_loc :: "16 word"

definition setcolor :: "8 word \<Rightarrow> 8 word \<Rightarrow> monitor \<Rightarrow> monitor" where
  "setcolor bg fg m = m\<lparr>attrByte := push_bit 4 bg OR (fg AND 0x0F)\<rparr>"

definition update_cursor :: "monitor \<Rightarrow> monitor" where
  "update_cursor m = m\<lparr>cursor_loc := word_of_nat (cursor_y m * 80 + cursor_x m)\<rparr>"

definition move_cursor :: "nat \<Rightarrow> nat \<Rightarrow> monitor \<Rightarrow> monitor" where
  "move_cursor x y m = update_cursor (m\<lparr>cursor_x := x mod 256, cursor_y := y mod 256\<rparr>)"

definition blank_cell :: "monitor \<Rightarrow> 16 word" where
  "blank_cell m = 0x20 OR push_bit 8 (ucast (attrByte m))"

text \<open>The loops of \<^verbatim>\<open>scroll\<close> from left to right: every cell gets the one a line below, then the last lines are blank.\<close>

definition scroll :: "monitor \<Rightarrow> monitor" where
  "scroll m =
    (if cursor_y m > 24 then
       let up = fold (\<lambda>i v. v(i := v (i + 80))) [0..<25 * 80] (vmem m);
           v = fold (\<lambda>i v. v(i := blank_cell m)) [24 * 80..<26 * 80] up
       in m\<lparr>vmem := v, cursor_y := 24\<rparr>
     else m)"

text \<open>The three parts of \<^verbatim>\<open>monitor_put\<close>: the character, the end of the line, and the end of the screen.\<close>

definition put_cell :: "8 word \<Rightarrow> monitor \<Rightarrow> monitor" where
  "put_cell c m =
    (let loc = cursor_y m * 80 + cursor_x m in
     if c = 0x08 \<and> (cursor_x m \<noteq> 0 \<or> cursor_y m \<noteq> 0) then
       let m = m\<lparr>vmem := (vmem m)(loc - 1 := blank_cell m)\<rparr> in
       if cursor_x m \<noteq> 0 then m\<lparr>cursor_x := cursor_x m - 1\<rparr>
       else m\<lparr>cursor_x := 79, cursor_y := cursor_y m - 1\<rparr>
     else if c = 0x09 then m\<lparr>cursor_x := ((cursor_x m + 8) div 8 * 8) mod 256\<rparr>
     else if c = 0x0D then m\<lparr>cursor_x := 0\<rparr>
     else if c = 0x0A then m\<lparr>cursor_x := 0, cursor_y := (cursor_y m + 1) mod 256\<rparr>
     else if sint c \<ge> 0x20 then
       m\<lparr>vmem := (vmem m)(loc := ucast c OR push_bit 8 (ucast (attrByte m))), cursor_x := (cursor_x m + 1) mod 256\<rparr>
     else m)"

definition wrap_line :: "monitor \<Rightarrow> monitor" where
  "wrap_line m = (if cursor_x m \<ge> 80 then m\<lparr>cursor_x := 0, cursor_y := (cursor_y m + 1) mod 256\<rparr> else m)"

definition monitor_put :: "8 word \<Rightarrow> monitor \<Rightarrow> monitor" where
  "monitor_put c m = update_cursor (scroll (wrap_line (put_cell c m)))"

definition monitor_clear :: "monitor \<Rightarrow> monitor" where
  "monitor_clear m =
    update_cursor (m\<lparr>vmem := fold (\<lambda>i v. v(i := blank_cell m)) [0..<80 * 25] (vmem m), cursor_x := 0, cursor_y := 0\<rparr>)"

subsection \<open>The loops as one update\<close>

lemma fold_fill: "fold (\<lambda>i v. v(i := b)) [i..<j] v = (\<lambda>k. if i \<le> k \<and> k < j then b else v k)"
proof (induction j)
  case (Suc j)
  then show ?case by (cases "i \<le> j") (auto simp: fun_eq_iff)
qed auto

lemma fold_up: "fold (\<lambda>i v. v(i := v (i + d))) [0..<j] v = (\<lambda>k. if k < j then v (k + d) else v k)" if "0 < d" for d j :: nat
  using that by (induction j) (auto simp: fun_eq_iff less_Suc_eq)

lemma scroll_lines:
  "scroll m = (if cursor_y m > 24 then m\<lparr>vmem := (\<lambda>k. if k < 24 * 80 then vmem m (k + 80) else if k < 26 * 80 then blank_cell m else vmem m k),
     cursor_y := 24\<rparr> else m)"
proof -
  have "fold (\<lambda>i v. v(i := blank_cell m)) [24 * 80..<26 * 80] (fold (\<lambda>i v. v(i := v (i + 80))) [0..<25 * 80] (vmem m))
    = (\<lambda>k. if k < 24 * 80 then vmem m (k + 80) else if k < 26 * 80 then blank_cell m else vmem m k)"
    by (subst fold_up, simp, subst fold_fill) (auto simp: fun_eq_iff)
  then show ?thesis by (simp add: scroll_def Let_def del: upt_conv_Cons_Cons)
qed

subsection \<open>Properties\<close>

definition on_screen :: "monitor \<Rightarrow> bool" where
  "on_screen m \<longleftrightarrow> cursor_x m < 80 \<and> cursor_y m < 25"

lemma put_cell_bounds:
  assumes "on_screen m"
  shows "cursor_x (put_cell c m) \<le> 80" "cursor_y (put_cell c m) < (if cursor_x (put_cell c m) = 80 then 25 else 26)"
    "k \<ge> 25 * 80 \<Longrightarrow> vmem (put_cell c m) k = vmem m k"
proof -
  have x: "cursor_x m < 80" "cursor_y m < 25" using assms by (simp_all add: on_screen_def)
  have "(cursor_x m + 8) div 8 * 8 \<le> cursor_x m + 8" by simp
  moreover have "(cursor_x m + 8) div 8 \<le> 10" using x(1) by linarith
  ultimately have "(cursor_x m + 8) div 8 * 8 \<le> 80" by linarith
  then show "cursor_x (put_cell c m) \<le> 80" using x by (auto simp: put_cell_def Let_def)
  show "cursor_y (put_cell c m) < (if cursor_x (put_cell c m) = 80 then 25 else 26)"
    using x by (auto simp: put_cell_def Let_def)
  show "vmem (put_cell c m) k = vmem m k" if "k \<ge> 25 * 80"
    using x that by (auto simp: put_cell_def Let_def)
qed

lemma wrap_line_bounds:
  assumes "cursor_x m \<le> 80" "cursor_y m < (if cursor_x m = 80 then 25 else 26)"
  shows "cursor_x (wrap_line m) < 80" "cursor_y (wrap_line m) \<le> 25" "vmem (wrap_line m) = vmem m"
  using assms by (auto simp: wrap_line_def split: if_splits)

lemma monitor_put_text:
  assumes "on_screen m" "0x20 \<le> sint c" "cursor_x m < 79"
  shows "monitor_put c m = m\<lparr>vmem := (vmem m)(cursor_y m * 80 + cursor_x m := ucast c OR push_bit 8 (ucast (attrByte m))),
    cursor_x := cursor_x m + 1, cursor_loc := word_of_nat (cursor_y m * 80 + cursor_x m + 1)\<rparr>"
proof -
  have "c \<noteq> 0x08" "c \<noteq> 0x09" "c \<noteq> 0x0D" "c \<noteq> 0x0A" using assms(2) by auto
  then show ?thesis
    using assms by (simp add: monitor_put_def put_cell_def wrap_line_def scroll_def update_cursor_def on_screen_def Let_def)
qed

definition demo_screen :: monitor where
  "demo_screen = \<lparr>attrByte = 0x0F, cursor_x = 79, cursor_y = 24, vmem = (\<lambda>_. 0), cursor_loc = 0\<rparr>"



end
