(* ===== verification/Term.thy ===== *)
theory Term
  imports Timer Monitor
begin

section \<open>The terminal (kernel/chardev/term.c)\<close>

text \<open>
  The keyboard interrupt, the circular buffer of what was typed, and the operations of the character device. The pointers
  \<^verbatim>\<open>readbufpos\<close> and \<^verbatim>\<open>writebufpos\<close> are offsets from the start of \<^verbatim>\<open>inbuf\<close>; an access through a pointer that has left the buffer
  has no result. The scan code that \<^verbatim>\<open>inb(0x60)\<close> reads is an argument; the loops that wait for the keyboard
  controller are left out.

  \<^verbatim>\<open>read\<close> can sleep: \<open>term_read\<close> returns no count when the task has gone to sleep, and \<open>term_read_woken\<close> is what it does when it
  runs again.
\<close>

unbundle bit_operations_syntax

subsection \<open>Data\<close>

definition K_BACKSPACE :: "8 word" where "K_BACKSPACE = 0x0E"
definition K_CTRL :: "8 word" where "K_CTRL = 0x1D"
definition K_LSHIFT :: "8 word" where "K_LSHIFT = 0x2A"
definition K_RSHIFT :: "8 word" where "K_RSHIFT = 0x36"
definition K_ALT :: "8 word" where "K_ALT = 0x38"
definition K_CAPS :: "8 word" where "K_CAPS = 0x3A"
definition K_NUMLOCK :: "8 word" where "K_NUMLOCK = 0x45"
definition K_SCRLLOCK :: "8 word" where "K_SCRLLOCK = 0x46"
definition SCROLL_LED :: "8 word" where "SCROLL_LED = 1"
definition NUM_LED :: "8 word" where "NUM_LED = 2"
definition CAPS_LED :: "8 word" where "CAPS_LED = 4"
definition BUFSIZE :: int where "BUFSIZE = 1024"
definition TERMIOECHO :: nat where "TERMIOECHO = 0"
definition TERM_MAJOR :: nat where "TERM_MAJOR = 1"

lemmas key_defs = K_BACKSPACE_def K_CTRL_def K_LSHIFT_def K_RSHIFT_def K_ALT_def K_CAPS_def K_NUMLOCK_def K_SCRLLOCK_def

record 'v terminal =
  te_sys :: "'v tasking"
  te_idt :: idt_state
  te_mon :: monitor
  caps_stat :: bool
  shift_stat :: bool
  alt_stat :: bool
  ctrl_stat :: bool
  leds :: "8 word"
  inbuf :: "int \<Rightarrow> 8 word"
  readbufpos :: int
  writebufpos :: int
  echo :: bool
  term_wq :: addr

definition ascii :: "string \<Rightarrow> bytes" where
  "ascii cs = map (word_of_nat \<circ> of_char) cs"

text \<open>The entries that the initialisers of the two tables leave out are zero.\<close>

definition noshiftmap :: bytes where
  "noshiftmap =
    (let m = [0, 0] @ ascii ''1234567890-='' @ [0, 9] @ ascii ''qwertyuiop[]'' @ [10, 0]
           @ ascii ''asdfghjkl;'' @ [0x27, 0x60, 0, 0x5C] @ ascii ''zxcvbnm,./'' @ [0, 0, 0, 0x20]
     in m @ replicate (128 - length m) 0)"

definition shiftmap :: bytes where
  "shiftmap =
    (let m = [0, 0] @ ascii ''!@#$%^&*()_+'' @ [0, 9] @ ascii ''QWERTYUIOP{}'' @ [10, 0]
           @ ascii ''ASDFGHJKL:'' @ [0x22] @ ascii ''~'' @ [0] @ ascii ''|ZXCVBNM<>?'' @ [0, 0, 0, 0x20]
     in m @ replicate (128 - length m) 0)"

subsection \<open>The keyboard interrupt\<close>

definition te_outb :: "16 word \<Rightarrow> 8 word \<Rightarrow> 'v terminal \<Rightarrow> 'v terminal" where
  "te_outb port v s = s\<lparr>te_idt := outb port v (te_idt s)\<rparr>"

definition update_leds :: "8 word \<Rightarrow> 'v terminal \<Rightarrow> 'v terminal" where
  "update_leds st s = te_outb 0x60 st (te_outb 0x60 0xED s)"

definition te_put :: "8 word \<Rightarrow> 'v terminal \<Rightarrow> 'v terminal" where
  "te_put c s = s\<lparr>te_mon := monitor_put c (te_mon s)\<rparr>"

definition te_wake :: "'v terminal \<Rightarrow> 'v terminal option" where
  "te_wake s = do { t \<leftarrow> wake_queue (term_wq s) (te_sys s); Some (s\<lparr>te_sys := t\<rparr>) }"

definition key_release :: "8 word \<Rightarrow> 'v terminal \<Rightarrow> 'v terminal" where
  "key_release sc s =
    (if sc = K_LSHIFT \<or> sc = K_RSHIFT then s\<lparr>shift_stat := False\<rparr>
     else if sc = K_ALT then s\<lparr>alt_stat := False\<rparr>
     else if sc = K_CTRL then s\<lparr>ctrl_stat := False\<rparr>
     else s)"

text \<open>The character of a key, by the tables and the caps lock.\<close>

definition key_char :: "8 word \<Rightarrow> 'v terminal \<Rightarrow> 8 word" where
  "key_char sc s =
    (let c = (if shift_stat s then shiftmap else noshiftmap) ! unat sc in
     if caps_stat s then
       (if 0x41 \<le> c \<and> c \<le> 0x5A then c + 0x20
        else if 0x61 \<le> c \<and> c \<le> 0x7A then c - 0x20 else c)
     else c)"

definition in_buf :: "int \<Rightarrow> bool" where
  "in_buf p \<longleftrightarrow> 0 \<le> p \<and> p < BUFSIZE"

definition buf_put :: "8 word \<Rightarrow> 'v terminal \<Rightarrow> 'v terminal option" where
  "buf_put c s = do {
     ASSERT (in_buf (writebufpos s));
     let s = s\<lparr>inbuf := (inbuf s)(writebufpos s := c), writebufpos := writebufpos s + 1\<rparr>;
     let s = (if writebufpos s = BUFSIZE then s\<lparr>writebufpos := 0\<rparr> else s);
     Some (if writebufpos s = readbufpos s then s\<lparr>readbufpos := readbufpos s + 1\<rparr> else s)
   }"

definition te_echo :: "8 word \<Rightarrow> 'v terminal \<Rightarrow> 'v terminal" where
  "te_echo c s = (if echo s then te_put c s else s)"

definition key_text :: "8 word \<Rightarrow> 'v terminal \<Rightarrow> 'v terminal option" where
  "key_text sc s =
    (if (if shift_stat s then shiftmap else noshiftmap) ! unat sc = 0 then Some s
     else do {
       let c = key_char sc s;
       s \<leftarrow> buf_put c s;
       te_wake (te_echo c s)
     })"

definition key_press :: "8 word \<Rightarrow> 'v terminal \<Rightarrow> 'v terminal option" where
  "key_press sc s =
    (if sc = K_LSHIFT \<or> sc = K_RSHIFT then Some (s\<lparr>shift_stat := True\<rparr>)
     else if sc = K_ALT then Some (s\<lparr>alt_stat := True\<rparr>)
     else if sc = K_CTRL then Some (s\<lparr>ctrl_stat := True\<rparr>)
     else if sc = K_NUMLOCK then Some (s\<lparr>leds := leds s XOR NUM_LED\<rparr>)
     else if sc = K_SCRLLOCK then Some (s\<lparr>leds := leds s XOR SCROLL_LED\<rparr>)
     else if sc = K_CAPS then Some (s\<lparr>leds := leds s XOR CAPS_LED, caps_stat := \<not> caps_stat s\<rparr>)
     else if sc = K_BACKSPACE then
       Some (if readbufpos s = writebufpos s then s else te_put 0x08 (s\<lparr>writebufpos := writebufpos s - 1\<rparr>))
     else key_text sc s)"

definition kbd_isr :: "8 word \<Rightarrow> nat \<Rightarrow> 'v terminal \<Rightarrow> 'v terminal option" where
  "kbd_isr sc n s = do {
     let oldleds = leds s;
     s \<leftarrow> (if sc AND 0x80 \<noteq> 0 then Some (key_release (sc AND NOT 0x80) s) else key_press sc s);
     let s = (if leds s \<noteq> oldleds then update_leds (leds s) s else s);
     Some (s\<lparr>te_idt := irq_ack n (te_idt s)\<rparr>)
   }"

subsection \<open>The device\<close>

fun term_copy :: "nat \<Rightarrow> 'v terminal \<Rightarrow> (bytes \<times> 'v terminal) option" where
  "term_copy 0 s = Some ([], s)"
| "term_copy (Suc n) s =
    (if readbufpos s = writebufpos s then Some ([], s)
     else do {
       ASSERT (in_buf (readbufpos s));
       let c = inbuf s (readbufpos s);
       let s = s\<lparr>readbufpos := readbufpos s + 1\<rparr>;
       let s = (if readbufpos s = BUFSIZE then s\<lparr>readbufpos := 0\<rparr> else s);
       (cs, s) \<leftarrow> term_copy n s;
       Some (c # cs, s)
     })"

definition te_sleep :: "nat \<times> nat \<times> nat \<Rightarrow> 'v terminal \<Rightarrow> 'v terminal option" where
  "te_sleep regs s = do { t \<leftarrow> sleep_thread (term_wq s) SLEEP_INTERRUPTABLE regs (te_sys s); Some (s\<lparr>te_sys := t\<rparr>) }"

definition term_read :: "nat \<Rightarrow> nat \<times> nat \<times> nat \<Rightarrow> 'v terminal \<Rightarrow> (bytes option \<times> 'v terminal) option" where
  "term_read count regs s =
    (if readbufpos s = writebufpos s then do { s \<leftarrow> te_sleep regs s; Some (None, s) }
     else do { (cs, s) \<leftarrow> term_copy count s; Some (Some cs, s) })"

definition term_read_woken :: "nat \<Rightarrow> nat \<times> nat \<times> nat \<Rightarrow> 'v terminal \<Rightarrow> (bytes option \<times> 'v terminal) option" where
  "term_read_woken count regs s =
    (if \<not> interrupted (te_sys s) \<and> readbufpos s = writebufpos s then do { s \<leftarrow> te_sleep regs s; Some (None, s) }
     else do { (cs, s) \<leftarrow> term_copy count s; Some (Some cs, s) })"

definition term_write :: "bytes \<Rightarrow> 'v terminal \<Rightarrow> nat \<times> 'v terminal" where
  "term_write src s = (length src, fold te_put src s)"

text \<open>The integer at \<open>ptr\<close>, if the pointer is not null.\<close>

definition term_ioctl :: "nat \<Rightarrow> int option \<Rightarrow> 'v terminal \<Rightarrow> int \<times> 'v terminal" where
  "term_ioctl req ptr s =
    (if req = TERMIOECHO then
       (case ptr of Some i \<Rightarrow> (0, s\<lparr>echo := (i \<noteq> 0)\<rparr>) | None \<Rightarrow> (- EFAULT, s))
     else (- EINVAL, s))"

text \<open>\<^verbatim>\<open>init_term\<close>; registering the driver is a function of char.c and the argument \<open>reg\<close>.\<close>

definition init_term :: "addr \<Rightarrow> ('v terminal \<Rightarrow> 'v terminal option) \<Rightarrow> 'v terminal \<Rightarrow> 'v terminal option" where
  "init_term isr reg s = do {
     (wq, t) \<leftarrow> create_waitqueue (te_sys s);
     ASSERT (wq \<noteq> NULL);
     let s = s\<lparr>te_sys := t, term_wq := wq\<rparr>;
     let (ret, i) = register_interrupt_handler 33 isr (te_idt s);
     ASSERT (ret = 0);
     let s = update_leds (leds s) (s\<lparr>te_idt := i\<rparr>);
     reg s
   }"


subsection \<open>The buffer as a queue\<close>

definition ring_ok :: "'v terminal \<Rightarrow> bool" where
  "ring_ok s \<longleftrightarrow> in_buf (readbufpos s) \<and> in_buf (writebufpos s)"

definition unread :: "'v terminal \<Rightarrow> bytes" where
  "unread s = map (\<lambda>i. inbuf s ((readbufpos s + int i) mod BUFSIZE)) [0..<nat ((writebufpos s - readbufpos s) mod BUFSIZE)]"

lemma length_unread: "int (length (unread s)) = (writebufpos s - readbufpos s) mod BUFSIZE"
  by (simp add: unread_def BUFSIZE_def)

lemma unread_cong:
  "inbuf s' = inbuf s \<Longrightarrow> readbufpos s' = readbufpos s \<Longrightarrow> writebufpos s' = writebufpos s \<Longrightarrow> unread s' = unread s"
  "readbufpos s' = readbufpos s \<Longrightarrow> writebufpos s' = writebufpos s \<Longrightarrow> ring_ok s' = ring_ok s"
  by (simp_all add: unread_def ring_ok_def)

lemma ring_dist: "in_buf r \<Longrightarrow> in_buf w \<Longrightarrow> (w - r) mod BUFSIZE = (if r \<le> w then w - r else w - r + BUFSIZE)"
proof -
  assume b: "in_buf r" "in_buf w"
  have "(w - r + BUFSIZE) mod BUFSIZE = (w - r) mod BUFSIZE" by simp
  moreover have "r \<le> w \<Longrightarrow> (w - r) mod BUFSIZE = w - r"
    by (rule mod_pos_pos_trivial) (use b in \<open>auto simp: in_buf_def\<close>)
  moreover have "\<not> r \<le> w \<Longrightarrow> (w - r + BUFSIZE) mod BUFSIZE = w - r + BUFSIZE"
    by (rule mod_pos_pos_trivial) (use b in \<open>auto simp: in_buf_def\<close>)
  ultimately show ?thesis by simp
qed

lemma ring_next: "in_buf r \<Longrightarrow> (r + 1) mod BUFSIZE = (if r + 1 = BUFSIZE then 0 else r + 1)"
  by (auto simp: in_buf_def BUFSIZE_def intro!: mod_pos_pos_trivial)

lemma in_buf_mod [simp]: "in_buf (x mod BUFSIZE)"
  by (simp add: in_buf_def BUFSIZE_def)

lemma unread_Nil: "ring_ok s \<Longrightarrow> unread s = [] \<longleftrightarrow> readbufpos s = writebufpos s"
  by (auto simp: unread_def ring_ok_def ring_dist in_buf_def split: if_splits)

text \<open>Taking one character out.\<close>

lemma unread_Cons:
  assumes "ring_ok s" "readbufpos s \<noteq> writebufpos s"
  shows "unread s = inbuf s (readbufpos s) # unread (s\<lparr>readbufpos := (readbufpos s + 1) mod BUFSIZE\<rparr>)"
proof -
  let ?r = "readbufpos s" and ?w = "writebufpos s"
  let ?r' = "(?r + 1) mod BUFSIZE"
  have b: "in_buf ?r" "in_buf ?w" using assms(1) by (auto simp: ring_ok_def)
  have n: "nat ((?w - ?r) mod BUFSIZE) = Suc (nat ((?w - ?r') mod BUFSIZE))"
    unfolding ring_dist [OF b] ring_dist [OF in_buf_mod b(2)] unfolding ring_next [OF b(1)]
    using b assms(2) by (auto simp: in_buf_def BUFSIZE_def)
  have "(?r + int (Suc i)) mod BUFSIZE = (?r' + int i) mod BUFSIZE" for i by (simp add: mod_simps ac_simps)
  moreover have "?r mod BUFSIZE = ?r" using b by (simp add: in_buf_def)
  ultimately show ?thesis
    unfolding unread_def n by (simp add: upt_conv_Cons map_Suc_upt [symmetric] del: upt_Suc)
qed

text \<open>Putting one in.\<close>

lemma buf_put_unread:
  assumes "ring_ok s" "length (unread s) < 1023"
  shows "\<exists>s'. buf_put c s = Some s' \<and> ring_ok s' \<and> unread s' = unread s @ [c]"
proof -
  let ?r = "readbufpos s" and ?w = "writebufpos s"
  let ?w' = "(?w + 1) mod BUFSIZE"
  let ?s = "s\<lparr>inbuf := (inbuf s)(?w := c), writebufpos := ?w'\<rparr>"
  have b: "in_buf ?r" "in_buf ?w" using assms(1) by (auto simp: ring_ok_def)
  have l: "(?w - ?r) mod BUFSIZE < 1023" using assms(2) by (simp flip: length_unread)
  then have n: "nat ((?w' - ?r) mod BUFSIZE) = Suc (nat ((?w - ?r) mod BUFSIZE))" and ne: "?w' \<noteq> ?r"
    unfolding ring_dist [OF b] ring_dist [OF b(1) in_buf_mod] unfolding ring_next [OF b(2)]
    using b by (auto simp: in_buf_def BUFSIZE_def split: if_splits)
  have "(?r + int i) mod BUFSIZE \<noteq> ?w" if i: "i < nat ((?w - ?r) mod BUFSIZE)" for i
  proof -
    note that = i [unfolded ring_dist [OF b]]
    have "(?r + int i) mod BUFSIZE = (if ?r + int i < BUFSIZE then ?r + int i else ?r + int i - BUFSIZE)"
      using that b mod_pos_pos_trivial [of "?r + int i" BUFSIZE] mod_pos_pos_trivial [of "?r + int i - BUFSIZE" BUFSIZE]
      by (auto simp: ring_dist in_buf_def BUFSIZE_def split: if_splits)
    then show ?thesis using that b by (auto simp: ring_dist in_buf_def BUFSIZE_def split: if_splits)
  qed
  moreover have "(?r + int (nat ((?w - ?r) mod BUFSIZE))) mod BUFSIZE = ?w"
    using b by (simp add: in_buf_def BUFSIZE_def mod_simps)
  ultimately have "unread ?s = unread s @ [c]" by (simp add: unread_def n)
  moreover have "buf_put c s = Some ?s"
    using b ne by (auto simp: buf_put_def Let_def ring_next split: if_splits)
  moreover have "ring_ok ?s" using b by (simp add: ring_ok_def)
  ultimately show ?thesis by blast
qed

lemma term_copy_unread:
  "ring_ok s \<Longrightarrow> \<exists>s'. term_copy n s = Some (take n (unread s), s') \<and> ring_ok s' \<and> unread s' = drop n (unread s)"
proof (induction n arbitrary: s)
  case (Suc n)
  show ?case
  proof (cases "readbufpos s = writebufpos s")
    case True
    then show ?thesis using Suc.prems unread_Nil [OF Suc.prems] by simp
  next
    case False
    let ?s = "s\<lparr>readbufpos := (readbufpos s + 1) mod BUFSIZE\<rparr>"
    have "in_buf (readbufpos s)" "ring_ok ?s" using Suc.prems by (simp_all add: ring_ok_def)
    with Suc.IH [of ?s] obtain s' where "term_copy n ?s = Some (take n (unread ?s), s')" "ring_ok s'" "unread s' = drop n (unread ?s)" by auto
    then show ?thesis using False \<open>in_buf (readbufpos s)\<close> unread_Cons [OF Suc.prems False] by (auto simp: ring_next Let_def)
  qed
qed auto


lemma te_echo_simps [simp]:
  "inbuf (te_echo c s) = inbuf s" "readbufpos (te_echo c s) = readbufpos s" "writebufpos (te_echo c s) = writebufpos s"
  "shift_stat (te_echo c s) = shift_stat s" "caps_stat (te_echo c s) = caps_stat s"
  by (simp_all add: te_echo_def te_put_def)

lemma buf_put_keeps:
  "buf_put c s = Some s' \<Longrightarrow> shift_stat s' = shift_stat s \<and> caps_stat s' = caps_stat s \<and> leds s' = leds s"
  by (auto simp: buf_put_def Let_def split: if_splits)

text \<open>A scan code that types a character.\<close>

definition text_key :: "bool \<Rightarrow> 8 word \<Rightarrow> bool" where
  "text_key shift sc \<longleftrightarrow> sc AND 0x80 = 0
     \<and> sc \<notin> {K_LSHIFT, K_RSHIFT, K_ALT, K_CTRL, K_NUMLOCK, K_SCRLLOCK, K_CAPS, K_BACKSPACE}
     \<and> (if shift then shiftmap else noshiftmap) ! unat sc \<noteq> 0"

lemma kbd_isr_text_eq:
  assumes "text_key (shift_stat s) sc" "kbd_isr sc n s = Some s'"
  shows "\<exists>s1. buf_put (key_char sc s) s = Some s1 \<and> inbuf s' = inbuf s1 \<and> readbufpos s' = readbufpos s1 \<and> writebufpos s' = writebufpos s1
    \<and> shift_stat s' = shift_stat s \<and> caps_stat s' = caps_stat s"
proof -
  have "key_press sc s = key_text sc s" using assms(1) by (auto simp: text_key_def key_press_def)
  with assms obtain s2 where s2: "key_text sc s = Some s2" "inbuf s' = inbuf s2" "readbufpos s' = readbufpos s2" "writebufpos s' = writebufpos s2"
      "shift_stat s' = shift_stat s2" "caps_stat s' = caps_stat s2"
    by (auto simp: kbd_isr_def text_key_def update_leds_def te_outb_def Let_def split: bind_splits)
  with assms(1) obtain s1 where "buf_put (key_char sc s) s = Some s1" "inbuf s2 = inbuf s1" "readbufpos s2 = readbufpos s1" "writebufpos s2 = writebufpos s1"
      "shift_stat s2 = shift_stat s1" "caps_stat s2 = caps_stat s1"
    by (auto simp: key_text_def text_key_def te_wake_def Let_def split: bind_splits)
  with s2 buf_put_keeps show ?thesis by metis
qed

lemma kbd_isr_text:
  assumes "text_key (shift_stat s) sc" "kbd_isr sc n s = Some s'" "ring_ok s" "length (unread s) < 1023"
  shows "ring_ok s' \<and> unread s' = unread s @ [key_char sc s] \<and> shift_stat s' = shift_stat s \<and> caps_stat s' = caps_stat s"
proof -
  from kbd_isr_text_eq [OF assms(1,2)] obtain s1 where s1: "buf_put (key_char sc s) s = Some s1" "inbuf s' = inbuf s1"
    "readbufpos s' = readbufpos s1" "writebufpos s' = writebufpos s1" "shift_stat s' = shift_stat s" "caps_stat s' = caps_stat s" by blast
  from buf_put_unread [OF assms(3,4), of "key_char sc s"] s1(1) have "ring_ok s1" "unread s1 = unread s @ [key_char sc s]" by auto
  with s1 unread_cong [of s' s1] show ?thesis by simp
qed

fun type_keys :: "8 word list \<Rightarrow> 'v terminal \<Rightarrow> 'v terminal option" where
  "type_keys [] s = Some s"
| "type_keys (sc # scs) s = do { s \<leftarrow> kbd_isr sc 33 s; type_keys scs s }"

lemma type_keys_unread:
  assumes "type_keys scs s = Some s'" "ring_ok s" "list_all (text_key (shift_stat s)) scs" "length (unread s) + length scs \<le> 1023"
  shows "ring_ok s' \<and> unread s' = unread s @ map (\<lambda>sc. key_char sc s) scs"
  using assms
proof (induction scs arbitrary: s)
  case (Cons sc scs)
  then obtain t where t: "kbd_isr sc 33 s = Some t" "type_keys scs t = Some s'" by (auto split: bind_splits)
  have e: "ring_ok t \<and> unread t = unread s @ [key_char sc s] \<and> shift_stat t = shift_stat s \<and> caps_stat t = caps_stat s"
    using kbd_isr_text [OF _ t(1)] Cons.prems by simp
  then have "key_char c t = key_char c s" for c by (simp add: key_char_def)
  then show ?case using Cons.IH [OF t(2)] Cons.prems e by simp
qed simp

subsection \<open>Example\<close>

text \<open>A terminal without echo, and its circular buffer when the positions are \<open>r\<close> and \<open>w\<close>.\<close>

definition demo_terminal :: "int \<Rightarrow> int \<Rightarrow> unit terminal" where
  "demo_terminal r w = \<lparr>te_sys = demo_tasking, te_idt = demo_idt, te_mon = demo_screen, caps_stat = False, shift_stat = False, alt_stat = False,
     ctrl_stat = False, leds = 0, inbuf = (\<lambda>_. 0), readbufpos = r, writebufpos = w, echo = False, term_wq = demo_ptr 5\<rparr>"

lemma demo_wake: "wake_queue (demo_ptr 5) demo_tasking = Some demo_tasking"
  by (simp add: wake_queue_def demo_tasking_def demo_ptr_def)

lemma demo_maps:
  "length noshiftmap = 128" "noshiftmap ! 30 = 0x61" "noshiftmap ! 48 = 0x62"
  by (simp_all add: noshiftmap_def ascii_def)

lemma demo_text_key: "text_key False 30" "text_key False 48"
  by (simp_all add: text_key_def demo_maps key_defs)

lemma demo_kbd:
  assumes "text_key False sc" "te_sys s = demo_tasking" "term_wq s = demo_ptr 5" "\<not> echo s" "\<not> shift_stat s" "in_buf (writebufpos s)"
  shows "\<exists>s'. kbd_isr sc 33 s = Some s' \<and> te_sys s' = demo_tasking \<and> term_wq s' = demo_ptr 5 \<and> \<not> echo s' \<and> \<not> shift_stat s' \<and> in_buf (writebufpos s')"
proof -
  have "key_press sc s = key_text sc s" using assms(1) by (auto simp: text_key_def key_press_def)
  moreover obtain s1 where "buf_put (key_char sc s) s = Some s1" "te_sys s1 = demo_tasking" "term_wq s1 = demo_ptr 5" "\<not> echo s1" "\<not> shift_stat s1"
      "in_buf (writebufpos s1)" "leds s1 = leds s"
    using assms by (auto simp: buf_put_def in_buf_def BUFSIZE_def Let_def)
  ultimately show ?thesis using assms(1,5)
    by (auto simp: kbd_isr_def text_key_def key_text_def te_wake_def te_echo_def demo_wake Let_def)
qed

subsection \<open>Properties\<close>



text \<open>
  The buffer is left at its two ends. When it is full and its oldest character is in the last place, one more key moves
  \<^verbatim>\<open>readbufpos\<close> behind the buffer, and the next \<^verbatim>\<open>read\<close> reads from there; a backspace when the next place to be written is the
  first one moves \<^verbatim>\<open>writebufpos\<close> before the buffer, and the next key is stored there.
\<close>

theorem term_leaves_buffer:
  assumes "ring_ok s" "text_key (shift_stat s) sc" "kbd_isr sc 33 s = Some s'"
  shows "(readbufpos s = 1023 \<and> writebufpos s = 1022 \<longrightarrow>
      readbufpos s' = BUFSIZE \<and> length (unread s) = 1023 \<and> term_read (Suc count) regs s' = None)
    \<and> (readbufpos s \<noteq> 0 \<and> writebufpos s = 0 \<longrightarrow>
      (\<exists>t. kbd_isr K_BACKSPACE 33 s = Some t \<and> writebufpos t = - 1 \<and> kbd_isr sc 33 t = None))"
proof (intro conjI impI)
  assume p: "readbufpos s = 1023 \<and> writebufpos s = 1022"
  from kbd_isr_text_eq [OF assms(2,3)] obtain s1 where s1: "buf_put (key_char sc s) s = Some s1"
    "readbufpos s' = readbufpos s1" "writebufpos s' = writebufpos s1" by blast
  with p have r: "readbufpos s' = BUFSIZE" "writebufpos s' = 1023" by (auto simp: buf_put_def in_buf_def BUFSIZE_def)
  show "readbufpos s' = BUFSIZE" by (rule r)
  show "length (unread s) = 1023" using p length_unread [of s] by (simp add: BUFSIZE_def)
  show "term_read (Suc count) regs s' = None" using r by (simp add: term_read_def in_buf_def BUFSIZE_def)
next
  assume p: "readbufpos s \<noteq> 0 \<and> writebufpos s = 0"
  obtain t where t: "kbd_isr K_BACKSPACE 33 s = Some t" "writebufpos t = - 1" "shift_stat t = shift_stat s"
    using p by (auto simp: kbd_isr_def key_press_def key_defs te_put_def Let_def)
  moreover have "kbd_isr sc 33 t = None"
  proof -
    have "key_press sc t = key_text sc t" "\<not> in_buf (writebufpos t)" using assms(2) t by (auto simp: text_key_def key_press_def in_buf_def)
    then show ?thesis using assms(2) t by (simp add: kbd_isr_def text_key_def key_text_def buf_put_def Let_def)
  qed
  ultimately show "\<exists>t. kbd_isr K_BACKSPACE 33 s = Some t \<and> writebufpos t = - 1 \<and> kbd_isr sc 33 t = None" by blast
qed


theorem term_leaves_buffer_witness:
  "(\<exists>s'. kbd_isr 30 33 (demo_terminal 1023 1022) = Some s' \<and> term_read 1 (0, 0, 0) s' = None)
    \<and> (\<exists>t. kbd_isr K_BACKSPACE 33 (demo_terminal 7 0) = Some t \<and> kbd_isr 30 33 t = None)"
proof -
  have k: "\<exists>s'. kbd_isr 30 33 (demo_terminal r w) = Some s'" if "in_buf w" for r w
    using demo_kbd [OF demo_text_key(1), of "demo_terminal r w"] that by (auto simp: demo_terminal_def)
  have ok: "ring_ok (demo_terminal 1023 1022)" "ring_ok (demo_terminal 7 0)" "text_key (shift_stat (demo_terminal r w)) 30" for r w
    by (simp_all add: demo_terminal_def ring_ok_def in_buf_def BUFSIZE_def demo_text_key)
  have b: "in_buf 1022" "in_buf 0" by (simp_all add: in_buf_def BUFSIZE_def)
  obtain s' t' where "kbd_isr 30 33 (demo_terminal 1023 1022) = Some s'" "kbd_isr 30 33 (demo_terminal 7 0) = Some t'"
    using k [OF b(1)] k [OF b(2)] by blast
  with term_leaves_buffer [OF ok(1) ok(3), of s' 0] term_leaves_buffer [OF ok(2) ok(3), of t'] show ?thesis
    by (auto simp: demo_terminal_def)
qed

end
