(* ===== verification/Chardev.thy ===== *)
theory Chardev
  imports Vfs
begin

section \<open>Character device drivers (kernel/char.c)\<close>

text \<open>
  The table of the drivers of character devices, one for each major number from 1 to 256. A driver that is free has the name
  \<^verbatim>\<open>Default\<close>, which is tested with \<^verbatim>\<open>strcmp\<close> of string.s. A driver's operations are the number of their table, as in Vfs; the message that \<^verbatim>\<open>register_chrdev\<close> prints is left out.
\<close>

record chrdev_driver =
  cd_name :: bytes
  cd_ops :: nat

record chardevs =
  char_drivers :: "chrdev_driver list"
  char_lock :: bool

definition DEFAULT_NAME :: bytes where
  "DEFAULT_NAME = [0x44, 0x65, 0x66, 0x61, 0x75, 0x6C, 0x74]"

definition no_ops :: nat where
  "no_ops = 0"

definition init_chardev :: "chardevs \<Rightarrow> chardevs" where
  "init_chardev s = s\<lparr>char_drivers := replicate 256 \<lparr>cd_name = DEFAULT_NAME, cd_ops = no_ops\<rparr>\<rparr>"

definition is_default :: "bytes \<Rightarrow> bool option" where
  "is_default nm = do { c \<leftarrow> strcmp (c_mem nm) (c_mem DEFAULT_NAME); Some (c = 0) }"

definition get_chrdev_driver :: "nat \<Rightarrow> chardevs \<Rightarrow> chrdev_driver option option" where
  "get_chrdev_driver major s =
    (if major = 0 \<or> major > 256 then Some None
     else do {
       free \<leftarrow> is_default (cd_name (char_drivers s ! (major - 1)));
       Some (if free then None else Some (char_drivers s ! (major - 1)))
     })"

text \<open>
  The loop for a free major number, from \<open>major\<close> on; \<open>None\<close> inside when there is none. The loop ends in \<^verbatim>\<open>return -1\<close> then, and the lock
  is not released.
\<close>

function free_major :: "nat \<Rightarrow> chardevs \<Rightarrow> nat option option" where
  "free_major major s = do {
     free \<leftarrow> is_default (cd_name (char_drivers s ! (major - 1)));
     if free then Some (Some major)
     else if major \<ge> 256 then Some None
     else free_major (major + 1) s
   }"
  by pat_completeness auto
termination by (relation "measure (\<lambda>(major, s). 256 - major)") auto

declare free_major.simps [simp del]

definition register_chrdev :: "nat \<Rightarrow> bytes \<Rightarrow> nat \<Rightarrow> chardevs \<Rightarrow> (int \<times> chardevs) option" where
  "register_chrdev major nm fops s = do {
     ASSERT (\<not> char_lock s);
     let s = s\<lparr>char_lock := True\<rparr>;
     found \<leftarrow> (if major = 0 then free_major 1 s else Some (Some major));
     case found of
       None \<Rightarrow> Some (- 1, s)
     | Some m \<Rightarrow> do {
         ASSERT (m \<le> length (char_drivers s));
         Some (int m, s\<lparr>char_drivers := (char_drivers s)[m - 1 := \<lparr>cd_name = nm, cd_ops = fops\<rparr>], char_lock := False\<rparr>)
       }
   }"


subsection \<open>Registering and looking up\<close>

lemma is_default_match: "c_string nm \<Longrightarrow> is_default nm = Some (str_match nm DEFAULT_NAME)"
  using strcmp_match [of nm DEFAULT_NAME] by (auto simp: is_default_def c_string_def DEFAULT_NAME_def)

lemma register_chrdev_get:
  assumes "length (char_drivers s) = 256" "\<not> char_lock s" "1 \<le> major" "major \<le> 256" "c_string nm" "\<not> str_match nm DEFAULT_NAME"
  shows "\<exists>s'. register_chrdev major nm fops s = Some (int major, s') \<and> \<not> char_lock s'
    \<and> get_chrdev_driver major s' = Some (Some \<lparr>cd_name = nm, cd_ops = fops\<rparr>)
    \<and> (\<forall>m. 1 \<le> m \<and> m \<noteq> major \<longrightarrow> get_chrdev_driver m s' = get_chrdev_driver m s)"
  using assms by (auto simp: register_chrdev_def get_chrdev_driver_def is_default_match nth_list_update Let_def cong: if_cong)

text \<open>When every major number is taken, looking for one leaves the lock held, and the next registration waits for it forever.\<close>

lemma free_major_full:
  assumes "\<And>m. m < 256 \<Longrightarrow> is_default (cd_name (char_drivers s ! m)) = Some False" "1 \<le> major" "major \<le> 256"
  shows "free_major major s = Some None"
  using assms
proof (induction major s rule: free_major.induct)
  case (1 major s)
  have "is_default (cd_name (char_drivers s ! (major - 1))) = Some False" using 1 by simp
  with 1 show ?case by (subst free_major.simps) auto
qed

lemma register_chrdev_full:
  assumes "\<And>m. m < 256 \<Longrightarrow> is_default (cd_name (char_drivers s ! m)) = Some False" "\<not> char_lock s"
  shows "register_chrdev 0 nm fops s = Some (- 1, s\<lparr>char_lock := True\<rparr>)" "register_chrdev major nm' fops' (s\<lparr>char_lock := True\<rparr>) = None"
  using assms free_major_full [of "s\<lparr>char_lock := True\<rparr>" 1] by (simp_all add: register_chrdev_def)

end
