(* ===== verification/Drivers.thy ===== *)
theory Drivers
  imports Chardev
begin

section \<open>The state of the device layer (Include/block.h, Include/fs/dev.h)\<close>

text \<open>
  The structures of block.c and of the file system of devices, fs/dev.c, by address, and the state both work on: what Vfs keeps for the mounted
  file systems is a \<open>devstate\<close> here. A \<^verbatim>\<open>list_t\<close> is the address of its header and its contents. The operations of mutex.c
  work on a state with the mutexes and semaphores beside the tasks; \<open>on_sync\<close> carries them over.

  A task that finds a mutex or a semaphore taken goes to sleep, and other tasks run; the models of block.c and dev.c end
  there, with no result.
\<close>

unbundle bit_operations_syntax

subsection \<open>Data\<close>

record part =
  pt_minor :: nat
  pt_offset :: nat
  pt_size :: nat

record bio =
  bio_page :: nat
  bio_offset :: nat
  bio_nsectors :: nat

record request =
  rq_flags :: "32 word"
  rq_first :: nat
  rq_nsectors :: nat
  rq_status :: int
  rq_rc :: int
  rq_dev :: addr
  rq_bios_list :: addr
  rq_bios :: queue
  rq_wq :: addr

record blkdev =
  bd_major :: nat
  bd_minor :: nat
  bd_max_part :: nat
  bd_parts_list :: addr
  bd_parts :: queue
  bd_sector_size :: nat
  bd_size :: nat
  bd_mutex :: addr
  bd_handler :: nat
  bd_queue_list :: addr
  bd_queue :: queue
  bd_private :: addr

record blkdev_driver =
  kd_name :: bytes
  kd_ops :: nat
  kd_devs_list :: addr
  kd_devs :: queue

text \<open>An entry of a directory: the list node, the \<^verbatim>\<open>struct dirent\<close>, inode and name.\<close>

type_synonym dlist = "(addr \<times> addr \<times> nat \<times> bytes) list"

record devstate =
  dv_mutexes :: "addr \<rightharpoonup> mutex_t"
  dv_sems :: "addr \<rightharpoonup> sem_t"
  dv_rw_sems :: "addr \<rightharpoonup> rw_sem_t"
  dv_next :: "addr \<rightharpoonup> addr"
  dv_dirs :: "addr \<rightharpoonup> dlist"
  dv_chr :: chardevs
  blk_drivers :: "blkdev_driver list"
  block_lock :: bool
  dv_parts :: "addr \<rightharpoonup> part"
  dv_bios :: "addr \<rightharpoonup> bio"
  dv_reqs :: "addr \<rightharpoonup> request"
  dv_bdevs :: "addr \<rightharpoonup> blkdev"
  dv_mem :: "addr \<Rightarrow> 8 word"

type_synonym dst = "devstate kst"

abbreviation dev :: "dst \<Rightarrow> devstate" where
  "dev s \<equiv> v_fs (t_vfs s)"

definition upd_dev :: "(devstate \<Rightarrow> devstate) \<Rightarrow> dst \<Rightarrow> dst" where
  "upd_dev f s = upd_vfs (\<lambda>v. v\<lparr>v_fs := f (v_fs v)\<rparr>) s"

definition MAJOR :: "nat \<Rightarrow> nat" where "MAJOR x = (x div 2 ^ 24) mod 256"
definition MINOR :: "nat \<Rightarrow> nat" where "MINOR x = x mod 2 ^ 24"

definition BLOCK_REQ_UNSCHED :: int where "BLOCK_REQ_UNSCHED = 0"
definition BLOCK_REQ_PENDING :: int where "BLOCK_REQ_PENDING = 1"
definition BLOCK_REQ_RUNNING :: int where "BLOCK_REQ_RUNNING = 2"
definition BLOCK_REQ_FINISHED :: int where "BLOCK_REQ_FINISHED = 3"
definition BLOCK_REQ_INTR :: int where "BLOCK_REQ_INTR = 4"
definition BLOCK_DIR_WRITE :: "32 word" where "BLOCK_DIR_WRITE = 0x01"

lemmas status_defs = BLOCK_REQ_UNSCHED_def BLOCK_REQ_PENDING_def BLOCK_REQ_RUNNING_def BLOCK_REQ_FINISHED_def BLOCK_REQ_INTR_def

definition sizeof_part :: nat where "sizeof_part = 12"
definition sizeof_bio_t :: nat where "sizeof_bio_t = 12"
definition sizeof_request_t :: nat where "sizeof_request_t = 32"
definition sizeof_blkdev_t :: nat where "sizeof_blkdev_t = 48"
definition sizeof_mbr :: nat where "sizeof_mbr = 512"

subsection \<open>Mutexes and semaphores\<close>

definition to_sync :: "dst \<Rightarrow> devstate vfs sync" where
  "to_sync s = \<lparr>sy_task = s, mutexes = dv_mutexes (dev s), sems = dv_sems (dev s), rw_sems = dv_rw_sems (dev s)\<rparr>"

definition of_sync :: "devstate vfs sync \<Rightarrow> dst" where
  "of_sync y = upd_dev (\<lambda>d. d\<lparr>dv_mutexes := mutexes y, dv_sems := sems y, dv_rw_sems := rw_sems y\<rparr>) (sy_task y)"

definition on_sync :: "(devstate vfs sync \<Rightarrow> devstate vfs sync option) \<Rightarrow> dst \<Rightarrow> dst option" where
  "on_sync f s = map_option of_sync (f (to_sync s))"

definition on_sync_ret :: "(devstate vfs sync \<Rightarrow> ('r \<times> devstate vfs sync) option) \<Rightarrow> dst \<Rightarrow> ('r \<times> dst) option" where
  "on_sync_ret f s = map_option (\<lambda>(r, y). (r, of_sync y)) (f (to_sync s))"

definition acquire_mutex :: "addr \<Rightarrow> dst \<Rightarrow> dst option" where
  "acquire_mutex p s = do {
     (got, s) \<leftarrow> on_sync_ret (mutex_try p) s;
     ASSERT got;
     Some s
   }"

definition acquire_read :: "addr \<Rightarrow> dst \<Rightarrow> dst option" where
  "acquire_read p s = on_sync (\<lambda>y. do {
     r \<leftarrow> rw_sems y p;
     (got, y) \<leftarrow> semaphore_try (rw_semaphore r) y;
     ASSERT got;
     Some y
   }) s"

text \<open>The places of the semaphore one by one.\<close>

fun take_places :: "addr \<Rightarrow> nat \<Rightarrow> 'v sync \<Rightarrow> 'v sync option" where
  "take_places p 0 y = Some y"
| "take_places p (Suc n) y = do {
     (got, y) \<leftarrow> semaphore_try p y;
     ASSERT got;
     take_places p n y
   }"

definition acquire_write :: "addr \<Rightarrow> dst \<Rightarrow> dst option" where
  "acquire_write p s = on_sync (\<lambda>y. do {
     r \<leftarrow> rw_sems y p;
     (got, y) \<leftarrow> mutex_try (rw_write r) y;
     ASSERT got;
     m \<leftarrow> sems y (rw_semaphore r);
     y \<leftarrow> take_places (rw_semaphore r) (sem_max m) y;
     release_mutex (rw_write r) y
   }) s"

definition release_read :: "addr \<Rightarrow> dst \<Rightarrow> dst option" where
  "release_read p s = on_sync (release_semaphore_read p) s"

definition release_write :: "addr \<Rightarrow> dst \<Rightarrow> dst option" where
  "release_write p s = on_sync (release_semaphore_write p) s"

subsection \<open>Semaphores nobody waits for\<close>

definition idle_wq :: "addr \<Rightarrow> 'v tasking \<Rightarrow> bool" where
  "idle_wq wq s \<longleftrightarrow> wq \<noteq> NULL \<and> (case wqs s wq of None \<Rightarrow> False | Some w \<Rightarrow> wq_tasks w = [])"

text \<open>A read-write semaphore with \<open>n\<close> places taken by each holder: none when it is free, all when it is held for writing.\<close>

definition rw_state :: "bool \<Rightarrow> addr \<Rightarrow> dst \<Rightarrow> bool" where
  "rw_state held p s \<longleftrightarrow> (case dv_rw_sems (dev s) p of None \<Rightarrow> False | Some r \<Rightarrow>
     (case dv_mutexes (dev s) (rw_write r) of None \<Rightarrow> False | Some m \<Rightarrow> mx_mutex m = 0 \<and> idle_wq (mx_wq m) s)
     \<and> (case dv_sems (dev s) (rw_semaphore r) of None \<Rightarrow> False | Some m \<Rightarrow>
          sem_semaphore m = (if held then sem_max m else 0) \<and> sem_max m < two32 \<and> idle_wq (sem_wq m) s))"

abbreviation sem_free :: "addr \<Rightarrow> dst \<Rightarrow> bool" where "sem_free \<equiv> rw_state False"
abbreviation sem_held :: "addr \<Rightarrow> dst \<Rightarrow> bool" where "sem_held \<equiv> rw_state True"

text \<open>Two states that differ in mutexes and semaphores and the interrupt flag only.\<close>

definition same_files :: "dst \<Rightarrow> dst \<Rightarrow> bool" where
  "same_files s s' \<longleftrightarrow> t_heap s' = t_heap s \<and> fs_nodes (t_vfs s') = fs_nodes (t_vfs s) \<and> superblocks (t_vfs s') = superblocks (t_vfs s)
     \<and> dv_next (dev s') = dv_next (dev s) \<and> dv_dirs (dev s') = dv_dirs (dev s)"

lemma wake_idle: "idle_wq wq s \<Longrightarrow> wake_queue wq s = Some (s\<lparr>iflag := True\<rparr>)"
  by (auto simp: idle_wq_def wake_queue_def Let_def split: option.splits)

lemma idle_iflag [simp]: "idle_wq wq (s\<lparr>iflag := b\<rparr>) = idle_wq wq s"
  by (simp add: idle_wq_def)

lemma take_places_free:
  assumes "sems y p = Some m" "sem_semaphore m + n \<le> sem_max m" "sem_max m < two32"
  shows "take_places p n y = Some (y\<lparr>sems := (sems y)(p \<mapsto> m\<lparr>sem_semaphore := sem_semaphore m + n\<rparr>)\<rparr>)"
  using assms
proof (induction n arbitrary: m y)
  case 0
  then show ?case by (simp add: map_upd_triv)
next
  case (Suc n)
  have "add32 (sem_semaphore m) 1 = sem_semaphore m + 1" using Suc.prems by (simp add: add32_def)
  define m1 where "m1 = m\<lparr>sem_semaphore := sem_semaphore m + 1\<rparr>"
  define y1 where "y1 = y\<lparr>sems := (sems y)(p \<mapsto> m1)\<rparr>"
  have "take_places p n y1 = Some (y1\<lparr>sems := (sems y1)(p \<mapsto> m1\<lparr>sem_semaphore := sem_semaphore m1 + n\<rparr>)\<rparr>)"
    using Suc.prems by (intro Suc.IH) (simp_all add: y1_def m1_def)
  moreover have "semaphore_try p y = Some (True, y1)" using Suc.prems \<open>add32 _ _ = _\<close> by (simp add: semaphore_try_def put_sem_def y1_def m1_def)
  ultimately show ?case by (simp add: y1_def m1_def fun_upd_def cong: if_cong)
qed

lemma acquire_write_free:
  assumes "sem_free p s"
  shows "\<exists>s'. acquire_write p s = Some s' \<and> sem_held p s' \<and> same_files s s'"
proof -
  from assms obtain r m w where r: "dv_rw_sems (dev s) p = Some r" "dv_mutexes (dev s) (rw_write r) = Some w" "dv_sems (dev s) (rw_semaphore r) = Some m"
    and i: "mx_mutex w = 0" "idle_wq (mx_wq w) s" "sem_semaphore m = 0" "sem_max m < two32" "idle_wq (sem_wq m) s"
    by (auto simp: rw_state_def split: option.splits)
  define y where "y = (to_sync s)\<lparr>mutexes := (dv_mutexes (dev s))(rw_write r \<mapsto> w\<lparr>mx_mutex := 1\<rparr>)\<rparr>"
  define y' where "y' = y\<lparr>sems := (dv_sems (dev s))(rw_semaphore r \<mapsto> m\<lparr>sem_semaphore := sem_max m\<rparr>)\<rparr>"
  have "take_places (rw_semaphore r) (sem_max m) y = Some y'"
    using take_places_free [of y "rw_semaphore r" m "sem_max m"] r i by (simp add: y_def y'_def to_sync_def)
  moreover have "release_mutex (rw_write r) y' = Some (y'\<lparr>mutexes := dv_mutexes (dev s), sy_task := s\<lparr>iflag := True\<rparr>\<rparr>)"
    using r(2) i wake_idle [OF i(2)]
    by (simp add: release_mutex_def mutex_unlock_def y'_def y_def to_sync_def map_upd_triv)
  ultimately have "acquire_write p s = Some (of_sync (y'\<lparr>mutexes := dv_mutexes (dev s), sy_task := s\<lparr>iflag := True\<rparr>\<rparr>))"
    using r i by (simp add: acquire_write_def on_sync_def mutex_try_def y_def to_sync_def)
  then show ?thesis using r i
    by (simp add: rw_state_def same_files_def of_sync_def y'_def y_def to_sync_def upd_dev_def upd_vfs_def idle_wq_def)
qed

lemma release_write_held:
  assumes "sem_held p s"
  shows "\<exists>s'. release_write p s = Some s' \<and> sem_free p s' \<and> same_files s s'"
proof -
  from assms obtain r m w where r: "dv_rw_sems (dev s) p = Some r" "dv_mutexes (dev s) (rw_write r) = Some w" "dv_sems (dev s) (rw_semaphore r) = Some m"
    and i: "mx_mutex w = 0" "idle_wq (mx_wq w) s" "sem_semaphore m = sem_max m" "sem_max m < two32" "idle_wq (sem_wq m) s"
    by (auto simp: rw_state_def split: option.splits)
  have "sub32 (sem_max m) (sem_max m) = 0" using i(4) by (simp add: sub32_def)
  then show ?thesis using r i wake_idle [OF i(5)]
    by (simp add: release_write_def on_sync_def release_semaphore_write_def put_sem_def to_sync_def of_sync_def rw_state_def same_files_def
        upd_dev_def upd_vfs_def idle_wq_def)
qed

lemma rw_state_cong:
  "wqs s' = wqs s \<Longrightarrow> dv_rw_sems (dev s') = dv_rw_sems (dev s) \<Longrightarrow> dv_mutexes (dev s') = dv_mutexes (dev s) \<Longrightarrow> dv_sems (dev s') = dv_sems (dev s)
    \<Longrightarrow> rw_state h p s' = rw_state h p s"
  by (simp add: rw_state_def idle_wq_def cong: option.case_cong)


subsection \<open>Example\<close>

text \<open>A state of the device layer with a given heap, file nodes and devices, and nothing else.\<close>

definition empty_devices :: devstate where
  "empty_devices = \<lparr>dv_mutexes = Map.empty, dv_sems = Map.empty, dv_rw_sems = Map.empty, dv_next = Map.empty, dv_dirs = Map.empty,
     dv_chr = \<lparr>char_drivers = [], char_lock = False\<rparr>, blk_drivers = [], block_lock = False, dv_parts = Map.empty, dv_bios = Map.empty,
     dv_reqs = Map.empty, dv_bdevs = Map.empty, dv_mem = (\<lambda>_. 0)\<rparr>"

definition device_state :: "liballoc \<Rightarrow> (addr \<rightharpoonup> fs_node) \<Rightarrow> (addr \<rightharpoonup> superblock) \<Rightarrow> devstate \<Rightarrow> dst" where
  "device_state h nodes sbs d = \<lparr>t_heap = h, t_vfs = \<lparr>v_fs = d, fs_nodes = nodes, superblocks = sbs, mountpoints = Map.empty, mtree = Map.empty,
       mroot = NULL, vfs_lock = False, refcount_lock = False\<rparr>,
     tasks = Map.empty, tasklets = Map.empty, strs = Map.empty, tnodes = Map.empty, tree_root_node = NULL, processes = [], run_queue = [],
     wqs = Map.empty, current_task = NULL, kidle = NULL, stackw = (\<lambda>_. 0), tss_esp0 = 0, iflag = True, cpu = (0, 0, 0), tasklet_finish_eip = 0\<rparr>"

end
