(* ===== verification/Block.thy ===== *)
theory Block
  imports Drivers
begin

section \<open>Block devices and their requests (kernel/block.c)\<close>

text \<open>
  The drivers of block devices, the devices with their partitions, and the requests: a request collects pieces of memory
  (\<^verbatim>\<open>bio_t\<close>), is put into the queue of its device, is served by the driver, which reports the sectors it has transferred to
  \<^verbatim>\<open>end_request\<close>, and is waited for. The function \<^verbatim>\<open>handler\<close> of a device and what happens while a task waits for a
  request are arguments of the definitions that use them.
\<close>

unbundle bit_operations_syntax

subsection \<open>Access\<close>

definition put_req :: "addr \<Rightarrow> request \<Rightarrow> dst \<Rightarrow> dst" where
  "put_req p r s = upd_dev (\<lambda>d. d\<lparr>dv_reqs := (dv_reqs d)(p \<mapsto> r)\<rparr>) s"

definition put_bdev :: "addr \<Rightarrow> blkdev \<Rightarrow> dst \<Rightarrow> dst" where
  "put_bdev p b s = upd_dev (\<lambda>d. d\<lparr>dv_bdevs := (dv_bdevs d)(p \<mapsto> b)\<rparr>) s"

definition put_bio :: "addr \<Rightarrow> bio \<Rightarrow> dst \<Rightarrow> dst" where
  "put_bio p b s = upd_dev (\<lambda>d. d\<lparr>dv_bios := (dv_bios d)(p \<mapsto> b)\<rparr>) s"

definition put_part :: "addr \<Rightarrow> part \<Rightarrow> dst \<Rightarrow> dst" where
  "put_part p b s = upd_dev (\<lambda>d. d\<lparr>dv_parts := (dv_parts d)(p \<mapsto> b)\<rparr>) s"

definition put_driver :: "nat \<Rightarrow> blkdev_driver \<Rightarrow> dst \<Rightarrow> dst" where
  "put_driver i k s = upd_dev (\<lambda>d. d\<lparr>blk_drivers := (blk_drivers d)[i := k]\<rparr>) s"

text \<open>\<^verbatim>\<open>list_insert\<close> on a list of which \<open>q\<close> is the contents.\<close>

definition d_insert :: "addr \<Rightarrow> queue \<Rightarrow> dst \<Rightarrow> (addr \<times> queue \<times> dst) option" where
  "d_insert x q s = do {
     (n, q, h) \<leftarrow> queue_insert x q (t_heap s);
     Some (n, q, s\<lparr>t_heap := h\<rparr>)
   }"

text \<open>\<^verbatim>\<open>list_destroy\<close>: it releases the data of the nodes, the nodes and the list.\<close>

fun d_destroy_nodes :: "queue \<Rightarrow> dst \<Rightarrow> dst option" where
  "d_destroy_nodes [] s = Some s"
| "d_destroy_nodes ((n, x) # q) s = do {
     s \<leftarrow> (if x \<noteq> NULL then kfr x s else Some s);
     s \<leftarrow> kfr n s;
     d_destroy_nodes q (upd_dev (\<lambda>d. d\<lparr>dv_parts := (dv_parts d)(x := None), dv_bios := (dv_bios d)(x := None), dv_reqs := (dv_reqs d)(x := None)\<rparr>) s)
   }"

definition d_destroy :: "addr \<Rightarrow> queue \<Rightarrow> dst \<Rightarrow> dst option" where
  "d_destroy l q s = (if l = NULL then Some s else do { s \<leftarrow> d_destroy_nodes q s; kfr l s })"

subsection \<open>Drivers\<close>

definition init_blockdev :: "dst \<Rightarrow> dst" where
  "init_blockdev s = upd_dev (\<lambda>d. d\<lparr>blk_drivers := replicate 256 \<lparr>kd_name = DEFAULT_NAME, kd_ops = no_ops, kd_devs_list = NULL, kd_devs = []\<rparr>\<rparr>) s"

text \<open>The index of the driver in the table.\<close>

definition get_blkdev_driver :: "nat \<Rightarrow> dst \<Rightarrow> nat option option" where
  "get_blkdev_driver major s =
    (if major = 0 \<or> major > 256 then Some None
     else do {
       free \<leftarrow> is_default (kd_name (blk_drivers (dev s) ! (major - 1)));
       Some (if free then None else Some (major - 1))
     })"

function free_blk_major :: "nat \<Rightarrow> blkdev_driver list \<Rightarrow> nat option option" where
  "free_blk_major major ks = do {
     free \<leftarrow> is_default (kd_name (ks ! (major - 1)));
     if free then Some (Some major)
     else if major \<ge> 256 then Some None
     else free_blk_major (major + 1) ks
   }"
  by pat_completeness auto
termination by (relation "measure (\<lambda>(major, ks). 256 - major)") auto

declare free_blk_major.simps [simp del]

definition register_blkdev :: "nat \<Rightarrow> bytes \<Rightarrow> nat \<Rightarrow> dst \<Rightarrow> (int \<times> dst) option" where
  "register_blkdev major nm fops s = do {
     ASSERT (\<not> block_lock (dev s));
     let s = upd_dev (\<lambda>d. d\<lparr>block_lock := True\<rparr>) s;
     found \<leftarrow> (if major = 0 then free_blk_major 1 (blk_drivers (dev s)) else Some (Some major));
     case found of
       None \<Rightarrow> Some (- 1, s)
     | Some m \<Rightarrow> do {
         ASSERT (m \<le> length (blk_drivers (dev s)));
         (l, s) \<leftarrow> kma sizeof_list_t s;
         let k = (blk_drivers (dev s) ! (m - 1))\<lparr>kd_devs_list := l, kd_devs := []\<rparr>;
         let s = put_driver (m - 1) k s;
         if l = NULL then Some (- 1, upd_dev (\<lambda>d. d\<lparr>block_lock := False\<rparr>) s)
         else do {
           let s = put_driver (m - 1) (k\<lparr>kd_name := nm, kd_ops := fops\<rparr>) s;
           Some (int m, upd_dev (\<lambda>d. d\<lparr>block_lock := False\<rparr>) s)
         }
       }
   }"

subsection \<open>Devices\<close>

text \<open>The device of the list at which the loop stops, or the last one.\<close>

fun find_bdev :: "nat \<Rightarrow> queue \<Rightarrow> addr \<Rightarrow> dst \<Rightarrow> addr option" where
  "find_bdev minor [] found s = Some found"
| "find_bdev minor ((n, p) # q) found s = do {
     b \<leftarrow> dv_bdevs (dev s) p;
     if minor < add32 (bd_minor b) (bd_max_part b) then Some p else find_bdev minor q p s
   }"

fun has_part :: "nat \<Rightarrow> queue \<Rightarrow> dst \<Rightarrow> bool option" where
  "has_part minor [] s = Some False"
| "has_part minor ((n, p) # q) s = do {
     pt \<leftarrow> dv_parts (dev s) p;
     if pt_minor pt = minor then Some True else has_part minor q s
   }"

definition get_blkdev :: "nat \<Rightarrow> dst \<Rightarrow> addr option" where
  "get_blkdev d s = do {
     k \<leftarrow> get_blkdev_driver (MAJOR d) s;
     case k of
       None \<Rightarrow> Some NULL
     | Some i \<Rightarrow> do {
         ASSERT (kd_devs_list (blk_drivers (dev s) ! i) \<noteq> NULL);
         p \<leftarrow> find_bdev (MINOR d) (kd_devs (blk_drivers (dev s) ! i)) NULL s;
         if p = NULL then Some NULL
         else do {
           b \<leftarrow> dv_bdevs (dev s) p;
           ok \<leftarrow> has_part (MINOR d) (bd_parts b) s;
           Some (if ok then p else NULL)
         }
       }
   }"

definition get_block_size :: "nat \<Rightarrow> dst \<Rightarrow> nat option" where
  "get_block_size d s = do {
     p \<leftarrow> get_blkdev d s;
     if p = NULL then Some 0 else do { b \<leftarrow> dv_bdevs (dev s) p; Some (bd_sector_size b) }
   }"

definition alloc_blkdev :: "dst \<Rightarrow> (addr \<times> dst) option" where
  "alloc_blkdev s = do {
     (p, s) \<leftarrow> kma sizeof_blkdev_t s;
     if p = NULL then Some (NULL, s)
     else do {
       (q, s) \<leftarrow> kma sizeof_list_t s;
       if q = NULL then do { s \<leftarrow> kfr p s; Some (NULL, s) }
       else do {
         (l, s) \<leftarrow> kma sizeof_list_t s;
         if l = NULL then do { s \<leftarrow> d_destroy q [] s; s \<leftarrow> kfr p s; Some (NULL, s) }
         else do {
           (m, s) \<leftarrow> on_sync_ret (create_mutex 0) s;
           if m = NULL then do { s \<leftarrow> d_destroy l [] s; s \<leftarrow> d_destroy q [] s; s \<leftarrow> kfr p s; Some (NULL, s) }
           else Some (p, put_bdev p \<lparr>bd_major = 0, bd_minor = 0, bd_max_part = 0, bd_parts_list = l, bd_parts = [], bd_sector_size = 0,
                  bd_size = 0, bd_mutex = m, bd_handler = 0, bd_queue_list = q, bd_queue = [], bd_private = NULL\<rparr> s)
         }
       }
     }
   }"

definition free_blkdev :: "addr \<Rightarrow> dst \<Rightarrow> dst option" where
  "free_blkdev p s = do {
     b \<leftarrow> dv_bdevs (dev s) p;
     s \<leftarrow> d_destroy (bd_parts_list b) (bd_parts b) s;
     s \<leftarrow> d_destroy (bd_queue_list b) (bd_queue b) s;
     s \<leftarrow> on_sync (destroy_mutex (bd_mutex b)) s;
     s \<leftarrow> kfr p s;
     Some (upd_dev (\<lambda>d. d\<lparr>dv_bdevs := (dv_bdevs d)(p := None)\<rparr>) s)
   }"

text \<open>The loop of \<^verbatim>\<open>add_blkdev\<close>: an overlap, or the node to insert before.\<close>

fun bdev_place :: "blkdev \<Rightarrow> queue \<Rightarrow> dst \<Rightarrow> (unit + addr) option" where
  "bdev_place b [] s = Some (Inr NULL)"
| "bdev_place b ((n, p) # q) s = do {
     ob \<leftarrow> dv_bdevs (dev s) p;
     let e = add32 (bd_minor b) (bd_max_part b);
     let oe = add32 (bd_minor ob) (bd_max_part ob);
     if bd_minor b > bd_minor ob \<and> bd_minor b < oe then Some (Inl ())
     else if e > bd_minor ob \<and> e < oe then Some (Inl ())
     else if bd_minor ob > bd_minor b then Some (Inr n)
     else bdev_place b q s
   }"

definition add_blkdev :: "addr \<Rightarrow> dst \<Rightarrow> (int \<times> dst) option" where
  "add_blkdev p s = do {
     b \<leftarrow> dv_bdevs (dev s) p;
     k \<leftarrow> get_blkdev_driver (bd_major b) s;
     case k of
       None \<Rightarrow> Some (- ESRCH, s)
     | Some i \<Rightarrow> do {
         let dr = blk_drivers (dev s) ! i;
         ASSERT (kd_devs_list dr \<noteq> NULL);
         pl \<leftarrow> bdev_place b (kd_devs dr) s;
         case pl of
           Inl _ \<Rightarrow> Some (- EEXIST, s)
         | Inr node \<Rightarrow> do {
             (n, q, h) \<leftarrow> (if node \<noteq> NULL then queue_insert_before node p (kd_devs dr) (t_heap s) else queue_insert p (kd_devs dr) (t_heap s));
             let s = put_driver i (dr\<lparr>kd_devs := q\<rparr>) (s\<lparr>t_heap := h\<rparr>);
             Some (if n = NULL then - ENOMEM else 0, s)
           }
       }
   }"


subsection \<open>Requests\<close>

definition new_request :: "32 word \<Rightarrow> nat \<Rightarrow> addr \<Rightarrow> addr \<Rightarrow> addr \<Rightarrow> request" where
  "new_request flags first p l wq = \<lparr>rq_flags = flags, rq_first = first, rq_nsectors = 0, rq_status = BLOCK_REQ_UNSCHED, rq_rc = 0,
     rq_dev = p, rq_bios_list = l, rq_bios = [], rq_wq = wq\<rparr>"

text \<open>The request structure with its list and its wait queue; the null pointer when there is no memory.\<close>

definition make_request :: "32 word \<Rightarrow> nat \<Rightarrow> addr \<Rightarrow> dst \<Rightarrow> (addr \<times> dst) option" where
  "make_request flags first p s = do {
     (r, s) \<leftarrow> kma sizeof_request_t s;
     if r = NULL then Some (NULL, s)
     else do {
       (l, s) \<leftarrow> kma sizeof_list_t s;
       if l = NULL then do { s \<leftarrow> kfr r s; Some (NULL, s) }
       else do {
         (wq, s) \<leftarrow> create_waitqueue s;
         if wq = NULL then do { s \<leftarrow> kfr l s; s \<leftarrow> kfr r s; Some (NULL, s) }
         else Some (r, put_req r (new_request flags first p l wq) s)
       }
     }
   }"

fun find_part :: "nat \<Rightarrow> queue \<Rightarrow> addr \<Rightarrow> dst \<Rightarrow> addr option" where
  "find_part minor [] found s = Some found"
| "find_part minor ((n, p) # q) found s = do {
     pt \<leftarrow> dv_parts (dev s) p;
     if pt_minor pt = minor then Some p else find_part minor q p s
   }"

definition create_request_blkdev :: "nat \<Rightarrow> nat \<Rightarrow> 32 word \<Rightarrow> dst \<Rightarrow> (addr \<times> dst) option" where
  "create_request_blkdev d first flags s = do {
     p \<leftarrow> get_blkdev d s;
     if p = NULL then Some (NULL, s)
     else do {
       b \<leftarrow> dv_bdevs (dev s) p;
       ptp \<leftarrow> find_part (MINOR d) (bd_parts b) NULL s;
       pt \<leftarrow> dv_parts (dev s) ptp;
       if first > pt_size pt then Some (NULL, s)
       else make_request flags (add32 first (pt_offset pt)) p s
     }
   }"

definition add_bio_to_request_blkdev :: "addr \<Rightarrow> addr \<Rightarrow> dst \<Rightarrow> (int \<times> dst) option" where
  "add_bio_to_request_blkdev r bp s = do {
     rq \<leftarrow> dv_reqs (dev s) r;
     ASSERT (rq_status rq = BLOCK_REQ_UNSCHED);
     (n, q, s) \<leftarrow> d_insert bp (rq_bios rq) s;
     if n = NULL then Some (- ENOMEM, s)
     else do {
       b \<leftarrow> dv_bios (dev s) bp;
       Some (0, put_req r (rq\<lparr>rq_bios := q, rq_nsectors := add32 (rq_nsectors rq) (bio_nsectors b)\<rparr>) s)
     }
   }"

definition post_request_blkdev :: "(nat \<Rightarrow> addr \<Rightarrow> dst \<Rightarrow> (int \<times> dst) option) \<Rightarrow> addr \<Rightarrow> dst \<Rightarrow> (int \<times> dst) option" where
  "post_request_blkdev handler r s = do {
     rq \<leftarrow> dv_reqs (dev s) r;
     ASSERT (rq_status rq = BLOCK_REQ_UNSCHED);
     b \<leftarrow> dv_bdevs (dev s) (rq_dev rq);
     s \<leftarrow> acquire_mutex (bd_mutex b) s;
     let s = put_req r (rq\<lparr>rq_status := BLOCK_REQ_PENDING\<rparr>) s;
     (n, q, s) \<leftarrow> d_insert r (bd_queue b) s;
     let s = put_bdev (rq_dev rq) (b\<lparr>bd_queue := q\<rparr>) s;
     s \<leftarrow> on_sync (release_mutex (bd_mutex b)) s;
     if n = NULL then Some (- ENOMEM, s) else handler (bd_handler b) (rq_dev rq) s
   }"

text \<open>
  One round of the loop of \<^verbatim>\<open>wait_request_blkdev\<close>: the result, or that the task has gone to sleep. \<open>woken\<close> says that it has slept
  before.
\<close>

definition wait_round :: "addr \<Rightarrow> bool \<Rightarrow> nat \<times> nat \<times> nat \<Rightarrow> dst \<Rightarrow> (int option \<times> dst) option" where
  "wait_round r wkn regs s = do {
     rq \<leftarrow> dv_reqs (dev s) r;
     if wkn \<and> interrupted s then Some (Some (- EINTR), put_req r (rq\<lparr>rq_status := BLOCK_REQ_INTR\<rparr>) s)
     else if rq_status rq = BLOCK_REQ_FINISHED then Some (Some (rq_rc rq), s)
     else do { s \<leftarrow> sleep_thread (rq_wq rq) SLEEP_INTERRUPTABLE regs s; Some (None, s) }
   }"

text \<open>\<open>wait\<close> is what \<^verbatim>\<open>wait_request_blkdev\<close> does and returns, with all that other tasks do in the meantime.\<close>

definition post_and_wait_blkdev :: "(nat \<Rightarrow> addr \<Rightarrow> dst \<Rightarrow> (int \<times> dst) option) \<Rightarrow> (addr \<Rightarrow> dst \<Rightarrow> (int \<times> dst) option)
    \<Rightarrow> addr \<Rightarrow> dst \<Rightarrow> (int \<times> dst) option" where
  "post_and_wait_blkdev handler wait r s = do {
     (ret, s) \<leftarrow> post_request_blkdev handler r s;
     if ret < 0 then Some (ret, s) else wait r s
   }"

text \<open>The pieces at the head of the list that \<open>n\<close> sectors cover are removed; the first that is not covered is shortened.\<close>

fun end_bios :: "nat \<Rightarrow> queue \<Rightarrow> nat \<Rightarrow> dst \<Rightarrow> (queue \<times> dst) option" where
  "end_bios ss [] n s = do { ASSERT (n = 0); Some ([], s) }"
| "end_bios ss ((nd, bp) # q) n s = do {
     b \<leftarrow> dv_bios (dev s) bp;
     if bio_nsectors b \<le> n then do {
       s \<leftarrow> kfr bp s;
       s \<leftarrow> kfr nd s;
       end_bios ss q (n - bio_nsectors b) (upd_dev (\<lambda>d. d\<lparr>dv_bios := (dv_bios d)(bp := None)\<rparr>) s)
     } else
       Some ((nd, bp) # q, put_bio bp (b\<lparr>bio_offset := add32 (bio_offset b) (n * ss), bio_nsectors := bio_nsectors b - n\<rparr>) s)
   }"

definition end_request :: "addr \<Rightarrow> int \<Rightarrow> nat \<Rightarrow> dst \<Rightarrow> (int \<times> dst) option" where
  "end_request r error n s = do {
     rq \<leftarrow> dv_reqs (dev s) r;
     let n = (if error < 0 then rq_nsectors rq else n);
     let rq = rq\<lparr>rq_nsectors := sub32 (rq_nsectors rq) n, rq_first := add32 (rq_first rq) n\<rparr>;
     b \<leftarrow> dv_bdevs (dev s) (rq_dev rq);
     (q, s) \<leftarrow> end_bios (bd_sector_size b) (rq_bios rq) n (put_req r rq s);
     let rq = rq\<lparr>rq_bios := q\<rparr>;
     let s = put_req r rq s;
     if rq_status rq = BLOCK_REQ_INTR then do { s \<leftarrow> wake_queue (rq_wq rq) s; Some (0, s) }
     else if rq_nsectors rq = 0 then do {
       s \<leftarrow> wake_queue (rq_wq rq) (put_req r (rq\<lparr>rq_status := BLOCK_REQ_FINISHED\<rparr>) s);
       Some (0, s)
     } else Some (1, s)
   }"

definition free_request :: "addr \<Rightarrow> dst \<Rightarrow> dst option" where
  "free_request r s =
    (if r = NULL then Some s
     else do {
       rq \<leftarrow> dv_reqs (dev s) r;
       ASSERT (rq_status rq = BLOCK_REQ_UNSCHED \<or> rq_status rq = BLOCK_REQ_INTR \<or> rq_status rq = BLOCK_REQ_FINISHED);
       s \<leftarrow> destroy_waitqueue (rq_wq rq) s;
       s \<leftarrow> d_destroy (rq_bios_list rq) (rq_bios rq) s;
       s \<leftarrow> kfr r s;
       Some (upd_dev (\<lambda>d. d\<lparr>dv_reqs := (dv_reqs d)(r := None)\<rparr>) s)
     })"

text \<open>The loop of \<^verbatim>\<open>next_ready_request_blkdev\<close>, which runs with the mutex of the device held.\<close>

partial_function (option) ready_loop :: "addr \<Rightarrow> dst \<Rightarrow> (addr \<times> dst) option" where
  "ready_loop p s = do {
     b \<leftarrow> dv_bdevs (dev s) p;
     case bd_queue b of
       [] \<Rightarrow> Some (NULL, s)
     | (n, r) # q \<Rightarrow> do {
         rq \<leftarrow> dv_reqs (dev s) r;
         if rq_status rq = BLOCK_REQ_INTR then do {
           s \<leftarrow> kfr n (put_bdev p (b\<lparr>bd_queue := q\<rparr>) s);
           s \<leftarrow> wake_queue (rq_wq rq) s;
           ready_loop p s
         } else if rq_status rq = BLOCK_REQ_PENDING then
           Some (n, put_req r (rq\<lparr>rq_status := BLOCK_REQ_RUNNING\<rparr>) s)
         else ready_loop p s
       }
   }"

definition next_ready_request_blkdev :: "addr \<Rightarrow> dst \<Rightarrow> (addr \<times> dst) option" where
  "next_ready_request_blkdev p s = do {
     b \<leftarrow> dv_bdevs (dev s) p;
     s \<leftarrow> acquire_mutex (bd_mutex b) s;
     (n, s) \<leftarrow> ready_loop p s;
     s \<leftarrow> on_sync (release_mutex (bd_mutex b)) s;
     Some (n, s)
   }"


subsection \<open>Partition tables\<close>

definition mem32 :: "addr \<Rightarrow> dst \<Rightarrow> nat" where
  "mem32 a s = unat (dv_mem (dev s) a) + 256 * unat (dv_mem (dev s) (a + 1)) + 65536 * unat (dv_mem (dev s) (a + 2))
     + 16777216 * unat (dv_mem (dev s) (a + 3))"

text \<open>
  The loop behind the label \<^verbatim>\<open>fail\<close> goes on from a node that \<^verbatim>\<open>list_remove\<close> has released, so it returns only if there is no
  partition.
\<close>

definition auto_fail :: "addr \<Rightarrow> int \<Rightarrow> dst \<Rightarrow> (int \<times> dst) option" where
  "auto_fail p ret s = do {
     b \<leftarrow> dv_bdevs (dev s) p;
     ASSERT (bd_parts b = []);
     Some (ret, s)
   }"

definition add_part :: "addr \<Rightarrow> part \<Rightarrow> dst \<Rightarrow> (int \<times> dst) option" where
  "add_part p pt s = do {
     (x, s) \<leftarrow> kma sizeof_part s;
     if x = NULL then Some (- ENOMEM, s)
     else do {
       let s = put_part x pt s;
       b \<leftarrow> dv_bdevs (dev s) p;
       (n, q, s) \<leftarrow> d_insert x (bd_parts b) s;
       if n = NULL then do { s \<leftarrow> kfr x s; Some (- ENOMEM, s) }
       else Some (0, put_bdev p (b\<lparr>bd_parts := q\<rparr>) s)
     }
   }"

text \<open>The four entries of the table at \<open>mbr\<close>, 16 bytes each from byte 446 on.\<close>

fun scan_parts :: "addr \<Rightarrow> addr \<Rightarrow> nat list \<Rightarrow> dst \<Rightarrow> (int \<times> dst) option" where
  "scan_parts p mbr [] s = Some (0, s)"
| "scan_parts p mbr (i # is) s = do {
     b \<leftarrow> dv_bdevs (dev s) p;
     let e = mbr + 446 + 16 * i;
     if dv_mem (dev s) (e + 4) \<noteq> 0 then do {
       (ret, s) \<leftarrow> add_part p \<lparr>pt_minor = add32 (bd_minor b) (i + 1), pt_offset = mem32 (e + 8) s, pt_size = mem32 (e + 12) s\<rparr> s;
       if ret < 0 then do { s \<leftarrow> kfr mbr s; auto_fail p ret s } else scan_parts p mbr is s
     } else scan_parts p mbr is s
   }"

definition read_mbr :: "(nat \<Rightarrow> addr \<Rightarrow> dst \<Rightarrow> (int \<times> dst) option) \<Rightarrow> (addr \<Rightarrow> dst \<Rightarrow> (int \<times> dst) option)
    \<Rightarrow> addr \<Rightarrow> addr \<Rightarrow> nat \<Rightarrow> dst \<Rightarrow> (int \<times> dst) option" where
  "read_mbr handler wait p mbr n s = do {
     (r, s) \<leftarrow> make_request 0 0 p s;
     if r = NULL then do { s \<leftarrow> kfr mbr s; Some (- ENOMEM, s) }
     else do {
       (bp, s) \<leftarrow> kma sizeof_bio_t s;
       if bp = NULL then do { s \<leftarrow> kfr mbr s; s \<leftarrow> free_request r s; Some (- ENOMEM, s) }
       else do {
         ph \<leftarrow> resolve_physical mbr (t_heap s);
         let s = put_bio bp \<lparr>bio_page = ph div PAGE_SIZE * PAGE_SIZE, bio_offset = ph mod PAGE_SIZE, bio_nsectors = n\<rparr> s;
         (ret, s) \<leftarrow> add_bio_to_request_blkdev r bp s;
         if ret < 0 then do { s \<leftarrow> kfr mbr s; s \<leftarrow> free_request r s; s \<leftarrow> kfr bp s; Some (ret, s) }
         else do {
           (ret, s) \<leftarrow> post_and_wait_blkdev handler wait r s;
           s \<leftarrow> free_request r s;
           s \<leftarrow> (if ret < 0 then kfr mbr s else Some s);
           Some (ret, s)
         }
       }
     }
   }"

definition autopopulate_blkdev :: "(nat \<Rightarrow> addr \<Rightarrow> dst \<Rightarrow> (int \<times> dst) option) \<Rightarrow> (addr \<Rightarrow> dst \<Rightarrow> (int \<times> dst) option)
    \<Rightarrow> addr \<Rightarrow> dst \<Rightarrow> (int \<times> dst) option" where
  "autopopulate_blkdev handler wait p s = do {
     b \<leftarrow> dv_bdevs (dev s) p;
     ASSERT (bd_parts b = []);
     (ret, s) \<leftarrow> add_part p \<lparr>pt_minor = bd_minor b, pt_offset = 0, pt_size = bd_size b\<rparr> s;
     if ret < 0 then Some (ret, s)
     else do {
       ASSERT (bd_sector_size b \<noteq> 0);
       let n = (sizeof_mbr div bd_sector_size b + (if sizeof_mbr mod bd_sector_size b \<noteq> 0 then 1 else 0));
       (mbr, s) \<leftarrow> kma (n * bd_sector_size b) s;
       if mbr = NULL then auto_fail p (- ENOMEM) s
       else do {
         (ret, s) \<leftarrow> read_mbr handler wait p mbr n s;
         if ret < 0 then auto_fail p ret s
         else if dv_mem (dev s) (mbr + 510) \<noteq> 0x55 \<or> dv_mem (dev s) (mbr + 511) \<noteq> 0xAA then do { s \<leftarrow> kfr mbr s; Some (0, s) }
         else scan_parts p mbr [0, 1, 2, 3] s
       }
     }
   }"

subsection \<open>Frame\<close>

text \<open>What the operations on tasks and lists leave alone.\<close>

lemma wake_all_vfs: "wake_all wq q s = Some s' \<Longrightarrow> t_vfs s' = t_vfs s"
proof (induction wq q s rule: wake_all.induct)
  case (2 wq n t q s)
  then obtain s1 where s1: "wake_one wq n t s = Some s1" "wake_all wq q s1 = Some s'" by (auto split: bind_splits)
  have "t_vfs s1 = t_vfs s" using s1(1)
    by (auto simp: wake_one_def kfr_def upd_task_def run_queue_insert_def split: bind_splits if_splits option.splits)
  with 2 s1 show ?case by simp
qed simp

lemma task_frame [simp]:
  "kfr p s = Some s' \<Longrightarrow> t_vfs s' = t_vfs s" "kma n s = Some (p, s') \<Longrightarrow> t_vfs s' = t_vfs s"
  "wake_queue wq s = Some s' \<Longrightarrow> t_vfs s' = t_vfs s"
  by (auto simp: kfr_def kma_def wake_queue_def Let_def dest: wake_all_vfs split: bind_splits if_splits)

lemma dev_upd [simp]: "dev (upd_dev f s) = f (dev s)" "dev (s\<lparr>t_heap := h\<rparr>) = dev s"
  by (simp_all add: upd_dev_def upd_vfs_def)

lemma put_dev [simp]:
  "dev (put_req r rq s) = (dev s)\<lparr>dv_reqs := (dv_reqs (dev s))(r \<mapsto> rq)\<rparr>"
  "dev (put_bdev p b s) = (dev s)\<lparr>dv_bdevs := (dv_bdevs (dev s))(p \<mapsto> b)\<rparr>"
  "dev (put_bio bp bi s) = (dev s)\<lparr>dv_bios := (dv_bios (dev s))(bp \<mapsto> bi)\<rparr>"
  by (simp_all add: put_req_def put_bdev_def put_bio_def)


lemma mutex_try_task: "mutex_try p y = Some (got, y') \<Longrightarrow> sy_task y' = sy_task y"
  by (auto simp: mutex_try_def split: bind_splits)

lemma of_sync_dev [simp]: "dev (of_sync y) = (v_fs (t_vfs (sy_task y)))\<lparr>dv_mutexes := mutexes y, dv_sems := sems y, dv_rw_sems := rw_sems y\<rparr>"
  by (simp add: of_sync_def)

lemma acquire_mutex_dev:
  assumes "acquire_mutex p s = Some s'"
  shows "dv_bdevs (dev s') = dv_bdevs (dev s)" "dv_reqs (dev s') = dv_reqs (dev s)" "dv_bios (dev s') = dv_bios (dev s)"
proof -
  from assms obtain got y where y: "mutex_try p (to_sync s) = Some (got, y)" "s' = of_sync y"
    by (auto simp: acquire_mutex_def on_sync_ret_def split: bind_splits if_splits)
  have "sy_task y = s" using mutex_try_task [OF y(1)] by (simp add: to_sync_def)
  with y(2) show "dv_bdevs (dev s') = dv_bdevs (dev s)" "dv_reqs (dev s') = dv_reqs (dev s)" "dv_bios (dev s') = dv_bios (dev s)" by simp_all
qed

subsection \<open>What is left of a request\<close>

text \<open>The addresses of the sectors that a list of pieces stands for, in their order.\<close>

definition bio_sectors :: "nat \<Rightarrow> bio \<Rightarrow> nat list" where
  "bio_sectors ss b = map (\<lambda>i. bio_page b + bio_offset b + i * ss) [0..<bio_nsectors b]"

definition bio_at :: "addr \<Rightarrow> dst \<Rightarrow> bio" where
  "bio_at p s = the (dv_bios (dev s) p)"

definition sectors :: "nat \<Rightarrow> queue \<Rightarrow> dst \<Rightarrow> nat list" where
  "sectors ss q s = concat (map (\<lambda>(n, p). bio_sectors ss (bio_at p s)) q)"

definition bios_ok :: "nat \<Rightarrow> queue \<Rightarrow> dst \<Rightarrow> bool" where
  "bios_ok ss q s \<longleftrightarrow> distinct (map snd q)
     \<and> (\<forall>p \<in> snd ` set q. \<exists>b. dv_bios (dev s) p = Some b \<and> bio_offset b + bio_nsectors b * ss < two32)"

lemma length_bio_sectors [simp]: "length (bio_sectors ss b) = bio_nsectors b"
  by (simp add: bio_sectors_def)

lemma drop_bio_sectors:
  "n \<le> bio_nsectors b \<Longrightarrow> drop n (bio_sectors ss b) = bio_sectors ss (b\<lparr>bio_offset := bio_offset b + n * ss, bio_nsectors := bio_nsectors b - n\<rparr>)"
  by (rule nth_equalityI) (simp_all add: bio_sectors_def add_mult_distrib less_diff_conv)

lemma sectors_cong: "(\<And>n p. (n, p) \<in> set q \<Longrightarrow> dv_bios (dev s') p = dv_bios (dev s) p) \<Longrightarrow> sectors ss q s' = sectors ss q s"
  unfolding sectors_def bio_at_def by (rule arg_cong [where f = concat]) (auto intro!: map_cong)

lemma end_bios_sectors:
  assumes "end_bios ss q n s = Some (q', s')" "bios_ok ss q s"
  shows "sectors ss q' s' = drop n (sectors ss q s) \<and> bios_ok ss q' s' \<and> n \<le> length (sectors ss q s)
    \<and> dv_reqs (dev s') = dv_reqs (dev s) \<and> dv_bdevs (dev s') = dv_bdevs (dev s)"
  using assms
proof (induction ss q n s rule: end_bios.induct)
  case (1 ss n s)
  then show ?case by (auto simp: sectors_def split: if_splits)
next
  case (2 ss nd bp q n s)
  from "2.prems"(2) obtain b where b: "dv_bios (dev s) bp = Some b" "bio_offset b + bio_nsectors b * ss < two32"
    by (auto simp: bios_ok_def)
  have bs: "sectors ss ((nd, bp) # q) s = bio_sectors ss b @ sectors ss q s" using b(1) by (simp add: sectors_def bio_at_def)
  show ?case
  proof (cases "bio_nsectors b \<le> n")
    case True
    with "2.prems"(1) b(1) obtain s1 s2 where s12: "kfr bp s = Some s1" "kfr nd s1 = Some s2"
      "end_bios ss q (n - bio_nsectors b) (upd_dev (\<lambda>d. d\<lparr>dv_bios := (dv_bios d)(bp := None)\<rparr>) s2) = Some (q', s')"
      by (auto split: bind_splits)
    let ?s = "upd_dev (\<lambda>d. d\<lparr>dv_bios := (dv_bios d)(bp := None)\<rparr>) s2"
    have d: "dev ?s = (dev s)\<lparr>dv_bios := (dv_bios (dev s))(bp := None)\<rparr>" using s12 by simp
    have ne: "bp \<noteq> x" if "(m, x) \<in> set q" for m x using "2.prems"(2) that by (force simp: bios_ok_def)
    then have "sectors ss q ?s = sectors ss q s" using d by (intro sectors_cong) auto
    moreover have "bios_ok ss q ?s" using "2.prems"(2) ne d by (force simp: bios_ok_def)
    moreover have "dev s2 = dev s" using s12 by simp
    ultimately show ?thesis
      using "2.IH" [OF b(1) True s12] bs True by simp linarith
  next
    case False
    let ?b = "b\<lparr>bio_offset := add32 (bio_offset b) (n * ss), bio_nsectors := bio_nsectors b - n\<rparr>"
    have q': "q' = (nd, bp) # q" "s' = put_bio bp ?b s" using "2.prems"(1) b(1) False by simp_all
    have "n * ss \<le> bio_nsectors b * ss" using False by (intro mult_right_mono) simp_all
    then have o: "add32 (bio_offset b) (n * ss) = bio_offset b + n * ss" using b(2) by (intro add32_small) linarith
    have ne: "bp \<noteq> x" if "(m, x) \<in> set q" for m x using "2.prems"(2) that by (force simp: bios_ok_def)
    then have "sectors ss q s' = sectors ss q s" using q' by (intro sectors_cong) auto
    then have "sectors ss q' s' = drop n (bio_sectors ss b) @ sectors ss q s"
      using q' False o by (simp add: sectors_def bio_at_def drop_bio_sectors)
    moreover have "bio_offset ?b + bio_nsectors ?b * ss < two32" using o False b(2) by (simp add: diff_mult_distrib)
    then have "bios_ok ss q' s'" using "2.prems"(2) q' by (auto simp: bios_ok_def)
    ultimately show ?thesis using bs q' False by simp
  qed
qed


lemma sum_sectors: "length (sectors ss q s) = sum_list (map (\<lambda>(n, p). bio_nsectors (bio_at p s)) q)"
  by (simp add: sectors_def length_concat comp_def case_prod_beta')

text \<open>A request whose sector count is that of its pieces.\<close>

definition req_ok :: "addr \<Rightarrow> dst \<Rightarrow> bool" where
  "req_ok r s \<longleftrightarrow> (\<exists>rq b. dv_reqs (dev s) r = Some rq \<and> dv_bdevs (dev s) (rq_dev rq) = Some b
     \<and> bios_ok (bd_sector_size b) (rq_bios rq) s \<and> rq_nsectors rq = length (sectors (bd_sector_size b) (rq_bios rq) s)
     \<and> rq_nsectors rq < two32)"

definition todo :: "addr \<Rightarrow> dst \<Rightarrow> nat list" where
  "todo r s = (case dv_reqs (dev s) r of None \<Rightarrow> [] | Some rq \<Rightarrow>
     (case dv_bdevs (dev s) (rq_dev rq) of None \<Rightarrow> [] | Some b \<Rightarrow> sectors (bd_sector_size b) (rq_bios rq) s))"

lemma end_request_parts:
  assumes "end_request r err n s = Some (c, s')" "0 \<le> err" "req_ok r s"
  shows "\<exists>rq rq' b q'. dv_reqs (dev s) r = Some rq \<and> dv_bdevs (dev s) (rq_dev rq) = Some b
    \<and> dv_bdevs (dev s') = dv_bdevs (dev s) \<and> dv_reqs (dev s') = (dv_reqs (dev s))(r \<mapsto> rq')
    \<and> rq' = rq\<lparr>rq_nsectors := rq_nsectors rq - n, rq_first := add32 (rq_first rq) n, rq_bios := q', rq_status := rq_status rq'\<rparr>
    \<and> bios_ok (bd_sector_size b) q' s' \<and> sectors (bd_sector_size b) q' s' = drop n (sectors (bd_sector_size b) (rq_bios rq) s)
    \<and> n \<le> rq_nsectors rq
    \<and> (if rq_status rq = BLOCK_REQ_INTR then c = 0 \<and> rq_status rq' = rq_status rq
       else if rq_nsectors rq' = 0 then c = 0 \<and> rq_status rq' = BLOCK_REQ_FINISHED
       else c = 1 \<and> rq_status rq' = rq_status rq)"
proof -
  from assms(3) obtain rq b where rq: "dv_reqs (dev s) r = Some rq" "dv_bdevs (dev s) (rq_dev rq) = Some b"
    "bios_ok (bd_sector_size b) (rq_bios rq) s" "rq_nsectors rq = length (sectors (bd_sector_size b) (rq_bios rq) s)" "rq_nsectors rq < two32"
    by (auto simp: req_ok_def)
  define rq1 where "rq1 = rq\<lparr>rq_nsectors := sub32 (rq_nsectors rq) n, rq_first := add32 (rq_first rq) n\<rparr>"
  from assms(1,2) rq(1,2) obtain q' s1 where
    e: "end_bios (bd_sector_size b) (rq_bios rq) n (put_req r rq1 s) = Some (q', s1)"
    and t: "(if rq_status rq = BLOCK_REQ_INTR then map_option (\<lambda>s. (0, s)) (wake_queue (rq_wq rq) (put_req r (rq1\<lparr>rq_bios := q'\<rparr>) s1))
      else if rq_nsectors rq1 = 0 then map_option (\<lambda>s. (0, s)) (wake_queue (rq_wq rq) (put_req r (rq1\<lparr>rq_bios := q', rq_status := BLOCK_REQ_FINISHED\<rparr>) (put_req r (rq1\<lparr>rq_bios := q'\<rparr>) s1)))
      else Some (1, put_req r (rq1\<lparr>rq_bios := q'\<rparr>) s1)) = Some (c, s')"
    by (auto simp: end_request_def Let_def rq1_def split: bind_splits if_splits)
  have "sectors ss q (put_req r rq1 s) = sectors ss q s" "bios_ok ss q (put_req r rq1 s) = bios_ok ss q s" for ss q
    by (auto simp: bios_ok_def intro!: sectors_cong)
  note f = end_bios_sectors [OF e, unfolded this, OF rq(3)]
  have n: "n \<le> rq_nsectors rq" using f rq(4) by simp
  then have "rq_nsectors rq1 = rq_nsectors rq - n" using rq(5) by (simp add: rq1_def sub32_small)
  moreover define rq' where "rq' = rq1\<lparr>rq_bios := q', rq_status := (if rq_status rq \<noteq> BLOCK_REQ_INTR \<and> rq_nsectors rq1 = 0 then BLOCK_REQ_FINISHED else rq_status rq)\<rparr>"
  have "dv_bios (dev s') = dv_bios (dev s1)" "dv_bdevs (dev s') = dv_bdevs (dev s)" "dv_reqs (dev s') = (dv_reqs (dev s))(r \<mapsto> rq')"
    using t f by (auto simp: rq'_def rq1_def split: if_splits)
  moreover from this have "sectors (bd_sector_size b) q' s' = sectors (bd_sector_size b) q' s1" "bios_ok (bd_sector_size b) q' s' = bios_ok (bd_sector_size b) q' s1"
    by (auto simp: bios_ok_def intro!: sectors_cong)
  moreover have "if rq_status rq = BLOCK_REQ_INTR then c = 0 else if rq_nsectors rq1 = 0 then c = 0 else c = 1"
    using t by (auto split: if_splits)
  ultimately show ?thesis using rq(1,2) f n
    by (intro exI [of _ rq] exI [of _ rq'] exI [of _ b] exI [of _ q']) (auto simp: rq'_def rq1_def split: if_splits)
qed


lemma ready_loop_running:
  assumes "dv_bdevs (dev s) p = Some b" "bd_queue b = (n, r) # q" "dv_reqs (dev s) r = Some rq"
    and "rq_status rq \<noteq> BLOCK_REQ_INTR" "rq_status rq \<noteq> BLOCK_REQ_PENDING"
  shows "ready_loop p s = None"
proof -
  have "\<not> (dv_bdevs (dev s) p = Some b \<and> dv_reqs (dev s) r = Some rq)" if "ready_loop p s = Some y" for p s y
    using that
    by (rule ready_loop.raw_induct [where P = "\<lambda>p s y. \<not> (dv_bdevs (dev s) p = Some b \<and> dv_reqs (dev s) r = Some rq)", rotated])
      (use assms(2,4,5) in \<open>auto split: bind_splits\<close>)
  then show ?thesis using assms(1,3) by (cases "ready_loop p s") auto
qed

definition demo_disk :: dst where
  "demo_disk = device_state demo_six Map.empty Map.empty (empty_devices\<lparr>
     dv_bdevs := [70 \<mapsto> \<lparr>bd_major = 1, bd_minor = 0, bd_max_part = 16, bd_parts_list = 71, bd_parts = [], bd_sector_size = 512,
       bd_size = 4096, bd_mutex = 72, bd_handler = 1, bd_queue_list = 73, bd_queue = [(74, 75)], bd_private = NULL\<rparr>],
     dv_reqs := [75 \<mapsto> \<lparr>rq_flags = 0, rq_first = 100, rq_nsectors = 8, rq_status = BLOCK_REQ_RUNNING, rq_rc = 0, rq_dev = 70,
       rq_bios_list = 76, rq_bios = [(77, 78)], rq_wq = 79\<rparr>],
     dv_bios := [78 \<mapsto> \<lparr>bio_page = 0x10000, bio_offset = 0, bio_nsectors = 8\<rparr>]\<rparr>)"

lemma demo_disk_ok: "req_ok 75 demo_disk"
  by (simp add: req_ok_def demo_disk_def device_state_def empty_devices_def bios_ok_def two32_def sectors_def bio_at_def)

lemma demo_disk_end: "\<exists>s'. end_request 75 1 3 demo_disk = Some (1, s')"
  by (simp add: end_request_def demo_disk_def device_state_def empty_devices_def put_req_def put_bio_def upd_dev_def upd_vfs_def
      sub32_def two32_def BLOCK_REQ_RUNNING_def BLOCK_REQ_INTR_def Let_def)

subsection \<open>Properties\<close>



text \<open>
  C35. A request that is not served in one transfer hangs the driver: when \<^verbatim>\<open>end_request\<close> reports that sectors are left, the request is
  still marked as running and at the head of the queue, and \<^verbatim>\<open>next_ready_request_blkdev\<close>, which the driver calls next, loops
  forever.
\<close>

theorem partial_request_hangs:
  assumes "req_ok r s" "0 \<le> err" "end_request r err n s = Some (1, s')"
    and "map_option rq_status (dv_reqs (dev s) r) = Some BLOCK_REQ_RUNNING"
    and "dv_bdevs (dev s) p = Some b" "bd_queue b = (nd, r) # q"
  shows "ready_loop p s' = None \<and> next_ready_request_blkdev p s' = None"
proof -
  from end_request_parts [OF assms(3,2,1)] obtain rq rq' where rq: "dv_reqs (dev s) r = Some rq"
    and s': "dv_bdevs (dev s') = dv_bdevs (dev s)" "dv_reqs (dev s') = (dv_reqs (dev s))(r \<mapsto> rq')"
    and c: "if rq_status rq = BLOCK_REQ_INTR then (1::int) = 0 \<and> rq_status rq' = rq_status rq
       else if rq_nsectors rq' = 0 then (1::int) = 0 \<and> rq_status rq' = BLOCK_REQ_FINISHED
       else (1::int) = 1 \<and> rq_status rq' = rq_status rq" by blast
  have "rq_status rq = BLOCK_REQ_RUNNING" using rq assms(4) by simp
  moreover have "rq_status rq' = rq_status rq" using c by (simp split: if_splits)
  ultimately have "rq_status rq' = BLOCK_REQ_RUNNING" by simp
  with s'(2) have s': "dv_bdevs (dev s') = dv_bdevs (dev s)" "dv_reqs (dev s') r = Some rq'" "rq_status rq' = BLOCK_REQ_RUNNING"
    using s'(1) by simp_all
  have st: "rq_status rq' \<noteq> BLOCK_REQ_INTR" "rq_status rq' \<noteq> BLOCK_REQ_PENDING" using s'(3) by (simp_all add: status_defs)
  have b: "dv_bdevs (dev s') p = Some b" using s'(1) assms(5) by simp
  have "ready_loop p t = None" if "acquire_mutex (bd_mutex b) s' = Some t" for t
    using acquire_mutex_dev [OF that] b s'(2) ready_loop_running [OF _ assms(6) _ st] by simp
  then have "next_ready_request_blkdev p s' = None"
    using b by (cases "acquire_mutex (bd_mutex b) s'") (simp_all add: next_ready_request_blkdev_def)
  then show ?thesis using ready_loop_running [OF b assms(6) s'(2) st] by simp
qed

theorem partial_request_hangs_witness: "\<exists>s'. end_request 75 1 3 demo_disk = Some (1, s') \<and> next_ready_request_blkdev 70 s' = None"
proof -
  obtain s' where s': "end_request 75 1 3 demo_disk = Some (1, s')" using demo_disk_end by blast
  have "map_option rq_status (dv_reqs (dev demo_disk) 75) = Some BLOCK_REQ_RUNNING"
    "dv_bdevs (dev demo_disk) 70 = Some \<lparr>bd_major = 1, bd_minor = 0, bd_max_part = 16, bd_parts_list = 71, bd_parts = [], bd_sector_size = 512,
       bd_size = 4096, bd_mutex = 72, bd_handler = 1, bd_queue_list = 73, bd_queue = [(74, 75)], bd_private = NULL\<rparr>"
    by (simp_all add: demo_disk_def device_state_def empty_devices_def)
  from partial_request_hangs [OF demo_disk_ok _ s' this] s' show ?thesis by auto
qed

end
