(* ===== verification/Devfs.thy ===== *)
theory Devfs
  imports Block
begin

section \<open>The file system of devices (kernel/fs/dev.c)\<close>

text \<open>
  The files are \<^verbatim>\<open>struct dev_file\<close>s in a chain in the order of their inodes that starts with the root directory. A \<^verbatim>\<open>dev_file\<close> begins with its
  \<^verbatim>\<open>fs_node_t\<close>, so both have the same address: the node is in \<open>fs_nodes\<close>, the pointer \<^verbatim>\<open>next\<close> in \<open>dv_next\<close>. A directory has the list
  of its entries as private data. \<^verbatim>\<open>finddir\<close> hands out copies of the nodes; the other functions get such a copy and find the
  file by its inode. The operations of the drivers of character and block devices are the argument \<open>drv\<close>, tables by number as in
  Vfs.
\<close>

unbundle bit_operations_syntax

definition VFS_TYPE_MASK :: "32 word" where "VFS_TYPE_MASK = 0xFF0000"
definition VFS_PERM_MASK :: "32 word" where "VFS_PERM_MASK = 0x0FFF"
definition sizeof_dev_file :: nat where "sizeof_dev_file = 112"
definition sizeof_dirent :: nat where "sizeof_dirent = 260"
definition sizeof_superblock :: nat where "sizeof_superblock = 28"

text \<open>The number of the table \<^verbatim>\<open>devfs_ops\<close> and of \<^verbatim>\<open>close_fs\<close>.\<close>

definition devfs_ops :: nat where "devfs_ops = 1"
definition devfs_close_fs :: nat where "devfs_close_fs = 1"

subsection \<open>The chain of files\<close>

partial_function (option) find_inode :: "addr \<Rightarrow> nat \<Rightarrow> dst \<Rightarrow> addr option" where
  "find_inode p inode s =
    (if p = NULL then Some NULL
     else do {
       nd \<leftarrow> get_fsn p s;
       if nd_inode nd = inode then Some p
       else if nd_inode nd > inode then Some NULL
       else do { n \<leftarrow> dv_next (dev s) p; find_inode n inode s }
     })"

definition get_inode :: "addr \<Rightarrow> nat \<Rightarrow> dst \<Rightarrow> addr option" where
  "get_inode sbp inode s = do { sb \<leftarrow> superblocks (t_vfs s) sbp; find_inode (sb_root sb) inode s }"

partial_function (option) find_prev :: "addr \<Rightarrow> addr \<Rightarrow> nat \<Rightarrow> dst \<Rightarrow> addr option" where
  "find_prev p prev inode s =
    (if p = NULL then Some prev
     else do {
       nd \<leftarrow> get_fsn p s;
       if nd_inode nd > inode then Some prev
       else do { n \<leftarrow> dv_next (dev s) p; find_prev n p inode s }
     })"

definition file_insert :: "addr \<Rightarrow> addr \<Rightarrow> dst \<Rightarrow> dst option" where
  "file_insert sbp file s = do {
     sb \<leftarrow> superblocks (t_vfs s) sbp;
     nd \<leftarrow> get_fsn file s;
     prev \<leftarrow> find_prev (sb_root sb) NULL (nd_inode nd) s;
     n \<leftarrow> dv_next (dev s) prev;
     Some (upd_dev (\<lambda>d. d\<lparr>dv_next := (dv_next d)(file \<mapsto> n, prev \<mapsto> file)\<rparr>) s)
   }"

text \<open>The file and the one before it; nothing when the loop leaves the function.\<close>

partial_function (option) find_both :: "addr \<Rightarrow> addr \<Rightarrow> nat \<Rightarrow> dst \<Rightarrow> (addr \<times> addr) option option" where
  "find_both p prev inode s =
    (if p = NULL then Some (Some (NULL, prev))
     else do {
       nd \<leftarrow> get_fsn p s;
       if nd_inode nd = inode then Some (Some (p, prev))
       else if nd_inode nd > inode then Some None
       else do { n \<leftarrow> dv_next (dev s) p; find_both n p inode s }
     })"

text \<open>\<^verbatim>\<open>list_destroy\<close> of the list of a directory.\<close>

fun destroy_entries :: "dlist \<Rightarrow> dst \<Rightarrow> dst option" where
  "destroy_entries [] s = Some s"
| "destroy_entries ((n, e, i, nm) # q) s = do { s \<leftarrow> kfr e s; s \<leftarrow> kfr n s; destroy_entries q s }"

definition destroy_dir :: "addr \<Rightarrow> dst \<Rightarrow> dst option" where
  "destroy_dir l s =
    (if l = NULL then Some s
     else do {
       q \<leftarrow> dv_dirs (dev s) l;
       s \<leftarrow> destroy_entries q s;
       s \<leftarrow> kfr l s;
       Some (upd_dev (\<lambda>d. d\<lparr>dv_dirs := (dv_dirs d)(l := None)\<rparr>) s)
     })"

definition free_dev_file :: "addr \<Rightarrow> dst \<Rightarrow> dst option" where
  "free_dev_file p s = do {
     nd \<leftarrow> get_fsn p s;
     s \<leftarrow> (if nd_mode nd AND VFS_DIR \<noteq> 0 then destroy_dir (nd_private nd) s else Some s);
     s \<leftarrow> free_fsn p s;
     Some (upd_dev (\<lambda>d. d\<lparr>dv_next := (dv_next d)(p := None)\<rparr>) s)
   }"

definition file_remove :: "addr \<Rightarrow> nat \<Rightarrow> dst \<Rightarrow> dst option" where
  "file_remove sbp inode s = do {
     sb \<leftarrow> superblocks (t_vfs s) sbp;
     found \<leftarrow> find_both (sb_root sb) NULL inode s;
     case found of
       None \<Rightarrow> Some s
     | Some (iter, prev) \<Rightarrow> do {
         n \<leftarrow> dv_next (dev s) iter;
         ASSERT (prev \<noteq> NULL);
         free_dev_file iter (upd_dev (\<lambda>d. d\<lparr>dv_next := (dv_next d)(prev \<mapsto> n)\<rparr>) s)
       }
   }"

partial_function (option) empty_from :: "addr \<Rightarrow> nat \<Rightarrow> dst \<Rightarrow> nat option" where
  "empty_from p inode s =
    (if p = NULL then Some inode
     else do {
       nd \<leftarrow> get_fsn p s;
       if inode < nd_inode nd then Some inode
       else do { n \<leftarrow> dv_next (dev s) p; empty_from n (add32 (nd_inode nd) 1) s }
     })"

definition get_empty_inode :: "addr \<Rightarrow> dst \<Rightarrow> nat option" where
  "get_empty_inode sbp s = do { sb \<leftarrow> superblocks (t_vfs s) sbp; empty_from (sb_root sb) 0 s }"

subsection \<open>Mounting\<close>

text \<open>\<^verbatim>\<open>blocksize\<close> is not set: it is what the memory held before, the argument \<open>junk\<close>. \<open>now\<close> is \<^verbatim>\<open>time(NULL)\<close>.\<close>

definition return_sb :: "nat \<Rightarrow> nat \<Rightarrow> nat \<Rightarrow> 32 word \<Rightarrow> dst \<Rightarrow> (addr \<times> dst) option" where
  "return_sb junk now d flags s =
    (if d \<noteq> 0 then Some (NULL, s)
     else do {
       (sb, s) \<leftarrow> kma sizeof_superblock s;
       if sb = NULL then Some (NULL, s)
       else do {
         (sem, s) \<leftarrow> on_sync_ret (create_rw_semaphore 32) s;
         if sem = NULL then do { s \<leftarrow> kfr sb s; Some (NULL, s) }
         else do {
           (root, s) \<leftarrow> kma sizeof_dev_file s;
           if root = NULL then do { s \<leftarrow> on_sync (destroy_rw_semaphore sem) s; s \<leftarrow> kfr sb s; Some (NULL, s) }
           else do {
             (l, s) \<leftarrow> kma sizeof_list_t s;
             if l = NULL then do { s \<leftarrow> kfr sb s; s \<leftarrow> kfr root s; Some (NULL, s) }
             else do {
               let nd = \<lparr>nd_inode = 0, nd_uid = 0, nd_gid = 0, nd_mode = 0x1ED OR VFS_DIR, nd_flags = 0, nd_len = 0, nd_dev = 0,
                 nd_atime = 0, nd_mtime = 0, nd_ctime = now, nd_ops = devfs_ops, nd_fs_sb = sb, nd_private = l, nd_refcount = 0, nd_nlink = 1\<rparr>;
               let s = upd_dev (\<lambda>d. d\<lparr>dv_dirs := (dv_dirs d)(l \<mapsto> []), dv_next := (dv_next d)(root \<mapsto> NULL)\<rparr>) (put_fsn root nd s);
               Some (sb, upd_vfs (\<lambda>v. v\<lparr>superblocks := (superblocks v)(sb \<mapsto> \<lparr>sb_dev = d, sb_private = sem, sb_root = root,
                 sb_blocksize = junk, sb_flags = flags, sb_close_fs = devfs_close_fs\<rparr>)\<rparr>) s)
             }
           }
         }
       }
     })"

partial_function (option) any_open :: "addr \<Rightarrow> dst \<Rightarrow> bool option" where
  "any_open p s =
    (if p = NULL then Some False
     else do {
       nd \<leftarrow> get_fsn p s;
       if nd_refcount nd > 0 then Some True
       else do { n \<leftarrow> dv_next (dev s) p; any_open n s }
     })"

partial_function (option) free_chain :: "addr \<Rightarrow> dst \<Rightarrow> dst option" where
  "free_chain p s =
    (if p = NULL then Some s
     else do {
       n \<leftarrow> dv_next (dev s) p;
       s \<leftarrow> free_dev_file p s;
       free_chain n s
     })"

text \<open>The semaphore is not released when a file is open.\<close>

definition close_fs :: "addr \<Rightarrow> 32 word \<Rightarrow> dst \<Rightarrow> (int \<times> dst) option" where
  "close_fs sbp force s = do {
     sb \<leftarrow> superblocks (t_vfs s) sbp;
     s \<leftarrow> acquire_write (sb_private sb) s;
     busy \<leftarrow> (if force = 0 then any_open (sb_root sb) s else Some False);
     if busy then Some (- EBUSY, s)
     else do {
       s \<leftarrow> free_chain (sb_root sb) s;
       s \<leftarrow> on_sync (destroy_rw_semaphore (sb_private sb)) s;
       s \<leftarrow> kfr sbp s;
       Some (0, upd_vfs (\<lambda>v. v\<lparr>superblocks := (superblocks v)(sbp := None)\<rparr>) s)
     }
   }"


subsection \<open>Reading and writing block devices\<close>

definition kmaa :: "nat \<Rightarrow> nat \<Rightarrow> dst \<Rightarrow> (addr \<times> dst) option" where
  "kmaa al n s = do { (p, h) \<leftarrow> kmemalign al n (t_heap s); Some (p, s\<lparr>t_heap := h\<rparr>) }"

text \<open>The piece at an address of the bounce buffer, of at most \<open>n\<close> sectors and not beyond its page.\<close>

definition make_bio :: "nat \<Rightarrow> nat \<Rightarrow> nat \<Rightarrow> bio" where
  "make_bio ph ss n =
    (let off = ph mod PAGE_SIZE in
     \<lparr>bio_page = ph div PAGE_SIZE * PAGE_SIZE, bio_offset = off,
      bio_nsectors = (if PAGE_SIZE - off < n * ss then (PAGE_SIZE - off) div ss else n)\<rparr>)"

partial_function (option) fill_bios :: "addr \<Rightarrow> nat \<Rightarrow> addr \<Rightarrow> nat \<Rightarrow> nat \<Rightarrow> dst \<Rightarrow> (int \<times> dst) option" where
  "fill_bios bounce ss r off nsects s =
    (if nsects = 0 then Some (0, s)
     else do {
       (bp, s) \<leftarrow> kma sizeof_bio_t s;
       if bp = NULL then Some (- ENOMEM, s)
       else do {
         ph \<leftarrow> resolve_physical (add32 bounce off) (t_heap s);
         let b = make_bio ph ss nsects;
         (ret, s) \<leftarrow> add_bio_to_request_blkdev r bp (put_bio bp b s);
         if ret < 0 then do { s \<leftarrow> kfr bp s; Some (ret, s) }
         else fill_bios bounce ss r (off + bio_nsectors b * ss) (nsects - bio_nsectors b) s
       }
     })"

text \<open>\<^verbatim>\<open>off_t\<close> and \<^verbatim>\<open>size_t\<close> have 64 bits and the arithmetic is unsigned; a sector size of zero is a division by zero.\<close>

definition sector_range :: "nat \<Rightarrow> nat \<Rightarrow> int \<Rightarrow> nat \<times> nat \<times> nat" where
  "sector_range ss count off =
    (let o64 = nat (off mod int two64);
         delta = o64 mod ss;
         total = (count + delta) mod two64;
         nsects = (total div ss + (if total mod ss \<noteq> 0 then 1 else 0)) mod two32
     in (delta, ((o64 - delta) div ss) mod two32, nsects))"

definition io_fail :: "addr \<Rightarrow> addr \<Rightarrow> int \<Rightarrow> dst \<Rightarrow> (int \<times> dst) option" where
  "io_fail bounce r ret s = do { s \<leftarrow> kfr bounce s; s \<leftarrow> free_request r s; Some (ret, s) }"

definition mem_read :: "addr \<Rightarrow> nat \<Rightarrow> dst \<Rightarrow> bytes" where
  "mem_read a n s = map (\<lambda>i. dv_mem (dev s) (a + i)) [0..<n]"

definition mem_write :: "addr \<Rightarrow> bytes \<Rightarrow> dst \<Rightarrow> dst" where
  "mem_write a bs s = upd_dev (\<lambda>d. d\<lparr>dv_mem := (\<lambda>x. if a \<le> x \<and> x < a + length bs then bs ! (x - a) else dv_mem d x)\<rparr>) s"

definition read_blkdev :: "(nat \<Rightarrow> addr \<Rightarrow> dst \<Rightarrow> (int \<times> dst) option) \<Rightarrow> (addr \<Rightarrow> dst \<Rightarrow> (int \<times> dst) option)
    \<Rightarrow> nat \<Rightarrow> nat \<Rightarrow> int \<Rightarrow> dst \<Rightarrow> ((int \<times> bytes) \<times> dst) option" where
  "read_blkdev handler wait d count off s = do {
     ss \<leftarrow> get_block_size d s;
     ASSERT (ss \<noteq> 0);
     let (delta, first, nsects) = sector_range ss count off;
     (r, s) \<leftarrow> create_request_blkdev d first 0 s;
     if r = NULL then Some ((- ENOMEM, []), s)
     else do {
       (bounce, s) \<leftarrow> kmaa ss (nsects * ss) s;
       if bounce = NULL then do { s \<leftarrow> free_request r s; Some ((- ENOMEM, []), s) }
       else do {
         (ret, s) \<leftarrow> fill_bios bounce ss r 0 nsects s;
         if ret < 0 then do { (ret, s) \<leftarrow> io_fail bounce r ret s; Some ((ret, []), s) }
         else do {
           (ret, s) \<leftarrow> post_and_wait_blkdev handler wait r s;
           if ret < 0 then do { (ret, s) \<leftarrow> io_fail bounce r ret s; Some ((ret, []), s) }
           else do {
             s \<leftarrow> free_request r s;
             Some ((int count, mem_read (bounce + delta) count s), s)
           }
         }
       }
     }
   }"

text \<open>Reading one sector into the bounce buffer: zero, or the error with which \<^verbatim>\<open>write_blkdev\<close> returns.\<close>

definition read_sector :: "(nat \<Rightarrow> addr \<Rightarrow> dst \<Rightarrow> (int \<times> dst) option) \<Rightarrow> (addr \<Rightarrow> dst \<Rightarrow> (int \<times> dst) option)
    \<Rightarrow> nat \<Rightarrow> nat \<Rightarrow> addr \<Rightarrow> addr \<Rightarrow> dst \<Rightarrow> (int \<times> dst) option" where
  "read_sector handler wait d first a bounce s = do {
     (r, s) \<leftarrow> create_request_blkdev d first 0 s;
     if r = NULL then do { s \<leftarrow> kfr bounce s; Some (- ENOMEM, s) }
     else do {
       (bp, s) \<leftarrow> kma sizeof_bio_t s;
       if bp = NULL then io_fail bounce r (- ENOMEM) s
       else do {
         ph \<leftarrow> resolve_physical a (t_heap s);
         let s = put_bio bp \<lparr>bio_page = ph div PAGE_SIZE * PAGE_SIZE, bio_offset = ph mod PAGE_SIZE, bio_nsectors = 1\<rparr> s;
         (ret, s) \<leftarrow> add_bio_to_request_blkdev r bp s;
         if ret < 0 then do { s \<leftarrow> kfr bp s; io_fail bounce r (- ENOMEM) s }
         else do {
           (ret, s) \<leftarrow> post_and_wait_blkdev handler wait r s;
           if ret < 0 then io_fail bounce r (- ENOMEM) s
           else do { s \<leftarrow> free_request r s; Some (0, s) }
         }
       }
     }
   }"

definition write_sectors :: "(nat \<Rightarrow> addr \<Rightarrow> dst \<Rightarrow> (int \<times> dst) option) \<Rightarrow> (addr \<Rightarrow> dst \<Rightarrow> (int \<times> dst) option)
    \<Rightarrow> nat \<Rightarrow> nat \<Rightarrow> nat \<Rightarrow> addr \<Rightarrow> nat \<Rightarrow> nat \<Rightarrow> dst \<Rightarrow> (int \<times> dst) option" where
  "write_sectors handler wait d ss first bounce nsects count s = do {
     (r, s) \<leftarrow> create_request_blkdev d first BLOCK_DIR_WRITE s;
     if r = NULL then do { s \<leftarrow> kfr bounce s; Some (- ENOMEM, s) }
     else do {
       (ret, s) \<leftarrow> fill_bios bounce ss r 0 nsects s;
       if ret < 0 then io_fail bounce r (- ENOMEM) s
       else do {
         (ret, s) \<leftarrow> post_and_wait_blkdev handler wait r s;
         if ret < 0 then io_fail bounce r (- ENOMEM) s
         else do { s \<leftarrow> free_request r s; Some (int count, s) }
       }
     }
   }"

definition write_blkdev :: "(nat \<Rightarrow> addr \<Rightarrow> dst \<Rightarrow> (int \<times> dst) option) \<Rightarrow> (addr \<Rightarrow> dst \<Rightarrow> (int \<times> dst) option)
    \<Rightarrow> nat \<Rightarrow> bytes \<Rightarrow> nat \<Rightarrow> int \<Rightarrow> dst \<Rightarrow> (int \<times> dst) option" where
  "write_blkdev handler wait d buf count off s = do {
     ss \<leftarrow> get_block_size d s;
     ASSERT (ss \<noteq> 0);
     let (delta, first, nsects) = sector_range ss count off;
     (bounce, s) \<leftarrow> kmaa ss (nsects * ss) s;
     if bounce = NULL then Some (- ENOMEM, s)
     else do {
       (ret, s) \<leftarrow> (if delta \<noteq> 0 then read_sector handler wait d first bounce bounce s else Some (0, s));
       if ret < 0 then Some (ret, s)
       else do {
         (ret, s) \<leftarrow> (if (count + delta) mod two64 mod ss \<noteq> 0
           then read_sector handler wait d (sub32 (add32 first nsects) 1) (add32 bounce (sub32 nsects 1 * ss)) bounce s else Some (0, s));
         if ret < 0 then Some (ret, s)
         else do {
           ASSERT (count \<le> length buf);
           write_sectors handler wait d ss first bounce nsects count (mem_write (bounce + delta) (take count buf) s)
         }
       }
     }
   }"


subsection \<open>Operations on files\<close>

definition is_chr :: "fs_node \<Rightarrow> bool" where "is_chr nd \<longleftrightarrow> nd_mode nd AND VFS_CHARDEV \<noteq> 0"
definition is_blk :: "fs_node \<Rightarrow> bool" where "is_blk nd \<longleftrightarrow> nd_mode nd AND VFS_BLOCKDEV \<noteq> 0"

text \<open>The number of the driver's table, if there is a driver.\<close>

definition chr_ops :: "fs_node \<Rightarrow> dst \<Rightarrow> nat option option" where
  "chr_ops nd s = do { k \<leftarrow> get_chrdev_driver (MAJOR (nd_dev nd)) (dv_chr (dev s)); Some (map_option cd_ops k) }"

definition blk_ops :: "fs_node \<Rightarrow> dst \<Rightarrow> nat option option" where
  "blk_ops nd s = do { k \<leftarrow> get_blkdev_driver (MAJOR (nd_dev nd)) s; Some (map_option (\<lambda>i. kd_ops (blk_drivers (dev s) ! i)) k) }"

definition devfs_read :: "dst file_ops \<Rightarrow> (nat \<Rightarrow> addr \<Rightarrow> dst \<Rightarrow> (int \<times> dst) option) \<Rightarrow> (addr \<Rightarrow> dst \<Rightarrow> (int \<times> dst) option)
    \<Rightarrow> addr \<Rightarrow> nat \<Rightarrow> int \<Rightarrow> dst \<Rightarrow> ((int \<times> bytes) \<times> dst) option" where
  "devfs_read drv handler wait node count off s = do {
     nd \<leftarrow> get_fsn node s;
     if is_chr nd then do {
       k \<leftarrow> chr_ops nd s;
       case Option.bind k (op_read drv) of Some f \<Rightarrow> f node count off s | None \<Rightarrow> Some ((- EINVAL, []), s)
     } else if is_blk nd then read_blkdev handler wait (nd_dev nd) count off s
     else Some ((- EINVAL, []), s)
   }"

definition devfs_write :: "dst file_ops \<Rightarrow> (nat \<Rightarrow> addr \<Rightarrow> dst \<Rightarrow> (int \<times> dst) option) \<Rightarrow> (addr \<Rightarrow> dst \<Rightarrow> (int \<times> dst) option)
    \<Rightarrow> addr \<Rightarrow> bytes \<Rightarrow> nat \<Rightarrow> int \<Rightarrow> dst \<Rightarrow> (int \<times> dst) option" where
  "devfs_write drv handler wait node buf count off s = do {
     nd \<leftarrow> get_fsn node s;
     if is_chr nd then do {
       k \<leftarrow> chr_ops nd s;
       case Option.bind k (op_write drv) of Some f \<Rightarrow> f node buf count off s | None \<Rightarrow> Some (- EINVAL, s)
     } else if is_blk nd then write_blkdev handler wait (nd_dev nd) buf count off s
     else Some (- EINVAL, s)
   }"

text \<open>The driver's function for opening, and for closing; zero when there is none.\<close>

definition drv_open :: "dst file_ops \<Rightarrow> addr \<Rightarrow> fs_node \<Rightarrow> 32 word \<Rightarrow> dst \<Rightarrow> (int \<times> dst) option" where
  "drv_open drv node nd flags s = do {
     k \<leftarrow> (if is_chr nd then chr_ops nd s else if is_blk nd then blk_ops nd s else Some None);
     case Option.bind k (op_open drv) of Some f \<Rightarrow> f node flags s | None \<Rightarrow> Some (0, s)
   }"

definition drv_close :: "dst file_ops \<Rightarrow> addr \<Rightarrow> fs_node \<Rightarrow> dst \<Rightarrow> (int \<times> dst) option" where
  "drv_close drv node nd s = do {
     k \<leftarrow> (if is_chr nd then chr_ops nd s else if is_blk nd then blk_ops nd s else Some None);
     case Option.bind k (op_close drv) of Some f \<Rightarrow> f node s | None \<Rightarrow> Some (0, s)
   }"

definition sem_of :: "fs_node \<Rightarrow> dst \<Rightarrow> addr option" where
  "sem_of nd s = map_option sb_private (superblocks (t_vfs s) (nd_fs_sb nd))"

definition add_ref :: "addr \<Rightarrow> int \<Rightarrow> dst \<Rightarrow> dst option" where
  "add_ref p k s = do { nd \<leftarrow> get_fsn p s; Some (put_fsn p (nd\<lparr>nd_refcount := nd_refcount nd + k\<rparr>) s) }"

definition devfs_open :: "dst file_ops \<Rightarrow> addr \<Rightarrow> 32 word \<Rightarrow> dst \<Rightarrow> (int \<times> dst) option" where
  "devfs_open drv node flags s = do {
     nd \<leftarrow> get_fsn node s;
     sem \<leftarrow> sem_of nd s;
     s \<leftarrow> acquire_read sem s;
     master \<leftarrow> get_inode (nd_fs_sb nd) (nd_inode nd) s;
     gone \<leftarrow> (if master = NULL then Some True else do { m \<leftarrow> get_fsn master s; Some (nd_nlink m = 0) });
     (ret, s) \<leftarrow> (if gone then Some (- ENOENT, s)
       else do {
         (ret, s) \<leftarrow> drv_open drv node nd flags s;
         if ret = 0 then do { s \<leftarrow> add_ref master 1 s; Some (ret, s) } else Some (ret, s)
       });
     s \<leftarrow> release_read sem s;
     Some (ret, s)
   }"

definition devfs_close :: "dst file_ops \<Rightarrow> addr \<Rightarrow> dst \<Rightarrow> (int \<times> dst) option" where
  "devfs_close drv node s = do {
     nd \<leftarrow> get_fsn node s;
     sem \<leftarrow> sem_of nd s;
     s \<leftarrow> acquire_write sem s;
     master \<leftarrow> get_inode (nd_fs_sb nd) (nd_inode nd) s;
     (ret, s) \<leftarrow> (if master = NULL then Some (0, s)
       else do {
         s \<leftarrow> add_ref master (- 1) s;
         m \<leftarrow> get_fsn master s;
         if nd_refcount m = 0 then do {
           (ret, s) \<leftarrow> drv_close drv node nd s;
           m \<leftarrow> get_fsn master s;
           s \<leftarrow> (if ret = 0 \<and> nd_nlink m = 0 then file_remove (nd_fs_sb nd) (nd_inode nd) s else Some s);
           Some (ret, s)
         } else Some (0, s)
       });
     s \<leftarrow> release_write sem s;
     Some (ret, s)
   }"

definition devfs_readdir :: "addr \<Rightarrow> nat \<Rightarrow> dst \<Rightarrow> ((int \<times> nat \<times> bytes) \<times> dst) option" where
  "devfs_readdir node idx s =
    (if idx = 0 then Some ((1, 0, PATH_THIS_DIR), s)
     else if idx = 1 then Some ((1, 0, PATH_PARENT_DIR), s)
     else do {
       nd \<leftarrow> get_fsn node s;
       q \<leftarrow> dv_dirs (dev s) (nd_private nd);
       Some (if idx - 2 < length q then (case q ! (idx - 2) of (n, e, i, nm) \<Rightarrow> ((1, i, nm), s)) else ((0, 0, []), s))
     })"

text \<open>The first entry that \<^verbatim>\<open>strcmp\<close> takes for the name.\<close>

fun find_dirent :: "bytes \<Rightarrow> dlist \<Rightarrow> (addr \<times> addr \<times> nat \<times> bytes) option option" where
  "find_dirent fname [] = Some None"
| "find_dirent fname ((n, e, i, nm) # q) = do {
     c \<leftarrow> strcmp (c_mem nm) (c_mem fname);
     if c = 0 then Some (Some (n, e, i, nm)) else find_dirent fname q
   }"

definition devfs_finddir :: "addr \<Rightarrow> bytes \<Rightarrow> dst \<Rightarrow> (addr \<times> dst) option" where
  "devfs_finddir node fname s = do {
     nd \<leftarrow> get_fsn node s;
     q \<leftarrow> dv_dirs (dev s) (nd_private nd);
     entry \<leftarrow> find_dirent fname q;
     case entry of
       None \<Rightarrow> Some (NULL, s)
     | Some (n, e, i, nm) \<Rightarrow> do {
         master \<leftarrow> get_inode (nd_fs_sb nd) i s;
         if master = NULL then Some (NULL, s)
         else do {
           (p, s) \<leftarrow> kma sizeof_fs_node_t s;
           if p = NULL then Some (NULL, s)
           else do { m \<leftarrow> get_fsn master s; Some (p, put_fsn p m s) }
         }
       }
   }"

definition devfs_chmod :: "addr \<Rightarrow> 32 word \<Rightarrow> dst \<Rightarrow> (int \<times> dst) option" where
  "devfs_chmod node mode s = do {
     nd \<leftarrow> get_fsn node s;
     master \<leftarrow> get_inode (nd_fs_sb nd) (nd_inode nd) s;
     if master = NULL then Some (- ENOENT, s)
     else do {
       m \<leftarrow> get_fsn master s;
       let md = (nd_mode m AND VFS_TYPE_MASK) OR (mode AND VFS_PERM_MASK);
       let s = put_fsn master (m\<lparr>nd_mode := md\<rparr>) s;
       nd \<leftarrow> get_fsn node s;
       Some (0, put_fsn node (nd\<lparr>nd_mode := md\<rparr>) s)
     }
   }"

definition devfs_chown :: "addr \<Rightarrow> nat \<Rightarrow> nat \<Rightarrow> dst \<Rightarrow> (int \<times> dst) option" where
  "devfs_chown node uid gid s = do {
     nd \<leftarrow> get_fsn node s;
     master \<leftarrow> get_inode (nd_fs_sb nd) (nd_inode nd) s;
     if master = NULL then Some (- ENOENT, s)
     else do {
       m \<leftarrow> get_fsn master s;
       let s = put_fsn master (m\<lparr>nd_uid := uid, nd_gid := gid\<rparr>) s;
       nd \<leftarrow> get_fsn node s;
       Some (0, put_fsn node (nd\<lparr>nd_uid := uid, nd_gid := gid\<rparr>) s)
     }
   }"

text \<open>The result of the driver of a character device is lost.\<close>

definition devfs_ioctl :: "dst file_ops \<Rightarrow> addr \<Rightarrow> nat \<Rightarrow> addr \<Rightarrow> dst \<Rightarrow> (int \<times> dst) option" where
  "devfs_ioctl drv node req d s = do {
     nd \<leftarrow> get_fsn node s;
     if is_chr nd then do {
       k \<leftarrow> chr_ops nd s;
       case Option.bind k (op_ioctl drv) of
         Some f \<Rightarrow> do { (_, s) \<leftarrow> f node req d s; Some (- ENOTTY, s) }
       | None \<Rightarrow> Some (- ENOTTY, s)
     } else if is_blk nd then do {
       k \<leftarrow> blk_ops nd s;
       case Option.bind k (op_ioctl drv) of Some f \<Rightarrow> f node req d s | None \<Rightarrow> Some (- ENOTTY, s)
     } else Some (- ENOTTY, s)
   }"

subsection \<open>Operations on directories\<close>

text \<open>\<^verbatim>\<open>strcpy\<close> to \<^verbatim>\<open>d_name\<close> and \<^verbatim>\<open>list_insert\<close>, whose result is not tested.\<close>

definition add_entry :: "addr \<Rightarrow> addr \<Rightarrow> nat \<Rightarrow> bytes \<Rightarrow> dst \<Rightarrow> dst option" where
  "add_entry l e inode fname s = do {
     ASSERT (length fname < NAME_MAX);
     q \<leftarrow> dv_dirs (dev s) l;
     (n, s) \<leftarrow> kma sizeof_node_t s;
     Some (if n = NULL then s else upd_dev (\<lambda>d. d\<lparr>dv_dirs := (dv_dirs d)(l \<mapsto> q @ [(n, e, inode, fname)])\<rparr>) s)
   }"

definition new_dev_node :: "nat \<Rightarrow> nat \<Rightarrow> nat \<Rightarrow> nat \<Rightarrow> 32 word \<Rightarrow> nat \<Rightarrow> addr \<Rightarrow> addr \<Rightarrow> fs_node" where
  "new_dev_node inode now uid gid mode d sbp l = \<lparr>nd_inode = inode, nd_uid = uid, nd_gid = gid, nd_mode = mode, nd_flags = 0, nd_len = 0,
     nd_dev = d, nd_atime = 0, nd_mtime = 0, nd_ctime = now, nd_ops = devfs_ops, nd_fs_sb = sbp, nd_private = l, nd_refcount = 0, nd_nlink = 1\<rparr>"

definition devfs_create :: "nat \<Rightarrow> addr \<Rightarrow> bytes \<Rightarrow> nat \<Rightarrow> nat \<Rightarrow> 32 word \<Rightarrow> nat \<Rightarrow> dst \<Rightarrow> (int \<times> dst) option" where
  "devfs_create now parent fname uid gid mode d s =
    (if mode AND VFS_TYPE_MASK \<noteq> VFS_DIR \<and> mode AND VFS_TYPE_MASK \<noteq> VFS_BLOCKDEV \<and> mode AND VFS_TYPE_MASK \<noteq> VFS_CHARDEV
     then Some (- EINVAL, s)
     else do {
       (file, s) \<leftarrow> kma sizeof_dev_file s;
       if file = NULL then Some (- ENOMEM, s)
       else do {
         (e, s) \<leftarrow> kma sizeof_dirent s;
         if e = NULL then do { s \<leftarrow> kfr file s; Some (- ENOMEM, s) }
         else do {
           pd \<leftarrow> get_fsn parent s;
           sem \<leftarrow> sem_of pd s;
           s \<leftarrow> acquire_write sem s;
           inode \<leftarrow> get_empty_inode (nd_fs_sb pd) s;
           (l, s) \<leftarrow> (if mode AND VFS_DIR \<noteq> 0 then kma sizeof_list_t s else Some (NULL, s));
           if mode AND VFS_DIR \<noteq> 0 \<and> l = NULL then do { s \<leftarrow> kfr e s; s \<leftarrow> kfr file s; s \<leftarrow> release_write sem s; Some (- ENOMEM, s) }
           else do {
             let s = (if l = NULL then s else upd_dev (\<lambda>d. d\<lparr>dv_dirs := (dv_dirs d)(l \<mapsto> [])\<rparr>) s);
             let s = put_fsn file (new_dev_node inode now uid gid mode d (nd_fs_sb pd) l) s;
             s \<leftarrow> file_insert (nd_fs_sb pd) file s;
             s \<leftarrow> add_entry (nd_private pd) e inode fname s;
             s \<leftarrow> release_write sem s;
             Some (0, s)
           }
         }
       }
     })"

text \<open>\<^verbatim>\<open>link\<close> tests \<^verbatim>\<open>child\<close> instead of the file it has looked up, and \<^verbatim>\<open>child\<close> is not null.\<close>

definition devfs_link :: "addr \<Rightarrow> addr \<Rightarrow> bytes \<Rightarrow> dst \<Rightarrow> (int \<times> dst) option" where
  "devfs_link parent child fname s = do {
     pd \<leftarrow> get_fsn parent s;
     sem \<leftarrow> sem_of pd s;
     s \<leftarrow> acquire_write sem s;
     cd \<leftarrow> get_fsn child s;
     master \<leftarrow> get_inode (nd_fs_sb cd) (nd_inode cd) s;
     (e, s) \<leftarrow> kma sizeof_dirent s;
     if e = NULL then do { s \<leftarrow> release_write sem s; Some (- ENOMEM, s) }
     else do {
       m \<leftarrow> get_fsn master s;
       let s = put_fsn master (m\<lparr>nd_nlink := add32 (nd_nlink m) 1\<rparr>) s;
       cd \<leftarrow> get_fsn child s;
       let s = put_fsn child (cd\<lparr>nd_nlink := add32 (nd_nlink m) 1\<rparr>) s;
       s \<leftarrow> add_entry (nd_private pd) e (nd_inode cd) fname s;
       s \<leftarrow> release_write sem s;
       Some (0, s)
     }
   }"

text \<open>\<^verbatim>\<open>list_remove\<close> of an entry of a directory.\<close>

definition remove_entry :: "addr \<Rightarrow> addr \<times> addr \<times> nat \<times> bytes \<Rightarrow> dst \<Rightarrow> dst option" where
  "remove_entry l x s = do {
     q \<leftarrow> dv_dirs (dev s) l;
     let s = upd_dev (\<lambda>d. d\<lparr>dv_dirs := (dv_dirs d)(l \<mapsto> remove1 x q)\<rparr>) s;
     case x of (n, e, i, nm) \<Rightarrow> do { s \<leftarrow> kfr e s; kfr n s }
   }"

definition unlink_entry :: "addr \<Rightarrow> fs_node \<Rightarrow> addr \<times> addr \<times> nat \<times> bytes \<Rightarrow> dst \<Rightarrow> (int \<times> dst) option" where
  "unlink_entry parent pd x s = do {
     let i = fst (snd (snd x));
     child \<leftarrow> get_inode (nd_fs_sb pd) i s;
     if child = NULL then Some (- ENOENT, s)
     else do {
       s \<leftarrow> remove_entry (nd_private pd) x s;
       c \<leftarrow> get_fsn child s;
       let c = c\<lparr>nd_nlink := sub32 (nd_nlink c) 1\<rparr>;
       let s = put_fsn child c s;
       s \<leftarrow> (if nd_nlink c = 0 \<and> nd_refcount c = 0 then file_remove (nd_fs_sb pd) (nd_inode c) s else Some s);
       Some (0, s)
     }
   }"

definition devfs_unlink :: "addr \<Rightarrow> bytes \<Rightarrow> dst \<Rightarrow> (int \<times> dst) option" where
  "devfs_unlink parent fname s = do {
     pd \<leftarrow> get_fsn parent s;
     sem \<leftarrow> sem_of pd s;
     s \<leftarrow> acquire_write sem s;
     master \<leftarrow> get_inode (nd_fs_sb pd) (nd_inode pd) s;
     (ret, s) \<leftarrow> (if master = NULL then Some (- ENOTDIR, s)
       else do {
         q \<leftarrow> dv_dirs (dev s) (nd_private pd);
         entry \<leftarrow> find_dirent fname q;
         case entry of None \<Rightarrow> Some (- ENOENT, s) | Some x \<Rightarrow> unlink_entry parent pd x s
       });
     s \<leftarrow> release_write sem s;
     Some (ret, s)
   }"

end
