(* ===== verification/Devfs_Spec.thy ===== *)
theory Devfs_Spec
  imports Devfs
begin

section \<open>The files of the device file system as a table\<close>

text \<open>
  The chain of files of a device file system stands for a table from inodes to files. The locale \<open>inode_table\<close> states
  what the operations on directories rely on: look-up, the choice of an inode and insertion. It is interpreted on
  \<^verbatim>\<open>get_inode\<close>, \<^verbatim>\<open>get_empty_inode\<close> and \<^verbatim>\<open>file_insert\<close>.
\<close>

subsection \<open>The interface\<close>

locale inode_table =
  fixes look :: "nat \<Rightarrow> 's \<Rightarrow> addr option"
    and vacant :: "'s \<Rightarrow> nat option"
    and enter :: "addr \<Rightarrow> 's \<Rightarrow> 's option"
    and ino :: "addr \<Rightarrow> 's \<Rightarrow> nat option"
    and tab :: "'s \<Rightarrow> (nat \<rightharpoonup> addr) \<Rightarrow> bool"
    and lim :: nat
  assumes look_law: "tab s T \<Longrightarrow> look i s = Some (case T i of None \<Rightarrow> NULL | Some a \<Rightarrow> a)"
    and vacant_law: "tab s T \<Longrightarrow> \<exists>i. vacant s = Some i \<and> T i = None \<and> (\<forall>j < i. T j \<noteq> None)"
    and enter_law: "tab s T \<Longrightarrow> ino a s = Some i \<Longrightarrow> a \<noteq> NULL \<Longrightarrow> a \<notin> ran T \<Longrightarrow> T i = None \<Longrightarrow> i < lim
      \<Longrightarrow> \<exists>s'. enter a s = Some s' \<and> tab s' (T(i \<mapsto> a))"
begin

lemma look_entered:
  assumes "tab s T" "ino a s = Some i" "a \<noteq> NULL" "a \<notin> ran T" "T i = None" "i < lim"
  shows "\<exists>s'. enter a s = Some s' \<and> look i s' = Some a \<and> (\<forall>j. j \<noteq> i \<longrightarrow> look j s' = look j s)"
proof -
  from enter_law [OF assms] obtain s' where s': "enter a s = Some s'" "tab s' (T(i \<mapsto> a))" by blast
  then show ?thesis using look_law [OF s'(2)] look_law [OF assms(1)] by simp
qed

lemma vacant_entered:
  assumes "tab s T" "vacant s = Some i" "ino a s = Some i" "a \<noteq> NULL" "a \<notin> ran T" "i < lim"
  shows "\<exists>s' k. enter a s = Some s' \<and> tab s' (T(i \<mapsto> a)) \<and> vacant s' = Some k \<and> i < k"
proof -
  from vacant_law [OF assms(1)] assms(2) have T: "T i = None" "\<forall>j < i. T j \<noteq> None" by auto
  from enter_law [OF assms(1,3-5) T(1) assms(6)] obtain s' where s': "enter a s = Some s'" "tab s' (T(i \<mapsto> a))" by blast
  from vacant_law [OF s'(2)] obtain k where k: "vacant s' = Some k" "(T(i \<mapsto> a)) k = None" by blast
  then have "k \<noteq> i" "\<not> k < i" using T(2) by (auto split: if_splits)
  with s' k(1) show ?thesis by auto
qed

end

subsection \<open>Segments of the chain\<close>

fun seg :: "addr \<Rightarrow> addr list \<Rightarrow> addr \<Rightarrow> dst \<Rightarrow> bool" where
  "seg p [] q s \<longleftrightarrow> p = q"
| "seg p (x # xs) q s \<longleftrightarrow> p = x \<and> x \<noteq> NULL \<and> get_fsn x s \<noteq> None
     \<and> (case dv_next (dev s) x of None \<Rightarrow> False | Some n \<Rightarrow> seg n xs q s)"

definition inode_at :: "dst \<Rightarrow> addr \<Rightarrow> nat" where
  "inode_at s x = (case get_fsn x s of None \<Rightarrow> 0 | Some nd \<Rightarrow> nd_inode nd)"

lemma seg_append: "seg p (xs @ ys) q s \<longleftrightarrow> (\<exists>m. seg p xs m s \<and> seg m ys q s)"
  by (induction xs arbitrary: p) (auto split: option.splits)

lemma seg_cong:
  "(\<And>x. x \<in> set xs \<Longrightarrow> (get_fsn x s = None) = (get_fsn x s' = None) \<and> dv_next (dev s) x = dv_next (dev s') x) \<Longrightarrow> seg p xs q s = seg p xs q s'"
  by (induction xs arbitrary: p) (auto split: option.splits)

lemma seg_nonnull: "seg p xs q s \<Longrightarrow> NULL \<notin> set xs"
  by (induction xs arbitrary: p) (auto split: option.splits)

lemma seg_node: "seg p xs q s \<Longrightarrow> x \<in> set xs \<Longrightarrow> \<exists>nd. get_fsn x s = Some nd \<and> inode_at s x = nd_inode nd"
  by (induction xs arbitrary: p) (auto simp: inode_at_def split: option.splits)

text \<open>A segment whose last file gets another successor.\<close>

lemma seg_relink:
  assumes "seg p (xs @ [x]) q s" "distinct (xs @ [x])"
    and "\<And>y. (get_fsn y s = None) = (get_fsn y s' = None)" "\<And>y. y \<in> set xs \<Longrightarrow> dv_next (dev s') y = dv_next (dev s) y"
    and "dv_next (dev s') x = Some r"
  shows "seg p (xs @ [x]) r s'"
proof -
  from assms(1) obtain m where m: "seg p xs m s" "seg m [x] q s" by (auto simp: seg_append)
  have "seg p xs m s'" using m(1) assms(3,4) by (subst seg_cong [symmetric]) auto
  moreover have "seg m [x] r s'" using m(2) assms(3) [of x] assms(5) by auto
  ultimately show ?thesis by (auto simp: seg_append)
qed

subsection \<open>The loops\<close>

abbreviation by_inode :: "dst \<Rightarrow> addr list \<Rightarrow> nat \<rightharpoonup> addr" where
  "by_inode s xs \<equiv> map_of (map (\<lambda>x. (inode_at s x, x)) xs)"

abbreviation inodes :: "dst \<Rightarrow> addr list \<Rightarrow> nat list" where
  "inodes s xs \<equiv> map (inode_at s) xs"

lemma by_inode_None: "by_inode s xs i = None \<longleftrightarrow> i \<notin> set (inodes s xs)"
  by (auto simp: map_of_eq_None_iff image_image)

lemma find_inode_seg:
  assumes "seg p xs NULL s" "sorted_wrt (<) (inodes s xs)"
  shows "find_inode p i s = Some (case by_inode s xs i of None \<Rightarrow> NULL | Some a \<Rightarrow> a)"
  using assms
proof (induction xs arbitrary: p)
  case Nil
  then show ?case by (simp add: find_inode.simps)
next
  case (Cons x xs)
  then obtain nd n where nd: "get_fsn x s = Some nd" "inode_at s x = nd_inode nd" "dv_next (dev s) x = Some n" "seg n xs NULL s"
    by (auto simp: inode_at_def split: option.splits)
  show ?case
  proof (cases "i < nd_inode nd")
    case True
    then have "by_inode s xs i = None" using Cons.prems(2) nd(2) by (auto simp: by_inode_None)
    then show ?thesis using True Cons.prems(1) nd by (subst find_inode.simps) auto
  next
    case False
    then show ?thesis using Cons nd by (subst find_inode.simps) auto
  qed
qed

lemma empty_from_seg:
  assumes "seg p xs NULL s" "sorted_wrt (<) (inodes s xs)" "\<And>x. x \<in> set xs \<Longrightarrow> k \<le> inode_at s x \<and> inode_at s x + 1 < two32"
  shows "\<exists>j. empty_from p k s = Some j \<and> k \<le> j \<and> j \<notin> set (inodes s xs) \<and> {k..<j} \<subseteq> set (inodes s xs)"
  using assms
proof (induction xs arbitrary: p k)
  case Nil
  then show ?case by (auto simp: empty_from.simps)
next
  case (Cons x xs)
  then obtain nd n where nd: "get_fsn x s = Some nd" "inode_at s x = nd_inode nd" "dv_next (dev s) x = Some n" "seg n xs NULL s"
    by (auto simp: inode_at_def split: option.splits)
  show ?case
  proof (cases "k < nd_inode nd")
    case True
    then have "k \<notin> set (inodes s (x # xs))" using Cons.prems(2) nd(2) by auto
    then show ?thesis using True Cons.prems(1) nd by (subst empty_from.simps) auto
  next
    case False
    then have k: "k = nd_inode nd" using Cons.prems(3) [of x] nd(2) by simp
    have "\<exists>j. empty_from n (k + 1) s = Some j \<and> k + 1 \<le> j \<and> j \<notin> set (inodes s xs) \<and> {k + 1..<j} \<subseteq> set (inodes s xs)"
      using Cons.prems nd k by (intro Cons.IH) auto
    then obtain j where j: "empty_from n (k + 1) s = Some j" "k + 1 \<le> j" "j \<notin> set (inodes s xs)" "{k + 1..<j} \<subseteq> set (inodes s xs)" by blast
    have "{k..<j} \<subseteq> insert k {k + 1..<j}" by auto
    then have "{k..<j} \<subseteq> set (inodes s (x # xs))" using j(4) k nd(2) by auto
    moreover have "add32 (nd_inode nd) 1 = k + 1" using Cons.prems(3) [of x] nd(2) k by (simp add: add32_def)
    ultimately show ?thesis using False Cons.prems(1) nd j k by (subst empty_from.simps) (auto intro!: exI [of _ j])
  qed
qed

lemma find_prev_seg:
  assumes "seg p xs NULL s"
  shows "find_prev p prev i s = Some (last (prev # takeWhile (\<lambda>x. inode_at s x \<le> i) xs))"
  using assms
proof (induction xs arbitrary: p prev)
  case Nil
  then show ?case by (simp add: find_prev.simps)
next
  case (Cons x xs)
  then obtain nd n where nd: "get_fsn x s = Some nd" "inode_at s x = nd_inode nd" "dv_next (dev s) x = Some n" "seg n xs NULL s"
    by (auto simp: inode_at_def split: option.splits)
  then show ?case using Cons by (subst find_prev.simps) auto
qed

subsection \<open>The chain as a table\<close>

text \<open>
  The chain of the superblock: the inodes grow strictly, the first file, the root directory, has inode 0, and none has the last
  possible inode, whose successor would wrap around.
\<close>

definition files_ok :: "addr \<Rightarrow> addr list \<Rightarrow> dst \<Rightarrow> bool" where
  "files_ok sbp xs s \<longleftrightarrow> (case superblocks (t_vfs s) sbp of None \<Rightarrow> False | Some sb \<Rightarrow> seg (sb_root sb) xs NULL s)
     \<and> sorted_wrt (<) (inodes s xs) \<and> xs \<noteq> [] \<and> inode_at s (hd xs) = 0 \<and> (\<forall>x \<in> set xs. inode_at s x + 1 < two32)"

definition file_tab :: "addr \<Rightarrow> dst \<Rightarrow> (nat \<rightharpoonup> addr) \<Rightarrow> bool" where
  "file_tab sbp s T \<longleftrightarrow> (\<exists>xs. files_ok sbp xs s \<and> T = by_inode s xs)"

definition node_inode :: "addr \<Rightarrow> dst \<Rightarrow> nat option" where
  "node_inode a s = map_option nd_inode (get_fsn a s)"

lemma files_okE:
  assumes "files_ok sbp xs s"
  obtains sb where "superblocks (t_vfs s) sbp = Some sb" "seg (sb_root sb) xs NULL s"
  using assms by (auto simp: files_ok_def split: option.splits)

lemma files_distinct: "files_ok sbp xs s \<Longrightarrow> distinct xs"
proof -
  assume "files_ok sbp xs s"
  then have "distinct (inodes s xs)" by (simp add: files_ok_def strict_sorted_iff)
  then show "distinct xs" by (simp add: distinct_map)
qed

lemma get_inode_files: "files_ok sbp xs s \<Longrightarrow> get_inode sbp i s = Some (case by_inode s xs i of None \<Rightarrow> NULL | Some a \<Rightarrow> a)"
  by (auto elim!: files_okE simp: get_inode_def find_inode_seg files_ok_def split: option.splits)

lemma get_empty_inode_files:
  assumes "files_ok sbp xs s"
  shows "\<exists>i. get_empty_inode sbp s = Some i \<and> i \<notin> set (inodes s xs) \<and> (\<forall>j < i. j \<in> set (inodes s xs))"
proof -
  from assms obtain sb where sb: "superblocks (t_vfs s) sbp = Some sb" "seg (sb_root sb) xs NULL s" by (rule files_okE)
  from empty_from_seg [OF sb(2), of 0] obtain j where "empty_from (sb_root sb) 0 s = Some j" "j \<notin> set (inodes s xs)" "{0..<j} \<subseteq> set (inodes s xs)"
    using assms by (auto simp: files_ok_def)
  then show ?thesis using sb(1) by (intro exI [of _ j]) (auto simp: get_empty_inode_def)
qed

lemma by_inode_in: "by_inode s xs i = Some a \<Longrightarrow> a \<in> set xs \<and> inode_at s a = i"
  by (auto dest: map_of_SomeD)

lemma ran_by_inode: "files_ok sbp xs s \<Longrightarrow> ran (by_inode s xs) = set xs"
  by (subst ran_distinct) (auto simp: files_ok_def strict_sorted_iff comp_def image_image)

subsection \<open>Insertion\<close>

text \<open>The files up to an inode, which begin with the root, and the others.\<close>

lemma takeWhile_split:
  assumes "files_ok sbp xs s"
  obtains as x bs where "takeWhile (\<lambda>x. inode_at s x \<le> i) xs = as @ [x]" "dropWhile (\<lambda>x. inode_at s x \<le> i) xs = bs" "xs = as @ x # bs"
proof -
  have "takeWhile (\<lambda>x. inode_at s x \<le> i) xs \<noteq> []" using assms by (cases xs) (auto simp: files_ok_def)
  then have t: "takeWhile (\<lambda>x. inode_at s x \<le> i) xs = butlast (takeWhile (\<lambda>x. inode_at s x \<le> i) xs) @ [last (takeWhile (\<lambda>x. inode_at s x \<le> i) xs)]" by simp
  moreover have "xs = butlast (takeWhile (\<lambda>x. inode_at s x \<le> i) xs) @ last (takeWhile (\<lambda>x. inode_at s x \<le> i) xs) # dropWhile (\<lambda>x. inode_at s x \<le> i) xs"
    using t by (metis append.assoc append_Cons append_Nil takeWhile_dropWhile_id)
  ultimately show ?thesis using that by blast
qed

lemma sorted_insert:
  assumes "sorted_wrt (<) (map f xs)" "i \<notin> set (map f xs)" "f a = (i::nat)"
  shows "sorted_wrt (<) (map f (takeWhile (\<lambda>x. f x \<le> i) xs @ a # dropWhile (\<lambda>x. f x \<le> i) xs))"
  using assms
proof (induction xs)
  case (Cons x xs)
  have a: "\<forall>y \<in> set xs. f x < f y" using Cons.prems(1) by simp
  show ?case
  proof (cases "f x \<le> i")
    case True
    then have "f x < i" using Cons.prems(2) by auto
    moreover have "\<forall>y \<in> set (takeWhile (\<lambda>x. f x \<le> i) xs) \<union> set (dropWhile (\<lambda>x. f x \<le> i) xs). f x < f y"
      using a by (auto dest: set_takeWhileD set_dropWhileD)
    ultimately show ?thesis using Cons True by auto
  next
    case False
    then show ?thesis using Cons.prems a by auto
  qed
qed simp

definition enter_file :: "addr \<Rightarrow> addr \<Rightarrow> addr \<Rightarrow> dst \<Rightarrow> dst" where
  "enter_file file prev n s = upd_dev (\<lambda>d. d\<lparr>dv_next := (dv_next d)(file \<mapsto> n, prev \<mapsto> file)\<rparr>) s"

lemma enter_file_simps [simp]:
  "get_fsn x (enter_file file prev n s) = get_fsn x s" "superblocks (t_vfs (enter_file file prev n s)) = superblocks (t_vfs s)"
  "dv_next (dev (enter_file file prev n s)) = (dv_next (dev s))(file \<mapsto> n, prev \<mapsto> file)"
  "inode_at (enter_file file prev n s) = inode_at s"
  by (simp_all add: enter_file_def get_fsn_def upd_dev_def upd_vfs_def inode_at_def fun_eq_iff)

lemma file_insert_files:
  assumes ok: "files_ok sbp xs s" and f: "node_inode file s = Some i" "file \<noteq> NULL" "file \<notin> set xs" "i \<notin> set (inodes s xs)" "i + 1 < two32"
  shows "\<exists>prev n. file_insert sbp file s = Some (enter_file file prev n s) \<and> prev \<in> set xs
     \<and> files_ok sbp (takeWhile (\<lambda>x. inode_at s x \<le> i) xs @ file # dropWhile (\<lambda>x. inode_at s x \<le> i) xs) (enter_file file prev n s)"
proof -
  from f(1) obtain nd where nd: "get_fsn file s = Some nd" "nd_inode nd = i" by (auto simp: node_inode_def)
  then have fi: "inode_at s file = i" by (simp add: inode_at_def)
  from ok obtain sb where sb: "superblocks (t_vfs s) sbp = Some sb" "seg (sb_root sb) xs NULL s" by (rule files_okE)
  from ok obtain as x bs where sp: "takeWhile (\<lambda>x. inode_at s x \<le> i) xs = as @ [x]" "dropWhile (\<lambda>x. inode_at s x \<le> i) xs = bs" "xs = as @ x # bs"
    by (rule takeWhile_split)
  from sb(2) have "seg (sb_root sb) ((as @ [x]) @ bs) NULL s" using sp(3) by simp
  then obtain n where n: "seg (sb_root sb) (as @ [x]) n s" "seg n bs NULL s" unfolding seg_append [of _ "as @ [x]" bs] by blast
  have nx: "dv_next (dev s) x = Some n" using n(1) by (auto simp: seg_append split: option.splits)
  have prev: "find_prev (sb_root sb) NULL i s = Some x" using find_prev_seg [OF sb(2)] sp(1) by simp
  have d: "distinct (as @ [x])" "x \<notin> set bs" "file \<noteq> x" "file \<notin> set as \<union> set bs" using files_distinct [OF ok] f(3) sp(3) by auto
  define s' where "s' = enter_file file x n s"
  have "seg (sb_root sb) (as @ [x]) file s'" using d by (intro seg_relink [OF n(1)]) (auto simp: s'_def)
  moreover have "seg n bs NULL s'" using n(2) d by (subst seg_cong [of bs s s', symmetric]) (auto simp: s'_def)
  then have "seg file (file # bs) NULL s'" using nd(1) f(2) d(3) by (simp add: s'_def)
  ultimately have "seg (sb_root sb) ((as @ [x]) @ file # bs) NULL s'" using seg_append by blast
  moreover have "sorted_wrt (<) (inodes s ((as @ [x]) @ file # bs))"
    using sorted_insert [where f = "inode_at s" and xs = xs and i = i and a = "file"] ok f(4) fi sp(1,2) by (simp add: files_ok_def)
  moreover have "inode_at s (hd ((as @ [x]) @ file # bs)) = 0" using ok sp(3) by (cases as) (simp_all add: files_ok_def)
  ultimately have "files_ok sbp (takeWhile (\<lambda>x. inode_at s x \<le> i) xs @ file # dropWhile (\<lambda>x. inode_at s x \<le> i) xs) s'"
    using ok sb(1) sp fi f(5) by (auto simp: files_ok_def s'_def)
  moreover have "file_insert sbp file s = Some s'"
    using sb(1) nd prev nx by (simp add: file_insert_def s'_def enter_file_def)
  ultimately show ?thesis using sp(3) by (auto simp: s'_def)
qed

lemma by_inode_insert:
  assumes "sorted_wrt (<) (inodes s xs)" "inode_at s a = i" "i \<notin> set (inodes s xs)"
  shows "by_inode s (takeWhile P xs @ a # dropWhile P xs) = (by_inode s xs)(i \<mapsto> a)"
proof (rule ext)
  fix j
  have "by_inode s xs = by_inode s (dropWhile P xs) ++ by_inode s (takeWhile P xs)"
    by (metis map_append map_of_append takeWhile_dropWhile_id)
  moreover have "by_inode s (takeWhile P xs) i = None" using assms(3) by (auto simp: by_inode_None dest: set_takeWhileD)
  ultimately show "by_inode s (takeWhile P xs @ a # dropWhile P xs) j = ((by_inode s xs)(i \<mapsto> a)) j"
    using assms(2) by (auto simp: map_add_def split: option.splits)
qed

interpretation devfiles: inode_table "get_inode sbp" "get_empty_inode sbp" "file_insert sbp" node_inode "file_tab sbp" "two32 - 1" for sbp
proof
  fix s T i assume "file_tab sbp s T"
  then show "get_inode sbp i s = Some (case T i of None \<Rightarrow> NULL | Some a \<Rightarrow> a)"
    by (auto simp: file_tab_def get_inode_files)
next
  fix s T assume "file_tab sbp s T"
  then obtain xs where "files_ok sbp xs s" "T = by_inode s xs" by (auto simp: file_tab_def)
  with get_empty_inode_files [of sbp xs s] show "\<exists>i. get_empty_inode sbp s = Some i \<and> T i = None \<and> (\<forall>j < i. T j \<noteq> None)"
    by (auto simp only: by_inode_None simp_thms)
next
  fix s T a i assume "file_tab sbp s T" and a: "node_inode a s = Some i" "a \<noteq> NULL" "a \<notin> ran T" "T i = None" "i < two32 - 1"
  then obtain xs where xs: "files_ok sbp xs s" "T = by_inode s xs" by (auto simp: file_tab_def)
  have i: "inode_at s a = i" "i \<notin> set (inodes s xs)" "a \<notin> set xs" "sorted_wrt (<) (inodes s xs)"
    using a(1) a(4)[unfolded xs(2) by_inode_None] a(3) xs ran_by_inode [OF xs(1)] by (auto simp: node_inode_def inode_at_def files_ok_def)
  have "i + 1 < two32" using a(5) by simp
  with i file_insert_files [OF xs(1) a(1,2)] obtain prev n where
    "file_insert sbp a s = Some (enter_file a prev n s)"
    "files_ok sbp (takeWhile (\<lambda>x. inode_at s x \<le> i) xs @ a # dropWhile (\<lambda>x. inode_at s x \<le> i) xs) (enter_file a prev n s)" by auto
  then show "\<exists>s'. file_insert sbp a s = Some s' \<and> file_tab sbp s' (T(i \<mapsto> a))"
    using by_inode_insert [OF i(4,1,2)] xs(2) by (force simp: file_tab_def)
qed

subsection \<open>Creating a file\<close>

text \<open>What is at fresh addresses changes no file and no directory.\<close>

lemma get_put_fsn [simp]:
  "get_fsn x (put_fsn p nd s) = (if x = p then Some nd else get_fsn x s)"
  "superblocks (t_vfs (put_fsn p nd s)) = superblocks (t_vfs s)" "dev (put_fsn p nd s) = dev s" "t_heap (put_fsn p nd s) = t_heap s"
  "wqs (put_fsn p nd s) = wqs s"
  by (simp_all add: get_fsn_def put_fsn_def upd_vfs_def)

lemma get_upd_dev [simp]:
  "get_fsn x (upd_dev f s) = get_fsn x s" "superblocks (t_vfs (upd_dev f s)) = superblocks (t_vfs s)" "t_heap (upd_dev f s) = t_heap s"
  "wqs (upd_dev f s) = wqs s"
  by (simp_all add: get_fsn_def upd_dev_def upd_vfs_def)

lemma get_upd_heap [simp]: "get_fsn x (s\<lparr>t_heap := h\<rparr>) = get_fsn x s"
  by (simp add: get_fsn_def)

lemma same_files_get: "same_files s s' \<Longrightarrow> get_fsn x s' = get_fsn x s" "same_files s s' \<Longrightarrow> inode_at s' = inode_at s"
  by (simp_all add: same_files_def get_fsn_def inode_at_def fun_eq_iff)

lemma files_ok_cong:
  assumes "superblocks (t_vfs s') sbp = superblocks (t_vfs s) sbp" "dv_next (dev s') = dv_next (dev s)" "\<And>x. x \<in> set xs \<Longrightarrow> get_fsn x s' = get_fsn x s"
  shows "files_ok sbp xs s' = files_ok sbp xs s"
proof -
  have "seg p xs NULL s' = seg p xs NULL s" for p using assms by (intro seg_cong) simp
  moreover have "inodes s' xs = inodes s xs" "\<forall>x \<in> set xs. inode_at s' x = inode_at s x" using assms(3) by (simp_all add: inode_at_def)
  moreover from this have "xs \<noteq> [] \<longrightarrow> inode_at s' (hd xs) = inode_at s (hd xs)" by simp
  ultimately show ?thesis unfolding files_ok_def using assms(1) by (simp del: map_eq_conv cong: conj_cong option.case_cong)
qed

lemma same_files_ok: "same_files s s' \<Longrightarrow> files_ok sbp xs s' = files_ok sbp xs s"
  by (rule files_ok_cong) (simp_all add: same_files_def get_fsn_def)

lemma vacant_bound:
  assumes "files_ok sbp xs s" "\<forall>j < i. j \<in> set (inodes s xs)"
  shows "i \<le> length xs"
proof -
  have "{..<i} \<subseteq> set (inodes s xs)" using assms(2) by auto
  then have "card {..<i} \<le> card (set (inodes s xs))" by (intro card_mono) simp
  also have "\<dots> \<le> length xs" using card_length [of "inodes s xs"] by simp
  finally show ?thesis by simp
qed

text \<open>
  The part of \<^verbatim>\<open>create\<close> between acquiring and releasing the semaphore: the file has the least free inode and is in the chain, all
  other files are as before, and the directory has one more entry.
\<close>

lemma create_locked:
  assumes ok: "files_ok sbp xs s" and len: "length xs + 2 < two32" and new: "file \<noteq> NULL" "get_fsn file s = None"
    and dir: "dv_dirs (dev s) l0 = Some q" "length fname < NAME_MAX" and n: "kmalloc sizeof_node_t (t_heap s) = Some (n, h)" "n \<noteq> NULL"
    and i: "get_empty_inode sbp s = Some i" and nd: "nd_inode nd = i"
  shows "\<exists>s' ys. do {
      s \<leftarrow> file_insert sbp file (put_fsn file nd s);
      add_entry l0 e i fname s
    } = Some s' \<and> files_ok sbp ys s' \<and> set ys = insert file (set xs) \<and> (\<forall>x. get_fsn x s' = (if x = file then Some nd else get_fsn x s))
    \<and> dv_dirs (dev s') = (dv_dirs (dev s))(l0 \<mapsto> q @ [(n, e, i, fname)]) \<and> superblocks (t_vfs s') = superblocks (t_vfs s) \<and> t_heap s' = h
    \<and> (\<forall>sem b. rw_state b sem s' = rw_state b sem s) \<and> by_inode s' ys = (by_inode s xs)(i \<mapsto> file) \<and> i \<notin> set (inodes s xs) \<and> (\<forall>j < i. j \<in> set (inodes s xs))"
proof -
  from get_empty_inode_files [OF ok] i have i': "i \<notin> set (inodes s xs)" "\<forall>j < i. j \<in> set (inodes s xs)" by auto
  have fx: "file \<notin> set xs" using ok new(2) by (auto elim!: files_okE dest: seg_node)
  define s1 where "s1 = put_fsn file nd s"
  have ino: "inode_at s1 x = inode_at s x" if "x \<in> set xs" for x using that fx by (auto simp: s1_def inode_at_def)
  then have inos: "inodes s1 xs = inodes s xs" by simp
  have "i \<notin> set (inodes s1 xs)" unfolding inos by (rule i'(1))
  have ok1: "files_ok sbp xs s1" using ok fx by (subst files_ok_cong [of s1 sbp s]) (auto simp: s1_def)
  have "\<exists>prev n. file_insert sbp file s1 = Some (enter_file file prev n s1) \<and> prev \<in> set xs
     \<and> files_ok sbp (takeWhile (\<lambda>x. inode_at s1 x \<le> i) xs @ file # dropWhile (\<lambda>x. inode_at s1 x \<le> i) xs) (enter_file file prev n s1)"
    using new(1) fx \<open>i \<notin> set (inodes s1 xs)\<close> nd vacant_bound [OF ok i'(2)] len
    by (intro file_insert_files [OF ok1]) (auto simp: s1_def node_inode_def)
  then obtain prev m where f: "file_insert sbp file s1 = Some (enter_file file prev m s1)"
    "files_ok sbp (takeWhile (\<lambda>x. inode_at s1 x \<le> i) xs @ file # dropWhile (\<lambda>x. inode_at s1 x \<le> i) xs) (enter_file file prev m s1)" by blast
  define ys where "ys = takeWhile (\<lambda>x. inode_at s1 x \<le> i) xs @ file # dropWhile (\<lambda>x. inode_at s1 x \<le> i) xs"
  define s2 where "s2 = upd_dev (\<lambda>d. d\<lparr>dv_dirs := (dv_dirs d)(l0 \<mapsto> q @ [(n, e, i, fname)])\<rparr>) ((enter_file file prev m s1)\<lparr>t_heap := h\<rparr>)"
  have "add_entry l0 e i fname (enter_file file prev m s1) = Some s2"
    using dir n by (simp add: add_entry_def kma_def s2_def s1_def enter_file_def)
  moreover have "files_ok sbp ys s2" using f(2) unfolding ys_def [symmetric]
    by (subst files_ok_cong [of s2 sbp "enter_file file prev m s1"]) (simp_all add: s2_def)
  moreover have "set ys = insert file (set xs)" unfolding ys_def by (metis Un_insert_right list.simps(15) set_append takeWhile_dropWhile_id)
  moreover have "inode_at s2 = inode_at s1" by (simp add: fun_eq_iff inode_at_def s2_def enter_file_def)
  then have "by_inode s2 ys = (by_inode s xs)(i \<mapsto> file)"
    using by_inode_insert [of s1 xs "file" i "\<lambda>x. inode_at s1 x \<le> i"] ok1 i'(1) nd ino
    by (simp add: ys_def files_ok_def s1_def inode_at_def cong: map_cong)
  moreover have "\<forall>sem b. rw_state b sem s2 = rw_state b sem s"
    by (intro allI rw_state_cong) (simp_all add: s2_def s1_def enter_file_def)
  ultimately show ?thesis using f(1) i' unfolding s1_def [symmetric]
    by (intro exI [of _ s2] exI [of _ ys]) (simp add: s2_def s1_def enter_file_def)
qed

lemma alloc_step:
  assumes "kmalloc_live h0 L" "allocs kmalloc (n # ns) h0" "n \<le> heap_limit" "t_heap s = h0"
  obtains p h where "kma n s = Some (p, s\<lparr>t_heap := h\<rparr>)" "p \<noteq> NULL" "L p = None" "kmalloc_live h (L(p \<mapsto> n))" "allocs kmalloc ns h"
proof -
  from assms(2) obtain p h where k: "kmalloc n h0 = Some (p, h)" "allocs kmalloc ns h" by (auto split: option.splits)
  from assms(4) heap.malloc_new [OF assms(1,3) k(1)] heap.malloc_live [OF assms(1,3) k(1)] k show ?thesis
    by (intro that [of p h]) (simp_all add: kma_def)
qed

text \<open>A directory of a device file system in which nobody is at work, and a heap in which files and directories have their memory.\<close>

definition heap_owns :: "dst \<Rightarrow> (addr \<rightharpoonup> nat) \<Rightarrow> bool" where
  "heap_owns s L \<longleftrightarrow> kmalloc_live (t_heap s) L \<and> dom (fs_nodes (t_vfs s)) \<union> dom (dv_dirs (dev s)) \<subseteq> dom L"

definition devfs_ready :: "addr \<Rightarrow> addr list \<Rightarrow> addr \<Rightarrow> fs_node \<Rightarrow> dlist \<Rightarrow> addr \<Rightarrow> dst \<Rightarrow> bool" where
  "devfs_ready sbp xs parent pd q sem s \<longleftrightarrow> files_ok sbp xs s \<and> length xs + 2 < two32 \<and> get_fsn parent s = Some pd \<and> nd_fs_sb pd = sbp
     \<and> map_option sb_private (superblocks (t_vfs s) sbp) = Some sem \<and> sem_free sem s \<and> dv_dirs (dev s) (nd_private pd) = Some q
     \<and> (\<exists>L. heap_owns s L)"

definition create_sizes :: "32 word \<Rightarrow> nat list" where
  "create_sizes mode = [sizeof_dev_file, sizeof_dirent] @ (if mode AND VFS_DIR \<noteq> 0 then [sizeof_list_t] else []) @ [sizeof_node_t]"

lemma create_sizes_limit: "n \<in> set (create_sizes mode) \<Longrightarrow> n \<le> heap_limit" "sizeof_fs_node_t \<le> heap_limit"
  by (auto simp: create_sizes_def sizeof_defs sizeof_dev_file_def sizeof_dirent_def heap_limit_def sizeof_fs_node_t_def split: if_splits)

text \<open>The list of a new directory.\<close>

definition with_list :: "addr \<Rightarrow> dst \<Rightarrow> dst" where
  "with_list l s = (if l = NULL then s else upd_dev (\<lambda>d. d\<lparr>dv_dirs := (dv_dirs d)(l \<mapsto> [])\<rparr>) s)"

lemma with_list_simps [simp]:
  "get_fsn x (with_list l s) = get_fsn x s" "superblocks (t_vfs (with_list l s)) = superblocks (t_vfs s)"
  "dv_next (dev (with_list l s)) = dv_next (dev s)" "t_heap (with_list l s) = t_heap s" "rw_state b p (with_list l s) = rw_state b p s"
  by (simp_all add: with_list_def rw_state_def idle_wq_def cong: option.case_cong)

lemma create_list:
  assumes "kmalloc_live (t_heap s) L" "allocs kmalloc ((if isdir then [sizeof_list_t] else []) @ [sizeof_node_t]) (t_heap s)" "dom (dv_dirs (dev s)) \<subseteq> dom L"
  obtains l h where "(if isdir then kma sizeof_list_t s else Some (NULL, s)) = Some (l, s\<lparr>t_heap := h\<rparr>)" "isdir \<longleftrightarrow> l \<noteq> NULL"
    "dv_dirs (dev s) l0 \<noteq> None \<longrightarrow> dv_dirs (dev (with_list l (s\<lparr>t_heap := h\<rparr>))) l0 = dv_dirs (dev s) l0"
    "\<exists>M. kmalloc_live h M" "allocs kmalloc [sizeof_node_t] h"
proof (cases isdir)
  case True
  have "allocs kmalloc (sizeof_list_t # [sizeof_node_t]) (t_heap s)" "sizeof_list_t \<le> heap_limit"
    using assms(2) True by (simp_all add: sizeof_defs heap_limit_def del: allocs.simps)
  with assms(1) obtain l h where l: "kma sizeof_list_t s = Some (l, s\<lparr>t_heap := h\<rparr>)" "l \<noteq> NULL" "L l = None" "kmalloc_live h (L(l \<mapsto> sizeof_list_t))"
    "allocs kmalloc [sizeof_node_t] h" by (rule alloc_step [OF _ _ _ refl])
  with assms(3) have "dv_dirs (dev s) l = None" by blast
  with l True show ?thesis by (intro that [of l h]) (auto simp: with_list_def simp del: allocs.simps)
next
  case False
  with assms show ?thesis by (intro that [of NULL "t_heap s"]) (auto simp: with_list_def simp del: allocs.simps)
qed

lemma find_dirent_new:
  assumes "\<And>n e i nm. (n, e, i, nm) \<in> set q \<Longrightarrow> c_string nm \<and> \<not> str_match nm fname" "c_string fname"
  shows "find_dirent fname (q @ [(n, e, i, fname)]) = Some (Some (n, e, i, fname))"
  using assms(1)
proof (induction q)
  case Nil
  then show ?case using strcmp_match [OF assms(2,2)] by auto
next
  case (Cons a q)
  obtain n' e' i' nm where a: "a = (n', e', i', nm)" by (cases a)
  have "find_dirent fname (q @ [(n, e, i, fname)]) = Some (Some (n, e, i, fname))" using Cons.prems by (intro Cons.IH) auto
  moreover have "c_string nm" "\<not> str_match nm fname" using Cons.prems [of n' e' i' nm] a by auto
  ultimately show ?case using strcmp_match [OF _ assms(2), of nm] a by auto
qed

lemma get_vacant_least:
  assumes "files_ok sbp xs s" "i \<notin> set (inodes s xs)" "\<forall>j < i. j \<in> set (inodes s xs)"
  shows "get_empty_inode sbp s = Some i"
proof -
  from get_empty_inode_files [OF assms(1)] obtain k where k: "get_empty_inode sbp s = Some k" "k \<notin> set (inodes s xs)" "\<forall>j < k. j \<in> set (inodes s xs)" by blast
  then have "\<not> k < i" "\<not> i < k" using assms(2,3) by blast+
  with k(1) show ?thesis by simp
qed

text \<open>\<^verbatim>\<open>create\<close> up to the point where it holds the semaphore.\<close>

lemma create_enter:
  assumes r: "devfs_ready sbp xs parent pd q sem s" and a: "allocs kmalloc (sizeof_dev_file # sizeof_dirent # ns) (t_heap s)"
  obtains f h1 e h2 sL M where "kma sizeof_dev_file s = Some (f, s\<lparr>t_heap := h1\<rparr>)" "kma sizeof_dirent (s\<lparr>t_heap := h1\<rparr>) = Some (e, s\<lparr>t_heap := h2\<rparr>)"
    "f \<noteq> NULL" "e \<noteq> NULL" "get_fsn f s = None" "acquire_write sem (s\<lparr>t_heap := h2\<rparr>) = Some sL" "sem_held sem sL" "same_files (s\<lparr>t_heap := h2\<rparr>) sL"
    "files_ok sbp xs sL" "kmalloc_live h2 M" "dom (dv_dirs (dev sL)) \<subseteq> dom M" "allocs kmalloc ns h2"
proof -
  from r obtain L where L: "kmalloc_live (t_heap s) L" "dom (fs_nodes (t_vfs s)) \<subseteq> dom L" "dom (dv_dirs (dev s)) \<subseteq> dom L"
    by (auto simp: devfs_ready_def heap_owns_def)
  have lim: "sizeof_dev_file \<le> heap_limit" "sizeof_dirent \<le> heap_limit" using create_sizes_limit(1) by (auto simp: create_sizes_def)
  from alloc_step [OF L(1) a lim(1) refl] obtain f h1 where f: "kma sizeof_dev_file s = Some (f, s\<lparr>t_heap := h1\<rparr>)" "f \<noteq> NULL" "L f = None"
    "kmalloc_live h1 (L(f \<mapsto> sizeof_dev_file))" "allocs kmalloc (sizeof_dirent # ns) h1" .
  have "t_heap (s\<lparr>t_heap := h1\<rparr>) = h1" by simp
  from alloc_step [OF f(4,5) lim(2) this] obtain e h2 where e: "kma sizeof_dirent (s\<lparr>t_heap := h1\<rparr>) = Some (e, s\<lparr>t_heap := h1, t_heap := h2\<rparr>)" "e \<noteq> NULL"
    "(L(f \<mapsto> sizeof_dev_file)) e = None" "kmalloc_live h2 (L(f \<mapsto> sizeof_dev_file, e \<mapsto> sizeof_dirent))" "allocs kmalloc ns h2" .
  define s2 where "s2 = s\<lparr>t_heap := h2\<rparr>"
  have "sem_free sem s2" using r rw_state_cong [of s2 s False sem] by (simp add: devfs_ready_def s2_def)
  from acquire_write_free [OF this] obtain sL where sL: "acquire_write sem s2 = Some sL" "sem_held sem sL" "same_files s2 sL" by blast
  have "files_ok sbp xs sL" using r sL(3) files_ok_cong [of s2 sbp s xs] same_files_ok [of s2 sL sbp xs] by (simp add: devfs_ready_def s2_def)
  moreover have "get_fsn f s = None" using L(2) f(3) by (auto simp: get_fsn_def)
  moreover have "dom (dv_dirs (dev sL)) \<subseteq> dom (L(f \<mapsto> sizeof_dev_file, e \<mapsto> sizeof_dirent))"
    using L(3) sL(3) by (auto simp: same_files_def s2_def)
  ultimately show ?thesis using f e sL by (intro that [of f h1 e h2 sL "L(f \<mapsto> sizeof_dev_file, e \<mapsto> sizeof_dirent)"]) (simp_all add: s2_def)
qed

text \<open>From there to the end.\<close>

lemma create_leave:
  assumes ok: "files_ok sbp xs s" "length xs + 2 < two32" and f: "f \<noteq> NULL" "get_fsn f s = None" and q: "dv_dirs (dev s) (nd_private pd) = Some q"
    and len: "length fname < NAME_MAX" and h: "kmalloc_live (t_heap s) M" "allocs kmalloc [sizeof_node_t] (t_heap s)" and sem: "sem_held sem s"
    and i: "get_empty_inode sbp s = Some i" and nd: "nd_inode nd = i"
  obtains s' ys n where "do {
      s \<leftarrow> file_insert sbp f (put_fsn f nd s);
      s \<leftarrow> add_entry (nd_private pd) e i fname s;
      s \<leftarrow> release_write sem s;
      Some (0 :: int, s)
    } = Some (0, s')" "files_ok sbp ys s'" "\<forall>x. get_fsn x s' = (if x = f then Some nd else get_fsn x s)"
    "dv_dirs (dev s') (nd_private pd) = Some (q @ [(n, e, i, fname)])" "sem_free sem s'" "\<exists>L. kmalloc_live (t_heap s') L"
    "by_inode s' ys = (by_inode s xs)(i \<mapsto> f)" "i \<notin> set (inodes s xs)" "\<forall>j < i. j \<in> set (inodes s xs)"
proof -
  have lim: "sizeof_node_t \<le> heap_limit" using create_sizes_limit(1) by (auto simp: create_sizes_def)
  from h heap.malloc_new [OF h(1) lim] heap.malloc_live [OF h(1) lim] obtain n h4 where
    n: "kmalloc sizeof_node_t (t_heap s) = Some (n, h4)" "n \<noteq> NULL" "kmalloc_live h4 (M(n \<mapsto> sizeof_node_t))" by (auto split: option.splits)
  from create_locked [OF ok f q len n(1,2) i nd, of e] obtain s4 ys where
    s4: "do { s \<leftarrow> file_insert sbp f (put_fsn f nd s); add_entry (nd_private pd) e i fname s } = Some s4" "files_ok sbp ys s4"
      "\<forall>x. get_fsn x s4 = (if x = f then Some nd else get_fsn x s)" "dv_dirs (dev s4) = (dv_dirs (dev s))(nd_private pd \<mapsto> q @ [(n, e, i, fname)])"
      "t_heap s4 = h4" "\<forall>sem b. rw_state b sem s4 = rw_state b sem s" "by_inode s4 ys = (by_inode s xs)(i \<mapsto> f)"
    and i': "i \<notin> set (inodes s xs)" "\<forall>j < i. j \<in> set (inodes s xs)" by blast
  from release_write_held [of sem s4] s4(6) sem obtain s5 where s5: "release_write sem s4 = Some s5" "sem_free sem s5" "same_files s4 s5" by blast
  show ?thesis
  proof (rule that [OF _ _ _ _ s5(2) _ _ i'])
    show "do { s \<leftarrow> file_insert sbp f (put_fsn f nd s); s \<leftarrow> add_entry (nd_private pd) e i fname s; s \<leftarrow> release_write sem s; Some (0 :: int, s) } = Some (0, s5)"
      using s4(1) s5(1) by (auto simp: Option.bind_eq_Some_conv)
    show "files_ok sbp ys s5" using s4(2) same_files_ok [OF s5(3)] by simp
    show "\<forall>x. get_fsn x s5 = (if x = f then Some nd else get_fsn x s)" using s4(3) same_files_get(1) [OF s5(3)] by simp
    show "dv_dirs (dev s5) (nd_private pd) = Some (q @ [(n, e, i, fname)])" using s4(4) s5(3) by (simp add: same_files_def)
    show "\<exists>L. kmalloc_live (t_heap s5) L" using n(3) s4(5) s5(3) by (auto simp: same_files_def)
    show "by_inode s5 ys = (by_inode s xs)(i \<mapsto> f)" using s4(7) same_files_get(2) [OF s5(3)] by simp
  qed
qed

lemma devfs_create_steps:
  assumes r: "devfs_ready sbp xs parent pd q sem s" and t: "mode AND VFS_TYPE_MASK \<in> {VFS_DIR, VFS_BLOCKDEV, VFS_CHARDEV}"
    and len: "length fname < NAME_MAX" and a: "allocs kmalloc (create_sizes mode) (t_heap s)"
  obtains s' i f ys l n e where "devfs_create now parent fname uid gid mode d s = Some (0, s')" "f \<noteq> NULL" "get_fsn f s = None"
    "files_ok sbp ys s'" "by_inode s' ys = (by_inode s xs)(i \<mapsto> f)" "i \<notin> set (inodes s xs)" "\<forall>j < i. j \<in> set (inodes s xs)"
    "\<forall>x. get_fsn x s' = (if x = f then Some (new_dev_node i now uid gid mode d sbp l) else get_fsn x s)"
    "dv_dirs (dev s') (nd_private pd) = Some (q @ [(n, e, i, fname)])" "sem_free sem s'" "\<exists>L. kmalloc_live (t_heap s') L"
proof -
  from a have "allocs kmalloc (sizeof_dev_file # sizeof_dirent # (if mode AND VFS_DIR \<noteq> 0 then [sizeof_list_t] else []) @ [sizeof_node_t]) (t_heap s)"
    by (simp add: create_sizes_def del: allocs.simps)
  from create_enter [OF r this] obtain f h1 e h2 sL M where en: "kma sizeof_dev_file s = Some (f, s\<lparr>t_heap := h1\<rparr>)"
      "kma sizeof_dirent (s\<lparr>t_heap := h1\<rparr>) = Some (e, s\<lparr>t_heap := h2\<rparr>)"
    and f: "f \<noteq> NULL" "e \<noteq> NULL" "get_fsn f s = None" and sL: "acquire_write sem (s\<lparr>t_heap := h2\<rparr>) = Some sL" "sem_held sem sL" "same_files (s\<lparr>t_heap := h2\<rparr>) sL"
    and okL: "files_ok sbp xs sL" and M: "kmalloc_live h2 M" "dom (dv_dirs (dev sL)) \<subseteq> dom M"
      "allocs kmalloc ((if mode AND VFS_DIR \<noteq> 0 then [sizeof_list_t] else []) @ [sizeof_node_t]) h2" .
  have gL: "get_fsn x sL = get_fsn x s" "superblocks (t_vfs sL) = superblocks (t_vfs s)" "t_heap sL = h2" "dv_dirs (dev sL) = dv_dirs (dev s)" for x
    using sL(3) by (simp_all add: same_files_def get_fsn_def)
  from get_empty_inode_files [OF okL] obtain i where i: "get_empty_inode sbp sL = Some i" "i \<notin> set (inodes sL xs)" "\<forall>j < i. j \<in> set (inodes sL xs)" by blast
  from create_list [of sL, unfolded gL(3), OF M(1,3,2), of "nd_private pd"] obtain l h3 where
    l: "(if mode AND VFS_DIR \<noteq> 0 then kma sizeof_list_t sL else Some (NULL, sL)) = Some (l, sL\<lparr>t_heap := h3\<rparr>)" "(mode AND VFS_DIR \<noteq> 0) = (l \<noteq> NULL)"
    and q3: "dv_dirs (dev sL) (nd_private pd) \<noteq> None \<longrightarrow> dv_dirs (dev (with_list l (sL\<lparr>t_heap := h3\<rparr>))) (nd_private pd) = dv_dirs (dev sL) (nd_private pd)"
    and h3: "\<exists>M. kmalloc_live h3 M" "allocs kmalloc [sizeof_node_t] h3" .
  define s3 where "s3 = with_list l (sL\<lparr>t_heap := h3\<rparr>)"
  from h3(1) obtain N where N: "kmalloc_live (t_heap s3) N" by (auto simp: s3_def)
  have ino: "inode_at s3 = inode_at s" "inode_at sL = inode_at s" using gL(1) by (simp_all add: fun_eq_iff inode_at_def s3_def)
  have ok3: "files_ok sbp xs s3" using okL files_ok_cong [of s3 sbp sL xs] by (simp add: s3_def)
  have i3: "get_empty_inode sbp s3 = Some i" using get_vacant_least [OF ok3] i(2,3) ino by simp
  have g3: "get_fsn f s3 = None" "dv_dirs (dev s3) (nd_private pd) = Some q" "sem_held sem s3" "allocs kmalloc [sizeof_node_t] (t_heap s3)" "length xs + 2 < two32"
    using f(3) gL q3 r h3(2) sL(2) rw_state_cong [of "sL\<lparr>t_heap := h3\<rparr>" sL True sem] by (simp_all add: s3_def devfs_ready_def del: allocs.simps)
  have "nd_inode (new_dev_node i now uid gid mode d sbp l) = i" by (simp add: new_dev_node_def)
  from create_leave [OF ok3 g3(5) f(1) g3(1,2) len N g3(4,3) i3 this, of e] obtain s' ys n where
    s': "do {
      s \<leftarrow> file_insert sbp f (put_fsn f (new_dev_node i now uid gid mode d sbp l) s3);
      s \<leftarrow> add_entry (nd_private pd) e i fname s;
      s \<leftarrow> release_write sem s;
      Some (0 :: int, s)
    } = Some (0, s')" "files_ok sbp ys s'" "\<forall>x. get_fsn x s' = (if x = f then Some (new_dev_node i now uid gid mode d sbp l) else get_fsn x s3)"
    "dv_dirs (dev s') (nd_private pd) = Some (q @ [(n, e, i, fname)])" "sem_free sem s'" "\<exists>L. kmalloc_live (t_heap s') L"
    "by_inode s' ys = (by_inode s3 xs)(i \<mapsto> f)" "i \<notin> set (inodes s3 xs)" "\<forall>j < i. j \<in> set (inodes s3 xs)" .
  have "devfs_create now parent fname uid gid mode d s = Some (0, s')"
    using r t en f sL(1) gL i(1) l s'(1)
    by (auto simp: devfs_create_def devfs_ready_def sem_of_def Let_def with_list_def s3_def get_fsn_def [of parent])
  then show ?thesis using f s' i ino gL(1) by (intro that [of s' f ys i l n e]) (simp_all add: s3_def)
qed

text \<open>An allocation returns, or the sequence of allocations that begins with it does not.\<close>

lemma kma_cases:
  assumes "kmalloc_live (t_heap s) L" "n \<le> heap_limit"
  obtains "kma n s = None" "\<not> allocs kmalloc (n # ns) (t_heap s)"
  | p h where "kma n s = Some (p, s\<lparr>t_heap := h\<rparr>)" "p \<noteq> NULL" "kmalloc_live h (L(p \<mapsto> n))" "L p = None" "allocs kmalloc (n # ns) (t_heap s) = allocs kmalloc ns h"
proof (cases "kmalloc n (t_heap s)")
  case None
  then show ?thesis using that(1) by (simp add: kma_def)
next
  case (Some ph)
  obtain p h where "ph = (p, h)" by (cases ph)
  with Some heap.malloc_new [OF assms] heap.malloc_live [OF assms] show ?thesis by (intro that(2) [of p h]) (simp_all add: kma_def)
qed

lemma file_insert_heap: "file_insert sbp f s = Some s' \<Longrightarrow> t_heap s' = t_heap s"
  by (auto simp: file_insert_def split: bind_splits)

lemma create_tail_needs:
  "kmalloc sizeof_node_t (t_heap s) = None \<Longrightarrow> Option.bind (file_insert sbp f (put_fsn f nd s)) (\<lambda>s. Option.bind (add_entry l0 e i fname s) g) = None"
  by (cases "file_insert sbp f (put_fsn f nd s)") (auto dest!: file_insert_heap simp: add_entry_def kma_def split: bind_splits)

lemma create_list_needs:
  assumes "kmalloc_live (t_heap s) L" "\<not> allocs kmalloc ((if isdir then [sizeof_list_t] else []) @ [sizeof_node_t]) (t_heap s)"
  shows "(if isdir then kma sizeof_list_t s else Some (NULL, s)) = None
    \<or> (\<exists>l s'. (if isdir then kma sizeof_list_t s else Some (NULL, s)) = Some (l, s') \<and> isdir = (l \<noteq> NULL) \<and> kmalloc sizeof_node_t (t_heap s') = None)"
proof (cases isdir)
  case True
  have lim: "sizeof_list_t \<le> heap_limit" by (simp add: sizeof_defs heap_limit_def)
  show ?thesis
    by (rule kma_cases [OF assms(1) lim, of "[sizeof_node_t]"]) (use assms(2) True in \<open>auto split: option.splits\<close>)
next
  case False
  then show ?thesis using assms(2) by (auto split: option.splits)
qed

lemma devfs_create_needs:
  assumes r: "devfs_ready sbp xs parent pd q sem s" and n: "\<not> allocs kmalloc (create_sizes mode) (t_heap s)"
    and t: "mode AND VFS_TYPE_MASK \<in> {VFS_DIR, VFS_BLOCKDEV, VFS_CHARDEV}"
  shows "devfs_create now parent fname uid gid mode d s = None"
proof -
  let ?rest = "(if mode AND VFS_DIR \<noteq> 0 then [sizeof_list_t] else []) @ [sizeof_node_t]"
  from r obtain L sb where L: "kmalloc_live (t_heap s) L"
    and pd: "get_fsn parent s = Some pd" "nd_fs_sb pd = sbp" "superblocks (t_vfs s) sbp = Some sb" "sb_private sb = sem"
    by (auto simp: devfs_ready_def heap_owns_def)
  have lim: "sizeof_dev_file \<le> heap_limit" "sizeof_dirent \<le> heap_limit" "sizeof_node_t \<le> heap_limit" "sizeof_list_t \<le> heap_limit"
    by (simp_all add: sizeof_defs sizeof_dev_file_def sizeof_dirent_def heap_limit_def)
  show ?thesis
  proof (rule kma_cases [OF L lim(1), of "sizeof_dirent # ?rest"])
    assume "kma sizeof_dev_file s = None"
    then show ?thesis using t by (auto simp: devfs_create_def)
  next
    fix f h1 assume f: "kma sizeof_dev_file s = Some (f, s\<lparr>t_heap := h1\<rparr>)" "f \<noteq> NULL" and h1: "kmalloc_live h1 (L(f \<mapsto> sizeof_dev_file))"
      and a1: "allocs kmalloc (sizeof_dev_file # sizeof_dirent # ?rest) (t_heap s) = allocs kmalloc (sizeof_dirent # ?rest) h1"
    have na1: "\<not> allocs kmalloc (sizeof_dirent # ?rest) h1" using n unfolding a1 [symmetric] by (simp add: create_sizes_def del: allocs.simps)
    have h1': "kmalloc_live (t_heap (s\<lparr>t_heap := h1\<rparr>)) (L(f \<mapsto> sizeof_dev_file))" using h1 by simp
    show ?thesis
    proof (rule kma_cases [OF h1' lim(2), of ?rest])
      assume "kma sizeof_dirent (s\<lparr>t_heap := h1\<rparr>) = None"
      then show ?thesis using t f by (auto simp: devfs_create_def)
    next
      fix e h2 assume e: "kma sizeof_dirent (s\<lparr>t_heap := h1\<rparr>) = Some (e, s\<lparr>t_heap := h1, t_heap := h2\<rparr>)" "e \<noteq> NULL" and h2: "kmalloc_live h2 (L(f \<mapsto> sizeof_dev_file, e \<mapsto> sizeof_dirent))"
        and a2: "allocs kmalloc (sizeof_dirent # ?rest) (t_heap (s\<lparr>t_heap := h1\<rparr>)) = allocs kmalloc ?rest h2"
      have na2: "\<not> allocs kmalloc ?rest h2" using na1 a2 by (simp del: allocs.simps)
      have "sem_free sem (s\<lparr>t_heap := h2\<rparr>)" using r rw_state_cong [of "s\<lparr>t_heap := h2\<rparr>" s False sem] by (simp add: devfs_ready_def)
      from acquire_write_free [OF this] obtain sL where sL: "acquire_write sem (s\<lparr>t_heap := h2\<rparr>) = Some sL" "same_files (s\<lparr>t_heap := h2\<rparr>) sL" by blast
      have "files_ok sbp xs sL" using r sL(2) files_ok_cong [of "s\<lparr>t_heap := h2\<rparr>" sbp s xs] same_files_ok [OF sL(2)] by (simp add: devfs_ready_def)
      from get_empty_inode_files [OF this] obtain i where i: "get_empty_inode sbp sL = Some i" by blast
      have "t_heap sL = h2" using sL(2) by (simp add: same_files_def)
      from create_list_needs [of sL _ "mode AND VFS_DIR \<noteq> 0", unfolded this, OF h2 na2] show ?thesis
      proof (elim disjE exE conjE)
        assume "(if mode AND VFS_DIR \<noteq> 0 then kma sizeof_list_t sL else Some (NULL, sL)) = None"
        then show ?thesis using t pd f e sL(1) i by (auto simp: devfs_create_def sem_of_def)
      next
        fix l s' assume l: "(if mode AND VFS_DIR \<noteq> 0 then kma sizeof_list_t sL else Some (NULL, sL)) = Some (l, s')"
          "(mode AND VFS_DIR \<noteq> 0) = (l \<noteq> NULL)" "kmalloc sizeof_node_t (t_heap s') = None"
        show ?thesis using t pd f e sL(1) i l
          by (cases "l = NULL") (simp_all add: devfs_create_def sem_of_def Let_def create_tail_needs)
      qed
    qed
  qed
qed

subsection \<open>Example\<close>

text \<open>A device file system with the root directory and one file, \<open>null\<close>, that has inode 2.\<close>

definition demo_root :: fs_node where
  "demo_root = (new_dev_node 0 0 0 0 (0x1ED OR VFS_DIR) 0 200 (demo_ptr 1))"

definition demo_null :: fs_node where
  "demo_null = (new_dev_node 2 0 0 0 (0x1B6 OR VFS_CHARDEV) 0x01000003 200 NULL)"

definition demo_entries :: dlist where
  "demo_entries = [(demo_ptr 3, demo_ptr 4, 2, [0x6E, 0x75, 0x6C, 0x6C])]"

definition demo_devfs :: dst where
  "demo_devfs = (device_state demo_six [demo_ptr 0 \<mapsto> demo_root, demo_ptr 2 \<mapsto> demo_null]
     [200 \<mapsto> \<lparr>sb_dev = 0, sb_private = 300, sb_root = demo_ptr 0, sb_blocksize = 0, sb_flags = 0, sb_close_fs = devfs_close_fs\<rparr>]
     (empty_devices\<lparr>dv_next := [demo_ptr 0 \<mapsto> demo_ptr 2, demo_ptr 2 \<mapsto> NULL], dv_dirs := [demo_ptr 1 \<mapsto> demo_entries],
        dv_rw_sems := [300 \<mapsto> \<lparr>rw_write = 301, rw_semaphore = 302\<rparr>], dv_mutexes := [301 \<mapsto> \<lparr>mx_mutex = 0, mx_wq = 303\<rparr>],
        dv_sems := [302 \<mapsto> \<lparr>sem_semaphore = 0, sem_max = 32, sem_wq = 304\<rparr>]\<rparr>))
     \<lparr>wqs := [303 \<mapsto> \<lparr>wq_list = 305, wq_tasks = []\<rparr>, 304 \<mapsto> \<lparr>wq_list = 306, wq_tasks = []\<rparr>]\<rparr>"

lemma demo_devfs_files: "files_ok 200 [demo_ptr 0, demo_ptr 2] demo_devfs"
  using demo_ptr_simps(2) [of 0] demo_ptr_simps(2) [of 2]
  by (simp add: files_ok_def demo_devfs_def device_state_def empty_devices_def get_fsn_def inode_at_def demo_root_def demo_null_def new_dev_node_def two32_def)

lemma demo_devfs_ready: "devfs_ready 200 [demo_ptr 0, demo_ptr 2] (demo_ptr 0) demo_root demo_entries 300 demo_devfs"
proof -
  have "dom demo_live = demo_ptr ` set [0, 1, 2, 3, 4, 5]" by (simp add: demo_live_def)
  then have "heap_owns demo_devfs demo_live" using demo_six_live by (simp add: heap_owns_def demo_devfs_def device_state_def empty_devices_def)
  moreover have "sem_free 300 demo_devfs"
    by (simp add: rw_state_def demo_devfs_def device_state_def empty_devices_def idle_wq_def two32_def)
  moreover have "get_fsn (demo_ptr 0) demo_devfs = Some demo_root" "superblocks (t_vfs demo_devfs) 200 \<noteq> None"
    "map_option sb_private (superblocks (t_vfs demo_devfs) 200) = Some 300" "dv_dirs (dev demo_devfs) (demo_ptr 1) = Some demo_entries"
    by (simp_all add: demo_devfs_def device_state_def empty_devices_def get_fsn_def)
  ultimately show ?thesis using demo_devfs_files
    by (auto simp: devfs_ready_def demo_root_def new_dev_node_def two32_def)
qed

subsection \<open>Properties\<close>

text \<open>
  C36. The sorted chain of files implements a table from inodes to files: \<^verbatim>\<open>file_insert\<close> of a new file with a free inode returns and adds exactly
  this file, so that \<^verbatim>\<open>get_inode\<close> finds it under its inode and finds under every other inode what it found before.
\<close>

theorem file_insert_refines:
  assumes "file_tab sbp s T" "node_inode f s = Some i" "f \<noteq> NULL" "f \<notin> ran T" "T i = None" "i < two32 - 1"
  shows "\<exists>s'. file_insert sbp f s = Some s' \<and> file_tab sbp s' (T(i \<mapsto> f)) \<and> get_inode sbp i s' = Some f
     \<and> (\<forall>j. j \<noteq> i \<longrightarrow> get_inode sbp j s' = get_inode sbp j s)"
  using devfiles.enter_law [OF assms] devfiles.look_entered [OF assms] by auto

theorem file_insert_refines_witness:
  "\<exists>s'. file_insert 200 (demo_ptr 5) (put_fsn (demo_ptr 5) (demo_null\<lparr>nd_inode := 1\<rparr>) demo_devfs) = Some s' \<and> get_inode 200 1 s' = Some (demo_ptr 5)
     \<and> get_inode 200 2 s' = Some (demo_ptr 2)"
proof -
  define s where "s = put_fsn (demo_ptr 5) (demo_null\<lparr>nd_inode := 1\<rparr>) demo_devfs"
  have ok: "files_ok 200 [demo_ptr 0, demo_ptr 2] s"
    using demo_devfs_files by (subst files_ok_cong [of s 200 demo_devfs]) (auto simp: s_def)
  have T: "by_inode s [demo_ptr 0, demo_ptr 2] = [0 \<mapsto> demo_ptr 0, 2 \<mapsto> demo_ptr 2]"
    by (simp add: fun_eq_iff inode_at_def s_def demo_devfs_def device_state_def get_fsn_def put_fsn_def upd_vfs_def demo_root_def demo_null_def new_dev_node_def)
  have "file_tab 200 s [0 \<mapsto> demo_ptr 0, 2 \<mapsto> demo_ptr 2]" using ok T by (auto simp: file_tab_def)
  moreover have "node_inode (demo_ptr 5) s = Some 1" by (simp add: node_inode_def s_def)
  moreover have "demo_ptr 5 \<notin> ran [0 \<mapsto> demo_ptr 0, 2 \<mapsto> demo_ptr 2]" by (auto simp: ran_def)
  ultimately obtain s' where "file_insert 200 (demo_ptr 5) s = Some s'" "get_inode 200 1 s' = Some (demo_ptr 5)" "get_inode 200 2 s' = get_inode 200 2 s"
    using file_insert_refines [of 200 s "[0 \<mapsto> demo_ptr 0, 2 \<mapsto> demo_ptr 2]" "demo_ptr 5" 1] by (auto simp: two32_def)
  moreover have "get_inode 200 2 s = Some (demo_ptr 2)" unfolding get_inode_files [OF ok] T by simp
  ultimately show ?thesis by (auto simp: s_def)
qed



end
