(* ===== verification/Pci.thy ===== *)
theory Pci
  imports Timer Block
begin

section \<open>The PCI bus (kernel/pci.c, kernel/port.s)\<close>

text \<open>
  The enumeration of the devices of the PCI bus, and the drivers that are offered them. What is behind the ports of the machine is an
  argument: a record of what each access returns and does to the state of the hardware. Buses and devices are kept by address;
  the two static structures \<^verbatim>\<open>bus0\<close> and \<^verbatim>\<open>host\<close> have the addresses \<open>pc_bus0\<close> and \<open>pc_host\<close>. The rest of the kernel is in \<open>pc_time\<close>.
  The function \<^verbatim>\<open>probe\<close> of a driver is a number, and the argument \<open>probes\<close> gives the function.
\<close>

unbundle bit_operations_syntax

subsection \<open>Ports\<close>

record 'h hardware =
  hw_in8 :: "16 word \<Rightarrow> 'h \<Rightarrow> 8 word \<times> 'h"
  hw_in16 :: "16 word \<Rightarrow> 'h \<Rightarrow> 16 word \<times> 'h"
  hw_in32 :: "16 word \<Rightarrow> 'h \<Rightarrow> 32 word \<times> 'h"
  hw_out8 :: "16 word \<Rightarrow> 8 word \<Rightarrow> 'h \<Rightarrow> 'h"
  hw_out16 :: "16 word \<Rightarrow> 16 word \<Rightarrow> 'h \<Rightarrow> 'h"
  hw_out32 :: "16 word \<Rightarrow> 32 word \<Rightarrow> 'h \<Rightarrow> 'h"

subsection \<open>Data\<close>

record pci_bus =
  pb_parent :: addr
  pb_children :: addr
  pb_sibling :: addr
  pb_next :: addr
  pb_self :: addr
  pb_devs :: addr
  pb_primary :: "8 word"
  pb_secondary :: "8 word"
  pb_subordinate :: "8 word"

record pci_dev =
  pd_bus :: addr
  pd_sibling :: addr
  pd_next :: addr
  pd_slot :: "8 word"
  pd_func :: "8 word"
  pd_vendor :: "16 word"
  pd_device :: "16 word"
  pd_class :: "16 word"
  pd_claimed :: bool

record pci_dev_id =
  id_vendor :: "16 word"
  id_device :: "16 word"
  id_class :: "16 word"
  id_mask :: "16 word"

record pci_driver =
  dr_name :: bytes
  dr_table :: "pci_dev_id list"
  dr_probe :: nat

record 'h pci =
  pc_time :: "devstate vfs timing"
  pc_hw :: 'h
  pc_buses :: "addr \<rightharpoonup> pci_bus"
  pc_devs :: "addr \<rightharpoonup> pci_dev"
  pc_bus0 :: addr
  pc_host :: addr
  pc_drivers_list :: addr
  pc_drivers :: queue
  pc_drvs :: "addr \<rightharpoonup> pci_driver"
  pc_lock :: bool

definition CONFIG_ADDRESS :: "16 word" where "CONFIG_ADDRESS = 0x0CF8"
definition CONFIG_DATA :: "16 word" where "CONFIG_DATA = 0x0CFC"
definition PCI_ANY :: "16 word" where "PCI_ANY = 0xFFFF"
definition PCI_VENDOR_ID :: "8 word" where "PCI_VENDOR_ID = 0x00"
definition PCI_DEVICE_ID :: "8 word" where "PCI_DEVICE_ID = 0x02"
definition PCI_CLASS_DEVICE :: "8 word" where "PCI_CLASS_DEVICE = 0x0A"
definition PCI_HEADER_TYPE :: "8 word" where "PCI_HEADER_TYPE = 0x0E"
definition PCI_PRIMARY_BUS :: "8 word" where "PCI_PRIMARY_BUS = 0x18"
definition PCI_SECONDARY_BUS :: "8 word" where "PCI_SECONDARY_BUS = 0x19"
definition PCI_SUBORDINATE_BUS :: "8 word" where "PCI_SUBORDINATE_BUS = 0x1A"
definition PCI_CLASS_BRIDGE_HOST :: "16 word" where "PCI_CLASS_BRIDGE_HOST = 0x0600"
definition PCI_CLASS_BRIDGE_PCI :: "16 word" where "PCI_CLASS_BRIDGE_PCI = 0x0604"
definition sizeof_pci_dev :: nat where "sizeof_pci_dev = 24"
definition sizeof_pci_bus :: nat where "sizeof_pci_bus = 28"
definition sizeof_pci_driver :: nat where "sizeof_pci_driver = 12"

abbreviation pc_sys :: "('h, 'z) pci_scheme \<Rightarrow> dst" where
  "pc_sys s \<equiv> tm_sys (pc_time s)"

definition put_sys :: "dst \<Rightarrow> ('h, 'z) pci_scheme \<Rightarrow> ('h, 'z) pci_scheme" where
  "put_sys t s = s\<lparr>pc_time := (pc_time s)\<lparr>tm_sys := t\<rparr>\<rparr>"

definition pc_kma :: "nat \<Rightarrow> ('h, 'z) pci_scheme \<Rightarrow> (addr \<times> ('h, 'z) pci_scheme) option" where
  "pc_kma n s = do { (p, t) \<leftarrow> kma n (pc_sys s); Some (p, put_sys t s) }"

definition pc_kfr :: "addr \<Rightarrow> ('h, 'z) pci_scheme \<Rightarrow> ('h, 'z) pci_scheme option" where
  "pc_kfr p s = do { t \<leftarrow> kfr p (pc_sys s); Some (put_sys t s) }"

definition put_pdev :: "addr \<Rightarrow> pci_dev \<Rightarrow> ('h, 'z) pci_scheme \<Rightarrow> ('h, 'z) pci_scheme" where
  "put_pdev p d s = s\<lparr>pc_devs := (pc_devs s)(p \<mapsto> d)\<rparr>"

definition put_pbus :: "addr \<Rightarrow> pci_bus \<Rightarrow> ('h, 'z) pci_scheme \<Rightarrow> ('h, 'z) pci_scheme" where
  "put_pbus p b s = s\<lparr>pc_buses := (pc_buses s)(p \<mapsto> b)\<rparr>"

subsection \<open>Configuration space\<close>

text \<open>The address that selects a register of a function of a device.\<close>

definition config_address :: "8 word \<Rightarrow> 8 word \<Rightarrow> 8 word \<Rightarrow> 8 word \<Rightarrow> 32 word" where
  "config_address bus slot func off =
    (push_bit 16 (ucast bus) OR push_bit 11 (ucast slot) OR push_bit 8 (ucast func) OR ucast off OR 0x80000000)"

definition config_select :: "'h hardware \<Rightarrow> 8 word \<Rightarrow> 8 word \<Rightarrow> 8 word \<Rightarrow> 8 word \<Rightarrow> 'h \<Rightarrow> 'h" where
  "config_select hw bus slot func off = hw_out32 hw CONFIG_ADDRESS (config_address bus slot func off)"

definition pciConfigReadDword :: "'h hardware \<Rightarrow> 8 word \<Rightarrow> 8 word \<Rightarrow> 8 word \<Rightarrow> 8 word \<Rightarrow> 'h \<Rightarrow> 32 word \<times> 'h" where
  "pciConfigReadDword hw bus slot func off h = hw_in32 hw CONFIG_DATA (config_select hw bus slot func off h)"

definition pciConfigReadWord :: "'h hardware \<Rightarrow> 8 word \<Rightarrow> 8 word \<Rightarrow> 8 word \<Rightarrow> 8 word \<Rightarrow> 'h \<Rightarrow> 16 word \<times> 'h" where
  "pciConfigReadWord hw bus slot func off h = hw_in16 hw (CONFIG_DATA + ucast (off AND 2)) (config_select hw bus slot func off h)"

definition pciConfigReadByte :: "'h hardware \<Rightarrow> 8 word \<Rightarrow> 8 word \<Rightarrow> 8 word \<Rightarrow> 8 word \<Rightarrow> 'h \<Rightarrow> 8 word \<times> 'h" where
  "pciConfigReadByte hw bus slot func off h = hw_in8 hw (CONFIG_DATA + ucast (off AND 3)) (config_select hw bus slot func off h)"

definition pciConfigWriteDword :: "'h hardware \<Rightarrow> 8 word \<Rightarrow> 8 word \<Rightarrow> 8 word \<Rightarrow> 8 word \<Rightarrow> 32 word \<Rightarrow> 'h \<Rightarrow> 'h" where
  "pciConfigWriteDword hw bus slot func off v h = hw_out32 hw CONFIG_DATA v (config_select hw bus slot func off h)"

definition pciConfigWriteWord :: "'h hardware \<Rightarrow> 8 word \<Rightarrow> 8 word \<Rightarrow> 8 word \<Rightarrow> 8 word \<Rightarrow> 16 word \<Rightarrow> 'h \<Rightarrow> 'h" where
  "pciConfigWriteWord hw bus slot func off v h = hw_out16 hw (CONFIG_DATA + ucast (off AND 2)) v (config_select hw bus slot func off h)"

definition pciConfigWriteByte :: "'h hardware \<Rightarrow> 8 word \<Rightarrow> 8 word \<Rightarrow> 8 word \<Rightarrow> 8 word \<Rightarrow> 8 word \<Rightarrow> 'h \<Rightarrow> 'h" where
  "pciConfigWriteByte hw bus slot func off v h = hw_out8 hw (CONFIG_DATA + ucast (off AND 3)) v (config_select hw bus slot func off h)"

definition read_word :: "'h hardware \<Rightarrow> 8 word \<Rightarrow> 8 word \<Rightarrow> 8 word \<Rightarrow> 8 word \<Rightarrow> ('h, 'z) pci_scheme \<Rightarrow> 16 word \<times> ('h, 'z) pci_scheme" where
  "read_word hw bus slot func off s = (case pciConfigReadWord hw bus slot func off (pc_hw s) of (v, h) \<Rightarrow> (v, s\<lparr>pc_hw := h\<rparr>))"

definition read_byte :: "'h hardware \<Rightarrow> 8 word \<Rightarrow> 8 word \<Rightarrow> 8 word \<Rightarrow> 8 word \<Rightarrow> ('h, 'z) pci_scheme \<Rightarrow> 8 word \<times> ('h, 'z) pci_scheme" where
  "read_byte hw bus slot func off s = (case pciConfigReadByte hw bus slot func off (pc_hw s) of (v, h) \<Rightarrow> (v, s\<lparr>pc_hw := h\<rparr>))"

definition write_byte :: "'h hardware \<Rightarrow> addr \<Rightarrow> 8 word \<Rightarrow> 8 word \<Rightarrow> ('h, 'z) pci_scheme \<Rightarrow> ('h, 'z) pci_scheme option" where
  "write_byte hw busdev off v s = do {
     d \<leftarrow> pc_devs s busdev;
     b \<leftarrow> pc_buses s (pd_bus d);
     Some (s\<lparr>pc_hw := pciConfigWriteByte hw (pb_secondary b) (pd_slot d) (pd_func d) off v (pc_hw s)\<rparr>)
   }"

subsection \<open>Enumeration\<close>

partial_function (option) last_sibling :: "addr \<Rightarrow> ('h, 'z) pci_scheme \<Rightarrow> addr option" where
  "last_sibling p s = do { d \<leftarrow> pc_devs s p; if pd_sibling d \<noteq> NULL then last_sibling (pd_sibling d) s else Some p }"

partial_function (option) last_next :: "addr \<Rightarrow> ('h, 'z) pci_scheme \<Rightarrow> addr option" where
  "last_next p s = do { d \<leftarrow> pc_devs s p; if pd_next d \<noteq> NULL then last_next (pd_next d) s else Some p }"

text \<open>The new device behind its siblings and behind all devices.\<close>

definition link_dev :: "addr \<Rightarrow> addr \<Rightarrow> ('h, 'z) pci_scheme \<Rightarrow> ('h, 'z) pci_scheme option" where
  "link_dev bus p s = do {
     b \<leftarrow> pc_buses s bus;
     (iter, s) \<leftarrow> (if pb_devs b = NULL then Some (pb_self b, put_pbus bus (b\<lparr>pb_devs := p\<rparr>) s)
       else do {
         iter \<leftarrow> last_sibling (pb_devs b) s;
         d \<leftarrow> pc_devs s iter;
         Some (iter, put_pdev iter (d\<lparr>pd_sibling := p\<rparr>) s)
       });
     iter \<leftarrow> last_next iter s;
     d \<leftarrow> pc_devs s iter;
     Some (put_pdev iter (d\<lparr>pd_next := p\<rparr>) s)
   }"

datatype found = Absent | No_memory | Found addr "16 word"

text \<open>\<^verbatim>\<open>check_func\<close> up to the test for a bridge.\<close>

definition add_func :: "'h hardware \<Rightarrow> addr \<Rightarrow> 8 word \<Rightarrow> 8 word \<Rightarrow> ('h, 'z) pci_scheme \<Rightarrow> (found \<times> ('h, 'z) pci_scheme) option" where
  "add_func hw bus slot func s = do {
     b \<leftarrow> pc_buses s bus;
     let (vend, s) = read_word hw (pb_secondary b) slot func PCI_VENDOR_ID s;
     if vend = 0xFFFF then Some (Absent, s)
     else do {
       (p, s) \<leftarrow> pc_kma sizeof_pci_dev s;
       if p = NULL then Some (No_memory, s)
       else do {
         let (device, s) = read_word hw (pb_secondary b) slot func PCI_DEVICE_ID s;
         let (cls, s) = read_word hw (pb_secondary b) slot func PCI_CLASS_DEVICE s;
         let s = put_pdev p \<lparr>pd_bus = bus, pd_sibling = NULL, pd_next = NULL, pd_slot = slot, pd_func = func, pd_vendor = vend,
           pd_device = device, pd_class = cls, pd_claimed = False\<rparr> s;
         s \<leftarrow> link_dev bus p s;
         Some (Found p cls, s)
       }
     }
   }"

partial_function (option) last_bus :: "addr \<Rightarrow> ('h, 'z) pci_scheme \<Rightarrow> addr option" where
  "last_bus p s = do { b \<leftarrow> pc_buses s p; if pb_next b \<noteq> NULL then last_bus (pb_next b) s else Some p }"

partial_function (option) last_bus_sibling :: "addr \<Rightarrow> ('h, 'z) pci_scheme \<Rightarrow> addr option" where
  "last_bus_sibling p s = do { b \<leftarrow> pc_buses s p; if pb_sibling b \<noteq> NULL then last_bus_sibling (pb_sibling b) s else Some p }"

text \<open>\<^verbatim>\<open>fill_bus\<close> up to the scan of the new bus; the null pointer when there is no memory.\<close>

definition add_bus :: "'h hardware \<Rightarrow> addr \<Rightarrow> addr \<Rightarrow> ('h, 'z) pci_scheme \<Rightarrow> (addr \<times> ('h, 'z) pci_scheme) option" where
  "add_bus hw parent busdev s = do {
     (p, s) \<leftarrow> pc_kma sizeof_pci_bus s;
     if p = NULL then Some (NULL, s)
     else do {
       iter \<leftarrow> last_bus parent s;
       ib \<leftarrow> pc_buses s iter;
       pb \<leftarrow> pc_buses s parent;
       let b = \<lparr>pb_parent = parent, pb_children = NULL, pb_sibling = NULL, pb_next = NULL, pb_self = busdev, pb_devs = NULL,
         pb_primary = pb_secondary pb, pb_secondary = pb_secondary ib + 1, pb_subordinate = 0xFF\<rparr>;
       let s = put_pbus p b s;
       s \<leftarrow> write_byte hw busdev PCI_PRIMARY_BUS (pb_primary b) s;
       s \<leftarrow> write_byte hw busdev PCI_SECONDARY_BUS (pb_secondary b) s;
       s \<leftarrow> write_byte hw busdev PCI_SUBORDINATE_BUS (pb_subordinate b) s;
       pb \<leftarrow> pc_buses s parent;
       s \<leftarrow> (if pb_children pb = NULL then Some (put_pbus parent (pb\<lparr>pb_children := p\<rparr>) s)
         else do {
           c \<leftarrow> last_bus_sibling (pb_children pb) s;
           cb \<leftarrow> pc_buses s c;
           Some (put_pbus c (cb\<lparr>pb_sibling := p\<rparr>) s)
         });
       ib \<leftarrow> pc_buses s iter;
       Some (p, put_pbus iter (ib\<lparr>pb_next := p\<rparr>) s)
     }
   }"

text \<open>
  The recursion over buses. The class of a device has 16 bits, so that shifted by eight it is at most 255 and never the number of a bridge, which is what
  makes the recursion end.
\<close>

lemma class_not_bridge: "drop_bit 8 (c :: 16 word) \<noteq> PCI_CLASS_BRIDGE_PCI"
proof
  assume "drop_bit 8 c = PCI_CLASS_BRIDGE_PCI"
  then have "unat (drop_bit 8 c) = 0x604" by (simp add: PCI_CLASS_BRIDGE_PCI_def)
  then have "unat c div 256 = 0x604" by (simp add: drop_bit_eq_div unat_div)
  moreover have "unat c < 65536" using unsigned_less [of c] by simp
  ultimately show False by simp
qed

function check_func :: "'h hardware \<Rightarrow> addr \<Rightarrow> 8 word \<Rightarrow> 8 word \<Rightarrow> ('h, 'z) pci_scheme \<Rightarrow> (8 word \<times> ('h, 'z) pci_scheme) option"
  and check_funcs :: "'h hardware \<Rightarrow> addr \<Rightarrow> 8 word \<Rightarrow> 8 word list \<Rightarrow> ('h, 'z) pci_scheme \<Rightarrow> (8 word \<times> ('h, 'z) pci_scheme) option"
  and check_device :: "'h hardware \<Rightarrow> addr \<Rightarrow> 8 word \<Rightarrow> ('h, 'z) pci_scheme \<Rightarrow> (8 word \<times> ('h, 'z) pci_scheme) option"
  and check_slots :: "'h hardware \<Rightarrow> addr \<Rightarrow> 8 word list \<Rightarrow> ('h, 'z) pci_scheme \<Rightarrow> (8 word \<times> ('h, 'z) pci_scheme) option"
  and check_bus :: "'h hardware \<Rightarrow> addr \<Rightarrow> ('h, 'z) pci_scheme \<Rightarrow> (8 word \<times> ('h, 'z) pci_scheme) option"
  and fill_bus :: "'h hardware \<Rightarrow> addr \<Rightarrow> addr \<Rightarrow> ('h, 'z) pci_scheme \<Rightarrow> (8 word \<times> ('h, 'z) pci_scheme) option" where
  "check_func hw bus slot func s = do {
     (r, s) \<leftarrow> add_func hw bus slot func s;
     case r of
       Absent \<Rightarrow> Some (0, s)
     | No_memory \<Rightarrow> Some (word_of_int (- ENOMEM), s)
     | Found p cls \<Rightarrow> if drop_bit 8 cls = PCI_CLASS_BRIDGE_PCI then fill_bus hw bus p s else Some (0, s)
   }"
| "check_funcs hw bus slot [] s = Some (0, s)"
| "check_funcs hw bus slot (func # fs) s = do {
     (n, s) \<leftarrow> check_func hw bus slot func s;
     (m, s) \<leftarrow> check_funcs hw bus slot fs s;
     Some (n + m, s)
   }"
| "check_device hw bus slot s = do {
     b \<leftarrow> pc_buses s bus;
     let (vend, s) = read_word hw (pb_secondary b) slot 0 PCI_VENDOR_ID s;
     if vend = 0xFFFF then Some (0, s)
     else do {
       let (header, s) = read_byte hw (pb_secondary b) slot 0 PCI_HEADER_TYPE s;
       if header AND 0x80 \<noteq> 0 then check_funcs hw bus slot [0, 1, 2, 3, 4, 5, 6, 7] s
       else check_func hw bus slot 0 s
     }
   }"
| "check_slots hw bus [] s = Some (0, s)"
| "check_slots hw bus (slot # slots) s = do {
     (n, s) \<leftarrow> check_device hw bus slot s;
     (m, s) \<leftarrow> check_slots hw bus slots s;
     Some (n + m, s)
   }"
| "check_bus hw bus s = do {
     b \<leftarrow> pc_buses s bus;
     check_slots hw bus (map word_of_nat [(if pb_secondary b = 0 then 1 else 0)..<32]) s
   }"
| "fill_bus hw parent busdev s = do {
     (p, s) \<leftarrow> add_bus hw parent busdev s;
     if p = NULL then Some (word_of_int (- ENOMEM), s)
     else do {
       (nbelow, s) \<leftarrow> check_bus hw p s;
       b \<leftarrow> pc_buses s p;
       let s = put_pbus p (b\<lparr>pb_subordinate := pb_secondary b + nbelow\<rparr>) s;
       s \<leftarrow> write_byte hw busdev PCI_SUBORDINATE_BUS (pb_secondary b + nbelow) s;
       Some (nbelow, s)
     }
   }"
  by pat_completeness auto

termination
proof (relation "measure (\<lambda>x. case x of
    Inl (Inl (hw, bus, slot, func, s)) \<Rightarrow> 0
  | Inl (Inr (Inl (hw, bus, slot, fs, s))) \<Rightarrow> 1 + length fs
  | Inl (Inr (Inr (hw, bus, slot, s))) \<Rightarrow> 20
  | Inr (Inl (hw, bus, slots, s)) \<Rightarrow> 21 + length slots
  | Inr (Inr (Inl (hw, bus, s))) \<Rightarrow> 100
  | Inr (Inr (Inr (hw, parent, busdev, s))) \<Rightarrow> 101)")
qed (auto simp: class_not_bridge)

text \<open>\<^verbatim>\<open>host.device\<close> and \<^verbatim>\<open>host.claimed\<close> are not set.\<close>

definition init_pci :: "'h hardware \<Rightarrow> ('h, 'z) pci_scheme \<Rightarrow> ('h, 'z) pci_scheme option" where
  "init_pci hw s = do {
     d \<leftarrow> pc_devs s (pc_host s);
     let s = put_pbus (pc_bus0 s) \<lparr>pb_parent = NULL, pb_children = NULL, pb_sibling = NULL, pb_next = NULL, pb_self = pc_host s, pb_devs = NULL,
       pb_primary = 0, pb_secondary = 0, pb_subordinate = 0xFF\<rparr> s;
     let (vend, s) = read_word hw 0 0 0 PCI_VENDOR_ID s;
     let s = put_pdev (pc_host s) (d\<lparr>pd_bus := pc_bus0 s, pd_sibling := NULL, pd_next := NULL, pd_slot := 0, pd_func := 0, pd_vendor := vend,
       pd_class := PCI_CLASS_BRIDGE_HOST\<rparr>) s;
     (n, s) \<leftarrow> check_bus hw (pc_bus0 s) s;
     b \<leftarrow> pc_buses s (pc_bus0 s);
     let s = put_pbus (pc_bus0 s) (b\<lparr>pb_subordinate := n\<rparr>) s;
     (l, s) \<leftarrow> pc_kma sizeof_list_t s;
     ASSERT (l \<noteq> NULL);
     Some (s\<lparr>pc_drivers_list := l, pc_drivers := []\<rparr>)
   }"

subsection \<open>Drivers\<close>

definition id_matches :: "pci_dev_id \<Rightarrow> pci_dev \<Rightarrow> bool" where
  "id_matches i d \<longleftrightarrow> \<not> (id_vendor i \<noteq> PCI_ANY \<and> id_vendor i \<noteq> pd_vendor d) \<and> \<not> (id_device i \<noteq> PCI_ANY \<and> id_device i \<noteq> pd_device d)
     \<and> \<not> (id_class i \<noteq> PCI_ANY \<and> id_class i \<noteq> (pd_class d AND id_mask i))"

text \<open>A probe is repeated as long as it returns \<^verbatim>\<open>-ENOMEM\<close>.\<close>

partial_function (option) probe_loop :: "(addr \<Rightarrow> pci_dev_id \<Rightarrow> ('h, 'z) pci_scheme \<Rightarrow> (int \<times> ('h, 'z) pci_scheme) option) \<Rightarrow> addr \<Rightarrow> pci_dev_id
    \<Rightarrow> ('h, 'z) pci_scheme \<Rightarrow> ('h, 'z) pci_scheme option" where
  "probe_loop probe p i s = do {
     (r, s) \<leftarrow> probe p i s;
     if r = - ENOMEM then probe_loop probe p i s else Some s
   }"

partial_function (option) search_devs :: "(addr \<Rightarrow> pci_dev_id \<Rightarrow> ('h, 'z) pci_scheme \<Rightarrow> (int \<times> ('h, 'z) pci_scheme) option) \<Rightarrow> pci_dev_id \<Rightarrow> addr
    \<Rightarrow> ('h, 'z) pci_scheme \<Rightarrow> ('h, 'z) pci_scheme option" where
  "search_devs probe i p s =
    (if p = NULL then Some s
     else do {
       d \<leftarrow> pc_devs s p;
       s \<leftarrow> (if id_matches i d then probe_loop probe p i s else Some s);
       d \<leftarrow> pc_devs s p;
       search_devs probe i (pd_next d) s
     })"

text \<open>The table ends with an entry whose mask is zero.\<close>

fun search_table :: "(addr \<Rightarrow> pci_dev_id \<Rightarrow> ('h, 'z) pci_scheme \<Rightarrow> (int \<times> ('h, 'z) pci_scheme) option) \<Rightarrow> pci_dev_id list
    \<Rightarrow> ('h, 'z) pci_scheme \<Rightarrow> ('h, 'z) pci_scheme option" where
  "search_table probe [] s = None"
| "search_table probe (i # is) s =
    (if id_mask i = 0 then Some s
     else do { s \<leftarrow> search_devs probe i (pc_host s) s; search_table probe is s })"

definition driver_search :: "(nat \<Rightarrow> addr \<Rightarrow> pci_dev_id \<Rightarrow> ('h, 'z) pci_scheme \<Rightarrow> (int \<times> ('h, 'z) pci_scheme) option) \<Rightarrow> addr
    \<Rightarrow> ('h, 'z) pci_scheme \<Rightarrow> ('h, 'z) pci_scheme option" where
  "driver_search probes p s = do {
     ASSERT (p \<noteq> NULL);
     k \<leftarrow> pc_drvs s p;
     search_table (probes (dr_probe k)) (dr_table k) s
   }"

fun find_driver :: "bytes \<Rightarrow> queue \<Rightarrow> ('h, 'z) pci_scheme \<Rightarrow> addr option" where
  "find_driver nm [] s = Some NULL"
| "find_driver nm ((n, p) # q) s = do {
     k \<leftarrow> pc_drvs s p;
     c \<leftarrow> strcmp (c_mem (dr_name k)) (c_mem nm);
     if c = 0 then Some n else find_driver nm q s
   }"

definition register_pci :: "(nat \<Rightarrow> addr \<Rightarrow> pci_dev_id \<Rightarrow> ('h, 'z) pci_scheme \<Rightarrow> (int \<times> ('h, 'z) pci_scheme) option) \<Rightarrow> bytes
    \<Rightarrow> pci_dev_id list \<Rightarrow> nat \<Rightarrow> ('h, 'z) pci_scheme \<Rightarrow> (int \<times> ('h, 'z) pci_scheme) option" where
  "register_pci probes nm table probe s = do {
     node \<leftarrow> find_driver nm (pc_drivers s) s;
     if node \<noteq> NULL then Some (- EEXIST, s)
     else do {
       (p, s) \<leftarrow> pc_kma sizeof_pci_driver s;
       if p = NULL then Some (- ENOMEM, s)
       else do {
         let s = s\<lparr>pc_drvs := (pc_drvs s)(p \<mapsto> \<lparr>dr_name = nm, dr_table = table, dr_probe = probe\<rparr>)\<rparr>;
         ASSERT (\<not> pc_lock s);
         let s = s\<lparr>pc_lock := True\<rparr>;
         (n, q, t) \<leftarrow> d_insert p (pc_drivers s) (pc_sys s);
         let s = (put_sys t s)\<lparr>pc_drivers := q\<rparr>;
         if n = NULL then do { s \<leftarrow> pc_kfr p (s\<lparr>pc_lock := False\<rparr>); Some (- ENOMEM, s) }
         else do {
           s \<leftarrow> driver_search probes p s;
           Some (0, s\<lparr>pc_lock := False\<rparr>)
         }
       }
     }
   }"

definition claim_pci_dev :: "addr \<Rightarrow> ('h, 'z) pci_scheme \<Rightarrow> (int \<times> ('h, 'z) pci_scheme) option" where
  "claim_pci_dev p s = do {
     d \<leftarrow> pc_devs s p;
     Some (if pd_claimed d then (- 1, s) else (0, put_pdev p (d\<lparr>pd_claimed := True\<rparr>) s))
   }"

definition release_pci_dev :: "addr \<Rightarrow> ('h, 'z) pci_scheme \<Rightarrow> ('h, 'z) pci_scheme option" where
  "release_pci_dev p s = do {
     ASSERT (\<not> pc_lock s);
     d \<leftarrow> pc_devs s p;
     Some (put_pdev p (d\<lparr>pd_claimed := False\<rparr>) s)
   }"

subsection \<open>The devices of the machine\<close>

text \<open>
  Configuration mechanism 1 of the PCI specification: the double word written to \<^verbatim>\<open>CONFIG_ADDRESS\<close> selects a double word of the configuration
  space, whose bytes are read at the four ports from \<^verbatim>\<open>CONFIG_DATA\<close> on. \<open>cfg\<close> is the contents of the configuration space, by
  address, while nothing is written to it.
\<close>

definition cfg_word :: "(32 word \<Rightarrow> 8 word) \<Rightarrow> 32 word \<Rightarrow> 16 word" where
  "cfg_word cfg a = ucast (cfg a) OR push_bit 8 (ucast (cfg (a + 1)))"

definition mechanism1 :: "'h hardware \<Rightarrow> (32 word \<Rightarrow> 8 word) \<Rightarrow> bool" where
  "mechanism1 hw cfg \<longleftrightarrow> (\<exists>sel. (\<forall>a h. sel (hw_out32 hw CONFIG_ADDRESS a h) = a)
     \<and> (\<forall>k h. k \<in> {0, 1, 2, 3} \<longrightarrow> fst (hw_in8 hw (CONFIG_DATA + k) h) = cfg ((sel h AND NOT 3) + ucast k))
     \<and> (\<forall>k h. k \<in> {0, 2} \<longrightarrow> fst (hw_in16 hw (CONFIG_DATA + k) h) = cfg_word cfg ((sel h AND NOT 3) + ucast k)))"

lemma config_low: "(config_address b sl f off AND NOT 3) + ucast (ucast (off AND 3) :: 16 word) = config_address b sl f off"
proof -
  define a where "a = config_address b sl f off"
  have m: "(3 :: 8 word) = mask 2" "(3 :: 32 word) = mask 2" "(0x80000000 :: 32 word) = push_bit 31 1" by (simp_all add: mask_eq_exp_minus_1)
  have "ucast (ucast (off AND 3) :: 16 word) = a AND (3 :: 32 word)"
    unfolding a_def config_address_def m take_bit_eq_mask [symmetric] by (rule bit_word_eqI) (auto simp: bit_simps)
  moreover have "(a AND NOT 3) + (a AND 3) = (a AND NOT 3) OR (a AND (3 :: 32 word))"
    by (rule disjunctive_add_eq_or) (simp add: bit_eq_iff bit_simps)
  moreover have "(a AND NOT 3) OR (a AND (3 :: 32 word)) = a" by (rule bit_word_eqI) (auto simp: bit_simps)
  ultimately show ?thesis by (simp add: a_def)
qed

text \<open>What the configuration space holds about a function of bus 0.\<close>

definition cfg_vendor :: "(32 word \<Rightarrow> 8 word) \<Rightarrow> 8 word \<Rightarrow> 8 word \<Rightarrow> 16 word" where
  "cfg_vendor cfg slot func = cfg_word cfg (config_address 0 slot func PCI_VENDOR_ID)"

definition cfg_header :: "(32 word \<Rightarrow> 8 word) \<Rightarrow> 8 word \<Rightarrow> 8 word" where
  "cfg_header cfg slot = cfg (config_address 0 slot 0 PCI_HEADER_TYPE)"

text \<open>The functions of a device: those present if the header of function 0 says that there are several, or function 0 alone.\<close>

definition slot_funcs :: "(32 word \<Rightarrow> 8 word) \<Rightarrow> 8 word \<Rightarrow> 8 word list" where
  "slot_funcs cfg slot = filter (\<lambda>f. cfg_vendor cfg slot f \<noteq> 0xFFFF)
     (if cfg_vendor cfg slot 0 = 0xFFFF then [] else if cfg_header cfg slot AND 0x80 \<noteq> 0 then [0, 1, 2, 3, 4, 5, 6, 7] else [0])"

definition slots_funcs :: "(32 word \<Rightarrow> 8 word) \<Rightarrow> 8 word list \<Rightarrow> (8 word \<times> 8 word) list" where
  "slots_funcs cfg slots = concat (map (\<lambda>slot. map (Pair slot) (slot_funcs cfg slot)) slots)"

lemma read_word_cfg:
  assumes "mechanism1 hw cfg" "off \<in> {PCI_VENDOR_ID, PCI_DEVICE_ID, PCI_CLASS_DEVICE}"
  shows "\<exists>h. read_word hw bus slot func off s = (cfg_word cfg (config_address bus slot func off), s\<lparr>pc_hw := h\<rparr>)"
proof -
  have "off AND 3 = off AND 2" "ucast (off AND 2) \<in> {0, 2 :: 16 word}"
    using assms(2) by (auto simp: PCI_VENDOR_ID_def PCI_DEVICE_ID_def PCI_CLASS_DEVICE_def)
  with assms(1) config_low [of bus slot func off]
  have "fst (pciConfigReadWord hw bus slot func off (pc_hw s)) = cfg_word cfg (config_address bus slot func off)"
    by (auto simp: mechanism1_def pciConfigReadWord_def config_select_def)
  then show ?thesis by (cases "pciConfigReadWord hw bus slot func off (pc_hw s)") (auto simp: read_word_def)
qed

lemma read_header_cfg:
  assumes "mechanism1 hw cfg"
  shows "\<exists>h. read_byte hw bus slot func PCI_HEADER_TYPE s = (cfg (config_address bus slot func PCI_HEADER_TYPE), s\<lparr>pc_hw := h\<rparr>)"
proof -
  have "ucast (PCI_HEADER_TYPE AND 3) = (2 :: 16 word)" by (simp add: PCI_HEADER_TYPE_def)
  with assms config_low [of bus slot func PCI_HEADER_TYPE]
  have "fst (pciConfigReadByte hw bus slot func PCI_HEADER_TYPE (pc_hw s)) = cfg (config_address bus slot func PCI_HEADER_TYPE)"
    by (auto simp: mechanism1_def pciConfigReadByte_def config_select_def)
  then show ?thesis by (cases "pciConfigReadByte hw bus slot func PCI_HEADER_TYPE (pc_hw s)") (auto simp: read_byte_def)
qed

subsection \<open>Chains of devices\<close>

fun dchain :: "(pci_dev \<Rightarrow> addr) \<Rightarrow> addr list \<Rightarrow> (addr \<rightharpoonup> pci_dev) \<Rightarrow> bool" where
  "dchain f [] m \<longleftrightarrow> True"
| "dchain f (x # xs) m \<longleftrightarrow> x \<noteq> NULL \<and> (case m x of None \<Rightarrow> False | Some d \<Rightarrow> f d = (case xs of [] \<Rightarrow> NULL | y # _ \<Rightarrow> y)) \<and> dchain f xs m"

lemma dchain_cong: "(\<And>x. x \<in> set xs \<Longrightarrow> map_option f (m x) = map_option f (m' x)) \<Longrightarrow> dchain f xs m = dchain f xs m'"
proof (induction xs)
  case (Cons x xs)
  from Cons.prems [of x] have "map_option f (m x) = map_option f (m' x)" by simp
  then have "(case m x of None \<Rightarrow> False | Some d \<Rightarrow> f d = y) = (case m' x of None \<Rightarrow> False | Some d \<Rightarrow> f d = y)" for y
    by (cases "m x"; cases "m' x") simp_all
  then show ?case using Cons by simp
qed simp

lemma dchain_mem: "dchain f xs m \<Longrightarrow> x \<in> set xs \<Longrightarrow> x \<noteq> NULL \<and> m x \<noteq> None"
  by (induction xs) (auto split: option.splits)

lemma dchain_last: "dchain f xs m \<Longrightarrow> xs \<noteq> [] \<Longrightarrow> map_option f (m (last xs)) = Some NULL"
  by (induction xs) (auto split: option.splits list.splits)

lemma dchain_snoc:
  assumes "dchain f xs m" "distinct xs" "xs \<noteq> []" "p \<notin> set xs" "p \<noteq> NULL"
    and "map_option f (m' p) = Some NULL" "map_option f (m' (last xs)) = Some p" "\<And>x. x \<in> set (butlast xs) \<Longrightarrow> map_option f (m' x) = map_option f (m x)"
  shows "dchain f (xs @ [p]) m'"
  using assms
proof (induction xs)
  case (Cons x xs)
  show ?case
  proof (cases xs)
    case Nil
    then show ?thesis using Cons.prems by (auto split: option.splits)
  next
    case (Cons y ys)
    have "dchain f (xs @ [p]) m'" using Cons.prems Cons by (intro Cons.IH) auto
    moreover have "map_option f (m' x) = map_option f (m x)" using Cons.prems Cons by auto
    ultimately show ?thesis using Cons.prems(1) Cons by (auto split: option.splits)
  qed
qed simp

lemma last_sibling_chain: "dchain pd_sibling (x # xs) (pc_devs s) \<Longrightarrow> last_sibling x s = Some (last (x # xs))"
proof (induction xs arbitrary: x)
  case Nil
  then show ?case by (subst last_sibling.simps) (auto split: option.splits)
next
  case (Cons y ys)
  then show ?case by (subst last_sibling.simps) (auto split: option.splits)
qed

lemma last_next_chain: "dchain pd_next (x # xs) (pc_devs s) \<Longrightarrow> last_next x s = Some (last (x # xs))"
proof (induction xs arbitrary: x)
  case Nil
  then show ?case by (subst last_next.simps) (auto split: option.splits)
next
  case (Cons y ys)
  then show ?case by (subst last_next.simps) (auto split: option.splits)
qed

definition on_bus :: "(addr \<rightharpoonup> pci_bus) \<Rightarrow> addr list \<Rightarrow> ('h, 'z) pci_scheme \<Rightarrow> bool" where
  "on_bus B ps s \<longleftrightarrow> (\<exists>b. pc_buses s = B(pc_bus0 s \<mapsto> b) \<and> pb_secondary b = 0 \<and> pb_children b = NULL \<and> pb_self b = pc_host s \<and> pb_devs b = (case ps of [] \<Rightarrow> NULL | p # _ \<Rightarrow> p))
     \<and> dchain pd_sibling ps (pc_devs s) \<and> dchain pd_next (pc_host s # ps) (pc_devs s) \<and> distinct (pc_host s # ps)"

abbreviation unlinked :: "pci_dev \<Rightarrow> pci_dev" where
  "unlinked d \<equiv> d\<lparr>pd_sibling := NULL, pd_next := NULL\<rparr>"

lemma on_bus_new: "on_bus B ps s \<Longrightarrow> p \<notin> set (pc_host s # ps) \<Longrightarrow> on_bus B ps (put_pdev p d s)"
  by (auto simp: on_bus_def put_pdev_def intro: dchain_cong [THEN iffD1, rotated])

lemma link_dev_first:
  assumes "on_bus B [] s" "p \<noteq> pc_host s" "p \<noteq> NULL" "pc_devs s p = Some nd" "pd_sibling nd = NULL" "pd_next nd = NULL"
  shows "\<exists>s'. link_dev (pc_bus0 s) p s = Some s' \<and> on_bus B [p] s' \<and> (\<exists>M N. s' = s\<lparr>pc_buses := M, pc_devs := N\<rparr> \<and> map_option unlinked \<circ> N = map_option unlinked \<circ> pc_devs s)"
proof -
  obtain b d where b: "pc_buses s = B(pc_bus0 s \<mapsto> b)" "pb_secondary b = 0" "pb_children b = NULL" "pb_self b = pc_host s" "pb_devs b = NULL"
    and d: "pc_devs s (pc_host s) = Some d" "pd_next d = NULL" "pc_host s \<noteq> NULL"
    using assms(1) by (auto simp: on_bus_def split: option.splits)
  have "last_next (pc_host s) (put_pbus (pc_bus0 s) (b\<lparr>pb_devs := p\<rparr>) s) = Some (pc_host s)"
    using d by (subst last_next.simps) (simp add: put_pbus_def)
  then have run: "link_dev (pc_bus0 s) p s = Some (s\<lparr>pc_buses := (pc_buses s)(pc_bus0 s \<mapsto> b\<lparr>pb_devs := p\<rparr>), pc_devs := (pc_devs s)(pc_host s \<mapsto> d\<lparr>pd_next := p\<rparr>)\<rparr>)"
    (is "_ = Some ?s") using b d assms(2-) by (simp add: link_dev_def put_pbus_def put_pdev_def)
  have "on_bus B [p] ?s" using b d assms(2-) by (auto simp: on_bus_def)
  moreover have "map_option unlinked \<circ> pc_devs ?s = map_option unlinked \<circ> pc_devs s" using d by (auto simp: fun_eq_iff)
  ultimately show ?thesis using run by fastforce
qed

lemma link_dev_more:
  assumes "on_bus B ps s" "ps \<noteq> []" "p \<notin> set (pc_host s # ps)" "p \<noteq> NULL" "pc_devs s p = Some nd" "pd_sibling nd = NULL" "pd_next nd = NULL"
  shows "\<exists>s'. link_dev (pc_bus0 s) p s = Some s' \<and> on_bus B (ps @ [p]) s' \<and> (\<exists>M N. s' = s\<lparr>pc_buses := M, pc_devs := N\<rparr> \<and> map_option unlinked \<circ> N = map_option unlinked \<circ> pc_devs s)"
proof -
  obtain x xs where ps: "ps = x # xs" using assms(2) by (cases ps) auto
  let ?l = "last ps"
  obtain b where b: "pc_buses s = B(pc_bus0 s \<mapsto> b)" "pb_secondary b = 0" "pb_children b = NULL" "pb_self b = pc_host s" "pb_devs b = x" "x \<noteq> NULL"
    and c: "dchain pd_sibling ps (pc_devs s)" "dchain pd_next (pc_host s # ps) (pc_devs s)" and dist: "distinct (pc_host s # ps)"
    using assms(1) by (auto simp: on_bus_def ps)
  have l: "?l \<in> set ps" "?l \<noteq> p" "p \<noteq> pc_host s" "p \<notin> set ps" using assms(2,3) last_in_set [of ps] by auto
  have "map_option pd_next (pc_devs s ?l) = Some NULL" using dchain_last [OF c(2)] assms(2) by simp
  then obtain d where d: "pc_devs s ?l = Some d" "pd_next d = NULL" by auto
  let ?t = "put_pdev ?l (d\<lparr>pd_sibling := p\<rparr>) s" and ?N = "(pc_devs s)(?l \<mapsto> d\<lparr>pd_sibling := p, pd_next := p\<rparr>)"
  have "last_sibling x s = Some ?l" using last_sibling_chain [of x xs s] c(1) unfolding ps by simp
  moreover have "last_next ?l ?t = Some ?l" using d(2) by (subst last_next.simps) (simp add: put_pdev_def)
  ultimately have run: "link_dev (pc_bus0 s) p s = Some (s\<lparr>pc_devs := ?N\<rparr>)"
    using b d by (simp add: link_dev_def put_pdev_def)
  have bl: "y \<noteq> ?l" if "y \<in> set (butlast ps)" for y
    using dist that assms(2) by (metis append_butlast_last_id distinct_append distinct.simps(2) disjoint_iff list.set_intros(1))
  have hl: "pc_host s \<noteq> ?l" using dist l(1) by auto
  have "dchain pd_sibling (ps @ [p]) ?N"
    using dist assms l bl by (intro dchain_snoc [OF c(1)]) auto
  moreover have "dchain pd_next ((pc_host s # ps) @ [p]) ?N"
    using dist assms l bl hl by (intro dchain_snoc [OF c(2)]) (auto split: if_splits)
  moreover have "distinct (pc_host s # ps @ [p])" using dist l by simp
  ultimately have "on_bus B (ps @ [p]) (s\<lparr>pc_devs := ?N\<rparr>)" using b by (auto simp: on_bus_def ps)
  moreover have "map_option unlinked \<circ> ?N = map_option unlinked \<circ> pc_devs s" using d by (auto simp: fun_eq_iff)
  moreover have "s\<lparr>pc_devs := ?N\<rparr> = s\<lparr>pc_buses := pc_buses s, pc_devs := ?N\<rparr>" by simp
  ultimately show ?thesis using run by blast
qed

lemma link_dev_on_bus:
  assumes "on_bus B ps s" "p \<notin> set (pc_host s # ps)" "p \<noteq> NULL" "pc_devs s p = Some nd" "pd_sibling nd = NULL" "pd_next nd = NULL"
  shows "\<exists>s'. link_dev (pc_bus0 s) p s = Some s' \<and> on_bus B (ps @ [p]) s' \<and> (\<exists>M N. s' = s\<lparr>pc_buses := M, pc_devs := N\<rparr> \<and> map_option unlinked \<circ> N = map_option unlinked \<circ> pc_devs s)"
proof (cases "ps = []")
  case True
  then show ?thesis using link_dev_first [of B s p nd] assms by simp
next
  case False
  then show ?thesis using link_dev_more [of B ps s p nd] assms by simp
qed

subsection \<open>The devices found\<close>

text \<open>What the record of a device says of it.\<close>

definition describes :: "(32 word \<Rightarrow> 8 word) \<Rightarrow> addr \<Rightarrow> 8 word \<times> 8 word \<Rightarrow> pci_dev \<Rightarrow> bool" where
  "describes cfg bus sf d \<longleftrightarrow> (case sf of (slot, func) \<Rightarrow> pd_bus d = bus \<and> pd_slot d = slot \<and> pd_func d = func \<and> \<not> pd_claimed d
     \<and> pd_vendor d = cfg_vendor cfg slot func \<and> pd_device d = cfg_word cfg (config_address 0 slot func PCI_DEVICE_ID)
     \<and> pd_class d = cfg_word cfg (config_address 0 slot func PCI_CLASS_DEVICE))"

text \<open>The devices \<open>sfs\<close> have been found: each has its record on the heap, and the records are linked in this order.\<close>

definition scanned :: "(addr \<rightharpoonup> pci_bus) \<Rightarrow> addr \<Rightarrow> addr \<Rightarrow> (32 word \<Rightarrow> 8 word) \<Rightarrow> (8 word \<times> 8 word) list \<Rightarrow> ('h, 'z) pci_scheme \<Rightarrow> bool" where
  "scanned B bus host cfg sfs s \<longleftrightarrow> pc_bus0 s = bus \<and> pc_host s = host \<and> host \<noteq> NULL \<and> host \<le> KHEAP_START
     \<and> (\<exists>ps L. on_bus B ps s \<and> kmalloc_live (t_heap (pc_sys s)) L \<and> set ps \<subseteq> dom L
         \<and> list_all2 (\<lambda>p sf. \<exists>d. pc_devs s p = Some d \<and> describes cfg bus sf d) ps sfs)"

lemma describes_unlinked: "describes cfg bus sf (unlinked d) = describes cfg bus sf d"
  by (simp add: describes_def split: prod.split)

lemma describes_keep:
  assumes "map_option unlinked a = map_option unlinked b"
  shows "(\<exists>e. a = Some e \<and> describes cfg bus sf e) = (\<exists>e. b = Some e \<and> describes cfg bus sf e)"
proof (cases a)
  case None
  with assms show ?thesis by auto
next
  case (Some e)
  with assms obtain e' where e': "b = Some e'" "unlinked e = unlinked e'" by (cases b) auto
  have "describes cfg bus sf e = describes cfg bus sf e'"
    unfolding describes_unlinked [of cfg bus sf e, symmetric] e'(2) describes_unlinked ..
  with Some e'(1) show ?thesis by simp
qed

lemma scanned_link:
  assumes s: "scanned B bus host cfg sfs s" and t: "t = put_sys ((pc_sys s)\<lparr>t_heap := h\<rparr>) (s\<lparr>pc_hw := z\<rparr>)"
    and L: "\<And>L. kmalloc_live (t_heap (pc_sys s)) L \<Longrightarrow> L p = None \<and> (\<exists>n. kmalloc_live h (L(p \<mapsto> n)))" and p: "KHEAP_START < p"
    and d: "describes cfg bus sf d" "pd_sibling d = NULL" "pd_next d = NULL"
  shows "\<exists>s'. link_dev bus p (put_pdev p d t) = Some s' \<and> scanned B bus host cfg (sfs @ [sf]) s' \<and> pc_time s' = pc_time t"
proof -
  from s obtain ps M where bus: "pc_bus0 s = bus" "pc_host s = host" "host \<noteq> NULL" "host \<le> KHEAP_START" and on: "on_bus B ps s"
    and M: "kmalloc_live (t_heap (pc_sys s)) M" "set ps \<subseteq> dom M" and all: "list_all2 (\<lambda>p sf. \<exists>d. pc_devs s p = Some d \<and> describes cfg bus sf d) ps sfs"
    unfolding scanned_def by blast
  from L [OF M(1)] obtain n where n: "M p = None" "kmalloc_live h (M(p \<mapsto> n))" by blast
  have new: "p \<notin> set (pc_host s # ps)" "p \<noteq> NULL" using n(1) M(2) p bus(2,4) by auto
  have "on_bus B ps t" using on by (simp add: on_bus_def t put_sys_def)
  then have "on_bus B ps (put_pdev p d t)" using new(1) by (intro on_bus_new) (simp_all add: t put_sys_def)
  moreover have sel: "pc_host (put_pdev p d t) = host" "pc_bus0 (put_pdev p d t) = bus" "pc_devs (put_pdev p d t) = (pc_devs s)(p \<mapsto> d)"
    "pc_time (put_pdev p d t) = pc_time t" "t_heap (pc_sys t) = h"
    using bus by (simp_all add: put_pdev_def t put_sys_def)
  ultimately obtain s' M' N where run: "link_dev bus p (put_pdev p d t) = Some s'" and on': "on_bus B (ps @ [p]) s'"
    and s': "s' = put_pdev p d t\<lparr>pc_buses := M', pc_devs := N\<rparr>" and N: "map_option unlinked \<circ> N = map_option unlinked \<circ> (pc_devs s)(p \<mapsto> d)"
    using link_dev_on_bus [of B ps "put_pdev p d t" p d] new bus(2) d(2,3) by auto
  have keep: "(\<exists>e. N x = Some e \<and> describes cfg bus sf' e) = (\<exists>e. ((pc_devs s)(p \<mapsto> d)) x = Some e \<and> describes cfg bus sf' e)" for x sf'
    using fun_cong [OF N, of x] by (intro describes_keep) (simp only: o_apply)
  have "list_all2 (\<lambda>p sf. \<exists>d. pc_devs s' p = Some d \<and> describes cfg bus sf d) (ps @ [p]) (sfs @ [sf])"
    using all new(1) d(1) by (intro list_all2_appendI) (auto simp: s' keep elim!: list.rel_mono_strong)
  moreover have "kmalloc_live (t_heap (pc_sys s')) (M(p \<mapsto> n))" "set (ps @ [p]) \<subseteq> dom (M(p \<mapsto> n))" using n(2) M(2) sel by (auto simp: s')
  moreover have "pc_bus0 s' = bus" "pc_host s' = host" "pc_time s' = pc_time t" using sel by (simp_all add: s')
  ultimately show ?thesis using run on' bus(3,4) unfolding scanned_def by blast
qed

text \<open>
  \<open>scans\<close>: a step of the enumeration finds the devices \<open>new\<close> and returns 0 (the number of buses below), or the allocations of their records and of what comes
  later (\<open>ns\<close>) do not all succeed.
\<close>

definition scans :: "(addr \<rightharpoonup> pci_bus) \<Rightarrow> addr \<Rightarrow> addr \<Rightarrow> (32 word \<Rightarrow> 8 word) \<Rightarrow> (('h, 'z) pci_scheme \<Rightarrow> (8 word \<times> ('h, 'z) pci_scheme) option)
    \<Rightarrow> (8 word \<times> 8 word) list \<Rightarrow> bool" where
  "scans B bus host cfg step new \<longleftrightarrow> (\<forall>sfs s. scanned B bus host cfg sfs s \<longrightarrow>
     (case step s of
        None \<Rightarrow> \<forall>ns. \<not> allocs kmalloc (replicate (length new) sizeof_pci_dev @ ns) (t_heap (pc_sys s))
      | Some (r, s') \<Rightarrow> r = 0 \<and> scanned B bus host cfg (sfs @ new) s'
          \<and> (\<forall>ns. allocs kmalloc (replicate (length new) sizeof_pci_dev @ ns) (t_heap (pc_sys s)) = allocs kmalloc ns (t_heap (pc_sys s')))))"

lemma scans_nothing: "scans B bus host cfg (\<lambda>s. Some (0, s)) []"
  by (simp add: scans_def)

lemma scanned_hw [simp]: "scanned B bus host cfg sfs (s\<lparr>pc_hw := h\<rparr>) = scanned B bus host cfg sfs s"
  by (simp add: scanned_def on_bus_def)

lemma scansD:
  assumes "scans B bus host cfg step new" "scanned B bus host cfg sfs s"
  shows "step s = None \<Longrightarrow> \<not> allocs kmalloc (replicate (length new) sizeof_pci_dev @ ns) (t_heap (pc_sys s))"
    and "step s = Some (r, s') \<Longrightarrow> r = 0 \<and> scanned B bus host cfg (sfs @ new) s'
      \<and> (\<forall>ns. allocs kmalloc (replicate (length new) sizeof_pci_dev @ ns) (t_heap (pc_sys s)) = allocs kmalloc ns (t_heap (pc_sys s')))"
  using assms(1) [unfolded scans_def, rule_format, OF assms(2)] by auto

lemma scans_then:
  assumes "scans B bus host cfg f new" "scans B bus host cfg g rest"
  shows "scans B bus host cfg (\<lambda>s. do { (n, s) \<leftarrow> f s; (m, s) \<leftarrow> g s; Some (n + m, s) }) (new @ rest)"
  unfolding scans_def
proof (intro allI impI)
  fix sfs and s :: "('a, 'b) pci_scheme"
  assume s: "scanned B bus host cfg sfs s"
  have rep: "replicate (length (new @ rest)) z @ ns = replicate (length new) z @ replicate (length rest) z @ ns" for z :: nat and ns
    by (simp add: replicate_add)
  show "case do { (n, s) \<leftarrow> f s; (m, s) \<leftarrow> g s; Some (n + m, s) } of
      None \<Rightarrow> \<forall>ns. \<not> allocs kmalloc (replicate (length (new @ rest)) sizeof_pci_dev @ ns) (t_heap (pc_sys s))
    | Some (r, s') \<Rightarrow> r = 0 \<and> scanned B bus host cfg (sfs @ new @ rest) s'
        \<and> (\<forall>ns. allocs kmalloc (replicate (length (new @ rest)) sizeof_pci_dev @ ns) (t_heap (pc_sys s)) = allocs kmalloc ns (t_heap (pc_sys s')))"
  proof (cases "f s")
    case None
    with scansD(1) [OF assms(1) s] show ?thesis unfolding rep by simp
  next
    case (Some x)
    obtain n s1 where "x = (n, s1)" by (cases x)
    with Some have f: "f s = Some (n, s1)" by simp
    note s1 = scansD(2) [OF assms(1) s f]
    then have ok: "scanned B bus host cfg (sfs @ new) s1" by simp
    show ?thesis
    proof (cases "g s1")
      case None
      with scansD(1) [OF assms(2) ok] s1 f show ?thesis unfolding rep by simp
    next
      case (Some y)
      obtain m s2 where "y = (m, s2)" by (cases y)
      with Some have g: "g s1 = Some (m, s2)" by simp
      from scansD(2) [OF assms(2) ok g] s1 f g show ?thesis unfolding rep by simp
    qed
  qed
qed

lemma pc_kma_run:
  "pc_kma n s = (case kmalloc n (t_heap (pc_sys s)) of None \<Rightarrow> None | Some (p, h) \<Rightarrow> Some (p, put_sys ((pc_sys s)\<lparr>t_heap := h\<rparr>) s))"
  by (auto simp: pc_kma_def kma_def split: option.splits)

lemma kmalloc_above:
  assumes "kmalloc_live a L" "n \<le> heap_limit" "kmalloc n a = Some (p, a')"
  shows "KHEAP_START < p \<and> L p = None \<and> kmalloc_live a' (L(p \<mapsto> n))"
  using kmemalign_live [OF assms(1) alignment_ok_16 assms(2)] assms(3) by (auto simp: kmalloc_def)

lemma check_func_scans:
  assumes hw: "mechanism1 hw cfg"
  shows "scans B bus host cfg (check_func hw bus slot func) (if cfg_vendor cfg slot func = 0xFFFF then [] else [(slot, func)])"
  unfolding scans_def
proof (intro allI impI)
  fix sfs and s :: "('a, 'b) pci_scheme"
  assume s: "scanned B bus host cfg sfs s"
  let ?new = "if cfg_vendor cfg slot func = 0xFFFF then [] else [(slot, func)]"
  obtain b where b: "pc_buses s bus = Some b" "pb_secondary b = 0" using s by (auto simp: scanned_def on_bus_def)
  obtain h1 where r1: "read_word hw 0 slot func PCI_VENDOR_ID s = (cfg_vendor cfg slot func, s\<lparr>pc_hw := h1\<rparr>)"
    using read_word_cfg [OF hw, of PCI_VENDOR_ID 0 slot func s] by (auto simp: cfg_vendor_def)
  have s1: "scanned B bus host cfg sfs (s\<lparr>pc_hw := h1\<rparr>)" using s by simp
  show "case check_func hw bus slot func s of
      None \<Rightarrow> \<forall>ns. \<not> allocs kmalloc (replicate (length ?new) sizeof_pci_dev @ ns) (t_heap (pc_sys s))
    | Some (r, s') \<Rightarrow> r = 0 \<and> scanned B bus host cfg (sfs @ ?new) s'
        \<and> (\<forall>ns. allocs kmalloc (replicate (length ?new) sizeof_pci_dev @ ns) (t_heap (pc_sys s)) = allocs kmalloc ns (t_heap (pc_sys s')))"
  proof (cases "cfg_vendor cfg slot func = 0xFFFF")
    case True
    with b r1 s1 show ?thesis by (simp add: add_func_def)
  next
    case present: False
    show ?thesis
    proof (cases "kmalloc sizeof_pci_dev (t_heap (pc_sys s))")
      case None
      with b r1 present show ?thesis by (simp add: add_func_def pc_kma_run)
    next
      case (Some x)
      obtain p h where p: "kmalloc sizeof_pci_dev (t_heap (pc_sys s)) = Some (p, h)" using Some by (cases x) auto
      have new: "KHEAP_START < p \<and> L p = None \<and> kmalloc_live h (L(p \<mapsto> sizeof_pci_dev))" if "kmalloc_live (t_heap (pc_sys s)) L" for L
        using kmalloc_above [OF that _ p] by (simp add: heap_limit_def sizeof_pci_dev_def)
      then have "KHEAP_START < p" using s by (auto simp: scanned_def)
      let ?t = "put_sys ((pc_sys s)\<lparr>t_heap := h\<rparr>) (s\<lparr>pc_hw := h1\<rparr>)"
      obtain h2 where r2: "read_word hw 0 slot func PCI_DEVICE_ID ?t = (cfg_word cfg (config_address 0 slot func PCI_DEVICE_ID), ?t\<lparr>pc_hw := h2\<rparr>)"
        using read_word_cfg [OF hw, of PCI_DEVICE_ID 0 slot func ?t] by auto
      obtain h3 where r3: "read_word hw 0 slot func PCI_CLASS_DEVICE (?t\<lparr>pc_hw := h2\<rparr>) = (cfg_word cfg (config_address 0 slot func PCI_CLASS_DEVICE), ?t\<lparr>pc_hw := h3\<rparr>)"
        using read_word_cfg [OF hw, of PCI_CLASS_DEVICE 0 slot func "?t\<lparr>pc_hw := h2\<rparr>"] by auto
      define d where "d = \<lparr>pd_bus = bus, pd_sibling = NULL, pd_next = NULL, pd_slot = slot, pd_func = func, pd_vendor = cfg_vendor cfg slot func,
        pd_device = cfg_word cfg (config_address 0 slot func PCI_DEVICE_ID), pd_class = cfg_word cfg (config_address 0 slot func PCI_CLASS_DEVICE), pd_claimed = False\<rparr>"
      have t: "?t\<lparr>pc_hw := h3\<rparr> = put_sys ((pc_sys s)\<lparr>t_heap := h\<rparr>) (s\<lparr>pc_hw := h3\<rparr>)" by (simp add: put_sys_def)
      have "\<exists>s'. link_dev bus p (put_pdev p d (?t\<lparr>pc_hw := h3\<rparr>)) = Some s' \<and> scanned B bus host cfg (sfs @ [(slot, func)]) s' \<and> pc_time s' = pc_time (?t\<lparr>pc_hw := h3\<rparr>)"
        using new \<open>KHEAP_START < p\<close> by (intro scanned_link [OF s t]) (auto simp: d_def describes_def)
      then obtain s' where s': "link_dev bus p (put_pdev p d (?t\<lparr>pc_hw := h3\<rparr>)) = Some s'" "scanned B bus host cfg (sfs @ [(slot, func)]) s'"
        "t_heap (pc_sys s') = h" by (auto simp: put_sys_def)
      have "add_func hw bus slot func s = Some (Found p (pd_class d), s')"
        using b r1 r2 r3 p present s'(1) \<open>KHEAP_START < p\<close> by (simp add: add_func_def pc_kma_run d_def)
      with s' p present show ?thesis by (simp add: class_not_bridge)
    qed
  qed
qed

lemma check_funcs_scans:
  assumes "mechanism1 hw cfg"
  shows "scans B bus host cfg (check_funcs hw bus slot fs) (map (Pair slot) (filter (\<lambda>f. cfg_vendor cfg slot f \<noteq> 0xFFFF) fs))"
proof (induction fs)
  case Nil
  then show ?case using scans_nothing by (simp add: scans_def)
next
  case (Cons f fs)
  have *: "map (Pair slot) (filter (\<lambda>f. cfg_vendor cfg slot f \<noteq> 0xFFFF) (f # fs))
      = (if cfg_vendor cfg slot f = 0xFFFF then [] else [(slot, f)]) @ map (Pair slot) (filter (\<lambda>f. cfg_vendor cfg slot f \<noteq> 0xFFFF) fs)" by simp
  show ?case unfolding * check_funcs.simps by (rule scans_then [OF check_func_scans [OF assms] Cons])
qed

lemma check_device_scans:
  assumes hw: "mechanism1 hw cfg"
  shows "scans B bus host cfg (check_device hw bus slot) (map (Pair slot) (slot_funcs cfg slot))"
  unfolding scans_def
proof (intro allI impI)
  fix sfs and s :: "('a, 'b) pci_scheme"
  assume s: "scanned B bus host cfg sfs s"
  obtain b where b: "pc_buses s bus = Some b" "pb_secondary b = 0" using s by (auto simp: scanned_def on_bus_def)
  obtain h1 where r1: "read_word hw 0 slot 0 PCI_VENDOR_ID s = (cfg_vendor cfg slot 0, s\<lparr>pc_hw := h1\<rparr>)"
    using read_word_cfg [OF hw, of PCI_VENDOR_ID 0 slot 0 s] by (auto simp: cfg_vendor_def)
  obtain h2 where r2: "read_byte hw 0 slot 0 PCI_HEADER_TYPE (s\<lparr>pc_hw := h1\<rparr>) = (cfg_header cfg slot, s\<lparr>pc_hw := h2\<rparr>)"
    using read_header_cfg [OF hw, of 0 slot 0 "s\<lparr>pc_hw := h1\<rparr>"] by (auto simp: cfg_header_def)
  have s2: "scanned B bus host cfg sfs (s\<lparr>pc_hw := h2\<rparr>)" using s by simp
  show "case check_device hw bus slot s of
      None \<Rightarrow> \<forall>ns. \<not> allocs kmalloc (replicate (length (map (Pair slot) (slot_funcs cfg slot))) sizeof_pci_dev @ ns) (t_heap (pc_sys s))
    | Some (r, s') \<Rightarrow> r = 0 \<and> scanned B bus host cfg (sfs @ map (Pair slot) (slot_funcs cfg slot)) s'
        \<and> (\<forall>ns. allocs kmalloc (replicate (length (map (Pair slot) (slot_funcs cfg slot))) sizeof_pci_dev @ ns) (t_heap (pc_sys s)) = allocs kmalloc ns (t_heap (pc_sys s')))"
  proof (cases "cfg_vendor cfg slot 0 = 0xFFFF")
    case True
    with b r1 s show ?thesis by (simp add: slot_funcs_def)
  next
    case False
    with b r1 r2 have run: "check_device hw bus slot s = (if cfg_header cfg slot AND 0x80 \<noteq> 0 then check_funcs hw bus slot [0, 1, 2, 3, 4, 5, 6, 7] (s\<lparr>pc_hw := h2\<rparr>)
        else check_func hw bus slot 0 (s\<lparr>pc_hw := h2\<rparr>))" by (simp del: check_func.simps check_funcs.simps)
    have heap: "t_heap (pc_sys (s\<lparr>pc_hw := h2\<rparr>)) = t_heap (pc_sys s)" by simp
    show ?thesis
    proof (cases "cfg_header cfg slot AND 0x80 \<noteq> 0")
      case True
      with False have fs: "slot_funcs cfg slot = filter (\<lambda>f. cfg_vendor cfg slot f \<noteq> 0xFFFF) [0, 1, 2, 3, 4, 5, 6, 7]" by (simp add: slot_funcs_def)
      show ?thesis unfolding run if_P [OF True] fs
        by (rule check_funcs_scans [OF hw, unfolded scans_def, rule_format, OF s2, unfolded heap])
    next
      case single: False
      with False have fs: "map (Pair slot) (slot_funcs cfg slot) = (if cfg_vendor cfg slot 0 = 0xFFFF then [] else [(slot, 0)])" by (simp add: slot_funcs_def)
      show ?thesis unfolding run if_not_P [OF single] fs
        by (rule check_func_scans [OF hw, unfolded scans_def, rule_format, OF s2, unfolded heap])
    qed
  qed
qed

lemma check_slots_scans:
  assumes "mechanism1 hw cfg"
  shows "scans B bus host cfg (check_slots hw bus slots) (slots_funcs cfg slots)"
proof (induction slots)
  case Nil
  then show ?case using scans_nothing by (simp add: scans_def slots_funcs_def)
next
  case (Cons slot slots)
  have *: "slots_funcs cfg (slot # slots) = map (Pair slot) (slot_funcs cfg slot) @ slots_funcs cfg slots" by (simp add: slots_funcs_def)
  show ?case unfolding * check_slots.simps by (rule scans_then [OF check_device_scans [OF assms] Cons])
qed

text \<open>The memory \<^verbatim>\<open>init_pci\<close> asks for: a record for every function found and the list of drivers.\<close>

definition pci_sizes :: "(32 word \<Rightarrow> 8 word) \<Rightarrow> nat list" where
  "pci_sizes cfg = replicate (length (slots_funcs cfg (map word_of_nat [1..<32]))) sizeof_pci_dev @ [sizeof_list_t]"

lemma init_scanned:
  assumes "kmalloc_live (t_heap (pc_sys s)) L" "pc_host s \<noteq> NULL" "pc_host s \<le> KHEAP_START" "pb_secondary b = 0" "pb_children b = NULL" "pb_self b = pc_host s" "pb_devs b = NULL"
    and "pd_next d = NULL"
  shows "scanned (pc_buses s) (pc_bus0 s) (pc_host s) cfg [] (put_pdev (pc_host s) d (put_pbus (pc_bus0 s) b s\<lparr>pc_hw := h\<rparr>))"
proof -
  have "on_bus (pc_buses s) [] (put_pdev (pc_host s) d (put_pbus (pc_bus0 s) b s\<lparr>pc_hw := h\<rparr>))"
    using assms(2-) by (auto simp: on_bus_def put_pdev_def put_pbus_def)
  moreover have "kmalloc_live (t_heap (pc_sys (put_pdev (pc_host s) d (put_pbus (pc_bus0 s) b s\<lparr>pc_hw := h\<rparr>)))) L"
    using assms(1) by (simp add: put_pdev_def put_pbus_def)
  ultimately show ?thesis using assms(2,3) unfolding scanned_def
    by (intro conjI exI [of _ "[]"] exI [of _ L]) (simp_all add: put_pdev_def put_pbus_def)
qed

text \<open>
  C14. Enumeration: when the ports \<^verbatim>\<open>0xCF8\<close> to \<^verbatim>\<open>0xCFF\<close> are a PCI host bridge with configuration mechanism 1, \<^verbatim>\<open>init_pci\<close> returns unless an allocation does not, and
  then the devices linked behind the host bridge, and the devices of bus 0, are the functions of slots 1 to 31 that are present, in order, each with the vendor, device and class
  read from its configuration space and unclaimed. No bus but bus 0 is ever entered, whatever bridges there are.
\<close>

theorem init_pci_enumerates:
  assumes "mechanism1 hw cfg" "kmalloc_live (t_heap (pc_sys s)) L" "pc_devs s (pc_host s) = Some d" "pc_host s \<noteq> NULL" "pc_host s \<le> KHEAP_START"
  shows "case init_pci hw s of
      None \<Rightarrow> \<not> allocs kmalloc (pci_sizes cfg) (t_heap (pc_sys s))
    | Some s' \<Rightarrow> \<exists>ps b. dchain pd_next (pc_host s # ps) (pc_devs s') \<and> dchain pd_sibling ps (pc_devs s') \<and> distinct (pc_host s # ps)
        \<and> list_all2 (\<lambda>p sf. \<exists>d. pc_devs s' p = Some d \<and> describes cfg (pc_bus0 s) sf d) ps (slots_funcs cfg (map word_of_nat [1..<32]))
        \<and> pc_buses s' = (pc_buses s)(pc_bus0 s \<mapsto> b) \<and> pb_children b = NULL \<and> pb_subordinate b = 0"
proof -
  define b0 where "b0 = \<lparr>pb_parent = NULL, pb_children = NULL, pb_sibling = NULL, pb_next = NULL, pb_self = pc_host s, pb_devs = NULL,
    pb_primary = 0, pb_secondary = 0, pb_subordinate = 0xFF\<rparr>"
  define d0 where "d0 = d\<lparr>pd_bus := pc_bus0 s, pd_sibling := NULL, pd_next := NULL, pd_slot := 0, pd_func := 0, pd_vendor := cfg_vendor cfg 0 0,
    pd_class := PCI_CLASS_BRIDGE_HOST\<rparr>"
  let ?s0 = "put_pbus (pc_bus0 s) b0 s" and ?sfs = "slots_funcs cfg (map word_of_nat [1..<32])"
  obtain h where r: "read_word hw 0 0 0 PCI_VENDOR_ID ?s0 = (cfg_vendor cfg 0 0, ?s0\<lparr>pc_hw := h\<rparr>)"
    using read_word_cfg [OF assms(1), of PCI_VENDOR_ID 0 0 0 ?s0] by (auto simp: cfg_vendor_def)
  let ?s1 = "put_pdev (pc_host s) d0 (?s0\<lparr>pc_hw := h\<rparr>)"
  have s1: "scanned (pc_buses s) (pc_bus0 s) (pc_host s) cfg [] ?s1"
    using assms(4,5) by (intro init_scanned [OF assms(2)]) (simp_all add: b0_def d0_def)
  have sel: "pc_host ?s0 = pc_host s" "pc_bus0 ?s0 = pc_bus0 s" "pc_bus0 ?s1 = pc_bus0 s" "pc_buses ?s1 (pc_bus0 s) = Some b0" "pc_sys ?s1 = pc_sys s"
    by (simp_all add: put_pbus_def put_pdev_def)
  have bus: "check_bus hw (pc_bus0 s) ?s1 = check_slots hw (pc_bus0 s) (map word_of_nat [1..<32]) ?s1" using sel(4) by (simp add: b0_def del: check_slots.simps upt_Suc upt_rec_numeral)
  have run: "init_pci hw s = do { (n, s) \<leftarrow> check_slots hw (pc_bus0 s) (map word_of_nat [1..<32]) ?s1; b \<leftarrow> pc_buses s (pc_bus0 s);
      (l, s) \<leftarrow> pc_kma sizeof_list_t (put_pbus (pc_bus0 s) (b\<lparr>pb_subordinate := n\<rparr>) s); ASSERT (l \<noteq> NULL); Some (s\<lparr>pc_drivers_list := l, pc_drivers := []\<rparr>) }"
    using assms(3) r sel unfolding init_pci_def Let_def b0_def [symmetric] by (simp add: d0_def [symmetric] bus del: check_bus.simps check_slots.simps upt_Suc upt_rec_numeral)
  show ?thesis
  proof (cases "check_slots hw (pc_bus0 s) (map word_of_nat [1..<32]) ?s1")
    case None
    then show ?thesis using scansD(1) [OF check_slots_scans [OF assms(1)] s1 None, of "[sizeof_list_t]"] unfolding run pci_sizes_def sel(5) by simp
  next
    case (Some x)
    then obtain n s2 where c: "check_slots hw (pc_bus0 s) (map word_of_nat [1..<32]) ?s1 = Some (n, s2)" by (cases x) auto
    note * = scansD(2) [OF check_slots_scans [OF assms(1)] s1 c]
    then obtain ps M b where s2: "n = 0" "pc_bus0 s2 = pc_bus0 s" "pc_host s2 = pc_host s" and on: "dchain pd_next (pc_host s # ps) (pc_devs s2)" "dchain pd_sibling ps (pc_devs s2)"
        "distinct (pc_host s # ps)" and b: "pc_buses s2 = (pc_buses s)(pc_bus0 s \<mapsto> b)" "pb_children b = NULL"
      and all: "list_all2 (\<lambda>p sf. \<exists>d. pc_devs s2 p = Some d \<and> describes cfg (pc_bus0 s) sf d) ps ?sfs" and M: "kmalloc_live (t_heap (pc_sys s2)) M"
      unfolding scanned_def on_bus_def by (auto simp del: dchain.simps)
    have al: "allocs kmalloc (pci_sizes cfg) (t_heap (pc_sys s)) = allocs kmalloc [sizeof_list_t] (t_heap (pc_sys s2))"
      using * unfolding pci_sizes_def sel(5) by simp
    have heap: "t_heap (pc_sys (put_pbus q e s2)) = t_heap (pc_sys s2)" for q e by (simp add: put_pbus_def)
    show ?thesis
    proof (cases "kmalloc sizeof_list_t (t_heap (pc_sys s2))")
      case None
      then show ?thesis using al c b s2 unfolding run by (simp add: pc_kma_run heap)
    next
      case (Some y)
      obtain l k where y: "y = (l, k)" by (cases y)
      have "l \<noteq> NULL" using kmalloc_above [OF M _ Some [unfolded y]] by (auto simp: heap_limit_def sizeof_defs)
      then have fin: "init_pci hw s = Some (put_sys ((pc_sys s2)\<lparr>t_heap := k\<rparr>) (put_pbus (pc_bus0 s) (b\<lparr>pb_subordinate := 0\<rparr>) s2)\<lparr>pc_drivers_list := l, pc_drivers := []\<rparr>)"
        using Some y c b s2 unfolding run by (simp add: pc_kma_run heap) (simp add: put_pbus_def)
      show ?thesis unfolding fin option.case using on all b
        by (intro exI [of _ ps] exI [of _ "b\<lparr>pb_subordinate := 0\<rparr>"]) (auto simp: put_sys_def put_pbus_def)
    qed
  qed
qed

text \<open>A machine with an IDE controller in slot 1 and nothing else, and a kernel with nothing in it.\<close>

definition demo_cfg :: "32 word \<Rightarrow> 8 word" where
  "demo_cfg a = (if drop_bit 8 a = 0x800008
     then (case map_of [(0x00, 0x86), (0x01, 0x80), (0x02, 0x10), (0x03, 0x70), (0x0A, 0x01), (0x0B, 0x01), (0x0E, 0x00)] (a AND 0xFF) of None \<Rightarrow> 0 | Some b \<Rightarrow> b)
     else 0xFF)"

definition demo_hw :: "32 word hardware" where
  "demo_hw = \<lparr>hw_in8 = (\<lambda>p h. (demo_cfg ((h AND NOT 3) + ucast (p - CONFIG_DATA)), h)),
     hw_in16 = (\<lambda>p h. (cfg_word demo_cfg ((h AND NOT 3) + ucast (p - CONFIG_DATA)), h)),
     hw_in32 = (\<lambda>p h. (0, h)), hw_out8 = (\<lambda>p v h. h), hw_out16 = (\<lambda>p v h. h), hw_out32 = (\<lambda>p v h. v)\<rparr>"

definition demo_pci :: "32 word pci" where
  "demo_pci = \<lparr>pc_time = \<lparr>tm_sys = device_state demo_six Map.empty Map.empty empty_devices, tm_idt = demo_idt, tick = 0, task_tick = 0, rtc_tick = 0, current_time = 0,
       timers_list = NULL, timers = [], timer_objs = Map.empty, timer_wq = NULL\<rparr>,
     pc_hw = 0, pc_buses = Map.empty, pc_devs = [0x1000 \<mapsto> \<lparr>pd_bus = 0, pd_sibling = 0, pd_next = 0, pd_slot = 0, pd_func = 0, pd_vendor = 0, pd_device = 0,
       pd_class = 0, pd_claimed = False\<rparr>], pc_bus0 = 0x2000, pc_host = 0x1000, pc_drivers_list = NULL, pc_drivers = [], pc_drvs = Map.empty, pc_lock = False\<rparr>"

lemma demo_mechanism: "mechanism1 demo_hw demo_cfg"
  unfolding mechanism1_def by (rule exI [of _ id]) (auto simp: demo_hw_def)

lemma demo_slots: "slots_funcs demo_cfg (map word_of_nat [1..<32]) = [(1, 0)]"
  by code_simp

theorem init_pci_enumerates_witness:
  "case init_pci demo_hw demo_pci of
      None \<Rightarrow> \<not> allocs kmalloc (pci_sizes demo_cfg) demo_six
    | Some s' \<Rightarrow> \<exists>p d. dchain pd_next [0x1000, p] (pc_devs s') \<and> pc_devs s' p = Some d \<and> pd_vendor d = 0x8086 \<and> pd_device d = 0x7010 \<and> pd_class d = 0x0101"
proof -
  have "kmalloc_live (t_heap (pc_sys demo_pci)) demo_live" using demo_six_live by (simp add: demo_pci_def device_state_def)
  from init_pci_enumerates [OF demo_mechanism this, of "the (pc_devs demo_pci 0x1000)"]
  have *: "case init_pci demo_hw demo_pci of
      None \<Rightarrow> \<not> allocs kmalloc (pci_sizes demo_cfg) (t_heap (pc_sys demo_pci))
    | Some s' \<Rightarrow> \<exists>ps b. dchain pd_next (pc_host demo_pci # ps) (pc_devs s') \<and> dchain pd_sibling ps (pc_devs s') \<and> distinct (pc_host demo_pci # ps)
        \<and> list_all2 (\<lambda>p sf. \<exists>d. pc_devs s' p = Some d \<and> describes demo_cfg (pc_bus0 demo_pci) sf d) ps (slots_funcs demo_cfg (map word_of_nat [1..<32]))
        \<and> pc_buses s' = (pc_buses demo_pci)(pc_bus0 demo_pci \<mapsto> b) \<and> pb_children b = NULL \<and> pb_subordinate b = 0"
    by (simp add: demo_pci_def KHEAP_START_def)
  have h: "t_heap (pc_sys demo_pci) = demo_six" "pc_host demo_pci = 0x1000" by (simp_all add: demo_pci_def device_state_def)
  show ?thesis
  proof (cases "init_pci demo_hw demo_pci")
    case None
    with * show ?thesis unfolding h by simp
  next
    case (Some s')
    with * obtain ps where ps: "dchain pd_next (0x1000 # ps) (pc_devs s')"
      "list_all2 (\<lambda>p sf. \<exists>d. pc_devs s' p = Some d \<and> describes demo_cfg (pc_bus0 demo_pci) sf d) ps [(1, 0)]"
      unfolding Some option.case demo_slots h by blast
    then obtain p d where "ps = [p]" "pc_devs s' p = Some d" "describes demo_cfg (pc_bus0 demo_pci) (1, 0) d" by (auto simp: list_all2_Cons2)
    moreover from this(3) have "pd_vendor d = 0x8086" "pd_device d = 0x7010" "pd_class d = 0x0101"
      by (simp_all add: describes_def cfg_vendor_def cfg_word_def demo_cfg_def config_address_def PCI_VENDOR_ID_def PCI_DEVICE_ID_def PCI_CLASS_DEVICE_def)
    ultimately show ?thesis unfolding Some option.case using ps(1) by blast
  qed
qed

subsection \<open>Devices are offered to drivers\<close>

text \<open>What a driver is offered: for every entry of its table, in order, the devices that match it, in order.\<close>

definition offers :: "(addr \<rightharpoonup> pci_dev) \<Rightarrow> pci_dev_id list \<Rightarrow> addr list \<Rightarrow> (addr \<times> pci_dev_id) list" where
  "offers m table ps = concat (map (\<lambda>i. map (\<lambda>p. (p, i)) (filter (\<lambda>p. id_matches i (the (m p))) ps)) (takeWhile (\<lambda>i. id_mask i \<noteq> 0) table))"

fun offer_all :: "(addr \<Rightarrow> pci_dev_id \<Rightarrow> ('h, 'z) pci_scheme \<Rightarrow> (int \<times> ('h, 'z) pci_scheme) option) \<Rightarrow> (addr \<times> pci_dev_id) list
    \<Rightarrow> ('h, 'z) pci_scheme \<Rightarrow> ('h, 'z) pci_scheme option" where
  "offer_all probe [] s = Some s"
| "offer_all probe ((p, i) # xs) s = do { (r, s) \<leftarrow> probe p i s; offer_all probe xs s }"

text \<open>A probe that does not run out of memory and changes the records of devices in \<open>claimed\<close> only.\<close>

definition probe_keeps :: "(addr \<Rightarrow> pci_dev_id \<Rightarrow> ('h, 'z) pci_scheme \<Rightarrow> (int \<times> ('h, 'z) pci_scheme) option) \<Rightarrow> bool" where
  "probe_keeps probe \<longleftrightarrow> (\<forall>p i s r s'. probe p i s = Some (r, s') \<longrightarrow> r \<noteq> - ENOMEM \<and> pc_host s' = pc_host s
     \<and> (\<forall>x. map_option (\<lambda>d. d\<lparr>pd_claimed := False\<rparr>) (pc_devs s' x) = map_option (\<lambda>d. d\<lparr>pd_claimed := False\<rparr>) (pc_devs s x)))"

abbreviation same_devs :: "(addr \<rightharpoonup> pci_dev) \<Rightarrow> (addr \<rightharpoonup> pci_dev) \<Rightarrow> bool" where
  "same_devs m m' \<equiv> \<forall>x. map_option (\<lambda>d. d\<lparr>pd_claimed := False\<rparr>) (m' x) = map_option (\<lambda>d. d\<lparr>pd_claimed := False\<rparr>) (m x)"

lemma offer_all_append: "offer_all probe (xs @ ys) s = do { s \<leftarrow> offer_all probe xs s; offer_all probe ys s }"
  by (induction xs arbitrary: s) (auto split: Option.bind_split)

lemma unclaimed_fields:
  assumes "d\<lparr>pd_claimed := False\<rparr> = e\<lparr>pd_claimed := False\<rparr>"
  shows "pd_next d = pd_next e" "id_matches i d = id_matches i e"
  using arg_cong [OF assms, of pd_next] arg_cong [OF assms, of pd_vendor] arg_cong [OF assms, of pd_device] arg_cong [OF assms, of pd_class]
  by (simp_all add: id_matches_def)

lemma same_devs_at:
  assumes "same_devs m m'" "m x = Some d"
  obtains d' where "m' x = Some d'" "pd_next d' = pd_next d" "\<And>i. id_matches i d' = id_matches i d"
proof -
  from assms have "map_option (\<lambda>d. d\<lparr>pd_claimed := False\<rparr>) (m' x) = Some (d\<lparr>pd_claimed := False\<rparr>)" by simp
  then obtain d' where d': "m' x = Some d'" "d'\<lparr>pd_claimed := False\<rparr> = d\<lparr>pd_claimed := False\<rparr>" by auto
  with unclaimed_fields [OF d'(2)] show ?thesis by (intro that [of d']) simp_all
qed

lemma offer_all_same: "probe_keeps probe \<Longrightarrow> offer_all probe xs s = Some s' \<Longrightarrow> same_devs (pc_devs s) (pc_devs s') \<and> pc_host s' = pc_host s"
proof (induction xs arbitrary: s)
  case (Cons x xs)
  obtain p i where x: "x = (p, i)" by (cases x)
  from Cons.prems(2) obtain r t where "probe p i s = Some (r, t)" "offer_all probe xs t = Some s'" by (auto simp: x split: bind_splits)
  with Cons.IH [of t] Cons.prems(1) show ?case unfolding probe_keeps_def by metis
qed simp

lemma search_devs_offers:
  assumes "probe_keeps probe" "dchain pd_next ps m" "same_devs m (pc_devs s)"
  shows "search_devs probe i (case ps of [] \<Rightarrow> NULL | p # _ \<Rightarrow> p) s = offer_all probe (map (\<lambda>p. (p, i)) (filter (\<lambda>p. id_matches i (the (m p))) ps)) s"
  using assms(2,3)
proof (induction ps arbitrary: s)
  case Nil
  then show ?case by (subst search_devs.simps) simp
next
  case (Cons p ps)
  let ?n = "case ps of [] \<Rightarrow> NULL | p # _ \<Rightarrow> p"
  from Cons.prems(1) obtain d where p: "p \<noteq> NULL" "m p = Some d" "pd_next d = ?n" and ch: "dchain pd_next ps m" by (auto split: option.splits)
  from same_devs_at [OF Cons.prems(2) p(2)] obtain d1 where d1: "pc_devs s p = Some d1" "id_matches i d1 = id_matches i d" "pd_next d1 = pd_next d" by metis
  show ?case
  proof (cases "id_matches i d")
    case False
    with p d1 Cons.IH [OF ch Cons.prems(2)] show ?thesis by (subst search_devs.simps) simp
  next
    case True
    show ?thesis
    proof (cases "probe p i s")
      case None
      with True p d1 show ?thesis by (subst search_devs.simps) (simp add: probe_loop.simps)
    next
      case (Some x)
      obtain r t where x: "probe p i s = Some (r, t)" using Some by (cases x) auto
      with assms(1) have t: "r \<noteq> - ENOMEM" "same_devs (pc_devs s) (pc_devs t)" unfolding probe_keeps_def by blast+
      with Cons.prems(2) have mt: "same_devs m (pc_devs t)" by simp
      from same_devs_at [OF mt p(2)] obtain d2 where d2: "pc_devs t p = Some d2" "pd_next d2 = pd_next d" by metis
      from x t(1) True p d1 d2 Cons.IH [OF ch mt] show ?thesis by (subst search_devs.simps) (simp add: probe_loop.simps)
    qed
  qed
qed

text \<open>
  A driver is offered its devices: if its table ends and its probe does not run out of memory and changes no device but by claiming it, then \<^verbatim>\<open>driver_search\<close> calls the
  probe for every entry of the table and every device that matches it, entry by entry and in the order of the enumeration, and does nothing else.
\<close>

theorem driver_search_offers:
  assumes "pc_drvs s k = Some drv" "k \<noteq> NULL" "probe_keeps (probes (dr_probe drv))" "dchain pd_next (pc_host s # ps) (pc_devs s)" "0 \<in> id_mask ` set (dr_table drv)"
  shows "driver_search probes k s = offer_all (probes (dr_probe drv)) (offers (pc_devs s) (dr_table drv) (pc_host s # ps)) s"
proof -
  have "search_table probe table t = offer_all probe (offers m table (h # ps)) t"
    if "probe_keeps probe" "0 \<in> id_mask ` set table" "same_devs m (pc_devs t)" "dchain pd_next (h # ps) m" "pc_host t = h" for probe table t m h
    using that
  proof (induction table arbitrary: t)
    case (Cons i table)
    show ?case
    proof (cases "id_mask i = 0")
      case True
      then show ?thesis by (simp add: offers_def)
    next
      case False
      let ?xs = "map (\<lambda>p. (p, i)) (filter (\<lambda>p. id_matches i (the (m p))) (h # ps))"
      have step: "search_devs probe i h t = offer_all probe ?xs t" using search_devs_offers [OF Cons.prems(1,4,3), of i] by simp
      have off: "offers m (i # table) (h # ps) = ?xs @ offers m table (h # ps)" using False by (simp add: offers_def)
      show ?thesis
      proof (cases "offer_all probe ?xs t")
        case None
        then show ?thesis using False Cons.prems(5) step unfolding off offer_all_append by simp
      next
        case (Some u)
        from offer_all_same [OF Cons.prems(1) Some] Cons.prems(3,5) have "same_devs m (pc_devs u)" "pc_host u = h" by auto
        with Cons.IH [of u] Cons.prems False have "search_table probe table u = offer_all probe (offers m table (h # ps)) u" by auto
        with Some False Cons.prems(5) step show ?thesis unfolding off offer_all_append by simp
      qed
    qed
  qed simp
  from this [OF assms(3,5) _ assms(4)] assms(1,2) show ?thesis by (simp add: driver_search_def)
qed

lemma claim_keeps: "probe_keeps (\<lambda>p i. claim_pci_dev p)"
  by (auto simp: probe_keeps_def claim_pci_dev_def put_pdev_def ENOMEM_def split: bind_splits if_splits)

definition demo_driver :: pci_driver where
  "demo_driver = \<lparr>dr_name = [0x69, 0x64, 0x65], dr_table = [\<lparr>id_vendor = PCI_ANY, id_device = PCI_ANY, id_class = 0x0101, id_mask = 0xFFFF\<rparr>,
     \<lparr>id_vendor = 0, id_device = 0, id_class = 0, id_mask = 0\<rparr>], dr_probe = 0\<rparr>"

definition demo_found :: "32 word pci" where
  "demo_found = demo_pci\<lparr>pc_devs := [0x1000 \<mapsto> \<lparr>pd_bus = 0x2000, pd_sibling = 0, pd_next = 0x3000, pd_slot = 0, pd_func = 0, pd_vendor = 0x8086, pd_device = 0,
       pd_class = 0x0600, pd_claimed = False\<rparr>, 0x3000 \<mapsto> \<lparr>pd_bus = 0x2000, pd_sibling = 0, pd_next = 0, pd_slot = 1, pd_func = 0, pd_vendor = 0x8086, pd_device = 0x7010,
       pd_class = 0x0101, pd_claimed = False\<rparr>], pc_drvs := [0x4000 \<mapsto> demo_driver]\<rparr>"

theorem driver_search_offers_witness:
  "\<exists>s'. driver_search (\<lambda>_ p i. claim_pci_dev p) 0x4000 demo_found = Some s' \<and> map_option pd_claimed (pc_devs s' 0x1000) = Some False \<and> map_option pd_claimed (pc_devs s' 0x3000) = Some True"
proof -
  have "pc_host demo_found = 0x1000" by (simp add: demo_found_def demo_pci_def)
  moreover have "offers (pc_devs demo_found) (dr_table demo_driver) [0x1000, 0x3000] = [(0x3000, hd (dr_table demo_driver))]"
    by (simp add: offers_def demo_found_def demo_driver_def id_matches_def PCI_ANY_def)
  ultimately have "driver_search (\<lambda>_ p i. claim_pci_dev p) 0x4000 demo_found = offer_all (\<lambda>p i. claim_pci_dev p) [(0x3000, hd (dr_table demo_driver))] demo_found"
    using driver_search_offers [where s = demo_found and k = "0x4000" and drv = demo_driver and probes = "\<lambda>_ p i. claim_pci_dev p" and ps = "[0x3000]"] claim_keeps
    by (simp add: demo_found_def) (simp add: demo_driver_def)
  then show ?thesis by (simp add: claim_pci_dev_def put_pdev_def demo_found_def)
qed

end
