(* ===== verification/Memory.thy ===== *)
theory Memory
  imports Kmalloc_Spec
begin

section \<open>Memory behind the page tables\<close>

text \<open>
  What the processor does when the kernel reads and writes memory at a virtual address: the page is looked up in the current page directory and the byte is in the frame it is mapped to. An access to a
  page that is not present is a fault, from which the code does not return (\<open>None\<close>). The protection bits of a page do not stop the kernel.
\<close>

definition translate :: "nat \<Rightarrow> 'z paging_scheme \<Rightarrow> nat option" where
  "translate a s = do {
     pp \<leftarrow> lookup_page a (current_dir s) s;
     pp \<leftarrow> pp;
     pg \<leftarrow> read_page pp s;
     if pg_present pg then Some (pg_frame pg * PAGE_SIZE + a mod PAGE_SIZE) else None
   }"

fun store_bytes :: "nat \<Rightarrow> 8 word list \<Rightarrow> 'z paging_scheme \<Rightarrow> 'z paging_scheme option" where
  "store_bytes a [] h = Some h"
| "store_bytes a (b # bs) h = do {
     ph \<leftarrow> translate a h;
     store_bytes (add32 a 1) bs (h\<lparr>phys := (phys h)(ph := b)\<rparr>)
   }"

fun load_bytes :: "nat \<Rightarrow> nat \<Rightarrow> 'z paging_scheme \<Rightarrow> 8 word list option" where
  "load_bytes a 0 h = Some []"
| "load_bytes a (Suc n) h = do {
     ph \<leftarrow> translate a h;
     bs \<leftarrow> load_bytes (add32 a 1) n h;
     Some (phys h ph # bs)
   }"

text \<open>Numbers in memory, little endian.\<close>

definition le16 :: "(nat \<Rightarrow> 8 word) \<Rightarrow> nat \<Rightarrow> nat" where
  "le16 m i = unat (m i) + 256 * unat (m (i + 1))"

definition le32 :: "(nat \<Rightarrow> 8 word) \<Rightarrow> nat \<Rightarrow> nat" where
  "le32 m i = le16 m i + 65536 * le16 m (i + 2)"

lemma translate_next:
  assumes "translate a h = Some p" "a mod PAGE_SIZE + 1 < PAGE_SIZE" "a + 1 < two32"
  shows "translate (add32 a 1) h = Some (p + 1)"
proof -
  have "Suc (a mod PAGE_SIZE) \<noteq> PAGE_SIZE" using assms(2) by simp
  then have "(a + 1) div PAGE_SIZE = a div PAGE_SIZE" "(a + 1) mod PAGE_SIZE = a mod PAGE_SIZE + 1" by (simp_all add: div_Suc mod_Suc)
  moreover have "add32 a 1 = a + 1" using assms(3) by (simp add: add32_def)
  ultimately show ?thesis using assms(1) by (auto simp: translate_def lookup_page_def Let_def split: bind_splits if_splits)
qed

lemma translate_phys [simp]: "translate a (h\<lparr>phys := m\<rparr>) = translate a h"
  by (simp add: translate_def lookup_page_def read_page_def)

lemma store_bytes_page:
  assumes "bs \<noteq> [] \<Longrightarrow> translate a h = Some p" "a mod PAGE_SIZE + length bs \<le> PAGE_SIZE" "a + length bs \<le> two32"
  shows "store_bytes a bs h = Some (h\<lparr>phys := (\<lambda>x. if p \<le> x \<and> x < p + length bs then bs ! (x - p) else phys h x)\<rparr>)"
  using assms
proof (induction bs arbitrary: a p h)
  case (Cons b bs)
  let ?h = "h\<lparr>phys := (phys h)(p := b)\<rparr>"
  have "store_bytes (add32 a 1) bs ?h = Some (?h\<lparr>phys := (\<lambda>x. if p + 1 \<le> x \<and> x < p + 1 + length bs then bs ! (x - (p + 1)) else phys ?h x)\<rparr>)"
  proof (cases "bs = []")
    case False
    then have l: "1 \<le> length bs" by (cases bs) simp_all
    have nx: "add32 a 1 = a + 1" "(a + 1) mod PAGE_SIZE = a mod PAGE_SIZE + 1" using l Cons.prems(2,3) by (simp_all add: add32_def mod_Suc)
    have "translate (add32 a 1) ?h = Some (p + 1)" using translate_next [of a h p] Cons.prems l by simp
    moreover have "(add32 a 1) mod PAGE_SIZE + length bs \<le> PAGE_SIZE" "add32 a 1 + length bs \<le> two32" using Cons.prems(2,3) by (simp_all only: nx list.size)
    ultimately show ?thesis by (intro Cons.IH)
  next
    case True
    have "(\<lambda>x. if p + 1 \<le> x \<and> x < p + 1 + length bs then bs ! (x - (p + 1)) else phys ?h x) = phys ?h" by (auto simp: True fun_eq_iff)
    then show ?thesis by (simp only:) (simp add: True)
  qed
  moreover have "(\<lambda>x. if p + 1 \<le> x \<and> x < p + 1 + length bs then bs ! (x - (p + 1)) else phys ?h x)
      = (\<lambda>x. if p \<le> x \<and> x < p + length (b # bs) then (b # bs) ! (x - p) else phys h x)" by (auto simp: fun_eq_iff nth_Cons')
  ultimately show ?case using Cons.prems(1) by simp
next
  case (Nil a p h)
  have "(\<lambda>x. if p \<le> x \<and> x < p + length ([] :: 8 word list) then [] ! (x - p) else phys h x) = phys h" by (auto simp: fun_eq_iff)
  then show ?case by (simp only:) simp
qed

lemma load_bytes_page:
  assumes "0 < n \<Longrightarrow> translate a h = Some p" "a mod PAGE_SIZE + n \<le> PAGE_SIZE" "a + n \<le> two32"
  shows "load_bytes a n h = Some (map (\<lambda>k. phys h (p + k)) [0..<n])"
  using assms
proof (induction n arbitrary: a p)
  case (Suc n)
  have "0 < n \<Longrightarrow> translate (add32 a 1) h = Some (p + 1)"
    using translate_next [of a h p] Suc.prems by simp
  moreover have "0 < n \<Longrightarrow> add32 a 1 = a + 1" using Suc.prems(3) by (simp add: add32_def)
  moreover have "0 < n \<Longrightarrow> (a + 1) mod PAGE_SIZE = a mod PAGE_SIZE + 1" using Suc.prems(2) by (simp add: mod_Suc)
  ultimately have "load_bytes (add32 a 1) n h = Some (map (\<lambda>k. phys h (p + 1 + k)) [0..<n])"
    using Suc.prems Suc.IH [of "add32 a 1" "p + 1"] by (cases "n = 0") simp_all
  moreover have "map (\<lambda>k. phys h (p + k)) [0..<Suc n] = phys h p # map (\<lambda>k. phys h (p + 1 + k)) [0..<n]"
    by (simp add: upt_conv_Cons map_Suc_upt [symmetric] del: upt_Suc map_Suc_upt)
  ultimately show ?case using Suc.prems(1) by simp
qed simp

lemma le16_cong: "(\<And>k. k < i + 2 \<Longrightarrow> m k = m' k) \<Longrightarrow> le16 m i = le16 m' i"
  by (simp add: le16_def)

lemma le32_cong: "(\<And>k. k < i + 4 \<Longrightarrow> m k = m' k) \<Longrightarrow> le32 m i = le32 m' i"
  unfolding le32_def by (intro arg_cong2 [where f = "(+)"] arg_cong2 [where f = "(*)"] le16_cong refl) simp_all

end
