(* ===== verification/Ide.thy ===== *)
theory Ide
  imports Pci Memory
begin

section \<open>The driver of IDE disks (kernel/pci/ide.c)\<close>

text \<open>
  Access to the registers of a channel, detection of the drives, and the tasklet that serves the requests of a drive by programmed
  transfers. The ports are those of the record \<open>hardware\<close> of Pci. Bytes of buffers on the heap are in \<open>dv_mem\<close>; a transfer goes through the
  page tables to physical memory. \<open>slp\<close> is what \<^verbatim>\<open>sleep_thread\<close> on the queue of the driver does and returns, with all that other tasks and interrupts do before the
  tasklet runs again. Messages are left out. What is commented out at the end of the source (ATAPI) is not code.
\<close>

unbundle bit_operations_syntax

subsection \<open>Data\<close>

record IDEChannelRegisters =
  ch_channel :: "8 word"
  ch_base :: "16 word"
  ch_ctrl :: "16 word"
  ch_bmide :: "16 word"
  ch_nEIN :: "8 word"
  ch_mutex :: addr

record IDEDevice =
  iv_channel :: addr
  iv_drive :: "8 word"
  iv_type :: "8 word"
  iv_sig :: "16 word"
  iv_cap :: "16 word"
  iv_commandsets :: "32 word"
  iv_size :: nat
  iv_model :: bytes
  iv_servicer :: addr

record 'h ide = "'h pci" +
  ide_chans :: "addr \<rightharpoonup> IDEChannelRegisters"
  ide_devs :: "addr \<rightharpoonup> IDEDevice"
  ide_wq :: addr

definition ATA_SR_BSY :: "8 word" where "ATA_SR_BSY = 0x80"
definition ATA_SR_DF :: "8 word" where "ATA_SR_DF = 0x20"
definition ATA_SR_DRQ :: "8 word" where "ATA_SR_DRQ = 0x08"
definition ATA_SR_ERR :: "8 word" where "ATA_SR_ERR = 0x01"
definition ATA_CMD_READ_PIO :: "8 word" where "ATA_CMD_READ_PIO = 0x20"
definition ATA_CMD_READ_PIO_EXT :: "8 word" where "ATA_CMD_READ_PIO_EXT = 0x24"
definition ATA_CMD_READ_DMA :: "8 word" where "ATA_CMD_READ_DMA = 0xC8"
definition ATA_CMD_READ_DMA_EXT :: "8 word" where "ATA_CMD_READ_DMA_EXT = 0x25"
definition ATA_CMD_WRITE_PIO :: "8 word" where "ATA_CMD_WRITE_PIO = 0x30"
definition ATA_CMD_WRITE_PIO_EXT :: "8 word" where "ATA_CMD_WRITE_PIO_EXT = 0x34"
definition ATA_CMD_WRITE_DMA :: "8 word" where "ATA_CMD_WRITE_DMA = 0xCA"
definition ATA_CMD_WRITE_DMA_EXT :: "8 word" where "ATA_CMD_WRITE_DMA_EXT = 0x35"
definition ATA_CMD_IDENTIFY :: "8 word" where "ATA_CMD_IDENTIFY = 0xEC"
definition ATA_IDENT_DEVICETYPE :: nat where "ATA_IDENT_DEVICETYPE = 0"
definition ATA_IDENT_MODEL :: nat where "ATA_IDENT_MODEL = 54"
definition ATA_IDENT_CAPABILITIES :: nat where "ATA_IDENT_CAPABILITIES = 98"
definition ATA_IDENT_MAX_LBA :: nat where "ATA_IDENT_MAX_LBA = 120"
definition ATA_IDENT_COMMANDSETS :: nat where "ATA_IDENT_COMMANDSETS = 164"
definition ATA_IDENT_MAX_LBA_EXT :: nat where "ATA_IDENT_MAX_LBA_EXT = 200"
definition ATA_CAP_DMA :: "16 word" where "ATA_CAP_DMA = 0x0100"
definition ATA_CAP_LBA :: "16 word" where "ATA_CAP_LBA = 0x0200"
definition IDE_ATA :: "8 word" where "IDE_ATA = 0x00"
definition ATA_REG_DATA :: "8 word" where "ATA_REG_DATA = 0x00"
definition ATA_REG_ERROR :: "8 word" where "ATA_REG_ERROR = 0x01"
definition ATA_REG_SECCOUNT0 :: "8 word" where "ATA_REG_SECCOUNT0 = 0x02"
definition ATA_REG_LBA0 :: "8 word" where "ATA_REG_LBA0 = 0x03"
definition ATA_REG_LBA1 :: "8 word" where "ATA_REG_LBA1 = 0x04"
definition ATA_REG_LBA2 :: "8 word" where "ATA_REG_LBA2 = 0x05"
definition ATA_REG_HDDEVSEL :: "8 word" where "ATA_REG_HDDEVSEL = 0x06"
definition ATA_REG_COMMAND :: "8 word" where "ATA_REG_COMMAND = 0x07"
definition ATA_REG_STATUS :: "8 word" where "ATA_REG_STATUS = 0x07"
definition ATA_REG_SECCOUNT1 :: "8 word" where "ATA_REG_SECCOUNT1 = 0x08"
definition ATA_REG_LBA3 :: "8 word" where "ATA_REG_LBA3 = 0x09"
definition ATA_REG_LBA4 :: "8 word" where "ATA_REG_LBA4 = 0x0A"
definition ATA_REG_LBA5 :: "8 word" where "ATA_REG_LBA5 = 0x0B"
definition ATA_REG_CONTROL :: "8 word" where "ATA_REG_CONTROL = 0x0C"
definition ATA_REG_ALTSTATUS :: "8 word" where "ATA_REG_ALTSTATUS = 0x0C"
definition IDE_MAJOR :: nat where "IDE_MAJOR = 1"
definition IDE_SECTOR_SIZE :: nat where "IDE_SECTOR_SIZE = 512"
definition IDE_MAX_TRANSFER_28 :: nat where "IDE_MAX_TRANSFER_28 = 255"
definition IDE_MAX_TRANSFER_48 :: nat where "IDE_MAX_TRANSFER_48 = 65535"
definition IDE_TIMEOUT :: nat where "IDE_TIMEOUT = 5"
definition PCI_COMMAND :: "8 word" where "PCI_COMMAND = 0x04"
definition PCI_COMMAND_MASTER :: "16 word" where "PCI_COMMAND_MASTER = 0x4"
definition PCI_CLASS_PROG :: "8 word" where "PCI_CLASS_PROG = 0x09"
definition PCI_BASE_ADDRESS_0 :: "8 word" where "PCI_BASE_ADDRESS_0 = 0x10"
definition PCI_BASE_ADDRESS_1 :: "8 word" where "PCI_BASE_ADDRESS_1 = 0x14"
definition PCI_BASE_ADDRESS_2 :: "8 word" where "PCI_BASE_ADDRESS_2 = 0x18"
definition PCI_BASE_ADDRESS_3 :: "8 word" where "PCI_BASE_ADDRESS_3 = 0x1C"
definition PCI_BASE_ADDRESS_4 :: "8 word" where "PCI_BASE_ADDRESS_4 = 0x20"
definition PCI_CLASS_STORAGE_IDE :: "16 word" where "PCI_CLASS_STORAGE_IDE = 0x0101"
definition IRQ14 :: nat where "IRQ14 = 46"
definition IRQ15 :: nat where "IRQ15 = 47"
definition EIO :: int where "EIO = 5"
definition sizeof_IDEChannelRegisters :: nat where "sizeof_IDEChannelRegisters = 16"
definition sizeof_IDEDevice :: nat where "sizeof_IDEDevice = 68"

lemmas ata_reg_defs = ATA_REG_DATA_def ATA_REG_ERROR_def ATA_REG_SECCOUNT0_def ATA_REG_LBA0_def ATA_REG_LBA1_def ATA_REG_LBA2_def ATA_REG_HDDEVSEL_def
  ATA_REG_COMMAND_def ATA_REG_STATUS_def ATA_REG_SECCOUNT1_def ATA_REG_LBA3_def ATA_REG_LBA4_def ATA_REG_LBA5_def ATA_REG_CONTROL_def ATA_REG_ALTSTATUS_def

text \<open>The table of the devices the driver is for, and the numbers that stand for its functions.\<close>

definition ide_ids :: "pci_dev_id list" where
  "ide_ids = [\<lparr>id_vendor = PCI_ANY, id_device = PCI_ANY, id_class = PCI_CLASS_STORAGE_IDE, id_mask = PCI_ANY\<rparr>,
     \<lparr>id_vendor = 0, id_device = 0, id_class = 0, id_mask = 0\<rparr>]"

record ide_fns =
  fn_request_ide :: nat
  fn_ide_tasklet :: nat
  fn_ide_probe :: nat
  fn_wake_ide :: addr
  fn_ide_irq :: addr
  fn_ide_fops :: nat

subsection \<open>The rest of the kernel\<close>

definition on_sys :: "(dst \<Rightarrow> dst option) \<Rightarrow> ('h, 'z) pci_scheme \<Rightarrow> ('h, 'z) pci_scheme option" where
  "on_sys f s = do { t \<leftarrow> f (pc_sys s); Some (put_sys t s) }"

definition on_sys_ret :: "(dst \<Rightarrow> ('r \<times> dst) option) \<Rightarrow> ('h, 'z) pci_scheme \<Rightarrow> ('r \<times> ('h, 'z) pci_scheme) option" where
  "on_sys_ret f s = do { (r, t) \<leftarrow> f (pc_sys s); Some (r, put_sys t s) }"

definition on_hw :: "('h \<Rightarrow> 'h) \<Rightarrow> ('h, 'z) pci_scheme \<Rightarrow> ('h, 'z) pci_scheme" where
  "on_hw f s = s\<lparr>pc_hw := f (pc_hw s)\<rparr>"

definition on_hw_ret :: "('h \<Rightarrow> 'r \<times> 'h) \<Rightarrow> ('h, 'z) pci_scheme \<Rightarrow> 'r \<times> ('h, 'z) pci_scheme" where
  "on_hw_ret f s = (case f (pc_hw s) of (r, h) \<Rightarrow> (r, s\<lparr>pc_hw := h\<rparr>))"

subsection \<open>Registers\<close>

definition hob_reg :: "8 word \<Rightarrow> bool" where
  "hob_reg reg \<longleftrightarrow> reg > 0x07 \<and> reg < 0x0C"

function ide_write :: "'h hardware \<Rightarrow> IDEChannelRegisters \<Rightarrow> 8 word \<Rightarrow> 8 word \<Rightarrow> 'h \<Rightarrow> 'h" where
  "ide_write hw c reg data h =
    (let h = (if hob_reg reg then ide_write hw c ATA_REG_CONTROL (0x80 OR ch_nEIN c) h else h);
         h = (if reg < 0x08 then hw_out8 hw (ch_base c + ucast reg) data h
              else if reg < 0x0C then hw_out8 hw (ch_base c + ucast reg - 0x06) data h
              else if reg < 0x0E then hw_out8 hw (ch_ctrl c + ucast reg - 0x0C) data h
              else if reg < 0x16 then hw_out8 hw (ch_bmide c + ucast reg - 0x0E) data h
              else h)
     in if hob_reg reg then ide_write hw c ATA_REG_CONTROL (ch_nEIN c) h else h)"
  by pat_completeness auto
termination
  by (relation "measure (\<lambda>(hw, c, reg, data, h). if hob_reg reg then 1 else 0)") (auto simp: hob_reg_def ATA_REG_CONTROL_def)

declare ide_write.simps [simp del]

definition ide_read :: "'h hardware \<Rightarrow> IDEChannelRegisters \<Rightarrow> 8 word \<Rightarrow> 'h \<Rightarrow> 8 word \<times> 'h" where
  "ide_read hw c reg h =
    (let h = (if hob_reg reg then ide_write hw c ATA_REG_CONTROL (0x80 OR ch_nEIN c) h else h);
         (ret, h) = (if reg < 0x08 then hw_in8 hw (ch_base c + ucast reg) h
              else if reg < 0x0C then hw_in8 hw (ch_base c + ucast reg - 0x06) h
              else if reg < 0x0E then hw_in8 hw (ch_ctrl c + ucast reg - 0x0C) h
              else if reg < 0x16 then hw_in8 hw (ch_bmide c + ucast reg - 0x0E) h
              else (0, h));
         h = (if hob_reg reg then ide_write hw c ATA_REG_CONTROL (ch_nEIN c) h else h)
     in (ret, h))"

text \<open>\<^verbatim>\<open>insw\<close> and \<^verbatim>\<open>outsw\<close> of port.s: the words that are read, and words written.\<close>

fun insw :: "'h hardware \<Rightarrow> 16 word \<Rightarrow> nat \<Rightarrow> 'h \<Rightarrow> 16 word list \<times> 'h" where
  "insw hw p 0 h = ([], h)"
| "insw hw p (Suc n) h = (let (w, h) = hw_in16 hw p h; (ws, h) = insw hw p n h in (w # ws, h))"

fun outsw :: "'h hardware \<Rightarrow> 16 word \<Rightarrow> 16 word list \<Rightarrow> 'h \<Rightarrow> 'h" where
  "outsw hw p [] h = h"
| "outsw hw p (w # ws) h = outsw hw p ws (hw_out16 hw p w h)"

text \<open>The words as bytes in memory, the low byte first.\<close>

fun word_bytes :: "16 word list \<Rightarrow> bytes" where
  "word_bytes [] = []"
| "word_bytes (w # ws) = ucast w # ucast (drop_bit 8 w) # word_bytes ws"

fun bytes_words :: "bytes \<Rightarrow> 16 word list" where
  "bytes_words (a # b # bs) = (ucast a OR push_bit 8 (ucast b)) # bytes_words bs"
| "bytes_words bs = []"

definition put_mem :: "addr \<Rightarrow> bytes \<Rightarrow> dst \<Rightarrow> dst" where
  "put_mem a bs s = upd_dev (\<lambda>d. d\<lparr>dv_mem := (\<lambda>x. if a \<le> x \<and> x < a + length bs then bs ! (x - a) else dv_mem d x)\<rparr>) s"

text \<open>For the registers behind the control register, the port is two too high.\<close>

definition ide_read_buffer :: "'h hardware \<Rightarrow> IDEChannelRegisters \<Rightarrow> 8 word \<Rightarrow> addr \<Rightarrow> nat \<Rightarrow> ('h, 'z) pci_scheme \<Rightarrow> ('h, 'z) pci_scheme" where
  "ide_read_buffer hw c reg buffer count s =
    (let s = (if hob_reg reg then on_hw (ide_write hw c ATA_REG_CONTROL (0x80 OR ch_nEIN c)) s else s);
         (ws, s) = (if reg < 0x08 then on_hw_ret (insw hw (ch_base c + ucast reg) count) s
              else if reg < 0x0C then on_hw_ret (insw hw (ch_base c + ucast reg - 0x06) count) s
              else if reg < 0x0E then on_hw_ret (insw hw (ch_ctrl c + ucast reg - 0x0A) count) s
              else if reg < 0x16 then on_hw_ret (insw hw (ch_bmide c + ucast reg - 0x0E) count) s
              else ([], s));
         s = put_sys (put_mem buffer (word_bytes ws) (pc_sys s)) s
     in if hob_reg reg then on_hw (ide_write hw c ATA_REG_CONTROL (ch_nEIN c)) s else s)"

text \<open>What \<^verbatim>\<open>ide_print_err\<close> does besides printing: it reads the error register.\<close>

definition ide_print_err :: "'h hardware \<Rightarrow> IDEChannelRegisters \<Rightarrow> 8 word \<Rightarrow> 'h \<Rightarrow> 'h" where
  "ide_print_err hw c status h =
    (if status = 0 then h
     else if status AND ATA_SR_DF \<noteq> 0 then h
     else if status AND ATA_SR_ERR \<noteq> 0 then snd (ide_read hw c ATA_REG_ERROR h)
     else h)"

definition waste400 :: "'h hardware \<Rightarrow> IDEChannelRegisters \<Rightarrow> 'h \<Rightarrow> 'h" where
  "waste400 hw c h = ((\<lambda>h. snd (ide_read hw c ATA_REG_ALTSTATUS h)) ^^ 4) h"

text \<open>The loops that wait as long as the drive is busy.\<close>

partial_function (option) wait_busy :: "'h hardware \<Rightarrow> IDEChannelRegisters \<Rightarrow> 'h \<Rightarrow> 'h option" where
  "wait_busy hw c h =
    (case ide_read hw c ATA_REG_ALTSTATUS h of (st, h) \<Rightarrow> if st AND ATA_SR_BSY \<noteq> 0 then wait_busy hw c h else Some h)"

subsection \<open>Interrupts\<close>

definition wake_ide :: "'h ide \<Rightarrow> 'h ide option" where
  "wake_ide s = on_sys (wake_queue (ide_wq s)) s"

definition ide_irq :: "nat \<Rightarrow> 'h ide \<Rightarrow> 'h ide option" where
  "ide_irq n s = wake_ide (s\<lparr>pc_time := (pc_time s)\<lparr>tm_idt := irq_ack n (tm_idt (pc_time s))\<rparr>\<rparr>)"

definition statusgood :: "8 word \<Rightarrow> bool" where
  "statusgood status \<longleftrightarrow> status AND ATA_SR_ERR = 0 \<and> status AND ATA_SR_DF = 0"

definition put_timer :: "addr \<Rightarrow> timer \<Rightarrow> 'h ide \<Rightarrow> 'h ide" where
  "put_timer t x s = s\<lparr>pc_time := (pc_time s)\<lparr>timer_objs := (timer_objs (pc_time s))(t \<mapsto> x)\<rparr>\<rparr>"

text \<open>The loop of \<^verbatim>\<open>wait_irq\<close>: the last status and whether the sleep was interrupted.\<close>

partial_function (option) irq_loop :: "'h hardware \<Rightarrow> ('h ide \<Rightarrow> (nat \<times> 'h ide) option) \<Rightarrow> addr \<Rightarrow> addr \<Rightarrow> nat \<Rightarrow> 'h ide
    \<Rightarrow> ((8 word \<times> nat) \<times> 'h ide) option" where
  "irq_loop hw slp p t timeout s = do {
     v \<leftarrow> ide_devs s p;
     c \<leftarrow> ide_chans s (iv_channel v);
     let (status, s) = on_hw_ret (ide_read hw c ATA_REG_STATUS) s;
     if status AND ATA_SR_BSY = 0 then Some ((status, 0), s)
     else do {
       x \<leftarrow> timer_objs (pc_time s) t;
       (intr, s) \<leftarrow> slp (put_timer t (x\<lparr>tmr_expires := add32 (tick (pc_time s)) (timeout * HZ)\<rparr>) s);
       if intr = 0 then irq_loop hw slp p t timeout s else Some ((status, intr), s)
     }
   }"

text \<open>\<^verbatim>\<open>del_timer\<close> has already released the timer when it is released at the end.\<close>

definition wait_irq :: "'h hardware \<Rightarrow> ide_fns \<Rightarrow> ('h ide \<Rightarrow> (nat \<times> 'h ide) option) \<Rightarrow> addr \<Rightarrow> nat \<Rightarrow> 'h ide \<Rightarrow> (int \<times> 'h ide) option" where
  "wait_irq hw fns slp p timeout s = do {
     (t, s) \<leftarrow> pc_kma sizeof_timer s;
     if t = NULL then Some (- ENOMEM, s)
     else do {
       let s = put_timer t \<lparr>tmr_callback = CB_other (fn_wake_ide fns), tmr_expires = add32 (tick (pc_time s)) (timeout * HZ)\<rparr> s;
       (r, tm) \<leftarrow> add_timer t (pc_time s);
       let s = s\<lparr>pc_time := tm\<rparr>;
       if r < 0 then do { s \<leftarrow> pc_kfr t s; Some (- ENOMEM, s) }
       else do {
         ((status, intr), s) \<leftarrow> irq_loop hw slp p t timeout s;
         (ret, s) \<leftarrow> (if intr \<noteq> 0 then Some (- EINTR, s)
           else if \<not> statusgood status then do {
             v \<leftarrow> ide_devs s p;
             c \<leftarrow> ide_chans s (iv_channel v);
             Some (- EIO, on_hw (ide_print_err hw c status) s)
           } else Some (0, s));
         tm \<leftarrow> del_timer t (pc_time s);
         s \<leftarrow> pc_kfr t (s\<lparr>pc_time := tm\<rparr>);
         Some (ret, s)
       }
     }
   }"

subsection \<open>Transfers\<close>

text \<open>
  The address of a sector as the registers want it: whether 48 bits are used, the six bytes, and the head. In the first two cases
  the sector is given by its number, in the third by cylinder, head and sector, with 16 heads and 63 sectors.
\<close>

definition lba_regs :: "16 word \<Rightarrow> 32 word \<Rightarrow> bool \<times> 8 word list \<times> 32 word" where
  "lba_regs cap lba =
    (if lba \<ge> 0x10000000 then
       (True, [ucast (lba AND 0xFF), ucast (drop_bit 8 (lba AND 0xFF00)), ucast (drop_bit 16 (lba AND 0xFF0000)), ucast (drop_bit 24 (lba AND 0xFF000000)), 0, 0], 0)
     else if cap AND ATA_CAP_LBA \<noteq> 0 then
       (False, [ucast (lba AND 0xFF), ucast (drop_bit 8 (lba AND 0xFF00)), ucast (drop_bit 16 (lba AND 0xFF0000)), 0, 0, 0], drop_bit 24 (lba AND 0x0F000000))
     else
       (let sect = (lba mod 63) + 1;
            cyl = (lba + 1 - sect) div (63 * 16)
        in (False, [ucast sect, ucast (cyl AND 0xFF), ucast (drop_bit 8 cyl AND 0xFF), 0, 0, 0], (lba + 1 - sect) mod (63 * 16) div 63)))"

definition ata_cmd :: "bool \<Rightarrow> bool \<Rightarrow> bool \<Rightarrow> 8 word" where
  "ata_cmd lba_ext dma wr =
    (if \<not> lba_ext \<and> \<not> dma \<and> \<not> wr then ATA_CMD_READ_PIO
     else if lba_ext \<and> \<not> dma \<and> \<not> wr then ATA_CMD_READ_PIO_EXT
     else if \<not> lba_ext \<and> dma \<and> \<not> wr then ATA_CMD_READ_DMA
     else if lba_ext \<and> dma \<and> \<not> wr then ATA_CMD_READ_DMA_EXT
     else if \<not> lba_ext \<and> \<not> dma \<and> wr then ATA_CMD_WRITE_PIO
     else if lba_ext \<and> \<not> dma \<and> wr then ATA_CMD_WRITE_PIO_EXT
     else if \<not> lba_ext \<and> dma \<and> wr then ATA_CMD_WRITE_DMA
     else ATA_CMD_WRITE_DMA_EXT)"

text \<open>Selecting the drive, enabling interrupts and writing the address.\<close>

definition ata_select :: "'h hardware \<Rightarrow> IDEChannelRegisters \<Rightarrow> IDEDevice \<Rightarrow> 32 word \<Rightarrow> 'h \<Rightarrow> 'h option" where
  "ata_select hw c v head h = do {
     h \<leftarrow> wait_busy hw c h;
     let h = (if iv_cap v AND ATA_CAP_LBA \<noteq> 0 then ide_write hw c ATA_REG_HDDEVSEL (ucast (0xE0 OR push_bit 4 (ucast (iv_drive v)) OR head)) h
              else ide_write hw c ATA_REG_HDDEVSEL (ucast (0xA0 OR push_bit 4 (ucast (iv_drive v)) OR head)) h);
     wait_busy hw c (waste400 hw c h)
   }"

definition ata_address :: "'h hardware \<Rightarrow> IDEChannelRegisters \<Rightarrow> bool \<Rightarrow> 8 word list \<Rightarrow> 'h \<Rightarrow> 'h" where
  "ata_address hw c lba_ext io h =
    (let h = ide_write hw c ATA_REG_CONTROL 0 h;
         h = (if lba_ext then ide_write hw c ATA_REG_LBA5 (io ! 5) (ide_write hw c ATA_REG_LBA4 (io ! 4) (ide_write hw c ATA_REG_LBA3 (io ! 3) h)) else h)
     in ide_write hw c ATA_REG_LBA2 (io ! 2) (ide_write hw c ATA_REG_LBA1 (io ! 1) (ide_write hw c ATA_REG_LBA0 (io ! 0) h)))"

definition ata_sectors :: "bool \<Rightarrow> nat \<Rightarrow> nat" where
  "ata_sectors lba_ext n = (if lba_ext then if n > IDE_MAX_TRANSFER_48 then IDE_MAX_TRANSFER_48 else n
     else if n > IDE_MAX_TRANSFER_28 then IDE_MAX_TRANSFER_28 else n)"

definition ata_count :: "'h hardware \<Rightarrow> IDEChannelRegisters \<Rightarrow> bool \<Rightarrow> nat \<Rightarrow> 'h \<Rightarrow> 'h" where
  "ata_count hw c lba_ext n h =
    (let h = (if lba_ext then ide_write hw c ATA_REG_SECCOUNT1 (of_nat (n div 256)) h else h)
     in ide_write hw c ATA_REG_SECCOUNT0 (of_nat n) h)"

definition pio_sector :: "'h hardware \<Rightarrow> bool \<Rightarrow> 16 word \<Rightarrow> nat \<Rightarrow> 'h ide \<Rightarrow> 'h ide option" where
  "pio_sector hw wr bus a s =
    (if wr then do {
       bs \<leftarrow> load_bytes a IDE_SECTOR_SIZE (t_heap (pc_sys s));
       Some (on_hw (outsw hw bus (bytes_words bs)) s)
     } else do {
       let (ws, s) = on_hw_ret (insw hw bus (IDE_SECTOR_SIZE div 2)) s;
       h \<leftarrow> store_bytes a (word_bytes ws) (t_heap (pc_sys s));
       Some (put_sys ((pc_sys s)\<lparr>t_heap := h\<rparr>) s)
     })"

fun pio_loop :: "'h hardware \<Rightarrow> ide_fns \<Rightarrow> ('h ide \<Rightarrow> (nat \<times> 'h ide) option) \<Rightarrow> bool \<Rightarrow> addr \<Rightarrow> 16 word \<Rightarrow> nat \<Rightarrow> nat \<Rightarrow> 'h ide \<Rightarrow> (int \<times> 'h ide) option" where
  "pio_loop hw fns slp wr p bus a 0 s = Some (0, s)"
| "pio_loop hw fns slp wr p bus a (Suc n) s = do {
     (error, s) \<leftarrow> wait_irq hw fns slp p IDE_TIMEOUT s;
     if error < 0 then Some (error, s)
     else do {
       s \<leftarrow> pio_sector hw wr bus a s;
       pio_loop hw fns slp wr p bus (add32 a IDE_SECTOR_SIZE) n s
     }
   }"

definition map_page :: "nat \<Rightarrow> 'h ide \<Rightarrow> (nat \<times> 'h ide) option" where
  "map_page a s = on_sys_ret (\<lambda>t. do { (v, h) \<leftarrow> kernel_map kmemalign a (t_heap t); Some (v, t\<lparr>t_heap := h\<rparr>) }) s"

definition unmap_page :: "nat \<Rightarrow> 'h ide \<Rightarrow> 'h ide option" where
  "unmap_page v s = on_sys (\<lambda>t. do { h \<leftarrow> kernel_unmap kmemalign v (t_heap t); Some (t\<lparr>t_heap := h\<rparr>) }) s"

text \<open>The test for a transfer by DMA is always false (\<^verbatim>\<open>&& 0\<close>), and its branch is empty.\<close>

definition ide_ata_access :: "'h hardware \<Rightarrow> ide_fns \<Rightarrow> ('h ide \<Rightarrow> (nat \<times> 'h ide) option) \<Rightarrow> addr \<Rightarrow> addr \<Rightarrow> 'h ide \<Rightarrow> (int \<times> 'h ide) option" where
  "ide_ata_access hw fns slp p r s = do {
     v \<leftarrow> ide_devs s p;
     c \<leftarrow> ide_chans s (iv_channel v);
     rq \<leftarrow> dv_reqs (dev (pc_sys s)) r;
     let dma = (iv_cap v AND ATA_CAP_DMA \<noteq> 0 \<and> False);
     let wr = (rq_flags rq AND BLOCK_DIR_WRITE \<noteq> 0);
     let (lba_ext, io, head) = lba_regs (iv_cap v) (of_nat (rq_first rq));
     h \<leftarrow> ata_select hw c v head (pc_hw s);
     let c = c\<lparr>ch_nEIN := 0\<rparr>;
     let s = s\<lparr>pc_hw := ata_address hw c lba_ext io h, ide_chans := (ide_chans s)(iv_channel v \<mapsto> c)\<rparr>;
     if dma then Some (0, s)
     else case rq_bios rq of
       [] \<Rightarrow> None
     | (_, bp) # _ \<Rightarrow> do {
         b \<leftarrow> dv_bios (dev (pc_sys s)) bp;
         let n = ata_sectors lba_ext (bio_nsectors b);
         let s = on_hw (ata_count hw c lba_ext n) s;
         (edi, s) \<leftarrow> map_page (bio_page b) s;
         if edi = NULL then Some (0, s)
         else do {
           let s = on_hw (ide_write hw c ATA_REG_COMMAND (ata_cmd lba_ext dma wr)) s;
           (error, s) \<leftarrow> pio_loop hw fns slp wr p (ch_base c) (add32 edi (bio_offset b)) n s;
           s \<leftarrow> unmap_page edi s;
           Some (if error < 0 then error else int n, s)
         }
       }
   }"

subsection \<open>The tasklet\<close>

definition request_ide :: "(addr \<rightharpoonup> IDEDevice) \<Rightarrow> addr \<Rightarrow> dst \<Rightarrow> (int \<times> dst) option" where
  "request_ide vs p t = do {
     b \<leftarrow> dv_bdevs (dev t) p;
     v \<leftarrow> vs (bd_private b);
     (_, t) \<leftarrow> reset_and_reschedule (iv_servicer v) t;
     Some (0, t)
   }"

text \<open>One round of the loop: a request is taken, served as far as one transfer goes, and removed if it is finished. False if there is no request.\<close>

definition serve_request :: "'h hardware \<Rightarrow> ide_fns \<Rightarrow> ('h ide \<Rightarrow> (nat \<times> 'h ide) option) \<Rightarrow> addr \<Rightarrow> addr \<Rightarrow> 'h ide \<Rightarrow> (bool \<times> 'h ide) option" where
  "serve_request hw fns slp p ide s = do {
     (n, s) \<leftarrow> on_sys_ret (next_ready_request_blkdev p) s;
     if n = NULL then Some (False, s)
     else do {
       b \<leftarrow> dv_bdevs (dev (pc_sys s)) p;
       r \<leftarrow> map_of (bd_queue b) n;
       (xferred, s) \<leftarrow> ide_ata_access hw fns slp ide r s;
       (cont, s) \<leftarrow> on_sys_ret (if xferred < 0 then end_request r 0 0 else end_request r 1 (nat xferred)) s;
       if cont = 0 then do {
         b \<leftarrow> dv_bdevs (dev (pc_sys s)) p;
         s \<leftarrow> pc_kfr n (put_sys (put_bdev p (b\<lparr>bd_queue := queue_dequeue n (bd_queue b)\<rparr>) (pc_sys s)) s);
         Some (True, s)
       } else Some (True, s)
     }
   }"

partial_function (option) tasklet_loop :: "'h hardware \<Rightarrow> ide_fns \<Rightarrow> ('h ide \<Rightarrow> (nat \<times> 'h ide) option) \<Rightarrow> addr \<Rightarrow> addr \<Rightarrow> 'h ide \<Rightarrow> 'h ide option" where
  "tasklet_loop hw fns slp p ide s = do {
     (more_work, s) \<leftarrow> serve_request hw fns slp p ide s;
     if more_work then tasklet_loop hw fns slp p ide s else Some s
   }"

definition ide_tasklet :: "'h hardware \<Rightarrow> ide_fns \<Rightarrow> ('h ide \<Rightarrow> (nat \<times> 'h ide) option) \<Rightarrow> addr \<Rightarrow> 'h ide \<Rightarrow> 'h ide option" where
  "ide_tasklet hw fns slp p s = do {
     b \<leftarrow> dv_bdevs (dev (pc_sys s)) p;
     v \<leftarrow> ide_devs s (bd_private b);
     c \<leftarrow> ide_chans s (iv_channel v);
     s \<leftarrow> on_sys (acquire_mutex (ch_mutex c)) s;
     s \<leftarrow> tasklet_loop hw fns slp p (bd_private b) s;
     v \<leftarrow> ide_devs s (bd_private b);
     c \<leftarrow> ide_chans s (iv_channel v);
     on_sys (on_sync (release_mutex (ch_mutex c))) s
   }"

subsection \<open>Detection\<close>

definition ide_blkdev_create :: "ide_fns \<Rightarrow> addr \<Rightarrow> 'h ide \<Rightarrow> (addr \<times> 'h ide) option" where
  "ide_blkdev_create fns p s = do {
     (d, s) \<leftarrow> on_sys_ret alloc_blkdev s;
     if d = NULL then Some (NULL, s)
     else do {
       v \<leftarrow> ide_devs s p;
       c \<leftarrow> ide_chans s (iv_channel v);
       b \<leftarrow> dv_bdevs (dev (pc_sys s)) d;
       Some (d, put_sys (put_bdev d (b\<lparr>bd_major := IDE_MAJOR, bd_minor := 16 * (2 * unat (ch_channel c) + unat (iv_drive v)), bd_max_part := 16,
         bd_sector_size := IDE_SECTOR_SIZE, bd_size := iv_size v, bd_handler := fn_request_ide fns, bd_private := p\<rparr>) (pc_sys s)) s)
     }
   }"

text \<open>The registers of the function of the bus: whether it can be the master of the bus, and the five base addresses.\<close>

definition master_ok :: "'h hardware \<Rightarrow> 8 word \<Rightarrow> 8 word \<Rightarrow> 8 word \<Rightarrow> 'h \<Rightarrow> bool \<times> 'h" where
  "master_ok hw bus slot func h =
    (let (command, h) = pciConfigReadWord hw bus slot func PCI_COMMAND h;
         h = pciConfigWriteWord hw bus slot func PCI_COMMAND (command OR PCI_COMMAND_MASTER) h;
         (command, h) = pciConfigReadWord hw bus slot func PCI_COMMAND h
     in (command AND PCI_COMMAND_MASTER \<noteq> 0, h))"

definition prog_native :: "8 word \<Rightarrow> 8 word" where
  "prog_native prog = (let prog = (if prog AND 0x02 \<noteq> 0 then prog OR 0x01 else prog) in if prog AND 0x08 \<noteq> 0 then prog OR 0x04 else prog)"

definition set_prog :: "'h hardware \<Rightarrow> 8 word \<Rightarrow> 8 word \<Rightarrow> 8 word \<Rightarrow> 'h \<Rightarrow> 8 word \<times> 'h" where
  "set_prog hw bus slot func h =
    (let (prog, h) = pciConfigReadByte hw bus slot func PCI_CLASS_PROG h;
         h = pciConfigWriteByte hw bus slot func PCI_CLASS_PROG (prog_native prog) h
     in pciConfigReadByte hw bus slot func PCI_CLASS_PROG h)"

definition channel_bars :: "'h hardware \<Rightarrow> bool \<Rightarrow> 8 word \<Rightarrow> 8 word \<Rightarrow> 32 word \<times> 32 word \<Rightarrow> 8 word \<Rightarrow> 8 word \<Rightarrow> 8 word \<Rightarrow> 'h \<Rightarrow> (32 word \<times> 32 word) \<times> 'h" where
  "channel_bars hw native off off' legacy bus slot func h =
    (if native then
       (let (a, h) = pciConfigReadDword hw bus slot func off h; (b, h) = pciConfigReadDword hw bus slot func off' h in ((a, b), h))
     else (legacy, h))"

text \<open>The wait for an answer to the command \<^verbatim>\<open>IDENTIFY\<close>: true if there was an error.\<close>

partial_function (option) poll_identify :: "'h hardware \<Rightarrow> IDEChannelRegisters \<Rightarrow> 'h \<Rightarrow> (bool \<times> 'h) option" where
  "poll_identify hw c h =
    (case ide_read hw c ATA_REG_ALTSTATUS h of (st, h) \<Rightarrow>
       if st AND ATA_SR_ERR \<noteq> 0 then Some (True, h)
       else if st AND ATA_SR_BSY = 0 \<and> st AND ATA_SR_DRQ \<noteq> 0 then Some (False, h)
       else poll_identify hw c h)"

text \<open>True if there is a drive \<open>j\<close> and its identification can be read.\<close>

definition identify :: "'h hardware \<Rightarrow> IDEChannelRegisters \<Rightarrow> 8 word \<Rightarrow> 'h \<Rightarrow> (bool \<times> 'h) option" where
  "identify hw c j h = do {
     h \<leftarrow> wait_busy hw c h;
     let h = ide_write hw c ATA_REG_HDDEVSEL (0xA0 OR push_bit 4 j) h;
     h \<leftarrow> wait_busy hw c (waste400 hw c h);
     let h = ide_write hw c ATA_REG_CONTROL 2 h;
     let h = ide_write hw c ATA_REG_COMMAND ATA_CMD_IDENTIFY h;
     let (st, h) = ide_read hw c ATA_REG_ALTSTATUS h;
     if st = 0 then Some (False, h)
     else do { (err, h) \<leftarrow> poll_identify hw c h; Some (\<not> err, h) }
   }"

definition mem16 :: "addr \<Rightarrow> dst \<Rightarrow> 16 word" where
  "mem16 a s = ucast (dv_mem (dev s) a) OR push_bit 8 (ucast (dv_mem (dev s) (a + 1)))"

text \<open>The parameters of a drive from the 512 bytes at \<open>buff\<close>. The bytes of the model are swapped in pairs.\<close>

definition new_drive :: "addr \<Rightarrow> 8 word \<Rightarrow> addr \<Rightarrow> dst \<Rightarrow> IDEDevice" where
  "new_drive cp j buff t =
    (let sets = of_nat (mem32 (buff + ATA_IDENT_COMMANDSETS) t)
     in \<lparr>iv_channel = cp, iv_drive = j, iv_type = IDE_ATA, iv_sig = mem16 (buff + ATA_IDENT_DEVICETYPE) t, iv_cap = mem16 (buff + ATA_IDENT_CAPABILITIES) t,
        iv_commandsets = sets, iv_size = mem32 (buff + (if sets AND push_bit 26 1 \<noteq> 0 then ATA_IDENT_MAX_LBA_EXT else ATA_IDENT_MAX_LBA)) t,
        iv_model = map (\<lambda>k. dv_mem (dev t) (buff + ATA_IDENT_MODEL + (if even k then k + 1 else k - 1))) [0..<40] @ [0], iv_servicer = NULL\<rparr>)"

text \<open>The body of the loop over the two drives of a channel: it goes on with or without a device, or stops.\<close>

datatype drive = No_drive | Drive addr | Stop "addr option"

definition ide_tasklet_name :: bytes where
  "ide_tasklet_name = [0x5B, 0x69, 0x64, 0x65, 0x5D]"

definition probe_drive :: "'h hardware \<Rightarrow> ide_fns \<Rightarrow> addr \<Rightarrow> 8 word \<Rightarrow> 'h ide \<Rightarrow> (drive \<times> 'h ide) option" where
  "probe_drive hw fns cp j s = do {
     c \<leftarrow> ide_chans s cp;
     (there, h) \<leftarrow> identify hw c j (pc_hw s);
     let s = s\<lparr>pc_hw := h\<rparr>;
     if \<not> there then Some (No_drive, s)
     else do {
       (buff, s) \<leftarrow> pc_kma 512 s;
       if buff = NULL then Some (Stop None, s)
       else do {
         let s = ide_read_buffer hw c ATA_REG_DATA buff 256 s;
         (p, s) \<leftarrow> pc_kma sizeof_IDEDevice s;
         if p = NULL then do { s \<leftarrow> pc_kfr buff s; Some (Stop None, s) }
         else do {
           let s = s\<lparr>ide_devs := (ide_devs s)(p \<mapsto> new_drive cp j buff (pc_sys s))\<rparr>;
           s \<leftarrow> pc_kfr buff s;
           (d, s) \<leftarrow> ide_blkdev_create fns p s;
           if d = NULL then do { s \<leftarrow> pc_kfr p (s\<lparr>ide_devs := (ide_devs s)(p := None)\<rparr>); Some (Stop None, s) }
           else do {
             (tk, s) \<leftarrow> on_sys_ret (create_tasklet (fn_ide_tasklet fns) (Some ide_tasklet_name) d) s;
             v \<leftarrow> ide_devs s p;
             let s = s\<lparr>ide_devs := (ide_devs s)(p \<mapsto> v\<lparr>iv_servicer := tk\<rparr>)\<rparr>;
             Some (if tk = NULL then Stop (Some d) else Drive d, s)
           }
         }
       }
     }
   }"

definition free_channel :: "addr \<Rightarrow> 'h ide \<Rightarrow> 'h ide option" where
  "free_channel cp s = do {
     c \<leftarrow> ide_chans s cp;
     s \<leftarrow> on_sys (on_sync (destroy_mutex (ch_mutex c))) s;
     s \<leftarrow> pc_kfr cp s;
     Some (s\<lparr>ide_chans := (ide_chans s)(cp := None)\<rparr>)
   }"

text \<open>
  The loop over the drives of a channel: the block devices found, by their position, the number of devices that use the channel, and whether the loop went to its end.
\<close>

fun probe_drives :: "'h hardware \<Rightarrow> ide_fns \<Rightarrow> addr \<Rightarrow> nat \<Rightarrow> nat list \<Rightarrow> addr list \<Rightarrow> nat \<Rightarrow> 'h ide \<Rightarrow> ((addr list \<times> nat \<times> bool) \<times> 'h ide) option" where
  "probe_drives hw fns cp i [] ds refs s = Some ((ds, refs, True), s)"
| "probe_drives hw fns cp i (j # js) ds refs s = do {
     (r, s) \<leftarrow> probe_drive hw fns cp (of_nat j) s;
     case r of
       No_drive \<Rightarrow> probe_drives hw fns cp i js ds refs s
     | Drive d \<Rightarrow> probe_drives hw fns cp i js (ds[2 * i + j := d]) (refs + 1) s
     | Stop d \<Rightarrow> Some ((case d of None \<Rightarrow> ds | Some d \<Rightarrow> ds[2 * i + j := d], refs, False), s)
   }"

text \<open>The loop over the channels, with their base addresses: the block devices and whether to go to the label \<^verbatim>\<open>fail\<close>.\<close>

fun probe_channels :: "'h hardware \<Rightarrow> ide_fns \<Rightarrow> 32 word \<Rightarrow> (nat \<times> 32 word \<times> 32 word) list \<Rightarrow> addr list \<Rightarrow> 'h ide \<Rightarrow> ((addr list \<times> bool) \<times> 'h ide) option" where
  "probe_channels hw fns bar4 [] ds s = Some ((ds, False), s)"
| "probe_channels hw fns bar4 ((i, base, ctrl) # cs) ds s = do {
     (cp, s) \<leftarrow> pc_kma sizeof_IDEChannelRegisters s;
     if cp = NULL then Some ((ds, False), s)
     else do {
       (m, s) \<leftarrow> on_sys_ret (on_sync_ret (create_mutex 0)) s;
       if m = NULL then do { s \<leftarrow> pc_kfr cp s; Some ((ds, True), s) }
       else do {
         let s = s\<lparr>ide_chans := (ide_chans s)(cp \<mapsto> \<lparr>ch_channel = of_nat i, ch_base = ucast base, ch_ctrl = ucast ctrl,
           ch_bmide = ucast (bar4 + 8 * of_nat i), ch_nEIN = 2, ch_mutex = m\<rparr>)\<rparr>;
         ((ds, refs, all), s) \<leftarrow> probe_drives hw fns cp i [0, 1] ds 0 s;
         s \<leftarrow> (if refs = 0 then free_channel cp s else Some s);
         if \<not> all then Some ((ds, True), s) else probe_channels hw fns bar4 cs ds s
       }
     }
   }"

definition free_drive :: "addr \<Rightarrow> addr \<Rightarrow> 'h ide \<Rightarrow> 'h ide option" where
  "free_drive d p s = do {
     v \<leftarrow> ide_devs s p;
     s \<leftarrow> on_sys (destroy_tasklet (iv_servicer v)) s;
     s \<leftarrow> pc_kfr p (s\<lparr>ide_devs := (ide_devs s)(p := None)\<rparr>);
     on_sys (free_blkdev d) s
   }"

text \<open>
  The partitions of a drive, or the whole drive if they cannot be read. \<open>wait\<close> is what waiting for the request does and
  returns, and \<open>settle\<close> the state of the hardware after it.
\<close>

definition populate :: "ide_fns \<Rightarrow> (addr \<Rightarrow> dst \<Rightarrow> (int \<times> dst) option) \<Rightarrow> ('h ide \<Rightarrow> 'h) \<Rightarrow> addr \<Rightarrow> 'h ide \<Rightarrow> (bool \<times> 'h ide) option" where
  "populate fns wait settle d s = do {
     let h = settle s;
     (ret, s) \<leftarrow> on_sys_ret (autopopulate_blkdev (\<lambda>_. request_ide (ide_devs s)) wait d) s;
     let s = s\<lparr>pc_hw := h\<rparr>;
     if ret < 0 then do {
       (x, s) \<leftarrow> pc_kma sizeof_part s;
       if x = NULL then Some (False, s)
       else do {
         b \<leftarrow> dv_bdevs (dev (pc_sys s)) d;
         v \<leftarrow> ide_devs s (bd_private b);
         let s = put_sys (put_part x \<lparr>pt_minor = bd_minor b, pt_offset = 0, pt_size = iv_size v\<rparr> (pc_sys s)) s;
         (n, q, t) \<leftarrow> d_insert x (bd_parts b) (pc_sys s);
         let s = put_sys (put_bdev d (b\<lparr>bd_parts := q\<rparr>) t) s;
         if n = NULL then do { s \<leftarrow> pc_kfr x s; Some (False, s) } else Some (True, s)
       }
     } else Some (True, s)
   }"

fun add_drives :: "ide_fns \<Rightarrow> (addr \<Rightarrow> dst \<Rightarrow> (int \<times> dst) option) \<Rightarrow> ('h ide \<Rightarrow> 'h) \<Rightarrow> addr list \<Rightarrow> nat list \<Rightarrow> 'h ide \<Rightarrow> 'h ide option" where
  "add_drives fns wait settle ds [] s = Some s"
| "add_drives fns wait settle ds (i # is) s =
    (if ds ! i = NULL then add_drives fns wait settle ds is s
     else do {
       b \<leftarrow> dv_bdevs (dev (pc_sys s)) (ds ! i);
       (ok, s) \<leftarrow> populate fns wait settle (ds ! i) s;
       if \<not> ok then do { s \<leftarrow> free_drive (ds ! i) (bd_private b) s; add_drives fns wait settle ds is s }
       else do {
         (ret, s) \<leftarrow> on_sys_ret (add_blkdev (ds ! i)) s;
         if ret < 0 then do {
           v \<leftarrow> ide_devs s (bd_private b);
           s \<leftarrow> (if i mod 2 = 0 \<and> ds ! (i + 1) = NULL then free_channel (iv_channel v) s else Some s);
           s \<leftarrow> free_drive (ds ! i) (bd_private b) s;
           add_drives fns wait settle ds is s
         } else add_drives fns wait settle ds is s
       }
     })"

fun fail_drives :: "addr list \<Rightarrow> nat list \<Rightarrow> 'h ide \<Rightarrow> 'h ide option" where
  "fail_drives ds [] s = Some s"
| "fail_drives ds (i # is) s =
    (if ds ! i = NULL then fail_drives ds is s
     else do {
       b \<leftarrow> dv_bdevs (dev (pc_sys s)) (ds ! i);
       v \<leftarrow> ide_devs s (bd_private b);
       s \<leftarrow> (if i mod 2 = 0 then free_channel (iv_channel v) s else Some s);
       s \<leftarrow> free_drive (ds ! i) (bd_private b) s;
       fail_drives ds is s
     })"

definition ide_probe :: "'h hardware \<Rightarrow> ide_fns \<Rightarrow> (addr \<Rightarrow> dst \<Rightarrow> (int \<times> dst) option) \<Rightarrow> ('h ide \<Rightarrow> 'h) \<Rightarrow> addr \<Rightarrow> pci_dev_id \<Rightarrow> 'h ide \<Rightarrow> (int \<times> 'h ide) option" where
  "ide_probe hw fns wait settle p i s = do {
     (ret, s) \<leftarrow> claim_pci_dev p s;
     if ret < 0 then Some (0, s)
     else do {
       d \<leftarrow> pc_devs s p;
       b \<leftarrow> pc_buses s (pd_bus d);
       let bus = pb_secondary b;
       let slot = pd_slot d;
       let func = pd_func d;
       let (ok, s) = on_hw_ret (master_ok hw bus slot func) s;
       if \<not> ok then do { s \<leftarrow> release_pci_dev p s; Some (0, s) }
       else do {
         let (prog, s) = on_hw_ret (set_prog hw bus slot func) s;
         let (bar4, s) = on_hw_ret (pciConfigReadDword hw bus slot func PCI_BASE_ADDRESS_4) s;
         let (_, t) = register_interrupt_handler (of_nat IRQ14) (fn_ide_irq fns) (tm_idt (pc_time s));
         let (_, t) = register_interrupt_handler (of_nat IRQ15) (fn_ide_irq fns) t;
         let s = s\<lparr>pc_time := (pc_time s)\<lparr>tm_idt := t\<rparr>\<rparr>;
         let ((bar0, bar1), s) = on_hw_ret (channel_bars hw (prog AND 0x01 \<noteq> 0) PCI_BASE_ADDRESS_0 PCI_BASE_ADDRESS_1 (0x01F0, 0x03F6) bus slot func) s;
         let ((bar2, bar3), s) = on_hw_ret (channel_bars hw (prog AND 0x04 \<noteq> 0) PCI_BASE_ADDRESS_2 PCI_BASE_ADDRESS_3 (0x0170, 0x0376) bus slot func) s;
         ((ds, fail), s) \<leftarrow> probe_channels hw fns bar4 [(0, bar0, bar1), (1, bar2, bar3)] [NULL, NULL, NULL, NULL] s;
         if fail then do { s \<leftarrow> fail_drives ds [0, 1, 2, 3] s; Some (- ENOMEM, s) }
         else do { s \<leftarrow> add_drives fns wait settle ds [0, 1, 2, 3] s; Some (0, s) }
       }
     }
   }"

text \<open>A registration is repeated as long as it returns \<^verbatim>\<open>-ENOMEM\<close>.\<close>

partial_function (option) register_loop :: "('h ide \<Rightarrow> (int \<times> 'h ide) option) \<Rightarrow> 'h ide \<Rightarrow> (int \<times> 'h ide) option" where
  "register_loop f s = do { (ret, s) \<leftarrow> f s; if ret = - ENOMEM then register_loop f s else Some (ret, s) }"

definition ide_name :: bytes where
  "ide_name = [0x49, 0x44, 0x45]"

definition init_ide :: "'h hardware \<Rightarrow> ide_fns \<Rightarrow> (addr \<Rightarrow> dst \<Rightarrow> (int \<times> dst) option) \<Rightarrow> ('h ide \<Rightarrow> 'h) \<Rightarrow> 'h ide \<Rightarrow> 'h ide option" where
  "init_ide hw fns wait settle s = do {
     (wq, s) \<leftarrow> on_sys_ret create_waitqueue s;
     let s = s\<lparr>ide_wq := wq\<rparr>;
     if wq = NULL then Some s
     else do {
       (ret, s) \<leftarrow> register_loop (on_sys_ret (register_blkdev IDE_MAJOR ide_name (fn_ide_fops fns))) s;
       if ret < 0 then Some s
       else do {
         (_, s) \<leftarrow> register_loop (register_pci (\<lambda>_. ide_probe hw fns wait settle) ide_name ide_ids (fn_ide_probe fns)) s;
         Some s
       }
     }
   }"

end
