(* ===== verification/Ide_Spec.thy ===== *)
theory Ide_Spec
  imports Ide
begin

section \<open>What the IDE driver tells and takes from a drive\<close>

text \<open>
  Theorems about the driver of IDE disks, against the registers of a drive as the ATA standard describes them: the sector and the number of sectors
  a drive finds in its registers when it gets a command, the words of the answer to \<^verbatim>\<open>IDENTIFY\<close>, and the data of a sector.
\<close>

unbundle bit_operations_syntax

subsection \<open>The registers of a drive\<close>

text \<open>
  The registers \<^verbatim>\<open>2\<close> to \<^verbatim>\<open>5\<close> of a channel (sector count and the three bytes of the address) keep the last two values written, the device register keeps
  the last. Writing the control register and reading the alternate status change none of them.
\<close>

record taskfile =
  tf_cur :: "nat \<Rightarrow> 8 word"
  tf_prev :: "nat \<Rightarrow> 8 word"
  tf_dev :: "8 word"

definition tf_write :: "nat \<Rightarrow> 8 word \<Rightarrow> taskfile \<Rightarrow> taskfile" where
  "tf_write r v t = t\<lparr>tf_prev := (tf_prev t)(r := tf_cur t r), tf_cur := (tf_cur t)(r := v)\<rparr>"

definition ata_channel :: "'h hardware \<Rightarrow> 16 word \<Rightarrow> 16 word \<Rightarrow> ('h \<Rightarrow> taskfile) \<Rightarrow> bool" where
  "ata_channel hw base ctrl tf \<longleftrightarrow>
     (\<forall>r v h. r \<in> {2, 3, 4, 5} \<longrightarrow> tf (hw_out8 hw (base + of_nat r) v h) = tf_write r v (tf h))
     \<and> (\<forall>v h. tf (hw_out8 hw (base + 6) v h) = (tf h)\<lparr>tf_dev := v\<rparr>)
     \<and> (\<forall>v h. tf (hw_out8 hw ctrl v h) = tf h) \<and> (\<forall>h. tf (snd (hw_in8 hw ctrl h)) = tf h)"

text \<open>
  The sector a drive with 16 heads and 63 sectors per track finds in its registers: with a command of the extended set, 48 bits from both values of the address registers;
  otherwise 28 bits, or cylinder, head and sector, depending on a bit of the device register.
\<close>

definition tf_sector :: "bool \<Rightarrow> taskfile \<Rightarrow> nat" where
  "tf_sector ext t =
    (if ext then unat (tf_cur t 3) + unat (tf_cur t 4) * 2 ^ 8 + unat (tf_cur t 5) * 2 ^ 16
       + unat (tf_prev t 3) * 2 ^ 24 + unat (tf_prev t 4) * 2 ^ 32 + unat (tf_prev t 5) * 2 ^ 40
     else if bit (tf_dev t) 6 then unat (tf_cur t 3) + unat (tf_cur t 4) * 2 ^ 8 + unat (tf_cur t 5) * 2 ^ 16 + unat (tf_dev t AND 0x0F) * 2 ^ 24
     else ((unat (tf_cur t 4) + unat (tf_cur t 5) * 2 ^ 8) * 16 + unat (tf_dev t AND 0x0F)) * 63 + unat (tf_cur t 3) - 1)"

definition tf_count :: "bool \<Rightarrow> taskfile \<Rightarrow> nat" where
  "tf_count ext t = (if ext then unat (tf_cur t 2) + unat (tf_prev t 2) * 2 ^ 8 else unat (tf_cur t 2))"

lemma not_hob: "reg < 8 \<Longrightarrow> \<not> hob_reg reg"
  by (simp add: hob_reg_def word_less_nat_alt)

lemma hob_not_low: "hob_reg reg \<Longrightarrow> \<not> reg < 8"
  using not_hob by blast

lemma ide_write_low: "reg < 8 \<Longrightarrow> ide_write hw c reg v h = hw_out8 hw (ch_base c + ucast reg) v h"
  by (subst ide_write.simps) (simp add: not_hob)

lemma ide_write_control: "ide_write hw c ATA_REG_CONTROL v h = hw_out8 hw (ch_ctrl c) v h"
  by (subst ide_write.simps) (simp add: hob_reg_def ATA_REG_CONTROL_def)

lemma ide_write_hob: "hob_reg reg \<Longrightarrow> ide_write hw c reg v h =
    hw_out8 hw (ch_ctrl c) (ch_nEIN c) (hw_out8 hw (ch_base c + ucast reg - 6) v (hw_out8 hw (ch_ctrl c) (0x80 OR ch_nEIN c) h))"
  by (subst ide_write.simps) (use hob_not_low [of reg] in \<open>simp add: ide_write_control Let_def; simp add: hob_reg_def\<close>)

lemma ide_read_altstatus: "ide_read hw c ATA_REG_ALTSTATUS h = hw_in8 hw (ch_ctrl c) h"
  by (simp add: ide_read_def hob_reg_def ATA_REG_ALTSTATUS_def)

lemma tf_writes:
  assumes "ata_channel hw (ch_base c) (ch_ctrl c) tf"
  shows "tf (ide_write hw c ATA_REG_SECCOUNT0 v h) = tf_write 2 v (tf h)" "tf (ide_write hw c ATA_REG_LBA0 v h) = tf_write 3 v (tf h)"
    "tf (ide_write hw c ATA_REG_LBA1 v h) = tf_write 4 v (tf h)" "tf (ide_write hw c ATA_REG_LBA2 v h) = tf_write 5 v (tf h)"
    "tf (ide_write hw c ATA_REG_HDDEVSEL v h) = (tf h)\<lparr>tf_dev := v\<rparr>" "tf (ide_write hw c ATA_REG_CONTROL v h) = tf h"
    "tf (ide_write hw c ATA_REG_SECCOUNT1 v h) = tf_write 2 v (tf h)" "tf (ide_write hw c ATA_REG_LBA3 v h) = tf_write 3 v (tf h)"
    "tf (ide_write hw c ATA_REG_LBA4 v h) = tf_write 4 v (tf h)" "tf (ide_write hw c ATA_REG_LBA5 v h) = tf_write 5 v (tf h)"
proof -
  have out: "tf (hw_out8 hw (ch_base c + of_nat r) v h) = tf_write r v (tf h)" if "r \<in> {2, 3, 4, 5}" for r v h
    using assms that unfolding ata_channel_def by blast
  have dev: "tf (hw_out8 hw (ch_base c + 6) v h) = (tf h)\<lparr>tf_dev := v\<rparr>" and ctl: "tf (hw_out8 hw (ch_ctrl c) v h) = tf h" for v h
    using assms by (simp_all add: ata_channel_def)
  show "tf (ide_write hw c ATA_REG_SECCOUNT0 v h) = tf_write 2 v (tf h)" "tf (ide_write hw c ATA_REG_LBA0 v h) = tf_write 3 v (tf h)"
    "tf (ide_write hw c ATA_REG_LBA1 v h) = tf_write 4 v (tf h)" "tf (ide_write hw c ATA_REG_LBA2 v h) = tf_write 5 v (tf h)"
    "tf (ide_write hw c ATA_REG_HDDEVSEL v h) = (tf h)\<lparr>tf_dev := v\<rparr>"
    using out [of 2] out [of 3] out [of 4] out [of 5] dev by (simp_all add: ide_write_low ata_reg_defs)
  show "tf (ide_write hw c ATA_REG_CONTROL v h) = tf h" by (simp add: ide_write_control ctl)
  have hob: "tf (ide_write hw c reg v h) = tf (hw_out8 hw (ch_base c + ucast reg - 6) v (hw_out8 hw (ch_ctrl c) (0x80 OR ch_nEIN c) h))" if "hob_reg reg" for reg
    by (simp add: ide_write_hob [OF that] ctl)
  have port: "ch_base c + ucast (8 :: 8 word) - 6 = ch_base c + of_nat 2" "ch_base c + ucast (9 :: 8 word) - 6 = ch_base c + of_nat 3"
    "ch_base c + ucast (10 :: 8 word) - 6 = ch_base c + of_nat 4" "ch_base c + ucast (11 :: 8 word) - 6 = ch_base c + of_nat 5" by simp_all
  show "tf (ide_write hw c ATA_REG_SECCOUNT1 v h) = tf_write 2 v (tf h)" "tf (ide_write hw c ATA_REG_LBA3 v h) = tf_write 3 v (tf h)"
    "tf (ide_write hw c ATA_REG_LBA4 v h) = tf_write 4 v (tf h)" "tf (ide_write hw c ATA_REG_LBA5 v h) = tf_write 5 v (tf h)"
    unfolding ata_reg_defs by (subst hob, simp add: hob_reg_def, unfold port, subst out, simp, simp add: ctl)+
qed

lemma wait_busy_tf:
  assumes "ata_channel hw (ch_base c) (ch_ctrl c) tf" "wait_busy hw c h = Some h'"
  shows "tf h' = tf h"
proof -
  have "ata_channel hw (ch_base c) (ch_ctrl c) tf \<longrightarrow> tf h' = tf h"
  proof (rule wait_busy.raw_induct [where P = "\<lambda>hw c h h'. ata_channel hw (ch_base c) (ch_ctrl c) tf \<longrightarrow> tf h' = tf h", rotated, OF assms(2)])
    fix wb :: "'a hardware \<Rightarrow> IDEChannelRegisters \<Rightarrow> 'a \<Rightarrow> 'a option" and hw c h h'
    assume IH: "\<And>hw c h h'. wb hw c h = Some h' \<Longrightarrow> ata_channel hw (ch_base c) (ch_ctrl c) tf \<longrightarrow> tf h' = tf h"
      and run: "(case ide_read hw c ATA_REG_ALTSTATUS h of (st, h) \<Rightarrow> if st AND ATA_SR_BSY \<noteq> 0 then wb hw c h else Some h) = Some h'"
    obtain st k where k: "hw_in8 hw (ch_ctrl c) h = (st, k)" by (cases "hw_in8 hw (ch_ctrl c) h")
    have "tf k = tf h" if "ata_channel hw (ch_base c) (ch_ctrl c) tf" using that k by (auto simp: ata_channel_def dest: spec [of _ h])
    with run IH [of hw c k h'] show "ata_channel hw (ch_base c) (ch_ctrl c) tf \<longrightarrow> tf h' = tf h"
      by (auto simp: ide_read_altstatus k split: if_splits)
  qed
  with assms(1) show ?thesis by blast
qed

lemma waste400_tf: "ata_channel hw (ch_base c) (ch_ctrl c) tf \<Longrightarrow> tf (waste400 hw c h) = tf h"
  by (simp add: waste400_def ide_read_altstatus ata_channel_def numeral_eq_Suc)

lemma ata_select_tf:
  assumes "ata_channel hw (ch_base c) (ch_ctrl c) tf" "ata_select hw c v head h = Some h'"
  shows "tf h' = (tf h)\<lparr>tf_dev := ucast ((if iv_cap v AND ATA_CAP_LBA \<noteq> 0 then 0xE0 else 0xA0) OR push_bit 4 (ucast (iv_drive v)) OR head)\<rparr>"
proof -
  from assms(2) obtain h1 where h1: "wait_busy hw c h = Some h1" by (auto simp: ata_select_def split: bind_splits)
  note w = wait_busy_tf [OF assms(1)] tf_writes [OF assms(1)] waste400_tf [OF assms(1)]
  show ?thesis
  proof (cases "iv_cap v AND ATA_CAP_LBA \<noteq> 0")
    case True
    with assms(2) h1 have "wait_busy hw c (waste400 hw c (ide_write hw c ATA_REG_HDDEVSEL (ucast (0xE0 OR push_bit 4 (ucast (iv_drive v)) OR head)) h1)) = Some h'"
      by (simp add: ata_select_def)
    from w(1) [OF this] w(1) [OF h1] True show ?thesis by (simp add: w)
  next
    case False
    with assms(2) h1 have "wait_busy hw c (waste400 hw c (ide_write hw c ATA_REG_HDDEVSEL (ucast (0xA0 OR push_bit 4 (ucast (iv_drive v)) OR head)) h1)) = Some h'"
      by (simp add: ata_select_def)
    from w(1) [OF this] w(1) [OF h1] False show ?thesis by (simp add: w)
  qed
qed

lemma ata_address_tf:
  assumes "ata_channel hw (ch_base c) (ch_ctrl c) tf" "length io = 6"
  shows "\<forall>i < 3. tf_cur (tf (ata_address hw c ext io h)) (3 + i) = io ! i" "ext \<Longrightarrow> \<forall>i < 3. tf_prev (tf (ata_address hw c ext io h)) (3 + i) = io ! (3 + i)"
    "tf_dev (tf (ata_address hw c ext io h)) = tf_dev (tf h)"
  using assms by (auto simp: ata_address_def Let_def tf_writes [OF assms(1)] tf_write_def less_Suc_eq numeral_eq_Suc)

lemma ata_count_tf:
  assumes "ata_channel hw (ch_base c) (ch_ctrl c) tf"
  shows "tf_cur (tf (ata_count hw c ext n h)) 2 = of_nat n" "ext \<Longrightarrow> tf_prev (tf (ata_count hw c ext n h)) 2 = of_nat (n div 256)"
    "tf_dev (tf (ata_count hw c ext n h)) = tf_dev (tf h)" "i \<noteq> 2 \<Longrightarrow> tf_cur (tf (ata_count hw c ext n h)) i = tf_cur (tf h) i"
    "i \<noteq> 2 \<Longrightarrow> tf_prev (tf (ata_count hw c ext n h)) i = tf_prev (tf h) i"
  by (auto simp: ata_count_def Let_def tf_writes [OF assms] tf_write_def)

subsection \<open>Addresses\<close>

lemma unat_drop: "unat (drop_bit k x) = unat (x :: 32 word) div 2 ^ k"
proof -
  have "unat x < 2 ^ 32" using unsigned_less [of x] by simp
  then show ?thesis unfolding unsigned_drop_bit_eq by (simp add: drop_bit_eq_div take_bit_eq_mod)
qed

lemma byte_of:
  fixes x :: "32 word"
  shows "unat (ucast (x AND 0xFF) :: 8 word) = unat x mod 256"
    "unat (ucast (drop_bit 8 (x AND 0xFF00)) :: 8 word) = unat x div 2 ^ 8 mod 256"
    "unat (ucast (drop_bit 16 (x AND 0xFF0000)) :: 8 word) = unat x div 2 ^ 16 mod 256"
    "unat (ucast (drop_bit 24 (x AND 0xFF000000)) :: 8 word) = unat x div 2 ^ 24 mod 256"
proof -
  have m: "(0xFF :: 32 word) = push_bit 0 (mask 8)" "(0xFF00 :: 32 word) = push_bit 8 (mask 8)" "(0xFF0000 :: 32 word) = push_bit 16 (mask 8)"
    "(0xFF000000 :: 32 word) = push_bit 24 (mask 8)" by (simp_all add: mask_eq_exp_minus_1 push_bit_eq_mult)
  have e: "ucast (drop_bit k (x AND push_bit k (mask 8))) = (ucast (drop_bit k x) :: 8 word)" for k
    by (rule bit_word_eqI) (auto simp: bit_simps dest: bit_imp_le_length)
  have u: "unat (ucast (drop_bit k x) :: 8 word) = unat x div 2 ^ k mod 256" for k
    by (simp only: unsigned_ucast_eq unat_drop take_bit_eq_mod) simp
  show "unat (ucast (x AND 0xFF) :: 8 word) = unat x mod 256" using e [of 0] u [of 0] m(1) by simp
  show "unat (ucast (drop_bit 8 (x AND 0xFF00)) :: 8 word) = unat x div 2 ^ 8 mod 256"
    "unat (ucast (drop_bit 16 (x AND 0xFF0000)) :: 8 word) = unat x div 2 ^ 16 mod 256"
    "unat (ucast (drop_bit 24 (x AND 0xFF000000)) :: 8 word) = unat x div 2 ^ 24 mod 256"
    unfolding m e u by (rule refl)+
qed

lemma bytes_sum: "x = b0 + 256 * q1 \<Longrightarrow> q1 = b1 + 256 * q2 \<Longrightarrow> q2 = b2 + 256 * q3 \<Longrightarrow> b0 + b1 * 2 ^ 8 + b2 * 2 ^ 16 + q3 * 2 ^ 24 = (x :: nat)"
  by (simp add: algebra_simps)

lemma nat_bytes: "(x :: nat) mod 256 + x div 2 ^ 8 mod 256 * 2 ^ 8 + x div 2 ^ 16 mod 256 * 2 ^ 16 + x div 2 ^ 24 * 2 ^ 24 = x"
proof (rule bytes_sum)
  have "x div 2 ^ 16 = x div 2 ^ 8 div 256" "x div 2 ^ 24 = x div 2 ^ 16 div 256" by (simp_all add: div_mult2_eq [symmetric])
  then show "x = x mod 256 + 256 * (x div 2 ^ 8)" "x div 2 ^ 8 = x div 2 ^ 8 mod 256 + 256 * (x div 2 ^ 16)" "x div 2 ^ 16 = x div 2 ^ 16 mod 256 + 256 * (x div 2 ^ 24)"
    using mod_mult_div_eq [of x 256] mod_mult_div_eq [of "x div 2 ^ 8" 256] mod_mult_div_eq [of "x div 2 ^ 16" 256] by simp_all
qed

lemma head28:
  fixes x :: "32 word"
  assumes "x < 0x10000000"
  shows "unat (drop_bit 24 (x AND 0x0F000000)) = unat x div 2 ^ 24" "unat (drop_bit 24 (x AND 0x0F000000)) < 16"
proof -
  have m: "(0x0F000000 :: 32 word) = push_bit 24 (mask 4)" by (simp add: mask_eq_exp_minus_1 push_bit_eq_mult)
  have "drop_bit 24 (x AND push_bit 24 (mask 4)) = take_bit 4 (drop_bit 24 x)" by (rule bit_word_eqI) (auto simp: bit_simps)
  then have "unat (drop_bit 24 (x AND 0x0F000000)) = unat x div 2 ^ 24 mod 16"
    unfolding m by (simp add: take_bit_eq_mod drop_bit_eq_div unat_div unat_mod)
  moreover have "unat x < 2 ^ 28" using assms by (simp add: word_less_nat_alt)
  ultimately show "unat (drop_bit 24 (x AND 0x0F000000)) = unat x div 2 ^ 24" "unat (drop_bit 24 (x AND 0x0F000000)) < 16" by simp_all
qed

lemma dev_reg:
  fixes head :: "32 word"
  assumes "unat head < 16" "d \<in> {0, 1 :: 8 word}" "b \<in> {0xE0, 0xA0}"
  shows "unat ((ucast (b OR push_bit 4 (ucast d) OR head) :: 8 word) AND 0x0F) = unat head"
    "bit (ucast (b OR push_bit 4 (ucast d) OR head) :: 8 word) 6 \<longleftrightarrow> b = 0xE0" "bit (ucast (b OR push_bit 4 (ucast d) OR head) :: 8 word) 4 \<longleftrightarrow> d = 1"
proof -
  have h: "\<not> bit head k" if "k \<ge> 4" for k
  proof -
    have "unat (take_bit 4 head) = unat head" using assms(1) by (simp add: take_bit_eq_mod unat_mod)
    then have "take_bit 4 head = head" by (simp add: word_unat_eq_iff)
    then show ?thesis using that by (metis bit_take_bit_iff leD)
  qed
  have low: "\<not> bit b k" if "k < 5" for k
  proof -
    have "(0xE0 :: 32 word) = push_bit 5 7" "(0xA0 :: 32 word) = push_bit 5 5" by (simp_all add: push_bit_eq_mult)
    with assms(3) obtain y where "b = push_bit 5 y" by blast
    with that show ?thesis by (simp add: bit_push_bit_iff)
  qed
  have "(ucast (b OR push_bit 4 (ucast d) OR head) :: 8 word) AND mask 4 = ucast head"
    using h low by (intro bit_word_eqI) (auto simp: bit_simps intro: ccontr [of "_ < 4"])
  moreover have "(0x0F :: 8 word) = mask 4" by (simp add: mask_eq_exp_minus_1)
  moreover have "unat (ucast head :: 8 word) = unat head" using assms(1) by (simp add: unsigned_ucast_eq take_bit_eq_mod)
  ultimately show "unat ((ucast (b OR push_bit 4 (ucast d) OR head) :: 8 word) AND 0x0F) = unat head" by simp
  show "bit (ucast (b OR push_bit 4 (ucast d) OR head) :: 8 word) 6 \<longleftrightarrow> b = 0xE0"
    using h [of 6] assms(2,3) by (auto simp: bit_simps)
  show "bit (ucast (b OR push_bit 4 (ucast d) OR head) :: 8 word) 4 \<longleftrightarrow> d = 1"
    using h [of 4] low [of 4] assms(2) by (auto simp: bit_simps)
qed

lemma chs_regs:
  fixes x :: "32 word"
  defines "sect \<equiv> x mod 63 + 1"
  shows "unat sect = unat x mod 63 + 1" "unat ((x + 1 - sect) div (63 * 16)) = unat x div 1008" "unat ((x + 1 - sect) mod (63 * 16) div 63) = unat x div 63 mod 16"
proof -
  have m: "unat (x mod 63) = unat x mod 63" by (simp add: unat_mod)
  have "unat x mod 63 < 63" by simp
  then show "unat sect = unat x mod 63 + 1" unfolding sect_def by (subst unat_add_lem [THEN iffD1]) (simp_all add: m)
  have d: "x + 1 - sect = x - x mod 63" by (simp add: sect_def)
  have "unat (x - x mod 63) = unat x - unat x mod 63" by (subst unat_sub) (simp_all add: word_le_nat_alt m)
  then have t: "unat (x + 1 - sect) = 63 * (unat x div 63)" unfolding d by (simp add: minus_mod_eq_mult_div)
  have "63 * (unat x div 63) div (63 * 16) = unat x div 63 div 16" by (rule div_mult_mult1) simp
  then show "unat ((x + 1 - sect) div (63 * 16)) = unat x div 1008" by (simp add: unat_div t div_mult2_eq [symmetric])
  have "63 * (unat x div 63) mod (63 * 16) = 63 * (unat x div 63 mod 16)" by (rule mult_mod_right [symmetric])
  then show "unat ((x + 1 - sect) mod (63 * 16) div 63) = unat x div 63 mod 16" by (simp add: unat_div unat_mod t)
qed

lemma chs_sum: "((x :: nat) div 1008 * 16 + x div 63 mod 16) * 63 + (x mod 63 + 1) - 1 = x"
proof -
  have "x div 1008 = x div 63 div 16" by (simp add: div_mult2_eq [symmetric])
  then have "x div 1008 * 16 + x div 63 mod 16 = x div 63" by simp
  then show ?thesis by simp
qed

text \<open>What the drive finds in its registers, case by case of the way to address a sector.\<close>

lemma lba48_sector:
  assumes "\<not> x < 0x10000000" "lba_regs cap x = (ext, io, head)" "\<forall>i < 3. tf_cur t (3 + i) = io ! i" "\<forall>i < 3. tf_prev t (3 + i) = io ! (3 + i)"
  shows "tf_sector ext t = unat x"
proof -
  have io: "tf_cur t 3 = io ! 0" "tf_cur t 4 = io ! 1" "tf_cur t 5 = io ! 2" "tf_prev t 3 = io ! 3" "tf_prev t 4 = io ! 4" "tf_prev t 5 = io ! 5"
    using assms(3) [rule_format, of 0] assms(3) [rule_format, of 1] assms(3) [rule_format, of 2]
      assms(4) [rule_format, of 0] assms(4) [rule_format, of 1] assms(4) [rule_format, of 2] by simp_all
  have r: "ext" "io ! 0 = ucast (x AND 0xFF)" "io ! 1 = ucast (drop_bit 8 (x AND 0xFF00))" "io ! 2 = ucast (drop_bit 16 (x AND 0xFF0000))"
    "io ! 3 = ucast (drop_bit 24 (x AND 0xFF000000))" "io ! 4 = 0" "io ! 5 = 0"
    using assms(1,2) by (auto simp: lba_regs_def not_le [symmetric])
  have "unat x div 2 ^ 24 mod 256 = unat x div 2 ^ 24" using unsigned_less [of x, where ?'a = nat] by simp
  then show ?thesis unfolding tf_sector_def io r(2-7) byte_of using r(1) nat_bytes [of "unat x"] by simp
qed

lemma lba28_sector:
  assumes "x < 0x10000000" "cap AND ATA_CAP_LBA \<noteq> 0" "lba_regs cap x = (ext, io, head)" "\<forall>i < 3. tf_cur t (3 + i) = io ! i"
    and "d \<in> {0, 1}" "tf_dev t = ucast (0xE0 OR push_bit 4 (ucast (d :: 8 word)) OR head)"
  shows "tf_sector ext t = unat x" "bit (tf_dev t) 4 \<longleftrightarrow> d = 1"
proof -
  have io: "tf_cur t 3 = io ! 0" "tf_cur t 4 = io ! 1" "tf_cur t 5 = io ! 2"
    using assms(4) [rule_format, of 0] assms(4) [rule_format, of 1] assms(4) [rule_format, of 2] by simp_all
  have r: "head = drop_bit 24 (x AND 0x0F000000)" "\<not> ext" "io ! 0 = ucast (x AND 0xFF)" "io ! 1 = ucast (drop_bit 8 (x AND 0xFF00))" "io ! 2 = ucast (drop_bit 16 (x AND 0xFF0000))"
    using assms(1-3) by (auto simp: lba_regs_def not_le [symmetric])
  have h: "unat head = unat x div 2 ^ 24" "unat head < 16" using head28 [OF assms(1)] by (simp_all only: r)
  note dev = dev_reg [where b = "0xE0", OF h(2) assms(5), simplified]
  show "tf_sector ext t = unat x" unfolding tf_sector_def io r(3-5) byte_of assms(6) dev(1) h(1) using r(2) dev(2) nat_bytes [of "unat x"] by simp
  show "bit (tf_dev t) 4 \<longleftrightarrow> d = 1" unfolding assms(6) by (rule dev(3))
qed

lemma chs_sector:
  assumes "unat x < 65536 * 16 * 63" "cap AND ATA_CAP_LBA = 0" "lba_regs cap x = (ext, io, head)" "\<forall>i < 3. tf_cur t (3 + i) = io ! i"
    and "d \<in> {0, 1}" "tf_dev t = ucast (0xA0 OR push_bit 4 (ucast (d :: 8 word)) OR head)"
  shows "tf_sector ext t = unat x" "bit (tf_dev t) 4 \<longleftrightarrow> d = 1"
proof -
  have io: "tf_cur t 3 = io ! 0" "tf_cur t 4 = io ! 1" "tf_cur t 5 = io ! 2"
    using assms(4) [rule_format, of 0] assms(4) [rule_format, of 1] assms(4) [rule_format, of 2] by simp_all
  have small: "\<not> x \<ge> 0x10000000" using assms(1) by (simp add: word_le_nat_alt)
  define cyl where "cyl = (x + 1 - (x mod 63 + 1)) div (63 * 16)"
  have r: "head = (x + 1 - (x mod 63 + 1)) mod (63 * 16) div 63" "\<not> ext" "io ! 0 = ucast (x mod 63 + 1)" "io ! 1 = ucast (cyl AND 0xFF)" "io ! 2 = ucast (drop_bit 8 cyl AND 0xFF)"
    using small assms(2,3) by (simp_all add: lba_regs_def Let_def cyl_def) (auto simp del: add_diff_cancel_right)
  have c: "unat cyl = unat x div 1008" "unat cyl < 65536" using chs_regs(2) [of x] assms(1) by (simp_all add: cyl_def)
  have h: "unat head = unat x div 63 mod 16" "unat head < 16" using chs_regs(3) [of x] by (simp_all add: r(1))
  have "unat (ucast (cyl AND 0xFF) :: 8 word) + unat (ucast (drop_bit 8 cyl AND 0xFF) :: 8 word) * 2 ^ 8 = unat cyl"
    using c(2) by (simp add: byte_of(1) unat_drop)
  moreover have "unat (ucast (x mod 63 + 1) :: 8 word) = unat x mod 63 + 1"
  proof -
    have "unat x mod 63 + 1 < 256" using mod_less_divisor [of 63 "unat x"] by linarith
    then show ?thesis using chs_regs(1) [of x] by (simp add: unsigned_ucast_eq take_bit_eq_mod)
  qed
  moreover note dev = dev_reg [where b = "0xA0", OF h(2) assms(5), simplified]
  ultimately show "tf_sector ext t = unat x" unfolding tf_sector_def io r(3-5) assms(6) dev(1) h(1) using r(2) dev(2) c(1) chs_sum [of "unat x"] by simp
  show "bit (tf_dev t) 4 \<longleftrightarrow> d = 1" unfolding assms(6) by (rule dev(3))
qed

lemma count_regs:
  assumes "tf_cur t 2 = of_nat (ata_sectors ext k)" "ext \<Longrightarrow> tf_prev t 2 = of_nat (ata_sectors ext k div 256)"
  shows "tf_count ext t = ata_sectors ext k"
proof (cases ext)
  case True
  have "ata_sectors ext k < 65536" using True by (simp add: ata_sectors_def IDE_MAX_TRANSFER_48_def)
  then show ?thesis using assms True by (simp add: tf_count_def unat_of_nat)
next
  case False
  have "ata_sectors ext k < 256" using False by (simp add: ata_sectors_def IDE_MAX_TRANSFER_28_def)
  then show ?thesis using assms False by (simp add: tf_count_def unat_of_nat)
qed


text \<open>A channel at the usual ports whose drive is never busy.\<close>

definition demo_ata :: "taskfile hardware" where
  "demo_ata = \<lparr>hw_in8 = (\<lambda>p h. (0, h)), hw_in16 = (\<lambda>p h. (0x1234, h)), hw_in32 = (\<lambda>p h. (0, h)),
     hw_out8 = (\<lambda>p v h. if p \<in> {0x1F2, 0x1F3, 0x1F4, 0x1F5} then tf_write (unat (p - 0x1F0)) v h else if p = 0x1F6 then h\<lparr>tf_dev := v\<rparr> else h),
     hw_out16 = (\<lambda>p v h. h), hw_out32 = (\<lambda>p v h. h)\<rparr>"

definition demo_chan :: IDEChannelRegisters where
  "demo_chan = \<lparr>ch_channel = 0, ch_base = 0x1F0, ch_ctrl = 0x3F6, ch_bmide = 0, ch_nEIN = 2, ch_mutex = NULL\<rparr>"

definition demo_drive :: IDEDevice where
  "demo_drive = \<lparr>iv_channel = 0x5000, iv_drive = 1, iv_type = IDE_ATA, iv_sig = 0, iv_cap = 0x0200, iv_commandsets = 0, iv_size = 0x20000, iv_model = [], iv_servicer = NULL\<rparr>"

definition demo_tf :: taskfile where
  "demo_tf = \<lparr>tf_cur = (\<lambda>_. 0), tf_prev = (\<lambda>_. 0), tf_dev = 0\<rparr>"

lemma demo_ata_channel: "ata_channel demo_ata (ch_base demo_chan) (ch_ctrl demo_chan) id"
  by (auto simp: ata_channel_def demo_ata_def demo_chan_def)


subsection \<open>Identification\<close>

lemma insw_length: "length (fst (insw hw p n h)) = n"
  by (induction n arbitrary: h) (simp_all add: split_beta)

lemma word_bytes_length [simp]: "length (word_bytes ws) = 2 * length ws"
  by (induction ws) simp_all

lemma word_bytes_nth: "i < length ws \<Longrightarrow> word_bytes ws ! (2 * i) = ucast (ws ! i) \<and> word_bytes ws ! (2 * i + 1) = ucast (drop_bit 8 (ws ! i))"
  by (induction ws arbitrary: i) (auto simp: less_Suc_eq_0_disj)

lemma bytes_words_word_bytes [simp]: "bytes_words (word_bytes ws) = ws"
proof (induction ws)
  case (Cons w ws)
  have "ucast (ucast w :: 8 word) OR push_bit 8 (ucast (ucast (drop_bit 8 w) :: 8 word)) = w"
    by (rule bit_word_eqI) (auto simp: bit_simps)
  with Cons show ?case by simp
qed simp

lemma word_halves: "unat (ucast w :: 8 word) + 256 * unat (ucast (drop_bit 8 w) :: 8 word) = unat (w :: 16 word)"
proof -
  have w: "unat w < 65536" using unsigned_less [of w, where ?'a = nat] by simp
  have "unat (ucast w :: 8 word) = unat w mod 256" by (simp add: unsigned_ucast_eq take_bit_eq_mod)
  moreover have "unat (drop_bit 8 w) = unat w div 256" by (simp add: drop_bit_eq_div unat_div)
  then have "unat (ucast (drop_bit 8 w) :: 8 word) = unat w div 256" using w by (simp only: unsigned_ucast_eq take_bit_eq_mod) simp
  ultimately show ?thesis by simp
qed

definition buffer_holds :: "addr \<Rightarrow> 16 word list \<Rightarrow> dst \<Rightarrow> bool" where
  "buffer_holds a ws t \<longleftrightarrow> (\<forall>k < 2 * length ws. dv_mem (dev t) (a + k) = word_bytes ws ! k)"

lemma buffer_word:
  assumes "buffer_holds a ws t" "i < length ws"
  shows "dv_mem (dev t) (a + 2 * i) = ucast (ws ! i)" "dv_mem (dev t) (a + 2 * i + 1) = ucast (drop_bit 8 (ws ! i))"
  using assms word_bytes_nth [OF assms(2)] assms(1) [unfolded buffer_holds_def, rule_format, of "2 * i"] assms(1) [unfolded buffer_holds_def, rule_format, of "2 * i + 1"]
  by simp_all

lemma buffer_mem16: "buffer_holds a ws t \<Longrightarrow> i < length ws \<Longrightarrow> mem16 (a + 2 * i) t = ws ! i"
proof -
  assume "buffer_holds a ws t" "i < length ws"
  from buffer_word [OF this] bytes_words_word_bytes [of "[ws ! i]"] show ?thesis by (simp add: mem16_def)
qed

lemma buffer_mem32: "buffer_holds a ws t \<Longrightarrow> i + 1 < length ws \<Longrightarrow> mem32 (a + 2 * i) t = unat (ws ! i) + 65536 * unat (ws ! (i + 1))"
proof -
  assume h: "buffer_holds a ws t" "i + 1 < length ws"
  then have i: "i < length ws" by simp
  have "a + 2 * i + 2 = a + 2 * (i + 1)" "a + 2 * i + 3 = a + 2 * (i + 1) + 1" by simp_all
  then show ?thesis using buffer_word [OF h(1) i] buffer_word [OF h] word_halves [of "ws ! i"] word_halves [of "ws ! (i + 1)"]
    unfolding mem32_def by (simp only:)
qed

lemma read_buffer_holds:
  "buffer_holds buff (fst (insw hw (ch_base c) n (pc_hw s))) (pc_sys (ide_read_buffer hw c ATA_REG_DATA buff n s))"
proof -
  let ?ws = "fst (insw hw (ch_base c) n (pc_hw s))"
  have len: "length (word_bytes ?ws) = 2 * length ?ws" by simp
  have "dv_mem (dev (pc_sys (ide_read_buffer hw c ATA_REG_DATA buff n s))) x
      = (if buff \<le> x \<and> x < buff + length (word_bytes ?ws) then word_bytes ?ws ! (x - buff) else dv_mem (dev (pc_sys s)) x)" for x
    by (simp add: ide_read_buffer_def hob_reg_def ATA_REG_DATA_def on_hw_ret_def put_sys_def put_mem_def upd_dev_def upd_vfs_def split_beta del: word_bytes_length)
  then show ?thesis by (simp add: buffer_holds_def)
qed

text \<open>The words of the answer to \<^verbatim>\<open>IDENTIFY DEVICE\<close> that the driver uses, by their numbers in the ATA standard; the characters of the model come high byte first.\<close>

definition ident_model :: "16 word list \<Rightarrow> bytes" where
  "ident_model ws = map (\<lambda>k. let w = ws ! (27 + k div 2) in if even k then ucast (drop_bit 8 w) else ucast w) [0..<40]"

definition ident_dword :: "16 word list \<Rightarrow> nat \<Rightarrow> nat" where
  "ident_dword ws i = unat (ws ! i) + 65536 * unat (ws ! (i + 1))"

lemma ucast_of_unat: "ucast w = of_nat (unat w)"
  by transfer simp

lemma buffer_model:
  assumes "buffer_holds buff ws t" "length ws = 256"
  shows "map (\<lambda>k. dv_mem (dev t) (buff + ATA_IDENT_MODEL + (if even k then k + 1 else k - 1))) [0..<40] = ident_model ws"
  unfolding ident_model_def
proof (rule map_cong [OF refl])
  fix k :: nat assume "k \<in> set [0..<40]"
  then have k: "k < 40" by simp
  show "dv_mem (dev t) (buff + ATA_IDENT_MODEL + (if even k then k + 1 else k - 1)) = (let w = ws ! (27 + k div 2) in if even k then ucast (drop_bit 8 w) else ucast w)"
  proof (cases "even k")
    case True
    then have e: "buff + ATA_IDENT_MODEL + (k + 1) = buff + 2 * (27 + k div 2) + 1" by (auto simp: ATA_IDENT_MODEL_def)
    have "27 + k div 2 < length ws" using k assms(2) by simp
    from buffer_word(2) [OF assms(1) this] show ?thesis unfolding if_P [OF True] e Let_def .
  next
    case False
    then have e: "buff + ATA_IDENT_MODEL + (k - 1) = buff + 2 * (27 + k div 2)" by (auto simp: ATA_IDENT_MODEL_def elim!: oddE)
    have "27 + k div 2 < length ws" using k assms(2) by simp
    from buffer_word(1) [OF assms(1) this] show ?thesis unfolding if_not_P [OF False] e Let_def .
  qed
qed

text \<open>
  C37. The drive is what it says it is: from the 256 words a drive answers to \<^verbatim>\<open>IDENTIFY\<close>, the driver takes type (word 0), capabilities (49), command sets (82 and 83), the number of
  sectors (100 and 101 if the drive has 48-bit addresses, 60 and 61 otherwise) and the name of the model (27 to 46, in the right order).
\<close>

theorem drive_identified:
  "let ws = fst (insw hw (ch_base c) 256 (pc_hw s)); v = new_drive cp j buff (pc_sys (ide_read_buffer hw c ATA_REG_DATA buff 256 s))
   in iv_channel v = cp \<and> iv_drive v = j \<and> iv_sig v = ws ! 0 \<and> iv_cap v = ws ! 49 \<and> iv_commandsets v = of_nat (ident_dword ws 82)
     \<and> iv_size v = ident_dword ws (if bit (ws ! 83) 10 then 100 else 60) \<and> iv_model v = ident_model ws @ [0]"
proof -
  define ws t where "ws = fst (insw hw (ch_base c) 256 (pc_hw s))" and "t = pc_sys (ide_read_buffer hw c ATA_REG_DATA buff 256 s)"
  have b: "buffer_holds buff ws t" and len: "length ws = 256" unfolding ws_def t_def by (rule read_buffer_holds, rule insw_length)
  have m16: "mem16 (buff + 2 * i) t = ws ! i" if "i < 256" for i using buffer_mem16 [OF b] len that by simp
  have m32: "mem32 (buff + 2 * i) t = ident_dword ws i" if "i < 255" for i using buffer_mem32 [OF b] len that by (simp add: ident_dword_def)
  let ?sets = "of_nat (ident_dword ws 82) :: 32 word"
  have "?sets = ucast (ws ! 82) + push_bit 16 (ucast (ws ! 83))"
    by (simp add: ident_dword_def push_bit_eq_mult flip: ucast_of_unat)
  also have "\<dots> = ucast (ws ! 82) OR push_bit 16 (ucast (ws ! 83))"
    by (rule disjunctive_add_eq_or) (auto simp: bit_eq_iff bit_simps dest: bit_imp_le_length)
  finally have sets: "bit ?sets 26 \<longleftrightarrow> bit (ws ! 83) 10" by (simp add: bit_simps) (auto dest: bit_imp_le_length)
  have "?sets AND push_bit 26 1 \<noteq> 0 \<longleftrightarrow> bit ?sets 26" by (rule bit_iff_and_push_bit_not_eq_0 [symmetric])
  with sets m16 [of 0] m16 [of 49] m32 [of 82] m32 [of 60] m32 [of 100] buffer_model [OF b len]
  show ?thesis unfolding ws_def [symmetric] t_def [symmetric]
    by (simp add: new_drive_def Let_def ATA_IDENT_DEVICETYPE_def ATA_IDENT_CAPABILITIES_def ATA_IDENT_COMMANDSETS_def ATA_IDENT_MAX_LBA_def ATA_IDENT_MAX_LBA_EXT_def)
qed

subsection \<open>The data of a sector\<close>

text \<open>
  C38. The data of a sector: reading a sector into a page stores the 256 words from the data port in order, low byte first, at the physical addresses the page is mapped to and nowhere else,
  and writing a sector from there sends the same 256 words to the data port.
\<close>

theorem pio_sector_roundtrip:
  assumes "pio_sector hw False bus a s = Some s'" "a mod PAGE_SIZE + IDE_SECTOR_SIZE \<le> PAGE_SIZE" "a < two32"
  shows "\<exists>p. translate a (t_heap (pc_sys s)) = Some p
    \<and> (\<forall>k < 512. phys (t_heap (pc_sys s')) (p + k) = word_bytes (fst (insw hw bus 256 (pc_hw s))) ! k)
    \<and> (\<forall>x. x < p \<or> p + 512 \<le> x \<longrightarrow> phys (t_heap (pc_sys s')) x = phys (t_heap (pc_sys s)) x)
    \<and> pio_sector hw True bus a s' = Some (on_hw (outsw hw bus (fst (insw hw bus 256 (pc_hw s)))) s')"
proof -
  define ws where "ws = fst (insw hw bus 256 (pc_hw s))"
  define h where "h = t_heap (pc_sys s)"
  have len: "length (word_bytes ws) = 512" unfolding ws_def by (simp add: insw_length)
  from assms(1) obtain h' where st: "store_bytes a (word_bytes ws) h = Some h'" and h': "t_heap (pc_sys s') = h'"
    by (auto simp: pio_sector_def IDE_SECTOR_SIZE_def on_hw_ret_def ws_def h_def put_sys_def split_beta split: bind_splits)
  have "word_bytes ws \<noteq> []" using len by (cases ws) (simp_all del: word_bytes_length)
  with st obtain p where p: "translate a h = Some p" by (cases "word_bytes ws") (auto split: bind_splits)
  have fit: "a mod PAGE_SIZE + 512 \<le> PAGE_SIZE" "a + 512 \<le> two32"
  proof -
    show m: "a mod PAGE_SIZE + 512 \<le> PAGE_SIZE" using assms(2) by (simp add: IDE_SECTOR_SIZE_def)
    have "a div PAGE_SIZE < two32 div PAGE_SIZE" using assms(3) by (simp add: PAGE_SIZE_def two32_def)
    moreover have "a = PAGE_SIZE * (a div PAGE_SIZE) + a mod PAGE_SIZE" by simp
    ultimately show "a + 512 \<le> two32" using m unfolding PAGE_SIZE_def two32_def by linarith
  qed
  have s': "h' = h\<lparr>phys := (\<lambda>x. if p \<le> x \<and> x < p + 512 then word_bytes ws ! (x - p) else phys h x)\<rparr>"
    using store_bytes_page [of "word_bytes ws" a h p] p fit st len by simp
  have "load_bytes a 512 h' = Some (map (\<lambda>k. phys h' (p + k)) [0..<512])"
    using p fit by (intro load_bytes_page) (simp_all add: s')
  moreover have "map (\<lambda>k. phys h' (p + k)) [0..<512] = word_bytes ws"
    using len by (intro nth_equalityI) (simp_all add: s' del: word_bytes_length)
  ultimately have "load_bytes a 512 h' = Some (word_bytes ws)" by simp
  then have "pio_sector hw True bus a s' = Some (on_hw (outsw hw bus ws) s')" by (simp add: pio_sector_def IDE_SECTOR_SIZE_def h')
  with p show ?thesis unfolding ws_def [symmetric] h_def [symmetric] h' by (intro exI [of _ p]) (simp add: s')
qed

definition demo_ide :: "taskfile ide" where
  "demo_ide = \<lparr>pc_time = (pc_time demo_pci)\<lparr>tm_sys := device_state demo_marked Map.empty Map.empty empty_devices\<rparr>, pc_hw = demo_tf, pc_buses = Map.empty, pc_devs = Map.empty,
     pc_bus0 = 0x2000, pc_host = 0x1000, pc_drivers_list = NULL, pc_drivers = [], pc_drvs = Map.empty, pc_lock = False,
     ide_chans = [0x5000 \<mapsto> demo_chan], ide_devs = [0x6000 \<mapsto> demo_drive], ide_wq = NULL\<rparr>"

theorem pio_sector_roundtrip_witness:
  "\<exists>s'. pio_sector demo_ata False 0x1F0 0xF0000200 demo_ide = Some s' \<and> phys (t_heap (pc_sys s')) 0x2200 = 0x34 \<and> phys (t_heap (pc_sys s')) 0x2201 = 0x12"
proof -
  have h: "t_heap (pc_sys demo_ide) = demo_marked" by (simp add: demo_ide_def device_state_def)
  have r: "translate 0xF0000200 demo_marked = Some 0x2200"
    by (simp add: demo_marked_def demo_heap_def zero_dir_def translate_def lookup_page_def read_page_def PAGE_SIZE_def)
  let ?ws = "fst (insw demo_ata 0x1F0 256 (pc_hw demo_ide))"
  have "store_bytes 0xF0000200 (word_bytes ?ws) demo_marked \<noteq> None"
    using store_bytes_page [of "word_bytes ?ws" "0xF0000200" demo_marked "0x2200"] r by (simp add: insw_length PAGE_SIZE_def two32_def)
  then obtain s' where s': "pio_sector demo_ata False 0x1F0 0xF0000200 demo_ide = Some s'"
    by (auto simp: pio_sector_def IDE_SECTOR_SIZE_def on_hw_ret_def split_beta put_sys_def h)
  have "hw_in16 demo_ata p t = (0x1234, t)" for p t by (simp add: demo_ata_def)
  then have "?ws ! 0 = 0x1234" by (simp add: numeral_eq_Suc split_beta)
  with word_bytes_nth [of 0 ?ws] have "word_bytes ?ws ! 0 = 0x34" "word_bytes ?ws ! 1 = 0x12" by (simp_all add: insw_length)
  with pio_sector_roundtrip [OF s'] r s' show ?thesis by (auto simp: h PAGE_SIZE_def IDE_SECTOR_SIZE_def two32_def dest: spec [of _ 0] spec [of _ 1])
qed

end
