(* ===== verification/Elf.thy ===== *)
theory Elf
  imports Vfs Memory
begin

section \<open>Loading of programs (kernel/elf.c)\<close>

text \<open>
  \<^verbatim>\<open>execve\<close>: the image of a program replaces the memory of the calling process, the arguments are copied into its memory, and it goes on in user mode. Headers are read into memory of the kernel heap (\<open>kbytes\<close>);
  the image and the arguments are written through the page tables (Memory). The arguments in the kernel are strings on the heap (\<open>strs\<close>). A call either returns or ends with the registers the process starts with
  in user mode.
\<close>

unbundle bit_operations_syntax

subsection \<open>Data\<close>

record Elf32_Ehdr =
  e_ident :: bytes
  e_type :: nat
  e_machine :: nat
  e_version :: nat
  e_entry :: nat
  e_phoff :: nat
  e_shoff :: nat
  e_flags :: nat
  e_ehsize :: nat
  e_phentsize :: nat
  e_phnum :: nat
  e_shentsize :: nat
  e_shnum :: nat
  e_shstrndx :: nat

record Elf32_Phdr =
  p_type :: nat
  p_offset :: nat
  p_vaddr :: nat
  p_paddr :: nat
  p_filesz :: nat
  p_memsz :: nat
  p_flags :: "32 word"
  p_align :: nat

definition ELFMAG0 :: "8 word" where "ELFMAG0 = 0x7F"
definition ELFMAG1 :: "8 word" where "ELFMAG1 = 0x45"
definition ELFMAG2 :: "8 word" where "ELFMAG2 = 0x4C"
definition ELFMAG3 :: "8 word" where "ELFMAG3 = 0x46"
definition EI_CLASS :: nat where "EI_CLASS = 4"
definition EI_DATA :: nat where "EI_DATA = 5"
definition ELFCLASS32 :: "8 word" where "ELFCLASS32 = 1"
definition ELFDATA2LSB :: "8 word" where "ELFDATA2LSB = 1"
definition ET_EXEC :: nat where "ET_EXEC = 2"
definition EM_386 :: nat where "EM_386 = 3"
definition EV_CURRENT :: nat where "EV_CURRENT = 1"
definition PT_LOAD :: nat where "PT_LOAD = 1"
definition PF_W :: "32 word" where "PF_W = 2"
definition VFS_SETUID :: "32 word" where "VFS_SETUID = 0x800"
definition VFS_SETGID :: "32 word" where "VFS_SETGID = 0x400"
definition ENOEXEC :: int where "ENOEXEC = 8"
definition sizeof_Elf32_Ehdr :: nat where "sizeof_Elf32_Ehdr = 52"
definition sizeof_Elf32_Phdr :: nat where "sizeof_Elf32_Phdr = 32"

record user_regs =
  ur_eip :: nat
  ur_cs :: nat
  ur_esp :: nat
  ur_ss :: nat

datatype exec_result = Returns int | User_mode user_regs

subsection \<open>Headers\<close>

definition ehdr_of :: "(nat \<Rightarrow> 8 word) \<Rightarrow> Elf32_Ehdr" where
  "ehdr_of m = \<lparr>e_ident = map m [0..<16], e_type = le16 m 16, e_machine = le16 m 18, e_version = le32 m 20, e_entry = le32 m 24, e_phoff = le32 m 28,
     e_shoff = le32 m 32, e_flags = le32 m 36, e_ehsize = le16 m 40, e_phentsize = le16 m 42, e_phnum = le16 m 44, e_shentsize = le16 m 46, e_shnum = le16 m 48,
     e_shstrndx = le16 m 50\<rparr>"

definition phdr_of :: "(nat \<Rightarrow> 8 word) \<Rightarrow> Elf32_Phdr" where
  "phdr_of m = \<lparr>p_type = le32 m 0, p_offset = le32 m 4, p_vaddr = le32 m 8, p_paddr = le32 m 12, p_filesz = le32 m 16, p_memsz = le32 m 20,
     p_flags = of_nat (le32 m 24), p_align = le32 m 28\<rparr>"

definition header_ok :: "Elf32_Ehdr \<Rightarrow> bool" where
  "header_ok h \<longleftrightarrow> \<not> (e_ident h ! 0 \<noteq> ELFMAG0 \<or> e_ident h ! 1 \<noteq> ELFMAG1 \<or> e_ident h ! 2 \<noteq> ELFMAG2 \<or> e_ident h ! 3 \<noteq> ELFMAG3
     \<or> e_ident h ! EI_CLASS \<noteq> ELFCLASS32 \<or> e_ident h ! EI_DATA \<noteq> ELFDATA2LSB \<or> e_type h \<noteq> ET_EXEC \<or> e_machine h \<noteq> EM_386 \<or> e_version h \<noteq> EV_CURRENT)"

text \<open>\<^verbatim>\<open>read_vfs\<close> into memory of the heap; what is not read stays as it was.\<close>

definition read_kernel :: "'x kst file_ops \<Rightarrow> addr \<Rightarrow> addr \<Rightarrow> nat \<Rightarrow> nat \<Rightarrow> 'x kst \<Rightarrow> 'x kst option" where
  "read_kernel ops node p n off s = do {
     ((_, bs), s) \<leftarrow> read_vfs ops node n (int off) s;
     let m = kbytes (t_heap s);
     Some (s\<lparr>t_heap := (t_heap s)\<lparr>kbytes := (\<lambda>x. if p \<le> x \<and> x < p + length bs then bs ! (x - p) else m x)\<rparr>\<rparr>)
   }"

definition read_user :: "'x kst file_ops \<Rightarrow> addr \<Rightarrow> nat \<Rightarrow> nat \<Rightarrow> nat \<Rightarrow> 'x kst \<Rightarrow> 'x kst option" where
  "read_user ops node a n off s = do {
     ((_, bs), s) \<leftarrow> read_vfs ops node n (int off) s;
     h \<leftarrow> store_bytes a bs (t_heap s);
     Some (s\<lparr>t_heap := h\<rparr>)
   }"

subsection \<open>Memory of the process\<close>

partial_function (option) free_image :: "nat \<Rightarrow> nat \<Rightarrow> 'x kst \<Rightarrow> 'x kst option" where
  "free_image i e s =
    (if i < e then do {
       (pp, h) \<leftarrow> get_page kmemalign i False (current_dir (t_heap s)) (t_heap s);
       h \<leftarrow> free_frame pp h;
       free_image (add32 i PAGE_SIZE) e (s\<lparr>t_heap := h\<rparr>)
     } else Some s)"

definition user_page :: "nat \<Rightarrow> bool \<Rightarrow> 'x kst \<Rightarrow> 'x kst option" where
  "user_page a rw s = do {
     (pp, h) \<leftarrow> get_page kmemalign a True (current_dir (t_heap s)) (t_heap s);
     pp \<leftarrow> pp;
     h \<leftarrow> alloc_frame pp False rw h;
     Some (s\<lparr>t_heap := h\<rparr>)
   }"

text \<open>The loop over the pages of a segment starts at its first byte, not at the start of a page, so that it can miss the last page.\<close>

partial_function (option) segment_pages :: "nat \<Rightarrow> nat \<Rightarrow> bool \<Rightarrow> 'x kst \<Rightarrow> 'x kst option" where
  "segment_pages j e rw s =
    (if j < e then do { s \<leftarrow> user_page j rw s; segment_pages (add32 j PAGE_SIZE) e rw s } else Some s)"

text \<open>The first page of the image and the end of its last page so far.\<close>

definition widen :: "Elf32_Phdr \<Rightarrow> nat \<times> nat \<Rightarrow> nat \<times> nat" where
  "widen ph se = (case se of (st, en) \<Rightarrow>
     (if p_vaddr ph < st then p_vaddr ph - p_vaddr ph mod PAGE_SIZE else st,
      let e = add32 (p_vaddr ph) (p_memsz ph)
      in if e > en then if e mod PAGE_SIZE \<noteq> 0 then add32 (e - e mod PAGE_SIZE) PAGE_SIZE else e else en))"

fun load_segments :: "'x kst file_ops \<Rightarrow> addr \<Rightarrow> Elf32_Phdr list \<Rightarrow> nat \<times> nat \<Rightarrow> 'x kst \<Rightarrow> ((nat \<times> nat) \<times> 'x kst) option" where
  "load_segments ops node [] se s = Some (se, s)"
| "load_segments ops node (ph # phs) se s =
    (if p_type ph \<noteq> PT_LOAD then load_segments ops node phs se s
     else do {
       s \<leftarrow> segment_pages (p_vaddr ph) (add32 (p_vaddr ph) (p_memsz ph)) (p_flags ph AND PF_W \<noteq> 0) s;
       s \<leftarrow> read_user ops node (p_vaddr ph) (p_filesz ph) (p_offset ph) s;
       load_segments ops node phs (widen ph se) s
     })"

subsection \<open>Arguments\<close>

definition store_word :: "nat \<Rightarrow> nat \<Rightarrow> 'x kst \<Rightarrow> 'x kst option" where
  "store_word a v s = do {
     h \<leftarrow> store_bytes a [of_nat v, of_nat (v div 2 ^ 8), of_nat (v div 2 ^ 16), of_nat (v div 2 ^ 24)] (t_heap s);
     Some (s\<lparr>t_heap := h\<rparr>)
   }"

definition store_string :: "nat \<Rightarrow> bytes \<Rightarrow> 'x kst \<Rightarrow> 'x kst option" where
  "store_string a str s = do { h \<leftarrow> store_bytes a (str @ [0]) (t_heap s); Some (s\<lparr>t_heap := h\<rparr>) }"

text \<open>The loop that copies \<^verbatim>\<open>argv\<close> to \<open>heap\<close>, from entry \<open>i\<close> of the array at \<open>arr\<close> on: where the strings end.\<close>

fun copy_args :: "nat \<Rightarrow> nat \<Rightarrow> addr list \<Rightarrow> nat \<Rightarrow> 'x kst \<Rightarrow> (nat \<times> 'x kst) option" where
  "copy_args arr i [] heap s = do {
     s \<leftarrow> store_word (add32 arr (4 * i)) 0 s;
     Some (add32 heap 1, s)
   }"
| "copy_args arr i (p # ps) heap s = do {
     str \<leftarrow> strs s p;
     s \<leftarrow> store_word (add32 arr (4 * i)) heap s;
     s \<leftarrow> store_string heap str s;
     s \<leftarrow> kfr p s;
     copy_args arr (i + 1) ps (add32 heap (length str + 1)) s
   }"

text \<open>
  The loop for \<^verbatim>\<open>envp\<close> adds \<^verbatim>\<open>strlen(argv[i])\<close>, where the array \<^verbatim>\<open>argv\<close> has been released: for an environment that is not empty there is no result.
\<close>

fun copy_env :: "nat \<Rightarrow> addr list \<Rightarrow> nat \<Rightarrow> 'x kst \<Rightarrow> (nat \<times> 'x kst) option" where
  "copy_env arr [] heap s = do {
     s \<leftarrow> store_word arr 0 s;
     Some (add32 heap 1, s)
   }"
| "copy_env arr (p # ps) heap s = None"

text \<open>The two arrays begin at \<open>heap\<close> and behind the first array; the strings begin where the second array does.\<close>

definition copy_strings :: "addr \<Rightarrow> addr list \<Rightarrow> addr \<Rightarrow> addr list \<Rightarrow> nat \<Rightarrow> 'x kst \<Rightarrow> ((nat \<times> nat \<times> nat) \<times> 'x kst) option" where
  "copy_strings argv args envp envs heap s = do {
     let argv' = heap;
     let heap = add32 heap (4 * (length args + 1));
     let envp' = heap;
     (heap, s) \<leftarrow> copy_args argv' 0 args heap s;
     s \<leftarrow> kfr argv s;
     (heap, s) \<leftarrow> copy_env envp' envs heap s;
     s \<leftarrow> kfr envp s;
     Some ((argv', envp', heap), s)
   }"

subsection \<open>User mode\<close>

text \<open>
  \<^verbatim>\<open>switch_user_mode\<close> (task.c): the arguments of the program are pushed on its stack, below a word that is left as it is. What \<^verbatim>\<open>iret\<close> takes from the stack again is not kept.
\<close>

definition switch_user_mode :: "nat \<Rightarrow> nat \<Rightarrow> nat \<Rightarrow> nat \<Rightarrow> nat \<Rightarrow> 'x kst \<Rightarrow> (user_regs \<times> 'x kst) option" where
  "switch_user_mode entry argc argv envp stack s = do {
     c \<leftarrow> tasks s (current_task s);
     let s = set_kernel_stack (t_esp c) s;
     let stack = sub32 stack 4;
     s \<leftarrow> store_word (sub32 stack 4) envp s;
     s \<leftarrow> store_word (sub32 stack 8) argv s;
     s \<leftarrow> store_word (sub32 stack 12) argc s;
     Some (\<lparr>ur_eip = entry, ur_cs = 0x1B, ur_esp = sub32 stack 12, ur_ss = 0x23\<rparr>, s\<lparr>iflag := True\<rparr>)
   }"

subsection \<open>execve\<close>

text \<open>The rights of a file with the set-user or set-group bit; the group goes to the wrong place.\<close>

definition set_ids :: "fs_node \<Rightarrow> 'x kst \<Rightarrow> 'x kst option" where
  "set_ids nd s = do {
     s \<leftarrow> (if nd_mode nd AND VFS_SETUID \<noteq> 0 then upd_task (current_task s) (\<lambda>k. k\<lparr>t_euid := nd_uid nd\<rparr>) s else Some s);
     if nd_mode nd AND VFS_SETGID \<noteq> 0 then upd_task (current_task s) (\<lambda>k. k\<lparr>t_euid := nd_gid nd\<rparr>) s else Some s
   }"

text \<open>From the test of the program headers on, with both headers in memory.\<close>

definition exec_image :: "'x kst file_ops \<Rightarrow> addr \<Rightarrow> addr \<Rightarrow> addr \<Rightarrow> addr \<Rightarrow> addr list \<Rightarrow> addr \<Rightarrow> addr list \<Rightarrow> 'x kst \<Rightarrow> (exec_result \<times> 'x kst) option" where
  "exec_image ops node header phdrs argv args envp envs s = do {
     let eh = ehdr_of (\<lambda>i. kbytes (t_heap s) (header + i));
     let phs = map (\<lambda>k. phdr_of (\<lambda>i. kbytes (t_heap s) (phdrs + sizeof_Elf32_Phdr * k + i))) [0..<e_phnum eh];
     c \<leftarrow> tasks s (current_task s);
     s \<leftarrow> free_image (t_start c) (t_brk_actual c) s;
     ((st, en), s) \<leftarrow> load_segments ops node phs (0xFFFFFFFF, 0) s;
     (_, s) \<leftarrow> close_vfs ops node s;
     s \<leftarrow> kfr header s;
     s \<leftarrow> kfr phdrs s;
     s \<leftarrow> upd_task (current_task s) (\<lambda>k. k\<lparr>t_start := st\<rparr>) s;
     s \<leftarrow> user_page en True s;
     ((argv', envp', heap), s) \<leftarrow> copy_strings argv args envp envs en s;
     s \<leftarrow> upd_task (current_task s) (\<lambda>k. k\<lparr>t_brk := heap, t_brk_actual := add32 en PAGE_SIZE\<rparr>) s;
     (u, s) \<leftarrow> switch_user_mode (e_entry eh) (length args) argv' envp' USER_STACK_TOP s;
     Some (User_mode u, s)
   }"

text \<open>\<^verbatim>\<open>int_exec\<close> with the file open.\<close>

definition exec_file :: "'x kst file_ops \<Rightarrow> addr \<Rightarrow> addr \<Rightarrow> addr list \<Rightarrow> addr \<Rightarrow> addr list \<Rightarrow> 'x kst \<Rightarrow> (exec_result \<times> 'x kst) option" where
  "exec_file ops node argv args envp envs s = do {
     nd \<leftarrow> get_fsn node s;
     s \<leftarrow> set_ids nd s;
     (header, s) \<leftarrow> kma sizeof_Elf32_Ehdr s;
     if header = NULL then do { s \<leftarrow> free_fsn node s; Some (Returns (- ENOMEM), s) }
     else do {
       s \<leftarrow> read_kernel ops node header sizeof_Elf32_Ehdr 0 s;
       let eh = ehdr_of (\<lambda>i. kbytes (t_heap s) (header + i));
       if \<not> header_ok eh then do {
         (_, s) \<leftarrow> close_vfs ops node s;
         s \<leftarrow> kfr header s;
         Some (Returns (- ENOEXEC), s)
       } else do {
         (phdrs, s) \<leftarrow> kma (e_phnum eh * e_phentsize eh) s;
         if phdrs = NULL then do { s \<leftarrow> kfr header s; s \<leftarrow> free_fsn node s; Some (Returns (- ENOMEM), s) }
         else do {
           s \<leftarrow> read_kernel ops node phdrs (e_phnum eh * e_phentsize eh) (e_phoff eh) s;
           exec_image ops node header phdrs argv args envp envs s
         }
       }
     }
   }"

definition int_exec :: "'x kst file_ops \<Rightarrow> bytes \<Rightarrow> addr \<Rightarrow> addr list \<Rightarrow> addr \<Rightarrow> addr list \<Rightarrow> 'x kst \<Rightarrow> (exec_result \<times> 'x kst) option" where
  "int_exec ops filename argv args envp envs s = do {
     ((node, ret), s) \<leftarrow> kopen ops filename O_RDONLY s;
     if node = NULL then do { ret \<leftarrow> ret; Some (Returns ret, s) }
     else exec_file ops node argv args envp envs s
   }"

fun copy_in :: "bytes list \<Rightarrow> 'x kst \<Rightarrow> (addr list \<times> 'x kst) option" where
  "copy_in [] s = Some ([], s)"
| "copy_in (str # ss) s = do {
     (p, s) \<leftarrow> kma (length str + 1) s;
     ASSERT (p \<noteq> NULL);
     (ps, s) \<leftarrow> copy_in ss (s\<lparr>strs := (strs s)(p \<mapsto> str)\<rparr>);
     Some (p # ps, s)
   }"

definition execve :: "'x kst file_ops \<Rightarrow> bytes option \<Rightarrow> bytes list option \<Rightarrow> bytes list option \<Rightarrow> 'x kst \<Rightarrow> (exec_result \<times> 'x kst) option" where
  "execve ops filename argv envp s =
    (case (filename, argv, envp) of
       (Some filename, Some argv, Some envp) \<Rightarrow> do {
         (av, s) \<leftarrow> kma (4 * (length argv + 1)) s;
         (ev, s) \<leftarrow> kma (4 * (length envp + 1)) s;
         (args, s) \<leftarrow> copy_in argv s;
         (envs, s) \<leftarrow> copy_in envp s;
         ASSERT (av \<noteq> NULL \<and> ev \<noteq> NULL);
         int_exec ops filename av args ev envs s
       }
     | _ \<Rightarrow> Some (Returns (- EFAULT), s))"

end
