(* ===== verification/Elf_Spec.thy ===== *)
theory Elf_Spec
  imports Elf Vfs_Spec
begin

section \<open>Properties of the loader of programs\<close>

text \<open>
  What is left of a failed \<^verbatim>\<open>execve\<close>, and the bounds of the image of a program that is loaded.
\<close>

subsection \<open>Reading of the header\<close>

lemma ehdr_of_cong: "(\<And>k. k < sizeof_Elf32_Ehdr \<Longrightarrow> m k = m' k) \<Longrightarrow> ehdr_of m = ehdr_of m'"
  unfolding ehdr_of_def sizeof_Elf32_Ehdr_def
  by (simp cong: le16_cong le32_cong)

text \<open>A file whose content is \<open>bs\<close>: its driver returns the bytes that are there and leaves the state of the kernel as it is.\<close>

definition file_contents :: "'x kst file_ops \<Rightarrow> addr \<Rightarrow> fs_node \<Rightarrow> bytes \<Rightarrow> bool" where
  "file_contents ops node nd bs \<longleftrightarrow> (\<exists>f. op_read ops (nd_ops nd) = Some f
     \<and> (\<forall>n off s. f node n (int off) s = Some ((int (length (take n (drop off bs))), take n (drop off bs)), s)))"

lemma read_kernel_file:
  assumes "file_contents ops node nd bs" "node \<noteq> NULL" "get_fsn node s = Some nd" "nd_mode nd AND VFS_DIR = 0" "off + n \<le> length bs"
  shows "\<exists>m. read_kernel ops node p n off s = Some (s\<lparr>t_heap := (t_heap s)\<lparr>kbytes := m\<rparr>\<rparr>) \<and> (\<forall>k<n. m (p + k) = bs ! (off + k))"
proof -
  from assms(1) obtain f where "op_read ops (nd_ops nd) = Some f" "f node n (int off) s = Some ((int (length (take n (drop off bs))), take n (drop off bs)), s)"
    by (auto simp: file_contents_def)
  with assms(2-5) show ?thesis
    by (intro exI [of _ "\<lambda>x. if p \<le> x \<and> x < p + n then take n (drop off bs) ! (x - p) else kbytes (t_heap s) x"]) (simp add: read_kernel_def read_vfs_def)
qed

subsection \<open>A file that is no program\<close>

definition exec_euid :: "fs_node \<Rightarrow> nat \<Rightarrow> nat" where
  "exec_euid nd old = (if nd_mode nd AND VFS_SETGID \<noteq> 0 then nd_gid nd else if nd_mode nd AND VFS_SETUID \<noteq> 0 then nd_uid nd else old)"

lemma set_ids_run:
  assumes "tasks s (current_task s) = Some c"
  shows "set_ids nd s = Some (s\<lparr>tasks := (tasks s)(current_task s \<mapsto> c\<lparr>t_euid := exec_euid nd (t_euid c)\<rparr>)\<rparr>)"
proof -
  have "(tasks s)(current_task s \<mapsto> c) = tasks s" using assms by (metis fun_upd_triv)
  then show ?thesis using assms by (auto simp: set_ids_def upd_task_def exec_euid_def)
qed

lemma close_vfs_shared:
  assumes "get_fsn node s = Some nd" "node \<noteq> NULL" "nd_refcount nd > 1" "\<not> refcount_lock (t_vfs s)"
  shows "close_vfs ops node s = Some (0, put_fsn node (nd\<lparr>nd_refcount := nd_refcount nd - 1\<rparr>) s)"
proof -
  have "v\<lparr>refcount_lock := True, fs_nodes := f, refcount_lock := False\<rparr> = v\<lparr>fs_nodes := f\<rparr>" if "\<not> refcount_lock v" for v :: "'a vfs" and f
    using that by (cases v) simp
  with assms show ?thesis by (simp add: close_vfs_def lock_refcount_def unlock_refcount_def upd_vfs_def put_fsn_def)
qed


definition demo_exec :: "unit kst" where
  "demo_exec = demo_kst\<lparr>t_vfs := demo_vfs\<lparr>fs_nodes := [100 \<mapsto> \<lparr>nd_inode = 1, nd_uid = 0, nd_gid = 0, nd_mode = VFS_FILE OR VFS_SETUID, nd_flags = 0, nd_len = 100, nd_dev = 0,
       nd_atime = 0, nd_mtime = 0, nd_ctime = 0, nd_ops = 0, nd_fs_sb = 200, nd_private = NULL, nd_refcount = 2, nd_nlink = 1\<rparr>]\<rparr>,
     current_task := 700, tasks := [700 \<mapsto> (demo_task 5)\<lparr>t_euid := 1000\<rparr>]\<rparr>"

definition bytes_ops :: "bytes \<Rightarrow> 's file_ops" where
  "bytes_ops bs = null_ops\<lparr>op_read := (\<lambda>_. Some (\<lambda>_ n off s. let r = take n (drop (nat off) bs) in Some ((int (length r), r), s)))\<rparr>"

lemma bytes_ops_contents: "file_contents (bytes_ops bs) node nd bs"
  by (simp add: file_contents_def bytes_ops_def Let_def)


subsection \<open>The image of a segment\<close>

lemma user_page_new:
  assumes "frames_ok (t_heap s)" "free_frames (t_heap s) \<noteq> {}" "lookup_page a (current_dir (t_heap s)) (t_heap s) = Some (Some (t, i))"
    and "page_tables (t_heap s) t = Some pt" "pg_frame (pt i) = 0"
  shows "user_page a rw s = Some (s\<lparr>t_heap := frame_given (first_frame (t_heap s)) t i
      ((pt i)\<lparr>pg_present := True, pg_rw := rw, pg_user := True, pg_global := False, pg_frame := first_frame (t_heap s)\<rparr>) pt (t_heap s)\<rparr>)"
  using alloc_frame_new [OF assms(1,4,5,2)] assms(3) by (simp add: user_page_def get_page_def)

lemma translate_given:
  assumes "lookup_page a (current_dir h) h = Some (Some (t, i))" "pg_present pg"
  shows "translate a (frame_given k t i pg pt h) = Some (pg_frame pg * PAGE_SIZE + a mod PAGE_SIZE)"
  using assms by (simp add: translate_def frame_given_def lookup_page_def read_page_def)

text \<open>The bounds that a segment within one page gives the image.\<close>

lemma widen_page:
  assumes "p_vaddr ph < KERNEL_BASE" "p_vaddr ph mod PAGE_SIZE + p_memsz ph \<le> PAGE_SIZE" "0 < p_memsz ph"
  shows "widen ph (0xFFFFFFFF, 0) = (p_vaddr ph div PAGE_SIZE * PAGE_SIZE, p_vaddr ph div PAGE_SIZE * PAGE_SIZE + PAGE_SIZE)"
proof -
  define q r where "q = p_vaddr ph div PAGE_SIZE" and "r = p_vaddr ph mod PAGE_SIZE"
  have v: "p_vaddr ph = q * PAGE_SIZE + r" "r < PAGE_SIZE" "q * PAGE_SIZE + r < KERNEL_BASE" using assms(1) by (simp_all add: q_def r_def PAGE_SIZE_def)
  have m: "r + p_memsz ph \<le> PAGE_SIZE" using assms(2) by (simp add: r_def)
  have e: "add32 (p_vaddr ph) (p_memsz ph) = q * PAGE_SIZE + (r + p_memsz ph)" using v m by (simp add: add32_def KERNEL_BASE_def PAGE_SIZE_def two32_def)
  have up: "add32 (q * PAGE_SIZE) PAGE_SIZE = q * PAGE_SIZE + PAGE_SIZE" using v by (simp add: add32_def KERNEL_BASE_def PAGE_SIZE_def two32_def)
  have lo: "p_vaddr ph - p_vaddr ph mod PAGE_SIZE = q * PAGE_SIZE" by (simp add: q_def minus_mod_eq_div_mult)
  have "p_vaddr ph < 0xFFFFFFFF" using assms(1) by (simp add: KERNEL_BASE_def)
  then show ?thesis
  proof (cases "r + p_memsz ph = PAGE_SIZE")
    case True
    then show ?thesis using \<open>p_vaddr ph < 0xFFFFFFFF\<close> lo e by (simp add: widen_def Let_def PAGE_SIZE_def flip: q_def)
  next
    case False
    then have "(q * PAGE_SIZE + (r + p_memsz ph)) mod PAGE_SIZE = r + p_memsz ph" using m by simp
    then show ?thesis using \<open>p_vaddr ph < 0xFFFFFFFF\<close> lo e up assms(3) by (simp add: widen_def flip: q_def)
  qed
qed

text \<open>
  C19. The image of a segment that lies in one page without a frame: with a frame free, \<^verbatim>\<open>int_exec\<close> maps the page to the first free frame and reads the segment into it, so that a program finds the bytes of the file at the
  address of the segment. The rest of the segment, up to its size in memory, is not cleared: it holds what was in the frame before. The bounds of the image are the bounds of the page, and no other memory is written.
\<close>

theorem segment_loaded:
  assumes "frames_ok (t_heap s)" "free_frames (t_heap s) \<noteq> {}" "lookup_page (p_vaddr ph) (current_dir (t_heap s)) (t_heap s) = Some (Some (t, i))"
    and "page_tables (t_heap s) t = Some pt" "pg_frame (pt i) = 0"
    and "file_contents ops node nd bs" "node \<noteq> NULL" "get_fsn node s = Some nd" "nd_mode nd AND VFS_DIR = 0"
    and "p_type ph = PT_LOAD" "p_vaddr ph < KERNEL_BASE" "p_vaddr ph mod PAGE_SIZE + p_memsz ph \<le> PAGE_SIZE" "p_filesz ph \<le> p_memsz ph" "0 < p_memsz ph" "p_offset ph + p_filesz ph \<le> length bs"
  shows "\<exists>s'. load_segments ops node [ph] (0xFFFFFFFF, 0) s = Some ((p_vaddr ph div PAGE_SIZE * PAGE_SIZE, p_vaddr ph div PAGE_SIZE * PAGE_SIZE + PAGE_SIZE), s')
    \<and> load_bytes (p_vaddr ph) (p_memsz ph) (t_heap s') = Some (take (p_filesz ph) (drop (p_offset ph) bs)
         @ map (\<lambda>j. phys (t_heap s) (first_frame (t_heap s) * PAGE_SIZE + p_vaddr ph mod PAGE_SIZE + j)) [p_filesz ph..<p_memsz ph])
    \<and> (\<forall>x. x div PAGE_SIZE \<noteq> first_frame (t_heap s) \<longrightarrow> phys (t_heap s') x = phys (t_heap s) x)"
proof -
  define v where "v = p_vaddr ph"
  define h where "h = t_heap s"
  define k where "k = first_frame h"
  define p where "p = k * PAGE_SIZE + v mod PAGE_SIZE"
  define dat where "dat = take (p_filesz ph) (drop (p_offset ph) bs)"
  define rw where "rw = (p_flags ph AND PF_W \<noteq> 0)"
  define g where "g = frame_given k t i ((pt i)\<lparr>pg_present := True, pg_rw := rw, pg_user := True, pg_global := False, pg_frame := k\<rparr>) pt h"
  define h' where "h' = g\<lparr>phys := (\<lambda>x. if p \<le> x \<and> x < p + length dat then dat ! (x - p) else phys h x)\<rparr>"
  have len: "length dat = p_filesz ph" using assms(15) by (simp add: dat_def)
  have v: "v + PAGE_SIZE < two32" "v + p_memsz ph < two32" "v mod PAGE_SIZE + p_memsz ph \<le> PAGE_SIZE"
    using assms(11,12) by (simp_all add: v_def KERNEL_BASE_def PAGE_SIZE_def two32_def)
  have pages: "segment_pages v (add32 v (p_memsz ph)) rw s = Some (s\<lparr>t_heap := g\<rparr>)"
  proof -
    have "segment_pages (add32 v PAGE_SIZE) (add32 v (p_memsz ph)) rw s = Some s" for s :: "'a kst"
      using v by (subst segment_pages.simps) (simp add: add32_def)
    moreover have "user_page v rw s = Some (s\<lparr>t_heap := g\<rparr>)"
      unfolding g_def k_def h_def using assms(1-5) unfolding v_def [symmetric] by (rule user_page_new)
    moreover have "v < add32 v (p_memsz ph)" using v assms(14) by (simp add: add32_def)
    ultimately show ?thesis by (subst segment_pages.simps) simp
  qed
  have gh: "phys g = phys h" by (simp add: g_def)
  have tr: "translate v g = Some p" using assms(3) by (simp add: g_def p_def v_def h_def translate_given)
  have st: "store_bytes v dat g = Some h'"
    using store_bytes_page [of dat v g p] tr v assms(13) len unfolding h'_def gh [symmetric] by simp
  have rd: "read_user ops node v (p_filesz ph) (p_offset ph) (s\<lparr>t_heap := g\<rparr>) = Some (s\<lparr>t_heap := h'\<rparr>)"
  proof -
    from assms(6) obtain f where "op_read ops (nd_ops nd) = Some f"
      "\<And>s. f node (p_filesz ph) (int (p_offset ph)) s = Some ((int (length dat), dat), s)" by (auto simp: file_contents_def dat_def)
    with assms(7-9) st show ?thesis by (simp add: read_user_def read_vfs_def get_fsn_def)
  qed
  have bounds: "widen ph (0xFFFFFFFF, 0) = (v div PAGE_SIZE * PAGE_SIZE, v div PAGE_SIZE * PAGE_SIZE + PAGE_SIZE)"
    unfolding v_def using assms(11,12,14) by (rule widen_page)
  have "load_bytes v (p_memsz ph) h' = Some (map (\<lambda>j. phys h' (p + j)) [0..<p_memsz ph])"
    using v tr by (intro load_bytes_page) (simp_all add: h'_def)
  moreover have "map (\<lambda>j. phys h' (p + j)) [0..<p_memsz ph] = dat @ map (\<lambda>j. phys h (p + j)) [p_filesz ph..<p_memsz ph]"
    using assms(13) by (intro nth_equalityI) (auto simp: h'_def nth_append len)
  moreover have "phys h' x = phys h x" if "x div PAGE_SIZE \<noteq> k" for x
  proof -
    have "x div PAGE_SIZE = k" if "p \<le> x" "x < p + length dat"
    proof (rule div_nat_eqI)
      show "PAGE_SIZE * k \<le> x" "x < PAGE_SIZE * Suc k" using that v(3) assms(13) unfolding p_def len by (simp_all add: mult.commute)
    qed
    with that show ?thesis by (auto simp: h'_def g_def)
  qed
  ultimately show ?thesis using assms(10) pages rd bounds
    by (intro exI [of _ "s\<lparr>t_heap := h'\<rparr>"]) (simp add: rw_def flip: v_def h_def k_def p_def dat_def)
qed

definition demo_segment :: Elf32_Phdr where
  "demo_segment = \<lparr>p_type = PT_LOAD, p_offset = 2, p_vaddr = 0x08048010, p_paddr = 0, p_filesz = 3, p_memsz = 5, p_flags = PF_W, p_align = 4096\<rparr>"

theorem segment_loaded_witness:
  "\<exists>s'. load_segments (bytes_ops [1, 2, 3, 4, 5, 6]) 100 [demo_segment] (0xFFFFFFFF, 0) demo_exec = Some ((0x08048000, 0x08049000), s')
    \<and> load_bytes 0x08048010 5 (t_heap s') = Some [3, 4, 5, 0, 0]"
proof -
  have h: "t_heap demo_exec = demo_six" by (simp add: demo_exec_def demo_kst_def)
  have "frames_ok demo_six" using demo_heap_free(1) by (simp add: frames_ok_def demo_six_def)
  moreover have "free_frames demo_six = free_frames demo_heap" by (simp add: free_frames_def frame_limit_def demo_six_def)
  then have "free_frames demo_six \<noteq> {}" by (simp add: demo_heap_free(2))
  moreover have "lookup_page (p_vaddr demo_segment) (current_dir demo_six) demo_six = Some (Some (8192, 72))" "page_tables demo_six 8192 = Some (\<lambda>_. zero_page)" "\<And>x. phys demo_six x = 0"
    by (simp_all add: demo_six_def demo_heap_def lookup_page_def zero_dir_def demo_segment_def PAGE_SIZE_def)
  moreover obtain nd where "get_fsn 100 demo_exec = Some nd" "nd_mode nd AND VFS_DIR = 0"
    by (simp add: demo_exec_def demo_kst_def demo_vfs_def get_fsn_def VFS_FILE_def VFS_SETUID_def VFS_DIR_def)
  moreover have "pg_frame zero_page = 0" by (simp add: zero_page_def)
  ultimately show ?thesis
    using segment_loaded [of demo_exec demo_segment 8192 72 "\<lambda>_. zero_page" "bytes_ops [1, 2, 3, 4, 5, 6]" 100 nd "[1, 2, 3, 4, 5, 6]", OF _ _ _ _ _ bytes_ops_contents, unfolded h]
    by (auto simp: demo_segment_def PAGE_SIZE_def KERNEL_BASE_def upt_conv_Cons)
qed

text \<open>
  C20. The address of a segment is not checked. A segment at an address of the kernel, in one page that is mapped, is read into the frame of that page: the program file overwrites the memory of the kernel.
\<close>

theorem segment_overwrites_kernel:
  assumes "translate (p_vaddr ph) (t_heap s) = Some p" "lookup_page (p_vaddr ph) (current_dir (t_heap s)) (t_heap s) = Some (Some (t, i))"
    and "page_tables (t_heap s) t = Some pt" "pg_frame (pt i) \<noteq> 0" "KERNEL_BASE \<le> p_vaddr ph" "p_vaddr ph + PAGE_SIZE < two32"
    and "file_contents ops node nd bs" "node \<noteq> NULL" "get_fsn node s = Some nd" "nd_mode nd AND VFS_DIR = 0"
    and "p_type ph = PT_LOAD" "p_vaddr ph mod PAGE_SIZE + p_memsz ph \<le> PAGE_SIZE" "p_filesz ph \<le> p_memsz ph" "0 < p_memsz ph" "p_offset ph + p_filesz ph \<le> length bs"
  shows "\<exists>s'. load_segments ops node [ph] se s = Some (widen ph se, s') \<and> (\<forall>j < p_filesz ph. phys (t_heap s') (p + j) = bs ! (p_offset ph + j))"
proof -
  define v where "v = p_vaddr ph"
  define dat where "dat = take (p_filesz ph) (drop (p_offset ph) bs)"
  define h' where "h' = (t_heap s)\<lparr>phys := (\<lambda>x. if p \<le> x \<and> x < p + length dat then dat ! (x - p) else phys (t_heap s) x)\<rparr>"
  have len: "length dat = p_filesz ph" using assms(15) by (simp add: dat_def)
  have v: "v + PAGE_SIZE < two32" "v + p_memsz ph < two32" "v mod PAGE_SIZE + p_memsz ph \<le> PAGE_SIZE"
    using assms(6,12) by (simp_all add: v_def)
  have pages: "segment_pages v (add32 v (p_memsz ph)) rw s = Some s" for rw
  proof -
    have "segment_pages (add32 v PAGE_SIZE) (add32 v (p_memsz ph)) rw s = Some s" using v by (subst segment_pages.simps) (simp add: add32_def)
    moreover have "user_page v rw s = Some s"
      using assms(2-4) by (simp add: v_def user_page_def get_page_def alloc_frame_def read_page_def)
    ultimately show ?thesis by (subst segment_pages.simps) simp
  qed
  have st: "store_bytes v dat (t_heap s) = Some h'"
    using store_bytes_page [of dat v "t_heap s" p] assms(1) v assms(13) len by (simp add: h'_def v_def)
  from assms(7) obtain f where "op_read ops (nd_ops nd) = Some f"
    "\<And>s. f node (p_filesz ph) (int (p_offset ph)) s = Some ((int (length dat), dat), s)" by (auto simp: file_contents_def dat_def)
  with assms(8-10) st have "read_user ops node v (p_filesz ph) (p_offset ph) s = Some (s\<lparr>t_heap := h'\<rparr>)" by (simp add: read_user_def read_vfs_def)
  moreover have "phys h' (p + j) = bs ! (p_offset ph + j)" if "j < p_filesz ph" for j using that len assms(15) by (simp add: h'_def dat_def)
  ultimately show ?thesis using assms(11) pages by (simp flip: v_def)
qed

theorem segment_overwrites_kernel_witness:
  "\<exists>s'. load_segments (bytes_ops [1, 2, 3, 4, 5, 6]) 100 [demo_segment\<lparr>p_vaddr := 0xC0100010\<rparr>] (0, 0) (demo_exec\<lparr>t_heap := demo_marked\<rparr>)
      = Some (widen (demo_segment\<lparr>p_vaddr := 0xC0100010\<rparr>) (0, 0), s') \<and> phys (t_heap s') 0x2011 = 4"
proof -
  let ?s = "demo_exec\<lparr>t_heap := demo_marked\<rparr>" and ?ph = "demo_segment\<lparr>p_vaddr := 0xC0100010\<rparr>"
  have "lookup_page 0xC0100010 (current_dir demo_marked) demo_marked = Some (Some (8192, 256))" "translate 0xC0100010 demo_marked = Some 0x2010"
    "page_tables demo_marked 8192 = Some (\<lambda>_. zero_page\<lparr>pg_present := True, pg_frame := 2\<rparr>)"
    by (simp_all add: demo_marked_def demo_heap_def zero_dir_def translate_def lookup_page_def read_page_def PAGE_SIZE_def)
  moreover obtain nd where "get_fsn 100 ?s = Some nd" "nd_mode nd AND VFS_DIR = 0"
    by (simp add: demo_exec_def demo_kst_def demo_vfs_def get_fsn_def VFS_FILE_def VFS_SETUID_def VFS_DIR_def)
  ultimately have "\<exists>s'. load_segments (bytes_ops [1, 2, 3, 4, 5, 6]) 100 [?ph] (0, 0) ?s = Some (widen ?ph (0, 0), s')
      \<and> (\<forall>j < p_filesz ?ph. phys (t_heap s') (0x2010 + j) = [1, 2, 3, 4, 5, 6] ! (p_offset ?ph + j))"
    by (intro segment_overwrites_kernel [where t = 8192 and i = 256 and pt = "\<lambda>_. zero_page\<lparr>pg_present := True, pg_frame := 2\<rparr>" and nd = nd])
      (simp_all add: bytes_ops_contents demo_segment_def PAGE_SIZE_def KERNEL_BASE_def two32_def)
  then show ?thesis by (auto simp: demo_segment_def dest: spec [of _ 1])
qed

end
