(* ===== verification/Fat32.thy ===== *)
theory Fat32
  imports Memory Objects Strings Time
begin

section \<open>The FAT32 file system (kernel/fs/fat32.c)\<close>

text \<open>
  The driver is written against an earlier interface of the virtual file system: a file node has the fields \<^verbatim>\<open>name\<close>, \<^verbatim>\<open>mask\<close>, \<^verbatim>\<open>flags\<close> and \<^verbatim>\<open>impl\<close>, and the device is a file node that is read and written with
  \<^verbatim>\<open>read_vfs\<close> and \<^verbatim>\<open>write_vfs\<close>. The records below have the fields the driver uses; the functions of that interface and the sizes of its structures are an argument (\<open>vfs_env\<close>). Memory that is allocated and not
  initialised holds what the argument \<open>junk\<close> says, or what the heap holds. Buffers are kept by address, and an access outside of a buffer has no result. \<^verbatim>\<open>size_t\<close> and \<^verbatim>\<open>off_t\<close> have 64 bits and are integers here; products of fields of
  the boot record are computed in 32 bits.
\<close>

unbundle bit_operations_syntax

subsection \<open>Data\<close>

definition FAT32_RDONLY :: "8 word" where "FAT32_RDONLY = 0x01"
definition FAT32_HIDDEN :: "8 word" where "FAT32_HIDDEN = 0x02"
definition FAT32_VOL_ID :: "8 word" where "FAT32_VOL_ID = 0x08"
definition FAT32_LONG_NAME :: "8 word" where "FAT32_LONG_NAME = 0x0F"
definition FAT32_DIR :: "8 word" where "FAT32_DIR = 0x10"
definition FAT32_END_DIR :: "8 word" where "FAT32_END_DIR = 0x00"
definition FAT32_RESERVED :: "8 word" where "FAT32_RESERVED = 0xE5"
definition FAT32_LAST_LONG :: "8 word" where "FAT32_LAST_LONG = 0x40"
definition FAT32_LAST_CLUSTER :: nat where "FAT32_LAST_CLUSTER = 0x0FFFFFF8"

definition FAT32_CLUSTER_NUM :: "32 word \<Rightarrow> nat" where "FAT32_CLUSTER_NUM x = unat (x AND 0x0FFFFFFF)"
definition FAT32_CHECK_DIRTY :: "32 word \<Rightarrow> bool" where "FAT32_CHECK_DIRTY x \<longleftrightarrow> drop_bit 28 x \<noteq> 0"
definition FAT32_SET_DIRTY :: "32 word \<Rightarrow> 32 word" where "FAT32_SET_DIRTY x = x OR 0x10000000"
definition FAT32_DIR_CHK_DIRTY :: "32 word \<Rightarrow> bool" where "FAT32_DIR_CHK_DIRTY x \<longleftrightarrow> drop_bit 15 x AND 0x01 \<noteq> 0"
definition FAT32_DIR_SET_CLEAN :: "32 word \<Rightarrow> 32 word" where "FAT32_DIR_SET_CLEAN x = x OR NOT 0x8000"
definition FAT32_DIR_GET_CL :: "32 word \<Rightarrow> 32 word" where "FAT32_DIR_GET_CL x = x AND 0xFFFF"
definition FAT32_DIR_GET_ENT :: "32 word \<Rightarrow> 32 word" where "FAT32_DIR_GET_ENT x = drop_bit 16 x"
definition FAT32_DIR_SET_CL :: "32 word \<Rightarrow> 32 word \<Rightarrow> 32 word" where "FAT32_DIR_SET_CL x y = (x AND 0xFFFF0000) OR y"
definition FAT32_DIR_SET_ENT :: "32 word \<Rightarrow> 32 word \<Rightarrow> 32 word" where "FAT32_DIR_SET_ENT x y = (x AND 0xFFFF) OR push_bit 16 y"

record fat32_boot_record =
  br_jump :: bytes
  br_oemID :: bytes
  br_bps :: nat
  br_spc :: nat
  br_nres :: nat
  br_nFAT :: nat
  br_rootEntries :: nat
  br_nsect_short :: nat
  br_desc :: nat
  br_spf_old :: nat
  br_spt :: nat
  br_nheads :: nat
  br_nhidden :: nat
  br_nsect_long :: nat
  br_spf :: nat
  br_flags :: nat
  br_version :: nat
  br_root_cluster :: nat
  br_fsinfo_cluster :: nat
  br_backup_cluster :: nat
  br_reserved :: bytes
  br_drive :: nat
  br_ntfslags :: nat
  br_sig :: nat
  br_serial :: nat
  br_label :: bytes
  br_id :: bytes
  br_inode_list :: addr
  br_lock :: bool

record fat32_dirent =
  de_name_short :: bytes
  de_attr :: "8 word"
  de_res_nt :: "8 word"
  de_tenths :: "8 word"
  de_create_time :: nat
  de_create_date :: nat
  de_last_access :: nat
  de_cluster_high :: nat
  de_mod_time :: nat
  de_mod_date :: nat
  de_cluster_low :: nat
  de_size :: nat

record fat32_long_name =
  ln_seq :: "8 word"
  ln_name0 :: bytes
  ln_attr :: "8 word"
  ln_type :: "8 word"
  ln_checksum :: "8 word"
  ln_name1 :: bytes
  ln_zero :: nat
  ln_name2 :: bytes

record fat32_inode =
  fi_first_cluster :: nat
  fi_parent_first_cluster :: nat
  fi_disk_off :: int
  fi_dirent_cluster :: nat
  fi_dirent_index :: nat
  fi_next :: addr

record fat_node =
  fn_name :: bytes
  fn_mask :: "32 word"
  fn_uid :: nat
  fn_gid :: nat
  fn_flags :: "32 word"
  fn_inode :: nat
  fn_len :: int
  fn_impl :: "32 word"
  fn_fs_sb :: addr
  fn_private_data :: addr

record fat_sb =
  fs_dev :: addr
  fs_private_data :: addr
  fs_root :: addr
  fs_flags :: "32 word"

record fat_stat =
  fst_dev :: nat
  fst_ino :: nat
  fst_mode :: "32 word"
  fst_nlink :: nat
  fst_uid :: nat
  fst_gid :: nat
  fst_size :: int
  fst_blksize :: nat
  fst_blocks :: int
  fst_times :: "(nat \<times> nat \<times> nat) option"

record 'd fat =
  fa_heap :: liballoc
  fa_dev :: 'd
  fa_bpbs :: "addr \<rightharpoonup> fat32_boot_record"
  fa_sbs :: "addr \<rightharpoonup> fat_sb"
  fa_nodes :: "addr \<rightharpoonup> fat_node"
  fa_inodes :: "addr \<rightharpoonup> fat32_inode"
  fa_bufs :: "addr \<rightharpoonup> bytes"

record 'd vfs_env =
  ve_read_vfs :: "addr \<Rightarrow> nat \<Rightarrow> int \<Rightarrow> 'd \<Rightarrow> ((int \<times> bytes) \<times> 'd) option"
  ve_write_vfs :: "addr \<Rightarrow> bytes \<Rightarrow> int \<Rightarrow> 'd \<Rightarrow> (int \<times> 'd) option"
  ve_get_dev :: "addr \<Rightarrow> nat"
  ve_time :: nat
  ve_sizeof_fs_node :: nat
  ve_sizeof_superblock :: nat

definition sizeof_fat32_boot_record :: nat where "sizeof_fat32_boot_record = 95"
definition sizeof_fat32_dirent :: nat where "sizeof_fat32_dirent = 32"
definition sizeof_fat32_inode :: nat where "sizeof_fat32_inode = 24"

definition bytes_at :: "bytes \<Rightarrow> nat \<Rightarrow> nat \<Rightarrow> bytes" where
  "bytes_at b i n = take n (drop i b)"

definition boot_record_of :: "bytes \<Rightarrow> fat32_boot_record" where
  "boot_record_of b = (let u8 = (\<lambda>i. unat (b ! i)); u16 = le16 ((!) b); u32 = le32 ((!) b) in
     \<lparr>br_jump = bytes_at b 0 3, br_oemID = bytes_at b 3 8, br_bps = u16 11, br_spc = u8 13, br_nres = u16 14, br_nFAT = u8 16, br_rootEntries = u16 17, br_nsect_short = u16 19,
      br_desc = u8 21, br_spf_old = u16 22, br_spt = u16 24, br_nheads = u16 26, br_nhidden = u32 28, br_nsect_long = u32 32, br_spf = u32 36, br_flags = u16 40, br_version = u16 42,
      br_root_cluster = u32 44, br_fsinfo_cluster = u16 48, br_backup_cluster = u16 50, br_reserved = bytes_at b 52 12, br_drive = u8 64, br_ntfslags = u8 65, br_sig = u8 66,
      br_serial = u32 67, br_label = bytes_at b 71 11, br_id = bytes_at b 82 8, br_inode_list = u32 90, br_lock = (u8 94 \<noteq> 0)\<rparr>)"

definition dirent_of :: "bytes \<Rightarrow> fat32_dirent" where
  "dirent_of b = (let u16 = le16 ((!) b) in
     \<lparr>de_name_short = bytes_at b 0 11, de_attr = b ! 11, de_res_nt = b ! 12, de_tenths = b ! 13, de_create_time = u16 14, de_create_date = u16 16, de_last_access = u16 18,
      de_cluster_high = u16 20, de_mod_time = u16 22, de_mod_date = u16 24, de_cluster_low = u16 26, de_size = le32 ((!) b) 28\<rparr>)"

definition long_name_of :: "bytes \<Rightarrow> fat32_long_name" where
  "long_name_of b = \<lparr>ln_seq = b ! 0, ln_name0 = bytes_at b 1 10, ln_attr = b ! 11, ln_type = b ! 12, ln_checksum = b ! 13, ln_name1 = bytes_at b 14 12,
     ln_zero = le16 ((!) b) 26, ln_name2 = bytes_at b 28 4\<rparr>"

definition put16 :: "nat \<Rightarrow> nat \<Rightarrow> bytes \<Rightarrow> bytes" where
  "put16 i v b = b[i := of_nat v, i + 1 := of_nat (v div 2 ^ 8)]"

definition put32 :: "nat \<Rightarrow> nat \<Rightarrow> bytes \<Rightarrow> bytes" where
  "put32 i v b = put16 (i + 2) (v div 2 ^ 16) (put16 i v b)"

text \<open>Sizes of a cluster and of a file allocation table, in bytes.\<close>

definition cluster_size :: "fat32_boot_record \<Rightarrow> nat" where
  "cluster_size b = br_spc b * br_bps b"

definition fat_size :: "fat32_boot_record \<Rightarrow> nat" where
  "fat_size b = mul32 (br_spf b) (br_bps b)"

definition u64 :: "int \<Rightarrow> int" where
  "u64 x = x mod 2 ^ 64"

subsection \<open>Memory and device\<close>

definition fa_kma :: "nat \<Rightarrow> 'd fat \<Rightarrow> (addr \<times> 'd fat) option" where
  "fa_kma n s = do { (p, h) \<leftarrow> kmalloc n (fa_heap s); Some (p, s\<lparr>fa_heap := h\<rparr>) }"

definition fa_kfr :: "addr \<Rightarrow> 'd fat \<Rightarrow> 'd fat option" where
  "fa_kfr p s = do { h \<leftarrow> kfree p (fa_heap s); Some (s\<lparr>fa_heap := h\<rparr>) }"

text \<open>What is in memory that was just allocated.\<close>

definition heap_bytes :: "addr \<Rightarrow> nat \<Rightarrow> 'd fat \<Rightarrow> bytes" where
  "heap_bytes p n s = map (kbytes (fa_heap s)) [p..<p + n]"

text \<open>\<^verbatim>\<open>read_vfs\<close> of the device into a buffer of \<open>n\<close> bytes: the result and the contents of the buffer.\<close>

definition dev_read :: "'d vfs_env \<Rightarrow> addr \<Rightarrow> bytes \<Rightarrow> nat \<Rightarrow> int \<Rightarrow> 'd fat \<Rightarrow> ((int \<times> bytes) \<times> 'd fat) option" where
  "dev_read ve dev buf n off s = do {
     ((r, bs), d) \<leftarrow> ve_read_vfs ve dev n off (fa_dev s);
     ASSERT (length bs \<le> length buf);
     Some ((r, bs @ drop (length bs) buf), s\<lparr>fa_dev := d\<rparr>)
   }"

definition dev_write :: "'d vfs_env \<Rightarrow> addr \<Rightarrow> bytes \<Rightarrow> int \<Rightarrow> 'd fat \<Rightarrow> (int \<times> 'd fat) option" where
  "dev_write ve dev buf off s = do {
     (r, d) \<leftarrow> ve_write_vfs ve dev buf off (fa_dev s);
     Some (r, s\<lparr>fa_dev := d\<rparr>)
   }"

definition get_bpb :: "addr \<Rightarrow> 'd fat \<Rightarrow> (fat_sb \<times> fat32_boot_record) option" where
  "get_bpb sbp s = do { sb \<leftarrow> fa_sbs s sbp; b \<leftarrow> fa_bpbs s (fs_private_data sb); Some (sb, b) }"

definition upd_node :: "addr \<Rightarrow> (fat_node \<Rightarrow> fat_node) \<Rightarrow> 'd fat \<Rightarrow> 'd fat option" where
  "upd_node p f s = do { nd \<leftarrow> fa_nodes s p; Some (s\<lparr>fa_nodes := (fa_nodes s)(p \<mapsto> f nd)\<rparr>) }"

definition upd_bpb :: "addr \<Rightarrow> (fat32_boot_record \<Rightarrow> fat32_boot_record) \<Rightarrow> 'd fat \<Rightarrow> 'd fat option" where
  "upd_bpb p f s = do { b \<leftarrow> fa_bpbs s p; Some (s\<lparr>fa_bpbs := (fa_bpbs s)(p \<mapsto> f b)\<rparr>) }"

definition upd_inode :: "addr \<Rightarrow> (fat32_inode \<Rightarrow> fat32_inode) \<Rightarrow> 'd fat \<Rightarrow> 'd fat option" where
  "upd_inode p f s = do { i \<leftarrow> fa_inodes s p; Some (s\<lparr>fa_inodes := (fa_inodes s)(p \<mapsto> f i)\<rparr>) }"

text \<open>\<^verbatim>\<open>memcpy\<close> from and to a buffer.\<close>

definition cache_get :: "addr \<Rightarrow> int \<Rightarrow> int \<Rightarrow> 'd fat \<Rightarrow> bytes option" where
  "cache_get p off n s = do {
     b \<leftarrow> fa_bufs s p;
     ASSERT (0 \<le> off \<and> 0 \<le> n \<and> off + n \<le> int (length b));
     Some (take (nat n) (drop (nat off) b))
   }"

definition cache_put :: "addr \<Rightarrow> int \<Rightarrow> bytes \<Rightarrow> 'd fat \<Rightarrow> 'd fat option" where
  "cache_put p off bs s = do {
     b \<leftarrow> fa_bufs s p;
     ASSERT (0 \<le> off \<and> off + int (length bs) \<le> int (length b));
     Some (s\<lparr>fa_bufs := (fa_bufs s)(p \<mapsto> take (nat off) b @ bs @ drop (nat off + length bs) b)\<rparr>)
   }"

subsection \<open>Clusters\<close>

definition fat32_attr_to_vfs :: "8 word \<Rightarrow> 32 word" where
  "fat32_attr_to_vfs attr = (if attr AND FAT32_DIR \<noteq> 0 then 0x020000 else 0x010000)"

text \<open>The offset of a cluster on the device.\<close>

definition cluster_off :: "fat32_boot_record \<Rightarrow> nat \<Rightarrow> nat" where
  "cluster_off b cluster =
    (let first_data_sect = add32 (br_nres b) (mul32 (br_nFAT b) (br_spf b));
         cluster_sect = add32 first_data_sect (mul32 (sub32 cluster 2) (br_spc b))
     in mul32 cluster_sect (br_bps b))"

definition read_cluster :: "'d vfs_env \<Rightarrow> addr \<Rightarrow> addr \<Rightarrow> nat \<Rightarrow> 'd fat \<Rightarrow> (bool \<times> 'd fat) option" where
  "read_cluster ve sbp p cluster s = do {
     let cluster = (if cluster = 0 then 2 else cluster);
     (sb, b) \<leftarrow> get_bpb sbp s;
     buf \<leftarrow> fa_bufs s p;
     ((r, buf), s) \<leftarrow> dev_read ve (fs_dev sb) buf (cluster_size b) (int (cluster_off b cluster)) s;
     Some (r = int (cluster_size b), s\<lparr>fa_bufs := (fa_bufs s)(p \<mapsto> buf)\<rparr>)
   }"

definition write_cluster :: "'d vfs_env \<Rightarrow> addr \<Rightarrow> addr \<Rightarrow> nat \<Rightarrow> 'd fat \<Rightarrow> (bool \<times> 'd fat) option" where
  "write_cluster ve sbp p cluster s = do {
     let cluster = (if cluster = 0 then 2 else cluster);
     (sb, b) \<leftarrow> get_bpb sbp s;
     bs \<leftarrow> cache_get p 0 (int (cluster_size b)) s;
     (r, s) \<leftarrow> dev_write ve (fs_dev sb) bs (int (cluster_off b cluster)) s;
     Some (r = int (cluster_size b), s)
   }"

text \<open>An entry of the copy of the file allocation table.\<close>

definition fat_get :: "bytes \<Rightarrow> nat \<Rightarrow> nat option" where
  "fat_get FAT i = (if 4 * i + 4 \<le> length FAT then Some (le32 ((!) FAT) (4 * i)) else None)"

definition fat_put :: "bytes \<Rightarrow> nat \<Rightarrow> nat \<Rightarrow> bytes option" where
  "fat_put FAT i v = (if 4 * i + 4 \<le> length FAT then Some (put32 (4 * i) v FAT) else None)"

definition fat_off :: "fat32_boot_record \<Rightarrow> nat \<Rightarrow> int option" where
  "fat_off b cluster =
    (if fat_size b div 4 = 0 then None
     else Some (int (mul32 (add32 (br_nres b) (mul32 (cluster div (fat_size b div 4)) (br_spf b))) (br_bps b))))"

fun chain_loop :: "'d vfs_env \<Rightarrow> addr \<Rightarrow> nat \<Rightarrow> nat \<Rightarrow> nat \<Rightarrow> nat \<Rightarrow> int \<Rightarrow> bytes \<Rightarrow> 'd fat \<Rightarrow> (nat \<times> 'd fat) option" where
  "chain_loop ve dev n 0 fat_index fat_offset off FAT s = Some (add32 fat_index fat_offset, s)"
| "chain_loop ve dev n (Suc depth) fat_index fat_offset off FAT s = do {
     w \<leftarrow> fat_get FAT fat_index;
     let fat_index = sub32 (w mod 2 ^ 28) fat_offset;
     let c = add32 fat_index fat_offset;
     if c = 0 \<or> c \<ge> FAT32_LAST_CLUSTER then Some (0, s)
     else if mul32 fat_index 4 > n then do {
       ((_, FAT), s) \<leftarrow> dev_read ve dev FAT n (off + int n) s;
       chain_loop ve dev n depth 0 (add32 fat_offset fat_index) (off + int n) FAT s
     }
     else chain_loop ve dev n depth fat_index fat_offset off FAT s
   }"

definition follow_cluster_chain :: "'d vfs_env \<Rightarrow> addr \<Rightarrow> nat \<Rightarrow> nat \<Rightarrow> 'd fat \<Rightarrow> (nat \<times> 'd fat) option" where
  "follow_cluster_chain ve sbp cluster0 depth s =
    (if depth = 0 then Some (cluster0, s)
     else do {
       let cluster0 = cluster0 mod 2 ^ 28;
       (sb, b) \<leftarrow> get_bpb sbp s;
       let n = fat_size b;
       (p, s) \<leftarrow> fa_kma n s;
       if p = NULL then Some (0, s)
       else do {
         off \<leftarrow> fat_off b cluster0;
         ((_, FAT), s) \<leftarrow> dev_read ve (fs_dev sb) (heap_bytes p n s) n off s;
         let fat_index = cluster0 mod (n div 4);
         (c, s) \<leftarrow> chain_loop ve (fs_dev sb) n depth fat_index (cluster0 - fat_index) off FAT s;
         s \<leftarrow> fa_kfr p s;
         Some (c, s)
       }
     })"

subsection \<open>Allocation of clusters\<close>

partial_function (option) alloc_first ::
  "'d vfs_env \<Rightarrow> addr \<Rightarrow> fat32_boot_record \<Rightarrow> nat \<Rightarrow> nat \<Rightarrow> int \<Rightarrow> bytes \<Rightarrow> 'd fat \<Rightarrow> ((nat \<times> nat \<times> int \<times> bytes) option \<times> 'd fat) option" where
  "alloc_first ve dev b fat_index fat_offset off FAT s = do {
     w \<leftarrow> fat_get FAT fat_index;
     if w = 0 then Some (Some (fat_index, fat_offset, off, FAT), s)
     else if mul32 fat_index 4 \<ge> fat_size b then
       if mul32 (add32 fat_index fat_offset) (br_spc b) > br_nsect_long b then Some (None, s)
       else do {
         let off = off + int (fat_size b);
         ((_, FAT), s) \<leftarrow> dev_read ve dev FAT (fat_size b) off s;
         let fat_offset = add32 fat_offset fat_index;
         w \<leftarrow> fat_get FAT 0;
         alloc_first ve dev b (sub32 (w mod 2 ^ 28) fat_offset) fat_offset off FAT s
       }
     else alloc_first ve dev b (sub32 (w mod 2 ^ 28) fat_offset) fat_offset off FAT s
   }"

partial_function (option) chain_end ::
  "'d vfs_env \<Rightarrow> addr \<Rightarrow> fat32_boot_record \<Rightarrow> nat \<Rightarrow> nat \<Rightarrow> int \<Rightarrow> bytes \<Rightarrow> 'd fat \<Rightarrow> ((nat \<times> nat \<times> int \<times> bytes) option \<times> 'd fat) option" where
  "chain_end ve dev b fat_index fat_offset off FAT s = do {
     w \<leftarrow> fat_get FAT fat_index;
     if \<not> w < FAT32_LAST_CLUSTER then Some (Some (fat_index, fat_offset, off, FAT), s)
     else if mul32 fat_index 4 \<ge> fat_size b then do {
       let off = off + int (fat_size b);
       ((_, FAT), s) \<leftarrow> dev_read ve dev FAT (fat_size b) off s;
       let fat_offset = add32 fat_offset fat_index;
       w \<leftarrow> fat_get FAT 0;
       chain_end ve dev b (sub32 (w mod 2 ^ 28) fat_offset) fat_offset off FAT s
     }
     else if add32 fat_index fat_offset = 0 then Some (None, s)
     else chain_end ve dev b (sub32 (w mod 2 ^ 28) fat_offset) fat_offset off FAT s
   }"

text \<open>The first empty entry from \<open>i\<close> on, if the search does not get to the end of the table.\<close>

partial_function (option) find_empty :: "nat \<Rightarrow> nat \<Rightarrow> bytes \<Rightarrow> nat option option" where
  "find_empty n i FAT = do {
     w \<leftarrow> fat_get FAT i;
     if w mod 2 ^ 28 = 0 then Some (Some i)
     else if mul32 (add32 i 1) 4 \<ge> n then Some None
     else find_empty n (add32 i 1) FAT
   }"

fun grow_chain :: "nat \<Rightarrow> nat \<Rightarrow> nat \<Rightarrow> nat \<Rightarrow> nat \<Rightarrow> nat \<Rightarrow> bytes \<Rightarrow> (nat \<times> bytes) option" where
  "grow_chain n 0 search_index fat_index fat_offset nalloc FAT = Some (nalloc, FAT)"
| "grow_chain n (Suc nclusters) search_index fat_index fat_offset nalloc FAT = do {
     e \<leftarrow> find_empty n search_index FAT;
     (case e of
        None \<Rightarrow> Some (nalloc, FAT)
      | Some i \<Rightarrow> do {
          FAT \<leftarrow> fat_put FAT i FAT32_LAST_CLUSTER;
          FAT \<leftarrow> fat_put FAT fat_index (add32 i fat_offset);
          grow_chain n nclusters i i fat_offset (add32 nalloc 1) FAT
        })
   }"

definition alloc_clusters :: "'d vfs_env \<Rightarrow> addr \<Rightarrow> nat \<Rightarrow> nat \<Rightarrow> 'd fat \<Rightarrow> (nat \<times> 'd fat) option" where
  "alloc_clusters ve sbp chain_start nclusters s = do {
     let chain_start = chain_start mod 2 ^ 28;
     (sb, b) \<leftarrow> get_bpb sbp s;
     let n = fat_size b;
     (p, s) \<leftarrow> fa_kma n s;
     if p = NULL then Some (0, s)
     else do {
       off \<leftarrow> fat_off b chain_start;
       ((_, FAT), s) \<leftarrow> dev_read ve (fs_dev sb) (heap_bytes p n s) n off s;
       let fat_index = chain_start mod (n div 4);
       let fat_offset = chain_start - fat_index;
       (res, s) \<leftarrow> (if chain_start = 0 then do {
            (e, s) \<leftarrow> alloc_first ve (fs_dev sb) b 2 fat_offset off FAT s;
            (case e of
               None \<Rightarrow> Some (0xFFFFFFFF, s)
             | Some (fat_index, fat_offset, off, FAT) \<Rightarrow> do {
                 FAT \<leftarrow> fat_put FAT fat_index FAT32_LAST_CLUSTER;
                 (_, s) \<leftarrow> dev_write ve (fs_dev sb) FAT off s;
                 Some (add32 fat_offset fat_index, s)
               })
          } else do {
            (e, s) \<leftarrow> chain_end ve (fs_dev sb) b fat_index fat_offset off FAT s;
            (case e of
               None \<Rightarrow> Some (0, s)
             | Some (fat_index, fat_offset, off, FAT) \<Rightarrow> do {
                 (nalloc, FAT) \<leftarrow> grow_chain n nclusters 0 fat_index fat_offset 0 FAT;
                 (_, s) \<leftarrow> dev_write ve (fs_dev sb) FAT off s;
                 Some (nalloc, s)
               })
          });
       s \<leftarrow> fa_kfr p s;
       Some (res, s)
     }
   }"

subsection \<open>Entries of directories\<close>

text \<open>The record of an open file with the first cluster \<open>c\<close>; the search does not stop at the end of the list.\<close>

partial_function (option) find_open :: "nat \<Rightarrow> addr \<Rightarrow> 'd fat \<Rightarrow> fat32_inode option" where
  "find_open c p s = do {
     i \<leftarrow> (if p = NULL then None else fa_inodes s p);
     if fi_first_cluster i \<noteq> c then find_open c (fi_next i) s else Some i
   }"

definition update_dirent :: "'d vfs_env \<Rightarrow> addr \<Rightarrow> 'd fat \<Rightarrow> (int \<times> 'd fat) option" where
  "update_dirent ve node s = do {
     nd \<leftarrow> fa_nodes s node;
     if fn_inode nd \<noteq> 2 then do {
       (sb, b) \<leftarrow> get_bpb (fn_fs_sb nd) s;
       ASSERT (br_inode_list b \<noteq> NULL);
       i \<leftarrow> find_open (fn_inode nd) (br_inode_list b) s;
       (p, s) \<leftarrow> fa_kma sizeof_fat32_dirent s;
       if p = NULL then Some (- 1, s)
       else do {
         ((_, e), s) \<leftarrow> dev_read ve (fs_dev sb) (heap_bytes p sizeof_fat32_dirent s) sizeof_fat32_dirent (fi_disk_off i) s;
         t \<leftarrow> gmtime (ve_time ve);
         let mod_time = ((word_of_int (tm_hour t * 2 ^ 11) :: 16 word) OR word_of_int ((tm_min t mod 2 ^ 6) * 2 ^ 5)) OR word_of_int (tm_sec t mod 2 ^ 5);
         let mod_date = ((word_of_int ((tm_year t - 80) * 2 ^ 9) :: 16 word) OR word_of_int (((tm_mon t + 1) mod 2 ^ 6) * 2 ^ 5)) OR word_of_int (tm_mday t mod 2 ^ 5);
         let e = put32 28 (nat (fn_len nd mod int two32)) (put16 24 (unat mod_date) (put16 22 (unat mod_time) e));
         (_, s) \<leftarrow> dev_write ve (fs_dev sb) e (fi_disk_off i) s;
         s \<leftarrow> fa_kfr p s;
         Some (0, s)
       }
     } else Some (0, s)
   }"

subsection \<open>Reading and writing\<close>

text \<open>\<^verbatim>\<open>follow_cluster_chain\<close> to the cluster of the file that the cache is for, then \<^verbatim>\<open>read_cluster\<close> or \<^verbatim>\<open>write_cluster\<close>.\<close>

definition load_cached :: "'d vfs_env \<Rightarrow> addr \<Rightarrow> 'd fat \<Rightarrow> (bool \<times> 'd fat) option" where
  "load_cached ve node s = do {
     nd \<leftarrow> fa_nodes s node;
     (c, s) \<leftarrow> follow_cluster_chain ve (fn_fs_sb nd) (fn_inode nd) (FAT32_CLUSTER_NUM (fn_impl nd)) s;
     read_cluster ve (fn_fs_sb nd) (fn_private_data nd) c s
   }"

definition store_cached :: "'d vfs_env \<Rightarrow> addr \<Rightarrow> 'd fat \<Rightarrow> (bool \<times> 'd fat) option" where
  "store_cached ve node s = do {
     nd \<leftarrow> fa_nodes s node;
     (c, s) \<leftarrow> follow_cluster_chain ve (fn_fs_sb nd) (fn_inode nd) (FAT32_CLUSTER_NUM (fn_impl nd)) s;
     write_cluster ve (fn_fs_sb nd) (fn_private_data nd) c s
   }"

definition next_cluster :: "addr \<Rightarrow> 'd fat \<Rightarrow> 'd fat option" where
  "next_cluster node s = upd_node node (\<lambda>nd. nd\<lparr>fn_impl := fn_impl nd + 1\<rparr>) s"

text \<open>The cluster with the offset \<open>off\<close> into the cache, if another one is there; false if that fails.\<close>

definition seek_cluster :: "'d vfs_env \<Rightarrow> addr \<Rightarrow> int \<Rightarrow> nat \<Rightarrow> 'd fat \<Rightarrow> (bool \<times> 'd fat) option" where
  "seek_cluster ve node off cs s = do {
     nd \<leftarrow> fa_nodes s node;
     ASSERT (cs \<noteq> 0);
     if off sdiv int cs = int (FAT32_CLUSTER_NUM (fn_impl nd)) then Some (True, s)
     else do {
       (ok, s) \<leftarrow> (if FAT32_CHECK_DIRTY (fn_impl nd) then do {
            (ok, s) \<leftarrow> store_cached ve node s;
            if ok then do { (_, s) \<leftarrow> update_dirent ve node s; Some (True, s) } else Some (False, s)
          } else Some (True, s));
       if ok then do {
         s \<leftarrow> upd_node node (\<lambda>nd. nd\<lparr>fn_impl := word_of_int (off sdiv int cs)\<rparr>) s;
         load_cached ve node s
       } else Some (False, s)
     }
   }"

text \<open>The loop over whole clusters; false if the next cluster cannot be read. The bytes read so far are \<open>acc\<close>.\<close>

partial_function (option) read_loop :: "'d vfs_env \<Rightarrow> addr \<Rightarrow> addr \<Rightarrow> nat \<Rightarrow> int \<Rightarrow> bytes \<Rightarrow> 'd fat \<Rightarrow> ((bool \<times> int \<times> bytes) \<times> 'd fat) option" where
  "read_loop ve node p cs count acc s =
    (if count \<ge> int cs then do {
       bs \<leftarrow> cache_get p 0 (int cs) s;
       s \<leftarrow> next_cluster node s;
       (ok, s) \<leftarrow> load_cached ve node s;
       if ok then read_loop ve node p cs (count - int cs) (acc @ bs) s else Some ((False, 0, acc @ bs), s)
     } else Some ((True, count, acc), s))"

definition fat32_read :: "'d vfs_env \<Rightarrow> addr \<Rightarrow> int \<Rightarrow> int \<Rightarrow> 'd fat \<Rightarrow> ((int \<times> bytes) \<times> 'd fat) option" where
  "fat32_read ve node count off s =
    (if count = 0 then Some ((0, []), s)
     else do {
       nd \<leftarrow> fa_nodes s node;
       let count = (if u64 (count + off) \<ge> fn_len nd then u64 (fn_len nd - off) else count);
       (sb, b) \<leftarrow> get_bpb (fn_fs_sb nd) s;
       let cs = cluster_size b;
       let p = fn_private_data nd;
       (ok, s) \<leftarrow> seek_cluster ve node off cs s;
       if \<not> ok then Some ((0, []), s)
       else do {
         let off = off smod int cs;
         ((ok, count, off, acc), s) \<leftarrow> (if u64 (off + count) \<ge> int cs then do {
              bs \<leftarrow> cache_get p off (int cs - off) s;
              s \<leftarrow> next_cluster node s;
              (ok, s) \<leftarrow> load_cached ve node s;
              Some ((ok, u64 (count - (int cs - off)), 0, bs), s)
            } else Some ((True, count, off, []), s));
         if \<not> ok then Some ((int (length acc), acc), s)
         else do {
           ((ok, count, acc), s) \<leftarrow> read_loop ve node p cs count acc s;
           if \<not> ok then Some ((int (length acc), acc), s)
           else do {
             bs \<leftarrow> cache_get p off count s;
             Some ((int (length acc) + count, acc @ bs), s)
           }
         }
       }
     })"

text \<open>\<^verbatim>\<open>write\<close>: what is left in the cache is written when the file is closed or another cluster is needed, and is not counted in the result.\<close>

partial_function (option) write_loop :: "'d vfs_env \<Rightarrow> addr \<Rightarrow> addr \<Rightarrow> nat \<Rightarrow> bytes \<Rightarrow> nat \<Rightarrow> 'd fat \<Rightarrow> ((bool \<times> nat) \<times> 'd fat) option" where
  "write_loop ve node p cs buff written s =
    (if length buff - written \<ge> cs then do {
       s \<leftarrow> cache_put p 0 (take cs (drop written buff)) s;
       (ok, s) \<leftarrow> store_cached ve node s;
       if \<not> ok then Some ((False, written), s)
       else do {
         s \<leftarrow> next_cluster node s;
         (ok, s) \<leftarrow> load_cached ve node s;
         if ok then write_loop ve node p cs buff (written + cs) s else Some ((False, written + cs), s)
       }
     } else Some ((True, written), s))"

definition extend_file :: "'d vfs_env \<Rightarrow> addr \<Rightarrow> int \<Rightarrow> int \<Rightarrow> 'd fat \<Rightarrow> 'd fat option" where
  "extend_file ve node count off s = do {
     nd \<leftarrow> fa_nodes s node;
     (sb, b) \<leftarrow> get_bpb (fn_fs_sb nd) s;
     if u64 (count + off) \<ge> fn_len nd then do {
       let delta = u64 (count + off - fn_len nd);
       ASSERT (cluster_size b \<noteq> 0);
       let n = nat ((delta div int (cluster_size b)) mod int two32);
       let nclusters = (if delta mod int (cluster_size b) \<noteq> 0 then add32 n 1 else n);
       if nclusters > 0 then do {
         (nalloc, s) \<leftarrow> alloc_clusters ve (fn_fs_sb nd) (fn_inode nd) nclusters s;
         if nalloc < nclusters
         then upd_node node (\<lambda>nd. nd\<lparr>fn_len := u64 (fn_len nd + int (mul32 (mul32 nclusters (br_spc b)) (br_bps b)))\<rparr>) s
         else upd_node node (\<lambda>nd. nd\<lparr>fn_len := u64 (off + count)\<rparr>) s
       } else upd_node node (\<lambda>nd. nd\<lparr>fn_len := u64 (off + count)\<rparr>) s
     } else Some s
   }"

definition fat32_write :: "'d vfs_env \<Rightarrow> addr \<Rightarrow> bytes \<Rightarrow> int \<Rightarrow> 'd fat \<Rightarrow> (int \<times> 'd fat) option" where
  "fat32_write ve node buff off s =
    (if buff = [] then Some (0, s)
     else do {
       s \<leftarrow> extend_file ve node (int (length buff)) off s;
       nd \<leftarrow> fa_nodes s node;
       (sb, b) \<leftarrow> get_bpb (fn_fs_sb nd) s;
       let cs = cluster_size b;
       let p = fn_private_data nd;
       (ok, s) \<leftarrow> seek_cluster ve node off cs s;
       if \<not> ok then Some (0, s)
       else do {
         let off = off smod int cs;
         s \<leftarrow> upd_node node (\<lambda>nd. nd\<lparr>fn_impl := FAT32_SET_DIRTY (fn_impl nd)\<rparr>) s;
         ((ok, off, written), s) \<leftarrow> (if u64 (off + int (length buff)) \<ge> int cs then do {
              s \<leftarrow> cache_put p off (take (nat (int cs - off)) buff) s;
              (ok, s) \<leftarrow> store_cached ve node s;
              if \<not> ok then Some ((False, off, 0), s)
              else do {
                (_, s) \<leftarrow> update_dirent ve node s;
                s \<leftarrow> next_cluster node s;
                (ok, s) \<leftarrow> load_cached ve node s;
                Some ((ok, 0, nat (int cs - off)), s)
              }
            } else Some ((True, off, 0), s));
         if \<not> ok then Some (int written, s)
         else do {
           ((ok, written), s) \<leftarrow> write_loop ve node p cs buff written s;
           if \<not> ok then Some (int written, s)
           else do {
             s \<leftarrow> cache_put p off (drop written buff) s;
             Some (int written, s)
           }
         }
       }
     })"

subsection \<open>Opening and closing\<close>

definition FAT_O_RDONLY :: "32 word" where "FAT_O_RDONLY = 0x01"
definition FAT_O_WRONLY :: "32 word" where "FAT_O_WRONLY = 0x02"
definition READ_BITS :: "32 word" where "READ_BITS = 0x124"
definition WRITE_BITS :: "32 word" where "WRITE_BITS = 0x92"
definition EXEC_BITS :: "32 word" where "EXEC_BITS = 0x49"

partial_function (option) append_inode :: "addr \<Rightarrow> addr \<Rightarrow> 'd fat \<Rightarrow> 'd fat option" where
  "append_inode iter p s = do {
     i \<leftarrow> fa_inodes s iter;
     if fi_next i \<noteq> NULL then append_inode (fi_next i) p s else upd_inode iter (\<lambda>i. i\<lparr>fi_next := p\<rparr>) s
   }"

definition lock_bpb :: "addr \<Rightarrow> 'd fat \<Rightarrow> 'd fat option" where
  "lock_bpb p s = do { b \<leftarrow> fa_bpbs s p; if br_lock b then None else upd_bpb p (\<lambda>b. b\<lparr>br_lock := True\<rparr>) s }"

definition unlock_bpb :: "addr \<Rightarrow> 'd fat \<Rightarrow> 'd fat option" where
  "unlock_bpb p s = upd_bpb p (\<lambda>b. b\<lparr>br_lock := False\<rparr>) s"

definition open_inode :: "'d vfs_env \<Rightarrow> addr \<Rightarrow> addr \<Rightarrow> 'd fat \<Rightarrow> 'd fat option" where
  "open_inode ve node p s = do {
     nd \<leftarrow> fa_nodes s node;
     (sb, b) \<leftarrow> get_bpb (fn_fs_sb nd) s;
     let cl = unat (fn_impl nd AND 0xFFFF);
     let ix = unat (drop_bit 16 (fn_impl nd));
     (cluster, s) \<leftarrow> follow_cluster_chain ve (fn_fs_sb nd) (fn_uid nd) cl s;
     let i = \<lparr>fi_first_cluster = fn_inode nd, fi_parent_first_cluster = fn_uid nd, fi_disk_off = int (add32 (cluster_off b cluster) (mul32 ix sizeof_fat32_dirent)),
              fi_dirent_cluster = cl, fi_dirent_index = ix, fi_next = NULL\<rparr>;
     let s = s\<lparr>fa_inodes := (fa_inodes s)(p \<mapsto> i)\<rparr>;
     s \<leftarrow> lock_bpb (fs_private_data sb) s;
     b \<leftarrow> fa_bpbs s (fs_private_data sb);
     s \<leftarrow> (if br_inode_list b = NULL then upd_bpb (fs_private_data sb) (\<lambda>b. b\<lparr>br_inode_list := p\<rparr>) s else append_inode (br_inode_list b) p s);
     unlock_bpb (fs_private_data sb) s
   }"

definition fat32_open :: "'d vfs_env \<Rightarrow> addr \<Rightarrow> 32 word \<Rightarrow> 'd fat \<Rightarrow> (int \<times> 'd fat) option" where
  "fat32_open ve node flags s = do {
     s \<leftarrow> (if flags AND FAT_O_RDONLY = 0 then upd_node node (\<lambda>nd. nd\<lparr>fn_mask := fn_mask nd AND NOT READ_BITS\<rparr>) s else Some s);
     s \<leftarrow> (if flags AND FAT_O_WRONLY = 0 then upd_node node (\<lambda>nd. nd\<lparr>fn_mask := fn_mask nd AND NOT WRITE_BITS\<rparr>) s else Some s);
     nd \<leftarrow> fa_nodes s node;
     (sb, b) \<leftarrow> get_bpb (fn_fs_sb nd) s;
     (p, s) \<leftarrow> fa_kma (cluster_size b) s;
     if p = NULL then Some (- 1, s)
     else do {
       let s = s\<lparr>fa_bufs := (fa_bufs s)(p \<mapsto> heap_bytes p (cluster_size b) s)\<rparr>;
       (ok, s) \<leftarrow> (if fn_inode nd \<noteq> 2 then do {
            (q, s) \<leftarrow> fa_kma sizeof_fat32_inode s;
            if q = NULL then do { s \<leftarrow> fa_kfr p s; Some (False, s\<lparr>fa_bufs := (fa_bufs s)(p := None)\<rparr>) }
            else do { s \<leftarrow> open_inode ve node q s; Some (True, s) }
          } else Some (True, s));
       if \<not> ok then Some (- 1, s)
       else do {
         s \<leftarrow> upd_node node (\<lambda>nd. nd\<lparr>fn_impl := 0, fn_uid := 0, fn_gid := 0\<rparr>) s;
         (_, s) \<leftarrow> read_cluster ve (fn_fs_sb nd) p (fn_inode nd) s;
         s \<leftarrow> upd_node node (\<lambda>nd. nd\<lparr>fn_private_data := p\<rparr>) s;
         Some (0, s)
       }
     }
   }"

text \<open>The search for the record before that of the file: it starts at the second one.\<close>

partial_function (option) find_before :: "nat \<Rightarrow> addr \<Rightarrow> 'd fat \<Rightarrow> addr option" where
  "find_before c p s = do {
     i \<leftarrow> fa_inodes s p;
     j \<leftarrow> (if fi_next i = NULL then None else fa_inodes s (fi_next i));
     if fi_first_cluster j \<noteq> c then find_before c (fi_next i) s else Some p
   }"

definition close_inode :: "addr \<Rightarrow> nat \<Rightarrow> 'd fat \<Rightarrow> 'd fat option" where
  "close_inode bp c s = do {
     s \<leftarrow> lock_bpb bp s;
     b \<leftarrow> fa_bpbs s bp;
     ASSERT (br_inode_list b \<noteq> NULL);
     i \<leftarrow> fa_inodes s (br_inode_list b);
     (q, s) \<leftarrow> (if fi_next i = NULL then do { s \<leftarrow> upd_bpb bp (\<lambda>b. b\<lparr>br_inode_list := NULL\<rparr>) s; Some (br_inode_list b, s) }
        else do {
          p \<leftarrow> find_before c (br_inode_list b) s;
          i \<leftarrow> fa_inodes s p;
          j \<leftarrow> fa_inodes s (fi_next i);
          s \<leftarrow> upd_inode p (\<lambda>k. k\<lparr>fi_next := fi_next j\<rparr>) s;
          Some (fi_next i, s)
        });
     s \<leftarrow> fa_kfr q s;
     unlock_bpb bp (s\<lparr>fa_inodes := (fa_inodes s)(q := None)\<rparr>)
   }"

definition fat32_close :: "'d vfs_env \<Rightarrow> addr \<Rightarrow> 'd fat \<Rightarrow> (int \<times> 'd fat) option" where
  "fat32_close ve node s = do {
     nd \<leftarrow> fa_nodes s node;
     s \<leftarrow> (if FAT32_CHECK_DIRTY (fn_impl nd) then do {
          (_, s) \<leftarrow> store_cached ve node s;
          (_, s) \<leftarrow> update_dirent ve node s;
          Some s
        } else Some s);
     (sb, b) \<leftarrow> get_bpb (fn_fs_sb nd) s;
     s \<leftarrow> (if fn_inode nd \<noteq> 2 then close_inode (fs_private_data sb) (fn_inode nd) s else Some s);
     s \<leftarrow> fa_kfr (fn_private_data nd) s;
     Some (0, s\<lparr>fa_bufs := (fa_bufs s)(fn_private_data nd := None)\<rparr>)
   }"

subsection \<open>Names\<close>

text \<open>The entry \<open>i\<close> of the cluster of a directory that is in the cache.\<close>

definition entry_bytes :: "addr \<Rightarrow> nat \<Rightarrow> 'd fat \<Rightarrow> bytes option" where
  "entry_bytes p i s = cache_get p (int (i * sizeof_fat32_dirent)) (int sizeof_fat32_dirent) s"

definition put_name :: "int \<Rightarrow> 8 word \<Rightarrow> bytes \<Rightarrow> bytes option" where
  "put_name i c buff = (if 0 \<le> i \<and> i < int (length buff) then Some (buff[nat i := c]) else None)"

fun put_chars :: "int \<Rightarrow> bytes \<Rightarrow> bytes \<Rightarrow> bytes option" where
  "put_chars i [] buff = Some buff"
| "put_chars i (c # cs) buff = do { buff \<leftarrow> put_name i c buff; put_chars (i + 1) cs buff }"

definition evens :: "nat \<Rightarrow> bytes \<Rightarrow> bytes" where
  "evens n b = map (\<lambda>i. b ! (2 * i)) [0..<n]"

text \<open>
  The first loop copies six characters of the thirteen of an entry: the bounds of its inner loops are not cumulative. The last loop, for the entry with the end of the name, copies thirteen.
\<close>

definition dir_flush :: "'d vfs_env \<Rightarrow> addr \<Rightarrow> 'd fat \<Rightarrow> 'd fat option" where
  "dir_flush ve node s = do {
     nd \<leftarrow> fa_nodes s node;
     if FAT32_DIR_CHK_DIRTY (fn_impl nd) then do {
       (c, s) \<leftarrow> follow_cluster_chain ve (fn_fs_sb nd) (fn_inode nd) (unat (FAT32_DIR_GET_CL (fn_impl nd))) s;
       (_, s) \<leftarrow> write_cluster ve (fn_fs_sb nd) (fn_private_data nd) c s;
       (_, s) \<leftarrow> update_dirent ve node s;
       upd_node node (\<lambda>nd. nd\<lparr>fn_impl := FAT32_DIR_SET_CLEAN (fn_impl nd)\<rparr>) s
     } else Some s
   }"

definition dir_load :: "'d vfs_env \<Rightarrow> addr \<Rightarrow> 32 word \<Rightarrow> 'd fat \<Rightarrow> 'd fat option" where
  "dir_load ve node cl s = do {
     nd \<leftarrow> fa_nodes s node;
     (c, s) \<leftarrow> follow_cluster_chain ve (fn_fs_sb nd) (fn_inode nd) (unat cl) s;
     (_, s) \<leftarrow> read_cluster ve (fn_fs_sb nd) (fn_private_data nd) c s;
     Some s
   }"

partial_function (option) long_name_loop ::
  "'d vfs_env \<Rightarrow> addr \<Rightarrow> addr \<Rightarrow> nat \<Rightarrow> nat \<Rightarrow> 32 word \<Rightarrow> bytes \<Rightarrow> 'd fat \<Rightarrow> ((nat \<times> 32 word \<times> bytes) \<times> 'd fat) option" where
  "long_name_loop ve node p cs entry cluster_old buff s = do {
     e \<leftarrow> entry_bytes p entry s;
     let ln = long_name_of e;
     if ln_seq ln AND FAT32_LAST_LONG \<noteq> 0 then Some ((entry, cluster_old, buff), s)
     else do {
       let i = (uint (ln_seq ln) - 1) * 13;
       buff \<leftarrow> put_chars i (evens 5 (ln_name0 ln)) buff;
       buff \<leftarrow> put_chars (i + 5) (evens 1 (ln_name1 ln)) buff;
       if entry = 0 then do {
         nd \<leftarrow> fa_nodes s node;
         let cluster_old = (if cluster_old = 0 then FAT32_DIR_GET_CL (fn_impl nd) else cluster_old);
         s \<leftarrow> dir_flush ve node s;
         s \<leftarrow> upd_node node (\<lambda>nd. nd\<lparr>fn_impl := FAT32_DIR_SET_CL (fn_impl nd) (FAT32_DIR_GET_CL (fn_impl nd) - 1)\<rparr>) s;
         nd \<leftarrow> fa_nodes s node;
         s \<leftarrow> dir_load ve node (FAT32_DIR_GET_CL (fn_impl nd)) s;
         long_name_loop ve node p cs (sub32 (sub32 (cs div sizeof_fat32_dirent) 1) 1) cluster_old buff s
       }
       else long_name_loop ve node p cs (entry - 1) cluster_old buff s
     }
   }"

definition long_name :: "'d vfs_env \<Rightarrow> addr \<Rightarrow> addr \<Rightarrow> nat \<Rightarrow> nat \<Rightarrow> bytes \<Rightarrow> 'd fat \<Rightarrow> (bytes \<times> 'd fat) option" where
  "long_name ve node p cs entry buff s = do {
     ((entry, cluster_old, buff), s) \<leftarrow> long_name_loop ve node p cs entry 0 buff s;
     e \<leftarrow> entry_bytes p entry s;
     let ln = long_name_of e;
     let i = (uint (ln_seq ln AND NOT FAT32_LAST_LONG) - 1) * 13;
     buff \<leftarrow> put_chars i (evens 5 (ln_name0 ln)) buff;
     buff \<leftarrow> put_chars (i + 5) (evens 6 (ln_name1 ln)) buff;
     buff \<leftarrow> put_chars (i + 11) (evens 2 (ln_name2 ln)) buff;
     if cluster_old \<noteq> 0 then do {
       s \<leftarrow> upd_node node (\<lambda>nd. nd\<lparr>fn_impl := FAT32_DIR_SET_CL (fn_impl nd) cluster_old\<rparr>) s;
       s \<leftarrow> dir_load ve node cluster_old s;
       Some (buff, s)
     } else Some (buff, s)
   }"

text \<open>The name of eight characters and three.\<close>

definition short_name :: "fat32_dirent \<Rightarrow> bytes" where
  "short_name d =
    (if de_attr d AND FAT32_HIDDEN \<noteq> 0 then [0x2E] else [])
    @ takeWhile (\<lambda>c. c \<noteq> 0x20) (take 8 (de_name_short d))
    @ (if de_name_short d ! 8 \<noteq> 0x20 then 0x2E # takeWhile (\<lambda>c. c \<noteq> 0x20) (drop 8 (de_name_short d)) else [])
    @ [0]"

definition get_name :: "'d vfs_env \<Rightarrow> addr \<Rightarrow> nat \<Rightarrow> bytes \<Rightarrow> 'd fat \<Rightarrow> ((int \<times> bytes) \<times> 'd fat) option" where
  "get_name ve node entry buff s = do {
     nd \<leftarrow> fa_nodes s node;
     (sb, b) \<leftarrow> get_bpb (fn_fs_sb nd) s;
     let p = fn_private_data nd;
     e \<leftarrow> entry_bytes p (sub32 entry 1) s;
     if ln_attr (long_name_of e) = FAT32_LONG_NAME then do {
       (buff, s) \<leftarrow> long_name ve node p (cluster_size b) (sub32 entry 1) buff s;
       Some ((0, buff), s)
     } else do {
       e \<leftarrow> entry_bytes p entry s;
       buff \<leftarrow> put_chars 0 (short_name (dirent_of e)) buff;
       Some ((0, buff), s)
     }
   }"

subsection \<open>Directories\<close>

partial_function (option) find_ent_loop :: "'d vfs_env \<Rightarrow> addr \<Rightarrow> addr \<Rightarrow> nat \<Rightarrow> nat \<Rightarrow> nat \<Rightarrow> nat \<Rightarrow> 'd fat \<Rightarrow> (int \<times> 'd fat) option" where
  "find_ent_loop ve node p cs index i offset s = do {
     ((index, i, offset), s) \<leftarrow> (if mul32 offset sizeof_fat32_dirent > cs then do {
          s \<leftarrow> dir_flush ve node s;
          s \<leftarrow> upd_node node (\<lambda>nd. nd\<lparr>fn_impl := FAT32_DIR_SET_CL (fn_impl nd) (FAT32_DIR_GET_CL (fn_impl nd) + 1)\<rparr>) s;
          nd \<leftarrow> fa_nodes s node;
          s \<leftarrow> dir_load ve node (FAT32_DIR_GET_CL (fn_impl nd)) s;
          s \<leftarrow> upd_node node (\<lambda>nd. nd\<lparr>fn_impl := FAT32_DIR_SET_ENT (fn_impl nd) (FAT32_DIR_GET_ENT (fn_impl nd) + of_nat i)\<rparr>) s;
          Some ((sub32 index i, 0, 0), s)
        } else Some ((index, i, offset), s));
     e \<leftarrow> entry_bytes p offset s;
     let d = dirent_of e;
     let valid = (de_attr d \<noteq> FAT32_LONG_NAME \<and> de_name_short d ! 0 \<noteq> FAT32_RESERVED \<and> de_attr d AND NOT FAT32_VOL_ID \<noteq> 0);
     if valid \<and> i = index then Some (int offset, s)
     else if de_name_short d ! 0 = FAT32_END_DIR then Some (- 1, s)
     else find_ent_loop ve node p cs index (if valid then add32 i 1 else i) (offset + 1) s
   }"

definition find_file_ent :: "'d vfs_env \<Rightarrow> addr \<Rightarrow> nat \<Rightarrow> nat \<Rightarrow> 'd fat \<Rightarrow> (int \<times> 'd fat) option" where
  "find_file_ent ve node index offset s = do {
     nd \<leftarrow> fa_nodes s node;
     (sb, b) \<leftarrow> get_bpb (fn_fs_sb nd) s;
     find_ent_loop ve node (fn_private_data nd) (cluster_size b) (sub32 index (unat (FAT32_DIR_GET_ENT (fn_impl nd)))) 0 offset s
   }"

definition first_cluster_of :: "fat32_dirent \<Rightarrow> nat" where
  "first_cluster_of d = de_cluster_high d * 2 ^ 16 + de_cluster_low d"

definition fat32_readdir :: "'d vfs_env \<Rightarrow> addr \<Rightarrow> nat \<Rightarrow> bytes \<Rightarrow> 'd fat \<Rightarrow> ((int \<times> nat \<times> bytes) \<times> 'd fat) option" where
  "fat32_readdir ve node index d_name s = do {
     nd \<leftarrow> fa_nodes s node;
     (i, s) \<leftarrow> find_file_ent ve node index 0 s;
     if i < 0 then Some ((i, 0, d_name), s)
     else do {
       e \<leftarrow> entry_bytes (fn_private_data nd) (nat i) s;
       ((_, d_name), s) \<leftarrow> get_name ve node (nat i) d_name s;
       Some ((0, first_cluster_of (dirent_of e), d_name), s)
     }
   }"

partial_function (option) find_name :: "'d vfs_env \<Rightarrow> addr \<Rightarrow> bytes \<Rightarrow> nat \<Rightarrow> bytes \<Rightarrow> 'd fat \<Rightarrow> ((int \<times> bytes) \<times> 'd fat) option" where
  "find_name ve node nm start buff s = do {
     (offset, s) \<leftarrow> find_file_ent ve node 0 start s;
     if offset < 0 then Some ((offset, buff), s)
     else do {
       ((_, buff), s) \<leftarrow> get_name ve node (nat offset) buff s;
       r \<leftarrow> strcmp buff (c_mem nm);
       if r = 0 then Some ((offset, buff), s) else find_name ve node nm (nat offset + 1) buff s
     }
   }"

definition fat32_finddir :: "'d vfs_env \<Rightarrow> fat_node \<Rightarrow> addr \<Rightarrow> bytes \<Rightarrow> 'd fat \<Rightarrow> (addr \<times> 'd fat) option" where
  "fat32_finddir ve junk node nm s = do {
     nd0 \<leftarrow> fa_nodes s node;
     (ret, s) \<leftarrow> fa_kma (ve_sizeof_fs_node ve) s;
     if ret = NULL then Some (NULL, s)
     else do {
       ((offset, buff), s) \<leftarrow> find_name ve node nm 0 (fn_name junk) s;
       if offset < 0 then do { s \<leftarrow> fa_kfr ret s; Some (NULL, s) }
       else do {
         e \<leftarrow> entry_bytes (fn_private_data nd0) (nat offset) s;
         let d = dirent_of e;
         nd \<leftarrow> fa_nodes s node;
         sb \<leftarrow> fa_sbs s (fn_fs_sb nd);
         let mask = (if de_attr d AND FAT32_RDONLY = 0 \<or> fs_flags sb AND FAT_O_RDONLY = 0 then EXEC_BITS OR READ_BITS OR WRITE_BITS else EXEC_BITS OR READ_BITS);
         let new = junk\<lparr>fn_name := buff, fn_mask := mask, fn_flags := fat32_attr_to_vfs (de_attr d), fn_inode := first_cluster_of d, fn_len := int (de_size d),
                        fn_fs_sb := fn_fs_sb nd, fn_uid := fn_inode nd, fn_impl := push_bit 16 (word_of_int offset) OR FAT32_DIR_GET_CL (fn_impl nd)\<rparr>;
         Some (ret, s\<lparr>fa_nodes := (fa_nodes s)(ret \<mapsto> new)\<rparr>)
       }
     }
   }"

subsection \<open>Attributes\<close>

text \<open>Times of an entry: the fields of a date and a time as the driver reads them.\<close>

definition entry_time :: "nat \<Rightarrow> nat \<Rightarrow> nat option" where
  "entry_time date t = mktime \<lparr>tm_sec = int (t mod 2 ^ 5), tm_min = int (t div 2 ^ 5 mod 2 ^ 6), tm_hour = int (t div 2 ^ 11), tm_mday = int (date mod 2 ^ 5),
     tm_mon = int (date div 2 ^ 5 mod 2 ^ 6) - 1, tm_year = int (date div 2 ^ 9) + 80, tm_wday = 0, tm_yday = 0, tm_isdst = 0\<rparr>"

definition fat32_stat :: "'d vfs_env \<Rightarrow> addr \<Rightarrow> 'd fat \<Rightarrow> ((int \<times> fat_stat) \<times> 'd fat) option" where
  "fat32_stat ve node s = do {
     nd \<leftarrow> fa_nodes s node;
     (sb, b) \<leftarrow> get_bpb (fn_fs_sb nd) s;
     let st = \<lparr>fst_dev = ve_get_dev ve (fs_dev sb), fst_ino = fn_inode nd, fst_mode = fn_mask nd, fst_nlink = 1, fst_uid = fn_uid nd, fst_gid = fn_gid nd,
               fst_size = fn_len nd, fst_blksize = cluster_size b, fst_blocks = (fn_len nd div 512) mod int two32, fst_times = None\<rparr>;
     if fn_inode nd \<noteq> 2 then do {
       ASSERT (br_inode_list b \<noteq> NULL);
       i \<leftarrow> find_open (fn_inode nd) (br_inode_list b) s;
       (p, s) \<leftarrow> fa_kma sizeof_fat32_dirent s;
       if p = NULL then Some ((- 1, st), s)
       else do {
         ((_, e), s) \<leftarrow> dev_read ve (fs_dev sb) (heap_bytes p sizeof_fat32_dirent s) sizeof_fat32_dirent (fi_disk_off i) s;
         let d = dirent_of e;
         at \<leftarrow> entry_time (de_last_access d) 0;
         mt \<leftarrow> entry_time (de_mod_date d) (de_mod_time d);
         ct \<leftarrow> entry_time (de_create_date d) (de_create_time d);
         Some ((0, st\<lparr>fst_times := Some (at, mt, ct)\<rparr>), s)
       }
     } else Some ((0, st), s)
   }"

subsection \<open>Mounting\<close>

text \<open>The function that registers a file system is an argument.\<close>

definition init_fat32 :: "(bytes \<Rightarrow> 's \<Rightarrow> 's) \<Rightarrow> 's \<Rightarrow> 's" where
  "init_fat32 register_fs s = register_fs [0x66, 0x61, 0x74, 0x33, 0x32] s"

definition fat32_return_sb :: "'d vfs_env \<Rightarrow> fat_node \<Rightarrow> 32 word \<Rightarrow> addr \<Rightarrow> 'd fat \<Rightarrow> (addr \<times> 'd fat) option" where
  "fat32_return_sb ve junk flags dev s = do {
     (p, s) \<leftarrow> fa_kma sizeof_fat32_boot_record s;
     if p = NULL then Some (NULL, s)
     else do {
       ((r, e), s) \<leftarrow> dev_read ve dev (heap_bytes p sizeof_fat32_boot_record s) sizeof_fat32_boot_record 0 s;
       if r < int sizeof_fat32_boot_record then do { s \<leftarrow> fa_kfr p s; Some (NULL, s) }
       else do {
         let b = boot_record_of e;
         if br_sig b \<noteq> 0x28 \<and> br_sig b \<noteq> 0x29 then do { s \<leftarrow> fa_kfr p s; Some (NULL, s) }
         else do {
           let s = s\<lparr>fa_bpbs := (fa_bpbs s)(p \<mapsto> b\<lparr>br_inode_list := NULL, br_lock := False\<rparr>)\<rparr>;
           (root, s) \<leftarrow> fa_kma (ve_sizeof_fs_node ve) s;
           if root = NULL then do { s \<leftarrow> fa_kfr p s; Some (NULL, s\<lparr>fa_bpbs := (fa_bpbs s)(p := None)\<rparr>) }
           else do {
             let mask = (if flags AND FAT_O_RDONLY = 0 then EXEC_BITS OR READ_BITS OR WRITE_BITS else EXEC_BITS OR READ_BITS);
             (ret, s) \<leftarrow> fa_kma (ve_sizeof_superblock ve) s;
             if ret = NULL then do {
               s \<leftarrow> fa_kfr root s;
               s \<leftarrow> fa_kfr p s;
               Some (NULL, s\<lparr>fa_bpbs := (fa_bpbs s)(p := None)\<rparr>)
             } else do {
               let nd = junk\<lparr>fn_mask := mask, fn_uid := 0, fn_gid := 0, fn_flags := fat32_attr_to_vfs FAT32_DIR, fn_inode := br_root_cluster b, fn_fs_sb := ret\<rparr>;
               let sb = \<lparr>fs_dev = dev, fs_private_data = p, fs_root = root, fs_flags = flags\<rparr>;
               Some (ret, s\<lparr>fa_nodes := (fa_nodes s)(root \<mapsto> nd), fa_sbs := (fa_sbs s)(ret \<mapsto> sb)\<rparr>)
             }
           }
         }
       }
     }
   }"

end
