(* ===== verification/Fat32_Spec.thy ===== *)
theory Fat32_Spec
  imports Fat32
begin

section \<open>Properties of the FAT32 file system\<close>

text \<open>
  The file allocation table as a function, the chain of clusters of a file, and what \<^verbatim>\<open>read\<close> returns, for a device whose bytes are \<open>D\<close>. The driver allocates memory for a copy of the table for every cluster
  it looks up and releases it again; a heap where that does not go well any number of times is \<open>heap_stuck\<close>.
\<close>

subsection \<open>The heap\<close>

fun heap_cycles :: "nat \<Rightarrow> nat \<Rightarrow> liballoc \<Rightarrow> bool" where
  "heap_cycles n 0 h \<longleftrightarrow> True"
| "heap_cycles n (Suc k) h \<longleftrightarrow> (case kmalloc n h of None \<Rightarrow> False | Some (p, h) \<Rightarrow> (case kfree p h of None \<Rightarrow> False | Some h \<Rightarrow> heap_cycles n k h))"

definition heap_stuck :: "nat \<Rightarrow> liballoc \<Rightarrow> bool" where
  "heap_stuck n h \<longleftrightarrow> (\<exists>k. \<not> heap_cycles n k h)"

lemma heap_stuck_kmalloc: "kmalloc n h = None \<Longrightarrow> heap_stuck n h"
  by (auto simp: heap_stuck_def intro!: exI [of _ 1])

lemma heap_stuck_kfree: "kmalloc n h = Some (p, h1) \<Longrightarrow> kfree p h1 = None \<Longrightarrow> heap_stuck n h"
  by (auto simp: heap_stuck_def intro!: exI [of _ 1])

lemma heap_stuck_next:
  assumes "kmalloc n h = Some (p, h1)" "kfree p h1 = Some h2" "heap_stuck n h2"
  shows "heap_stuck n h"
proof -
  from assms(3) obtain k where "\<not> heap_cycles n k h2" by (auto simp: heap_stuck_def)
  then have "\<not> heap_cycles n (Suc k) h" using assms(1,2) by simp
  then show ?thesis unfolding heap_stuck_def by blast
qed

lemma heap_cycle_live:
  assumes "kmalloc_live h L" "n \<le> heap_limit" "kmalloc n h = Some (p, h1)" "kfree p h1 = Some h2"
  shows "kmalloc_live h2 L" "p \<noteq> NULL"
proof -
  note p = heap.malloc_new [OF assms(1-3)] heap.malloc_live [OF assms(1-3)]
  have "(L(p \<mapsto> n))(p := None) = L" using p(1) by auto
  then show "kmalloc_live h2 L" using heap.free_live [OF p(2) _ assms(4)] by simp
  show "p \<noteq> NULL" using p(1) by simp
qed

subsection \<open>The chain of clusters\<close>

text \<open>The device returns its bytes; the entries of the table in them; the cluster \<open>d\<close> steps after \<open>c\<close>, 0 if the chain ends before.\<close>

definition disk_reads :: "'d vfs_env \<Rightarrow> addr \<Rightarrow> (nat \<Rightarrow> 8 word) \<Rightarrow> bool" where
  "disk_reads ve dev D \<longleftrightarrow> (\<forall>n off d. ve_read_vfs ve dev n (int off) d = Some ((int n, map D [off..<off + n]), d))"

definition fat_entry :: "(nat \<Rightarrow> 8 word) \<Rightarrow> fat32_boot_record \<Rightarrow> nat \<Rightarrow> nat" where
  "fat_entry D b c = le32 D (br_nres b * br_bps b + 4 * c) mod 2 ^ 28"

definition end_mark :: "nat \<Rightarrow> bool" where
  "end_mark c \<longleftrightarrow> c = 0 \<or> c \<ge> FAT32_LAST_CLUSTER"

fun chain :: "(nat \<Rightarrow> nat) \<Rightarrow> nat \<Rightarrow> nat \<Rightarrow> nat" where
  "chain F c 0 = c"
| "chain F c (Suc d) = (if end_mark (F c) then 0 else chain F (F c) d)"

text \<open>A table of \<open>N\<close> entries whose links stay inside, and a boot record that fits it.\<close>

definition fat_ok :: "(nat \<Rightarrow> 8 word) \<Rightarrow> fat32_boot_record \<Rightarrow> bool" where
  "fat_ok D b \<longleftrightarrow> 0 < fat_size b div 4 \<and> fat_size b = br_spf b * br_bps b \<and> fat_size b \<le> heap_limit \<and> br_nres b * br_bps b < two32
     \<and> (\<forall>c < fat_size b div 4. end_mark (fat_entry D b c) \<or> fat_entry D b c < fat_size b div 4)"

lemma dev_read_disk:
  assumes "disk_reads ve dev D" "length buf = n"
  shows "dev_read ve dev buf n (int off) s = Some ((int n, map D [off..<off + n]), s)"
  using assms by (simp add: dev_read_def disk_reads_def)

lemma fat_get_disk:
  assumes "4 * i + 4 \<le> n"
  shows "fat_get (map D [o'..<o' + n]) i = Some (le32 D (o' + 4 * i))"
  using assms by (simp add: fat_get_def le32_def le16_def add.assoc)

lemma chain_loop_chain:
  assumes "fat_ok D b" "i < fat_size b div 4"
  shows "chain_loop ve dev (fat_size b) d i 0 off (map D [br_nres b * br_bps b..<br_nres b * br_bps b + fat_size b]) s = Some (chain (fat_entry D b) i d, s)"
  using assms(2)
proof (induction d arbitrary: i)
  case 0
  have "i < two32" using 0 assms(1) by (auto simp: fat_ok_def heap_limit_def two32_def)
  then show ?case by (simp add: add32_def)
next
  case (Suc d)
  let ?e = "fat_entry D b i"
  have "?e < two32" by (simp add: fat_entry_def two32_def)
  then have e: "sub32 ?e 0 = ?e" "add32 ?e 0 = ?e" by (simp_all add: sub32_def add32_def)
  have g: "fat_get (map D [br_nres b * br_bps b..<br_nres b * br_bps b + fat_size b]) i = Some (le32 D (br_nres b * br_bps b + 4 * i))"
    using Suc.prems by (intro fat_get_disk) simp
  have w: "le32 D (br_nres b * br_bps b + 4 * i) mod 268435456 = ?e" by (simp add: fat_entry_def)
  show ?case
  proof (cases "end_mark ?e")
    case True
    then show ?thesis using e by (simp add: g w end_mark_def Let_def)
  next
    case False
    then have l: "?e < fat_size b div 4" using assms(1) Suc.prems by (auto simp: fat_ok_def)
    then have "\<not> mul32 ?e 4 > fat_size b" using assms(1) by (simp add: mul32_def fat_ok_def heap_limit_def two32_def)
    then show ?thesis using e False Suc.IH [OF l] by (simp add: g w end_mark_def Let_def)
  qed
qed

text \<open>One look-up: the heap before and after, and the cluster.\<close>

lemma follow_chain:
  assumes "get_bpb sbp s = Some (sb, b)" "disk_reads ve (fs_dev sb) D" "fat_ok D b" "c < fat_size b div 4" "c < 2 ^ 28" "kmalloc_live (fa_heap s) L"
  shows "case follow_cluster_chain ve sbp c d s of
      None \<Rightarrow> heap_stuck (fat_size b) (fa_heap s)
    | Some (c', s') \<Rightarrow> c' = chain (fat_entry D b) c d \<and> (\<exists>h. s' = s\<lparr>fa_heap := h\<rparr> \<and> kmalloc_live h L \<and> (heap_stuck (fat_size b) h \<longrightarrow> heap_stuck (fat_size b) (fa_heap s)))"
proof (cases d)
  case 0
  then show ?thesis using assms(6) by (auto simp: follow_cluster_chain_def intro!: exI [of _ "fa_heap s"])
next
  case (Suc d')
  let ?n = "fat_size b"
  have n: "0 < ?n div 4" "?n \<le> heap_limit" "br_nres b * br_bps b < two32" "?n < two32" using assms(3) by (auto simp: fat_ok_def heap_limit_def two32_def)
  have "0 < br_bps b" using n(1) assms(3) by (cases "br_bps b") (simp_all add: fat_ok_def)
  then have "br_nres b < two32" using n(3) by (metis le_less_trans mult.right_neutral mult_le_mono2 Suc_leI One_nat_def)
  have off: "fat_off b c = Some (int (br_nres b * br_bps b))"
    using n \<open>br_nres b < two32\<close> assms(4) by (simp add: fat_off_def mul32_def add32_def)
  show ?thesis
  proof (cases "kmalloc ?n (fa_heap s)")
    case None
    then show ?thesis using Suc assms(1) heap_stuck_kmalloc by (simp add: follow_cluster_chain_def fa_kma_def)
  next
    case (Some ph)
    obtain p h where "ph = (p, h)" by (cases ph)
    note k = Some [unfolded this]
    have "p \<noteq> NULL" using heap.malloc_new [OF assms(6) n(2) k] by simp
    then have run: "follow_cluster_chain ve sbp c d s = do { s \<leftarrow> fa_kfr p (s\<lparr>fa_heap := h\<rparr>); Some (chain (fat_entry D b) c d, s) }"
      using Suc assms(1,4,5) k off dev_read_disk [OF assms(2), of _ ?n "br_nres b * br_bps b"]
      by (simp add: chain_loop_chain [OF assms(3,4)] follow_cluster_chain_def fa_kma_def heap_bytes_def Let_def del: chain_loop.simps chain.simps)
    show ?thesis
    proof (cases "kfree p h")
      case None
      then show ?thesis using run heap_stuck_kfree [OF k None] by (simp add: fa_kfr_def)
    next
      case (Some h')
      then show ?thesis using run heap_cycle_live [OF assms(6) n(2) k Some] heap_stuck_next [OF k Some] by (auto simp: fa_kfr_def)
    qed
  qed
qed

subsection \<open>The cached cluster\<close>

text \<open>The bytes of a cluster, and the byte \<open>j\<close> of a file that starts in cluster \<open>c\<close>.\<close>

definition cluster_bytes :: "(nat \<Rightarrow> 8 word) \<Rightarrow> fat32_boot_record \<Rightarrow> nat \<Rightarrow> bytes" where
  "cluster_bytes D b c = map D [cluster_off b c..<cluster_off b c + cluster_size b]"

definition file_byte :: "(nat \<Rightarrow> 8 word) \<Rightarrow> fat32_boot_record \<Rightarrow> nat \<Rightarrow> nat \<Rightarrow> 8 word" where
  "file_byte D b c j = D (cluster_off b (chain (fat_entry D b) c (j div cluster_size b)) + j mod cluster_size b)"

text \<open>
  An open file with the number of the cached cluster \<open>k\<close>. The number is kept in 28 bits of \<open>impl\<close> and nothing has been written to the cache. What stays the same while the file is read is \<open>reading\<close>; \<open>cached\<close> adds that the cache holds
  the bytes of that cluster, if the file has one.
\<close>

definition reading :: "'d vfs_env \<Rightarrow> (nat \<Rightarrow> 8 word) \<Rightarrow> (addr \<rightharpoonup> nat) \<Rightarrow> fat32_boot_record \<Rightarrow> fat_node \<Rightarrow> addr \<Rightarrow> nat \<Rightarrow> 'd fat \<Rightarrow> bool" where
  "reading ve D L b nd node k s \<longleftrightarrow> (\<exists>sb buf. fa_nodes s node = Some (nd\<lparr>fn_impl := of_nat k\<rparr>) \<and> get_bpb (fn_fs_sb nd) s = Some (sb, b)
     \<and> disk_reads ve (fs_dev sb) D \<and> kmalloc_live (fa_heap s) L \<and> fa_bufs s (fn_private_data nd) = Some buf \<and> length buf = cluster_size b) \<and> k < 2 ^ 28"

definition cached :: "'d vfs_env \<Rightarrow> (nat \<Rightarrow> 8 word) \<Rightarrow> (addr \<rightharpoonup> nat) \<Rightarrow> fat32_boot_record \<Rightarrow> fat_node \<Rightarrow> addr \<Rightarrow> nat \<Rightarrow> 'd fat \<Rightarrow> bool" where
  "cached ve D L b nd node k s \<longleftrightarrow> reading ve D L b nd node k s
     \<and> (chain (fat_entry D b) (fn_inode nd) k \<noteq> 0 \<longrightarrow> fa_bufs s (fn_private_data nd) = Some (cluster_bytes D b (chain (fat_entry D b) (fn_inode nd) k)))"

definition inode_ok :: "(nat \<Rightarrow> 8 word) \<Rightarrow> fat32_boot_record \<Rightarrow> fat_node \<Rightarrow> bool" where
  "inode_ok D b nd \<longleftrightarrow> fat_ok D b \<and> fn_inode nd < fat_size b div 4 \<and> fn_inode nd < 2 ^ 28"

lemma impl_number:
  assumes "k < 2 ^ 28"
  shows "FAT32_CLUSTER_NUM (of_nat k) = k" "\<not> FAT32_CHECK_DIRTY (of_nat k)"
proof -
  have u: "unat (of_nat k :: 32 word) = k" using assms by (simp add: unat_of_nat)
  have "(0x0FFFFFFF :: 32 word) = mask 28" by (simp add: mask_eq_exp_minus_1)
  then have "FAT32_CLUSTER_NUM (of_nat k) = take_bit 28 (unat (of_nat k :: 32 word))" unfolding FAT32_CLUSTER_NUM_def by (simp only: unsigned_take_bit_eq flip: take_bit_eq_mask)
  then show "FAT32_CLUSTER_NUM (of_nat k) = k" using assms unfolding u by (simp add: take_bit_eq_mod)
  have "unat (drop_bit 28 (of_nat k :: 32 word)) = k div 2 ^ 28" unfolding unsigned_drop_bit_eq u by (simp only: drop_bit_eq_div take_bit_eq_mod) (use assms in simp)
  also have "\<dots> = 0" using assms by simp
  finally show "\<not> FAT32_CHECK_DIRTY (of_nat k)" by (simp only: FAT32_CHECK_DIRTY_def unat_eq_0 not_not)
qed

lemma reading_next:
  assumes "reading ve D L b nd node k s" "k + 1 < 2 ^ 28"
  shows "\<exists>s'. next_cluster node s = Some s' \<and> reading ve D L b nd node (k + 1) s' \<and> fa_heap s' = fa_heap s"
  using assms by (auto simp: reading_def next_cluster_def upd_node_def get_bpb_def)

lemma load_cached_reading:
  assumes "reading ve D L b nd node k s" "inode_ok D b nd"
  shows "case load_cached ve node s of
      None \<Rightarrow> heap_stuck (fat_size b) (fa_heap s)
    | Some (ok, s') \<Rightarrow> ok \<and> cached ve D L b nd node k s' \<and> (heap_stuck (fat_size b) (fa_heap s') \<longrightarrow> heap_stuck (fat_size b) (fa_heap s))"
proof -
  from assms(1) obtain sb buf where s: "fa_nodes s node = Some (nd\<lparr>fn_impl := of_nat k\<rparr>)" "get_bpb (fn_fs_sb nd) s = Some (sb, b)" "disk_reads ve (fs_dev sb) D"
    "kmalloc_live (fa_heap s) L" "fa_bufs s (fn_private_data nd) = Some buf" "length buf = cluster_size b" "k < 2 ^ 28" by (auto simp: reading_def)
  note i = assms(2) [unfolded inode_ok_def]
  from follow_chain [OF s(2,3) _ _ _ s(4), of "fn_inode nd" k] i
  show ?thesis
  proof (cases "follow_cluster_chain ve (fn_fs_sb nd) (fn_inode nd) k s")
    case None
    then show ?thesis using follow_chain [OF s(2,3) _ _ _ s(4), of "fn_inode nd" k] i s(1) impl_number(1) [OF s(7)] by (simp add: load_cached_def)
  next
    case (Some r)
    then obtain h where r: "follow_cluster_chain ve (fn_fs_sb nd) (fn_inode nd) k s = Some (chain (fat_entry D b) (fn_inode nd) k, s\<lparr>fa_heap := h\<rparr>)" "kmalloc_live h L"
      "heap_stuck (fat_size b) h \<longrightarrow> heap_stuck (fat_size b) (fa_heap s)"
      using follow_chain [OF s(2,3) _ _ _ s(4), of "fn_inode nd" k] i by (cases r) auto
    have g: "get_bpb (fn_fs_sb nd) (s\<lparr>fa_heap := h\<rparr>) = Some (sb, b)" using s(2) by (simp add: get_bpb_def)
    let ?c = "chain (fat_entry D b) (fn_inode nd) k"
    let ?s = "s\<lparr>fa_heap := h, fa_bufs := (fa_bufs s)(fn_private_data nd \<mapsto> cluster_bytes D b (if ?c = 0 then 2 else ?c))\<rparr>"
    have run: "load_cached ve node s = Some (True, ?s)"
      using s(1,5) r(1) g dev_read_disk [OF s(3,6)] impl_number(1) [OF s(7)] by (simp add: load_cached_def read_cluster_def cluster_bytes_def Let_def)
    have "cached ve D L b nd node k ?s" using s r(2) by (auto simp: cached_def reading_def get_bpb_def cluster_bytes_def)
    with run r(3) show ?thesis by simp
  qed
qed

lemma cache_get_cached:
  assumes "cached ve D L b nd node k s" "m = 0 \<or> chain (fat_entry D b) (fn_inode nd) k \<noteq> 0" "i + m \<le> cluster_size b"
  shows "cache_get (fn_private_data nd) (int i) (int m) s = Some (map (file_byte D b (fn_inode nd)) [k * cluster_size b + i..<k * cluster_size b + i + m])"
proof (cases "m = 0")
  case True
  then show ?thesis using assms by (auto simp: cached_def reading_def cache_get_def)
next
  case False
  let ?cs = "cluster_size b" and ?c = "chain (fat_entry D b) (fn_inode nd) k"
  have "(k * ?cs + i + j) div ?cs = k" "(k * ?cs + i + j) mod ?cs = i + j" if "j < m" for j
    using that assms(3) by (simp_all add: add.assoc)
  then have "take m (drop i (cluster_bytes D b ?c)) = map (file_byte D b (fn_inode nd)) [k * ?cs + i..<k * ?cs + i + m]"
    using assms(3) False by (intro nth_equalityI) (simp_all add: cluster_bytes_def file_byte_def)
  then show ?thesis using assms False by (auto simp: cached_def cache_get_def cluster_bytes_def)
qed

lemma read_loop_cached:
  assumes "cached ve D L b nd node k s" "inode_ok D b nd" "r < cluster_size b" "\<And>j. k \<le> j \<Longrightarrow> j < k + q \<Longrightarrow> chain (fat_entry D b) (fn_inode nd) j \<noteq> 0" "k + q < 2 ^ 28"
  shows "case read_loop ve node (fn_private_data nd) (cluster_size b) (int (q * cluster_size b + r)) acc s of
      None \<Rightarrow> heap_stuck (fat_size b) (fa_heap s)
    | Some ((ok, c, acc'), s') \<Rightarrow> ok \<and> c = int r \<and> acc' = acc @ map (file_byte D b (fn_inode nd)) [k * cluster_size b..<(k + q) * cluster_size b]
        \<and> cached ve D L b nd node (k + q) s' \<and> (heap_stuck (fat_size b) (fa_heap s') \<longrightarrow> heap_stuck (fat_size b) (fa_heap s))"
  using assms(1,4,5)
proof (induction q arbitrary: k s acc)
  case 0
  then show ?case using assms(3) by (subst read_loop.simps) simp
next
  case (Suc q)
  let ?cs = "cluster_size b" and ?f = "file_byte D b (fn_inode nd)"
  have bs: "cache_get (fn_private_data nd) 0 (int ?cs) s = Some (map ?f [k * ?cs..<k * ?cs + ?cs])"
    using cache_get_cached [OF Suc.prems(1), of ?cs 0] Suc.prems(2) [of k] by simp
  obtain s1 where s1: "next_cluster node s = Some s1" "reading ve D L b nd node (k + 1) s1" "fa_heap s1 = fa_heap s"
    using reading_next [of ve D L b nd node k s] Suc.prems(1,3) by (auto simp: cached_def)
  have more: "int (Suc q * ?cs + r) \<ge> int ?cs" "int (Suc q * ?cs + r) - int ?cs = int (q * ?cs + r)" by simp_all
  have step: "read_loop ve node (fn_private_data nd) ?cs (int (Suc q * ?cs + r)) acc s = do { (ok, s) \<leftarrow> load_cached ve node s1;
      if ok then read_loop ve node (fn_private_data nd) ?cs (int (q * ?cs + r)) (acc @ map ?f [k * ?cs..<k * ?cs + ?cs]) s else Some ((False, 0, acc @ map ?f [k * ?cs..<k * ?cs + ?cs]), s) }"
    using bs s1(1) more by (subst read_loop.simps) (simp only: if_True bind.bind_lunit)
  note load = load_cached_reading [OF s1(2) assms(2)]
  show ?case
  proof (cases "load_cached ve node s1")
    case None
    then show ?thesis using load s1(3) unfolding step by simp
  next
    case (Some t)
    then obtain s2 where s2: "load_cached ve node s1 = Some (True, s2)" "cached ve D L b nd node (k + 1) s2" "heap_stuck (fat_size b) (fa_heap s2) \<longrightarrow> heap_stuck (fat_size b) (fa_heap s)"
      using load s1(3) by (cases t) auto
    have "map ?f [k * ?cs..<k * ?cs + ?cs] @ map ?f [(k + 1) * ?cs..<(k + 1 + q) * ?cs] = map ?f [k * ?cs..<(k + Suc q) * ?cs]"
      using upt_add_eq_append [of "k * ?cs" "k * ?cs + ?cs" "q * ?cs"] by (simp add: algebra_simps flip: map_append)
    with Suc.IH [OF s2(2), of "acc @ map ?f [k * ?cs..<k * ?cs + ?cs]"] Suc.prems(2,3) s2(3) show ?thesis unfolding step s2(1)
      by (auto split: option.splits)
  qed
qed

lemma seek_cluster_cached:
  assumes "cached ve D L b nd node k s" "inode_ok D b nd" "0 < cluster_size b" "off div cluster_size b < 2 ^ 28"
  shows "case seek_cluster ve node (int off) (cluster_size b) s of
      None \<Rightarrow> heap_stuck (fat_size b) (fa_heap s)
    | Some (ok, s') \<Rightarrow> ok \<and> cached ve D L b nd node (off div cluster_size b) s' \<and> (heap_stuck (fat_size b) (fa_heap s') \<longrightarrow> heap_stuck (fat_size b) (fa_heap s))"
proof -
  let ?k = "off div cluster_size b"
  have n: "fa_nodes s node = Some (nd\<lparr>fn_impl := of_nat k\<rparr>)" "k < 2 ^ 28" using assms(1) by (auto simp: cached_def reading_def)
  have d: "int off sdiv int (cluster_size b) = int ?k" using assms(3) by (simp add: sdiv_nonneg zdiv_int)
  show ?thesis
  proof (cases "?k = k")
    case True
    then show ?thesis using assms(1,3) n d impl_number [OF n(2)] by (simp add: seek_cluster_def)
  next
    case False
    let ?s = "s\<lparr>fa_nodes := (fa_nodes s)(node \<mapsto> nd\<lparr>fn_impl := of_nat ?k\<rparr>)\<rparr>"
    have "reading ve D L b nd node ?k ?s" using assms(1,4) by (auto simp: cached_def reading_def get_bpb_def)
    from load_cached_reading [OF this assms(2)] False show ?thesis using assms(3) n d impl_number [OF n(2)] by (auto simp: seek_cluster_def upd_node_def split: option.splits)
  qed
qed

text \<open>The end of \<^verbatim>\<open>read\<close>, from the loop on, with \<open>m\<close> bytes left to read from the start of a cluster.\<close>

definition read_tail :: "'d vfs_env \<Rightarrow> addr \<Rightarrow> addr \<Rightarrow> nat \<Rightarrow> int \<Rightarrow> int \<Rightarrow> bytes \<Rightarrow> 'd fat \<Rightarrow> ((int \<times> bytes) \<times> 'd fat) option" where
  "read_tail ve node p cs off count acc s = do {
     ((ok, count, acc), s) \<leftarrow> read_loop ve node p cs count acc s;
     if \<not> ok then Some ((int (length acc), acc), s)
     else do {
       bs \<leftarrow> cache_get p off count s;
       Some ((int (length acc) + count, acc @ bs), s)
     }
   }"

lemma read_tail_cached:
  assumes "cached ve D L b nd node k s" "inode_ok D b nd" "512 \<le> cluster_size b" "k * cluster_size b + m \<le> len" "len < two32"
    and "\<And>j. j * cluster_size b < len \<Longrightarrow> chain (fat_entry D b) (fn_inode nd) j \<noteq> 0"
  shows "case read_tail ve node (fn_private_data nd) (cluster_size b) 0 (int m) acc s of
      None \<Rightarrow> heap_stuck (fat_size b) (fa_heap s)
    | Some ((r, bs), s') \<Rightarrow> r = int (length acc + m) \<and> bs = acc @ map (file_byte D b (fn_inode nd)) [k * cluster_size b..<k * cluster_size b + m] \<and> (\<exists>k'. cached ve D L b nd node k' s')"
proof -
  let ?cs = "cluster_size b" and ?f = "file_byte D b (fn_inode nd)" and ?p = "fn_private_data nd"
  define q r where "q = m div ?cs" and "r = m mod ?cs"
  have m: "m = q * ?cs + r" "r < ?cs" using assms(3) by (simp_all add: q_def r_def)
  have le: "(k + q) * ?cs + r \<le> len" using assms(4) m(1) by (simp add: algebra_simps)
  have ch: "chain (fat_entry D b) (fn_inode nd) j \<noteq> 0" if "j < k + q" for j
  proof (rule assms(6))
    have "Suc j * ?cs \<le> (k + q) * ?cs" using that by (intro mult_le_mono1) simp
    then show "j * ?cs < len" using le assms(3) by simp
  qed
  have "(k + q) * 512 \<le> (k + q) * ?cs" using assms(3) by (rule mult_le_mono2)
  then have kq: "k + q < 2 ^ 28" using le assms(5) by (simp add: two32_def)
  note loop = read_loop_cached [OF assms(1,2) m(2), of q acc, OF ch kq, folded m(1)]
  show ?thesis
  proof (cases "read_loop ve node ?p ?cs (int m) acc s")
    case None
    then show ?thesis using loop by (simp add: read_tail_def)
  next
    case (Some t)
    define X where "X = map ?f [k * ?cs..<(k + q) * ?cs]"
    from Some obtain s' where s': "read_loop ve node ?p ?cs (int m) acc s = Some ((True, int r, acc @ X), s')" "cached ve D L b nd node (k + q) s'"
      using loop unfolding X_def by (cases t) auto
    have "cache_get ?p 0 (int r) s' = Some (map ?f [(k + q) * ?cs..<(k + q) * ?cs + r])"
      using cache_get_cached [OF s'(2), of r 0] assms(6) [of "k + q"] le m(2) by (cases "r = 0") simp_all
    moreover have "[k * ?cs..<(k + q) * ?cs] @ [(k + q) * ?cs..<(k + q) * ?cs + r] = [k * ?cs..<k * ?cs + m]"
      using upt_add_eq_append [of "k * ?cs" "(k + q) * ?cs" r] m(1) by (simp add: algebra_simps)
    then have "X @ map ?f [(k + q) * ?cs..<(k + q) * ?cs + r] = map ?f [k * ?cs..<k * ?cs + m]" unfolding X_def by (simp only: flip: map_append)
    moreover have "length X + r = m" using m(1) by (simp add: X_def algebra_simps)
    ultimately show ?thesis using s' by (auto simp: read_tail_def)
  qed
qed

subsection \<open>Properties\<close>

text \<open>
  C39. \<^verbatim>\<open>follow_cluster_chain\<close> is the walk along the chain: for a file allocation table whose links stay inside, the result is the cluster that is \<open>d\<close> links after \<open>c\<close>, or 0 if the chain ends before; the memory
  for the copy of the table is released, and nothing but the heap has changed. It returns unless the heap fails.
\<close>

theorem follow_cluster_chain_walks:
  assumes "get_bpb sbp s = Some (sb, b)" "disk_reads ve (fs_dev sb) D" "fat_ok D b" "c < fat_size b div 4" "c < 2 ^ 28" "kmalloc_live (fa_heap s) L"
  shows "case follow_cluster_chain ve sbp c d s of
      None \<Rightarrow> heap_stuck (fat_size b) (fa_heap s)
    | Some (c', s') \<Rightarrow> c' = chain (fat_entry D b) c d \<and> (\<exists>h. s' = s\<lparr>fa_heap := h\<rparr> \<and> kmalloc_live h L)"
  using follow_chain [OF assms, of d] by (auto split: option.splits)

text \<open>
  C40. \<^verbatim>\<open>read\<close> returns the bytes of the file: for a file that is open, with a chain of clusters as long as the file and nothing written to the cache, reading \<open>n\<close> bytes from \<open>off\<close> on, up to the end of the file, returns \<open>n\<close> and
  the bytes \<open>off\<close> to \<open>off + n\<close> of the clusters in their order, whatever cluster is cached, and the cache is consistent again.
\<close>

theorem fat32_read_contents:
  assumes "cached ve D L b nd node k s" "inode_ok D b nd" "512 \<le> cluster_size b" "fn_len nd = int len" "len < two32" "0 < n" "off + n \<le> len"
    and "\<And>j. j * cluster_size b < len \<Longrightarrow> chain (fat_entry D b) (fn_inode nd) j \<noteq> 0"
  shows "case fat32_read ve node (int n) (int off) s of
      None \<Rightarrow> heap_stuck (fat_size b) (fa_heap s)
    | Some ((r, bs), s') \<Rightarrow> r = int n \<and> bs = map (file_byte D b (fn_inode nd)) [off..<off + n] \<and> (\<exists>k'. cached ve D L b nd node k' s')"
proof -
  let ?cs = "cluster_size b" and ?f = "file_byte D b (fn_inode nd)" and ?p = "fn_private_data nd"
  define q o' where "q = off div ?cs" and "o' = off mod ?cs"
  have off: "off = q * ?cs + o'" "o' < ?cs" using assms(3) by (simp_all add: q_def o'_def)
  have le: "q * ?cs + o' + n \<le> len" using assms(7) off by simp
  have cl: "fn_len (nd\<lparr>fn_impl := x\<rparr>) = int len" for x using assms(4) by simp
  have count: "u64 (int n + int off) \<ge> int len \<longrightarrow> u64 (int len - int off) = int n"
    using assms(5,7) by (auto simp: u64_def two32_def)
  obtain sb where s: "fa_nodes s node = Some (nd\<lparr>fn_impl := of_nat k\<rparr>)" "get_bpb (fn_fs_sb nd) s = Some (sb, b)" using assms(1) by (auto simp: cached_def reading_def)
  have sm: "int off smod int ?cs = int o'" using assms(3) by (simp add: smod_nonneg o'_def zmod_int)
  have "q * 512 \<le> q * ?cs" using assms(3) by (rule mult_le_mono2)
  then have "q + 1 < 268435456" using le assms(5) unfolding two32_def by linarith
  then have q: "q + 1 < 2 ^ 28" by simp
  note seek = seek_cluster_cached [OF assms(1,2), of off, folded q_def]
  show ?thesis
  proof (cases "seek_cluster ve node (int off) ?cs s")
    case None
    then show ?thesis using seek assms(3,6) q s by (simp add: fat32_read_def)
  next
    case (Some t)
    then obtain s1 where s1: "seek_cluster ve node (int off) ?cs s = Some (True, s1)" "cached ve D L b nd node q s1" "heap_stuck (fat_size b) (fa_heap s1) \<longrightarrow> heap_stuck (fat_size b) (fa_heap s)"
      using seek assms(3) q by (cases t) auto
    have u: "u64 (int o' + int n) = int (o' + n)" using le assms(5) by (simp add: u64_def two32_def)
    show ?thesis
    proof (cases "o' + n < ?cs")
      case True
      then have "read_loop ve node ?p ?cs (int n) [] s1 = Some ((True, int n, []), s1)" by (subst read_loop.simps) simp
      moreover have "cache_get ?p (int o') (int n) s1 = Some (map ?f [off..<off + n])"
        using cache_get_cached [OF s1(2), of n o'] True le assms(6) assms(8) [of q] off by simp
      ultimately have "fat32_read ve node (int n) (int off) s = Some ((int n, map ?f [off..<off + n]), s1)"
        using s s1(1) True assms(6) count sm u by (simp add: fat32_read_def cl Let_def)
      then show ?thesis using s1(2) by auto
    next
      case False
      have b0: "cache_get ?p (int o') (int ?cs - int o') s1 = Some (map ?f [off..<(q + 1) * ?cs])"
        using cache_get_cached [OF s1(2), of "?cs - o'" o'] off le assms(6) assms(8) [of q] by (simp add: of_nat_diff add.commute)
      obtain s2 where s2: "next_cluster node s1 = Some s2" "reading ve D L b nd node (q + 1) s2" "fa_heap s2 = fa_heap s1"
        using reading_next [of ve D L b nd node q s1] s1(2) q by (auto simp: cached_def)
      define m where "m = n - (?cs - o')"
      have m: "u64 (int n - (int ?cs - int o')) = int m" "(q + 1) * ?cs + m = off + n" using False off le assms(5) by (simp_all add: m_def u64_def two32_def)
      have run: "fat32_read ve node (int n) (int off) s = do { (ok, s) \<leftarrow> load_cached ve node s2;
          if \<not> ok then Some ((int (length (map ?f [off..<(q + 1) * ?cs])), map ?f [off..<(q + 1) * ?cs]), s) else read_tail ve node ?p ?cs 0 (int m) (map ?f [off..<(q + 1) * ?cs]) s }"
        using s s1(1) s2(1) b0 False assms(6) count sm u m(1) by (simp add: fat32_read_def read_tail_def cl Let_def split: bind_split)
      note load = load_cached_reading [OF s2(2) assms(2)]
      show ?thesis
      proof (cases "load_cached ve node s2")
        case None
        then show ?thesis using load s1(3) s2(3) unfolding run by simp
      next
        case (Some t)
        then obtain s3 where s3: "load_cached ve node s2 = Some (True, s3)" "cached ve D L b nd node (q + 1) s3" "heap_stuck (fat_size b) (fa_heap s3) \<longrightarrow> heap_stuck (fat_size b) (fa_heap s)"
          using load s1(3) s2(3) by (cases t) auto
        have le2: "(q + 1) * ?cs + m \<le> len" using m(2) assms(7) by simp
        have "off \<le> (q + 1) * ?cs" using off by simp
        then have "[off..<(q + 1) * ?cs] @ [(q + 1) * ?cs..<(q + 1) * ?cs + m] = [off..<off + n]" "length [off..<(q + 1) * ?cs] + m = n"
          using upt_add_eq_append [of off "(q + 1) * ?cs" m] m(2) by (simp_all only: length_upt)
        with read_tail_cached [OF s3(2) assms(2,3) le2 assms(5,8), of "map ?f [off..<(q + 1) * ?cs]"] s3(3) show ?thesis unfolding run s3(1)
          by (auto split: option.splits simp flip: map_append)
      qed
    qed
  qed
qed

text \<open>
  A disk with sectors of 512 bytes and clusters of one sector: a file in the clusters 3 and 5, of 700 bytes. The bytes of a cluster are its number.
\<close>

definition demo_fat_disk :: "nat \<Rightarrow> 8 word" where
  "demo_fat_disk x = (if x = 524 then 5 else if x < 1024 then 0 else of_nat (x div 512))"

definition demo_fat_env :: "unit vfs_env" where
  "demo_fat_env = \<lparr>ve_read_vfs = (\<lambda>_ n off d. Some ((int n, map demo_fat_disk [nat off..<nat off + n]), d)), ve_write_vfs = (\<lambda>_ bs _ d. Some (int (length bs), d)),
     ve_get_dev = (\<lambda>_. 0), ve_time = 0, ve_sizeof_fs_node = 100, ve_sizeof_superblock = 32\<rparr>"

definition demo_boot_record :: fat32_boot_record where
  "demo_boot_record = (boot_record_of (replicate 95 0))\<lparr>br_bps := 512, br_spc := 1, br_nres := 1, br_nFAT := 1, br_spf := 1, br_nsect_long := 128, br_root_cluster := 2, br_sig := 0x29\<rparr>"

definition demo_fat_node :: fat_node where
  "demo_fat_node = \<lparr>fn_name = [], fn_mask = 0, fn_uid = 0, fn_gid = 0, fn_flags = 0x010000, fn_inode = 3, fn_len = 700, fn_impl = 0, fn_fs_sb = 200, fn_private_data = 600\<rparr>"

definition demo_fat :: "unit fat" where
  "demo_fat = \<lparr>fa_heap = demo_six, fa_dev = (), fa_bpbs = [300 \<mapsto> demo_boot_record], fa_sbs = [200 \<mapsto> \<lparr>fs_dev = 400, fs_private_data = 300, fs_root = NULL, fs_flags = 0\<rparr>],
     fa_nodes = [100 \<mapsto> demo_fat_node], fa_inodes = Map.empty, fa_bufs = [600 \<mapsto> cluster_bytes demo_fat_disk demo_boot_record 3]\<rparr>"

lemma demo_boot_record_simps [simp]: "fat_size demo_boot_record = 512" "cluster_size demo_boot_record = 512"
  by (simp_all add: fat_size_def cluster_size_def demo_boot_record_def mul32_def two32_def)

lemma demo_fat_entry: "c < 128 \<Longrightarrow> fat_entry demo_fat_disk demo_boot_record c = (if c = 3 then 5 else 0)"
proof -
  assume "c < 128"
  have "Suc (512 + 4 * c) \<noteq> 524" "Suc (Suc (512 + 4 * c)) \<noteq> 524" "Suc (Suc (Suc (512 + 4 * c))) \<noteq> 524" by presburger+
  then show ?thesis using \<open>c < 128\<close> by (auto simp: fat_entry_def le32_def le16_def demo_boot_record_def demo_fat_disk_def)
qed

lemma demo_fat_ok: "fat_ok demo_fat_disk demo_boot_record" "inode_ok demo_fat_disk demo_boot_record demo_fat_node"
proof -
  show "fat_ok demo_fat_disk demo_boot_record"
    using demo_fat_entry by (auto simp: fat_ok_def heap_limit_def two32_def end_mark_def) (simp_all add: demo_boot_record_def)
  then show "inode_ok demo_fat_disk demo_boot_record demo_fat_node" by (simp add: inode_ok_def demo_fat_node_def)
qed

lemma demo_fat_chain: "chain (fat_entry demo_fat_disk demo_boot_record) 3 0 = 3" "chain (fat_entry demo_fat_disk demo_boot_record) 3 1 = 5"
  by (simp_all add: demo_fat_entry end_mark_def FAT32_LAST_CLUSTER_def)

lemma demo_cluster_off: "cluster_off demo_boot_record 3 = 1536" "cluster_off demo_boot_record 5 = 2560"
  by (simp_all add: cluster_off_def demo_boot_record_def add32_def mul32_def sub32_def two32_def)

lemma demo_fat_cached: "cached demo_fat_env demo_fat_disk demo_live demo_boot_record demo_fat_node 100 0 demo_fat"
  using demo_six_live by (simp add: cached_def reading_def demo_fat_def demo_fat_node_def get_bpb_def disk_reads_def demo_fat_env_def cluster_bytes_def)

theorem fat32_read_contents_witness:
  "case fat32_read demo_fat_env 100 4 510 demo_fat of None \<Rightarrow> heap_stuck 512 demo_six | Some ((r, bs), s') \<Rightarrow> r = 4 \<and> bs = [3, 3, 5, 5]"
proof -
  have i: "fn_inode demo_fat_node = 3" "fn_len demo_fat_node = int 700" by (simp_all add: demo_fat_node_def)
  have ch: "chain (fat_entry demo_fat_disk demo_boot_record) (fn_inode demo_fat_node) j \<noteq> 0" if "j * cluster_size demo_boot_record < 700" for j
  proof -
    have "j = 0 \<or> j = 1" using that by auto
    then show ?thesis using demo_fat_chain unfolding i by auto
  qed
  have "map (file_byte demo_fat_disk demo_boot_record 3) [510..<514] = [3, 3, 5, 5]"
    by (simp add: file_byte_def upt_rec demo_fat_chain [simplified] demo_cluster_off demo_fat_disk_def)
  with fat32_read_contents [OF demo_fat_cached demo_fat_ok(2) _ i(2) _ _ _ ch, of 4 510] show ?thesis
    by (auto simp: i two32_def demo_fat_def split: option.splits)
qed

theorem follow_cluster_chain_walks_witness:
  "case follow_cluster_chain demo_fat_env 200 3 1 demo_fat of None \<Rightarrow> heap_stuck 512 demo_six | Some (c, s') \<Rightarrow> c = 5"
proof -
  have g: "get_bpb 200 demo_fat = Some (\<lparr>fs_dev = 400, fs_private_data = 300, fs_root = NULL, fs_flags = 0\<rparr>, demo_boot_record)" by (simp add: get_bpb_def demo_fat_def)
  have d: "disk_reads demo_fat_env (fs_dev \<lparr>fs_dev = 400, fs_private_data = 300, fs_root = NULL, fs_flags = 0\<rparr>) demo_fat_disk" by (simp add: disk_reads_def demo_fat_env_def)
  have l: "kmalloc_live (fa_heap demo_fat) demo_live" using demo_six_live by (simp add: demo_fat_def)
  from follow_cluster_chain_walks [OF g d demo_fat_ok(1) _ _ l, of 3 1] demo_fat_chain show ?thesis by (auto simp: demo_fat_def split: option.splits)
qed

text \<open>Closing the file that was opened first, while another one is open, does not find it: the search starts at the second record and runs off the end of the list.\<close>

theorem close_first_open_faults:
  assumes "fa_bpbs s bp = Some b" "\<not> br_lock b" "br_inode_list b = p" "p \<noteq> NULL" "fa_inodes s p = Some i" "fi_next i = q" "q \<noteq> NULL" "fa_inodes s q = Some j" "fi_next j = NULL" "fi_first_cluster j \<noteq> c"
  shows "close_inode bp c s = None"
proof -
  let ?s = "s\<lparr>fa_bpbs := (fa_bpbs s)(bp \<mapsto> b\<lparr>br_lock := True\<rparr>)\<rparr>"
  have "find_before c p ?s = None" using assms(5-10) by (subst find_before.simps, simp, subst find_before.simps, simp)
  then show ?thesis using assms by (simp add: close_inode_def lock_bpb_def upd_bpb_def)
qed

end
