(* ===== verification/String_Moves.thy ===== *)
theory String_Moves
  imports Strings
begin

section \<open>The string routines the kernel does not call (kernel/string.s)\<close>

text \<open>
  \<^verbatim>\<open>memcmp\<close> and \<^verbatim>\<open>strncmp\<close> compare with \<^verbatim>\<open>repe cmpsb\<close>; the flags before are an argument, for a length of 0. \<^verbatim>\<open>memmove\<close> works on memory by address, since source and destination may overlap. \<^verbatim>\<open>strncpy\<close> never returns to its caller.
\<close>

definition memcmp :: "bytes \<Rightarrow> bytes \<Rightarrow> nat \<Rightarrow> int \<Rightarrow> int option" where
  "memcmp buf1 buf2 n flags = cmpsb buf1 buf2 n flags"

text \<open>The first string is at \<^verbatim>\<open>esi\<close> here, and the end of the strings is not looked for.\<close>

definition strncmp :: "bytes \<Rightarrow> bytes \<Rightarrow> nat \<Rightarrow> int \<Rightarrow> int option" where
  "strncmp str1 str2 len flags = cmpsb str2 str1 len flags"

text \<open>\<^verbatim>\<open>rep movsb\<close> with the direction flag clear and set.\<close>

fun movsb_up :: "nat \<Rightarrow> nat \<Rightarrow> nat \<Rightarrow> (nat \<Rightarrow> 8 word) \<Rightarrow> (nat \<Rightarrow> 8 word)" where
  "movsb_up edi esi 0 m = m"
| "movsb_up edi esi (Suc n) m = movsb_up (add32 edi 1) (add32 esi 1) n (m(edi := m esi))"

fun movsb_down :: "nat \<Rightarrow> nat \<Rightarrow> nat \<Rightarrow> (nat \<Rightarrow> 8 word) \<Rightarrow> (nat \<Rightarrow> 8 word)" where
  "movsb_down edi esi 0 m = m"
| "movsb_down edi esi (Suc n) m = movsb_down (sub32 edi 1) (sub32 esi 1) n (m(edi := m esi))"

definition signed32 :: "nat \<Rightarrow> int" where
  "signed32 a = (if a < 2 ^ 31 then int a else int a - 2 ^ 32)"

text \<open>Copying goes up if the destination is not below the source, and down otherwise. On the way down \<^verbatim>\<open>esi\<close> is decremented twice and \<^verbatim>\<open>edi\<close> not at all.\<close>

definition memmove :: "nat \<Rightarrow> nat \<Rightarrow> nat \<Rightarrow> (nat \<Rightarrow> 8 word) \<Rightarrow> (nat \<Rightarrow> 8 word)" where
  "memmove dest src n m =
    (if signed32 dest \<ge> signed32 src then movsb_up dest src n m
     else movsb_down (add32 dest n) (sub32 (sub32 (add32 src n) 1) 1) n m)"

text \<open>
  \<^verbatim>\<open>strlen\<close> leaves the length of \<open>src\<close> in \<^verbatim>\<open>ecx\<close>, where \<open>len\<close> was. After the copy \<^verbatim>\<open>ecx\<close> is 0, so that \<^verbatim>\<open>memset\<close> is asked to clear all memory behind it; its arguments are left on the stack, where the return address should be.
\<close>

definition strncpy :: "bytes \<Rightarrow> bytes \<Rightarrow> nat \<Rightarrow> bytes option" where
  "strncpy dest src len = do {
     ecx \<leftarrow> strlen src;
     let eax = add32 ecx 1;
     if signed32 ecx \<ge> signed32 eax then memcpy dest src ecx
     else do {
       dest \<leftarrow> memcpy dest src eax;
       _ \<leftarrow> memset (drop eax dest) 0 (sub32 0 eax);
       None
     }
   }"

subsection \<open>What they do\<close>

lemma movsb_up_copies:
  assumes "edi + n \<le> two32" "esi + n \<le> two32" "edi \<le> esi \<or> esi + n \<le> edi"
  shows "movsb_up edi esi n m = (\<lambda>x. if edi \<le> x \<and> x < edi + n then m (esi + (x - edi)) else m x)"
  using assms
proof (induction n arbitrary: edi esi m)
  case (Suc n)
  show ?case
  proof (cases "n = 0")
    case False
    then have n: "add32 edi 1 = edi + 1" "add32 esi 1 = esi + 1" using Suc.prems by (simp_all add: add32_def)
    have step: "movsb_up edi esi (Suc n) m = movsb_up (edi + 1) (esi + 1) n (m(edi := m esi))" by (simp only: movsb_up.simps n)
    have "movsb_up (edi + 1) (esi + 1) n (m(edi := m esi)) = (\<lambda>x. if edi + 1 \<le> x \<and> x < edi + 1 + n then (m(edi := m esi)) (esi + 1 + (x - (edi + 1))) else (m(edi := m esi)) x)"
      using Suc.prems by (intro Suc.IH) auto
    then show ?thesis unfolding step using Suc.prems(3) by (auto simp: fun_eq_iff Suc_diff_Suc simp flip: Suc_diff_le intro!: arg_cong [where f = m])
  qed (auto simp: fun_eq_iff)
qed (auto simp: fun_eq_iff)

text \<open>\<^verbatim>\<open>memmove\<close> to a region at or above the source copies it if the regions do not overlap.\<close>

lemma memmove_up:
  assumes "dest + n < 2 ^ 31" "src + n \<le> dest"
  shows "memmove dest src n m = (\<lambda>x. if dest \<le> x \<and> x < dest + n then m (src + (x - dest)) else m x)"
proof -
  have "signed32 dest \<ge> signed32 src" using assms by (auto simp: signed32_def)
  then show ?thesis using assms by (simp add: memmove_def) (rule movsb_up_copies; simp add: two32_def)
qed

text \<open>To a region that overlaps it does not: one byte above, every byte becomes the first one.\<close>

lemma movsb_up_fills:
  assumes "esi + n + 1 < two32"
  shows "movsb_up (esi + 1) esi n m = (\<lambda>x. if esi < x \<and> x \<le> esi + n then m esi else m x)"
  using assms
proof (induction n arbitrary: esi m)
  case (Suc n)
  have n: "add32 (esi + 1) 1 = esi + 1 + 1" "add32 esi 1 = esi + 1" using Suc.prems by (simp_all add: add32_def)
  have "movsb_up (esi + 1) esi (Suc n) m = movsb_up (esi + 1 + 1) (esi + 1) n (m(esi + 1 := m esi))" by (simp only: movsb_up.simps n)
  also have "\<dots> = (\<lambda>x. if esi + 1 < x \<and> x \<le> esi + 1 + n then (m(esi + 1 := m esi)) (esi + 1) else (m(esi + 1 := m esi)) x)"
    using Suc.prems by (intro Suc.IH) simp
  finally show ?case by (auto simp: fun_eq_iff)
qed (auto simp: fun_eq_iff)

lemma memmove_overlap:
  assumes "src + n + 1 < 2 ^ 31"
  shows "memmove (src + 1) src n m = (\<lambda>x. if src < x \<and> x \<le> src + n then m src else m x)"
  using assms movsb_up_fills [of src n m] by (simp add: memmove_def signed32_def two32_def)

text \<open>To a region below it copies the wrong bytes to the wrong place, one byte off each way.\<close>

lemma memmove_down: "memmove 100 200 1 m = m(101 := m 199)"
  by (simp add: memmove_def signed32_def add32_def sub32_def two32_def)

lemma strncpy_fails:
  assumes "c_string s" "length s + 1 < 2 ^ 31"
  shows "strncpy dest (c_mem s) len = None"
  using assms strlen_c_mem [OF assms(1), of "[]"] by (auto simp: strncpy_def signed32_def add32_def two32_def Let_def split: bind_split)

end
