(* ===== verification/Vfs_Types.thy ===== *)
theory Vfs_Types
  imports Trees Hashmap_Spec
begin

section \<open>The types of file systems (kernel/vfs.c)\<close>

text \<open>
  \<^verbatim>\<open>init_vfs\<close> makes the empty tree of mount points and the hash map of the types of file systems, \<^verbatim>\<open>register_fs\<close> adds a type, and \<^verbatim>\<open>mount\<close> looks it up by name. The two global variables and the memory of the structures are the state; the tree itself is
  in Vfs, whose \<open>mount\<close> has the look-up as an argument.
\<close>

record vfs_tables =
  vt_filesystem :: addr
  vt_fs_types :: addr
  vt_mem :: "liballoc kmem"

definition init_vfs :: "vfs_tables \<Rightarrow> vfs_tables option" where
  "init_vfs s = do {
     ASSERT (vt_filesystem s = NULL \<and> vt_fs_types s = NULL);
     (t, m) \<leftarrow> tree_create kmalloc (vt_mem s);
     ASSERT (t \<noteq> NULL);
     (h, m) \<leftarrow> hashmap_create kmalloc kfree 32 None m;
     ASSERT (h \<noteq> NULL);
     Some \<lparr>vt_filesystem = t, vt_fs_types = h, vt_mem = m\<rparr>
   }"

definition register_fs :: "bytes \<Rightarrow> addr \<Rightarrow> vfs_tables \<Rightarrow> (int \<times> vfs_tables) option" where
  "register_fs nm fs s = do {
     (r, m) \<leftarrow> hashmap_insert kmalloc kfree (vt_fs_types s) (Some nm) fs (vt_mem s);
     Some (r, s\<lparr>vt_mem := m\<rparr>)
   }"

definition find_fs :: "bytes \<Rightarrow> vfs_tables \<Rightarrow> addr option" where
  "find_fs nm s = hashmap_find (vt_fs_types s) (Some nm) (vt_mem s)"

definition types_ok :: "hentry list list \<Rightarrow> vfs_tables \<Rightarrow> bool" where
  "types_ok bs s \<longleftrightarrow> mem_ok kmalloc_live (vt_mem s) \<and> (\<exists>t. hashmap_rep (objs (vt_mem s)) (vt_fs_types s) t bs)
     \<and> (\<forall>e \<in> set (concat bs). he_value e \<noteq> NULL)"

text \<open>\<^verbatim>\<open>init_vfs\<close> returns with an empty map unless the heap fails.\<close>

lemma init_vfs_empty:
  assumes "mem_ok kmalloc_live (vt_mem s)" "vt_filesystem s = NULL" "vt_fs_types s = NULL"
  shows "case init_vfs s of
      None \<Rightarrow> \<not> allocs kmalloc [sizeof_tree_t, sizeof_hashmap_t, 384] (kheap_of (vt_mem s))
    | Some s' \<Rightarrow> types_ok (replicate 32 []) s' \<and> vt_filesystem s' \<noteq> NULL"
proof -
  note new = kobjects.new_obj_ok [OF assms(1), of sizeof_tree_t]
  show ?thesis
  proof (cases "new_obj kmalloc sizeof_tree_t (vt_mem s)")
    case None
    then show ?thesis using new assms by (simp add: init_vfs_def tree_create_def sizeof_defs heap_limit_def)
  next
    case (Some r)
    obtain t m where "r = (t, m)" by (cases r)
    note t = Some [unfolded this]
    have p: "t \<noteq> NULL" "objs m = (objs (vt_mem s))(t \<mapsto> Raw)" "mem_ok kmalloc_live m" using new t by (auto simp: sizeof_defs heap_limit_def)
    let ?m = "m\<lparr>objs := (objs m)(t \<mapsto> Tree_obj \<lparr>tree_root = NULL\<rparr>)\<rparr>"
    have put: "put_obj t (Tree_obj \<lparr>tree_root = NULL\<rparr>) m = Some ?m" using p by (simp add: put_obj_def)
    have m: "mem_ok kmalloc_live ?m" using p by (auto simp: mem_ok_def)
    have h0: "allocs kmalloc [sizeof_tree_t, sizeof_hashmap_t, 384] (kheap_of (vt_mem s)) = allocs kmalloc [sizeof_hashmap_t, 384] (kheap_of ?m)"
      using allocs_step [of kmalloc sizeof_tree_t _ "vt_mem s"] t by (simp del: allocs.simps)
    have "12 * 32 \<le> heap_limit" "12 * (32 :: nat) < two32" by (simp_all add: heap_limit_def two32_def)
    note hc = kobjects.hashmap_create_ok [OF m _ this, of None]
    show ?thesis
    proof (cases "hashmap_create kmalloc kfree 32 None ?m")
      case None
      then have "\<not> allocs kmalloc [sizeof_hashmap_t, 384] (kheap_of ?m)" using hc by auto
      then show ?thesis unfolding h0 using None t put p(1) assms by (simp add: init_vfs_def tree_create_def del: allocs.simps)
    next
      case (Some hm)
      then obtain h m' arr where "hashmap_create kmalloc kfree 32 None ?m = Some (h, m')" "mem_ok kmalloc_live m'"
        "hashmap_rep (objs m') h \<lparr>hm_array = arr, hm_hash = djb2, hm_n = 32\<rparr> (replicate 32 [])" using hc by (cases hm) auto
      moreover from this have "h \<noteq> NULL" by (simp add: hashmap_rep_def)
      ultimately show ?thesis using t put p(1) assms by (auto simp: init_vfs_def tree_create_def types_ok_def)
    qed
  qed
qed

text \<open>
  A type of file system registered under a name is found under it, unless a name was registered before that begins as the new one does, in which case \<^verbatim>\<open>register_fs\<close> returns an error.
\<close>

lemma register_fs_found:
  assumes "types_ok bs s" "c_string nm" "length nm + 1 \<le> heap_limit" "find_fs nm s = Some NULL"
  shows "case register_fs nm fs s of
      None \<Rightarrow> kfree_fails kmalloc_live (kfree :: liballoc kfree_fn) \<or> \<not> allocs kmalloc [length nm + 1, sizeof_kv_t] (kheap_of (vt_mem s))
    | Some (r, s') \<Rightarrow> r = 0 \<longrightarrow> find_fs nm s' = Some fs"
proof -
  from assms(1) obtain t where t: "mem_ok kmalloc_live (vt_mem s)" "hashmap_rep (objs (vt_mem s)) (vt_fs_types s) t bs" "\<forall>e \<in> set (concat bs). he_value e \<noteq> NULL"
    by (auto simp: types_ok_def)
  have i: "bucket_of t nm < length bs" using t(2) by (simp add: hashmap_rep_def bucket_of_def)
  have "find_entry nm (bs ! bucket_of t nm) = None"
  proof (rule ccontr)
    assume "find_entry nm (bs ! bucket_of t nm) \<noteq> None"
    then obtain e where e: "find_entry nm (bs ! bucket_of t nm) = Some e" by blast
    then have "e \<in> set (bs ! bucket_of t nm)" by (auto simp: find_entry_def find_Some_iff)
    then have "he_value e \<noteq> NULL" using t(3) nth_mem [OF i] by auto
    then show False using e hashmap_find_ok [OF t(2) assms(2)] assms(4) by (simp add: find_fs_def)
  qed
  then show ?thesis using hashmap_insert_find [OF t(1,2) assms(2,3,2), of fs]
    by (auto simp: register_fs_def find_fs_def simp del: allocs.simps split: option.splits bind_split)
qed

end
