(* ===== verification/Spec2Isabelle.thy ===== *)
theory Spec2Isabelle
  imports Time Trees Hashmap_Spec Fileops Printf Gdt Syscall Term Devfs_Spec Ide_Spec Elf_Spec Fat32_Spec String_Moves Vfs_Types
begin

text \<open>
  Dionysus is a small kernel for 32-bit x86 machines. This is a model of its C code and of the assembly routines the C code
  relies on, with theorems about what the code does. Paths are relative to \<^verbatim>\<open>src/kernel\<close>.

  \<^bold>\<open>How the code is modelled.\<close> A function of the source is a HOL function of the same name, or of a longer one where the name is
  taken. It gets the state it works on and returns it changed. The result type is an option: \<open>None\<close> is a run from which the code
  does not return regularly, that is a failed \<^verbatim>\<open>ASSERT\<close> or a panic, an access through a null or dangling pointer, or a loop that
  never ends (Prelude). Error codes are returned values, as in the source. A C structure is a record; objects in memory are kept
  in maps from addresses to records, so that aliasing and use after release show. A 32-bit quantity that is only added and
  compared is a natural number and the wrap-around is written out (\<open>add32\<close>, \<open>sub32\<close>, \<open>mul32\<close>); flags and device registers are
  words. A loop is a recursive function; a loop that may run forever, because it follows pointers or waits, is a
  \<^theory_text>\<open>partial_function\<close>, whose value \<open>None\<close> is that it does not end, and the theorems state that it returns wherever they
  say so. No fuel is used. What is not in the repository, or is called through a pointer, is an argument: the contents of the clock chip, the
  ports of the bus and the disks, the handler of a block device, the functions of a driver, the kernel functions behind the system call table.

  A function that can sleep is modelled by the rounds between which other tasks run (Mutex, Timer, Block); properties of interleavings
  are stated over step relations.

  \<^bold>\<open>The parts\<close>, from the bottom up, with the theories that model them:

  \<^item> Memory. \<^verbatim>\<open>paging.c\<close>: Bitmap and Paging, the frame bitmap, page tables and directories, cloning of address spaces.
    \<^verbatim>\<open>kmalloc.c\<close>: Kmalloc (the code), Kmalloc_Inv, Kmalloc_Frames, Kmalloc_Alloc, Kmalloc_Free (the invariant of the heap and that each case
    of the allocator keeps it), Kmalloc_Spec and Kmalloc_Realloc (the contract). The locale \<open>allocator\<close> of Kmalloc_Spec is what the rest of the
    kernel relies on; it is interpreted on \<^verbatim>\<open>kmalloc\<close>, \<^verbatim>\<open>kvalloc\<close> and \<^verbatim>\<open>kfree\<close>, and extended to typed objects by \<open>object_heap\<close> in Objects.
    Memory is what the processor does when the kernel reads and writes bytes at virtual addresses.
  \<^item> Strings and data structures. \<^verbatim>\<open>string.s\<close>: Strings, and String_Moves for what the kernel does not call. \<^verbatim>\<open>structures/list.c\<close>: Lists, and Queues for the list as a sequence.
    \<^verbatim>\<open>structures/hashmap.c\<close>: Hashmap and, as a finite map, Hashmap_Spec. \<^verbatim>\<open>structures/tree.c\<close>: Trees.
    \<^verbatim>\<open>structures/mutex.c\<close>: Mutex.
  \<^item> Processes. \<^verbatim>\<open>task.c\<close> and \<^verbatim>\<open>process.s\<close>: Task (process table, scheduler, wait queues, tasklets, fork, exit, identities), Sched (the invariant
    of the queues as a step relation, and that every ready task runs) and Process (identifiers, priorities, user identities).
    \<^verbatim>\<open>elf.c\<close>: Elf, the loading of programs, and Elf_Spec.
  \<^item> The processor. \<^verbatim>\<open>gdt.c\<close>: Gdt. \<^verbatim>\<open>idt.c\<close>: Idt. \<^verbatim>\<open>syscall.c\<close> with the macros of \<^verbatim>\<open>Include/syscall.h\<close>: Syscall.
    \<^verbatim>\<open>timer.c\<close>: Timer. \<^verbatim>\<open>time.c\<close>: Time. Bytes written to ports are kept in order in the state.
  \<^item> The console. \<^verbatim>\<open>monitor.c\<close>: Monitor. \<^verbatim>\<open>printf.c\<close>: Printf. \<^verbatim>\<open>chardev/term.c\<close>: Term.
  \<^item> Files. \<^verbatim>\<open>vfs.c\<close>: Vfs and Vfs_Spec, and Vfs_Types for the map of file system types. \<^verbatim>\<open>fileops.c\<close>: Fileops.
  \<^item> Devices. \<^verbatim>\<open>char.c\<close>: Chardev. The structures of \<^verbatim>\<open>Include/block.h\<close> and \<^verbatim>\<open>Include/fs/dev.h\<close> and the semaphores of this layer: Drivers.
    \<^verbatim>\<open>block.c\<close>: Block. \<^verbatim>\<open>fs/dev.c\<close>: Devfs and Devfs_Spec. \<^verbatim>\<open>pci.c\<close>: Pci, the enumeration of the bus and the drivers; what is behind the ports is an argument.
    \<^verbatim>\<open>pci/ide.c\<close>: Ide, the driver of IDE disks, and Ide_Spec.
    \<^verbatim>\<open>fs/fat32.c\<close>, which is not part of the build and is written against an earlier interface of \<^verbatim>\<open>vfs.c\<close>: Fat32, with that interface as an argument, and Fat32_Spec.

  \<^bold>\<open>How they interact.\<close> Lists, hash maps and trees allocate through the contract of the heap. Task keeps its lists as
  queues, which Queues shows to be what Lists does to nodes and headers. Mutexes and semaphores sleep and wake through the wait
  queues of Task. Vfs adds file nodes and mount points to the state of the tasks and calls file systems through tables; its state leaves
  room for what a file system keeps, and Drivers fills it with the state of the device layer, so that Block and Devfs work on the same state as Vfs.

  \<^bold>\<open>What the theorems show.\<close>

  \<^item> Memory: blocks handed out are aligned and disjoint from all blocks in use, release restores the heap, allocation succeeds while memory is
    left, reallocation keeps the contents; cloned address spaces share no frames, and freeing them gives back exactly what they took.
  \<^item> Data structures: each operation refines the operation on sequences, finite maps or trees it stands for, allocates and releases
    exactly the blocks it should, and fails only if an allocation does.
  \<^item> Processes: no task is queued twice or lost, every ready task runs after as many ticks as there are tasks before it, at most one thread is in
    a critical section, identifiers are unique, and a process does not gain identities it did not have by the calls that set them;
    a segment of a program is found in memory as it is in the file, and a file that is no program is rejected.
  \<^item> Processor and console: the tables loaded at start-up mean what they should, every system call stub reaches its function and returns its
    result, the clock advances by the interrupts counted, sleepers are woken, printed numbers read back, the cursor stays on the screen, what is typed is
    read.
  \<^item> Files and devices: paths and their elements, reference counts of opened files, access rights; requests account for every sector; the chain
    of device files is a table, and a file that was created is found; the functions present on bus 0 are found and offered to the drivers that match them;
    a disk is told the sectors that were asked for, and its data get to memory and back unchanged;
    the chain of clusters of a file is followed, and reading returns its bytes.
  \<^item> Where the code does not do what it means to, a theorem states what it does instead, for example \<open>liballoc_free_next_page\<close>,
    \<open>strcmp_prefix\<close>, \<open>tree_detach_freed\<close>, \<open>partial_request_hangs\<close>, \<open>segment_overwrites_kernel\<close>.

  \<^bold>\<open>Bounds.\<close> The contract of the heap is for requests of at most \<open>heap_limit\<close> bytes, beyond which the size of a block with its headers
  wraps around. The device file system is treated with fewer files than there are inodes.

  \<^bold>\<open>Not modelled.\<close> \<^verbatim>\<open>main.c\<close> calls the initialisation functions in turn.
  \<^verbatim>\<open>boot.s\<close> and \<^verbatim>\<open>interrupt.s\<close> set up the stack and save registers. \<^verbatim>\<open>Include/pci_ids.h\<close>, \<^verbatim>\<open>Include/pci_regs.h\<close> (of which the numbers that are used have definitions),
  \<^verbatim>\<open>Include/multiboot.h\<close> and \<^verbatim>\<open>Include/cpuid.h\<close> are tables of constants. Messages printed by the code are left out.
\<close>

end
